(* ===== verification/Prelude.thy ===== *)
theory Prelude
  imports Main "HOL-Library.List_Lexorder" "HOL-Library.Char_ord"
begin

text \<open>
  Shared vocabulary of the development: the exceptions the Python code raises, the
  state-and-exception computations every stateful operation is written in, the Python
  string methods the code uses, and the generic lemmas and lemma collections of the
  component theories.
\<close>

section \<open>Lemma collections\<close>

named_theorems st_simps \<open>unfolding rules of the state-and-exception combinators\<close>
named_theorems row_simps \<open>what a statement leaves in a row or a table\<close>
named_theorems norm_simps \<open>operations that do not see the key order of JSON objects\<close>
named_theorems pol_simps \<open>definitions of the policy chain\<close>

section \<open>Exceptions\<close>

text \<open>
  One constructor per exception class of the code; the text argument names the failing
  check. A function that may raise returns \<open>exn + 'a\<close>, the exception on the left.
\<close>

datatype exn =
    ValueError string
  | TypeError string
  | KeyError string
  | RuntimeError string
  | PermissionError string
  | AuthorizationError string
  | EventValidationError string
  | HashChainError string
  | JSONDecodeError string
  | IntegrityError string
  | ProgrammingError string
  | OverflowError string
  | ConcurrentWorkUpdate string
  | InvalidTransition string string
  | WorkGraphError string
  | CapabilityGateError string
  | AdapterNotFoundError string
  | ManifestError string
  | OnboardingError string
  | NodeValidationError string
  | WorkPackageError string
  | WorkerIdentityError string
  | WorkerExecutionError string
  | NetworkDeniedError string
  | ConnectorDisabledError string
  | ReasoningPolicyError string
  | RoutingError string
  | ApprovalRequiredError string
  | MemoryNotFoundError string
  | ValidationError string
  | BundleError string
  | PatternError string
  | OSError string
  | TarError string

section \<open>State-and-exception computations\<close>

text \<open>
  An exception does not undo the writes made before it, so the state is returned in
  both cases.
\<close>

type_synonym ('s, 'a) st = "'s \<Rightarrow> (exn + 'a) \<times> 's"

definition st_ret :: "'a \<Rightarrow> ('s, 'a) st" where
  "st_ret x s = (Inr x, s)"

definition st_raise :: "exn \<Rightarrow> ('s, 'a) st" where
  "st_raise e s = (Inl e, s)"

definition st_bind :: "('s, 'a) st \<Rightarrow> ('a \<Rightarrow> ('s, 'b) st) \<Rightarrow> ('s, 'b) st" where
  "st_bind m f s = (case m s of (Inl e, s') \<Rightarrow> (Inl e, s') | (Inr x, s') \<Rightarrow> f x s')"

definition st_lift :: "exn + 'a \<Rightarrow> ('s, 'a) st" where
  "st_lift r s = (r, s)"

definition st_get :: "('s \<Rightarrow> 'a) \<Rightarrow> ('s, 'a) st" where
  "st_get f s = (Inr (f s), s)"

text \<open>Raise unless a condition holds.\<close>

definition st_guard :: "bool \<Rightarrow> exn \<Rightarrow> ('s, unit) st" where
  "st_guard b e s = (if b then Inr () else Inl e, s)"

text \<open>Sequential loop over a list (\<open>for x in xs: f(x)\<close>), stopping at the first exception.\<close>

fun st_for :: "('a \<Rightarrow> ('s, unit) st) \<Rightarrow> 'a list \<Rightarrow> ('s, unit) st" where
  "st_for f [] s = (Inr (), s)"
| "st_for f (x # xs) s =
     (case f x s of (Inl e, s') \<Rightarrow> (Inl e, s') | (Inr _, s') \<Rightarrow> st_for f xs s')"

definition rbind :: "exn + 'a \<Rightarrow> ('a \<Rightarrow> exn + 'b) \<Rightarrow> exn + 'b" where
  "rbind r f = (case r of Inl e \<Rightarrow> Inl e | Inr x \<Rightarrow> f x)"

definition rguard :: "bool \<Rightarrow> exn \<Rightarrow> exn + unit" where
  "rguard b e = (if b then Inr () else Inl e)"

fun rmap :: "('a \<Rightarrow> exn + 'b) \<Rightarrow> 'a list \<Rightarrow> exn + 'b list" where
  "rmap f [] = Inr []"
| "rmap f (x # xs) =
     (case f x of Inl e \<Rightarrow> Inl e
      | Inr y \<Rightarrow> (case rmap f xs of Inl e \<Rightarrow> Inl e | Inr ys \<Rightarrow> Inr (y # ys)))"

declare st_ret_def [st_simps] st_raise_def [st_simps] st_lift_def [st_simps]
  st_get_def [st_simps] st_guard_def [st_simps]

lemma st_bind_Inr [st_simps]: "m s = (Inr x, s') \<Longrightarrow> st_bind m f s = f x s'"
  by (simp add: st_bind_def)

lemma st_bind_Inl [st_simps]: "m s = (Inl e, s') \<Longrightarrow> st_bind m f s = (Inl e, s')"
  by (simp add: st_bind_def)

lemma st_bind_ok:
  "st_bind m f s = (Inr y, t) \<longleftrightarrow> (\<exists>x s'. m s = (Inr x, s') \<and> f x s' = (Inr y, t))"
  by (auto simp: st_bind_def split: prod.splits sum.splits)

lemma st_bind_okE [elim]:
  assumes "st_bind m f s = (Inr y, t)"
  obtains x s' where "m s = (Inr x, s')" "f x s' = (Inr y, t)"
  using assms by (auto simp: st_bind_ok)

lemma rbind_simps [simp]:
  "rbind (Inl e) f = Inl e" "rbind (Inr x) f = f x"
  by (simp_all add: rbind_def)

lemma rbind_ok: "rbind r f = Inr y \<longleftrightarrow> (\<exists>x. r = Inr x \<and> f x = Inr y)"
  by (cases r) auto

lemma rguard_ok [simp]: "rguard b e = Inr u \<longleftrightarrow> b"
  by (simp add: rguard_def)

lemma rguard_err [simp]: "rguard b e = Inl e' \<longleftrightarrow> \<not> b \<and> e' = e"
  by (auto simp: rguard_def)

lemma rmap_ok: "rmap f xs = Inr ys \<Longrightarrow> length ys = length xs \<and> (\<forall>i < length xs. f (xs ! i) = Inr (ys ! i))"
proof (induction xs arbitrary: ys)
  case Nil
  then show ?case by simp
next
  case (Cons x xs)
  from Cons.prems obtain y zs where
    "f x = Inr y" "rmap f xs = Inr zs" "ys = y # zs"
    by (auto split: sum.splits)
  with Cons.IH [of zs] show ?case
    by (auto simp: nth_Cons split: nat.splits)
qed

section \<open>Python strings\<close>

text \<open>
  A Python \<open>str\<close> is a list of characters; \<open>char\<close> ranges over the code points
  below 256. Case folding and white space follow Python on the ASCII range.
\<close>

definition is_space :: "char \<Rightarrow> bool" where
  "is_space c \<longleftrightarrow> (let n = (of_char c :: nat) in (9 \<le> n \<and> n \<le> 13) \<or> (28 \<le> n \<and> n \<le> 32))"

definition lstrip :: "string \<Rightarrow> string" where
  "lstrip s = dropWhile is_space s"

definition rstrip :: "string \<Rightarrow> string" where
  "rstrip s = rev (dropWhile is_space (rev s))"

definition strip :: "string \<Rightarrow> string" where
  "strip s = rstrip (lstrip s)"

definition rstrip_char :: "char \<Rightarrow> string \<Rightarrow> string" where
  "rstrip_char c s = rev (dropWhile (\<lambda>x. x = c) (rev s))"

definition to_lower :: "char \<Rightarrow> char" where
  "to_lower c = (let n = (of_char c :: nat) in if 65 \<le> n \<and> n \<le> 90 then char_of (n + 32) else c)"

definition lower :: "string \<Rightarrow> string" where
  "lower s = map to_lower s"

definition to_upper :: "char \<Rightarrow> char" where
  "to_upper c = (let n = (of_char c :: nat) in if 97 \<le> n \<and> n \<le> 122 then char_of (n - 32) else c)"

definition upper :: "string \<Rightarrow> string" where
  "upper s = map to_upper s"

fun starts_with :: "string \<Rightarrow> string \<Rightarrow> bool" where
  "starts_with s [] = True"
| "starts_with [] (p # ps) = False"
| "starts_with (c # cs) (p # ps) = (c = p \<and> starts_with cs ps)"

definition ends_with :: "string \<Rightarrow> string \<Rightarrow> bool" where
  "ends_with s p = starts_with (rev s) (rev p)"

text \<open>\<open>p in s\<close>\<close>

fun contains :: "string \<Rightarrow> string \<Rightarrow> bool" where
  "contains [] p = (p = [])"
| "contains (c # cs) p = (starts_with (c # cs) p \<or> contains cs p)"

fun join_with :: "string \<Rightarrow> string list \<Rightarrow> string" where
  "join_with sep [] = []"
| "join_with sep [x] = x"
| "join_with sep (x # y # ys) = x @ sep @ join_with sep (y # ys)"

text \<open>\<open>a or b\<close> for strings: the empty string is false.\<close>

definition or_str :: "string \<Rightarrow> string \<Rightarrow> string" where
  "or_str a b = (if a = [] then b else a)"

definition or_opt :: "string option \<Rightarrow> string \<Rightarrow> string" where
  "or_opt a b = (case a of None \<Rightarrow> b | Some s \<Rightarrow> or_str s b)"

lemma starts_with_append [simp]: "starts_with (p @ s) p"
  by (induction p) auto

lemma starts_with_iff: "starts_with s p \<longleftrightarrow> (\<exists>t. s = p @ t)"
  by (induction s p rule: starts_with.induct) auto

lemma starts_with_drop: "starts_with s p \<Longrightarrow> p @ drop (length p) s = s"
  by (auto simp: starts_with_iff)

lemma contains_iff: "contains s p \<longleftrightarrow> (\<exists>a b. s = a @ p @ b)"
proof (induction s)
  case Nil
  then show ?case by auto
next
  case (Cons c cs)
  show ?case
  proof
    assume "contains (c # cs) p"
    then consider t where "c # cs = p @ t" | "contains cs p"
      by (auto simp: starts_with_iff)
    then show "\<exists>a b. c # cs = a @ p @ b"
    proof cases
      case 1
      then have "c # cs = [] @ p @ t" by simp
      then show ?thesis by blast
    next
      case 2
      with Cons.IH obtain a b where "cs = a @ p @ b" by blast
      then have "c # cs = (c # a) @ p @ b" by simp
      then show ?thesis by blast
    qed
  next
    assume "\<exists>a b. c # cs = a @ p @ b"
    then obtain a b where e: "c # cs = a @ p @ b" by blast
    show "contains (c # cs) p"
    proof (cases a)
      case Nil
      with e have "starts_with (c # cs) p" by (simp add: starts_with_iff)
      then show ?thesis by simp
    next
      case (Cons d ds)
      with e have "cs = ds @ p @ b" by simp
      with Cons.IH show ?thesis by auto
    qed
  qed
qed

section \<open>Lists\<close>

lemma dropWhile_hd: "dropWhile P xs = y # ys \<Longrightarrow> \<not> P y"
  by (induction xs) (auto split: if_splits)

lemma map_of_map_snd: "map_of (map (\<lambda>(k, v). (k, f v)) xs) k = map_option f (map_of xs k)"
  by (induction xs) auto

lemma insort_key_map_snd:
  "insort_key fst (case p of (k, v) \<Rightarrow> (k, f v)) (map (\<lambda>(k, v). (k, f v)) xs)
   = map (\<lambda>(k, v). (k, f v)) (insort_key fst p xs)"
  by (induction xs) (auto split: prod.splits)

lemma sort_key_map_snd:
  "sort_key fst (map (\<lambda>(k, v). (k, f v)) xs) = map (\<lambda>(k, v). (k, f v)) (sort_key fst xs)"
  by (induction xs) (simp_all add: insort_key_map_snd)

lemma map_of_insort_key: "map_of (insort_key fst p xs) = map_of (p # xs)"
  by (induction xs) (auto simp: fun_eq_iff)

lemma map_of_sort_key: "map_of (sort_key fst xs) = map_of xs"
  by (induction xs) (simp_all add: map_of_insort_key)

lemma sort_key_sorted_id: "sorted (map f xs) \<Longrightarrow> sort_key f xs = xs"
  by (induction xs) (simp_all add: insort_is_Cons)

lemma sort_key_Nil_iff: "sort_key f xs = [] \<longleftrightarrow> xs = []"
  by (metis length_0_conv length_sort)

lemma distinct_fst_sort_key [simp]: "distinct (map fst (sort_key fst xs)) = distinct (map fst xs)"
  by (simp add: distinct_map)

section \<open>Paths\<close>

text \<open>A path as its components.\<close>

fun split_at :: "char \<Rightarrow> string \<Rightarrow> string list" where
  "split_at c [] = [[]]"
| "split_at c (x # xs) =
     (if x = c then [] # split_at c xs
      else (case split_at c xs of [] \<Rightarrow> [[x]] | y # ys \<Rightarrow> (x # y) # ys))"

lemma split_at_nonempty [simp]: "split_at c xs \<noteq> []"
  by (induction xs) (auto split: list.splits)

lemma split_at_sep: "split_at c (a @ c # b) = split_at c a @ split_at c b"
  by (induction a) (auto split: list.splits)

lemma join_split: "join_with [c] (split_at c s) = s"
proof (induction s)
  case (Cons x xs)
  show ?case
  proof (cases "split_at c xs")
    case (Cons y ys)
    with \<open>join_with [c] (split_at c xs) = xs\<close> show ?thesis by (cases ys) auto
  qed simp
qed simp

lemma split_at_inj: "split_at c s = split_at c t \<longleftrightarrow> s = t"
  by (metis join_split)

lemma join_append:
  "xs \<noteq> [] \<Longrightarrow> ys \<noteq> [] \<Longrightarrow> join_with s (xs @ ys) = join_with s xs @ s @ join_with s ys"
  by (induction s xs rule: join_with.induct) (auto simp: neq_Nil_conv)

definition components :: "string \<Rightarrow> string list" where
  "components s = split_at (CHR ''/'') s"

end
