(* ===== verification/Json.thy ===== *)
theory Json
  imports Prelude
begin

text \<open>
  JSON values, the canonical serialisation of \<open>_canonical_json\<close>
  (\<open>json.dumps(sort_keys=True, separators=(",", ":"))\<close>), the parser
  \<open>json.loads\<close>, and their round trip. Everything the program persists or digests
  goes through this text. A float is kept as its Python \<open>repr\<close>, which determines
  it. A dictionary is an association list in insertion order; \<open>norm\<close> sorts the
  keys at every level, and no operation of the program depends on more than
  \<open>norm\<close>.
\<close>

section \<open>Values\<close>

datatype json =
    JNull
  | JBool bool
  | JInt int
  | JFloat string
  | JStr string
  | JList "json list"
  | JObj "(string \<times> json) list"

type_synonym obj = "(string \<times> json) list"

text \<open>\<open>d.get(k)\<close> (with the default \<open>None\<close>), \<open>k in d\<close>, \<open>d[k] = v\<close>.\<close>

definition oget :: "obj \<Rightarrow> string \<Rightarrow> json" where
  "oget o' k = (case map_of o' k of None \<Rightarrow> JNull | Some v \<Rightarrow> v)"

definition ohas :: "obj \<Rightarrow> string \<Rightarrow> bool" where
  "ohas o' k = (map_of o' k \<noteq> None)"

definition oget_or :: "obj \<Rightarrow> string \<Rightarrow> json \<Rightarrow> json" where
  "oget_or o' k d = (case map_of o' k of None \<Rightarrow> d | Some v \<Rightarrow> v)"

fun oput :: "obj \<Rightarrow> string \<Rightarrow> json \<Rightarrow> obj" where
  "oput [] k v = [(k, v)]"
| "oput ((k', v') # o') k v = (if k' = k then (k, v) # o' else (k', v') # oput o' k v)"

text \<open>\<open>bool(v)\<close>\<close>

fun truthy :: "json \<Rightarrow> bool" where
  "truthy JNull = False"
| "truthy (JBool b) = b"
| "truthy (JInt i) = (i \<noteq> 0)"
| "truthy (JFloat s) = (s \<noteq> ''0.0'' \<and> s \<noteq> ''-0.0'')"
| "truthy (JStr s) = (s \<noteq> [])"
| "truthy (JList xs) = (xs \<noteq> [])"
| "truthy (JObj kvs) = (kvs \<noteq> [])"

definition jopt :: "string option \<Rightarrow> json" where
  "jopt s = (case s of None \<Rightarrow> JNull | Some t \<Rightarrow> JStr t)"

section \<open>Serialisation\<close>

definition digit :: "nat \<Rightarrow> char" where
  "digit n = char_of (48 + n)"

fun nat_str :: "nat \<Rightarrow> string" where
  "nat_str n = (if n < 10 then [digit n] else nat_str (n div 10) @ [digit (n mod 10)])"

declare nat_str.simps [simp del]

definition int_str :: "int \<Rightarrow> string" where
  "int_str i = (if i < 0 then CHR ''-'' # nat_str (nat (- i)) else nat_str (nat i))"

definition hex_digit :: "nat \<Rightarrow> char" where
  "hex_digit n = (if n < 10 then char_of (48 + n) else char_of (87 + n))"

text \<open>
  String escapes. With \<open>ensure_ascii\<close> every character outside the printable ASCII
  range is written \<open>\u00xx\<close>; without it only the control characters are.
\<close>

definition esc_u :: "nat \<Rightarrow> string" where
  "esc_u n = [CHR 0x5C, CHR ''u'', CHR ''0'', CHR ''0'', hex_digit (n div 16), hex_digit (n mod 16)]"

definition esc_char :: "bool \<Rightarrow> char \<Rightarrow> string" where
  "esc_char ascii c =
     (let n = (of_char c :: nat) in
      if n = 34 then [CHR 0x5C, CHR 0x22]
      else if n = 92 then [CHR 0x5C, CHR 0x5C]
      else if n = 10 then [CHR 0x5C, CHR ''n'']
      else if n = 13 then [CHR 0x5C, CHR ''r'']
      else if n = 9 then [CHR 0x5C, CHR ''t'']
      else if n = 12 then [CHR 0x5C, CHR ''f'']
      else if n = 8 then [CHR 0x5C, CHR ''b'']
      else if n < 32 \<or> (ascii \<and> 126 < n) then esc_u n
      else [c])"

definition quote :: "bool \<Rightarrow> string \<Rightarrow> string" where
  "quote ascii s = CHR 0x22 # concat (map (esc_char ascii) s) @ [CHR 0x22]"

fun dumps_with :: "bool \<Rightarrow> json \<Rightarrow> string" where
  "dumps_with a JNull = ''null''"
| "dumps_with a (JBool b) = (if b then ''true'' else ''false'')"
| "dumps_with a (JInt i) = int_str i"
| "dumps_with a (JFloat s) = s"
| "dumps_with a (JStr s) = quote a s"
| "dumps_with a (JList xs) = ''['' @ join_with '','' (map (dumps_with a) xs) @ '']''"
| "dumps_with a (JObj kvs) =
     ''{'' @ join_with '','' (map (\<lambda>(k, t). quote a k @ '':'' @ t)
        (sort_key fst (map (\<lambda>(k, v). (k, dumps_with a v)) kvs))) @ ''}''"

abbreviation dumps :: "json \<Rightarrow> string" where
  "dumps \<equiv> dumps_with True"

fun norm :: "json \<Rightarrow> json" where
  "norm (JList xs) = JList (map norm xs)"
| "norm (JObj kvs) = JObj (sort_key fst (map (\<lambda>(k, v). (k, norm v)) kvs))"
| "norm j = j"

definition onorm :: "obj \<Rightarrow> obj" where
  "onorm o' = sort_key fst (map (\<lambda>(k, v). (k, norm v)) o')"

lemma norm_JObj [norm_simps]: "norm (JObj o') = JObj (onorm o')"
  by (simp add: onorm_def)

section \<open>Parsing\<close>

definition is_ws :: "char \<Rightarrow> bool" where
  "is_ws c \<longleftrightarrow> c = CHR '' '' \<or> c = CHR 0x0A \<or> c = CHR 0x0D \<or> c = CHR 0x09"

definition skip_ws :: "string \<Rightarrow> string" where
  "skip_ws s = dropWhile is_ws s"

definition is_digit :: "char \<Rightarrow> bool" where
  "is_digit c \<longleftrightarrow> 48 \<le> (of_char c :: nat) \<and> (of_char c :: nat) \<le> 57"

definition digit_val :: "char \<Rightarrow> nat" where
  "digit_val c = of_char c - 48"

definition nat_of_str :: "string \<Rightarrow> nat" where
  "nat_of_str s = foldl (\<lambda>n c. 10 * n + digit_val c) 0 s"

definition hex_val :: "char \<Rightarrow> nat option" where
  "hex_val c = (let n = (of_char c :: nat) in
     if 48 \<le> n \<and> n \<le> 57 then Some (n - 48)
     else if 97 \<le> n \<and> n \<le> 102 then Some (n - 87)
     else if 65 \<le> n \<and> n \<le> 70 then Some (n - 55) else None)"

text \<open>Escapes above \<open>\u00ff\<close> name characters outside the modelled range.\<close>

fun p_string :: "string \<Rightarrow> (string \<times> string) option" where
  "p_string [] = None"
| "p_string (c # cs) =
     (if c = CHR 0x22 then Some ([], cs)
      else if c = CHR 0x5C then
        (case cs of
           [] \<Rightarrow> None
         | e # r \<Rightarrow>
             (let n = (of_char e :: nat) in
              if n = 34 \<or> n = 92 \<or> n = 47 then map_option (apfst (Cons e)) (p_string r)
              else if n = 110 then map_option (apfst (Cons (CHR 0x0A))) (p_string r)
              else if n = 114 then map_option (apfst (Cons (CHR 0x0D))) (p_string r)
              else if n = 116 then map_option (apfst (Cons (CHR 0x09))) (p_string r)
              else if n = 102 then map_option (apfst (Cons (CHR 0x0C))) (p_string r)
              else if n = 98 then map_option (apfst (Cons (CHR 0x08))) (p_string r)
              else if n = 117 then
                (case r of
                   a # b # h # l # r' \<Rightarrow>
                     (case (hex_val a, hex_val b, hex_val h, hex_val l) of
                        (Some 0, Some 0, Some x, Some y) \<Rightarrow>
                          map_option (apfst (Cons (char_of (16 * x + y)))) (p_string r')
                      | _ \<Rightarrow> None)
                 | _ \<Rightarrow> None)
              else None))
      else if (of_char c :: nat) < 32 then None
      else map_option (apfst (Cons c)) (p_string cs))"

definition is_num_char :: "char \<Rightarrow> bool" where
  "is_num_char c \<longleftrightarrow> is_digit c \<or> c \<in> {CHR ''-'', CHR ''+'', CHR ''.'', CHR ''e'', CHR ''E''}"

definition is_nat_lit :: "string \<Rightarrow> bool" where
  "is_nat_lit s \<longleftrightarrow> s \<noteq> [] \<and> list_all is_digit s \<and> (hd s = CHR ''0'' \<longrightarrow> length s = 1)"

definition drop_minus :: "string \<Rightarrow> string" where
  "drop_minus s = (case s of [] \<Rightarrow> [] | c # cs \<Rightarrow> if c = CHR ''-'' then cs else s)"

definition is_int_lit :: "string \<Rightarrow> bool" where
  "is_int_lit s = is_nat_lit (drop_minus s)"

definition int_of_lit :: "string \<Rightarrow> int" where
  "int_of_lit s = (case s of [] \<Rightarrow> 0
     | c # cs \<Rightarrow> if c = CHR ''-'' then - int (nat_of_str cs) else int (nat_of_str s))"

definition is_exp_lit :: "string \<Rightarrow> bool" where
  "is_exp_lit s = (case s of [] \<Rightarrow> True
     | c # cs \<Rightarrow> (c = CHR ''e'' \<or> c = CHR ''E'') \<and>
         (let ds = (case cs of [] \<Rightarrow> [] | d # ds \<Rightarrow> if d = CHR ''-'' \<or> d = CHR ''+'' then ds else cs)
          in ds \<noteq> [] \<and> list_all is_digit ds))"

definition is_float_lit :: "string \<Rightarrow> bool" where
  "is_float_lit s =
     (let t = drop_minus s; ip = takeWhile is_digit t; r = dropWhile is_digit t in
      is_nat_lit ip \<and> r \<noteq> [] \<and>
      (if hd r = CHR ''.''
       then takeWhile is_digit (tl r) \<noteq> [] \<and> is_exp_lit (dropWhile is_digit (tl r))
       else is_exp_lit r))"

definition p_number :: "string \<Rightarrow> (json \<times> string) option" where
  "p_number s =
     (let t = takeWhile is_num_char s; r = dropWhile is_num_char s in
      if is_int_lit t then Some (JInt (int_of_lit t), r)
      else if is_float_lit t then Some (JFloat t, r)
      else None)"

fun p_value :: "nat \<Rightarrow> string \<Rightarrow> (json \<times> string) option"
and p_elems :: "nat \<Rightarrow> string \<Rightarrow> (json list \<times> string) option"
and p_members :: "nat \<Rightarrow> obj \<Rightarrow> string \<Rightarrow> (obj \<times> string) option" where
  "p_value 0 s = None"
| "p_value (Suc n) s =
     (let s' = skip_ws s in
      case s' of
        [] \<Rightarrow> None
      | c # cs \<Rightarrow>
          if c = CHR 0x22 then map_option (apfst JStr) (p_string cs)
          else if c = CHR ''['' then
            (let t = skip_ws cs in
             if t \<noteq> [] \<and> hd t = CHR '']'' then Some (JList [], tl t)
             else map_option (apfst JList) (p_elems n cs))
          else if c = CHR ''{'' then
            (let t = skip_ws cs in
             if t \<noteq> [] \<and> hd t = CHR ''}'' then Some (JObj [], tl t)
             else map_option (apfst JObj) (p_members n [] cs))
          else if starts_with s' ''null'' then Some (JNull, drop 4 s')
          else if starts_with s' ''true'' then Some (JBool True, drop 4 s')
          else if starts_with s' ''false'' then Some (JBool False, drop 5 s')
          else p_number s')"
| "p_elems 0 s = None"
| "p_elems (Suc n) s =
     (case p_value n s of
        None \<Rightarrow> None
      | Some (v, r) \<Rightarrow>
          (case skip_ws r of
             [] \<Rightarrow> None
           | c # r' \<Rightarrow>
               if c = CHR '']'' then Some ([v], r')
               else if c = CHR '','' then map_option (apfst (Cons v)) (p_elems n r')
               else None))"
| "p_members 0 acc s = None"
| "p_members (Suc n) acc s =
     (case skip_ws s of
        [] \<Rightarrow> None
      | q # qs \<Rightarrow>
          if q \<noteq> CHR 0x22 then None
          else (case p_string qs of
             None \<Rightarrow> None
           | Some (k, r) \<Rightarrow>
               (case skip_ws r of
                  [] \<Rightarrow> None
                | c # r1 \<Rightarrow>
                    if c \<noteq> CHR '':'' then None
                    else (case p_value n r1 of
                       None \<Rightarrow> None
                     | Some (v, r2) \<Rightarrow>
                         (case skip_ws r2 of
                            [] \<Rightarrow> None
                          | d # r3 \<Rightarrow>
                              if d = CHR ''}'' then Some (oput acc k v, r3)
                              else if d = CHR '','' then p_members n (oput acc k v) r3
                              else None)))))"

text \<open>\<open>json.loads\<close>: one value, surrounded by white space.\<close>

definition loads :: "string \<Rightarrow> json option" where
  "loads s = (case p_value (Suc (length s)) s of
     Some (j, r) \<Rightarrow> if skip_ws r = [] then Some j else None
   | None \<Rightarrow> None)"

text \<open>
  A value Python can hold: the keys of a dictionary are distinct, a float is its
  \<open>repr\<close>.
\<close>

fun wf_json :: "json \<Rightarrow> bool" where
  "wf_json (JFloat s) = is_float_lit s"
| "wf_json (JList xs) = (\<forall>x \<in> set xs. wf_json x)"
| "wf_json (JObj kvs) = (distinct (map fst kvs) \<and> (\<forall>p \<in> set kvs. wf_json (snd p)))"
| "wf_json j = True"

definition wf_obj :: "obj \<Rightarrow> bool" where
  "wf_obj o' = wf_json (JObj o')"


section \<open>The round trip\<close>

subsection \<open>Strings\<close>

lemma char_less_256: "(of_char c :: nat) < 256"
  using of_char_mod_256 [of c] by (metis mod_less_divisor zero_less_numeral)

lemma char_of_of_char_nat: "char_of (of_char c :: nat) = c"
  by simp

lemma char_eq_nat: "c = d \<longleftrightarrow> (of_char c :: nat) = of_char d"
  by simp

lemma hex_val_hex_digit: "n < 16 \<Longrightarrow> hex_val (hex_digit n) = Some n"
  by (auto simp: hex_val_def hex_digit_def Let_def)

lemma of_char_eqs:
  "(of_char c = (34::nat)) = (c = CHR 0x22)" "(of_char c = (92::nat)) = (c = CHR 0x5C)"
  "(of_char c = (10::nat)) = (c = CHR 0x0A)" "(of_char c = (13::nat)) = (c = CHR 0x0D)"
  "(of_char c = (9::nat)) = (c = CHR 0x09)" "(of_char c = (12::nat)) = (c = CHR 0x0C)"
  "(of_char c = (8::nat)) = (c = CHR 0x08)"
  unfolding char_eq_nat by simp_all

lemma p_string_esc_u:
  assumes "n < 256"
  shows "p_string (esc_u n @ t) = map_option (apfst (Cons (char_of n))) (p_string t)"
proof -
  have h: "hex_val (hex_digit (n div 16)) = Some (n div 16)" "hex_val (hex_digit (n mod 16)) = Some (n mod 16)"
    using assms by (auto intro!: hex_val_hex_digit simp: less_mult_imp_div_less)
  have z: "hex_val (CHR ''0'') = Some 0" by (simp add: hex_val_def)
  have e: "16 * (n div 16) + n mod 16 = n" by (simp add: mult_div_mod_eq)
  show ?thesis
    by (simp add: esc_u_def h z e del: char_of_def)
qed

lemma p_string_esc_char:
  "p_string (esc_char a c @ t) = map_option (apfst (Cons c)) (p_string t)"
proof -
  let ?n = "of_char c :: nat"
  consider "?n \<in> {34, 92, 10, 13, 9, 12, 8}"
    | "?n \<notin> {34, 92, 10, 13, 9, 12, 8}" "?n < 32 \<or> (a \<and> 126 < ?n)"
    | "?n \<notin> {34, 92, 10, 13, 9, 12, 8}" "\<not> (?n < 32 \<or> (a \<and> 126 < ?n))"
    by blast
  then show ?thesis
  proof cases
    case 1
    then show ?thesis by (auto simp: esc_char_def of_char_eqs)
  next
    case 2
    then have "esc_char a c = esc_u ?n" by (auto simp: esc_char_def Let_def)
    then show ?thesis using p_string_esc_u [OF char_less_256, of c t] by simp
  next
    case 3
    then have "esc_char a c = [c]" "c \<noteq> CHR 0x22" "c \<noteq> CHR 0x5C" "\<not> ?n < 32"
      by (auto simp: esc_char_def Let_def)
    then show ?thesis by simp
  qed
qed

lemma p_string_quoted:
  "p_string (concat (map (esc_char a) s) @ CHR 0x22 # r) = Some (s, r)"
  by (induction s) (simp_all add: p_string_esc_char)

subsection \<open>Numbers\<close>

lemma digit_props:
  assumes "n < 10"
  shows "is_digit (digit n)" "digit_val (digit n) = n" "digit n = CHR ''0'' \<longleftrightarrow> n = 0"
proof -
  have o: "(of_char (digit n) :: nat) = 48 + n"
    using assms by (simp add: digit_def)
  show "is_digit (digit n)" "digit_val (digit n) = n"
    using assms by (simp_all add: is_digit_def digit_val_def o)
  show "digit n = CHR ''0'' \<longleftrightarrow> n = 0"
    unfolding char_eq_nat o by simp
qed

lemma nat_str_nonempty [simp]: "nat_str n \<noteq> []"
  by (subst nat_str.simps) simp

lemma nat_str_digits: "list_all is_digit (nat_str n)"
proof (induction n rule: nat_str.induct)
  case (1 n)
  then show ?case by (subst nat_str.simps) (auto simp: digit_props)
qed

lemma nat_of_str_snoc: "nat_of_str (s @ [c]) = 10 * nat_of_str s + digit_val c"
  by (simp add: nat_of_str_def)

lemma nat_of_str_nat_str [simp]: "nat_of_str (nat_str n) = n"
proof (induction n rule: nat_str.induct)
  case (1 n)
  show ?case
  proof (cases "n < 10")
    case True
    then show ?thesis by (subst nat_str.simps) (simp add: nat_of_str_def digit_props)
  next
    case False
    with 1 show ?thesis
      by (subst nat_str.simps) (simp add: nat_of_str_snoc digit_props)
  qed
qed

lemma nat_str_hd_zero: "hd (nat_str n) = CHR ''0'' \<longleftrightarrow> n = 0"
proof (induction n rule: nat_str.induct)
  case (1 n)
  show ?case
  proof (cases "n < 10")
    case True
    then show ?thesis by (subst nat_str.simps) (simp add: digit_props)
  next
    case False
    with 1 have "hd (nat_str (n div 10)) = CHR ''0'' \<longleftrightarrow> n div 10 = 0" by simp
    with False show ?thesis by (subst nat_str.simps) (auto simp: hd_append)
  qed
qed

lemma nat_str_0: "nat_str 0 = ''0''"
  by (subst nat_str.simps) (simp add: digit_props)

lemma is_nat_lit_nat_str [simp]: "is_nat_lit (nat_str n)"
  by (auto simp: is_nat_lit_def nat_str_digits nat_str_hd_zero nat_str_0)

lemma is_digit_not_minus: "is_digit c \<Longrightarrow> c \<noteq> CHR ''-''"
  by (auto simp: is_digit_def)

lemma nat_str_Cons:
  obtains c cs where "nat_str n = c # cs" "is_digit c" "list_all is_digit cs"
  using nat_str_digits [of n] nat_str_nonempty [of n]
  by (cases "nat_str n") auto

lemma drop_minus_nat_str [simp]: "drop_minus (nat_str n) = nat_str n"
  by (rule nat_str_Cons [of n]) (auto simp: drop_minus_def is_digit_not_minus)

lemma is_int_lit_int_str [simp]: "is_int_lit (int_str i)"
  by (simp add: is_int_lit_def int_str_def) (simp add: drop_minus_def)

lemma int_of_lit_int_str [simp]: "int_of_lit (int_str i) = i"
proof (cases "i < 0")
  case True
  then show ?thesis by (simp add: int_of_lit_def int_str_def)
next
  case False
  obtain c cs where "nat_str (nat i) = c # cs" "is_digit c"
    by (rule nat_str_Cons)
  with False show ?thesis
    using nat_of_str_nat_str [of "nat i"]
    by (auto simp: int_of_lit_def int_str_def is_digit_not_minus simp del: nat_of_str_nat_str)
qed

lemma int_str_num_chars: "list_all is_num_char (int_str i)"
proof -
  have "list_all is_num_char (nat_str n)" for n
    using nat_str_digits [of n] by (auto simp: list_all_iff is_num_char_def)
  then show ?thesis by (simp add: int_str_def is_num_char_def)
qed

lemma digits_num_chars: "list_all is_digit s \<Longrightarrow> list_all is_num_char s"
  by (auto simp: list_all_iff is_num_char_def)

lemma drop_minus_cases: "s = drop_minus s \<or> s = CHR ''-'' # drop_minus s"
  by (auto simp: drop_minus_def split: list.splits)

lemma takeWhile_all: "list_all P (takeWhile P xs)"
  by (induction xs) auto

lemma exp_lit_num_chars: "is_exp_lit s \<Longrightarrow> list_all is_num_char s"
  by (auto simp: is_exp_lit_def Let_def is_num_char_def list_all_iff split: list.splits if_splits)

lemma float_lit_num_chars:
  assumes "is_float_lit s"
  shows "list_all is_num_char s"
proof -
  let ?t = "drop_minus s"
  let ?ip = "takeWhile is_digit ?t" and ?r = "dropWhile is_digit ?t"
  have r: "?r \<noteq> []" and rest: "if hd ?r = CHR ''.''
      then takeWhile is_digit (tl ?r) \<noteq> [] \<and> is_exp_lit (dropWhile is_digit (tl ?r))
      else is_exp_lit ?r"
    using assms by (simp_all add: is_float_lit_def Let_def)
  have "list_all is_num_char ?r"
  proof (cases "hd ?r = CHR ''.''")
    case True
    with rest have "is_exp_lit (dropWhile is_digit (tl ?r))" by simp
    then have "list_all is_num_char (takeWhile is_digit (tl ?r) @ dropWhile is_digit (tl ?r))"
      unfolding list_all_append by (blast intro: exp_lit_num_chars digits_num_chars [OF takeWhile_all])
    then have "list_all is_num_char (tl ?r)" by simp
    with True r show ?thesis by (cases ?r) (simp_all add: is_num_char_def)
  next
    case False
    with rest have "is_exp_lit ?r" by simp
    then show ?thesis by (rule exp_lit_num_chars)
  qed
  then have "list_all is_num_char (?ip @ ?r)"
    unfolding list_all_append by (blast intro: digits_num_chars [OF takeWhile_all])
  then have t: "list_all is_num_char ?t" by simp
  from drop_minus_cases [of s] show ?thesis
  proof
    assume "s = ?t"
    with t show ?thesis by metis
  next
    assume "s = CHR ''-'' # ?t"
    moreover from t have "list_all is_num_char (CHR ''-'' # ?t)" by (simp add: is_num_char_def)
    ultimately show ?thesis by (rule ssubst)
  qed
qed

lemma float_not_int_lit: "is_float_lit s \<Longrightarrow> \<not> is_int_lit s"
proof
  assume f: "is_float_lit s" and i: "is_int_lit s"
  from f have "dropWhile is_digit (drop_minus s) \<noteq> []"
    by (simp add: is_float_lit_def Let_def)
  moreover from i have "list_all is_digit (drop_minus s)"
    by (simp add: is_int_lit_def is_nat_lit_def)
  ultimately show False by (simp add: list_all_iff)
qed

text \<open>What may follow a number.\<close>

definition num_end :: "string \<Rightarrow> bool" where
  "num_end r \<longleftrightarrow> (case r of [] \<Rightarrow> True | c # _ \<Rightarrow> \<not> is_num_char c)"

lemma takeWhile_num: "list_all is_num_char t \<Longrightarrow> num_end r \<Longrightarrow> takeWhile is_num_char (t @ r) = t"
  by (induction t) (auto simp: num_end_def split: list.splits)

lemma dropWhile_num: "list_all is_num_char t \<Longrightarrow> num_end r \<Longrightarrow> dropWhile is_num_char (t @ r) = r"
  by (induction t) (auto simp: num_end_def split: list.splits)

lemma p_number_int: "num_end r \<Longrightarrow> p_number (int_str i @ r) = Some (JInt i, r)"
  by (simp add: p_number_def takeWhile_num dropWhile_num int_str_num_chars)

lemma p_number_float: "is_float_lit s \<Longrightarrow> num_end r \<Longrightarrow> p_number (s @ r) = Some (JFloat s, r)"
  by (simp add: p_number_def takeWhile_num dropWhile_num float_lit_num_chars float_not_int_lit)

subsection \<open>Values\<close>

lemma num_char_props:
  assumes "is_num_char c"
  shows "\<not> is_ws c" "c \<noteq> CHR 0x22" "c \<noteq> CHR ''[''" "c \<noteq> CHR ''{''" "c \<noteq> CHR '']''" "c \<noteq> CHR ''}''"
    "c \<noteq> CHR ''n''" "c \<noteq> CHR ''t''" "c \<noteq> CHR ''f''"
  using assms by (auto simp: is_num_char_def is_ws_def is_digit_def)

lemma skip_ws_Cons [simp]: "\<not> is_ws c \<Longrightarrow> skip_ws (c # cs) = c # cs"
  by (simp add: skip_ws_def)

lemma skip_ws_Nil [simp]: "skip_ws [] = []"
  by (simp add: skip_ws_def)

lemma not_ws [simp]: "\<not> is_ws (CHR 0x22)" "\<not> is_ws (CHR ''['')" "\<not> is_ws (CHR '']'')"
  "\<not> is_ws (CHR ''{'')" "\<not> is_ws (CHR ''}'')" "\<not> is_ws (CHR '','')" "\<not> is_ws (CHR '':'')"
  "\<not> is_ws (CHR ''n'')" "\<not> is_ws (CHR ''t'')" "\<not> is_ws (CHR ''f'')"
  by (simp_all add: is_ws_def)

lemma num_end_delims [simp]: "num_end []" "num_end (CHR '','' # r)" "num_end (CHR '']'' # r)"
  "num_end (CHR ''}'' # r)"
  by (simp_all add: num_end_def is_num_char_def is_digit_def)

lemma is_int_lit_nonempty: "is_int_lit s \<Longrightarrow> s \<noteq> []"
  by (auto simp: is_int_lit_def is_nat_lit_def drop_minus_def)

lemma is_float_lit_nonempty: "is_float_lit s \<Longrightarrow> s \<noteq> []"
  by (auto simp: is_float_lit_def is_nat_lit_def drop_minus_def Let_def)

lemma p_value_number:
  assumes "list_all is_num_char t" "t \<noteq> []"
  shows "p_value (Suc n) (t @ r) = p_number (t @ r)"
proof -
  from assms(2) obtain c cs where t: "t = c # cs" by (cases t) auto
  with assms have "is_num_char c" by simp
  from num_char_props [OF this] show ?thesis
    by (simp add: t)
qed

text \<open>The first character of a serialised value.\<close>

lemma dumps_hd:
  assumes "wf_json j"
  obtains c cs where "dumps_with a j = c # cs" "\<not> is_ws c" "c \<noteq> CHR '']''" "c \<noteq> CHR ''}''"
proof -
  note result = that
  have num: thesis if "list_all is_num_char t" "t \<noteq> []" "dumps_with a j = t" for t
  proof -
    from that obtain c cs where "t = c # cs" "is_num_char c" by (cases t) auto
    with that num_char_props [of c] show thesis by (intro result [of c cs]) auto
  qed
  show thesis
  proof (cases j)
    case (JInt i)
    then show thesis using num [of "int_str i"] int_str_num_chars is_int_lit_nonempty [OF is_int_lit_int_str]
      by simp
  next
    case (JFloat s)
    with assms show thesis using num [of s] float_lit_num_chars is_float_lit_nonempty by simp
  next
    case (JBool b)
    then show thesis using result by (cases b) auto
  qed (use result in \<open>auto simp: quote_def\<close>)
qed

lemma oput_fresh: "k \<notin> fst ` set acc \<Longrightarrow> oput acc k v = acc @ [(k, v)]"
  by (induction acc) auto

lemma p_string_quote: "p_string (tl (quote a s) @ r) = Some (s, r)"
  using p_string_quoted [of a s r] by (simp add: quote_def)

text \<open>The parser returns the elements and members it was handed the text of.\<close>

lemma p_elems_join:
  assumes "\<And>x m r. x \<in> set xs \<Longrightarrow> length (dumps_with a x) < m \<Longrightarrow> num_end r \<Longrightarrow>
      p_value m (dumps_with a x @ r) = Some (norm x, r)"
    and "xs \<noteq> []" "length (join_with '','' (map (dumps_with a) xs)) + 1 < n"
  shows "p_elems n (join_with '','' (map (dumps_with a) xs) @ CHR '']'' # r) = Some (map norm xs, r)"
  using assms
proof (induction xs arbitrary: n)
  case Nil
  then show ?case by simp
next
  case (Cons x xs)
  then obtain m where n: "n = Suc m" by (cases n) auto
  show ?case
  proof (cases xs)
    case Nil
    with Cons.prems n have "p_value m (dumps_with a x @ CHR '']'' # r) = Some (norm x, CHR '']'' # r)"
      by simp
    with n Nil show ?thesis by simp
  next
    case (Cons y ys)
    let ?rest = "join_with '','' (map (dumps_with a) xs) @ CHR '']'' # r"
    from Cons Cons.prems n have
      "p_value m (dumps_with a x @ CHR '','' # ?rest) = Some (norm x, CHR '','' # ?rest)"
      by simp
    moreover have "p_elems m ?rest = Some (map norm xs, r)"
      by (rule Cons.IH) (use Cons Cons.prems n in auto)
    ultimately show ?thesis using n Cons by simp
  qed
qed

definition member_text :: "bool \<Rightarrow> string \<times> json \<Rightarrow> string" where
  "member_text a p = quote a (fst p) @ '':'' @ dumps_with a (snd p)"

lemma p_members_join:
  assumes "\<And>p m r. p \<in> set kvs \<Longrightarrow> length (dumps_with a (snd p)) < m \<Longrightarrow> num_end r \<Longrightarrow>
      p_value m (dumps_with a (snd p) @ r) = Some (norm (snd p), r)"
    and "kvs \<noteq> []" "distinct (map fst acc @ map fst kvs)"
    and "length (join_with '','' (map (member_text a) kvs)) + 1 < n"
  shows "p_members n acc (join_with '','' (map (member_text a) kvs) @ CHR ''}'' # r)
    = Some (acc @ map (\<lambda>(k, v). (k, norm v)) kvs, r)"
  using assms
proof (induction kvs arbitrary: n acc)
  case Nil
  then show ?case by simp
next
  case (Cons p kvs)
  obtain k v where p: "p = (k, v)" by (cases p)
  from Cons.prems obtain m where n: "n = Suc m" by (cases n) auto
  have fresh: "oput acc k (norm v) = acc @ [(k, norm v)]"
    using Cons.prems p by (intro oput_fresh) auto
  have q: "p_string (tl (quote a k) @ t) = Some (k, t)" "quote a k = CHR 0x22 # tl (quote a k)" for t
    by (simp add: p_string_quote) (simp add: quote_def)
  show ?case
  proof (cases kvs)
    case Nil
    with Cons.prems n p have
      "p_value m (dumps_with a v @ CHR ''}'' # r) = Some (norm v, CHR ''}'' # r)"
      by (simp add: member_text_def)
    with n Nil p show ?thesis
      by (simp add: member_text_def fresh) (subst q(2), simp add: q(1) fresh)
  next
    case (Cons y ys)
    let ?rest = "join_with '','' (map (member_text a) kvs) @ CHR ''}'' # r"
    have "length (dumps_with a v) < m"
      using Cons Cons.prems(4) n p by (simp add: member_text_def)
    then have "p_value m (dumps_with a v @ CHR '','' # ?rest) = Some (norm v, CHR '','' # ?rest)"
      using Cons.prems(1) [of p m "CHR '','' # ?rest"] p by simp
    moreover have "p_members m (acc @ [(k, norm v)]) ?rest
        = Some ((acc @ [(k, norm v)]) @ map (\<lambda>(k, v). (k, norm v)) kvs, r)"
      by (rule Cons.IH) (use Cons Cons.prems n p in \<open>auto simp: member_text_def\<close>)
    moreover have "join_with '','' (map (member_text a) (p # kvs))
        = quote a k @ '':'' @ dumps_with a v @ '','' @ join_with '','' (map (member_text a) kvs)"
      using Cons p by (simp add: member_text_def)
    ultimately show ?thesis using n p
      by (simp del: list.map(2)) (subst q(2), simp add: q(1) fresh)
  qed
qed

lemma dumps_JObj:
  "dumps_with a (JObj kvs) = ''{'' @ join_with '','' (map (member_text a) (sort_key fst kvs)) @ ''}''"
  by (simp add: sort_key_map_snd o_def member_text_def [abs_def] case_prod_beta)

lemma norm_JObj_sorted: "norm (JObj kvs) = JObj (map (\<lambda>(k, v). (k, norm v)) (sort_key fst kvs))"
  by (simp add: sort_key_map_snd)

lemma join_nonempty_hd:
  "join_with sep (map f (x # xs)) @ r = f x @ (if xs = [] then r else sep @ join_with sep (map f xs) @ r)"
  by (cases xs) simp_all

lemma p_value_dumps:
  assumes "wf_json j" "length (dumps_with a j) < n" "num_end r"
  shows "p_value n (dumps_with a j @ r) = Some (norm j, r)"
  using assms
proof (induction j arbitrary: n r)
  case (JInt i)
  then obtain m where "n = Suc m" by (cases n) auto
  with JInt show ?case
    using p_value_number [OF int_str_num_chars is_int_lit_nonempty [OF is_int_lit_int_str]]
    by (simp add: p_number_int)
next
  case (JFloat s)
  then obtain m where "n = Suc m" by (cases n) auto
  with JFloat show ?case
    using p_value_number [OF float_lit_num_chars is_float_lit_nonempty]
    by (simp add: p_number_float)
next
  case (JStr s)
  then obtain m where "n = Suc m" by (cases n) auto
  then show ?case
    using p_string_quoted [of a s r] by (simp add: quote_def)
next
  case (JList xs)
  then obtain m where n: "n = Suc m" by (cases n) auto
  show ?case
  proof (cases xs)
    case Nil
    with n show ?thesis by simp
  next
    case (Cons x ys)
    let ?t = "join_with '','' (map (dumps_with a) xs) @ CHR '']'' # r"
    obtain c cs where "dumps_with a x = c # cs" "\<not> is_ws c" "c \<noteq> CHR '']''"
      using JList.prems Cons by (auto intro: dumps_hd [of x a])
    then have hd: "skip_ws ?t = ?t" "hd ?t \<noteq> CHR '']''"
      using Cons by (simp_all add: join_nonempty_hd del: list.map(2))
    have "p_elems m ?t = Some (map norm xs, r)"
      by (rule p_elems_join) (use JList Cons n in auto)
    with hd n show ?thesis by simp
  qed
next
  case (JObj kvs)
  then obtain m where n: "n = Suc m" by (cases n) auto
  let ?s = "sort_key fst kvs"
  have set_s: "set ?s = set kvs" by simp
  show ?case
  proof (cases ?s)
    case Nil
    then have "kvs = []" using set_s by (metis list.set(1) set_empty)
    with n show ?thesis by simp
  next
    case (Cons p ys)
    let ?t = "join_with '','' (map (member_text a) ?s) @ CHR ''}'' # r"
    have "\<exists>u. ?t = CHR 0x22 # u"
      using Cons by (simp add: join_nonempty_hd member_text_def quote_def del: list.map(2))
    then obtain u where t: "?t = CHR 0x22 # u" by blast
    have hd: "skip_ws ?t = ?t" "hd ?t \<noteq> CHR ''}''" "?t \<noteq> []"
      unfolding t by simp_all
    have "p_members m [] ?t = Some ([] @ map (\<lambda>(k, v). (k, norm v)) ?s, r)"
    proof (rule p_members_join)
      show "distinct (map fst [] @ map fst ?s)"
        using JObj.prems by simp
      show "?s \<noteq> []" using Cons by simp
      show "length (join_with '','' (map (member_text a) ?s)) + 1 < m"
        using JObj.prems(2) n by (simp only: dumps_JObj) simp
    next
      fix q l t
      assume "q \<in> set ?s" "length (dumps_with a (snd q)) < l" "num_end t"
      with JObj show "p_value l (dumps_with a (snd q) @ t) = Some (norm (snd q), t)"
        by (cases q) auto
    qed
    with hd n show ?thesis
      by (simp add: dumps_JObj norm_JObj_sorted del: dumps_with.simps norm.simps)
  qed
qed (case_tac n; auto)+

lemma loads_dumps_with:
  assumes "wf_json j"
  shows "loads (dumps_with a j) = Some (norm j)"
  using p_value_dumps [OF assms, of a "Suc (length (dumps_with a j))" "[]"]
  by (simp add: loads_def)

section \<open>Key order\<close>

lemma sort_key_sort_key [simp]: "sort_key f (sort_key f xs) = sort_key f xs"
  by (rule sort_key_sorted_id) (rule sorted_sort_key)

lemma norm_norm [simp]: "norm (norm j) = norm j"
proof (induction j)
  case (JList xs)
  then show ?case by simp
next
  case (JObj kvs)
  then have "map (\<lambda>(k, v). (k, norm v)) (map (\<lambda>(k, v). (k, norm v)) kvs) = map (\<lambda>(k, v). (k, norm v)) kvs"
    by auto
  then show ?case
    by (simp only: norm.simps sort_key_map_snd sort_key_sort_key)
       (simp only: sort_key_map_snd [symmetric] sort_key_sort_key)
qed simp_all

lemma wf_json_norm [simp]: "wf_json j \<Longrightarrow> wf_json (norm j)"
proof (induction j)
  case (JObj kvs)
  have "map fst (map (\<lambda>(k, v). (k, norm v)) kvs) = map fst kvs" by auto
  with JObj show ?case by (auto simp del: map_map)
qed auto

lemma dumps_with_norm [simp]: "dumps_with a (norm j) = dumps_with a j"
proof (induction j)
  case (JObj kvs)
  then have "map (\<lambda>(k, v). (k, dumps_with a v)) (map (\<lambda>(k, v). (k, norm v)) kvs) = map (\<lambda>(k, v). (k, dumps_with a v)) kvs"
    by auto
  then show ?case
    by (simp only: norm.simps dumps_with.simps sort_key_map_snd sort_key_sort_key)
       (simp only: sort_key_map_snd [symmetric] sort_key_sort_key)
qed (auto simp: o_def cong: map_cong)

lemma dumps_with_inj:
  assumes "wf_json i" "wf_json j" "dumps_with a i = dumps_with a j"
  shows "norm i = norm j"
  using loads_dumps_with [OF assms(1), of a] loads_dumps_with [OF assms(2), of a] assms(3) by simp

lemma oget_onorm [norm_simps]: "oget (onorm o') k = norm (oget o' k)"
  by (simp add: oget_def onorm_def map_of_sort_key map_of_map_snd split: option.splits)

lemma ohas_onorm [norm_simps]: "ohas (onorm o') k = ohas o' k"
  by (simp add: ohas_def onorm_def map_of_sort_key map_of_map_snd)

lemma truthy_norm [norm_simps]: "truthy (norm j) = truthy j"
proof (cases j)
  case (JObj kvs)
  then show ?thesis by (simp add: sort_key_Nil_iff)
qed simp_all

lemma norm_eq_simps [norm_simps]:
  "norm j = JNull \<longleftrightarrow> j = JNull" "norm j = JStr s \<longleftrightarrow> j = JStr s" "norm j = JInt i \<longleftrightarrow> j = JInt i"
  "norm j = JBool b \<longleftrightarrow> j = JBool b" "norm j = JFloat s \<longleftrightarrow> j = JFloat s"
  by (cases j; simp)+

subsection \<open>No line break in a serialised value\<close>

lemma hex_digit_no_newline: "n < 16 \<Longrightarrow> hex_digit n \<noteq> CHR 0x0A"
  unfolding char_eq_nat by (simp add: hex_digit_def)

lemma esc_char_no_newline: "CHR 0x0A \<notin> set (esc_char a c)"
proof -
  have b: "(of_char c :: nat) div 16 < 16" "(of_char c :: nat) mod 16 < 16"
    using char_less_256 [of c] by (simp_all add: less_mult_imp_div_less)
  have u: "CHR 0x0A \<notin> set (esc_u (of_char c))"
    using hex_digit_no_newline [OF b(1)] hex_digit_no_newline [OF b(2)]
    by (simp add: esc_u_def eq_commute [of "CHR 0x0A"])
  show ?thesis
    using u by (simp add: esc_char_def Let_def of_char_eqs eq_commute [of "CHR 0x0A"])
qed

lemma set_join_with: "set (join_with sep xs) \<subseteq> set sep \<union> (\<Union>x \<in> set xs. set x)"
  by (induction sep xs rule: join_with.induct) auto

lemma quote_no_newline: "CHR 0x0A \<notin> set (quote a s)"
  using esc_char_no_newline by (auto simp: quote_def)

lemma num_chars_no_newline: "list_all is_num_char s \<Longrightarrow> CHR 0x0A \<notin> set s"
  by (auto simp: list_all_iff is_num_char_def is_digit_def)

lemma dumps_no_newline: "wf_json j \<Longrightarrow> CHR 0x0A \<notin> set (dumps_with a j)"
proof (induction j)
  case (JInt i)
  then show ?case by (simp add: num_chars_no_newline int_str_num_chars)
next
  case (JFloat s)
  then show ?case by (simp add: num_chars_no_newline float_lit_num_chars)
next
  case (JList xs)
  then show ?case
    using set_join_with [of "'',''" "map (dumps_with a) xs"] by auto
next
  case (JObj kvs)
  then have "\<forall>p \<in> set kvs. CHR 0x0A \<notin> set (member_text a p)"
    by (auto simp: member_text_def quote_no_newline)
  then show ?case
    using set_join_with [of "'',''" "map (member_text a) (sort_key fst kvs)"]
    by (auto simp: dumps_JObj simp del: dumps_with.simps)
qed (auto simp: quote_no_newline)

section \<open>What the parser returns is well formed\<close>

lemma fst_set_oput: "fst ` set (oput acc k v) = insert k (fst ` set acc)"
proof (induction acc)
  case (Cons p acc)
  then show ?case by (cases p) (simp add: insert_commute)
qed simp

lemma distinct_oput: "distinct (map fst acc) \<Longrightarrow> distinct (map fst (oput acc k v))"
proof (induction acc)
  case (Cons p acc)
  then show ?case using fst_set_oput [of acc k v] by (cases p) auto
qed simp

lemma set_oput: "p \<in> set (oput acc k v) \<Longrightarrow> p = (k, v) \<or> p \<in> set acc"
  by (induction acc) (auto split: if_splits)

lemma wf_oput: "wf_obj acc \<Longrightarrow> wf_json v \<Longrightarrow> wf_obj (oput acc k v)"
  by (auto simp: wf_obj_def distinct_oput dest: set_oput)

lemma wf_p_number: "p_number s = Some (j, r) \<Longrightarrow> wf_json j"
  by (auto simp: p_number_def Let_def split: if_splits)

lemma wf_parser:
  "p_value n s = Some (j, r) \<Longrightarrow> wf_json j"
  "p_elems n s = Some (js, r) \<Longrightarrow> \<forall>x \<in> set js. wf_json x"
  "p_members n acc s = Some (o', r) \<Longrightarrow> wf_obj acc \<Longrightarrow> wf_obj o'"
proof (induction n s and n s and n acc s arbitrary: j r and js r and o' r
    rule: p_value_p_elems_p_members.induct)
  case (2 n s)
  moreover have "wf_json (JObj [])" by simp
  ultimately show ?case
    by (auto simp: Let_def wf_obj_def simp del: wf_json.simps(3) split: list.splits if_splits dest: wf_p_number)
next
  case (4 n s)
  then show ?case
    by (fastforce split: list.splits if_splits option.splits)
next
  case (6 n acc s)
  then show ?case
    by (auto split: list.splits if_splits option.splits simp: wf_oput)
qed simp_all

lemma wf_loads: "loads s = Some j \<Longrightarrow> wf_json j"
  by (auto simp: loads_def simp del: p_value.simps split: option.splits if_splits dest: wf_parser(1))

end
