(* ===== verification/Sql.thy ===== *)
theory Sql
  imports Json
begin

text \<open>
  The SQLite statements the program issues, over tables of rows in rowid order.
  Modelled: column affinity, NOT NULL and its REPLACE rule (the default, when there
  is one), CHECK, the primary key and the partial unique index, immediate foreign
  keys, the upsert clause, the row count of an UPDATE, and the parameter types
  \<open>sqlite3\<close> accepts. A failing statement leaves the database as it was. The database
  is the view of the one connection that writes it; \<open>commit\<close> does not change that
  view.
\<close>

section \<open>Values, columns, tables\<close>

datatype sqlv = SNull | SInt int | SReal string | SText string

datatype affinity = TextA | IntA | RealA

type_synonym row = "string \<Rightarrow> sqlv"
type_synonym db = "string \<Rightarrow> row list"

record column =
  cname :: string
  caff :: affinity
  cnotnull :: bool
  cdefault :: sqlv

record fkey =
  fk_col :: string
  fk_table :: string
  fk_ref :: string

record table =
  tname :: string
  tcols :: "column list"
  tpk :: "string list"
  tfks :: "fkey list"
  tcheck :: "row \<Rightarrow> bool"
  tuniq :: "(string list \<times> (row \<Rightarrow> bool)) list"

definition empty_row :: row where
  "empty_row = (\<lambda>_. SNull)"

text \<open>Binding a Python value to a \<open>?\<close> parameter.\<close>

fun bindv :: "json \<Rightarrow> exn + sqlv" where
  "bindv JNull = Inr SNull"
| "bindv (JBool b) = Inr (SInt (if b then 1 else 0))"
| "bindv (JInt i) = (if - (2 ^ 63) \<le> i \<and> i < 2 ^ 63 then Inr (SInt i) else Inl (OverflowError ''int too large''))"
| "bindv (JFloat s) = Inr (SReal s)"
| "bindv (JStr s) = Inr (SText s)"
| "bindv (JList _) = Inl (ProgrammingError ''list'')"
| "bindv (JObj _) = Inl (ProgrammingError ''dict'')"

text \<open>
  Storing a value under a column's affinity. Text in a numeric column is stored as a
  number when it is a numeric literal, an integer in a REAL column as a float, a
  number in a TEXT column as its text.
\<close>

fun coerce :: "affinity \<Rightarrow> sqlv \<Rightarrow> sqlv" where
  "coerce TextA (SInt i) = SText (int_str i)"
| "coerce TextA (SReal s) = SText s"
| "coerce IntA (SText s) =
     (if is_int_lit s then SInt (int_of_lit s) else if is_float_lit s then SReal s else SText s)"
| "coerce RealA (SInt i) = SReal (int_str i @ ''.0'')"
| "coerce RealA (SText s) =
     (if is_int_lit s then SReal (s @ ''.0'') else if is_float_lit s then SReal s else SText s)"
| "coerce _ v = v"

definition col_of :: "table \<Rightarrow> string \<Rightarrow> column option" where
  "col_of t c = find (\<lambda>k. cname k = c) (tcols t)"

definition aff_of :: "table \<Rightarrow> string \<Rightarrow> affinity" where
  "aff_of t c = (case col_of t c of None \<Rightarrow> TextA | Some k \<Rightarrow> caff k)"

text \<open>\<open>c = ?\<close>: the parameter takes the affinity of the column, NULL equals nothing.\<close>

definition eq_val :: "table \<Rightarrow> string \<Rightarrow> sqlv \<Rightarrow> row \<Rightarrow> bool" where
  "eq_val t c v r = (r c \<noteq> SNull \<and> r c = coerce (aff_of t c) v)"

section \<open>Constraints\<close>

text \<open>
  The row of an INSERT: the listed columns under their affinity, the others at their
  default; a NULL in a NOT NULL column becomes the default under REPLACE.
\<close>

definition fill_row :: "table \<Rightarrow> (string \<times> sqlv) list \<Rightarrow> row" where
  "fill_row t vals = (\<lambda>c. case col_of t c of None \<Rightarrow> SNull
     | Some k \<Rightarrow> (case map_of vals c of None \<Rightarrow> cdefault k | Some v \<Rightarrow> coerce (caff k) v))"

definition default_nulls :: "table \<Rightarrow> row \<Rightarrow> row" where
  "default_nulls t r = (\<lambda>c. case col_of t c of None \<Rightarrow> SNull
     | Some k \<Rightarrow> if cnotnull k \<and> r c = SNull then cdefault k else r c)"

definition notnull_ok :: "table \<Rightarrow> row \<Rightarrow> bool" where
  "notnull_ok t r = list_all (\<lambda>k. cnotnull k \<longrightarrow> r (cname k) \<noteq> SNull) (tcols t)"

text \<open>Two rows with the same non-NULL key clash.\<close>

definition same_key :: "string list \<Rightarrow> row \<Rightarrow> row \<Rightarrow> bool" where
  "same_key ks r r' = list_all (\<lambda>c. r c \<noteq> SNull \<and> r c = r' c) ks"

definition clash :: "table \<Rightarrow> row \<Rightarrow> row \<Rightarrow> bool" where
  "clash t r r' = (same_key (tpk t) r r' \<or> list_ex (\<lambda>(ks, p). p r \<and> p r' \<and> same_key ks r r') (tuniq t))"

definition has_parent :: "db \<Rightarrow> row \<Rightarrow> fkey \<Rightarrow> bool" where
  "has_parent d r k = (r (fk_col k) = SNull \<or> list_ex (\<lambda>p. p (fk_ref k) = r (fk_col k)) (d (fk_table k)))"

definition fk_row_ok :: "table \<Rightarrow> db \<Rightarrow> row \<Rightarrow> bool" where
  "fk_row_ok t d r = list_all (has_parent d r) (tfks t)"

section \<open>Statements\<close>

fun seq_all :: "(string \<times> (exn + sqlv)) list \<Rightarrow> exn + (string \<times> sqlv) list" where
  "seq_all [] = Inr []"
| "seq_all ((c, Inl e) # cs) = Inl e"
| "seq_all ((c, Inr v) # cs) = (case seq_all cs of Inl e \<Rightarrow> Inl e | Inr vs \<Rightarrow> Inr ((c, v) # vs))"

definition bind_all :: "(string \<times> json) list \<Rightarrow> exn + (string \<times> sqlv) list" where
  "bind_all vals = seq_all (map (\<lambda>(c, j). (c, bindv j)) vals)"

text \<open>
  INSERT OR REPLACE. The clashing rows go, the new row comes last. No other table can
  be left dangling: every foreign key of the schema references a primary key, and the
  rows it removes share theirs with the new row.
\<close>

definition replace_bound :: "table \<Rightarrow> (string \<times> sqlv) list \<Rightarrow> (db, unit) st" where
  "replace_bound t vs d =
     (let r = default_nulls t (fill_row t vs);
          d' = d(tname t := filter (\<lambda>r'. \<not> clash t r r') (d (tname t)) @ [r]) in
      if \<not> notnull_ok t r then (Inl (IntegrityError ''NOT NULL''), d)
      else if \<not> tcheck t r then (Inl (IntegrityError ''CHECK''), d)
      else if \<not> fk_row_ok t d' r then (Inl (IntegrityError ''FOREIGN KEY''), d)
      else (Inr (), d'))"

definition insert_or_replace :: "table \<Rightarrow> (string \<times> json) list \<Rightarrow> (db, unit) st" where
  "insert_or_replace t vals = st_bind (st_lift (bind_all vals)) (replace_bound t)"

definition insert_bound :: "table \<Rightarrow> (string \<times> sqlv) list \<Rightarrow> (db, unit) st" where
  "insert_bound t vs d =
     (let r = fill_row t vs; d' = d(tname t := d (tname t) @ [r]) in
      if \<not> notnull_ok t r then (Inl (IntegrityError ''NOT NULL''), d)
      else if \<not> tcheck t r then (Inl (IntegrityError ''CHECK''), d)
      else if list_ex (clash t r) (d (tname t)) then (Inl (IntegrityError ''UNIQUE''), d)
      else if \<not> fk_row_ok t d' r then (Inl (IntegrityError ''FOREIGN KEY''), d)
      else (Inr (), d'))"

definition insert_row :: "table \<Rightarrow> (string \<times> json) list \<Rightarrow> (db, unit) st" where
  "insert_row t vals = st_bind (st_lift (bind_all vals)) (insert_bound t)"

text \<open>
  UPDATE ... SET ... WHERE over columns that are no keys: \<open>f\<close> computes the new row, \<open>p\<close>
  is the WHERE clause. A unique index is checked row by row in rowid order.
\<close>

fun update_rows :: "table \<Rightarrow> (row \<Rightarrow> bool) \<Rightarrow> (row \<Rightarrow> row) \<Rightarrow> row list \<Rightarrow> row list \<Rightarrow> exn + row list" where
  "update_rows t p f done [] = Inr done"
| "update_rows t p f done (r # rs) =
     (if \<not> p r then update_rows t p f (done @ [r]) rs
      else if \<not> notnull_ok t (f r) then Inl (IntegrityError ''NOT NULL'')
      else if \<not> tcheck t (f r) then Inl (IntegrityError ''CHECK'')
      else if list_ex (clash t (f r)) (done @ rs) then Inl (IntegrityError ''UNIQUE'')
      else update_rows t p f (done @ [f r]) rs)"

definition update_where :: "table \<Rightarrow> (row \<Rightarrow> bool) \<Rightarrow> (row \<Rightarrow> row) \<Rightarrow> (db, nat) st" where
  "update_where t p f d =
     (case update_rows t p f [] (d (tname t)) of Inl e \<Rightarrow> (Inl e, d)
      | Inr rs \<Rightarrow> (Inr (length (filter p (d (tname t)))), d(tname t := rs)))"

text \<open>\<open>SET c1 = ?, ...\<close> for bound parameters.\<close>

fun set_cols :: "table \<Rightarrow> (string \<times> sqlv) list \<Rightarrow> row \<Rightarrow> row" where
  "set_cols t [] r = r"
| "set_cols t ((c, v) # cs) r = set_cols t cs (r(c := coerce (aff_of t c) v))"

text \<open>\<open>UPDATE t SET sets, upd WHERE key = ?\<close>, where \<open>upd\<close> is the part of SET that reads the row.\<close>

definition update_by :: "table \<Rightarrow> (string \<times> json) list \<Rightarrow> (row \<Rightarrow> row) \<Rightarrow> string \<Rightarrow> json \<Rightarrow> (db, nat) st" where
  "update_by t sets upd key k =
     st_bind (st_lift (bind_all sets)) (\<lambda>vs.
     st_bind (st_lift (bindv k)) (\<lambda>kv.
     update_where t (eq_val t key kv) (\<lambda>r. upd (set_cols t vs r))))"

text \<open>\<open>INSERT ... ON CONFLICT(id) DO UPDATE\<close>: \<open>f old new\<close> is the updated row.\<close>

definition upsert_bound :: "table \<Rightarrow> (row \<Rightarrow> row \<Rightarrow> row) \<Rightarrow> (string \<times> sqlv) list \<Rightarrow> (db, unit) st" where
  "upsert_bound t f vs d =
     (let r = fill_row t vs; d' = d(tname t := d (tname t) @ [r]) in
      if \<not> notnull_ok t r then (Inl (IntegrityError ''NOT NULL''), d)
      else if list_ex (same_key (tpk t) r) (d (tname t)) then
        (if list_all (\<lambda>o'. same_key (tpk t) r o' \<longrightarrow> notnull_ok t (f o' r)) (d (tname t))
         then (Inr (), d(tname t := map (\<lambda>o'. if same_key (tpk t) r o' then f o' r else o') (d (tname t))))
         else (Inl (IntegrityError ''NOT NULL''), d))
      else if \<not> fk_row_ok t d' r then (Inl (IntegrityError ''FOREIGN KEY''), d)
      else (Inr (), d'))"

definition upsert :: "table \<Rightarrow> (string \<times> json) list \<Rightarrow> (row \<Rightarrow> row \<Rightarrow> row) \<Rightarrow> (db, unit) st" where
  "upsert t vals f = st_bind (st_lift (bind_all vals)) (upsert_bound t f)"

text \<open>\<open>DELETE FROM t\<close> under immediate foreign keys.\<close>

definition references :: "db \<Rightarrow> table \<Rightarrow> string \<Rightarrow> bool" where
  "references d t p = list_ex (\<lambda>k. fk_table k = p \<and>
     list_ex (\<lambda>r. r (fk_col k) \<noteq> SNull) (d (tname t))) (tfks t)"

definition delete_all :: "table list \<Rightarrow> string \<Rightarrow> (db, unit) st" where
  "delete_all schema p d =
     (if list_ex (\<lambda>t. tname t \<noteq> p \<and> references d t p) schema then (Inl (IntegrityError ''FOREIGN KEY''), d)
      else (Inr (), d(p := [])))"

definition select_by :: "table \<Rightarrow> string \<Rightarrow> string \<Rightarrow> db \<Rightarrow> row list" where
  "select_by t c v d = filter (eq_val t c (SText v)) (d (tname t))"

definition first_by :: "table \<Rightarrow> string \<Rightarrow> string \<Rightarrow> db \<Rightarrow> row option" where
  "first_by t c v d = (case select_by t c v d of [] \<Rightarrow> None | r # _ \<Rightarrow> Some r)"

end
