(* ===== verification/Schema.thy ===== *)
theory Schema
  imports Sql
begin

text \<open>
  The tables of the canonical state database, column by column as
  \<open>migrations/m0100_current.py\<close> declares them (indexes that constrain nothing are
  left out).
\<close>

definition tx :: "string \<Rightarrow> column" where
  "tx c = \<lparr>cname = c, caff = TextA, cnotnull = False, cdefault = SNull\<rparr>"

definition txn :: "string \<Rightarrow> column" where
  "txn c = \<lparr>cname = c, caff = TextA, cnotnull = True, cdefault = SNull\<rparr>"

definition txd :: "string \<Rightarrow> string \<Rightarrow> column" where
  "txd c d = \<lparr>cname = c, caff = TextA, cnotnull = True, cdefault = SText d\<rparr>"

definition inn :: "string \<Rightarrow> column" where
  "inn c = \<lparr>cname = c, caff = IntA, cnotnull = True, cdefault = SNull\<rparr>"

definition ind :: "string \<Rightarrow> int \<Rightarrow> column" where
  "ind c d = \<lparr>cname = c, caff = IntA, cnotnull = True, cdefault = SInt d\<rparr>"

definition red :: "string \<Rightarrow> string \<Rightarrow> column" where
  "red c d = \<lparr>cname = c, caff = RealA, cnotnull = True, cdefault = SReal d\<rparr>"

definition fk :: "string \<Rightarrow> string \<Rightarrow> fkey" where
  "fk c t = \<lparr>fk_col = c, fk_table = t, fk_ref = ''id''\<rparr>"

text \<open>The text \<open>{"mode":"local","node_id":null}\<close>.\<close>

definition local_placement :: json where
  "local_placement = JObj [(''mode'', JStr ''local''), (''node_id'', JNull)]"

definition local_placement_text :: string where
  "local_placement_text = dumps local_placement"

definition tab :: "string \<Rightarrow> column list \<Rightarrow> string list \<Rightarrow> fkey list \<Rightarrow> table" where
  "tab n cs pk fks = \<lparr>tname = n, tcols = cs, tpk = pk, tfks = fks, tcheck = (\<lambda>_. True), tuniq = []\<rparr>"

definition memory_records_t :: table where
  "memory_records_t = tab ''memory_records''
     [tx ''id'', txn ''kind'', txn ''title'', txn ''claim'', tx ''summary'',
      txn ''status'', txn ''confidence'', txn ''evidence_grade'',
      txn ''privacy_class'', red ''authority'' ''0.0'', txd ''scope'' ''project'',
      tx ''valid_from'', tx ''valid_until'', txn ''created_at'', txn ''updated_at'',
      txn ''owner'', inn ''schema_version'', ind ''archived'' 0,
      txd ''tags_json'' ''[]'']
     [''id''] []"

definition memory_sources_t :: table where
  "memory_sources_t = tab ''memory_sources''
     [tx ''id'', txn ''memory_id'', txn ''source_type'', txn ''source_ref'',
      tx ''source_digest'', tx ''observed_at'', tx ''retrieved_at'',
      txn ''provenance'']
     [''id''] [fk ''memory_id'' ''memory_records'']"

definition memory_relations_t :: table where
  "memory_relations_t = tab ''memory_relations''
     [tx ''id'', txn ''src_id'', txn ''dst_id'', txn ''kind'', txn ''created_at'',
      tx ''note'']
     [''id''] [fk ''src_id'' ''memory_records'', fk ''dst_id'' ''memory_records'']"

definition memory_events_t :: table where
  "memory_events_t = tab ''memory_events''
     [tx ''event_id'', txn ''timestamp'', txn ''event_type'', tx ''run_id'',
      txn ''actor'', tx ''target'', txn ''payload'', txn ''privacy_class'',
      txn ''hash'', tx ''previous_hash'']
     [''event_id''] []"

definition capabilities_t :: table where
  "capabilities_t = tab ''capabilities''
     [tx ''id'', txn ''name'', txn ''type'', txn ''lifecycle'', tx ''current_digest'',
      txn ''created_at'', txn ''updated_at'']
     [''id''] []"

definition capability_versions_t :: table where
  "capability_versions_t = tab ''capability_versions''
     [tx ''id'', txn ''capability_id'', txn ''version'', txn ''digest'',
      txn ''manifest'', txn ''source_kind'', txn ''source_location'', tx ''license'',
      tx ''adapter'', tx ''compatibility'', txn ''lifecycle'', txn ''created_at'']
     [''id''] [fk ''capability_id'' ''capabilities'']"

definition capability_permissions_t :: table where
  "capability_permissions_t = tab ''capability_permissions''
     [tx ''id'', txn ''capability_id'', txn ''filesystem_read'',
      txn ''filesystem_write'', txn ''network'', txn ''secrets'', ind ''subprocess'' 0,
      ind ''external_write'' 0, ind ''destructive'' 0, tx ''approved_at'',
      tx ''approved_by'']
     [''id''] [fk ''capability_id'' ''capabilities'']"

definition adapter_status_t :: table where
  "adapter_status_t = tab ''adapter_status''
     [tx ''id'', txn ''adapter'', tx ''detected_version'', txn ''enforcement_level'',
      tx ''supported_features'', tx ''last_health_check'', tx ''failure_reason'']
     [''id''] []"

definition work_graphs_t :: table where
  "work_graphs_t = tab ''work_graphs''
     [tx ''id'', txn ''objective'', txn ''constraints_json'',
      txn ''success_criteria_json'', txn ''status'', inn ''version'',
      txn ''created_at'', txn ''updated_at'']
     [''id''] []"

definition work_nodes_t :: table where
  "work_nodes_t = tab ''work_nodes''
     [tx ''id'', txn ''graph_id'', txn ''kind'', txn ''objective'',
      txn ''requires_json'', txn ''risk'', ind ''approval_required'' 0,
      ind ''independent_review'' 0, ind ''evidence_required'' 0,
      txn ''expected_outputs_json'', txn ''retry_json'',
      txd ''placement_json'' local_placement_text,
      txn ''metadata_json'', txn ''status'', tx ''output_json'',
      ind ''state_version'' 0]
     [''id''] [fk ''graph_id'' ''work_graphs'']"

definition work_edges_t :: table where
  "work_edges_t = tab ''work_edges''
     [txn ''graph_id'', txn ''src_id'', txn ''dst_id'']
     [''graph_id'', ''src_id'', ''dst_id''] [fk ''graph_id'' ''work_graphs'', fk ''src_id'' ''work_nodes'', fk ''dst_id'' ''work_nodes'']"

definition work_attempts_t :: table where
  "work_attempts_t = tab ''work_attempts''
     [tx ''id'', txn ''graph_id'', txn ''node_id'', inn ''attempt'',
      tx ''capability_id'', txn ''state'', tx ''input_digest'', tx ''output_digest'',
      tx ''error'', tx ''usage_json'', tx ''started_at'', tx ''ended_at'']
     [''id''] [fk ''graph_id'' ''work_graphs'', fk ''node_id'' ''work_nodes'']"

definition approval_requests_t :: table where
  "approval_requests_t = tab ''approval_requests''
     [tx ''id'', tx ''graph_id'', tx ''node_id'', txn ''approval_type'',
      tx ''action_kind'', txn ''requested_action'', txn ''scope_json'',
      txn ''scope_digest'', txn ''reason'', txn ''options_json'',
      txn ''evidence_refs_json'', txn ''risk'', txn ''status'', txn ''requested_at'',
      tx ''decided_at'', tx ''decided_by'', tx ''decision_reason'']
     [''id''] [fk ''graph_id'' ''work_graphs'', fk ''node_id'' ''work_nodes'']"

definition approval_advice_t :: table where
  "approval_advice_t = tab ''approval_advice''
     [tx ''id'', txn ''approval_id'', txn ''capability_id'', txn ''recommendation'',
      txn ''rationale'', txn ''risks_json'', txn ''evidence_gaps_json'',
      txn ''conditions_json'', txn ''created_at'']
     [''id''] [fk ''approval_id'' ''approval_requests'']"

definition nodes_t :: table where
  "nodes_t = (tab ''nodes''
     [tx ''id'', txn ''name'', txn ''role'', txn ''transport'', txn ''transport_host'',
      txn ''ssh_user'', tx ''tailscale_stable_id'', ind ''trusted'' 0,
      txd ''status'' ''unknown'', txd ''capabilities_json'' ''[]'',
      tx ''capability_digest'', tx ''last_seen_at'', txn ''created_at'',
      txn ''updated_at'']
     [''id''] [])
     \<lparr>tcheck := (\<lambda>r. r ''role'' \<in> {SText ''controller'', SText ''worker''})\<rparr>"

definition node_leases_t :: table where
  "node_leases_t = (tab ''node_leases''
     [tx ''id'', txn ''graph_id'', txn ''work_node_id'', txn ''node_id'',
      txn ''state'', txn ''acquired_at'', txn ''expires_at'', tx ''released_at'']
     [''id''] [fk ''node_id'' ''nodes''])
     \<lparr>tuniq := [([''work_node_id''], \<lambda>r. r ''state'' = SText ''active'')]\<rparr>"

definition transfers_t :: table where
  "transfers_t = tab ''transfers''
     [tx ''id'', tx ''graph_id'', tx ''work_node_id'', tx ''node_id'',
      txn ''direction'', txn ''source_path'', txn ''destination_path'',
      txn ''manifest_digest'', tx ''artifact_digest'', txn ''status'',
      txn ''receipt_json'', txn ''created_at'', txn ''updated_at'']
     [''id''] [fk ''node_id'' ''nodes'']"

definition schema_tables :: "table list" where
  "schema_tables = [memory_records_t, memory_sources_t, memory_relations_t, memory_events_t,
     capabilities_t, capability_versions_t, capability_permissions_t, adapter_status_t,
     work_graphs_t, work_nodes_t, work_edges_t, work_attempts_t,
     approval_requests_t, approval_advice_t, nodes_t, node_leases_t,
     transfers_t]"

lemmas table_defs = tab_def memory_records_t_def memory_sources_t_def memory_relations_t_def memory_events_t_def capabilities_t_def capability_versions_t_def capability_permissions_t_def adapter_status_t_def work_graphs_t_def work_nodes_t_def work_edges_t_def work_attempts_t_def approval_requests_t_def approval_advice_t_def nodes_t_def node_leases_t_def transfers_t_def

lemmas column_defs = tx_def txn_def txd_def inn_def ind_def red_def fk_def

lemma tname_simps [simp]:
  "tname memory_records_t = ''memory_records''"
  "tname memory_sources_t = ''memory_sources''"
  "tname memory_relations_t = ''memory_relations''"
  "tname memory_events_t = ''memory_events''"
  "tname capabilities_t = ''capabilities''"
  "tname capability_versions_t = ''capability_versions''"
  "tname capability_permissions_t = ''capability_permissions''"
  "tname adapter_status_t = ''adapter_status''"
  "tname work_graphs_t = ''work_graphs''"
  "tname work_nodes_t = ''work_nodes''"
  "tname work_edges_t = ''work_edges''"
  "tname work_attempts_t = ''work_attempts''"
  "tname approval_requests_t = ''approval_requests''"
  "tname approval_advice_t = ''approval_advice''"
  "tname nodes_t = ''nodes''"
  "tname node_leases_t = ''node_leases''"
  "tname transfers_t = ''transfers''"
  by (simp_all add: table_defs)

end
