(* ===== verification/Events.thy ===== *)
theory Events
  imports Schema
begin

text \<open>
  The append-only, hash-chained event log of \<open>storage/events.py\<close>: envelopes, their
  validation and sealing, the monthly JSONL files, the head marker and its recovery
  after a crash, the append with its SQLite mirror row, and the chain verification.
  Lines are text: written by \<open>_canonical_json\<close>, read by \<open>json.loads\<close>. SHA-256 (its
  hexadecimal and its raw form) and the redaction of a string are parameters
  (\<open>rt_hash\<close>, \<open>rt_raw\<close>, \<open>rt_scrub\<close>); the clock and
  \<open>uuid4\<close> are arguments.
\<close>

section \<open>State\<close>

record rt =
  rt_hash :: "string \<Rightarrow> string"
  rt_raw :: "string \<Rightarrow> string"
  rt_scrub :: "string \<Rightarrow> string"

text \<open>
  \<open>lfiles\<close> maps the path below \<open>memory/events\<close> (year, month) to the lines of its
  \<open>events.jsonl\<close>, in path order; \<open>lhead\<close> is \<open>head.json\<close> (head, last event id), if it
  exists; \<open>lrecovered\<close> is the object's \<open>_recovered\<close>; \<open>lmirror\<close> says whether the log
  has a connection to mirror into.
\<close>

type_synonym path = "string list"

record log =
  lfiles :: "(path \<times> string list) list"
  lhead :: "(string \<times> json) option"
  lrecovered :: bool
  lmirror :: bool

record world =
  wlog :: log
  wdb :: db

record envelope =
  ev_type :: string
  ev_actor :: string
  ev_payload :: obj
  ev_privacy :: string
  ev_run_id :: "string option"
  ev_target :: "string option"
  ev_id :: "string option"
  ev_time :: "string option"

text \<open>\<open>EventEnvelope(event_type, actor, payload)\<close> with the dataclass defaults.\<close>

definition event :: "string \<Rightarrow> string \<Rightarrow> obj \<Rightarrow> envelope" where
  "event t a p = \<lparr>ev_type = t, ev_actor = a, ev_payload = p, ev_privacy = ''internal'',
     ev_run_id = None, ev_target = None, ev_id = None, ev_time = None\<rparr>"

section \<open>Envelopes\<close>

definition SCHEMA_ID :: string where
  "SCHEMA_ID = ''shiroe.event/v2''"

definition genesis :: string where
  "genesis = ''sha256:0''"

definition REQUIRED_FIELDS :: "string list" where
  "REQUIRED_FIELDS = [''schema'', ''event_id'', ''timestamp'', ''event_type'', ''actor'', ''payload'',
     ''privacy_class'', ''hash'', ''previous_hash'']"

definition ALLOWED_PRIVACY_CLASSES :: "string list" where
  "ALLOWED_PRIVACY_CLASSES = [''public'', ''internal'', ''confidential'', ''restricted'']"

definition KNOWN_EVENT_TYPES :: "string list" where
  "KNOWN_EVENT_TYPES =
    [''memory.written'', ''memory.superseded'', ''memory.archived'', ''memory.rejected'',
     ''contradiction.detected'', ''contradiction.resolved'',
     ''capability.discovered'', ''capability.quarantined'', ''capability.inspected'',
     ''capability.approved'', ''capability.benchmarked'', ''capability.activated'',
     ''capability.deactivated'', ''capability.revoked'', ''capability.digest_drift'',
     ''capability.invoked'', ''capability.stale'', ''capability.compromised'',
     ''approval.requested'', ''approval.decided'', ''approval.staled'',
     ''adapter.probed'', ''adapter.unhealthy'',
     ''run.created'', ''run.compiled'', ''run.authorized'', ''run.started'',
     ''run.paused'', ''run.resumed'', ''run.completed'', ''run.failed'', ''run.cancelled'',
     ''step.started'', ''step.completed'', ''step.failed'', ''step.retried'',
     ''attempt.started'', ''attempt.completed'', ''attempt.failed'',
     ''evidence.reviewed'', ''evaluator.ran'',
     ''policy.applied'', ''policy.denied'',
     ''node.registered'', ''node.trust_changed'', ''node.probed'',
     ''node.lease_acquired'', ''node.lease_completed'', ''node.lease_failed'',
     ''transfer.started'', ''transfer.completed'', ''transfer.rejected'',
     ''remote.execution_started'', ''remote.execution_completed'',
     ''remote.execution_failed'']"

text \<open>\<open>_hash_envelope\<close>: the digest of everything but the hash itself.\<close>

definition hash_body :: "obj \<Rightarrow> obj" where
  "hash_body env = filter (\<lambda>p. fst p \<noteq> ''hash'') env"

definition hash_envelope :: "rt \<Rightarrow> obj \<Rightarrow> string" where
  "hash_envelope R env = ''sha256:'' @ rt_hash R (dumps (JObj (hash_body env)))"

definition prepared :: "rt \<Rightarrow> string \<Rightarrow> string \<Rightarrow> string \<Rightarrow> envelope \<Rightarrow> obj" where
  "prepared R now uid prev e =
     (let env = [(''schema'', JStr SCHEMA_ID),
                 (''event_id'', JStr (or_opt (ev_id e) (''evt_'' @ take 16 uid))),
                 (''timestamp'', JStr (or_opt (ev_time e) now)),
                 (''event_type'', JStr (ev_type e)),
                 (''run_id'', jopt (ev_run_id e)),
                 (''actor'', JStr (ev_actor e)),
                 (''target'', jopt (ev_target e)),
                 (''payload'', JObj (ev_payload e)),
                 (''privacy_class'', JStr (ev_privacy e)),
                 (''previous_hash'', JStr prev)]
      in oput env ''hash'' (JStr (hash_envelope R env)))"

text \<open>\<open>k in x\<close> and \<open>x[k]\<close> on a parsed value that may not be an object.\<close>

fun jin :: "string \<Rightarrow> json \<Rightarrow> exn + bool" where
  "jin k (JObj o') = Inr (ohas o' k)"
| "jin k (JList xs) = Inr (JStr k \<in> set xs)"
| "jin k (JStr s) = Inr (contains s k)"
| "jin k _ = Inl (TypeError ''not iterable'')"

fun jfields :: "string list \<Rightarrow> json \<Rightarrow> exn + unit" where
  "jfields [] j = Inr ()"
| "jfields (k # ks) j = (case jin k j of Inl e \<Rightarrow> Inl e
     | Inr b \<Rightarrow> if b then jfields ks j else Inl (EventValidationError k))"

fun as_obj :: "json \<Rightarrow> exn + obj" where
  "as_obj (JObj o') = Inr o'"
| "as_obj _ = Inl (TypeError ''indices'')"

text \<open>\<open>x in S\<close> for a set of strings: an unhashable value raises.\<close>

fun in_set :: "string list \<Rightarrow> json \<Rightarrow> exn + bool" where
  "in_set S (JStr s) = Inr (s \<in> set S)"
| "in_set S (JList _) = Inl (TypeError ''unhashable'')"
| "in_set S (JObj _) = Inl (TypeError ''unhashable'')"
| "in_set S _ = Inr False"

fun is_obj :: "json \<Rightarrow> bool" where
  "is_obj (JObj _) = True"
| "is_obj _ = False"

definition validate_envelope :: "bool \<Rightarrow> json \<Rightarrow> exn + obj" where
  "validate_envelope strict j =
     rbind (jfields REQUIRED_FIELDS j) (\<lambda>_.
     rbind (as_obj j) (\<lambda>env.
     rbind (rguard (oget env ''schema'' = JStr SCHEMA_ID) (EventValidationError ''schema'')) (\<lambda>_.
     rbind (in_set ALLOWED_PRIVACY_CLASSES (oget env ''privacy_class'')) (\<lambda>b.
     rbind (rguard b (EventValidationError ''privacy_class'')) (\<lambda>_.
     rbind (rguard (is_obj (oget env ''payload'')) (EventValidationError ''payload'')) (\<lambda>_.
     rbind (if strict then in_set KNOWN_EVENT_TYPES (oget env ''event_type'') else Inr True) (\<lambda>b.
     rbind (rguard b (EventValidationError ''event_type'')) (\<lambda>_. Inr env))))))))"

section \<open>Files\<close>

definition current_path :: "string \<Rightarrow> path" where
  "current_path ts = filter (\<lambda>s. s \<noteq> []) [take 4 ts, take 2 (drop 5 ts)]"

fun file_append :: "path \<Rightarrow> string \<Rightarrow> (path \<times> string list) list \<Rightarrow> (path \<times> string list) list" where
  "file_append p l [] = [(p, [l])]"
| "file_append p l ((q, ls) # fs) =
     (if q = p then (q, ls @ [l]) # fs
      else if p < q then (p, [l]) # (q, ls) # fs
      else (q, ls) # file_append p l fs)"

definition log_lines :: "log \<Rightarrow> string list" where
  "log_lines L = concat (map snd (lfiles L))"

section \<open>Verification and recovery\<close>

definition check_event :: "rt \<Rightarrow> string \<Rightarrow> json \<Rightarrow> exn + string \<times> json" where
  "check_event R prev j =
     rbind (validate_envelope False j) (\<lambda>env.
       if oget env ''previous_hash'' \<noteq> JStr prev then Inl (HashChainError ''chain break'')
       else if oget env ''hash'' \<noteq> JStr (hash_envelope R env) then Inl (HashChainError ''hash mismatch'')
       else Inr (hash_envelope R env, oget env ''event_id''))"

text \<open>
  The walk of \<open>_validated_tail\<close> and \<open>verify_chain\<close> over the lines: the tail hash, the
  tail's event id, and all hashes.
\<close>

fun walk :: "rt \<Rightarrow> string \<Rightarrow> json \<Rightarrow> string list \<Rightarrow> string list \<Rightarrow> exn + string \<times> json \<times> string list" where
  "walk R prev lid hs [] = Inr (prev, lid, hs)"
| "walk R prev lid hs (l # ls) =
     (if strip l = [] then walk R prev lid hs ls
      else (case loads (strip l) of
          None \<Rightarrow> Inl (JSONDecodeError l)
        | Some j \<Rightarrow> (case check_event R prev j of
              Inl e \<Rightarrow> Inl e
            | Inr (h, i) \<Rightarrow> walk R h i (hs @ [h]) ls)))"

definition validated_tail :: "rt \<Rightarrow> log \<Rightarrow> exn + string \<times> json \<times> string list" where
  "validated_tail R L = walk R genesis (JStr []) [] (log_lines L)"

definition recover_head :: "rt \<Rightarrow> (log, unit) st" where
  "recover_head R L =
     (case validated_tail R L of
        Inl e \<Rightarrow> (Inl e, L)
      | Inr (tail, tid, hs) \<Rightarrow>
          (case lhead L of
             None \<Rightarrow> (Inr (), if tail \<noteq> genesis then L\<lparr>lhead := Some (tail, tid)\<rparr> else L)
           | Some (stored, _) \<Rightarrow>
               if stored = tail then (Inr (), L)
               else if stored = genesis \<or> stored \<in> set hs then (Inr (), L\<lparr>lhead := Some (tail, tid)\<rparr>)
               else (Inl (HashChainError ''head marker''), L)))"

definition load_head :: "rt \<Rightarrow> (log, string) st" where
  "load_head R L =
     (case (if lrecovered L then (Inr (), L) else recover_head R L) of
        (Inl e, L') \<Rightarrow> (Inl e, L')
      | (Inr _, L') \<Rightarrow>
          (Inr (case lhead L' of None \<Rightarrow> genesis | Some (h, _) \<Rightarrow> h), L'\<lparr>lrecovered := True\<rparr>))"

definition verify_chain :: "rt \<Rightarrow> log \<Rightarrow> exn + unit" where
  "verify_chain R L =
     rbind (validated_tail R L) (\<lambda>(tail, _, hs).
       case lhead L of
         None \<Rightarrow> Inr ()
       | Some (declared, _) \<Rightarrow>
           if hs \<noteq> [] \<and> declared \<noteq> tail then Inl (HashChainError ''head marker'') else Inr ())"

section \<open>Append\<close>

text \<open>\<open>_scrub_payload\<close>: every string value, not the keys.\<close>

fun scrub_json :: "(string \<Rightarrow> string) \<Rightarrow> json \<Rightarrow> json" where
  "scrub_json f (JStr s) = JStr (f s)"
| "scrub_json f (JList xs) = JList (map (scrub_json f) xs)"
| "scrub_json f (JObj kvs) = JObj (map (\<lambda>(k, v). (k, scrub_json f v)) kvs)"
| "scrub_json f j = j"

definition scrub_payload :: "rt \<Rightarrow> obj \<Rightarrow> obj" where
  "scrub_payload R o' = map (\<lambda>(k, v). (k, scrub_json (rt_scrub R) v)) o'"

definition mirror_vals :: "obj \<Rightarrow> (string \<times> json) list" where
  "mirror_vals env =
     [(''event_id'', oget env ''event_id''), (''timestamp'', oget env ''timestamp''),
      (''event_type'', oget env ''event_type''), (''run_id'', oget env ''run_id''),
      (''actor'', oget env ''actor''), (''target'', oget env ''target''),
      (''payload'', JStr (dumps (oget env ''payload''))),
      (''privacy_class'', oget env ''privacy_class''), (''hash'', oget env ''hash''),
      (''previous_hash'', oget env ''previous_hash'')]"

definition mirror_row :: "obj \<Rightarrow> (db, unit) st" where
  "mirror_row env = insert_or_replace memory_events_t (mirror_vals env)"

text \<open>
  The file write and the head write of one sealed envelope; \<open>crash_append\<close> is the
  state a crash between the two leaves, seen by the next process.
\<close>

definition write_line :: "obj \<Rightarrow> log \<Rightarrow> log" where
  "write_line env L = L\<lparr>lfiles := file_append
     (current_path (case oget env ''timestamp'' of JStr s \<Rightarrow> s | _ \<Rightarrow> [])) (dumps (JObj env)) (lfiles L)\<rparr>"

definition write_head :: "obj \<Rightarrow> log \<Rightarrow> log" where
  "write_head env L = L\<lparr>lhead := Some
     (case oget env ''hash'' of JStr s \<Rightarrow> s | _ \<Rightarrow> [], oget env ''event_id'')\<rparr>"

definition append_log :: "rt \<Rightarrow> string \<Rightarrow> string \<Rightarrow> envelope \<Rightarrow> (log, obj) st" where
  "append_log R now uid e L =
     (let e' = e\<lparr>ev_payload := scrub_payload R (ev_payload e)\<rparr> in
      case load_head R L of
        (Inl x, L1) \<Rightarrow> (Inl x, L1)
      | (Inr head, L1) \<Rightarrow>
          (let env = prepared R now uid head e' in
           case validate_envelope True (JObj env) of
             Inl x \<Rightarrow> (Inl x, L1)
           | Inr _ \<Rightarrow> (Inr env, write_head env (write_line env L1))))"

definition append_event :: "rt \<Rightarrow> string \<Rightarrow> string \<Rightarrow> envelope \<Rightarrow> (world, obj) st" where
  "append_event R now uid e w =
     (case append_log R now uid e (wlog w) of
        (Inl x, L) \<Rightarrow> (Inl x, w\<lparr>wlog := L\<rparr>)
      | (Inr env, L) \<Rightarrow>
          (if lmirror L
           then (case mirror_row env (wdb w) of
               (Inl x, d) \<Rightarrow> (Inl x, w\<lparr>wlog := L, wdb := d\<rparr>)
             | (Inr _, d) \<Rightarrow> (Inr env, w\<lparr>wlog := L, wdb := d\<rparr>))
           else (Inr env, w\<lparr>wlog := L\<rparr>)))"

end
