(* ===== verification/Chain.thy ===== *)
theory Chain
  imports Events
begin

text \<open>
  What the event log guarantees: sealing and verification agree across the
  serialisation of a line, an append extends the chain, a changed history shows in
  the tail hash, and a crash between the line and the head marker is repaired.
\<close>

section \<open>Hash chains\<close>

fun run_chain :: "('h \<Rightarrow> 'e \<Rightarrow> 'h option) \<Rightarrow> 'h \<Rightarrow> 'e list \<Rightarrow> 'h option" where
  "run_chain chk h [] = Some h"
| "run_chain chk h (e # es) = (case chk h e of None \<Rightarrow> None | Some h' \<Rightarrow> run_chain chk h' es)"

lemma run_chain_append:
  "run_chain chk h (es @ es') = (case run_chain chk h es of None \<Rightarrow> None | Some h' \<Rightarrow> run_chain chk h' es')"
  by (induction es arbitrary: h) (auto split: option.splits)

text \<open>
  A verifier \<open>chk\<close> of single events against the hash before them: the hash after an
  event is the digest of its body, and the body fixes the hash before it.
\<close>

locale hash_chain =
  fixes chk :: "'h \<Rightarrow> 'e \<Rightarrow> 'h option"
    and dig :: "'b \<Rightarrow> 'h"
    and body :: "'e \<Rightarrow> 'b"
  assumes chk_dig: "chk h e = Some a \<Longrightarrow> a = dig (body e)"
    and chk_prev: "chk h e = Some a \<Longrightarrow> chk h' e' = Some a' \<Longrightarrow> body e = body e' \<Longrightarrow> h = h'"
begin

lemma tail_determines_history:
  assumes "run_chain chk g es = Some t" "run_chain chk g es' = Some t"
  shows "map body es = map body es'
    \<or> (\<exists>e \<in> set es. \<exists>e' \<in> set es'. body e \<noteq> body e' \<and> dig (body e) = dig (body e'))
    \<or> (\<exists>e \<in> set es \<union> set es'. dig (body e) = g)"
  using assms
proof (induction es arbitrary: es' t rule: rev_induct)
  case Nil
  show ?case
  proof (cases es' rule: rev_cases)
    case Nil
    then show ?thesis by simp
  next
    case (snoc fs f)
    with Nil have "dig (body f) = g"
      by (auto simp: run_chain_append split: option.splits dest: chk_dig)
    with snoc show ?thesis by auto
  qed
next
  case (snoc e es)
  then obtain h where h: "run_chain chk g es = Some h" "chk h e = Some t"
    by (auto simp: run_chain_append split: option.splits)
  then have t: "t = dig (body e)" by (blast dest: chk_dig)
  show ?case
  proof (cases es' rule: rev_cases)
    case Nil
    with snoc.prems t show ?thesis by auto
  next
    case (snoc fs f)
    with \<open>run_chain chk g es' = Some t\<close> obtain h' where
      h': "run_chain chk g fs = Some h'" "chk h' f = Some t"
      by (auto simp: run_chain_append split: option.splits)
    show ?thesis
    proof (cases "body e = body f")
      case True
      with chk_prev [OF h(2) h'(2)] have "h' = h" by simp
      with snoc.IH [OF h(1), of fs] h'(1) True snoc show ?thesis by auto
    next
      case False
      with t chk_dig [OF h'(2)] snoc show ?thesis by auto
    qed
  qed
qed

end

section \<open>Sealing and reading back\<close>

lemma strip_obj_line:
  "strip (dumps_with a (JObj o')) = dumps_with a (JObj o')" "dumps_with a (JObj o') \<noteq> []"
  by (simp_all add: strip_def lstrip_def rstrip_def is_space_def)

lemma hash_body_onorm: "JObj (hash_body (onorm env)) = norm (JObj (hash_body env))"
  by (simp add: hash_body_def onorm_def filter_sort filter_map o_def case_prod_beta)

lemma hash_envelope_onorm [norm_simps]: "hash_envelope R (onorm env) = hash_envelope R env"
  by (simp only: hash_envelope_def hash_body_onorm dumps_with_norm)

lemma is_obj_norm [norm_simps]: "is_obj (norm j) = is_obj j"
  by (cases j) simp_all

lemma in_set_norm [norm_simps]: "in_set S (norm j) = in_set S j"
  by (cases j) simp_all

lemma jfields_onorm: "jfields ks (JObj (onorm o')) = jfields ks (JObj o')"
  by (induction ks) (simp_all add: norm_simps)

lemma validate_onorm:
  "validate_envelope s (JObj (onorm env)) = map_sum id onorm (validate_envelope s (JObj env))"
  by (simp add: validate_envelope_def jfields_onorm norm_simps rbind_def rguard_def
      split: sum.splits)

lemma validate_obj: "validate_envelope s (JObj env) = Inr env' \<Longrightarrow> env' = env"
  by (auto simp: validate_envelope_def rbind_ok)

lemma validate_strict_lax: "validate_envelope True j = Inr env \<Longrightarrow> validate_envelope False j = Inr env"
  by (auto simp: validate_envelope_def rbind_ok)

lemma check_event_onorm:
  "check_event R prev (JObj (onorm env)) = map_sum id (\<lambda>(h, i). (h, norm i)) (check_event R prev (JObj env))"
proof (cases "validate_envelope False (JObj env)")
  case (Inl e)
  then show ?thesis by (simp add: check_event_def validate_onorm)
next
  case (Inr env')
  with validate_obj have "env' = env" by blast
  with Inr show ?thesis by (simp add: check_event_def validate_onorm norm_simps)
qed

lemma oget_prepared:
  "oget (prepared R now uid prev e) ''previous_hash'' = JStr prev"
  "oget (prepared R now uid prev e) ''hash'' = JStr (hash_envelope R (prepared R now uid prev e))"
  "oget (prepared R now uid prev e) ''event_id'' = JStr (or_opt (ev_id e) (''evt_'' @ take 16 uid))"
  "oget (prepared R now uid prev e) ''timestamp'' = JStr (or_opt (ev_time e) now)"
  "oget (prepared R now uid prev e) ''event_type'' = JStr (ev_type e)"
  "oget (prepared R now uid prev e) ''payload'' = JObj (ev_payload e)"
  "oget (prepared R now uid prev e) ''target'' = jopt (ev_target e)"
  "oget (prepared R now uid prev e) ''run_id'' = jopt (ev_run_id e)"
  "oget (prepared R now uid prev e) ''actor'' = JStr (ev_actor e)"
  "oget (prepared R now uid prev e) ''privacy_class'' = JStr (ev_privacy e)"
  "oget (prepared R now uid prev e) ''schema'' = JStr SCHEMA_ID"
  by (simp_all add: prepared_def Let_def oget_def hash_envelope_def hash_body_def)

lemma ohas_prepared: "k \<in> set REQUIRED_FIELDS \<Longrightarrow> ohas (prepared R now uid prev e) k"
  by (auto simp: prepared_def Let_def ohas_def REQUIRED_FIELDS_def)

lemma jfields_obj: "(\<And>k. k \<in> set ks \<Longrightarrow> ohas env k) \<Longrightarrow> jfields ks (JObj env) = Inr ()"
  by (induction ks) simp_all

text \<open>A new envelope is rejected for its privacy class or its type, and for nothing else.\<close>

lemma validate_prepared:
  "validate_envelope s (JObj (prepared R now uid prev e)) =
    (if ev_privacy e \<notin> set ALLOWED_PRIVACY_CLASSES then Inl (EventValidationError ''privacy_class'')
     else if s \<and> ev_type e \<notin> set KNOWN_EVENT_TYPES then Inl (EventValidationError ''event_type'')
     else Inr (prepared R now uid prev e))"
  by (simp add: validate_envelope_def jfields_obj ohas_prepared oget_prepared rguard_def)

lemma check_event_prepared:
  assumes "validate_envelope True (JObj (prepared R now uid prev e)) = Inr env"
  shows "check_event R prev (JObj (prepared R now uid prev e))
    = Inr (hash_envelope R (prepared R now uid prev e), JStr (or_opt (ev_id e) (''evt_'' @ take 16 uid)))"
  using validate_strict_lax [OF assms] validate_obj [OF assms]
  by (simp add: check_event_def oget_prepared)

lemma wf_obj_iff: "wf_obj o' \<longleftrightarrow> distinct (map fst o') \<and> (\<forall>p \<in> set o'. wf_json (snd p))"
  by (simp add: wf_obj_def)

lemma wf_jopt [simp]: "wf_json (jopt s)"
  by (simp add: jopt_def split: option.splits)

lemma wf_prepared: "wf_obj (ev_payload e) \<Longrightarrow> wf_obj (prepared R now uid prev e)"
  by (simp add: wf_obj_def prepared_def Let_def)

lemma wf_scrub_json: "wf_json j \<Longrightarrow> wf_json (scrub_json f j)"
proof (induction j)
  case (JObj kvs)
  have "map fst (map (\<lambda>(k, v). (k, scrub_json f v)) kvs) = map fst kvs" by auto
  with JObj show ?case by (auto simp del: map_map)
qed auto

lemma wf_scrub_payload: "wf_obj o' \<Longrightarrow> wf_obj (scrub_payload R o')"
  using wf_scrub_json [of "JObj o'" "rt_scrub R"] by (simp add: wf_obj_def scrub_payload_def del: wf_json.simps)

section \<open>Walking the log\<close>

lemma walk_append:
  "walk R p i hs (xs @ ys) = rbind (walk R p i hs xs) (\<lambda>(p', i', hs'). walk R p' i' hs' ys)"
  by (induction xs arbitrary: p i hs) (auto split: option.splits sum.splits)

lemma walk_hashes: "walk R p i hs ls = Inr (t, i', hs') \<Longrightarrow> \<exists>ts. hs' = hs @ ts \<and> (ts = [] \<longrightarrow> t = p) \<and> (ts \<noteq> [] \<longrightarrow> last ts = t)"
proof (induction ls arbitrary: p i hs)
  case Nil
  then show ?case by simp
next
  case (Cons l ls)
  show ?case
  proof (cases "strip l = []")
    case True
    with Cons show ?thesis by simp
  next
    case False
    with Cons.prems obtain h k where "walk R h k (hs @ [h]) ls = Inr (t, i', hs')"
      by (auto split: option.splits sum.splits)
    with Cons.IH obtain ts where "hs' = (hs @ [h]) @ ts" "ts = [] \<longrightarrow> t = h" "ts \<noteq> [] \<longrightarrow> last ts = t"
      by blast
    then have "hs' = hs @ (h # ts)" "last (h # ts) = t" by auto
    then show ?thesis by blast
  qed
qed

lemma walk_line:
  assumes "wf_obj env"
  shows "walk R p i hs [dumps_with a (JObj env)] =
    (case check_event R p (JObj env) of Inl e \<Rightarrow> Inl e | Inr (h, j) \<Rightarrow> Inr (h, norm j, hs @ [h]))"
  using assms
  by (simp add: strip_obj_line loads_dumps_with wf_obj_def norm_simps check_event_onorm
        del: dumps_with.simps wf_json.simps norm.simps split: sum.splits)

text \<open>The events of the log, as parsed.\<close>

definition parsed :: "string list \<Rightarrow> json list" where
  "parsed ls = List.map_filter (\<lambda>l. if strip l = [] then None else loads (strip l)) ls"

definition chk_json :: "rt \<Rightarrow> string \<Rightarrow> json \<Rightarrow> string option" where
  "chk_json R prev j = (if \<not> wf_json j then None
     else (case check_event R prev j of Inl _ \<Rightarrow> None | Inr (h, _) \<Rightarrow> Some h))"

text \<open>The text of an event that its hash covers, and the digest of that text.\<close>

definition sealed_text :: "json \<Rightarrow> string" where
  "sealed_text j = (case j of JObj env \<Rightarrow> dumps (JObj (hash_body env)) | _ \<Rightarrow> [])"

definition text_digest :: "rt \<Rightarrow> string \<Rightarrow> string" where
  "text_digest R t = ''sha256:'' @ rt_hash R t"

lemma check_event_ok:
  assumes "check_event R prev j = Inr (h, i)"
  obtains env where "j = JObj env" "oget env ''previous_hash'' = JStr prev" "h = hash_envelope R env"
proof -
  from assms obtain env where v: "validate_envelope False j = Inr env"
    and h: "oget env ''previous_hash'' = JStr prev" "h = hash_envelope R env"
    by (auto simp: check_event_def rbind_ok split: if_splits)
  from v have "as_obj j = Inr env" by (auto simp: validate_envelope_def rbind_ok)
  then have "j = JObj env" by (cases j) auto
  with h that show thesis by blast
qed

lemma walk_run_chain:
  "walk R p i hs ls = Inr (t, i', hs') \<Longrightarrow> run_chain (chk_json R) p (parsed ls) = Some t"
  by (induction ls arbitrary: p i hs)
     (auto simp: parsed_def chk_json_def map_filter_simps wf_loads
        split: if_splits option.splits sum.splits)

lemma wf_hash_body: "wf_obj env \<Longrightarrow> wf_json (JObj (hash_body env))"
  by (auto simp: wf_obj_def hash_body_def distinct_map_filter)

lemma oget_hash_body: "k \<noteq> ''hash'' \<Longrightarrow> oget (hash_body env) k = oget env k"
  unfolding oget_def hash_body_def by (induction env) auto

interpretation event_chain: hash_chain "chk_json R" "text_digest R" sealed_text
proof
  fix h e a
  assume "chk_json R h e = Some a"
  then show "a = text_digest R (sealed_text e)"
    by (auto simp: chk_json_def sealed_text_def text_digest_def hash_envelope_def
        split: if_splits sum.splits elim!: check_event_ok)
next
  fix h e a h' e' a'
  assume c: "chk_json R h e = Some a" "chk_json R h' e' = Some a'" and t: "sealed_text e = sealed_text e'"
  from c(1) obtain env where e: "e = JObj env" "oget env ''previous_hash'' = JStr h" "wf_obj env"
    by (auto simp: chk_json_def wf_obj_def split: if_splits sum.splits elim!: check_event_ok)
  from c(2) obtain env' where e': "e' = JObj env'" "oget env' ''previous_hash'' = JStr h'" "wf_obj env'"
    by (auto simp: chk_json_def wf_obj_def split: if_splits sum.splits elim!: check_event_ok)
  from t have "norm (JObj (hash_body env)) = norm (JObj (hash_body env'))"
    by (intro dumps_with_inj [where a = True] wf_hash_body e e') (simp add: sealed_text_def e e' del: dumps_with.simps)
  then have "oget (onorm (hash_body env)) ''previous_hash'' = oget (onorm (hash_body env')) ''previous_hash''"
    by (simp add: onorm_def)
  then show "h = h'"
    by (simp add: oget_onorm oget_hash_body e e')
qed

section \<open>Files in order\<close>

definition files_ok :: "(path \<times> string list) list \<Rightarrow> bool" where
  "files_ok fs = sorted_wrt (<) (map fst fs)"

definition not_before :: "path \<Rightarrow> (path \<times> string list) list \<Rightarrow> bool" where
  "not_before p fs = list_all (\<lambda>f. fst f \<le> p) fs"

lemma fst_file_append: "fst ` set (file_append p l fs) = insert p (fst ` set fs)"
  by (induction fs rule: file_append.induct) auto

lemma files_ok_append: "files_ok fs \<Longrightarrow> files_ok (file_append p l fs)"
proof (induction p l fs rule: file_append.induct)
  case (2 p l q ls fs)
  then show ?case
    using fst_file_append [of p l fs] by (auto simp: files_ok_def)
qed (simp add: files_ok_def)

lemma lines_file_append:
  "files_ok fs \<Longrightarrow> not_before p fs \<Longrightarrow>
    concat (map snd (file_append p l fs)) = concat (map snd fs) @ [l]"
proof (induction p l fs rule: file_append.induct)
  case (2 p l q ls fs)
  show ?case
  proof (cases "q = p")
    case True
    with 2 have "fs = []"
      by (cases fs) (auto simp: files_ok_def not_before_def)
    with True show ?thesis by simp
  next
    case False
    with 2 show ?thesis by (auto simp: files_ok_def not_before_def)
  qed
qed (simp add: files_ok_def)

section \<open>The state of an open log\<close>

text \<open>
  The log verifies, its files are in path order, and once the head was reconciled
  the marker names the tail (or is absent and the tail is the sentinel).
\<close>

definition head_value :: "log \<Rightarrow> string" where
  "head_value L = (case lhead L of None \<Rightarrow> genesis | Some (h, _) \<Rightarrow> h)"

definition log_ok :: "rt \<Rightarrow> log \<Rightarrow> bool" where
  "log_ok R L = (files_ok (lfiles L) \<and>
     (case validated_tail R L of Inl _ \<Rightarrow> False
      | Inr (t, _, _) \<Rightarrow> lrecovered L \<longrightarrow> head_value L = t))"

lemma log_okE:
  assumes "log_ok R L"
  obtains t i hs where "files_ok (lfiles L)" "validated_tail R L = Inr (t, i, hs)"
    "lrecovered L \<longrightarrow> head_value L = t"
proof (cases "validated_tail R L")
  case (Inr x)
  obtain t i hs where "x = (t, i, hs)" by (cases x) blast
  with Inr assms that [of t i hs] show thesis by (simp add: log_ok_def)
qed (use assms in \<open>simp add: log_ok_def\<close>)

lemma log_lines_simps [simp]:
  "log_lines (L\<lparr>lhead := h\<rparr>) = log_lines L" "log_lines (L\<lparr>lrecovered := b\<rparr>) = log_lines L"
  "log_lines (L\<lparr>lmirror := b\<rparr>) = log_lines L"
  by (simp_all add: log_lines_def)

lemma validated_tail_simps [simp]:
  "validated_tail R (L\<lparr>lhead := h\<rparr>) = validated_tail R L"
  "validated_tail R (L\<lparr>lrecovered := b\<rparr>) = validated_tail R L"
  by (simp_all add: validated_tail_def)

text \<open>A head that could be loaded is the tail of the log.\<close>

lemma load_head_tail:
  assumes ok: "log_ok R L" and ld: "load_head R L = (Inr h, L1)"
  shows "\<exists>i hs. validated_tail R L = Inr (h, i, hs)" "lfiles L1 = lfiles L" "lrecovered L1"
    "head_value L1 = h" "log_ok R L1" "lmirror L1 = lmirror L"
proof -
  from ok obtain t i hs where f: "files_ok (lfiles L)" and v: "validated_tail R L = Inr (t, i, hs)"
    and r: "lrecovered L \<longrightarrow> head_value L = t" by (rule log_okE)
  have "h = t \<and> lfiles L1 = lfiles L \<and> lrecovered L1 \<and> head_value L1 = h
      \<and> validated_tail R L1 = validated_tail R L \<and> lmirror L1 = lmirror L"
  proof (cases "lrecovered L")
    case True
    with ld r show ?thesis by (auto simp: load_head_def head_value_def split: option.splits prod.splits)
  next
    case False
    with ld v show ?thesis
      by (auto simp: load_head_def recover_head_def head_value_def split: option.splits prod.splits if_splits)
  qed
  with v f show "\<exists>i hs. validated_tail R L = Inr (h, i, hs)" "lfiles L1 = lfiles L" "lrecovered L1"
    "head_value L1 = h" "log_ok R L1" "lmirror L1 = lmirror L"
    by (auto simp: log_ok_def)
qed

lemma write_line_lines:
  assumes "files_ok (lfiles L)" "not_before (current_path ts) (lfiles L)" "oget env ''timestamp'' = JStr ts"
  shows "log_lines (write_line env L) = log_lines L @ [dumps (JObj env)]" "files_ok (lfiles (write_line env L))"
  using assms by (simp_all add: write_line_def log_lines_def lines_file_append files_ok_append)

lemma write_line_simps [simp]:
  "lhead (write_line env L) = lhead L" "lrecovered (write_line env L) = lrecovered L"
  "lmirror (write_line env L) = lmirror L"
  by (simp_all add: write_line_def)

text \<open>The tail after one more sealed line.\<close>

lemma validated_tail_line:
  assumes "validated_tail R L = Inr (prev, i, hs)" "wf_obj (ev_payload e)"
    and "validate_envelope True (JObj env) = Inr env'" "env = prepared R now uid prev e"
    and "log_lines L' = log_lines L @ [dumps (JObj env)]"
  shows "validated_tail R L' = Inr (hash_envelope R env, oget env ''event_id'', hs @ [hash_envelope R env])"
proof -
  from assms have w: "wf_obj env" by (simp add: wf_prepared)
  from assms have "check_event R prev (JObj env) = Inr (hash_envelope R env, oget env ''event_id'')"
    using check_event_prepared [of R now uid prev e env'] by (simp add: oget_prepared)
  with w assms show ?thesis
    by (simp add: validated_tail_def walk_append walk_line oget_prepared del: dumps_with.simps walk.simps)
qed

lemma append_log_okE:
  assumes "append_log R now uid e L = (Inr env, L')" "log_ok R L"
    "not_before (current_path (or_opt (ev_time e) now)) (lfiles L)" "wf_obj (ev_payload e)"
  obtains h i hs L1 e' where
    "load_head R L = (Inr h, L1)" "validated_tail R L = Inr (h, i, hs)"
    "e' = e\<lparr>ev_payload := scrub_payload R (ev_payload e)\<rparr>" "env = prepared R now uid h e'"
    "validate_envelope True (JObj env) = Inr env" "L' = write_head env (write_line env L1)"
    "log_lines L' = log_lines L @ [dumps (JObj env)]" "files_ok (lfiles L')"
    "validated_tail R L' = Inr (hash_envelope R env, oget env ''event_id'', hs @ [hash_envelope R env])"
    "lfiles L' = lfiles (write_line env L)"
proof -
  let ?e = "e\<lparr>ev_payload := scrub_payload R (ev_payload e)\<rparr>"
  from assms(1) obtain h L1 where ld: "load_head R L = (Inr h, L1)"
    by (auto simp: append_log_def Let_def split: prod.splits sum.splits)
  with assms(1) have env: "env = prepared R now uid h ?e"
    and v: "validate_envelope True (JObj env) = Inr env" and L': "L' = write_head env (write_line env L1)"
    by (auto simp: append_log_def Let_def split: prod.splits sum.splits dest: validate_obj)
  from load_head_tail [OF assms(2) ld] obtain i hs where
    t: "validated_tail R L = Inr (h, i, hs)" and f: "lfiles L1 = lfiles L" "log_ok R L1" by blast
  from f have fo: "files_ok (lfiles L1)" by (simp add: log_ok_def)
  have ts: "oget env ''timestamp'' = JStr (or_opt (ev_time e) now)" by (simp add: env oget_prepared)
  have lines: "log_lines L' = log_lines L @ [dumps (JObj env)]" "files_ok (lfiles L')"
    using write_line_lines [OF fo _ ts] assms(3) f
    by (simp_all add: L' write_head_def log_lines_def del: dumps_with.simps)
  moreover have "lfiles L' = lfiles (write_line env L)"
    by (simp add: L' write_head_def write_line_def f)
  moreover from t lines v have
    "validated_tail R L' = Inr (hash_envelope R env, oget env ''event_id'', hs @ [hash_envelope R env])"
    by (intro validated_tail_line [OF t _ v env]) (simp_all add: wf_scrub_payload assms(4))
  ultimately show thesis using that ld t env v L' by blast
qed

lemma verify_of_tail:
  "validated_tail R L = Inr (t, i, hs) \<Longrightarrow> head_value L = t \<Longrightarrow> verify_chain R L = Inr ()"
  by (auto simp: verify_chain_def head_value_def split: option.splits)

section \<open>Properties of the log\<close>

text \<open>C3: appending to a log in good order, with a timestamp not before its last month,
  adds exactly one line, the text of the sealed envelope, after all the others; the log
  still verifies, the head marker names the new event and its hash, the envelope links
  to the old tail, and the log is in good order again, whatever redaction did to the
  payload.\<close>

theorem append_extends_chain:
  assumes "append_log R now uid e L = (Inr env, L')" "log_ok R L"
    and "not_before (current_path (or_opt (ev_time e) now)) (lfiles L)" "wf_obj (ev_payload e)"
  shows "log_lines L' = log_lines L @ [dumps (JObj env)] \<and> verify_chain R L' = Inr ()
    \<and> lhead L' = Some (hash_envelope R env, oget env ''event_id'')
    \<and> (\<exists>i hs. validated_tail R L = Inr (case oget env ''previous_hash'' of JStr p \<Rightarrow> p | _ \<Rightarrow> [], i, hs))
    \<and> oget env ''payload'' = JObj (scrub_payload R (ev_payload e)) \<and> log_ok R L'"
proof (rule append_log_okE [OF assms])
  fix h i hs L1 e'
  assume a: "validated_tail R L = Inr (h, i, hs)" "e' = e\<lparr>ev_payload := scrub_payload R (ev_payload e)\<rparr>"
    "env = prepared R now uid h e'" "L' = write_head env (write_line env L1)"
    "log_lines L' = log_lines L @ [dumps (JObj env)]" "files_ok (lfiles L')"
    "validated_tail R L' = Inr (hash_envelope R env, oget env ''event_id'', hs @ [hash_envelope R env])"
  then have hd: "lhead L' = Some (hash_envelope R env, oget env ''event_id'')"
    by (simp add: write_head_def oget_prepared)
  with a verify_of_tail [OF a(7)] show ?thesis
    by (simp add: log_ok_def head_value_def oget_prepared del: dumps_with.simps)
qed

definition rt0 :: rt where
  "rt0 = \<lparr>rt_hash = (\<lambda>s. nat_str (length s)), rt_raw = (\<lambda>s. nat_str (length s)), rt_scrub = (\<lambda>s. s)\<rparr>"

definition log0 :: log where
  "log0 = \<lparr>lfiles = [], lhead = None, lrecovered = False, lmirror = True\<rparr>"

definition event0 :: envelope where
  "event0 = event ''memory.rejected'' ''ana'' [(''id'', JStr ''m1'')]"

lemma log0_ok: "log_ok R log0" "load_head R log0 = (Inr genesis, log0\<lparr>lrecovered := True\<rparr>)"
  by (simp_all add: log_ok_def log0_def files_ok_def validated_tail_def log_lines_def load_head_def
      recover_head_def)

lemma append_event0:
  "append_log rt0 ''2025-03-04'' ''u'' event0 log0
   = (let env = prepared rt0 ''2025-03-04'' ''u'' genesis
        (event0\<lparr>ev_payload := scrub_payload rt0 (ev_payload event0)\<rparr>)
      in (Inr env, write_head env (write_line env (log0\<lparr>lrecovered := True\<rparr>))))"
  by (simp add: append_log_def log0_ok validate_prepared Let_def)
     (simp add: event0_def event_def ALLOWED_PRIVACY_CLASSES_def KNOWN_EVENT_TYPES_def)

lemma not_before_log0: "not_before p (lfiles log0)"
  by (simp add: not_before_def log0_def)

lemma event0_wf: "wf_obj (ev_payload event0)"
  by (simp add: event0_def event_def wf_obj_def)

lemma append_extends_chain_witness:
  "verify_chain rt0 (snd (append_log rt0 ''2025-03-04'' ''u'' event0 log0)) = Inr ()"
  using append_extends_chain [OF append_event0 [unfolded Let_def] log0_ok(1) not_before_log0 event0_wf]
  by (simp add: append_event0 Let_def del: dumps_with.simps)

text \<open>C2: two logs that verify to the same tail hash hold the same events, field by field
  of the canonical text, or exhibit a collision of the digest among their own events (or
  an event whose digest is the sentinel of the empty log).\<close>

theorem tamper_evidence:
  assumes "validated_tail R L = Inr (t, i, hs)" "validated_tail R L' = Inr (t, i', hs')"
  shows "map sealed_text (parsed (log_lines L)) = map sealed_text (parsed (log_lines L'))
    \<or> (\<exists>e \<in> set (parsed (log_lines L)). \<exists>e' \<in> set (parsed (log_lines L')).
        sealed_text e \<noteq> sealed_text e' \<and> rt_hash R (sealed_text e) = rt_hash R (sealed_text e'))
    \<or> (\<exists>e \<in> set (parsed (log_lines L)) \<union> set (parsed (log_lines L')). rt_hash R (sealed_text e) = ''0'')"
  using event_chain.tail_determines_history
    [OF walk_run_chain [OF assms(1) [unfolded validated_tail_def]]
        walk_run_chain [OF assms(2) [unfolded validated_tail_def]]]
  by (simp add: text_digest_def genesis_def)

text \<open>C4: a crash after the line of an event reached the disk and before the head marker
  was replaced loses nothing: the next process to open the log finds the marker of the
  previous event (or none), loads the hash of the sealed event as its head and continues
  from it, with the same lines on disk.\<close>

theorem crash_recovery:
  assumes "append_log R now uid e L = (Inr env, L')" "log_ok R L"
    and "not_before (current_path (or_opt (ev_time e) now)) (lfiles L)" "wf_obj (ev_payload e)"
    and "C = L'\<lparr>lhead := lhead (snd (load_head R L)), lrecovered := False\<rparr>"
  shows "fst (load_head R C) = Inr (hash_envelope R env) \<and> log_ok R (snd (load_head R C))
    \<and> lfiles (snd (load_head R C)) = lfiles L' \<and> head_value (snd (load_head R C)) = hash_envelope R env"
proof (rule append_log_okE [OF assms(1-4)])
  fix h i hs L1 e'
  assume ld: "load_head R L = (Inr h, L1)" and v: "validated_tail R L = Inr (h, i, hs)"
    and f: "files_ok (lfiles L')"
    and v': "validated_tail R L' = Inr (hash_envelope R env, oget env ''event_id'', hs @ [hash_envelope R env])"
  from load_head_tail [OF assms(2) ld] have hv: "head_value L1 = h" by simp
  from v obtain ts where ts: "hs = ts" "ts = [] \<longrightarrow> h = genesis" "ts \<noteq> [] \<longrightarrow> last ts = h"
    using walk_hashes [of R genesis "JStr []" "[]" "log_lines L" h i hs] by (auto simp: validated_tail_def)
  then have mem: "h = genesis \<or> h \<in> set hs" by (metis last_in_set)
  have C: "validated_tail R C = Inr (hash_envelope R env, oget env ''event_id'', hs @ [hash_envelope R env])"
    "lhead C = lhead L1" "\<not> lrecovered C" "lfiles C = lfiles L'"
    using v' by (simp_all add: assms(5) ld)
  have "fst (load_head R C) = Inr (hash_envelope R env) \<and> lfiles (snd (load_head R C)) = lfiles C
      \<and> head_value (snd (load_head R C)) = hash_envelope R env
      \<and> validated_tail R (snd (load_head R C)) = validated_tail R C"
    using C hv mem by (auto simp: load_head_def recover_head_def head_value_def split: option.splits prod.splits)
  with C f show ?thesis by (auto simp: log_ok_def)
qed

lemma crash_recovery_witness:
  "fst (load_head rt0 (snd (append_log rt0 ''2025-03-04'' ''u'' event0 log0)\<lparr>lhead := None, lrecovered := False\<rparr>))
   = Inr (hash_envelope rt0 (prepared rt0 ''2025-03-04'' ''u'' genesis event0))"
proof -
  have "event0\<lparr>ev_payload := scrub_payload rt0 (ev_payload event0)\<rparr> = event0"
    by (simp add: event0_def event_def scrub_payload_def rt0_def)
  moreover have "lhead (log0\<lparr>lrecovered := True\<rparr>) = None" by (simp add: log0_def)
  ultimately show ?thesis
    using crash_recovery [OF append_event0 [unfolded Let_def] log0_ok(1) not_before_log0 event0_wf refl]
    by (simp add: append_event0 Let_def log0_ok del: dumps_with.simps)
qed

lemma prefix_tail:
  assumes "validated_tail R L = Inr (t, i, hs)" "log_lines L = log_lines T @ ls"
  obtains t' i' hs' ts where "validated_tail R T = Inr (t', i', hs')" "hs = hs' @ ts" "ts \<noteq> [] \<longrightarrow> last ts = t"
proof -
  from assms obtain t' i' hs' where T: "validated_tail R T = Inr (t', i', hs')"
    and r: "walk R t' i' hs' ls = Inr (t, i, hs)"
    by (auto simp: validated_tail_def walk_append rbind_ok)
  from walk_hashes [OF r] T that show thesis by blast
qed

text \<open>a log that lost its last sealed events fails closed: with the marker still naming
  the lost tail, the next process to append gets \<open>HashChainError\<close> and writes nothing,
  neither a line nor a new marker.\<close>

theorem truncation_fails_closed:
  assumes "validated_tail R L = Inr (t, i, hs)" "head_value L = t" "distinct hs" "genesis \<notin> set hs"
    and "log_lines L = log_lines T @ ls" "validated_tail R T = Inr (t', i', hs')" "hs' \<noteq> hs"
    and "lhead T = lhead L" "\<not> lrecovered T"
  shows "append_log R now uid e T = (Inl (HashChainError ''head marker''), T)"
proof -
  from prefix_tail [OF assms(1,5)] assms(6) obtain ts where ts: "hs = hs' @ ts" "ts \<noteq> [] \<longrightarrow> last ts = t"
    by auto
  with assms(7) have "ts \<noteq> []" by auto
  with ts assms(3,4) have t: "t \<notin> set hs'" "t \<noteq> genesis"
    by (auto dest: last_in_set)
  with assms(2,8) obtain k where h: "lhead T = Some (t, k)"
    by (auto simp: head_value_def split: option.splits)
  have "t' = genesis \<or> t' \<in> set hs'"
    using walk_hashes [of R genesis "JStr []" "[]" "log_lines T" t' i' hs'] assms(6)
    by (auto simp: validated_tail_def)
  with t have "t \<noteq> t'" by auto
  with t h assms(6,9) show ?thesis
    by (simp add: append_log_def load_head_def recover_head_def)
qed

lemma walk_log1:
  "validated_tail rt0 (snd (append_log rt0 ''2025-03-04'' ''u'' event0 log0))
   = Inr (hash_envelope rt0 (prepared rt0 ''2025-03-04'' ''u'' genesis event0), JStr ''evt_u'',
       [hash_envelope rt0 (prepared rt0 ''2025-03-04'' ''u'' genesis event0)])"
  "head_value (snd (append_log rt0 ''2025-03-04'' ''u'' event0 log0))
   = hash_envelope rt0 (prepared rt0 ''2025-03-04'' ''u'' genesis event0)"
proof -
  let ?env = "prepared rt0 ''2025-03-04'' ''u'' genesis event0"
  have e: "event0\<lparr>ev_payload := scrub_payload rt0 (ev_payload event0)\<rparr> = event0"
    by (simp add: event0_def event_def scrub_payload_def rt0_def)
  have L: "snd (append_log rt0 ''2025-03-04'' ''u'' event0 log0) = write_head ?env (write_line ?env (log0\<lparr>lrecovered := True\<rparr>))"
    by (simp add: append_event0 Let_def e)
  have w: "wf_obj ?env" by (simp add: wf_prepared event0_wf)
  have "validate_envelope True (JObj ?env) = Inr ?env"
    by (simp add: validate_prepared) (simp add: event0_def event_def ALLOWED_PRIVACY_CLASSES_def KNOWN_EVENT_TYPES_def)
  from check_event_prepared [OF this] w show
    "validated_tail rt0 (snd (append_log rt0 ''2025-03-04'' ''u'' event0 log0))
     = Inr (hash_envelope rt0 ?env, JStr ''evt_u'', [hash_envelope rt0 ?env])"
    unfolding L
    by (simp add: validated_tail_def write_head_def write_line_def log_lines_def log0_def walk_line
          del: walk.simps dumps_with.simps) (simp add: event0_def event_def or_opt_def)
  show "head_value (snd (append_log rt0 ''2025-03-04'' ''u'' event0 log0)) = hash_envelope rt0 ?env"
    unfolding L by (simp add: head_value_def write_head_def oget_prepared)
qed

definition log1 :: log where
  "log1 = snd (append_log rt0 ''2025-03-04'' ''u'' event0 log0)"

definition log1b :: log where
  "log1b = log1\<lparr>lfiles := lfiles log1 @ [([''2025'', ''04''], [[]])]\<rparr>"

lemma walk_log1b: "validated_tail rt0 log1b = validated_tail rt0 log1"
  by (cases "validated_tail rt0 log1")
     (auto simp: validated_tail_def log1b_def log_lines_def walk_append strip_def lstrip_def rstrip_def)

lemma tamper_evidence_witness:
  "map sealed_text (parsed (log_lines log1)) = map sealed_text (parsed (log_lines log1b))
    \<or> (\<exists>e \<in> set (parsed (log_lines log1)). \<exists>e' \<in> set (parsed (log_lines log1b)).
        sealed_text e \<noteq> sealed_text e' \<and> rt_hash rt0 (sealed_text e) = rt_hash rt0 (sealed_text e'))
    \<or> (\<exists>e \<in> set (parsed (log_lines log1)) \<union> set (parsed (log_lines log1b)). rt_hash rt0 (sealed_text e) = ''0'')"
  by (rule tamper_evidence [OF walk_log1(1) [folded log1_def] walk_log1(1) [folded log1_def, folded walk_log1b]])

lemma nat_str_not_0: "n \<noteq> 0 \<Longrightarrow> nat_str n \<noteq> ''0''"
  using nat_of_str_nat_str [of n] by (auto simp: nat_of_str_def digit_val_def)

lemma hash_not_genesis: "hash_envelope rt0 env \<noteq> genesis"
  using nat_str_not_0 [of "length (dumps (JObj (hash_body env)))"] strip_obj_line(2) [of True "hash_body env"]
  by (simp add: hash_envelope_def genesis_def rt0_def del: dumps_with.simps)

lemma truncation_fails_closed_witness:
  "append_log rt0 ''2025-03-05'' ''v'' event0 (log1\<lparr>lfiles := [], lrecovered := False\<rparr>)
   = (Inl (HashChainError ''head marker''), log1\<lparr>lfiles := [], lrecovered := False\<rparr>)"
proof (rule truncation_fails_closed [where L = log1 and ls = "log_lines log1" and hs' = "[]" and t' = genesis and i' = "JStr []"])
  show "validated_tail rt0 log1 = Inr (hash_envelope rt0 (prepared rt0 ''2025-03-04'' ''u'' genesis event0), JStr ''evt_u'',
       [hash_envelope rt0 (prepared rt0 ''2025-03-04'' ''u'' genesis event0)])"
    "head_value log1 = hash_envelope rt0 (prepared rt0 ''2025-03-04'' ''u'' genesis event0)"
    by (simp_all only: log1_def walk_log1)
  show "genesis \<notin> set [hash_envelope rt0 (prepared rt0 ''2025-03-04'' ''u'' genesis event0)]"
    using hash_not_genesis by (metis empty_iff list.set(1) set_ConsD)
qed (simp_all add: log_lines_def validated_tail_def)

end
