(* ===== verification/Projections.thy ===== *)
theory Projections
  imports Chain
begin

text \<open>
  The reducers that fold one event into the current-state tables
  (\<open>storage/records.py\<close>, \<open>storage/projections.py\<close>), the dispatcher every write path
  and the replay go through, and the replay itself
  (\<open>EventLog.replay_into\<close>). A reducer may raise half way: the statements before the
  failing one stay in the connection's view.
\<close>

section \<open>Reading a payload\<close>

definition payload_of :: "obj \<Rightarrow> obj" where
  "payload_of env = (case oget env ''payload'' of JObj p \<Rightarrow> p | _ \<Rightarrow> [])"

definition jor :: "json \<Rightarrow> json \<Rightarrow> json" where
  "jor a b = (if truthy a then a else b)"

definition missing :: "string list \<Rightarrow> obj \<Rightarrow> bool" where
  "missing ks p = list_ex (\<lambda>k. oget p k = JNull) ks"

definition flag :: "json \<Rightarrow> json" where
  "flag j = JInt (if truthy j then 1 else 0)"

text \<open>\<open>x[k]\<close>, \<open>x.get\<close>, iteration, \<open>str(x)\<close>, \<open>int(x)\<close>.\<close>

fun need :: "json \<Rightarrow> string \<Rightarrow> exn + json" where
  "need (JObj o') k = (case map_of o' k of None \<Rightarrow> Inl (KeyError k) | Some v \<Rightarrow> Inr v)"
| "need _ k = Inl (TypeError ''indices'')"

fun jiter :: "json \<Rightarrow> exn + json list" where
  "jiter (JList xs) = Inr xs"
| "jiter (JObj o') = Inr (map (\<lambda>p. JStr (fst p)) o')"
| "jiter (JStr s) = Inr (map (\<lambda>c. JStr [c]) s)"
| "jiter _ = Inl (TypeError ''not iterable'')"

fun py_str :: "json \<Rightarrow> string" where
  "py_str (JStr s) = s"
| "py_str (JInt i) = int_str i"
| "py_str (JFloat s) = s"
| "py_str (JBool b) = (if b then ''True'' else ''False'')"
| "py_str JNull = ''None''"
| "py_str j = dumps j"

text \<open>\<open>int(x)\<close>; a float is cut at its decimal point, so one written with an exponent is rejected.\<close>

fun py_int :: "json \<Rightarrow> exn + int" where
  "py_int (JInt i) = Inr i"
| "py_int (JBool b) = Inr (if b then 1 else 0)"
| "py_int (JStr s) = (if is_int_lit (strip s) then Inr (int_of_lit (strip s)) else Inl (ValueError ''int''))"
| "py_int (JFloat s) = (let t = takeWhile (\<lambda>c. c \<noteq> CHR ''.'') s in
     if is_int_lit t \<and> dropWhile is_digit (drop (Suc (length t)) s) = [] then Inr (int_of_lit t) else Inl (ValueError ''int''))"
| "py_int _ = Inl (TypeError ''int'')"

section \<open>Memory records\<close>

definition RECORD_FIELDS :: "string list" where
  "RECORD_FIELDS =
    [''id'', ''kind'', ''title'', ''claim'', ''summary'', ''status'', ''confidence'',
     ''evidence_grade'', ''privacy_class'', ''authority'', ''scope'', ''valid_from'',
     ''valid_until'', ''created_at'', ''updated_at'', ''owner'', ''schema_version'',
     ''archived'', ''tags_json'']"

definition REQUIRED_PAYLOAD_FIELDS :: "string list" where
  "REQUIRED_PAYLOAD_FIELDS = [''id'', ''kind'', ''title'', ''claim'', ''owner'', ''created_at'', ''updated_at'']"

definition write_source :: "json \<Rightarrow> json \<Rightarrow> (db, unit) st" where
  "write_source mid src =
     st_bind (st_lift (need src ''id'')) (\<lambda>i.
     st_bind (st_lift (need src ''source_type'')) (\<lambda>ty.
     st_bind (st_lift (need src ''source_ref'')) (\<lambda>rf.
     (case src of JObj s \<Rightarrow>
       insert_or_replace memory_sources_t
         [(''id'', i), (''memory_id'', mid), (''source_type'', ty), (''source_ref'', rf),
          (''source_digest'', oget s ''source_digest''), (''observed_at'', oget s ''observed_at''),
          (''retrieved_at'', oget s ''retrieved_at''),
          (''provenance'', oget_or s ''provenance'' (JStr ''unknown''))]
      | _ \<Rightarrow> st_raise (TypeError ''indices'')))))"

definition apply_memory :: "obj \<Rightarrow> (db, bool) st" where
  "apply_memory env =
     (let p = payload_of env; kind = oget env ''event_type'' in
      if kind = JStr ''memory.written'' then
        (if missing REQUIRED_PAYLOAD_FIELDS p then st_ret False
         else
           st_bind (insert_or_replace memory_records_t (map (\<lambda>f. (f, oget p f)) RECORD_FIELDS)) (\<lambda>_.
           st_bind (if truthy (oget p ''sources'') then st_lift (jiter (oget p ''sources'')) else st_ret []) (\<lambda>srcs.
           st_bind (st_for (write_source (oget p ''id'')) srcs) (\<lambda>_. st_ret True))))
      else if kind = JStr ''memory.superseded'' \<or> kind = JStr ''memory.archived'' then
        st_bind (update_by memory_records_t
            [(''status'', JStr (if kind = JStr ''memory.superseded'' then ''superseded'' else ''archived'')),
             (''archived'', JInt (if kind = JStr ''memory.archived'' then 1 else 0)),
             (''updated_at'', jor (oget p ''updated_at'') (oget env ''timestamp''))]
            id ''id'' (jor (oget p ''id'') (oget env ''target'')))
          (\<lambda>_. st_ret True)
      else st_ret False)"

section \<open>Capabilities\<close>

definition CAPABILITY_LIFECYCLE_EVENTS :: "(string \<times> string) list" where
  "CAPABILITY_LIFECYCLE_EVENTS =
    [(''capability.quarantined'', ''quarantined''), (''capability.inspected'', ''inspected''),
     (''capability.approved'', ''approved''), (''capability.benchmarked'', ''benchmarked''),
     (''capability.activated'', ''active''), (''capability.revoked'', ''revoked''),
     (''capability.stale'', ''stale''), (''capability.compromised'', ''compromised'')]"

definition target_id :: "obj \<Rightarrow> string \<Rightarrow> string option" where
  "target_id env pre =
     (let p = payload_of env;
          value = jor (oget p ''id'') (oget p ''capability_id'');
          from_payload = (case value of JStr s \<Rightarrow> if s \<noteq> [] then Some s else None | _ \<Rightarrow> None) in
      case oget env ''target'' of
        JStr t \<Rightarrow> if starts_with t pre then Some (drop (length pre) t) else from_payload
      | _ \<Rightarrow> from_payload)"

definition event_when :: "obj \<Rightarrow> json \<Rightarrow> json" where
  "event_when p ts = jor (oget p ''event_time'') ts"

text \<open>\<open>updated_at = COALESCE(?, updated_at)\<close>\<close>

definition touch :: "json \<Rightarrow> (string \<times> json) list" where
  "touch w = (if w = JNull then [] else [(''updated_at'', w)])"

definition DISCOVERED_FIELDS :: "string list" where
  "DISCOVERED_FIELDS = [''id'', ''name'', ''type'', ''digest'', ''version_id'', ''version'',
     ''manifest'', ''source_kind'', ''source_location'']"

definition write_permissions :: "obj \<Rightarrow> obj \<Rightarrow> (db, unit) st" where
  "write_permissions p pm =
     insert_or_replace capability_permissions_t
       [(''id'', jor (oget pm ''id'') (JStr (py_str (oget p ''id'') @ ''_perm''))),
        (''capability_id'', oget p ''id''),
        (''filesystem_read'', JStr (dumps (oget_or pm ''filesystem_read'' (JList [])))),
        (''filesystem_write'', JStr (dumps (oget_or pm ''filesystem_write'' (JList [])))),
        (''network'', JStr (dumps (oget_or pm ''network'' (JStr ''none'')))),
        (''secrets'', JStr (dumps (oget_or pm ''secrets'' (JList [])))),
        (''subprocess'', flag (oget pm ''subprocess'')),
        (''external_write'', flag (oget pm ''external_write'')),
        (''destructive'', flag (oget pm ''destructive'')),
        (''approved_at'', oget pm ''approved_at''), (''approved_by'', oget pm ''approved_by'')]"

definition text_of :: "json \<Rightarrow> string" where
  "text_of j = (case j of JStr s \<Rightarrow> s | _ \<Rightarrow> dumps j)"

definition apply_discovered :: "obj \<Rightarrow> (db, bool) st" where
  "apply_discovered env =
     (let p = payload_of env; w = event_when p (oget env ''timestamp'');
          lc = oget_or p ''lifecycle'' (JStr ''quarantined'') in
      if missing DISCOVERED_FIELDS p then st_ret False
      else
        st_bind (insert_or_replace capabilities_t
          [(''id'', oget p ''id''), (''name'', oget p ''name''), (''type'', oget p ''type''),
           (''lifecycle'', lc), (''current_digest'', oget p ''digest''), (''created_at'', w), (''updated_at'', w)]) (\<lambda>_.
        st_bind (insert_or_replace capability_versions_t
          [(''id'', oget p ''version_id''), (''capability_id'', oget p ''id''), (''version'', oget p ''version''),
           (''digest'', oget p ''digest''), (''manifest'', JStr (text_of (oget p ''manifest''))),
           (''source_kind'', oget p ''source_kind''), (''source_location'', oget p ''source_location''),
           (''license'', oget p ''license''), (''adapter'', oget p ''adapter''),
           (''compatibility'', if truthy (oget p ''compatibility'') then JStr (dumps (oget p ''compatibility'')) else JNull),
           (''lifecycle'', lc), (''created_at'', w)]) (\<lambda>_.
        if \<not> truthy (oget p ''permissions'') then st_ret True
        else (case oget p ''permissions'' of
            JObj pm \<Rightarrow> st_bind (write_permissions p pm) (\<lambda>_. st_ret True)
          | _ \<Rightarrow> st_raise (TypeError ''attribute'')))))"

definition apply_capability :: "obj \<Rightarrow> (db, bool) st" where
  "apply_capability env =
     (let p = payload_of env; w = event_when p (oget env ''timestamp'') in
      if oget env ''event_type'' = JStr ''capability.digest_drift'' then
        (case target_id env ''capability:'' of
           None \<Rightarrow> st_ret False
         | Some cid \<Rightarrow>
             if missing [''new_digest'', ''new_state''] p then st_ret False
             else st_bind (update_by capabilities_t
                 ([(''current_digest'', oget p ''new_digest''), (''lifecycle'', oget p ''new_state'')] @ touch w)
                 id ''id'' (JStr cid)) (\<lambda>n. st_ret (0 < n)))
      else (case (case oget env ''event_type'' of JStr t \<Rightarrow> map_of CAPABILITY_LIFECYCLE_EVENTS t | _ \<Rightarrow> None) of
          Some lc \<Rightarrow>
            (case target_id env ''capability:'' of
               None \<Rightarrow> st_ret False
             | Some cid \<Rightarrow> st_bind (update_by capabilities_t
                   ([(''lifecycle'', oget_or p ''to'' (JStr lc))] @ touch w) id ''id'' (JStr cid))
                 (\<lambda>n. st_ret (0 < n)))
        | None \<Rightarrow>
            if oget env ''event_type'' \<noteq> JStr ''capability.discovered'' then st_ret False
            else apply_discovered env))"

section \<open>Approvals\<close>

definition APPROVAL_FIELDS :: "string list" where
  "APPROVAL_FIELDS = [''id'', ''approval_type'', ''requested_action'', ''scope'', ''scope_digest'',
     ''reason'', ''risk'', ''status'', ''requested_at'']"

definition apply_approval :: "obj \<Rightarrow> (db, bool) st" where
  "apply_approval env =
     (let p = payload_of env; ty = oget env ''event_type'' in
      if ty = JStr ''approval.requested'' then
        (if missing APPROVAL_FIELDS p then st_ret False
         else st_bind (insert_or_replace approval_requests_t
           [(''id'', oget p ''id''), (''graph_id'', oget p ''graph_id''), (''node_id'', oget p ''node_id''),
            (''approval_type'', oget p ''approval_type''), (''action_kind'', oget p ''action_kind''),
            (''requested_action'', oget p ''requested_action''), (''scope_json'', JStr (dumps (oget p ''scope''))),
            (''scope_digest'', oget p ''scope_digest''), (''reason'', oget p ''reason''),
            (''options_json'', JStr (dumps (oget_or p ''options'' (JList [])))),
            (''evidence_refs_json'', JStr (dumps (oget_or p ''evidence_refs'' (JList [])))),
            (''risk'', oget p ''risk''), (''status'', oget p ''status''), (''requested_at'', oget p ''requested_at''),
            (''decided_at'', JNull), (''decided_by'', JNull), (''decision_reason'', JNull)]) (\<lambda>_. st_ret True))
      else if ty = JStr ''approval.decided'' then
        (if missing [''id'', ''decision'', ''actor'', ''reason'', ''decided_at''] p then st_ret False
         else st_bind (update_by approval_requests_t
           [(''status'', oget p ''decision''), (''decided_at'', oget p ''decided_at''),
            (''decided_by'', oget p ''actor''), (''decision_reason'', oget p ''reason'')]
           id ''id'' (oget p ''id'')) (\<lambda>_. st_ret True))
      else if ty = JStr ''approval.staled'' then
        (if missing [''id''] p then st_ret False
         else st_bind (update_by approval_requests_t [(''status'', JStr ''stale'')] id ''id'' (oget p ''id''))
                (\<lambda>_. st_ret True))
      else st_ret False)"

section \<open>The work graph\<close>

definition write_node :: "json \<Rightarrow> json \<Rightarrow> (db, unit) st" where
  "write_node gid node =
     st_bind (st_lift (need node ''id'')) (\<lambda>i.
     st_bind (st_lift (need node ''kind'')) (\<lambda>k.
     st_bind (st_lift (need node ''objective'')) (\<lambda>ob.
     (case node of JObj n \<Rightarrow>
       insert_or_replace work_nodes_t
         [(''id'', i), (''graph_id'', gid), (''kind'', k), (''objective'', ob),
          (''requires_json'', JStr (dumps (oget_or n ''requires'' (JList [])))),
          (''risk'', oget_or n ''risk'' (JStr [])),
          (''approval_required'', flag (oget n ''approval_required'')),
          (''independent_review'', flag (oget n ''independent_review'')),
          (''evidence_required'', flag (oget n ''evidence_required'')),
          (''expected_outputs_json'', JStr (dumps (oget_or n ''expected_outputs'' (JList [])))),
          (''retry_json'', JStr (dumps (oget_or n ''retry'' (JObj [])))),
          (''placement_json'', JStr (dumps (oget_or n ''placement'' local_placement))),
          (''metadata_json'', JStr (dumps (oget_or n ''metadata'' (JObj [])))),
          (''status'', oget_or n ''status'' (JStr ''pending''))]
      | _ \<Rightarrow> st_raise (TypeError ''indices'')))))"

definition write_edge :: "json \<Rightarrow> json \<Rightarrow> (db, unit) st" where
  "write_edge gid edge =
     st_bind (st_lift (need edge ''src_id'')) (\<lambda>s.
     st_bind (st_lift (need edge ''dst_id'')) (\<lambda>t.
     insert_or_replace work_edges_t [(''graph_id'', gid), (''src_id'', s), (''dst_id'', t)]))"

definition apply_run_created :: "obj \<Rightarrow> json \<Rightarrow> (db, bool) st" where
  "apply_run_created p ts =
     (let w = event_when p ts; gid = oget p ''id'' in
      if missing [''id'', ''objective'', ''status'', ''version'', ''nodes'', ''edges''] p then st_ret False
      else
        st_bind (insert_or_replace work_graphs_t
          [(''id'', gid), (''objective'', oget p ''objective''),
           (''constraints_json'', JStr (dumps (oget_or p ''constraints'' (JList [])))),
           (''success_criteria_json'', JStr (dumps (oget_or p ''success_criteria'' (JList [])))),
           (''status'', oget p ''status''), (''version'', oget p ''version''),
           (''created_at'', w), (''updated_at'', w)]) (\<lambda>_.
        st_bind (st_lift (jiter (oget p ''nodes''))) (\<lambda>ns.
        st_bind (st_for (write_node gid) ns) (\<lambda>_.
        st_bind (st_lift (jiter (oget p ''edges''))) (\<lambda>es.
        st_bind (st_for (write_edge gid) es) (\<lambda>_. st_ret True))))))"

definition apply_run_status :: "obj \<Rightarrow> json \<Rightarrow> (db, bool) st" where
  "apply_run_status p ts =
     (if missing [''id'', ''status''] p then st_ret False
      else st_bind (update_by work_graphs_t ([(''status'', oget p ''status'')] @ touch (event_when p ts))
             id ''id'' (oget p ''id'')) (\<lambda>_. st_ret True))"

text \<open>\<open>state_version = state_version + 1\<close>\<close>

definition bump_version :: "row \<Rightarrow> row" where
  "bump_version r = r(''state_version'' :=
     (case r ''state_version'' of SInt i \<Rightarrow> SInt (i + 1) | v \<Rightarrow> v))"

definition apply_step :: "obj \<Rightarrow> (db, bool) st" where
  "apply_step p =
     (if oget p ''node_id'' = JNull then st_ret False
      else st_bind (update_by work_nodes_t
          ((if oget p ''to'' \<noteq> JNull then [(''status'', oget p ''to'')] else [])
           @ (if oget p ''output'' \<noteq> JNull then [(''output_json'', JStr (dumps (oget p ''output'')))] else []))
          bump_version ''id'' (oget p ''node_id'')) (\<lambda>_. st_ret True))"

definition merge_attempt :: "row \<Rightarrow> row \<Rightarrow> row" where
  "merge_attempt o' n = o'(''state'' := n ''state'', ''input_digest'' := n ''input_digest'',
     ''output_digest'' := n ''output_digest'', ''error'' := n ''error'', ''usage_json'' := n ''usage_json'',
     ''ended_at'' := (if n ''ended_at'' = SNull then o' ''ended_at'' else n ''ended_at''))"

definition apply_attempt :: "obj \<Rightarrow> json \<Rightarrow> (db, bool) st" where
  "apply_attempt p ts =
     (let w = event_when p ts; usage = oget p ''usage'' in
      if missing [''id'', ''graph_id'', ''node_id'', ''attempt'', ''state''] p then st_ret False
      else
        st_bind (st_lift (py_int (oget p ''attempt''))) (\<lambda>k.
        st_bind (upsert work_attempts_t
          [(''id'', oget p ''id''), (''graph_id'', oget p ''graph_id''), (''node_id'', oget p ''node_id''),
           (''attempt'', JInt k), (''capability_id'', oget p ''capability_id''), (''state'', oget p ''state''),
           (''input_digest'', oget p ''input_digest''), (''output_digest'', oget p ''output_digest''),
           (''error'', oget p ''error''),
           (''usage_json'', JStr (case usage of JStr s \<Rightarrow> s | _ \<Rightarrow> dumps (jor usage (JObj [])))),
           (''started_at'', w), (''ended_at'', if oget p ''state'' \<noteq> JStr ''running'' then w else JNull)]
          merge_attempt) (\<lambda>_. st_ret True)))"

definition apply_work :: "obj \<Rightarrow> (db, bool) st" where
  "apply_work env =
     (let p = payload_of env; ts = oget env ''timestamp'';
          ty = (case oget env ''event_type'' of JStr t \<Rightarrow> t | _ \<Rightarrow> []) in
      if ty = ''run.created'' then apply_run_created p ts
      else if ty \<in> set [''run.started'', ''run.paused'', ''run.resumed'', ''run.completed'', ''run.failed'', ''run.cancelled'']
        then apply_run_status p ts
      else if ty \<in> set [''step.started'', ''step.completed'', ''step.failed''] then apply_step p
      else if ty \<in> set [''attempt.started'', ''attempt.completed'', ''attempt.failed''] then apply_attempt p ts
      else st_ret False)"

section \<open>Dispatch\<close>

definition domain_for_event :: "obj \<Rightarrow> exn + string option" where
  "domain_for_event env =
     (let v = jor (oget env ''event_type'') (JStr []) in
      case v of
        JStr t \<Rightarrow>
          Inr (if starts_with t ''memory.'' then Some ''memory''
               else if starts_with t ''capability.'' then Some ''capabilities''
               else if starts_with t ''approval.'' then Some ''approvals''
               else if list_ex (starts_with t) [''run.'', ''step.'', ''attempt.'', ''node.'', ''transfer.'']
                 then Some ''work_projection''
               else None)
      | _ \<Rightarrow> Inl (TypeError ''attribute''))"

definition apply_event :: "obj \<Rightarrow> (db, string option) st" where
  "apply_event env =
     st_bind (st_lift (domain_for_event env)) (\<lambda>dom.
     st_bind (if dom = Some ''memory'' then apply_memory env
              else if dom = Some ''capabilities'' then apply_capability env
              else if dom = Some ''approvals'' then apply_approval env
              else if dom = Some ''work_projection'' then apply_work env
              else st_ret False) (\<lambda>done.
     st_ret (if done then dom else None)))"

end
