(* ===== verification/Replay.thy ===== *)
theory Replay
  imports Projections
begin

text \<open>
  Replaying the log (\<open>EventLog.replay_into\<close>) and why it reproduces the live state:
  the reducers do not see the key order that a round trip through a line changes, and
  they write only the tables the replay clears.
\<close>

section \<open>The replay\<close>

definition REPLAY_TABLES :: "string list" where
  "REPLAY_TABLES =
    [''memory_events'', ''memory_sources'', ''memory_records'',
     ''approval_advice'', ''approval_requests'',
     ''work_attempts'', ''work_edges'', ''work_nodes'', ''work_graphs'',
     ''capability_permissions'', ''capability_versions'', ''capabilities'']"

definition SUPPORTED_DOMAINS :: "string list" where
  "SUPPORTED_DOMAINS = [''memory'', ''capabilities'', ''approvals'', ''work_projection'']"

record report =
  replayed :: nat
  domains :: "(string \<times> string) list"
  legacy_incomplete :: "string list"

text \<open>The count, the domains seen and the incomplete ones.\<close>

type_synonym tally = "nat \<times> string list \<times> string list"

definition fold_event :: "obj \<Rightarrow> (db, string option) st" where
  "fold_event env = st_bind (mirror_row env) (\<lambda>_. apply_event env)"

definition tally_event :: "obj \<Rightarrow> string option \<Rightarrow> tally \<Rightarrow> tally" where
  "tally_event env applied tl' =
     (case tl' of (n, seen, inc) \<Rightarrow>
       (case domain_for_event env of
          Inr (Some dm) \<Rightarrow> (Suc n, seen @ [dm], if applied = Some dm then inc else inc @ [dm])
        | _ \<Rightarrow> (Suc n, seen, inc)))"

fun replay_loop :: "json list \<Rightarrow> tally \<Rightarrow> (db, tally) st" where
  "replay_loop [] tl' d = (Inr tl', d)"
| "replay_loop (j # js) tl' d =
     (case j of
        JObj env \<Rightarrow>
          (case fold_event env d of
             (Inl x, d') \<Rightarrow> (Inl x, d')
           | (Inr applied, d') \<Rightarrow> replay_loop js (tally_event env applied tl') d')
      | _ \<Rightarrow> (Inl (TypeError ''indices''), d))"

definition make_report :: "tally \<Rightarrow> report" where
  "make_report tl' =
     (case tl' of (n, seen, inc) \<Rightarrow>
        \<lparr>replayed = n,
         domains = map (\<lambda>dom. (dom, if dom \<in> set inc then ''replay_incomplete''
                              else if dom \<in> set seen then ''rebuilt'' else ''not_exercised'')) SUPPORTED_DOMAINS,
         legacy_incomplete = sort (remdups inc)\<rparr>)"

definition replay_into :: "rt \<Rightarrow> log \<Rightarrow> (db, report) st" where
  "replay_into R L d =
     (case verify_chain R L of
        Inl x \<Rightarrow> (Inl x, d)
      | Inr _ \<Rightarrow>
          st_bind (st_for (delete_all schema_tables) REPLAY_TABLES) (\<lambda>_.
          st_bind (replay_loop (parsed (log_lines L)) (0, [], [])) (\<lambda>tl'. st_ret (make_report tl'))) d)"

section \<open>Reducers do not see key order\<close>

lemma bindv_norm [norm_simps]: "bindv (norm j) = bindv j"
  by (cases j) simp_all

lemma payload_onorm [norm_simps]: "payload_of (onorm env) = onorm (payload_of env)"
  by (cases "oget env ''payload''") (simp_all add: payload_of_def oget_onorm norm_JObj del: norm.simps(2), simp_all add: onorm_def)

lemma jor_norm [norm_simps]: "jor (norm a) (norm b) = norm (jor a b)"
  by (simp add: jor_def truthy_norm)

lemma jor_norm_str [norm_simps]: "jor (norm a) (JStr s) = norm (jor a (JStr s))"
  by (simp add: jor_def truthy_norm)

lemma missing_onorm [norm_simps]: "missing ks (onorm p) = missing ks p"
  by (simp add: missing_def norm_simps)

lemma flag_norm [norm_simps]: "flag (norm j) = flag j"
  by (simp add: flag_def truthy_norm)

lemma need_norm [norm_simps]: "need (norm j) k = map_sum id norm (need j k)"
proof (cases j)
  case (JObj o')
  then show ?thesis
    by (simp add: map_of_sort_key map_of_map_snd split: option.splits)
qed simp_all

lemma oget_or_norm [norm_simps]: "norm d = d \<Longrightarrow> oget_or (onorm p) k d = norm (oget_or p k d)"
  by (simp add: oget_or_def onorm_def map_of_sort_key map_of_map_snd split: option.splits)

lemma norm_local_placement [simp]: "norm local_placement = local_placement"
  by (simp add: local_placement_def)

lemma py_int_norm [norm_simps]: "py_int (norm j) = py_int j"
  by (cases j) simp_all

lemma py_str_norm [norm_simps]: "py_str (norm j) = py_str j"
  using dumps_with_norm [of True j] by (cases j) simp_all

lemma text_of_norm [norm_simps]: "text_of (norm j) = text_of j"
  using dumps_with_norm [of True j] by (cases j) (simp_all add: text_of_def)

lemma event_when_norm [norm_simps]: "event_when (onorm p) (norm ts) = norm (event_when p ts)"
  by (simp add: event_when_def norm_simps)

lemma case_str_norm: "(case norm x of JStr s \<Rightarrow> f s | _ \<Rightarrow> e) = (case x of JStr s \<Rightarrow> f s | _ \<Rightarrow> e)"
  by (cases x) simp_all

lemma target_id_norm [norm_simps]: "target_id (onorm env) pre = target_id env pre"
  by (cases "oget env ''target''") (simp_all add: target_id_def norm_simps case_str_norm Let_def)

lemma touch_norm: "touch (norm w) = (if w = JNull then [] else [(''updated_at'', norm w)])"
  by (simp add: touch_def norm_simps)

lemma bind_all_map_norm [norm_simps]: "bind_all (map (\<lambda>f. (f, norm (g f))) fs) = bind_all (map (\<lambda>f. (f, g f)) fs)"
  by (simp add: bind_all_def o_def bindv_norm)

lemma lift_map_sum: "st_bind (st_lift (map_sum id norm r)) f = st_bind (st_lift r) (\<lambda>x. f (norm x))"
  by (cases r) (simp_all add: st_bind_def st_lift_def fun_eq_iff)

lemma bind_cong_st: "(\<And>x s. f x s = g x s) \<Longrightarrow> st_bind m f = st_bind m g"
  by (simp add: st_bind_def fun_eq_iff split: prod.splits sum.splits)

lemma st_for_map_norm: "(\<And>x. f (norm x) = f x) \<Longrightarrow> st_for f (map norm xs) = st_for f xs"
proof
  fix s assume f: "\<And>x. f (norm x) = f x"
  show "st_for f (map norm xs) s = st_for f xs s"
    by (induction xs arbitrary: s) (auto simp: f split: prod.splits sum.splits)
qed

text \<open>A loop over a JSON value whose body rejects strings at once.\<close>

lemma iter_norm:
  assumes "\<And>x. f (norm x) = f x" "\<And>s. f (JStr s) = st_raise err"
  shows "st_bind (st_lift (jiter (norm j))) (\<lambda>xs. st_bind (st_for f xs) g)
    = st_bind (st_lift (jiter j)) (\<lambda>xs. st_bind (st_for f xs) g)"
proof (cases j)
  case (JList xs)
  then show ?thesis
    by (simp add: st_bind_def st_lift_def st_for_map_norm assms(1) fun_eq_iff)
next
  case (JObj o')
  have key: "st_for f (map (\<lambda>p. JStr (fst p)) ps) s = (if ps = [] then (Inr (), s) else (Inl err, s))" for ps s
    by (cases ps) (simp_all add: assms(2) st_raise_def)
  show ?thesis
    by (rule ext) (simp add: JObj st_bind_def st_lift_def key sort_key_Nil_iff)
qed simp_all

lemma write_source_norm: "write_source (norm mid) (norm x) = write_source mid x"
proof (cases x)
  case (JObj s)
  show ?thesis
    by (simp only: write_source_def JObj norm_JObj json.case)
       (simp add: norm_JObj [symmetric] need_norm lift_map_sum del: norm.simps need.simps,
        simp add: norm_simps insert_or_replace_def bind_all_def del: need.simps seq_all.simps)
qed (simp_all add: write_source_def st_bind_def st_lift_def fun_eq_iff)

lemma write_source_str: "write_source mid (JStr s) = st_raise (TypeError ''indices'')"
  by (simp add: write_source_def st_bind_def st_lift_def st_raise_def fun_eq_iff)

lemmas stmt_norm = insert_or_replace_def update_by_def upsert_def bind_all_def

lemma write_node_norm: "write_node (norm gid) (norm x) = write_node gid x"
proof (cases x)
  case (JObj s)
  show ?thesis
    by (simp only: write_node_def JObj norm_JObj json.case)
       (simp add: norm_JObj [symmetric] need_norm lift_map_sum del: norm.simps need.simps,
        simp add: norm_simps stmt_norm del: need.simps seq_all.simps)
qed (simp_all add: write_node_def st_bind_def st_lift_def fun_eq_iff)

lemma write_node_str: "write_node gid (JStr s) = st_raise (TypeError ''indices'')"
  by (simp add: write_node_def st_bind_def st_lift_def st_raise_def fun_eq_iff)

lemma write_edge_norm: "write_edge (norm gid) (norm x) = write_edge gid x"
  by (simp add: write_edge_def need_norm lift_map_sum del: norm.simps need.simps)
     (simp add: norm_simps stmt_norm del: need.simps seq_all.simps norm.simps)

lemma write_edge_str: "write_edge gid (JStr s) = st_raise (TypeError ''indices'')"
  by (simp add: write_edge_def st_bind_def st_lift_def st_raise_def fun_eq_iff)

lemma key_arg_norm:
  assumes "\<And>a x. (f :: json \<Rightarrow> json \<Rightarrow> 'b) (norm a) (norm x) = f a x"
  shows "f (norm a) = f a"
proof
  fix x
  have "f (norm (norm a)) (norm x) = f (norm a) x" by (rule assms)
  then show "f (norm a) x = f a x" by (simp add: assms)
qed

lemmas keyed_norm [norm_simps] =
  key_arg_norm [of write_source, OF write_source_norm] key_arg_norm [of write_node, OF write_node_norm]
  key_arg_norm [of write_edge, OF write_edge_norm]

lemma elem_norm:
  "write_source k (norm x) = write_source k x" "write_node k (norm x) = write_node k x"
  "write_edge k (norm x) = write_edge k x"
  using write_source_norm [of k x] write_node_norm [of k x] write_edge_norm [of k x] by (simp_all add: keyed_norm)

lemmas items_norm [norm_simps] =
  iter_norm [OF elem_norm(1) write_source_str] iter_norm [OF elem_norm(2) write_node_str]
  iter_norm [OF elem_norm(3) write_edge_str]

lemma if_items_norm [norm_simps]:
  "st_bind (if b then st_lift (jiter (norm j)) else st_ret []) (\<lambda>xs. st_bind (st_for (write_source mid) xs) g)
   = st_bind (if b then st_lift (jiter j) else st_ret []) (\<lambda>xs. st_bind (st_for (write_source mid) xs) g)"
  by (simp add: items_norm)

lemma if_norm [norm_simps]: "(if b then norm x else norm y) = norm (if b then x else y)"
  "norm (if b then JStr s else JNull) = (if b then JStr s else JNull)"
  by simp_all

lemma norm_atoms [norm_simps]: "norm (JList []) = JList []" "norm (JObj []) = JObj []" "norm (JStr s) = JStr s"
  "norm (JInt i) = JInt i" "norm JNull = JNull"
  "norm (JBool b) = JBool b" "norm (JFloat s) = JFloat s"
  by simp_all

lemma onorm_Nil_iff [norm_simps]: "onorm o' = [] \<longleftrightarrow> o' = []"
  by (simp add: onorm_def sort_key_Nil_iff)

lemma onorm_Nil [norm_simps]: "onorm [] = []"
  by (simp add: onorm_def)

lemma apply_memory_norm: "apply_memory (onorm env) = apply_memory env"
  by (simp add: apply_memory_def norm_simps stmt_norm o_def Let_def del: seq_all.simps norm.simps cong: if_cong)

lemma apply_approval_norm: "apply_approval (onorm env) = apply_approval env"
  by (simp add: apply_approval_def norm_simps stmt_norm Let_def del: seq_all.simps norm.simps cong: if_cong)

lemma apply_run_created_norm: "apply_run_created (onorm p) (norm ts) = apply_run_created p ts"
  by (simp add: apply_run_created_def norm_simps stmt_norm Let_def del: seq_all.simps norm.simps cong: if_cong)

lemma map_touch_norm: "map (\<lambda>(c, j). (c, bindv j)) (touch (norm w)) = map (\<lambda>(c, j). (c, bindv j)) (touch w)"
  by (simp add: touch_norm bindv_norm) (simp add: touch_def)

lemma apply_run_status_norm: "apply_run_status (onorm p) (norm ts) = apply_run_status p ts"
  by (simp add: apply_run_status_def norm_simps stmt_norm map_touch_norm Let_def del: seq_all.simps norm.simps cong: if_cong)

lemma apply_step_norm: "apply_step (onorm p) = apply_step p"
  by (simp add: apply_step_def norm_simps stmt_norm Let_def del: seq_all.simps norm.simps cong: if_cong)

lemma usage_norm: "(case norm u of JStr s \<Rightarrow> s | _ \<Rightarrow> dumps (jor (norm u) (JObj [])))
    = (case u of JStr s \<Rightarrow> s | _ \<Rightarrow> dumps (jor u (JObj [])))"
proof -
  have "jor (norm u) (JObj []) = norm (jor u (JObj []))" by (simp add: jor_def truthy_norm)
  then show ?thesis by (cases u) (simp_all del: norm.simps(1,2) dumps_with.simps, simp_all)
qed

lemma apply_attempt_norm: "apply_attempt (onorm p) (norm ts) = apply_attempt p ts"
  by (simp add: apply_attempt_def norm_simps usage_norm stmt_norm Let_def del: seq_all.simps norm.simps cong: if_cong)

lemma apply_work_norm: "apply_work (onorm env) = apply_work env"
  by (simp add: apply_work_def norm_simps case_str_norm apply_run_created_norm apply_run_status_norm
      apply_step_norm apply_attempt_norm Let_def del: norm.simps)

lemma apply_discovered_norm: "apply_discovered (onorm env) = apply_discovered env"
proof (cases "oget (payload_of env) ''permissions''")
  case (JObj pm)
  show ?thesis
    by (simp add: apply_discovered_def write_permissions_def norm_simps stmt_norm JObj Let_def
        del: seq_all.simps norm.simps cong: if_cong)
next
  case (JList xs)
  show ?thesis
    by (simp add: apply_discovered_def norm_simps stmt_norm JList Let_def norm.simps(1)
        del: seq_all.simps norm.simps(2-) cong: if_cong)
qed (simp_all add: apply_discovered_def norm_simps stmt_norm Let_def del: seq_all.simps norm.simps cong: if_cong)

lemma apply_capability_norm: "apply_capability (onorm env) = apply_capability env"
  by (simp add: apply_capability_def norm_simps apply_discovered_norm stmt_norm map_touch_norm case_str_norm Let_def
      del: seq_all.simps norm.simps cong: if_cong option.case_cong)

lemma domain_norm [norm_simps]: "domain_for_event (onorm env) = domain_for_event env"
  by (cases "oget env ''event_type''") (simp_all add: domain_for_event_def norm_simps jor_def sort_key_Nil_iff)

lemma apply_event_norm: "apply_event (onorm env) = apply_event env"
  by (simp add: apply_event_def norm_simps apply_memory_norm apply_capability_norm apply_approval_norm apply_work_norm
      cong: if_cong)

lemma fold_event_norm: "fold_event (onorm env) = fold_event env"
  by (simp add: fold_event_def apply_event_norm mirror_row_def mirror_vals_def norm_simps stmt_norm
      del: seq_all.simps norm.simps)

section \<open>Which tables a computation writes\<close>

definition only_touches :: "string set \<Rightarrow> (db, 'a) st \<Rightarrow> bool" where
  "only_touches S m \<longleftrightarrow> (\<forall>d q. q \<notin> S \<longrightarrow> snd (m d) q = d q)"

named_theorems touches \<open>which tables a statement or a reducer writes\<close>

lemma touches_pure [touches]:
  "only_touches S (st_ret x)" "only_touches S (st_raise e)" "only_touches S (st_lift r)"
  by (simp_all add: only_touches_def st_ret_def st_raise_def st_lift_def)

lemma touches_bind [touches]:
  "only_touches S m \<Longrightarrow> (\<And>x. only_touches S (f x)) \<Longrightarrow> only_touches S (st_bind m f)"
  unfolding only_touches_def st_bind_def
  by (auto split: prod.splits sum.splits) (metis snd_conv)+

lemma touches_for [touches]:
  assumes "\<And>x. only_touches S (f x)"
  shows "only_touches S (st_for f xs)"
proof -
  have "q \<notin> S \<Longrightarrow> snd (st_for f xs d) q = d q" for d q
  proof (induction xs arbitrary: d)
    case (Cons x xs)
    have "snd (f x d) q = d q" using assms Cons.prems by (simp add: only_touches_def)
    with Cons show ?case by (auto split: prod.splits sum.splits)
  qed simp
  then show ?thesis by (simp add: only_touches_def)
qed

lemma touches_replace [touches]: "tname t \<in> S \<Longrightarrow> only_touches S (replace_bound t vs)"
  by (auto simp: only_touches_def replace_bound_def Let_def)

lemma touches_update [touches]: "tname t \<in> S \<Longrightarrow> only_touches S (update_where t p f)"
  by (auto simp: only_touches_def update_where_def split: sum.splits)

lemma touches_upsert [touches]: "tname t \<in> S \<Longrightarrow> only_touches S (upsert_bound t f vs)"
  by (auto simp: only_touches_def upsert_bound_def Let_def)

lemma touches_delete [touches]: "p \<in> S \<Longrightarrow> only_touches S (delete_all ts p)"
  by (auto simp: only_touches_def delete_all_def)

lemma touches_if [touches]:
  "only_touches S a \<Longrightarrow> only_touches S b \<Longrightarrow> only_touches S (if c then a else b)"
  by simp

lemma touches_obj [touches]:
  "(\<And>s. only_touches S (f s)) \<Longrightarrow> only_touches S g \<Longrightarrow> only_touches S (case j of JObj s \<Rightarrow> f s | _ \<Rightarrow> g)"
  by (cases j) simp_all

lemma touches_option [touches]:
  "only_touches S g \<Longrightarrow> (\<And>s. only_touches S (f s)) \<Longrightarrow> only_touches S (case x of None \<Rightarrow> g | Some s \<Rightarrow> f s)"
  by (cases x) simp_all

lemmas reducer_defs = apply_event_def apply_memory_def apply_capability_def apply_discovered_def
  apply_approval_def apply_work_def apply_run_created_def apply_run_status_def apply_step_def
  apply_attempt_def write_source_def write_node_def write_edge_def write_permissions_def mirror_row_def

lemma fold_event_touches: "only_touches (set REPLAY_TABLES) (fold_event env)"
  unfolding fold_event_def reducer_defs insert_or_replace_def update_by_def upsert_def Let_def
  by (intro touches) (simp_all add: REPLAY_TABLES_def)

lemma delete_loop_touches: "set ts \<subseteq> S \<Longrightarrow> q \<notin> S \<Longrightarrow> snd (st_for (delete_all schema_tables) ts d) q = d q"
  by (induction ts arbitrary: d) (auto simp: delete_all_def split: prod.splits sum.splits)

end
