(* ===== verification/Rebuild.thy ===== *)
theory Rebuild
  imports Replay
begin

text \<open>
  The main property of the event-sourced state: whatever was written through the log
  is what a replay of the log writes.
\<close>

section \<open>Emitting an event\<close>

text \<open>
  Every service writes in this way: the event is appended (and mirrored), then folded
  into the tables by the same dispatcher the replay uses.
\<close>

definition apply_on :: "(db, 'a) st \<Rightarrow> (world, 'a) st" where
  "apply_on m w = (case m (wdb w) of (r, d) \<Rightarrow> (r, w\<lparr>wdb := d\<rparr>))"

definition emit :: "rt \<Rightarrow> string \<Rightarrow> string \<Rightarrow> envelope \<Rightarrow> (world, obj) st" where
  "emit R now uid e =
     st_bind (append_event R now uid e) (\<lambda>env.
     st_bind (apply_on (apply_event env)) (\<lambda>_. st_ret env))"

inductive emitted :: "rt \<Rightarrow> world \<Rightarrow> obj list \<Rightarrow> world \<Rightarrow> bool" for R w0 where
  none: "emitted R w0 [] w0"
| more: "emitted R w0 es w \<Longrightarrow> emit R now uid e w = (Inr env, w') \<Longrightarrow>
    not_before (current_path (or_opt (ev_time e) now)) (lfiles (wlog w)) \<Longrightarrow> wf_obj (ev_payload e) \<Longrightarrow>
    emitted R w0 (es @ [env]) w'"

text \<open>The database a list of events folds to.\<close>

fun fold_events :: "obj list \<Rightarrow> (db, unit) st" where
  "fold_events [] d = (Inr (), d)"
| "fold_events (e # es) d =
     (case fold_event e d of (Inl x, d') \<Rightarrow> (Inl x, d') | (Inr _, d') \<Rightarrow> fold_events es d')"

lemma fold_events_snoc:
  "fold_events (es @ [e]) d =
    (case fold_events es d of (Inl x, d') \<Rightarrow> (Inl x, d')
     | (Inr _, d') \<Rightarrow> (case fold_event e d' of (Inl x, d'') \<Rightarrow> (Inl x, d'') | (Inr _, d'') \<Rightarrow> (Inr (), d'')))"
  by (induction es arbitrary: d) (auto split: prod.splits sum.splits)

lemma fold_events_touches: "q \<notin> set REPLAY_TABLES \<Longrightarrow> snd (fold_events es d) q = d q"
proof (induction es arbitrary: d)
  case (Cons e es)
  have "snd (fold_event e d) q = d q"
    using fold_event_touches [of e] Cons.prems by (simp add: only_touches_def)
  with Cons show ?case by (auto split: prod.splits sum.splits)
qed simp

text \<open>What one emission does to the two stores.\<close>

lemma emit_okE:
  assumes "emit R now uid e w = (r, w')" "lmirror (wlog w)" "append_log R now uid e (wlog w) = (Inr env, L)" "lmirror L"
  shows "wlog w' = L" "(case r of Inl x \<Rightarrow> \<exists>d. fold_event env (wdb w) = (Inl x, wdb w')
     | Inr env' \<Rightarrow> env' = env \<and> (\<exists>a. fold_event env (wdb w) = (Inr a, wdb w')))"
  using assms
  by (auto simp: emit_def append_event_def apply_on_def fold_event_def st_bind_def st_ret_def
      split: prod.splits sum.splits)

section \<open>The delete order\<close>

text \<open>The tables with a foreign key into \<open>p\<close>; an order in which every child is empty
  before its parent is deleted.\<close>

definition children :: "string \<Rightarrow> string list" where
  "children p = concat (map (\<lambda>t. if tname t \<noteq> p \<and> list_ex (\<lambda>k. fk_table k = p) (tfks t) then [tname t] else [])
     schema_tables)"

fun safe_order :: "string list \<Rightarrow> string list \<Rightarrow> bool" where
  "safe_order Z [] = True"
| "safe_order Z (p # ps) = (list_all (\<lambda>c. c \<in> set Z) (children p) \<and> safe_order (p # Z) ps)"

lemma delete_ok:
  assumes "\<forall>c \<in> set (children p). d c = []"
  shows "delete_all schema_tables p d = (Inr (), d(p := []))"
proof -
  have "\<not> (tname t \<noteq> p \<and> references d t p)" if "t \<in> set schema_tables" for t
  proof
    assume r: "tname t \<noteq> p \<and> references d t p"
    with that have "tname t \<in> set (children p)"
      by (auto simp: children_def references_def list_ex_iff)
    with assms r show False by (simp add: references_def list_ex_iff)
  qed
  then show ?thesis by (auto simp: delete_all_def list_ex_iff)
qed

lemma delete_loop:
  assumes "safe_order Z ps" "\<forall>q \<in> set Z. d q = []"
  shows "st_for (delete_all schema_tables) ps d = (Inr (), \<lambda>q. if q \<in> set ps then [] else d q)"
  using assms
proof (induction ps arbitrary: Z d)
  case (Cons p ps)
  then have "delete_all schema_tables p d = (Inr (), d(p := []))"
    by (intro delete_ok) (auto simp: list_all_iff)
  moreover have "st_for (delete_all schema_tables) ps (d(p := []))
      = (Inr (), \<lambda>q. if q \<in> set ps then [] else (d(p := [])) q)"
    by (rule Cons.IH [of "p # Z"]) (use Cons.prems in auto)
  ultimately show ?case by (auto simp: fun_eq_iff)
qed (simp add: fun_eq_iff)

lemma replay_order_safe: "safe_order [''memory_relations''] REPLAY_TABLES"
  by (simp add: REPLAY_TABLES_def children_def schema_tables_def table_defs fk_def)

section \<open>Reading the log back\<close>

lemma parsed_lines:
  "\<forall>e \<in> set es. wf_obj e \<Longrightarrow> parsed (map (\<lambda>e. dumps (JObj e)) es) = map (\<lambda>e. JObj (onorm e)) es"
  by (induction es)
     (simp_all add: parsed_def map_filter_simps strip_obj_line loads_dumps_with wf_obj_def norm_JObj
        del: dumps_with.simps wf_json.simps norm.simps)

lemma tally_count: "fst (tally_event env a (n, s, i)) = Suc n"
  by (simp add: tally_event_def split: sum.splits option.splits)

lemma replay_loop_ok:
  "fold_events es d = (Inr (), d') \<Longrightarrow>
    \<exists>seen inc. replay_loop (map (\<lambda>e. JObj (onorm e)) es) (n, s, i) d = (Inr (n + length es, seen, inc), d')"
proof (induction es arbitrary: d n s i)
  case (Cons e es)
  then obtain a d1 where f: "fold_event e d = (Inr a, d1)" "fold_events es d1 = (Inr (), d')"
    by (auto split: prod.splits sum.splits)
  obtain s' i' where t: "tally_event (onorm e) a (n, s, i) = (Suc n, s', i')"
    using tally_count [of "onorm e" a n s i] by (metis prod_cases3 fst_conv)
  from Cons.IH [OF f(2), of "Suc n" s' i'] show ?case
    by (simp add: fold_event_norm f t)
qed simp

lemma replay_loop_err:
  "fold_events es d = (Inl x, d') \<Longrightarrow> replay_loop (map (\<lambda>e. JObj (onorm e)) es) tl' d = (Inl x, d')"
  by (induction es arbitrary: d tl') (auto simp: fold_event_norm split: prod.splits sum.splits)

section \<open>Replay reproduces the live state\<close>

definition fresh :: "world \<Rightarrow> bool" where
  "fresh w = (wlog w = log0 \<and> list_all (\<lambda>q. wdb w q = []) (''memory_relations'' # REPLAY_TABLES))"

lemma emitted_inv:
  assumes "emitted R w0 es w" "fresh w0"
  shows "log_ok R (wlog w) \<and> verify_chain R (wlog w) = Inr () \<and> lmirror (wlog w)
    \<and> log_lines (wlog w) = map (\<lambda>e. dumps (JObj e)) es \<and> (\<forall>e \<in> set es. wf_obj e)
    \<and> fold_events es (wdb w0) = (Inr (), wdb w)"
  using assms
proof (induction rule: emitted.induct)
  case none
  then have "wlog w0 = log0" by (simp add: fresh_def)
  moreover have "verify_chain R log0 = Inr ()" "lmirror log0" "log_lines log0 = []"
    by (simp_all add: verify_chain_def validated_tail_def log_lines_def log0_def)
  ultimately show ?case by (simp add: log0_ok)
next
  case (more es w now uid e env w')
  then have ok: "log_ok R (wlog w)" and mir: "lmirror (wlog w)" by simp_all
  obtain L where L: "append_log R now uid e (wlog w) = (Inr env, L)"
    using more.hyps(2)
    by (auto simp: emit_def append_event_def apply_on_def st_bind_def st_ret_def split: prod.splits sum.splits if_splits)
  from append_log_okE [OF L ok more.hyps(3,4)] obtain h i hs L1 where
    a: "load_head R (wlog w) = (Inr h, L1)" "env = prepared R now uid h (e\<lparr>ev_payload := scrub_payload R (ev_payload e)\<rparr>)"
       "L = write_head env (write_line env L1)" "log_lines L = log_lines (wlog w) @ [dumps (JObj env)]"
       "files_ok (lfiles L)" "validated_tail R L = Inr (hash_envelope R env, oget env ''event_id'', hs @ [hash_envelope R env])"
    by metis
  from load_head_tail(6) [OF ok a(1)] mir have mL: "lmirror L" by (simp add: a(3) write_head_def)
  have hv: "head_value L = hash_envelope R env"
    by (simp add: a(3) head_value_def write_head_def) (simp add: a(2) oget_prepared)
  from a(5,6) hv have "log_ok R L" "verify_chain R L = Inr ()"
    by (auto simp: log_ok_def intro: verify_of_tail)
  moreover have "wf_obj env" using more.hyps(4) by (simp add: a(2) wf_prepared wf_scrub_payload)
  moreover from emit_okE [OF more.hyps(2) mir L mL] have "wlog w' = L" "\<exists>a. fold_event env (wdb w) = (Inr a, wdb w')"
    by simp_all
  ultimately show ?case
    using more mL a(4) by (auto simp: fold_events_snoc simp del: dumps_with.simps)
qed

lemma fresh_tables: "fresh w \<Longrightarrow> q = ''memory_relations'' \<or> q \<in> set REPLAY_TABLES \<Longrightarrow> wdb w q = []"
  by (auto simp: fresh_def list_all_iff)

lemma replay_deletes:
  assumes "fresh w0" "\<And>q. q \<notin> set REPLAY_TABLES \<Longrightarrow> d q = wdb w0 q"
  shows "st_for (delete_all schema_tables) REPLAY_TABLES d = (Inr (), wdb w0)"
proof -
  have "''memory_relations'' \<notin> set REPLAY_TABLES" by (simp add: REPLAY_TABLES_def)
  with assms have "\<forall>q \<in> set [''memory_relations'']. d q = []" by (simp add: fresh_tables)
  from delete_loop [OF replay_order_safe this]
  have "st_for (delete_all schema_tables) REPLAY_TABLES d = (Inr (), \<lambda>q. if q \<in> set REPLAY_TABLES then [] else d q)" .
  moreover have "(\<lambda>q. if q \<in> set REPLAY_TABLES then [] else d q) = wdb w0"
    using assms by (auto simp: fun_eq_iff fresh_tables)
  ultimately show ?thesis by simp
qed

text \<open>C1: in a project whose state was written through the log from the start, replaying
  the log into the database clears the projection tables and rebuilds exactly the
  database there is, row for row and in the same row order, whatever tables outside the
  projections hold, and reports one event per line.\<close>

theorem replay_rebuilds_live_state:
  assumes "fresh w0" "emitted R w0 es w"
  shows "\<exists>rep. replay_into R (wlog w) (wdb w) = (Inr rep, wdb w) \<and> replayed rep = length es
    \<and> length es = length (log_lines (wlog w))"
proof -
  from emitted_inv [OF assms(2,1)] have v: "verify_chain R (wlog w) = Inr ()"
    and l: "log_lines (wlog w) = map (\<lambda>e. dumps (JObj e)) es" and wf: "\<forall>e \<in> set es. wf_obj e"
    and f: "fold_events es (wdb w0) = (Inr (), wdb w)" by auto
  have same: "q \<notin> set REPLAY_TABLES \<Longrightarrow> wdb w q = wdb w0 q" for q
    using fold_events_touches [of q es "wdb w0"] f by simp
  from replay_loop_ok [OF f, of 0 "[]" "[]"] obtain seen inc where
    r: "replay_loop (map (\<lambda>e. JObj (onorm e)) es) (0, [], []) (wdb w0) = (Inr (length es, seen, inc), wdb w)"
    by auto
  show ?thesis
    using replay_deletes [OF assms(1) same] r
    by (simp add: replay_into_def v l parsed_lines [OF wf] st_bind_def st_ret_def make_report_def
        del: dumps_with.simps)
qed

text \<open>an event whose rows the database refuses after the line was written (a foreign
  key to a graph that does not exist, say) stays in the log: every later replay of that
  log stops with the same exception. The write path offers no way to take it back.\<close>

theorem poison_event_blocks_replay:
  assumes "fresh w0" "emitted R w0 es w" "emit R now uid e w = (Inl x, w')"
    and "append_log R now uid e (wlog w) = (Inr env, L)"
    and "not_before (current_path (or_opt (ev_time e) now)) (lfiles (wlog w))" "wf_obj (ev_payload e)"
  shows "log_lines (wlog w') = log_lines (wlog w) @ [dumps (JObj env)] \<and> verify_chain R (wlog w') = Inr ()
    \<and> fst (replay_into R (wlog w') (wdb w')) = Inl x"
proof -
  from emitted_inv [OF assms(2,1)] have ok: "log_ok R (wlog w)" and mir: "lmirror (wlog w)"
    and l: "log_lines (wlog w) = map (\<lambda>e. dumps (JObj e)) es" and wf: "\<forall>e \<in> set es. wf_obj e"
    and f: "fold_events es (wdb w0) = (Inr (), wdb w)" by auto
  from append_log_okE [OF assms(4) ok assms(5,6)] obtain h i hs L1 where
    a: "load_head R (wlog w) = (Inr h, L1)" "env = prepared R now uid h (e\<lparr>ev_payload := scrub_payload R (ev_payload e)\<rparr>)"
       "L = write_head env (write_line env L1)" "log_lines L = log_lines (wlog w) @ [dumps (JObj env)]"
       "validated_tail R L = Inr (hash_envelope R env, oget env ''event_id'', hs @ [hash_envelope R env])"
    by metis
  from load_head_tail(6) [OF ok a(1)] mir have mL: "lmirror L" by (simp add: a(3) write_head_def)
  have "head_value L = hash_envelope R env"
    by (simp add: a(3) head_value_def write_head_def) (simp add: a(2) oget_prepared)
  with a(5) have v: "verify_chain R L = Inr ()" by (intro verify_of_tail)
  from emit_okE [OF assms(3) mir assms(4) mL] have w': "wlog w' = L" "fold_event env (wdb w) = (Inl x, wdb w')"
    by auto
  have wfe: "\<forall>e \<in> set (es @ [env]). wf_obj e"
    using wf assms(6) by (simp add: a(2) wf_prepared wf_scrub_payload)
  have ls: "log_lines L = map (\<lambda>e. dumps (JObj e)) (es @ [env])" using l a(4) by simp
  have ff: "fold_events (es @ [env]) (wdb w0) = (Inl x, wdb w')"
    using f w'(2) by (simp add: fold_events_snoc)
  have same: "q \<notin> set REPLAY_TABLES \<Longrightarrow> wdb w' q = wdb w0 q" for q
    using fold_events_touches [of q "es @ [env]" "wdb w0"] ff by simp
  have "replay_into R L (wdb w') = (Inl x, wdb w')"
    unfolding replay_into_def v ls parsed_lines [OF wfe]
    using replay_deletes [OF assms(1) same] replay_loop_err [OF ff]
    by (simp add: st_bind_def del: map_append)
  with v a(4) w'(1) show ?thesis by simp
qed

section \<open>A clock that goes back\<close>

lemma lines_file_append_any:
  "files_ok fs \<Longrightarrow> concat (map snd (file_append p l fs)) =
    concat (map snd (filter (\<lambda>f. fst f \<le> p) fs)) @ [l] @ concat (map snd (filter (\<lambda>f. \<not> fst f \<le> p) fs))"
proof (induction p l fs rule: file_append.induct)
  case (2 p l q ls fs)
  have gt: "filter (\<lambda>f. fst f \<le> p) fs = [] \<and> filter (\<lambda>f. \<not> fst f \<le> p) fs = fs" if "p \<le> q"
    using 2(2) that by (auto simp: files_ok_def filter_empty_conv filter_id_conv)
  show ?case using 2 gt by (auto simp: files_ok_def)
qed simp

lemma concat_filter_sorted:
  "files_ok fs \<Longrightarrow> concat (map snd fs) =
    concat (map snd (filter (\<lambda>f. fst f \<le> p) fs)) @ concat (map snd (filter (\<lambda>f. \<not> fst f \<le> p) fs))"
proof (induction fs)
  case (Cons f fs)
  have "filter (\<lambda>f. fst f \<le> p) fs = []" if "\<not> fst f \<le> p"
    using Cons.prems that by (auto simp: files_ok_def filter_empty_conv)
  with Cons show ?case by (auto simp: files_ok_def)
qed simp

text \<open>appending an event dated before the last month of the log (a skewed clock, or the
  explicit timestamp the writers accept) succeeds, but its line lands in the earlier file,
  before the events it links to: the log no longer verifies.\<close>

theorem earlier_month_breaks_chain:
  assumes "log_ok R L" "validated_tail R L = Inr (t, i, hs)" "distinct (genesis # hs)"
    and "append_log R now uid e L = (Inr env, L')" "wf_obj (ev_payload e)"
    and "p = current_path (or_opt (ev_time e) now)"
    and "early = concat (map snd (filter (\<lambda>f. fst f \<le> p) (lfiles L)))"
    and "walk R genesis (JStr []) [] early = Inr (t', i', hs')" "hs' \<noteq> hs"
  shows "verify_chain R L' = Inl (HashChainError ''chain break'')"
proof -
  let ?e = "e\<lparr>ev_payload := scrub_payload R (ev_payload e)\<rparr>"
  let ?late = "concat (map snd (filter (\<lambda>f. \<not> fst f \<le> p) (lfiles L)))"
  from assms(4) obtain h L1 where ld: "load_head R L = (Inr h, L1)"
    by (auto simp: append_log_def Let_def split: prod.splits sum.splits)
  with assms(4) have env: "env = prepared R now uid h ?e" and v: "validate_envelope True (JObj env) = Inr env"
    and L': "L' = write_head env (write_line env L1)"
    by (auto simp: append_log_def Let_def split: prod.splits sum.splits dest: validate_obj)
  from load_head_tail [OF assms(1) ld] assms(2) have h: "h = t" and f: "lfiles L1 = lfiles L" by auto
  have fo: "files_ok (lfiles L)" using assms(1) by (simp add: log_ok_def)
  have lines: "log_lines L' = early @ [dumps (JObj env)] @ ?late"
    using lines_file_append_any [OF fo, of p "dumps (JObj env)"]
    by (simp add: L' log_lines_def write_head_def write_line_def f env oget_prepared assms(6,7) del: dumps_with.simps)
  have "walk R t' i' hs' ?late = Inr (t, i, hs)"
    using assms(2,7,8) concat_filter_sorted [OF fo, of p]
    by (simp add: validated_tail_def log_lines_def walk_append)
  from walk_hashes [OF this] assms(9) obtain ts where ts: "hs = hs' @ ts" "ts \<noteq> []" "last ts = t" by auto
  have "hs' = [] \<longrightarrow> t' = genesis" "hs' \<noteq> [] \<longrightarrow> last hs' = t'"
    using walk_hashes [OF assms(8)] by auto
  then have "t' = genesis \<or> t' \<in> set hs'" by (metis last_in_set)
  moreover have "t \<in> set ts" using ts by auto
  ultimately have ne: "t' \<noteq> t" using assms(3) ts by auto
  from v validate_strict_lax have "validate_envelope False (JObj env) = Inr env" by blast
  with ne have c: "check_event R t' (JObj env) = Inl (HashChainError ''chain break'')"
    by (simp add: check_event_def) (simp add: env oget_prepared h)
  have w: "wf_obj env" using assms(5) by (simp add: env wf_prepared wf_scrub_payload)
  have "walk R t' i' hs' ([dumps (JObj env)] @ ?late) = Inl (HashChainError ''chain break'')"
    unfolding walk_append walk_line [OF w] c by simp
  with assms(8) lines show ?thesis
    by (simp add: verify_chain_def validated_tail_def walk_append del: walk.simps dumps_with.simps)
qed

section \<open>A concrete project\<close>

definition world0 :: world where
  "world0 = \<lparr>wlog = log0, wdb = (\<lambda>_. [])\<rparr>"

definition memory_event :: envelope where
  "memory_event = event ''memory.written'' ''ana''
     [(''id'', JStr ''m1''), (''kind'', JStr ''fact''), (''title'', JStr ''t''), (''claim'', JStr ''c''),
      (''status'', JStr ''active''), (''confidence'', JStr ''high''), (''evidence_grade'', JStr ''E2''),
      (''privacy_class'', JStr ''internal''), (''owner'', JStr ''ana''), (''created_at'', JStr ''2025-03-04''),
      (''updated_at'', JStr ''2025-03-04''), (''schema_version'', JInt 2)]"

definition orphan_approval :: envelope where
  "orphan_approval = event ''approval.requested'' ''ana''
     [(''id'', JStr ''a1''), (''graph_id'', JStr ''missing''), (''approval_type'', JStr ''execution''),
      (''requested_action'', JStr ''run''), (''scope'', JObj []), (''scope_digest'', JStr ''d''),
      (''reason'', JStr ''r''), (''risk'', JStr ''low''), (''status'', JStr ''pending''),
      (''requested_at'', JStr ''2025-03-04'')]"

lemma memory_emit:
  "\<not> isl (fst (emit rt0 ''2025-03-04'' ''u'' memory_event world0))"
  by code_simp

lemma orphan_emit:
  "fst (emit rt0 ''2025-03-04'' ''v'' orphan_approval world0) = Inl (IntegrityError ''FOREIGN KEY'')"
  by code_simp

lemma orphan_append: "\<not> isl (fst (append_log rt0 ''2025-03-04'' ''v'' orphan_approval log0))"
  by (simp add: append_log_def log0_ok validate_prepared Let_def)
     (simp add: orphan_approval_def event_def ALLOWED_PRIVACY_CLASSES_def KNOWN_EVENT_TYPES_def)

lemma fresh_world0: "fresh world0"
  by (simp add: fresh_def world0_def list_all_iff)

lemma outcome: "\<not> isl (fst m) \<Longrightarrow> m = (Inr (projr (fst m)), snd m)"
  by (cases m; cases "fst m") auto

lemma emitted_memory:
  "emitted rt0 world0 [projr (fst (emit rt0 ''2025-03-04'' ''u'' memory_event world0))]
     (snd (emit rt0 ''2025-03-04'' ''u'' memory_event world0))"
  using emitted.more [OF emitted.none outcome [OF memory_emit]]
  by (simp add: world0_def not_before_log0) (simp add: memory_event_def event_def wf_obj_def)

lemma replay_rebuilds_live_state_witness:
  "\<exists>rep. replay_into rt0 (wlog (snd (emit rt0 ''2025-03-04'' ''u'' memory_event world0)))
       (wdb (snd (emit rt0 ''2025-03-04'' ''u'' memory_event world0)))
     = (Inr rep, wdb (snd (emit rt0 ''2025-03-04'' ''u'' memory_event world0))) \<and> replayed rep = 1"
  using replay_rebuilds_live_state [OF fresh_world0 emitted_memory] by auto

lemma poison_event_blocks_replay_witness:
  "fst (replay_into rt0 (wlog (snd (emit rt0 ''2025-03-04'' ''v'' orphan_approval world0)))
      (wdb (snd (emit rt0 ''2025-03-04'' ''v'' orphan_approval world0)))) = Inl (IntegrityError ''FOREIGN KEY'')"
proof -
  have "emit rt0 ''2025-03-04'' ''v'' orphan_approval world0
      = (Inl (IntegrityError ''FOREIGN KEY''), snd (emit rt0 ''2025-03-04'' ''v'' orphan_approval world0))"
    by (simp add: orphan_emit prod_eq_iff)
  moreover have "append_log rt0 ''2025-03-04'' ''v'' orphan_approval (wlog world0)
      = (Inr (projr (fst (append_log rt0 ''2025-03-04'' ''v'' orphan_approval log0))),
         snd (append_log rt0 ''2025-03-04'' ''v'' orphan_approval log0))"
    using outcome [OF orphan_append] by (simp add: world0_def)
  moreover have "not_before p (lfiles (wlog world0))" "wf_obj (ev_payload orphan_approval)" for p
    by (simp_all add: world0_def not_before_log0) (simp add: orphan_approval_def event_def wf_obj_def)
  ultimately show ?thesis
    using poison_event_blocks_replay [OF fresh_world0 emitted.none] by blast
qed

text \<open>The log after one event in March, and an event dated in February.\<close>

lemma log1_ok: "log_ok rt0 log1" "wlog world0 = log0"
proof -
  have "files_ok (lfiles log1)"
    by (simp add: log1_def append_event0 Let_def)
       (simp add: write_head_def write_line_def log0_def files_ok_def)
  then show "log_ok rt0 log1"
    using walk_log1 by (simp add: log_ok_def log1_def)
  show "wlog world0 = log0" by (simp add: world0_def)
qed

lemma log1_files: "lfiles log1 = [([''2025'', ''03''], log_lines log1)]"
  by (simp add: log1_def append_event0 Let_def)
     (simp add: write_head_def write_line_def log0_def log_lines_def oget_prepared current_path_def or_opt_def
       event0_def event_def or_str_def)

lemma february_append: "\<not> isl (fst (append_log rt0 ''2025-02-04'' ''w'' event0 log1))"
proof -
  have "lrecovered log1" by (simp add: log1_def append_event0 Let_def write_head_def)
  then show ?thesis
    by (simp add: append_log_def load_head_def validate_prepared Let_def)
       (simp add: event0_def event_def ALLOWED_PRIVACY_CLASSES_def KNOWN_EVENT_TYPES_def)
qed

lemma earlier_month_breaks_chain_witness:
  "verify_chain rt0 (snd (append_log rt0 ''2025-02-04'' ''w'' event0 log1)) = Inl (HashChainError ''chain break'')"
proof (rule earlier_month_breaks_chain [OF log1_ok(1) walk_log1(1) [folded log1_def] _ outcome [OF february_append] event0_wf refl refl])
  show "distinct [genesis, hash_envelope rt0 (prepared rt0 ''2025-03-04'' ''u'' genesis event0)]"
    using hash_not_genesis [of "prepared rt0 ''2025-03-04'' ''u'' genesis event0"] by (metis distinct_length_2_or_more distinct_singleton)
  have "\<not> [''2025'', ''03''] \<le> current_path (or_opt (ev_time event0) ''2025-02-04'')"
    by (simp add: event0_def event_def or_opt_def current_path_def)
  then show "walk rt0 genesis (JStr []) [] (concat (map snd (filter (\<lambda>f. fst f \<le> current_path
      (or_opt (ev_time event0) ''2025-02-04'')) (lfiles log1)))) = Inr (genesis, JStr [], [])"
    by (simp add: log1_files)
qed simp

end
