(* ===== verification/Tables.thy ===== *)
theory Tables
  imports Rebuild
begin

text \<open>
  What statements leave in a table, for lookups by a key, and the state shared by the
  services: the clock and uuids of one operation, a freshly opened log.
\<close>

section \<open>Operations of a service\<close>

text \<open>
  The values an operation draws from outside: \<open>_now()\<close>, the timestamp the event gets, the
  hexadecimal uuids of the operation and of the event.
\<close>

record clock =
  c_now :: string
  c_ts :: string
  c_uid :: string
  c_eid :: string

text \<open>
  A service opens its own \<open>EventLog\<close> object, which reconciles the head on its first use,
  and mirrors into its connection.
\<close>

definition open_log :: "world \<Rightarrow> world" where
  "open_log w = w\<lparr>wlog := (wlog w)\<lparr>lrecovered := False, lmirror := True\<rparr>\<rparr>"

definition opened :: "(world, 'a) st \<Rightarrow> (world, 'a) st" where
  "opened m w = m (open_log w)"

definition raise_unless :: "bool \<Rightarrow> exn \<Rightarrow> (world, unit) st" where
  "raise_unless b e = (if b then st_ret () else st_raise e)"

fun stext :: "sqlv \<Rightarrow> string" where
  "stext (SText s) = s"
| "stext _ = []"

fun stext_opt :: "sqlv \<Rightarrow> string option" where
  "stext_opt (SText s) = Some s"
| "stext_opt _ = None"

fun snum :: "sqlv \<Rightarrow> int" where
  "snum (SInt i) = i"
| "snum _ = 0"

section \<open>UPDATE\<close>

lemma update_rows_ok:
  "update_rows t p f acc rs = Inr rs' \<Longrightarrow> rs' = acc @ map (\<lambda>r. if p r then f r else r) rs"
proof (induction rs arbitrary: acc)
  case (Cons r rs)
  from Cons.prems have "update_rows t p f (acc @ [if p r then f r else r]) rs = Inr rs'"
    by (auto split: if_splits)
  from Cons.IH [OF this] show ?case by simp
qed simp

lemma update_where_ok:
  assumes "update_where t p f d = (Inr n, d')"
  shows "d' = d(tname t := map (\<lambda>r. if p r then f r else r) (d (tname t)))"
    and "n = length (filter p (d (tname t)))"
  using assms update_rows_ok [of t p f "[]" "d (tname t)"]
  by (auto simp: update_where_def split: sum.splits)

lemma update_where_err: "update_where t p f d = (Inl e, d') \<Longrightarrow> d' = d"
  by (auto simp: update_where_def split: sum.splits)

lemma seq_all_ok: "seq_all cs = Inr vs \<Longrightarrow> map fst vs = map fst cs \<and> (\<forall>c v. (c, v) \<in> set vs \<longrightarrow> (c, Inr v) \<in> set cs)"
proof (induction cs arbitrary: vs rule: seq_all.induct)
  case (3 c v cs)
  then show ?case by (cases "seq_all cs") auto
qed auto

lemma update_by_ok:
  assumes "update_by t sets upd key k d = (Inr n, d')"
  obtains vs kv where "bind_all sets = Inr vs" "bindv k = Inr kv"
    "d' = d(tname t := map (\<lambda>r. if eq_val t key kv r then upd (set_cols t vs r) else r) (d (tname t)))"
    "n = length (filter (eq_val t key kv) (d (tname t)))"
proof -
  from assms obtain vs kv where b: "bind_all sets = Inr vs" "bindv k = Inr kv"
    "update_where t (eq_val t key kv) (\<lambda>r. upd (set_cols t vs r)) d = (Inr n, d')"
    by (auto simp: update_by_def st_bind_def st_lift_def split: sum.splits)
  from that [OF b(1,2) update_where_ok [OF b(3)]] show thesis .
qed

lemma update_by_err: "update_by t sets upd key k d = (Inl e, d') \<Longrightarrow> d' = d"
  by (auto simp: update_by_def st_bind_def st_lift_def update_where_def split: sum.splits)

lemma set_cols_other: "c \<notin> fst ` set vs \<Longrightarrow> set_cols t vs r c = r c"
  by (induction t vs r rule: set_cols.induct) auto

lemma bind_all_simps [simp]:
  "bind_all [] = Inr []"
  "bind_all ((c, j) # cs) = (case bindv j of Inl e \<Rightarrow> Inl e
     | Inr v \<Rightarrow> (case bind_all cs of Inl e \<Rightarrow> Inl e | Inr vs \<Rightarrow> Inr ((c, v) # vs)))"
  by (simp_all add: bind_all_def split: sum.splits)

text \<open>A lookup by a key the update does not change.\<close>

lemma find_map_update:
  assumes "\<And>r. P (g r) = P r"
  shows "filter P (map (\<lambda>r. if Q r then g r else r) rs) = map (\<lambda>r. if Q r then g r else r) (filter P rs)"
  using assms by (induction rs) auto

lemma first_by_update:
  assumes "d' = d(tname t := map (\<lambda>r. if Q r then g r else r) (d (tname t)))" "\<And>r. g r c = r c"
  shows "first_by t c v d' = map_option (\<lambda>r. if Q r then g r else r) (first_by t c v d)"
proof -
  have "eq_val t c (SText v) (g r) = eq_val t c (SText v) r" for r
    using assms(2) [of r] by (simp add: eq_val_def)
  from find_map_update [of "eq_val t c (SText v)", OF this] show ?thesis
    by (cases "select_by t c v d") (auto simp: first_by_def select_by_def assms(1))
qed

lemma first_by_other: "d' (tname t) = d (tname t) \<Longrightarrow> first_by t c v d' = first_by t c v d"
  by (simp add: first_by_def select_by_def)

lemma first_by_key: "first_by t c v d = Some r \<Longrightarrow> r \<in> set (d (tname t)) \<and> eq_val t c (SText v) r"
proof -
  assume "first_by t c v d = Some r"
  then have "r \<in> set (select_by t c v d)" by (auto simp: first_by_def split: list.splits)
  then show ?thesis by (auto simp: select_by_def)
qed

section \<open>INSERT OR REPLACE\<close>

lemma insert_or_replace_ok:
  assumes "insert_or_replace t vals d = (Inr u, d')"
  obtains vs where "bind_all vals = Inr vs"
    "d' = d(tname t := filter (\<lambda>r'. \<not> clash t (default_nulls t (fill_row t vs)) r') (d (tname t)) @ [default_nulls t (fill_row t vs)])"
    "notnull_ok t (default_nulls t (fill_row t vs))"
  using assms
  by (auto simp: insert_or_replace_def replace_bound_def st_bind_def st_lift_def Let_def split: sum.splits if_splits)

section \<open>Appending to the log leaves the projection tables alone\<close>

lemma append_log_mirror: "append_log R now uid e L = (r, L') \<Longrightarrow> lmirror L' = lmirror L"
  by (auto simp: append_log_def load_head_def recover_head_def Let_def write_head_def
      split: prod.splits sum.splits option.splits if_splits)

lemma append_event_tables:
  assumes "append_event R now uid e w = (r, w')" "q \<noteq> ''memory_events''"
  shows "wdb w' q = wdb w q"
proof -
  have "only_touches {''memory_events''} (mirror_row env)" for env
    unfolding mirror_row_def insert_or_replace_def by (intro touches) simp
  then have "snd (mirror_row env d) q = d q" for env d
    using assms(2) by (simp add: only_touches_def)
  with assms(1) show ?thesis
    by (auto simp: append_event_def split: prod.splits sum.splits if_splits) (metis snd_conv)+
qed

lemma append_event_env:
  assumes "append_event R now uid e w = (Inr env, w')"
  obtains h where "env = prepared R now uid h (e\<lparr>ev_payload := scrub_payload R (ev_payload e)\<rparr>)"
    "ev_type e \<in> set KNOWN_EVENT_TYPES" "ev_privacy e \<in> set ALLOWED_PRIVACY_CLASSES"
proof -
  from assms obtain L where "append_log R now uid e (wlog w) = (Inr env, L)"
    by (auto simp: append_event_def split: prod.splits sum.splits if_splits)
  then obtain h where "env = prepared R now uid h (e\<lparr>ev_payload := scrub_payload R (ev_payload e)\<rparr>)"
    "validate_envelope True (JObj env) = Inr env"
    by (auto simp: append_log_def Let_def split: prod.splits sum.splits dest: validate_obj)
  with that show thesis by (auto simp: validate_prepared split: if_splits)
qed

lemma payload_prepared [simp]: "payload_of (prepared R now uid prev e) = ev_payload e"
  by (simp add: payload_of_def oget_prepared)

lemma scrub_oget:
  "oget (scrub_payload R p) k = scrub_json (rt_scrub R) (oget p k)"
  by (simp add: scrub_payload_def oget_def map_of_map_snd split: option.splits)

lemma scrub_oget_or:
  "oget_or (scrub_payload R p) k d = (if ohas p k then scrub_json (rt_scrub R) (oget p k) else d)"
  by (auto simp: scrub_payload_def oget_def oget_or_def ohas_def map_of_map_snd split: option.splits)

lemma apply_on_ok: "apply_on m w = (Inr x, w') \<longleftrightarrow> (\<exists>d. m (wdb w) = (Inr x, d) \<and> w' = w\<lparr>wdb := d\<rparr>)"
  by (auto simp: apply_on_def split: prod.splits)

lemma apply_on_err: "apply_on m w = (Inl x, w') \<longleftrightarrow> (\<exists>d. m (wdb w) = (Inl x, d) \<and> w' = w\<lparr>wdb := d\<rparr>)"
  by (auto simp: apply_on_def split: prod.splits)

end
