(* ===== verification/Lifecycle.thy ===== *)
theory Lifecycle
  imports Tables
begin

text \<open>
  State machines: a locale for a transition relation with final states and a guarded
  set that is entered through one edge only, and the capability lifecycle of
  \<open>capabilities/lifecycle.py\<close> as its instance. Node leases are another
  (theory \<open>Nodes\<close>).
\<close>

section \<open>Histories\<close>

text \<open>A history: the states a machine went through, newest last.\<close>

inductive history :: "('s \<Rightarrow> 's \<Rightarrow> bool) \<Rightarrow> 's \<Rightarrow> 's list \<Rightarrow> 's \<Rightarrow> bool" for can where
  start: "history can s [s] s"
| extend: "history can s h t \<Longrightarrow> can t u \<Longrightarrow> history can s (h @ [u]) u"

inductive_cases history_singleE: "history can s [t] u"

lemma history_last: "history can s h t \<Longrightarrow> h \<noteq> [] \<and> last h = t \<and> hd h = s"
  by (induction rule: history.induct) auto

locale state_machine =
  fixes can :: "'s \<Rightarrow> 's \<Rightarrow> bool"
    and final :: "'s \<Rightarrow> bool"
  assumes final_stuck: "final s \<Longrightarrow> \<not> can s t"
begin

lemma final_stays: "history can s h t \<Longrightarrow> final s \<Longrightarrow> h = [s] \<and> t = s"
  by (induction rule: history.induct) (auto simp: final_stuck)

lemma final_only_last: "history can s h t \<Longrightarrow> u \<in> set (butlast h) \<Longrightarrow> \<not> final u"
proof (induction rule: history.induct)
  case (extend s h t v)
  then have "u \<in> set (butlast h) \<or> u = t"
    using history_last [OF extend.hyps(1)] by (metis butlast_snoc in_set_butlastD append_butlast_last_id in_set_conv_decomp set_ConsD rotate1.simps(2) set_rotate1)
  with extend show ?case using final_stuck by blast
qed simp

end

text \<open>A guarded set of states with one way in.\<close>

locale gated_machine = state_machine +
  fixes guarded :: "'s \<Rightarrow> bool"
    and gate_from gate_to :: 's
  assumes one_gate: "can s t \<Longrightarrow> guarded t \<Longrightarrow> \<not> guarded s \<Longrightarrow> s = gate_from \<and> t = gate_to"
begin

lemma enters_by_gate:
  assumes "history can s h t" "\<not> guarded s" "guarded t"
  shows "\<exists>a b. h = a @ [gate_from, gate_to] @ b \<and> list_all guarded (gate_to # b)"
  using assms
proof (induction rule: history.induct)
  case (extend s h t u)
  show ?case
  proof (cases "guarded t")
    case True
    with extend obtain a b where "h = a @ [gate_from, gate_to] @ b" "list_all guarded (gate_to # b)" by blast
    with extend.prems(2) have "h @ [u] = a @ [gate_from, gate_to] @ (b @ [u])" "list_all guarded (gate_to # b @ [u])" by simp_all
    then show ?thesis by blast
  next
    case False
    with one_gate [OF extend.hyps(2)] extend.prems have "t = gate_from" "u = gate_to" by simp_all
    moreover from history_last [OF extend.hyps(1)] have "h = butlast h @ [t]" by (metis append_butlast_last_id)
    ultimately have "h @ [u] = butlast h @ [gate_from, gate_to] @ []" by simp
    moreover from \<open>u = gate_to\<close> extend.prems have "list_all guarded [gate_to]" by simp
    ultimately show ?thesis by blast
  qed
qed simp

end

section \<open>The capability lifecycle\<close>

definition LIFECYCLE_STATES :: "string list" where
  "LIFECYCLE_STATES = [''discovered'', ''quarantined'', ''inspected'', ''approved'', ''benchmarked'',
     ''active'', ''stale'', ''revoked'', ''compromised'']"

definition EXECUTABLE_STATES :: "string list" where
  "EXECUTABLE_STATES = [''approved'', ''benchmarked'', ''active'']"

definition TRANSITIONS :: "(string \<times> string list) list" where
  "TRANSITIONS =
    [(''discovered'', [''quarantined'']),
     (''quarantined'', [''inspected'', ''revoked'']),
     (''inspected'', [''approved'', ''revoked'', ''quarantined'']),
     (''approved'', [''benchmarked'', ''active'', ''stale'', ''revoked'', ''compromised'', ''quarantined'']),
     (''benchmarked'', [''active'', ''stale'', ''revoked'', ''compromised'', ''quarantined'']),
     (''active'', [''stale'', ''revoked'', ''compromised'', ''quarantined'']),
     (''stale'', [''active'', ''revoked'', ''quarantined'']),
     (''revoked'', []),
     (''compromised'', [''revoked'', ''quarantined''])]"

definition can_transition :: "string \<Rightarrow> string \<Rightarrow> bool" where
  "can_transition current target =
     (case map_of TRANSITIONS current of None \<Rightarrow> False | Some ts \<Rightarrow> target \<in> set ts)"

definition transition :: "string \<Rightarrow> string \<Rightarrow> exn + string" where
  "transition current target =
     (if \<not> can_transition current target then Inl (InvalidTransition current target) else Inr target)"

definition is_executable :: "string \<Rightarrow> bool" where
  "is_executable state = (state \<in> set EXECUTABLE_STATES)"

definition next_state_for_digest_change :: "string \<Rightarrow> string" where
  "next_state_for_digest_change current = (if current = ''revoked'' then current else ''quarantined'')"

text \<open>
  The states a human approval stands behind: the executable ones and \<open>stale\<close>, from which
  a capability may return to \<open>active\<close>.
\<close>

definition vouched :: "string \<Rightarrow> bool" where
  "vouched s = (is_executable s \<or> s = ''stale'')"

lemma can_transition_cases:
  assumes "can_transition s t"
  shows "(s, t) \<in> set (concat (map (\<lambda>(s, ts). map (Pair s) ts) TRANSITIONS))"
  using assms by (auto simp: can_transition_def split: option.splits dest!: map_of_SomeD)

interpretation capability: gated_machine can_transition "\<lambda>s. s = ''revoked''" vouched "''inspected''" "''approved''"
proof
  show "\<not> can_transition s t" if "s = ''revoked''" for s t
    using that by (simp add: can_transition_def TRANSITIONS_def)
  show "s = ''inspected'' \<and> t = ''approved''" if "can_transition s t" "vouched t" "\<not> vouched s" for s t
    using can_transition_cases [OF that(1)] that(2,3)
    by (simp add: TRANSITIONS_def) (auto simp: vouched_def is_executable_def EXECUTABLE_STATES_def)
qed



text \<open>Drift never moves a capability along a path the table forbids.\<close>

lemma digest_change_is_legal:
  "s \<in> set LIFECYCLE_STATES \<Longrightarrow>
    next_state_for_digest_change s = s \<or> can_transition s (next_state_for_digest_change s)"
  by (auto simp: LIFECYCLE_STATES_def next_state_for_digest_change_def can_transition_def TRANSITIONS_def)

lemma digest_change_not_executable: "\<not> is_executable (next_state_for_digest_change s)"
  by (simp add: next_state_for_digest_change_def is_executable_def EXECUTABLE_STATES_def)

end
