(* ===== verification/Policy.thy ===== *)
theory Policy
  imports Projections
begin

text \<open>
  The policy chain: action kinds, layers and verdicts (\<open>policy/schema.py\<close>), the
  precedence of layers (\<open>policy/precedence.py\<close>), the autonomy modes
  (\<open>policy/autonomy.py\<close>), the evaluation every guard consults (\<open>policy/engine.py\<close>) and
  the stack read from disk (\<open>policy/loader.py\<close>). The file system is a map from paths
  to texts.
\<close>

section \<open>Types\<close>

datatype action_kind =
    FsRead | FsWrite | FsDelete | Network | SecretRead | Subprocess | ExternalWrite | Destructive
  | MemoryWrite | EventWrite | Push | Merge | Publish | ExternalMessage | PermissionChange
  | BudgetEscalation | DependencyAdd | CapabilityInvoke

definition ACTION_KINDS :: "(string \<times> action_kind) list" where
  "ACTION_KINDS =
    [(''fs.read'', FsRead), (''fs.write'', FsWrite), (''fs.delete'', FsDelete), (''network'', Network),
     (''secret.read'', SecretRead), (''subprocess'', Subprocess), (''external.write'', ExternalWrite),
     (''destructive'', Destructive), (''memory.write'', MemoryWrite), (''event.write'', EventWrite),
     (''vcs.push'', Push), (''vcs.merge'', Merge), (''publish'', Publish),
     (''external.message'', ExternalMessage), (''permission.change'', PermissionChange),
     (''budget.escalation'', BudgetEscalation), (''dependency.add'', DependencyAdd),
     (''capability.invoke'', CapabilityInvoke)]"

definition kind_value :: "action_kind \<Rightarrow> string" where
  "kind_value k = (case map_of (map (\<lambda>(s, k). (k, s)) ACTION_KINDS) k of Some s \<Rightarrow> s | None \<Rightarrow> [])"

datatype verdict = Allow | Deny | RequireApproval

record action =
  a_kind :: action_kind
  a_target :: string
  a_context :: obj

record decision =
  d_verdict :: verdict
  d_reason :: string
  d_layer :: string

record policy_layer =
  pl_name :: string
  pl_denies :: "action_kind set"
  pl_allows :: "action_kind set"
  pl_fs_write_scopes :: "string list"
  pl_fs_read_scopes :: "string list"
  pl_network_hosts :: "string list"

section \<open>Precedence\<close>

definition LAYER_ORDER :: "string list" where
  "LAYER_ORDER = [''runtime-invariant'', ''project-deny'', ''global-deny'', ''explicit-user-grant'',
     ''project-defaults'', ''global-defaults'', ''harness-defaults'']"

text \<open>A later layer of the same name replaces an earlier one.\<close>

definition layer_dict :: "policy_layer list \<Rightarrow> string \<Rightarrow> policy_layer option" where
  "layer_dict stack = map_of (rev (map (\<lambda>l. (pl_name l, l)) stack))"

definition norm_path :: "string \<Rightarrow> string" where
  "norm_path s = rstrip_char (CHR ''/'') (strip s)"

fun in_some_scope :: "string \<Rightarrow> string list \<Rightarrow> bool" where
  "in_some_scope t [] = False"
| "in_some_scope t (s # ss) =
     (let n = norm_path s in
      if n = [] then in_some_scope t ss
      else if t = n then True
      else if starts_with t (n @ ''/'') then True
      else in_some_scope t ss)"

definition path_in_scopes :: "string \<Rightarrow> string list \<Rightarrow> bool" where
  "path_in_scopes target scopes =
     (if scopes = [] then True
      else let t = norm_path target in if t = [] then False else in_some_scope t scopes)"

definition target_allowed :: "action \<Rightarrow> policy_layer \<Rightarrow> bool" where
  "target_allowed a l =
     (if a_kind a = Network then pl_network_hosts l = [] \<or> a_target a \<in> set (pl_network_hosts l)
      else if a_kind a = FsWrite then path_in_scopes (a_target a) (pl_fs_write_scopes l)
      else if a_kind a = FsRead then path_in_scopes (a_target a) (pl_fs_read_scopes l)
      else True)"

definition mk_decision :: "verdict \<Rightarrow> string \<Rightarrow> string \<Rightarrow> decision" where
  "mk_decision v r l = \<lparr>d_verdict = v, d_reason = r, d_layer = l\<rparr>"

fun resolve_denies :: "action \<Rightarrow> (string \<Rightarrow> policy_layer option) \<Rightarrow> string list \<Rightarrow> decision option" where
  "resolve_denies a L [] = None"
| "resolve_denies a L (n # ns) =
     (case L n of
        None \<Rightarrow> resolve_denies a L ns
      | Some l \<Rightarrow>
          if a_kind a \<in> pl_denies l \<and> target_allowed a l
          then Some (mk_decision Deny (''denied by '' @ n) n)
          else resolve_denies a L ns)"

fun resolve_defaults :: "action \<Rightarrow> (string \<Rightarrow> policy_layer option) \<Rightarrow> string list \<Rightarrow> decision" where
  "resolve_defaults a L [] = mk_decision Deny ''no matching allow rule'' ''default-deny''"
| "resolve_defaults a L (n # ns) =
     (case L n of
        None \<Rightarrow> resolve_defaults a L ns
      | Some l \<Rightarrow>
          if a_kind a \<in> pl_allows l \<and> target_allowed a l
          then mk_decision Allow (''allowed by '' @ n) n
          else if a_kind a \<in> pl_denies l \<and> target_allowed a l
          then mk_decision Deny (''denied by '' @ n) n
          else resolve_defaults a L ns)"

definition invariant_denies :: "action \<Rightarrow> (string \<Rightarrow> policy_layer option) \<Rightarrow> bool" where
  "invariant_denies a L = (case L ''runtime-invariant'' of None \<Rightarrow> False | Some l \<Rightarrow> a_kind a \<in> pl_denies l)"

definition user_grants :: "action \<Rightarrow> (string \<Rightarrow> policy_layer option) \<Rightarrow> bool" where
  "user_grants a L = (case L ''explicit-user-grant'' of None \<Rightarrow> False
     | Some l \<Rightarrow> a_kind a \<in> pl_allows l \<and> target_allowed a l)"

definition DENY_LAYERS :: "string list" where
  "DENY_LAYERS = [''project-deny'', ''global-deny'']"

definition DEFAULT_LAYERS :: "string list" where
  "DEFAULT_LAYERS = [''project-defaults'', ''global-defaults'', ''harness-defaults'']"

definition resolve :: "action \<Rightarrow> policy_layer list \<Rightarrow> decision" where
  "resolve a stack =
     (let L = layer_dict stack in
      if invariant_denies a L then mk_decision Deny ''runtime safety invariant'' ''runtime-invariant''
      else (case resolve_denies a L DENY_LAYERS of
          Some d \<Rightarrow> d
        | None \<Rightarrow>
            if user_grants a L then mk_decision Allow ''explicit user grant'' ''explicit-user-grant''
            else resolve_defaults a L DEFAULT_LAYERS))"

definition narrower :: "policy_layer \<Rightarrow> policy_layer \<Rightarrow> policy_layer" where
  "narrower a b = \<lparr>pl_name = pl_name a,
     pl_denies = pl_denies a \<union> pl_denies b,
     pl_allows = pl_allows a \<inter> pl_allows b,
     pl_fs_write_scopes = sort (remdups (filter (\<lambda>s. s \<in> set (pl_fs_write_scopes b)) (pl_fs_write_scopes a))),
     pl_fs_read_scopes = sort (remdups (pl_fs_read_scopes a @ pl_fs_read_scopes b)),
     pl_network_hosts = sort (remdups (filter (\<lambda>s. s \<in> set (pl_network_hosts b)) (pl_network_hosts a)))\<rparr>"

section \<open>Autonomy\<close>

datatype autonomy = Suggest | AutoSafe | PolicyBound

definition mode_value :: "autonomy \<Rightarrow> string" where
  "mode_value m = (case m of Suggest \<Rightarrow> ''suggest'' | AutoSafe \<Rightarrow> ''auto-safe'' | PolicyBound \<Rightarrow> ''policy-bound'')"

definition ALWAYS_REQUIRE_APPROVAL :: "action_kind set" where
  "ALWAYS_REQUIRE_APPROVAL = {Push, Merge, Publish, ExternalMessage, FsDelete, Destructive, SecretRead,
     DependencyAdd, PermissionChange, BudgetEscalation}"

definition REVERSIBLE_KINDS :: "action_kind set" where
  "REVERSIBLE_KINDS = {FsRead, MemoryWrite, EventWrite, CapabilityInvoke}"

definition autonomy_gate :: "action_kind \<Rightarrow> autonomy \<Rightarrow> bool" where
  "autonomy_gate k m =
     (if k \<in> ALWAYS_REQUIRE_APPROVAL then False
      else if m = Suggest then False
      else if m = AutoSafe then k \<in> REVERSIBLE_KINDS
      else True)"

definition evaluate :: "action \<Rightarrow> policy_layer list \<Rightarrow> autonomy \<Rightarrow> decision" where
  "evaluate a stack m =
     (let raw = resolve a stack in
      if d_verdict raw \<noteq> Allow then raw
      else if autonomy_gate (a_kind a) m then raw
      else mk_decision RequireApproval
        (d_reason raw @ ''; but autonomy mode '' @ [CHR 0x27] @ mode_value m @ [CHR 0x27]
           @ '' requires approval for '' @ [CHR 0x27] @ kind_value (a_kind a) @ [CHR 0x27])
        (d_layer raw))"

section \<open>Loading the stack\<close>

type_synonym files = "string \<Rightarrow> string option"

definition runtime_invariants :: policy_layer where
  "runtime_invariants = \<lparr>pl_name = ''runtime-invariant'', pl_denies = {}, pl_allows = {},
     pl_fs_write_scopes = [], pl_fs_read_scopes = [], pl_network_hosts = []\<rparr>"

text \<open>A missing or unreadable file is an empty object.\<close>

definition load_json :: "files \<Rightarrow> string \<Rightarrow> json" where
  "load_json F p = (case F p of None \<Rightarrow> JObj [] | Some t \<Rightarrow> (case loads t of None \<Rightarrow> JObj [] | Some j \<Rightarrow> j))"

definition is_kind :: "json \<Rightarrow> action_kind option" where
  "is_kind j = (case j of JStr s \<Rightarrow> map_of ACTION_KINDS s | _ \<Rightarrow> None)"

definition kinds_of :: "json list \<Rightarrow> action_kind set" where
  "kinds_of js = set (List.map_filter is_kind js)"

text \<open>The elements of a scope list; one that is no string raises when it is compared.\<close>

fun as_strings :: "json list \<Rightarrow> exn + string list" where
  "as_strings [] = Inr []"
| "as_strings (JStr s # js) = rbind (as_strings js) (\<lambda>ss. Inr (s # ss))"
| "as_strings (_ # js) = Inl (TypeError ''attribute'')"

definition mk_layer :: "string \<Rightarrow> json \<Rightarrow> exn + policy_layer option" where
  "mk_layer name data =
     (if \<not> truthy data then Inr None
      else rbind (as_obj data) (\<lambda>o'.
        rbind (jiter (oget_or o' ''deny'' (JList []))) (\<lambda>ds.
        rbind (jiter (oget_or o' ''allow'' (JList []))) (\<lambda>as'.
        if kinds_of ds = {} \<and> kinds_of as' = {} \<and> \<not> truthy (oget o' ''fs_write_scopes'')
           \<and> \<not> truthy (oget o' ''fs_read_scopes'') \<and> \<not> truthy (oget o' ''network_hosts'')
        then Inr None
        else
          rbind (rbind (jiter (oget_or o' ''fs_write_scopes'' (JList []))) as_strings) (\<lambda>ws.
          rbind (rbind (jiter (oget_or o' ''fs_read_scopes'' (JList []))) as_strings) (\<lambda>rs.
          rbind (rbind (jiter (oget_or o' ''network_hosts'' (JList []))) as_strings) (\<lambda>hs.
          Inr (Some \<lparr>pl_name = name, pl_denies = kinds_of ds, pl_allows = kinds_of as',
             pl_fs_write_scopes = ws, pl_fs_read_scopes = rs, pl_network_hosts = hs\<rparr>))))))))"

definition WORKSPACE_DIR :: string where
  "WORKSPACE_DIR = ''.shiroe''"

definition join_path :: "string \<Rightarrow> string list \<Rightarrow> string" where
  "join_path r ps = join_with ''/'' (r # ps)"

definition workspace_file :: "string \<Rightarrow> string list \<Rightarrow> string" where
  "workspace_file r ps = join_path r (WORKSPACE_DIR # ps)"

definition opt_list :: "'a option \<Rightarrow> 'a list" where
  "opt_list x = (case x of None \<Rightarrow> [] | Some y \<Rightarrow> [y])"

definition load_policy_stack :: "files \<Rightarrow> string \<Rightarrow> string \<Rightarrow> exn + policy_layer list" where
  "load_policy_stack F root groot =
     rbind (mk_layer ''project-deny'' (load_json F (workspace_file root [''policy'', ''deny.json'']))) (\<lambda>pd.
     rbind (mk_layer ''global-deny'' (load_json F (join_path groot [''deny.json'']))) (\<lambda>gd.
     rbind (mk_layer ''project-defaults'' (load_json F (workspace_file root [''policy'', ''defaults.json'']))) (\<lambda>pf.
     rbind (mk_layer ''global-defaults'' (load_json F (join_path groot [''defaults.json'']))) (\<lambda>gf.
     Inr (runtime_invariants # opt_list pd @ opt_list gd @ opt_list pf @ opt_list gf)))))"

definition global_root_of :: "string \<Rightarrow> string option \<Rightarrow> string" where
  "global_root_of home groot = (case groot of None \<Rightarrow> join_path home [WORKSPACE_DIR, ''policies''] | Some g \<Rightarrow> g)"

end
