(* ===== verification/Policy_Props.thy ===== *)
theory Policy_Props
  imports Policy
begin

text \<open>What the policy chain guarantees, for every stack of layers.\<close>

section \<open>Paths and their components\<close>

definition is_component_prefix :: "string list \<Rightarrow> string list \<Rightarrow> bool" where
  "is_component_prefix p s = (take (length p) s = p)"

lemma component_prefix_iff:
  "is_component_prefix (components n) (components t) \<longleftrightarrow> t = n \<or> starts_with t (n @ ''/'')"
proof
  assume "is_component_prefix (components n) (components t)"
  then obtain r where r: "components t = components n @ r"
    unfolding is_component_prefix_def by (metis append_take_drop_id)
  have t: "t = join_with ''/'' (components n @ r)" and n: "join_with ''/'' (components n) = n"
    unfolding r [symmetric] by (simp_all add: components_def join_split)
  show "t = n \<or> starts_with t (n @ ''/'')"
  proof (cases "r = []")
    case True
    then show ?thesis using t n by simp
  next
    case False
    then have "join_with ''/'' (components n @ r) = n @ ''/'' @ join_with ''/'' r"
      using n by (simp add: join_append components_def)
    with t show ?thesis by (metis append.assoc starts_with_append)
  qed
next
  assume "t = n \<or> starts_with t (n @ ''/'')"
  then show "is_component_prefix (components n) (components t)"
  proof
    assume "starts_with t (n @ ''/'')"
    then obtain u where "t = n @ CHR ''/'' # u" by (auto simp: starts_with_iff)
    then show ?thesis by (simp add: is_component_prefix_def components_def split_at_sep)
  qed (simp add: is_component_prefix_def)
qed

lemma in_some_scope_iff:
  "in_some_scope t ss \<longleftrightarrow> (\<exists>s \<in> set ss. norm_path s \<noteq> [] \<and> is_component_prefix (components (norm_path s)) (components t))"
  by (induction ss) (auto simp: Let_def component_prefix_iff)

text \<open>a path is inside a scope exactly when the components of the scope are the first
  components of the path, after white space and trailing slashes are cut: a scope
  \<open>src\<close> covers \<open>src/a\<close> and not \<open>src-old/a\<close>. No scopes at all cover everything, an empty
  target is inside none.\<close>

theorem path_scope_is_component_prefix:
  "path_in_scopes target scopes \<longleftrightarrow>
    scopes = [] \<or> (norm_path target \<noteq> [] \<and>
      (\<exists>s \<in> set scopes. norm_path s \<noteq> [] \<and> is_component_prefix (components (norm_path s)) (components (norm_path target))))"
  by (simp add: path_in_scopes_def Let_def in_some_scope_iff)

section \<open>Verdicts\<close>

lemma resolve_defaults_allow:
  assumes "d_verdict (resolve_defaults a L ns) = Allow"
  shows "\<exists>n \<in> set ns. \<exists>l. L n = Some l \<and> a_kind a \<in> pl_allows l \<and> target_allowed a l
    \<and> d_layer (resolve_defaults a L ns) = n"
  using assms by (induction ns) (auto simp: mk_decision_def split: option.splits if_splits)

lemma resolve_defaults_no_approval: "d_verdict (resolve_defaults a L ns) \<noteq> RequireApproval"
  by (induction ns) (auto simp: mk_decision_def split: option.splits)

lemma resolve_denies_deny: "resolve_denies a L ns = Some d \<Longrightarrow> d_verdict d = Deny"
  by (induction ns) (auto simp: mk_decision_def split: option.splits if_splits)

lemma resolve_denies_None_iff:
  "resolve_denies a L ns = None \<longleftrightarrow>
    (\<forall>n \<in> set ns. \<forall>l. L n = Some l \<longrightarrow> \<not> (a_kind a \<in> pl_denies l \<and> target_allowed a l))"
  by (induction ns) (auto split: option.splits)

definition deny_applies :: "action \<Rightarrow> policy_layer list \<Rightarrow> bool" where
  "deny_applies a stack =
     (invariant_denies a (layer_dict stack) \<or> resolve_denies a (layer_dict stack) DENY_LAYERS \<noteq> None)"

lemma resolve_deny_applies: "deny_applies a stack \<Longrightarrow> d_verdict (resolve a stack) = Deny"
  by (cases "resolve_denies a (layer_dict stack) DENY_LAYERS")
     (auto simp: deny_applies_def resolve_def Let_def mk_decision_def dest: resolve_denies_deny)

lemma resolve_not_denied:
  "\<not> deny_applies a stack \<Longrightarrow> resolve a stack =
    (if user_grants a (layer_dict stack) then mk_decision Allow ''explicit user grant'' ''explicit-user-grant''
     else resolve_defaults a (layer_dict stack) DEFAULT_LAYERS)"
  by (simp add: deny_applies_def resolve_def Let_def)

lemma resolve_no_approval: "d_verdict (resolve a stack) \<noteq> RequireApproval"
  by (cases "deny_applies a stack")
     (simp_all add: resolve_deny_applies resolve_not_denied resolve_defaults_no_approval mk_decision_def)

lemma evaluate_verdict:
  "d_verdict (evaluate a stack m) =
    (if d_verdict (resolve a stack) \<noteq> Allow then Deny
     else if autonomy_gate (a_kind a) m then Allow else RequireApproval)"
  using resolve_no_approval [of a stack]
  by (cases "d_verdict (resolve a stack)") (simp_all add: evaluate_def Let_def mk_decision_def)

text \<open>C5: a deny of the runtime, project or global deny layer that covers the action is
  final: the verdict is deny in every autonomy mode, whatever grants and defaults the
  stack has, before or after it.\<close>

theorem deny_layers_are_final:
  assumes "invariant_denies a (layer_dict stack)
    \<or> (\<exists>n \<in> {''project-deny'', ''global-deny''}. \<exists>l. layer_dict stack n = Some l \<and> a_kind a \<in> pl_denies l \<and> target_allowed a l)"
  shows "d_verdict (evaluate a stack m) = Deny"
proof -
  have "deny_applies a stack"
    using assms unfolding deny_applies_def resolve_denies_None_iff by (simp add: DENY_LAYERS_def)
  from resolve_deny_applies [OF this] show ?thesis by (simp add: evaluate_verdict)
qed

text \<open>C6: nothing is allowed without a rule that allows it: an allowed action is covered by
  an allow of the user grant or of a default layer, is denied by no deny layer, and the
  mode may execute its kind without a prompt.\<close>

theorem allow_needs_a_grant:
  assumes "d_verdict (evaluate a stack m) = Allow"
  shows "\<not> deny_applies a stack \<and> autonomy_gate (a_kind a) m
    \<and> (\<exists>l \<in> set stack. pl_name l = d_layer (evaluate a stack m)
        \<and> pl_name l \<in> {''explicit-user-grant'', ''project-defaults'', ''global-defaults'', ''harness-defaults''}
        \<and> a_kind a \<in> pl_allows l \<and> target_allowed a l)"
proof -
  from assms have r: "d_verdict (resolve a stack) = Allow" and g: "autonomy_gate (a_kind a) m"
    by (auto simp: evaluate_verdict split: if_splits)
  with resolve_deny_applies have nd: "\<not> deny_applies a stack" by auto
  have e: "evaluate a stack m = resolve a stack" using r g by (simp add: evaluate_def Let_def)
  let ?L = "layer_dict stack"
  have in_stack: "?L n = Some l \<Longrightarrow> l \<in> set stack \<and> pl_name l = n" for n l
    unfolding layer_dict_def by (auto dest!: map_of_SomeD)
  have r': "resolve a stack = (if user_grants a ?L then mk_decision Allow ''explicit user grant'' ''explicit-user-grant''
      else resolve_defaults a ?L DEFAULT_LAYERS)"
    using nd by (rule resolve_not_denied)
  have "\<exists>n l. ?L n = Some l \<and> a_kind a \<in> pl_allows l \<and> target_allowed a l \<and> d_layer (resolve a stack) = n
      \<and> n \<in> {''explicit-user-grant'', ''project-defaults'', ''global-defaults'', ''harness-defaults''}"
  proof (cases "user_grants a ?L")
    case True
    then obtain l where "?L ''explicit-user-grant'' = Some l" "a_kind a \<in> pl_allows l" "target_allowed a l"
      by (auto simp: user_grants_def split: option.splits)
    with True r' show ?thesis by (intro exI conjI) (auto simp: mk_decision_def)
  next
    case False
    with r r' have "d_verdict (resolve_defaults a ?L DEFAULT_LAYERS) = Allow" by simp
    from resolve_defaults_allow [OF this] obtain n l where
      "n \<in> set DEFAULT_LAYERS" "?L n = Some l" "a_kind a \<in> pl_allows l" "target_allowed a l"
      "d_layer (resolve_defaults a ?L DEFAULT_LAYERS) = n" by blast
    with False r' show ?thesis by (intro exI [of _ n] exI [of _ l]) (simp add: DEFAULT_LAYERS_def)
  qed
  then obtain n l where n: "?L n = Some l" "a_kind a \<in> pl_allows l" "target_allowed a l" "d_layer (resolve a stack) = n"
      "n \<in> {''explicit-user-grant'', ''project-defaults'', ''global-defaults'', ''harness-defaults''}" by blast
  from in_stack [OF n(1)] n nd g e show ?thesis by (intro conjI bexI [of _ l]) simp_all
qed

text \<open>no stack and no mode lets a push, a merge, a publication, an external message, a
  deletion, a destructive action, a secret read, a new dependency, a permission change
  or a budget escalation through without a human, and \<open>suggest\<close> executes nothing; what
  the stack allows then requires approval.\<close>

theorem always_approval_kinds:
  "(a_kind a \<in> ALWAYS_REQUIRE_APPROVAL \<or> m = Suggest) \<longrightarrow>
    d_verdict (evaluate a stack m) = (if d_verdict (resolve a stack) = Allow then RequireApproval else Deny)"
  by (auto simp: evaluate_verdict autonomy_gate_def)

section \<open>Restricting a stack\<close>

text \<open>Add denied kinds to the layers of one name.\<close>

definition add_denies :: "string \<Rightarrow> action_kind set \<Rightarrow> policy_layer list \<Rightarrow> policy_layer list" where
  "add_denies n D stack = map (\<lambda>l. if pl_name l = n then l\<lparr>pl_denies := pl_denies l \<union> D\<rparr> else l) stack"

lemma layer_dict_map:
  assumes "\<And>l. pl_name (f l) = pl_name l"
  shows "layer_dict (map f stack) n = map_option f (layer_dict stack n)"
proof -
  have "map_of (map (\<lambda>l. (pl_name l, l)) (map f ls)) n = map_option f (map_of (map (\<lambda>l. (pl_name l, l)) ls) n)" for ls
    by (induction ls) (auto simp: assms)
  from this [of "rev stack"] show ?thesis by (simp add: layer_dict_def rev_map)
qed

lemma add_denies_layer:
  "layer_dict (add_denies n D stack) k =
    map_option (\<lambda>l. if k = n then l\<lparr>pl_denies := pl_denies l \<union> D\<rparr> else l) (layer_dict stack k)"
proof -
  have "layer_dict stack k = Some l \<Longrightarrow> pl_name l = k" for l
    unfolding layer_dict_def by (auto dest!: map_of_SomeD)
  then show ?thesis
    by (cases "layer_dict stack k") (auto simp: add_denies_def layer_dict_map)
qed

lemma resolve_defaults_mono:
  assumes "\<forall>n l. L n = Some l \<longrightarrow> (\<exists>l'. L' n = Some l' \<and> pl_denies l \<subseteq> pl_denies l' \<and> pl_allows l' = pl_allows l
      \<and> target_allowed a l' = target_allowed a l)" "\<forall>n. L n = None \<longrightarrow> L' n = None"
    and "d_verdict (resolve_defaults a L' ns) = Allow"
  shows "d_verdict (resolve_defaults a L ns) = Allow"
  using assms(3)
proof (induction ns)
  case (Cons n ns)
  show ?case
  proof (cases "L n")
    case None
    with assms(2) Cons show ?thesis by simp
  next
    case (Some l)
    with assms(1) obtain l' where "L' n = Some l'" "pl_denies l \<subseteq> pl_denies l'" "pl_allows l' = pl_allows l"
      "target_allowed a l' = target_allowed a l" by blast
    with Some Cons show ?thesis by (auto simp: mk_decision_def split: if_splits)
  qed
qed (simp add: mk_decision_def)

text \<open>Adding denied kinds to any layer never turns an action that was not allowed into
  one that is.\<close>

theorem denies_only_restrict:
  assumes "d_verdict (evaluate a (add_denies n D stack) m) = Allow"
  shows "d_verdict (evaluate a stack m) = Allow"
proof -
  let ?L = "layer_dict stack" and ?L' = "layer_dict (add_denies n D stack)"
  have ta: "target_allowed a (l\<lparr>pl_denies := X\<rparr>) = target_allowed a l" for l X
    by (simp add: target_allowed_def)
  have rel: "\<forall>k l. ?L k = Some l \<longrightarrow> (\<exists>l'. ?L' k = Some l' \<and> pl_denies l \<subseteq> pl_denies l' \<and> pl_allows l' = pl_allows l
      \<and> target_allowed a l' = target_allowed a l)" "\<forall>k. ?L k = None \<longrightarrow> ?L' k = None"
    by (auto simp: add_denies_layer ta)
  from assms have g: "autonomy_gate (a_kind a) m" and r: "d_verdict (resolve a (add_denies n D stack)) = Allow"
    by (auto simp: evaluate_verdict split: if_splits)
  with resolve_deny_applies have nd': "\<not> deny_applies a (add_denies n D stack)" by auto
  have "\<not> invariant_denies a ?L"
  proof
    assume "invariant_denies a ?L"
    then obtain l where "?L ''runtime-invariant'' = Some l" "a_kind a \<in> pl_denies l"
      by (auto simp: invariant_denies_def split: option.splits)
    with rel(1) obtain l' where "?L' ''runtime-invariant'' = Some l'" "a_kind a \<in> pl_denies l'" by blast
    with nd' show False by (simp add: deny_applies_def invariant_denies_def)
  qed
  moreover have "resolve_denies a ?L DENY_LAYERS = None"
    using nd' rel(1) unfolding deny_applies_def not_not de_Morgan_disj resolve_denies_None_iff by (metis subsetD)
  ultimately have nd: "\<not> deny_applies a stack" by (simp add: deny_applies_def)
  have u: "user_grants a ?L' = user_grants a ?L"
  proof (cases "?L ''explicit-user-grant''")
    case None
    with rel(2) show ?thesis by (simp add: user_grants_def)
  next
    case (Some l)
    with rel(1) obtain l' where "?L' ''explicit-user-grant'' = Some l'" "pl_allows l' = pl_allows l"
      "target_allowed a l' = target_allowed a l" by blast
    with Some show ?thesis by (simp add: user_grants_def)
  qed
  have "d_verdict (resolve a stack) = Allow"
    using r resolve_defaults_mono [OF rel]
    by (cases "user_grants a ?L") (simp_all add: resolve_not_denied nd nd' u mk_decision_def)
  with g show ?thesis by (simp add: evaluate_verdict)
qed

section \<open>Witnesses\<close>

definition deny_push :: policy_layer where
  "deny_push = runtime_invariants\<lparr>pl_name := ''project-deny'', pl_denies := {Push}\<rparr>"

definition allow_reads :: policy_layer where
  "allow_reads = runtime_invariants\<lparr>pl_name := ''project-defaults'', pl_allows := {FsRead, Push}, pl_fs_read_scopes := [''src'']\<rparr>"

definition read_src :: action where
  "read_src = \<lparr>a_kind = FsRead, a_target = ''src/a'', a_context = []\<rparr>"

lemmas policy_examples = deny_push_def allow_reads_def read_src_def runtime_invariants_def layer_dict_def
  target_allowed_def path_in_scopes_def norm_path_def rstrip_char_def strip_def lstrip_def rstrip_def is_space_def

lemma deny_layers_are_final_witness:
  "d_verdict (evaluate \<lparr>a_kind = Push, a_target = ''origin'', a_context = []\<rparr> [deny_push, allow_reads] PolicyBound) = Deny"
  by (rule deny_layers_are_final) (simp add: policy_examples)

lemma allow_needs_a_grant_witness:
  "\<not> deny_applies read_src [deny_push, allow_reads]"
  using allow_needs_a_grant [of read_src "[deny_push, allow_reads]" AutoSafe]
  by (simp add: evaluate_verdict resolve_def Let_def invariant_denies_def user_grants_def policy_examples mk_decision_def deny_applies_def DENY_LAYERS_def DEFAULT_LAYERS_def
      autonomy_gate_def ALWAYS_REQUIRE_APPROVAL_def REVERSIBLE_KINDS_def)

lemma always_approval_kinds_witness:
  "d_verdict (evaluate \<lparr>a_kind = Push, a_target = ''o'', a_context = []\<rparr> [allow_reads] PolicyBound) = RequireApproval"
  using always_approval_kinds [of "\<lparr>a_kind = Push, a_target = ''o'', a_context = []\<rparr>" PolicyBound "[allow_reads]"]
  by (simp add: ALWAYS_REQUIRE_APPROVAL_def resolve_def Let_def invariant_denies_def user_grants_def policy_examples mk_decision_def DENY_LAYERS_def DEFAULT_LAYERS_def)

lemma denies_only_restrict_witness:
  "d_verdict (evaluate read_src [allow_reads] AutoSafe) = Allow"
  by (rule denies_only_restrict [of _ "''project-defaults''" "{Push}"])
     (simp add: add_denies_def evaluate_verdict resolve_def Let_def invariant_denies_def user_grants_def policy_examples
       mk_decision_def DENY_LAYERS_def DEFAULT_LAYERS_def autonomy_gate_def ALWAYS_REQUIRE_APPROVAL_def REVERSIBLE_KINDS_def)

end
