(* ===== verification/Capabilities.thy ===== *)
theory Capabilities
  imports Lifecycle Policy_Props
begin

text \<open>
  The capability registry: manifests (\<open>capabilities/manifest.py\<close>), the inspection of a
  source (\<open>capabilities/inspection.py\<close>), the event-first store
  (\<open>capabilities/store.py\<close>), the adapter registry
  (\<open>adapters/capabilities/registry.py\<close>) and the gate before every execution
  (\<open>capabilities/gate.py\<close>). A source on disk is a file or a directory with its files in
  traversal order.
\<close>

section \<open>Manifests\<close>

definition CAPABILITY_SCHEMA :: string where
  "CAPABILITY_SCHEMA = ''shiroe.capability/v1''"

definition ALLOWED_TYPES :: "string list" where
  "ALLOWED_TYPES = [''cli'', ''repository_tool'', ''script'', ''workflow'', ''evaluator'', ''api_service'']"

definition REQUIRED_TOP :: "string list" where
  "REQUIRED_TOP = [''schema'', ''id'', ''name'', ''type'', ''version'', ''source'', ''entrypoint'', ''requires'']"

definition validate_manifest :: "obj \<Rightarrow> exn + unit" where
  "validate_manifest m =
     rbind (rguard (oget m ''schema'' = JStr CAPABILITY_SCHEMA) (ManifestError ''schema'')) (\<lambda>_.
     rbind (rguard (list_all (ohas m) REQUIRED_TOP) (ManifestError ''missing field'')) (\<lambda>_.
     rbind (in_set ALLOWED_TYPES (oget m ''type'')) (\<lambda>b.
     rbind (rguard b (ManifestError ''type'')) (\<lambda>_.
     (case oget m ''source'' of
        JObj src \<Rightarrow>
          rbind (rguard (ohas src ''kind'') (ManifestError ''source.kind'')) (\<lambda>_.
          (case oget m ''entrypoint'' of
             JObj ep \<Rightarrow>
               rbind (rguard (ohas ep ''adapter'') (ManifestError ''entrypoint.adapter'')) (\<lambda>_.
               rbind (rguard (list_ex (\<lambda>k. truthy (oget ep k)) [''command'', ''callable'', ''url''])
                 (ManifestError ''entrypoint'')) (\<lambda>_.
               rguard (is_obj (oget m ''requires'')) (ManifestError ''requires'')))
           | _ \<Rightarrow> Inl (ManifestError ''entrypoint'')))
      | _ \<Rightarrow> Inl (ManifestError ''source''))))))"

definition infer_manifest :: "string \<Rightarrow> bool \<Rightarrow> string \<Rightarrow> string \<Rightarrow> string \<Rightarrow> exn + obj" where
  "infer_manifest path is_file cid name type =
     (if type \<notin> set ALLOWED_TYPES then Inl (ManifestError ''type'')
      else Inr
        [(''schema'', JStr CAPABILITY_SCHEMA), (''id'', JStr cid),
         (''name'', JStr (or_str name (last (components path)))), (''type'', JStr type),
         (''version'', JStr ''0.0.0-draft''),
         (''source'', JObj [(''kind'', JStr ''local-directory''), (''location'', JStr path)]),
         (''entrypoint'', JObj [(''adapter'', JStr ''cli''), (''command'', JList (if is_file then [JStr path] else []))]),
         (''provides'', JList []),
         (''requires'', JObj [(''filesystem'', JObj [(''read'', JList []), (''write'', JList [])]),
            (''network'', JStr ''none''), (''secrets'', JList []), (''subprocess'', JBool False),
            (''external_write'', JBool False)]),
         (''trust'', JObj [(''lifecycle'', JStr ''discovered''), (''approval_source'', JNull),
            (''benchmark_minimum'', JFloat ''0.0'')])])"

section \<open>Inspection\<close>

datatype source = SFile string string | SDir "(string \<times> string) list"

type_synonym disk = "string \<Rightarrow> source option"

definition TEXT_EXTENSIONS :: "string list" where
  "TEXT_EXTENSIONS = [''.md'', ''.py'', ''.sh'', ''.js'', ''.ts'', ''.json'', ''.yaml'', ''.yml'', ''.toml'']"

text \<open>\<open>Path.suffix\<close> and \<open>Path.stem\<close> of a name: from the last dot, unless it leads or ends the name.\<close>

definition suffix :: "string \<Rightarrow> string" where
  "suffix name = (let r = takeWhile (\<lambda>c. c \<noteq> CHR ''.'') (rev name) in
     if r = [] \<or> length name \<le> Suc (length r) then [] else CHR ''.'' # rev r)"

definition stem :: "string \<Rightarrow> string" where
  "stem name = take (length name - length (suffix name)) name"

definition text_files :: "source \<Rightarrow> (string \<times> string) list" where
  "text_files s = (case s of SFile n d \<Rightarrow> [(n, d)]
     | SDir fs \<Rightarrow> filter (\<lambda>f. suffix (last (components (fst f))) \<in> set TEXT_EXTENSIONS) fs)"

definition digest_text :: "rt \<Rightarrow> source \<Rightarrow> string" where
  "digest_text R s = concat (map (\<lambda>f. fst f @ [CHR 0x00] @ rt_raw R (snd f))
     (sort_key (\<lambda>f. components (fst f)) (text_files s)))"

definition digest_directory :: "rt \<Rightarrow> source \<Rightarrow> string \<times> nat \<times> nat" where
  "digest_directory R s =
     (''sha256:'' @ rt_hash R (digest_text R s), length (text_files s),
      sum_list (map (\<lambda>f. length (snd f)) (text_files s)))"

definition source_digest :: "rt \<Rightarrow> source \<Rightarrow> string" where
  "source_digest R s = fst (digest_directory R s)"

section \<open>Adapters\<close>

datatype enforcement = Embedded | Sidecar

record health =
  h_adapter :: string
  h_level :: enforcement
  h_features :: "string list"
  h_healthy :: bool
  h_reason :: "string option"

type_synonym adapters = "string \<Rightarrow> health option"

definition cli_health :: health where
  "cli_health = \<lparr>h_adapter = ''cli'', h_level = Embedded,
     h_features = [''subprocess'', ''policy_gated'', ''timeout''], h_healthy = True, h_reason = None\<rparr>"

definition repository_tool_health :: health where
  "repository_tool_health = \<lparr>h_adapter = ''repository-tool'', h_level = Embedded,
     h_features = [''subprocess'', ''policy_gated'', ''repo_scope''], h_healthy = True, h_reason = None\<rparr>"

definition ADAPTERS :: adapters where
  "ADAPTERS = map_of [(''cli'', cli_health), (''repository-tool'', repository_tool_health),
     (''repository_tool'', repository_tool_health)]"

definition register_adapter :: "string \<Rightarrow> health \<Rightarrow> adapters \<Rightarrow> exn + adapters" where
  "register_adapter n h A = (if strip n = [] then Inl (ValueError ''adapter name'') else Inr (A(n \<mapsto> h)))"

definition resolve_adapter :: "adapters \<Rightarrow> string \<Rightarrow> exn + health" where
  "resolve_adapter A n = (case A n of None \<Rightarrow> Inl (AdapterNotFoundError n) | Some h \<Rightarrow> Inr h)"

section \<open>The store\<close>

definition is_absolute :: "string \<Rightarrow> bool" where
  "is_absolute p = starts_with p ''/''"

definition relative_to :: "string \<Rightarrow> string \<Rightarrow> string option" where
  "relative_to p root =
     (if components p = components root then Some ''.''
      else if is_component_prefix (components root) (components p)
      then Some (drop (Suc (length root)) p) else None)"

definition relativize :: "string \<Rightarrow> string \<Rightarrow> string" where
  "relativize root loc =
     (if is_absolute loc then (case relative_to loc root of Some r \<Rightarrow> r | None \<Rightarrow> loc) else loc)"

text \<open>A location or command that is no string raises in \<open>Path(...)\<close>.\<close>

definition relativize_json :: "string \<Rightarrow> json \<Rightarrow> exn + json" where
  "relativize_json root j = (case j of JStr s \<Rightarrow> Inr (JStr (relativize root s)) | _ \<Rightarrow> Inl (TypeError ''path''))"

definition relativize_source :: "string \<Rightarrow> obj \<Rightarrow> exn + obj" where
  "relativize_source root m =
     (case oget m ''source'' of
        JObj src \<Rightarrow>
          if ohas src ''location'' then
            rbind (relativize_json root (oget src ''location'')) (\<lambda>l.
              Inr (oput m ''source'' (JObj (oput src ''location'' l))))
          else Inr m
      | _ \<Rightarrow> Inr m)"

definition relativize_entrypoint :: "string \<Rightarrow> obj \<Rightarrow> exn + obj" where
  "relativize_entrypoint root m =
     (case oget m ''entrypoint'' of
        JObj ep \<Rightarrow>
          (case oget ep ''command'' of
             JList (c # cs) \<Rightarrow>
               rbind (relativize_json root c) (\<lambda>c'.
                 Inr (oput m ''entrypoint'' (JObj (oput ep ''command'' (JList (c' # cs))))))
           | _ \<Rightarrow> Inr m)
      | _ \<Rightarrow> Inr m)"

definition relativize_manifest :: "string \<Rightarrow> obj \<Rightarrow> exn + obj" where
  "relativize_manifest root m = rbind (relativize_source root m) (relativize_entrypoint root)"

text \<open>Append, then fold: \<open>events.append\<close> followed by \<open>projections.apply_event\<close>.\<close>

definition emit_as :: "rt \<Rightarrow> clock \<Rightarrow> envelope \<Rightarrow> (world, obj) st" where
  "emit_as R K e = emit R (c_ts K) (c_eid K) e"

definition capability_event :: "string \<Rightarrow> string \<Rightarrow> string \<Rightarrow> obj \<Rightarrow> envelope" where
  "capability_event ty actor cid p = (event ty actor p)\<lparr>ev_target := Some (''capability:'' @ cid)\<rparr>"

definition entrypoint_of :: "obj \<Rightarrow> exn + obj" where
  "entrypoint_of m = (case oget_or m ''entrypoint'' (JObj []) of JObj ep \<Rightarrow> Inr ep | _ \<Rightarrow> Inl (TypeError ''attribute''))"

definition upsert_capability ::
  "rt \<Rightarrow> clock \<Rightarrow> string \<Rightarrow> string \<Rightarrow> json \<Rightarrow> json \<Rightarrow> string \<Rightarrow> string \<Rightarrow> obj \<Rightarrow> json \<Rightarrow> string \<Rightarrow> string option
    \<Rightarrow> json \<Rightarrow> string \<Rightarrow> (world, unit) st" where
  "upsert_capability R K root cid name ty lc digest manifest kind loc lic perms actor =
     st_bind (st_lift (relativize_manifest root manifest)) (\<lambda>m.
     st_bind (st_lift (entrypoint_of m)) (\<lambda>ep.
     st_bind (emit_as R K (capability_event ''capability.discovered'' actor cid
       [(''id'', JStr cid), (''name'', name), (''type'', ty), (''lifecycle'', JStr lc), (''digest'', JStr digest),
        (''version_id'', JStr (''cv_'' @ take 16 (c_uid K))),
        (''version'', oget_or m ''version'' (JStr ''0.0.0-draft'')), (''manifest'', JObj m),
        (''source_kind'', kind), (''source_location'', JStr (relativize root loc)), (''license'', jopt lic),
        (''adapter'', oget ep ''adapter''), (''compatibility'', jor (oget m ''compatibility'') JNull),
        (''permissions'', perms), (''event_time'', JStr (c_now K))])) (\<lambda>_. st_ret ())))"

definition cap_get :: "string \<Rightarrow> db \<Rightarrow> row option" where
  "cap_get cid d = first_by capabilities_t ''id'' cid d"

definition cap_lifecycle :: "string \<Rightarrow> db \<Rightarrow> string option" where
  "cap_lifecycle cid d = map_option (\<lambda>r. stext (r ''lifecycle'')) (cap_get cid d)"

definition cap_digest :: "string \<Rightarrow> db \<Rightarrow> string option" where
  "cap_digest cid d = (case cap_get cid d of None \<Rightarrow> None | Some r \<Rightarrow> stext_opt (r ''current_digest''))"

definition LIFECYCLE_EVENT_TYPE :: "(string \<times> string) list" where
  "LIFECYCLE_EVENT_TYPE =
    [(''discovered'', ''capability.discovered''), (''quarantined'', ''capability.quarantined''),
     (''inspected'', ''capability.inspected''), (''approved'', ''capability.approved''),
     (''benchmarked'', ''capability.benchmarked''), (''active'', ''capability.activated''),
     (''revoked'', ''capability.revoked''), (''stale'', ''capability.stale''),
     (''compromised'', ''capability.compromised'')]"

definition get_row :: "string \<Rightarrow> exn \<Rightarrow> (world, row) st" where
  "get_row cid e w = (case cap_get cid (wdb w) of None \<Rightarrow> (Inl e, w) | Some r \<Rightarrow> (Inr r, w))"

definition set_lifecycle :: "rt \<Rightarrow> clock \<Rightarrow> string \<Rightarrow> string \<Rightarrow> string \<Rightarrow> (world, unit) st" where
  "set_lifecycle R K cid target actor =
     st_bind (get_row cid (KeyError cid)) (\<lambda>r.
     st_bind (raise_unless (can_transition (stext (r ''lifecycle'')) target)
       (InvalidTransition (stext (r ''lifecycle'')) target)) (\<lambda>_.
     (case map_of LIFECYCLE_EVENT_TYPE target of
        None \<Rightarrow> st_raise (KeyError target)
      | Some ty \<Rightarrow>
          st_bind (append_event R (c_ts K) (c_eid K) (capability_event ty actor cid
            [(''from'', JStr (stext (r ''lifecycle''))), (''to'', JStr target)])) (\<lambda>env.
          st_bind (apply_on (update_by capabilities_t
            [(''lifecycle'', JStr target), (''updated_at'', JStr (c_now K))] id ''id'' (JStr cid))) (\<lambda>_.
          st_bind (apply_on (apply_event env)) (\<lambda>_. st_ret ()))))))"

definition refresh_digest :: "rt \<Rightarrow> clock \<Rightarrow> string \<Rightarrow> string \<Rightarrow> (world, string) st" where
  "refresh_digest R K cid nd =
     st_bind (get_row cid (KeyError cid)) (\<lambda>r.
     if r ''current_digest'' = SText nd then st_ret (stext (r ''lifecycle''))
     else
       (let st' = next_state_for_digest_change (stext (r ''lifecycle'')) in
        st_bind (append_event R (c_ts K) (c_eid K) (capability_event ''capability.digest_drift'' ''capability-manager'' cid
          [(''previous_digest'', jopt (stext_opt (r ''current_digest''))), (''new_digest'', JStr nd),
           (''previous_state'', JStr (stext (r ''lifecycle''))), (''new_state'', JStr st')])) (\<lambda>env.
        st_bind (apply_on (update_by capabilities_t
          [(''current_digest'', JStr nd), (''lifecycle'', JStr st'), (''updated_at'', JStr (c_now K))] id ''id'' (JStr cid))) (\<lambda>_.
        st_bind (apply_on (apply_event env)) (\<lambda>_. st_ret st')))))"

definition approve :: "rt \<Rightarrow> clock \<Rightarrow> clock \<Rightarrow> string \<Rightarrow> string \<Rightarrow> (world, unit) st" where
  "approve R K1 K2 cid actor = opened (
     st_bind (get_row cid (KeyError cid)) (\<lambda>r.
     st_bind (if r ''lifecycle'' = SText ''quarantined'' then set_lifecycle R K1 cid ''inspected'' actor else st_ret ()) (\<lambda>_.
     st_bind (get_row cid (TypeError ''None'')) (\<lambda>r'.
     if r' ''lifecycle'' = SText ''inspected'' then set_lifecycle R K2 cid ''approved'' actor else st_ret ()))))"

definition revoke :: "rt \<Rightarrow> clock \<Rightarrow> clock \<Rightarrow> string \<Rightarrow> string \<Rightarrow> (world, unit) st" where
  "revoke R K1 K2 cid actor = opened (
     st_bind (get_row cid (KeyError cid)) (\<lambda>r.
     st_bind (if \<not> can_transition (stext (r ''lifecycle'')) ''revoked''
                 \<and> can_transition (stext (r ''lifecycle'')) ''quarantined''
              then set_lifecycle R K1 cid ''quarantined'' actor else st_ret ()) (\<lambda>_.
     st_bind (get_row cid (TypeError ''None'')) (\<lambda>r'.
     if can_transition (stext (r' ''lifecycle'')) ''revoked''
     then set_lifecycle R K2 cid ''revoked'' actor else st_ret ()))))"

section \<open>Registration of a discovery\<close>

record discovered =
  dc_adapter :: string
  dc_path :: string
  dc_kind :: string

record trust =
  tr_digest :: string
  tr_license :: "string option"

definition kind_to_type :: "string \<Rightarrow> string" where
  "kind_to_type k = (if k \<in> set ALLOWED_TYPES then k else ''script'')"

definition capability_id_for :: "discovered \<Rightarrow> string \<Rightarrow> string" where
  "capability_id_for dc adapter = adapter @ '':'' @ last (components (dc_path dc))"

text \<open>The manifest with the location and the command rewritten relative to the root.\<close>

definition localise :: "string \<Rightarrow> string \<Rightarrow> obj \<Rightarrow> obj \<times> string" where
  "localise root path m =
     (case relative_to path root of
        None \<Rightarrow> (m, path)
      | Some rel \<Rightarrow>
          (let m1 = (case oget m ''source'' of JObj src \<Rightarrow> oput m ''source'' (JObj (oput src ''location'' (JStr rel))) | _ \<Rightarrow> m);
               m2 = (case oget m1 ''entrypoint'' of
                  JObj ep \<Rightarrow> (case oget ep ''command'' of
                     JList (JStr c # cs) \<Rightarrow>
                       if is_absolute c then
                         (case relative_to c root of
                            Some rc \<Rightarrow> oput m1 ''entrypoint'' (JObj (oput ep ''command'' (JList (JStr rc # cs))))
                          | None \<Rightarrow> m1)
                       else m1
                   | _ \<Rightarrow> m1)
                | _ \<Rightarrow> m1) in
           (m2, rel)))"

definition source_kind_of :: "obj \<Rightarrow> json" where
  "source_kind_of m = (case oget m ''source'' of JObj src \<Rightarrow> oget src ''kind'' | _ \<Rightarrow> JNull)"

definition register_discovery ::
  "rt \<Rightarrow> clock \<Rightarrow> clock \<Rightarrow> disk \<Rightarrow> string \<Rightarrow> discovered \<Rightarrow> trust \<Rightarrow> string option \<Rightarrow> (world, string) st" where
  "register_discovery R K1 K2 D root dc tr adapter = opened (
     (let cid = capability_id_for dc (or_opt adapter (dc_adapter dc));
          is_file = (case D (dc_path dc) of Some (SFile _ _) \<Rightarrow> True | _ \<Rightarrow> False) in
      st_bind (st_lift (infer_manifest (dc_path dc) is_file cid (last (components (dc_path dc))) (kind_to_type (dc_kind dc)))) (\<lambda>m0.
      let m = fst (localise root (dc_path dc) m0); rel = snd (localise root (dc_path dc) m0) in
      st_bind (st_lift (validate_manifest m)) (\<lambda>_.
      st_bind (st_get (\<lambda>w. cap_get cid (wdb w))) (\<lambda>ex.
      st_bind (if ex = None then
          st_bind (upsert_capability R K1 root cid (oget m ''name'') (oget m ''type'') ''quarantined'' (tr_digest tr) m
            (source_kind_of m) rel (tr_license tr) JNull ''capability-manager'') (\<lambda>_.
          st_bind (emit_as R K2 (capability_event ''capability.quarantined'' ''capability-manager'' cid
            [(''reason'', JStr ''new discovery'')])) (\<lambda>_. st_ret ()))
        else st_bind (refresh_digest R K1 cid (tr_digest tr)) (\<lambda>_. st_ret ()))
      (\<lambda>_. st_ret cid))))))"

section \<open>The gate\<close>

text \<open>\<open>ORDER BY c DESC LIMIT 1\<close>: the first row with the greatest value.\<close>

fun latest :: "string \<Rightarrow> row list \<Rightarrow> row option" where
  "latest c [] = None"
| "latest c (r # rs) = (case latest c rs of None \<Rightarrow> Some r
     | Some r' \<Rightarrow> if stext (r c) < stext (r' c) then Some r' else Some r)"

definition latest_version :: "string \<Rightarrow> db \<Rightarrow> row option" where
  "latest_version cid d = latest ''created_at'' (select_by capability_versions_t ''capability_id'' cid d)"

definition source_location_of :: "string \<Rightarrow> string \<Rightarrow> db \<Rightarrow> string option" where
  "source_location_of root cid d = map_option (\<lambda>r. let raw = stext (r ''source_location'') in
     if is_absolute raw then raw else join_path root [raw]) (latest_version cid d)"

definition resolve_source :: "rt \<Rightarrow> clock \<Rightarrow> disk \<Rightarrow> string \<Rightarrow> string \<Rightarrow> sqlv \<Rightarrow> (world, row) st" where
  "resolve_source R K D root cid expected =
     st_bind (st_get (\<lambda>w. source_location_of root cid (wdb w))) (\<lambda>loc.
     case loc of
       None \<Rightarrow> st_raise (CapabilityGateError ''no version record'')
     | Some l \<Rightarrow>
         (case D l of
            None \<Rightarrow> st_raise (CapabilityGateError ''source no longer exists'')
          | Some src \<Rightarrow>
              st_bind (if SText (source_digest R src) \<noteq> expected
                       then st_bind (refresh_digest R K cid (source_digest R src)) (\<lambda>_. st_ret ())
                       else st_ret ()) (\<lambda>_.
              get_row cid (TypeError ''None''))))"

definition assert_adapter_executable :: "adapters \<Rightarrow> string \<Rightarrow> (world, unit) st" where
  "assert_adapter_executable A cid =
     st_bind (st_get (\<lambda>w. latest_version cid (wdb w))) (\<lambda>v.
     case v of
       None \<Rightarrow> st_raise (CapabilityGateError ''no manifest'')
     | Some r \<Rightarrow>
         (case loads (or_str (stext (r ''manifest'')) ''{}'') of
            None \<Rightarrow> st_raise (JSONDecodeError ''manifest'')
          | Some j \<Rightarrow>
              st_bind (st_lift (as_obj j)) (\<lambda>m.
              st_bind (st_lift (entrypoint_of m)) (\<lambda>ep.
              if \<not> truthy (oget ep ''adapter'') then st_raise (CapabilityGateError ''no executable adapter'')
              else (case oget ep ''adapter'' of
                  JStr n \<Rightarrow>
                    (case resolve_adapter A n of
                       Inl _ \<Rightarrow> st_raise (CapabilityGateError ''no capability adapter'')
                     | Inr h \<Rightarrow>
                         if \<not> h_healthy h then st_raise (CapabilityGateError ''adapter is unhealthy'')
                         else if h_level h \<notin> {Embedded, Sidecar} then st_raise (CapabilityGateError ''adapter is not executable'')
                         else st_ret ())
                | JList _ \<Rightarrow> st_raise (TypeError ''unhashable'')
                | JObj _ \<Rightarrow> st_raise (TypeError ''unhashable'')
                | _ \<Rightarrow> st_raise (CapabilityGateError ''no capability adapter''))))))"

definition assert_executable :: "rt \<Rightarrow> clock \<Rightarrow> disk \<Rightarrow> adapters \<Rightarrow> string \<Rightarrow> string \<Rightarrow> (world, unit) st" where
  "assert_executable R K D A root cid = opened (
     st_bind (get_row cid (CapabilityGateError ''unknown capability'')) (\<lambda>r.
     st_bind (raise_unless (is_executable (stext (r ''lifecycle''))) (CapabilityGateError ''lifecycle'')) (\<lambda>_.
     st_bind (resolve_source R K D root cid (r ''current_digest'')) (\<lambda>r'.
     st_bind (raise_unless (is_executable (stext (r' ''lifecycle''))) (CapabilityGateError ''digest drift'')) (\<lambda>_.
     assert_adapter_executable A cid)))))"

end
