(* ===== verification/Capability_Props.thy ===== *)
theory Capability_Props
  imports Capabilities
begin

text \<open>
  What the store and the gate do to a capability: legal transitions only, drift
  quarantines, a passed gate means the approved source, revocation sticks.
\<close>

section \<open>Rows of the capabilities table\<close>

lemma aff_capabilities [simp]: "aff_of capabilities_t c = TextA"
  by (simp add: aff_of_def col_of_def capabilities_t_def tab_def tx_def txn_def)

lemma eq_val_id: "eq_val capabilities_t ''id'' (SText c) r \<longleftrightarrow> r ''id'' = SText c"
  by (auto simp: eq_val_def)

lemma cap_get_update:
  assumes "update_by capabilities_t sets id ''id'' (JStr cid) d = (Inr n, d')"
    and "bind_all sets = Inr vs" "''id'' \<notin> fst ` set vs"
  shows "cap_get c d' = (if c = cid then map_option (set_cols capabilities_t vs) (cap_get c d) else cap_get c d)"
proof -
  have d': "d' = d(tname capabilities_t := map (\<lambda>r. if eq_val capabilities_t ''id'' (SText cid) r
        then set_cols capabilities_t vs r else r) (d (tname capabilities_t)))"
    by (rule update_by_ok [OF assms(1)]) (auto simp: assms(2) simp del: tname_simps)
  have u: "cap_get c d' = map_option (\<lambda>r. if eq_val capabilities_t ''id'' (SText cid) r
      then set_cols capabilities_t vs r else r) (cap_get c d)"
    unfolding cap_get_def by (rule first_by_update [OF d']) (simp add: set_cols_other assms(3))
  show ?thesis
  proof (cases "cap_get c d")
    case None
    with u show ?thesis by auto
  next
    case (Some r)
    with first_by_key have "r ''id'' = SText c" by (force simp: cap_get_def eq_val_id)
    with u Some show ?thesis by (auto simp: eq_val_id)
  qed
qed

lemma versions_update:
  assumes "update_by capabilities_t sets id ''id'' (JStr cid) d = (Inr n, d')"
  shows "latest_version c d' = latest_version c d"
  by (rule update_by_ok [OF assms]) (simp add: latest_version_def select_by_def)

lemma set_lifecycle_cols:
  "set_cols capabilities_t [(''lifecycle'', SText a), (''updated_at'', SText b)]
   = (\<lambda>r. r(''lifecycle'' := SText a, ''updated_at'' := SText b))"
  "set_cols capabilities_t [(''current_digest'', SText c), (''lifecycle'', SText a), (''updated_at'', SText b)]
   = (\<lambda>r. r(''current_digest'' := SText c, ''lifecycle'' := SText a, ''updated_at'' := SText b))"
  by (simp_all add: fun_eq_iff)

text \<open>Appending an event does not touch the registry.\<close>

lemma append_capabilities:
  assumes "append_event R now uid e w = (r, w')"
  shows "cap_get c (wdb w') = cap_get c (wdb w)" "latest_version c (wdb w') = latest_version c (wdb w)"
  using append_event_tables [OF assms, of "''capabilities''"] append_event_tables [OF assms, of "''capability_versions''"]
  by (simp_all add: cap_get_def first_by_def select_by_def latest_version_def)

section \<open>The reducer on lifecycle events\<close>

lemma apply_event_capability:
  assumes "oget env ''event_type'' = JStr ty" "starts_with ty ''capability.''"
  shows "apply_event env d = (case apply_capability env d of (Inl x, d') \<Rightarrow> (Inl x, d')
    | (Inr b, d') \<Rightarrow> (Inr (if b then Some ''capabilities'' else None), d'))"
proof -
  from assms(2) obtain u where "ty = ''capability.'' @ u" by (auto simp: starts_with_iff)
  then have "domain_for_event env = Inr (Some ''capabilities'')"
    using assms(1) by (simp add: domain_for_event_def jor_def)
  then show ?thesis
    by (auto simp: apply_event_def st_bind_def st_lift_def st_ret_def split: prod.splits sum.splits)
qed

lemma target_id_capability:
  "oget env ''target'' = JStr (''capability:'' @ cid) \<Longrightarrow> target_id env ''capability:'' = Some cid"
  by (simp add: target_id_def)

lemma lifecycle_types:
  assumes "map_of LIFECYCLE_EVENT_TYPE target = Some ty" "target \<noteq> ''discovered''"
  shows "starts_with ty ''capability.''" "ty \<noteq> ''capability.digest_drift''"
    "map_of CAPABILITY_LIFECYCLE_EVENTS ty = Some target"
  using assms by (auto simp: LIFECYCLE_EVENT_TYPE_def CAPABILITY_LIFECYCLE_EVENTS_def split: if_splits)

lemma touch_bound: "\<exists>vs. bind_all (touch (JStr s)) = Inr vs \<and> fst ` set vs \<subseteq> {''updated_at''}"
  by (simp add: touch_def)

lemma jor_str: "jor JNull (JStr s) = JStr s"
  by (simp add: jor_def)

text \<open>The event folds into the one row its target names.\<close>

lemma fold_lifecycle_event:
  assumes "append_event R now uid (capability_event ty actor cid p) w = (Inr env, w1)"
    and "map_of LIFECYCLE_EVENT_TYPE target = Some ty" "target \<noteq> ''discovered''"
    and "p = [(''from'', j), (''to'', JStr target)]" "rt_scrub R target = target"
    and "apply_event env d = (Inr x, d')"
  shows "\<exists>s. cap_get c d' = (if c = cid then map_option (\<lambda>r. r(''lifecycle'' := SText target, ''updated_at'' := SText s)) (cap_get c d)
      else cap_get c d)" and "latest_version c d' = latest_version c d"
proof -
  from append_event_env [OF assms(1)] obtain h where env: "env = prepared R now uid h
    (capability_event ty actor cid p\<lparr>ev_payload := scrub_payload R (ev_payload (capability_event ty actor cid p))\<rparr>)"
    by blast
  let ?p = "scrub_payload R p" and ?ts = "or_opt None now"
  have f: "oget env ''event_type'' = JStr ty" "oget env ''target'' = JStr (''capability:'' @ cid)"
    "payload_of env = ?p" "oget env ''timestamp'' = JStr ?ts"
    by (simp_all add: env oget_prepared capability_event_def event_def jopt_def)
  have pp: "oget_or ?p ''to'' (JStr target) = JStr target" "event_when ?p (JStr ?ts) = JStr ?ts"
    by (simp_all add: assms(4) scrub_oget_or event_when_def scrub_oget assms(5))
       (simp_all add: ohas_def oget_def assms(5) jor_def)
  from apply_event_capability [OF f(1) lifecycle_types(1) [OF assms(2,3)]] assms(6)
  obtain b where a: "apply_capability env d = (Inr b, d')"
    by (auto split: prod.splits sum.splits)
  have "apply_capability env = st_bind (update_by capabilities_t ([(''lifecycle'', JStr target)] @ touch (JStr ?ts)) id ''id'' (JStr cid))
      (\<lambda>n. st_ret (0 < n))"
    using lifecycle_types [OF assms(2,3)]
    by (simp add: apply_capability_def f pp target_id_capability [OF f(2)] Let_def)
  with a obtain n where u: "update_by capabilities_t [(''lifecycle'', JStr target), (''updated_at'', JStr ?ts)] id ''id'' (JStr cid) d = (Inr n, d')"
    by (auto simp: touch_def st_bind_def st_ret_def split: prod.splits sum.splits)
  show "\<exists>s. cap_get c d' = (if c = cid then map_option (\<lambda>r. r(''lifecycle'' := SText target, ''updated_at'' := SText s)) (cap_get c d)
      else cap_get c d)"
    using cap_get_update [OF u] by (intro exI [of _ ?ts]) (simp add: set_lifecycle_cols del: set_cols.simps)
  show "latest_version c d' = latest_version c d" by (rule versions_update [OF u])
qed

lemma get_row_ok: "get_row cid e w = (Inr r, w') \<longleftrightarrow> cap_get cid (wdb w) = Some r \<and> w' = w"
  by (auto simp: get_row_def split: option.splits)

lemma raise_unless_ok: "raise_unless b e w = (Inr u, w') \<longleftrightarrow> b \<and> w' = w"
  by (auto simp: raise_unless_def st_ret_def st_raise_def)

lemma can_transition_not_discovered: "can_transition s t \<Longrightarrow> t \<noteq> ''discovered''"
  using can_transition_cases [of s t] by (auto simp: TRANSITIONS_def)

lemma set_lifecycle_ok:
  assumes "set_lifecycle R K cid target actor w = (Inr u, w')" "rt_scrub R target = target"
  obtains r s where "cap_get cid (wdb w) = Some r" "can_transition (stext (r ''lifecycle'')) target"
    "cap_get cid (wdb w') = Some (r(''lifecycle'' := SText target, ''updated_at'' := SText s))"
    "\<And>c. c \<noteq> cid \<Longrightarrow> cap_get c (wdb w') = cap_get c (wdb w)"
    "\<And>c. latest_version c (wdb w') = latest_version c (wdb w)"
proof -
  from assms(1) obtain r ty env w1 n d2 x d3 where
    g: "cap_get cid (wdb w) = Some r" "can_transition (stext (r ''lifecycle'')) target"
    and ty: "map_of LIFECYCLE_EVENT_TYPE target = Some ty"
    and ap: "append_event R (c_ts K) (c_eid K) (capability_event ty actor cid
        [(''from'', JStr (stext (r ''lifecycle''))), (''to'', JStr target)]) w = (Inr env, w1)"
    and u: "update_by capabilities_t [(''lifecycle'', JStr target), (''updated_at'', JStr (c_now K))] id ''id'' (JStr cid) (wdb w1) = (Inr n, d2)"
    and ev: "apply_event env d2 = (Inr x, d3)" and w': "w' = w1\<lparr>wdb := d3\<rparr>"
    by (auto simp: set_lifecycle_def st_bind_ok get_row_ok raise_unless_ok apply_on_ok st_ret_def st_raise_def
        split: option.splits)
  note fold = fold_lifecycle_event [OF ap ty can_transition_not_discovered [OF g(2)] refl assms(2) ev]
  note mid = cap_get_update [OF u, of "[(''lifecycle'', SText target), (''updated_at'', SText (c_now K))]"]
  have lookups: "cap_get c d2 = (if c = cid then map_option (\<lambda>r. r(''lifecycle'' := SText target, ''updated_at'' := SText (c_now K))) (cap_get c (wdb w))
      else cap_get c (wdb w))" for c
    using mid [of c] append_capabilities(1) [OF ap] by (simp add: set_lifecycle_cols del: set_cols.simps)
  from fold(1) [of cid] obtain s where "cap_get cid d3 = map_option (\<lambda>r. r(''lifecycle'' := SText target, ''updated_at'' := SText s)) (cap_get cid d2)"
    by auto
  with g(1) lookups [of cid] have "cap_get cid (wdb w') = Some (r(''lifecycle'' := SText target, ''updated_at'' := SText s))"
    by (simp add: w' fun_upd_twist)
  moreover have "cap_get c (wdb w') = cap_get c (wdb w)" if "c \<noteq> cid" for c
    using fold(1) [of c] lookups [of c] that by (simp add: w')
  moreover have "latest_version c (wdb w') = latest_version c (wdb w)" for c
    using fold(2) [of c] versions_update [OF u, of c] append_capabilities(2) [OF ap, of c] by (simp add: w')
  ultimately show thesis using g that by blast
qed

section \<open>Digest drift\<close>

lemma fold_drift_event:
  assumes "append_event R now uid (capability_event ''capability.digest_drift'' actor cid p) w = (Inr env, w1)"
    and "p = [(''previous_digest'', a), (''new_digest'', JStr nd), (''previous_state'', b), (''new_state'', JStr st')]"
    and "rt_scrub R st' = st'" "apply_event env d = (Inr x, d')"
  shows "\<exists>s. cap_get c d' = (if c = cid then map_option (\<lambda>r. r(''current_digest'' := SText (rt_scrub R nd),
      ''lifecycle'' := SText st', ''updated_at'' := SText s)) (cap_get c d) else cap_get c d)"
    and "latest_version c d' = latest_version c d"
proof -
  from append_event_env [OF assms(1)] obtain h where env: "env = prepared R now uid h
    (capability_event ''capability.digest_drift'' actor cid p\<lparr>ev_payload := scrub_payload R
      (ev_payload (capability_event ''capability.digest_drift'' actor cid p))\<rparr>)"
    by blast
  let ?p = "scrub_payload R p" and ?ts = "or_opt None now"
  have f: "oget env ''event_type'' = JStr ''capability.digest_drift''" "oget env ''target'' = JStr (''capability:'' @ cid)"
    "payload_of env = ?p" "oget env ''timestamp'' = JStr ?ts"
    by (simp_all add: env oget_prepared capability_event_def event_def jopt_def)
  have pp: "oget ?p ''new_digest'' = JStr (rt_scrub R nd)" "oget ?p ''new_state'' = JStr st'"
    "event_when ?p (JStr ?ts) = JStr ?ts"
    by (simp_all add: assms(2) scrub_oget event_when_def) (simp_all add: oget_def assms(3) jor_def)
  from apply_event_capability [OF f(1)] assms(4) obtain b where a: "apply_capability env d = (Inr b, d')"
    by (auto split: prod.splits sum.splits)
  have "apply_capability env = st_bind (update_by capabilities_t
      ([(''current_digest'', JStr (rt_scrub R nd)), (''lifecycle'', JStr st')] @ touch (JStr ?ts)) id ''id'' (JStr cid))
      (\<lambda>n. st_ret (0 < n))"
    by (simp add: apply_capability_def f pp missing_def target_id_capability [OF f(2)] Let_def)
  with a obtain n where u: "update_by capabilities_t [(''current_digest'', JStr (rt_scrub R nd)), (''lifecycle'', JStr st'),
      (''updated_at'', JStr ?ts)] id ''id'' (JStr cid) d = (Inr n, d')"
    by (auto simp: touch_def st_bind_def st_ret_def split: prod.splits sum.splits)
  show "\<exists>s. cap_get c d' = (if c = cid then map_option (\<lambda>r. r(''current_digest'' := SText (rt_scrub R nd),
      ''lifecycle'' := SText st', ''updated_at'' := SText s)) (cap_get c d) else cap_get c d)"
    using cap_get_update [OF u] by (intro exI [of _ ?ts]) (simp add: set_lifecycle_cols del: set_cols.simps)
  show "latest_version c d' = latest_version c d" by (rule versions_update [OF u])
qed

lemma refresh_digest_ok:
  assumes "refresh_digest R K cid nd w = (Inr res, w')"
    and "\<forall>s \<in> set LIFECYCLE_STATES. rt_scrub R s = s"
    and "cap_get cid (wdb w) = Some r" "r ''current_digest'' \<noteq> SText nd" "stext (r ''lifecycle'') \<in> set LIFECYCLE_STATES"
  shows "res = next_state_for_digest_change (stext (r ''lifecycle''))"
    and "\<exists>r'. cap_get cid (wdb w') = Some r' \<and> r' ''lifecycle'' = SText res \<and> r' ''current_digest'' = SText (rt_scrub R nd)"
    and "c \<noteq> cid \<Longrightarrow> cap_get c (wdb w') = cap_get c (wdb w)"
    and "latest_version c (wdb w') = latest_version c (wdb w)"
proof -
  let ?s = "next_state_for_digest_change (stext (r ''lifecycle''))"
  have sc: "rt_scrub R ?s = ?s"
    using assms(2,5) by (auto simp: next_state_for_digest_change_def LIFECYCLE_STATES_def)
  from assms(1,3,4) obtain env w1 n d2 x d3 where res: "res = ?s"
    and ap: "append_event R (c_ts K) (c_eid K) (capability_event ''capability.digest_drift'' ''capability-manager'' cid
      [(''previous_digest'', jopt (stext_opt (r ''current_digest''))), (''new_digest'', JStr nd),
       (''previous_state'', JStr (stext (r ''lifecycle''))), (''new_state'', JStr ?s)]) w = (Inr env, w1)"
    and u: "update_by capabilities_t [(''current_digest'', JStr nd), (''lifecycle'', JStr ?s), (''updated_at'', JStr (c_now K))]
      id ''id'' (JStr cid) (wdb w1) = (Inr n, d2)"
    and ev: "apply_event env d2 = (Inr x, d3)" and w': "w' = w1\<lparr>wdb := d3\<rparr>"
    by (auto simp: refresh_digest_def st_bind_ok get_row_ok apply_on_ok st_ret_def Let_def)
  have lk: "cap_get c d2 = (if c = cid then map_option (\<lambda>r. r(''current_digest'' := SText nd, ''lifecycle'' := SText ?s,
      ''updated_at'' := SText (c_now K))) (cap_get c (wdb w)) else cap_get c (wdb w))" for c
    using cap_get_update [OF u, of "[(''current_digest'', SText nd), (''lifecycle'', SText ?s), (''updated_at'', SText (c_now K))]" c]
      append_capabilities(1) [OF ap] by (simp add: set_lifecycle_cols del: set_cols.simps)
  note fold = fold_drift_event [OF ap refl sc ev]
  show "res = ?s" by (rule res)
  from fold(1) [of cid] obtain s where "cap_get cid d3 = map_option (\<lambda>r. r(''current_digest'' := SText (rt_scrub R nd),
      ''lifecycle'' := SText ?s, ''updated_at'' := SText s)) (cap_get cid d2)" by auto
  with lk [of cid] assms(3) show "\<exists>r'. cap_get cid (wdb w') = Some r' \<and> r' ''lifecycle'' = SText res \<and> r' ''current_digest'' = SText (rt_scrub R nd)"
    by (simp add: w' res)
  show "cap_get c (wdb w') = cap_get c (wdb w)" if "c \<noteq> cid"
    using fold(1) [of c] lk [of c] that by (auto simp: w')
  show "latest_version c (wdb w') = latest_version c (wdb w)"
    using fold(2) [of c] versions_update [OF u, of c] append_capabilities(2) [OF ap, of c] by (simp add: w')
qed

text \<open>recording a digest that differs from the stored one takes the capability out of
  every executable state: it is quarantined (a revoked one stays revoked), the new digest
  is on record, and no other capability changes.\<close>

theorem drift_quarantines:
  assumes "refresh_digest R K cid nd w = (Inr res, w')" "\<forall>s \<in> set LIFECYCLE_STATES. rt_scrub R s = s"
    and "cap_get cid (wdb w) = Some r" "r ''current_digest'' \<noteq> SText nd" "stext (r ''lifecycle'') \<in> set LIFECYCLE_STATES"
  shows "cap_lifecycle cid (wdb w') = Some (if stext (r ''lifecycle'') = ''revoked'' then ''revoked'' else ''quarantined'')
    \<and> cap_digest cid (wdb w') = Some (rt_scrub R nd) \<and> \<not> is_executable res
    \<and> (\<forall>c. c \<noteq> cid \<longrightarrow> cap_get c (wdb w') = cap_get c (wdb w))"
proof -
  note ok = refresh_digest_ok [OF assms]
  from ok(2) [of] obtain r' where "cap_get cid (wdb w') = Some r'" "r' ''lifecycle'' = SText res"
    "r' ''current_digest'' = SText (rt_scrub R nd)" by blast
  with ok(1) ok(3) digest_change_not_executable show ?thesis
    by (auto simp: cap_lifecycle_def cap_digest_def next_state_for_digest_change_def)
qed

section \<open>The gate\<close>

lemma opened_ok: "opened m w = (Inr x, w') \<longleftrightarrow> m (open_log w) = (Inr x, w')"
  by (simp add: opened_def)

lemma open_log_db [simp]: "wdb (open_log w) = wdb w"
  by (simp add: open_log_def)

lemma as_obj_ok: "as_obj j = Inr m \<longleftrightarrow> j = JObj m"
  by (cases j) auto

lemma adapter_ok:
  assumes "assert_adapter_executable A cid w = (Inr u, w')"
  shows "w' = w \<and> (\<exists>v m ep n h. latest_version cid (wdb w) = Some v
      \<and> loads (or_str (stext (v ''manifest'')) ''{}'') = Some (JObj m)
      \<and> entrypoint_of m = Inr ep \<and> oget ep ''adapter'' = JStr n \<and> A n = Some h \<and> h_healthy h)"
proof (cases "latest_version cid (wdb w)")
  case None
  with assms show ?thesis by (simp add: assert_adapter_executable_def st_bind_def st_get_def st_raise_def)
next
  case v: (Some v)
  show ?thesis
  proof (cases "loads (or_str (stext (v ''manifest'')) ''{}'')")
    case None
    with assms v show ?thesis by (simp add: assert_adapter_executable_def st_bind_def st_get_def st_raise_def)
  next
    case (Some j)
    with assms v obtain m ep where j: "j = JObj m" "entrypoint_of m = Inr ep" "truthy (oget ep ''adapter'')"
      and r: "(case oget ep ''adapter'' of
                  JStr n \<Rightarrow>
                    (case resolve_adapter A n of
                       Inl _ \<Rightarrow> st_raise (CapabilityGateError ''no capability adapter'')
                     | Inr h \<Rightarrow>
                         if \<not> h_healthy h then st_raise (CapabilityGateError ''adapter is unhealthy'')
                         else if h_level h \<notin> {Embedded, Sidecar} then st_raise (CapabilityGateError ''adapter is not executable'')
                         else st_ret ())
                | JList _ \<Rightarrow> st_raise (TypeError ''unhashable'')
                | JObj _ \<Rightarrow> st_raise (TypeError ''unhashable'')
                | _ \<Rightarrow> st_raise (CapabilityGateError ''no capability adapter'')) w = (Inr u, w')"
      by (auto simp: assert_adapter_executable_def st_bind_ok st_get_def st_lift_def as_obj_ok st_raise_def split: if_splits)
    then obtain n where n: "oget ep ''adapter'' = JStr n" by (cases "oget ep ''adapter''") (auto simp: st_raise_def)
    with r obtain h where "A n = Some h" "h_healthy h" "w' = w"
      by (cases "A n") (auto simp: resolve_adapter_def st_raise_def st_ret_def split: if_splits)
    with Some v j n show ?thesis by blast
  qed
qed

text \<open>What a capability that passes the gate satisfies.\<close>

lemma gate_facts:
  assumes "assert_executable R K D A root cid w = (Inr u, w')"
    and "\<forall>s \<in> set LIFECYCLE_STATES. rt_scrub R s = s"
  shows "\<exists>r loc src. cap_get cid (wdb w) = Some r \<and> is_executable (stext (r ''lifecycle''))
    \<and> source_location_of root cid (wdb w) = Some loc \<and> D loc = Some src
    \<and> r ''current_digest'' = SText (source_digest R src) \<and> wdb w' = wdb w
    \<and> (\<exists>v m ep n h. latest_version cid (wdb w) = Some v \<and> loads (or_str (stext (v ''manifest'')) ''{}'') = Some (JObj m)
        \<and> entrypoint_of m = Inr ep \<and> oget ep ''adapter'' = JStr n \<and> A n = Some h \<and> h_healthy h)"
proof -
  from assms(1) obtain r r' w1 where
    g: "cap_get cid (wdb w) = Some r" "is_executable (stext (r ''lifecycle''))"
    and rs: "resolve_source R K D root cid (r ''current_digest'') (open_log w) = (Inr r', w1)"
    and ex: "is_executable (stext (r' ''lifecycle''))"
    and ad: "assert_adapter_executable A cid w1 = (Inr u, w')"
    by (auto simp: assert_executable_def opened_ok st_bind_ok get_row_ok raise_unless_ok)
  from rs obtain loc src where l: "source_location_of root cid (wdb w) = Some loc" "D loc = Some src"
    by (auto simp: resolve_source_def st_bind_ok st_get_def st_raise_def split: option.splits)
  have r': "cap_get cid (wdb w1) = Some r'"
    using rs l by (auto simp: resolve_source_def st_bind_ok st_get_def get_row_ok)
  have same: "r ''current_digest'' = SText (source_digest R src)"
  proof (rule ccontr)
    assume ne: "r ''current_digest'' \<noteq> SText (source_digest R src)"
    with rs l obtain res where rf: "refresh_digest R K cid (source_digest R src) (open_log w) = (Inr res, w1)"
      by (auto simp: resolve_source_def st_bind_ok st_get_def get_row_ok st_ret_def)
    have "stext (r ''lifecycle'') \<in> set LIFECYCLE_STATES"
      using g(2) by (auto simp: is_executable_def EXECUTABLE_STATES_def LIFECYCLE_STATES_def)
    from refresh_digest_ok [OF rf assms(2) _ ne this] g(1) r' have
      "stext (r' ''lifecycle'') = next_state_for_digest_change (stext (r ''lifecycle''))"
      by auto
    with digest_change_not_executable ex show False by simp
  qed
  with rs l have w1: "w1 = open_log w"
    by (auto simp: resolve_source_def st_bind_ok st_get_def get_row_ok st_ret_def)
  from adapter_ok [OF ad] w1 have ad': "wdb w' = wdb w \<and> (\<exists>v m ep n h. latest_version cid (wdb w) = Some v
      \<and> loads (or_str (stext (v ''manifest'')) ''{}'') = Some (JObj m)
      \<and> entrypoint_of m = Inr ep \<and> oget ep ''adapter'' = JStr n \<and> A n = Some h \<and> h_healthy h)"
    by simp
  show ?thesis
    using g l same ad' by (intro exI [of _ r] exI [of _ loc] exI [of _ src]) simp
qed

text \<open>C8: a capability that passes the gate is in an executable state, its source exists
  where the latest version says, hashes to exactly the digest on record, and its manifest
  names a registered and healthy adapter; the check itself changed no capability. Since
  the digest is recomputed, a source edited after approval never passes: it ends
  quarantined and the gate raises.\<close>

theorem gate_passes_only_approved_source:
  assumes "assert_executable R K D A root cid w = (Inr u, w')"
    and "\<forall>s \<in> set LIFECYCLE_STATES. rt_scrub R s = s"
  shows "\<exists>r loc src. cap_get cid (wdb w) = Some r \<and> is_executable (stext (r ''lifecycle''))
    \<and> source_location_of root cid (wdb w) = Some loc \<and> D loc = Some src
    \<and> r ''current_digest'' = SText (source_digest R src) \<and> wdb w' = wdb w
    \<and> (\<exists>v m ep n h. latest_version cid (wdb w) = Some v \<and> loads (or_str (stext (v ''manifest'')) ''{}'') = Some (JObj m)
        \<and> entrypoint_of m = Inr ep \<and> oget ep ''adapter'' = JStr n \<and> A n = Some h \<and> h_healthy h)"
  by (rule gate_facts [OF assms])

section \<open>Transitions of the store\<close>

text \<open>a lifecycle change goes through only when the table allows it from the stored
  state; then the stored state is the target, and neither the digest nor any other
  capability nor any version changes.\<close>

theorem set_lifecycle_follows_table:
  assumes "set_lifecycle R K cid target actor w = (Inr u, w')" "rt_scrub R target = target"
  shows "(\<exists>s. cap_lifecycle cid (wdb w) = Some s \<and> can_transition s target)
    \<and> cap_lifecycle cid (wdb w') = Some target \<and> cap_digest cid (wdb w') = cap_digest cid (wdb w)
    \<and> (\<forall>c. c \<noteq> cid \<longrightarrow> cap_get c (wdb w') = cap_get c (wdb w))
    \<and> (\<forall>c. latest_version c (wdb w') = latest_version c (wdb w))"
  by (rule set_lifecycle_ok [OF assms]) (simp add: cap_lifecycle_def cap_digest_def)

text \<open>Revoking a capability in any lifecycle state ends in \<open>revoked\<close>, through
  \<open>quarantined\<close> where the table has no direct edge.\<close>

theorem revoke_ends_revoked:
  assumes "revoke R K1 K2 cid actor w = (Inr u, w')" "\<forall>s \<in> set LIFECYCLE_STATES. rt_scrub R s = s"
    and "cap_lifecycle cid (wdb w) = Some s" "s \<in> set LIFECYCLE_STATES"
  shows "cap_lifecycle cid (wdb w') = Some ''revoked''"
proof -
  have sc: "rt_scrub R ''quarantined'' = ''quarantined''" "rt_scrub R ''revoked'' = ''revoked''"
    using assms(2) by (simp_all add: LIFECYCLE_STATES_def)
  have tab: "can_transition ''quarantined'' ''revoked''"
    by (simp add: can_transition_def TRANSITIONS_def)
  have reach: "s = ''revoked'' \<or> can_transition s ''revoked'' \<or> can_transition s ''quarantined''"
    using assms(4) by (auto simp: LIFECYCLE_STATES_def can_transition_def TRANSITIONS_def)
  have fin: "\<not> can_transition ''revoked'' t" for t
    by (simp add: can_transition_def TRANSITIONS_def)
  from assms(3) obtain r where r: "cap_get cid (wdb w) = Some r" "stext (r ''lifecycle'') = s"
    by (auto simp: cap_lifecycle_def)
  from assms(1) r obtain x w1 r1 where
    a: "(if \<not> can_transition s ''revoked'' \<and> can_transition s ''quarantined''
         then set_lifecycle R K1 cid ''quarantined'' actor else st_ret ()) (open_log w) = (Inr x, w1)"
    and b: "cap_get cid (wdb w1) = Some r1"
      "(if can_transition (stext (r1 ''lifecycle'')) ''revoked''
        then set_lifecycle R K2 cid ''revoked'' actor else st_ret ()) w1 = (Inr u, w')"
    by (auto simp: revoke_def opened_ok st_bind_ok get_row_ok)
  have l1: "stext (r1 ''lifecycle'') = (if \<not> can_transition s ''revoked'' \<and> can_transition s ''quarantined'' then ''quarantined'' else s)"
  proof (cases "\<not> can_transition s ''revoked'' \<and> can_transition s ''quarantined''")
    case True
    with a have "set_lifecycle R K1 cid ''quarantined'' actor (open_log w) = (Inr x, w1)" by simp
    then show ?thesis
      by (rule set_lifecycle_ok [OF _ sc(1)]) (use b(1) True in simp)
  next
    case False
    with a b(1) r show ?thesis by (auto simp: st_ret_def split: if_splits)
  qed
  show ?thesis
  proof (cases "can_transition (stext (r1 ''lifecycle'')) ''revoked''")
    case True
    with b have "set_lifecycle R K2 cid ''revoked'' actor w1 = (Inr u, w')" by simp
    then show ?thesis by (rule set_lifecycle_ok [OF _ sc(2)]) (simp add: cap_lifecycle_def)
  next
    case False
    with l1 tab reach have "stext (r1 ''lifecycle'') = ''revoked''" by (auto split: if_splits)
    with b False show ?thesis by (simp add: st_ret_def cap_lifecycle_def)
  qed
qed

section \<open>What the digest covers\<close>

lemma separator_splits:
  "z \<notin> set a \<Longrightarrow> z \<notin> set b \<Longrightarrow> a @ z # x = b @ z # y \<Longrightarrow> a = b \<and> x = y"
proof (induction a arbitrary: b)
  case Nil
  then show ?case by (cases b) auto
next
  case (Cons c a)
  then show ?case by (cases b) auto
qed

lemma concat_records_inj:
  assumes "concat (map (\<lambda>f. fst f @ [z] @ snd f) fs) = concat (map (\<lambda>f. fst f @ [z] @ snd f) gs)"
    and "\<forall>f \<in> set fs \<union> set gs. z \<notin> set (fst f) \<and> length (snd f) = n"
  shows "fs = gs"
  using assms
proof (induction fs arbitrary: gs)
  case Nil
  then show ?case by (cases gs) auto
next
  case (Cons f fs)
  then obtain g gs' where gs: "gs = g # gs'" by (cases gs) auto
  let ?F = "concat (map (\<lambda>f. fst f @ [z] @ snd f) fs)" and ?G = "concat (map (\<lambda>f. fst f @ [z] @ snd f) gs')"
  have e: "fst f @ z # (snd f @ ?F) = fst g @ z # (snd g @ ?G)" using Cons.prems(1) gs by simp
  have "z \<notin> set (fst f)" "z \<notin> set (fst g)" using Cons.prems(2) gs by auto
  from separator_splits [OF this e] have f: "fst f = fst g" and r: "snd f @ ?F = snd g @ ?G"
    by simp_all
  from r Cons.prems(2) gs have "snd f = snd g \<and> ?F = ?G" by simp
  with f Cons.IH [of gs'] Cons.prems(2) gs show ?case by (auto simp: prod_eq_iff)
qed

text \<open>Two sources with the same digest text have the same files: the same relative
  paths, in order, with the same content digests. Adding, removing, renaming or editing
  one file of the covered kinds shows in the text that is hashed. (A raw SHA-256 has a
  fixed length and a path has no NUL.)\<close>

theorem digest_text_determines_files:
  assumes "digest_text R s = digest_text R s'" "\<forall>d. length (rt_raw R d) = n"
    and "\<forall>f \<in> set (text_files s) \<union> set (text_files s'). CHR 0x00 \<notin> set (fst f)"
  shows "map (\<lambda>f. (fst f, rt_raw R (snd f))) (sort_key (\<lambda>f. components (fst f)) (text_files s))
    = map (\<lambda>f. (fst f, rt_raw R (snd f))) (sort_key (\<lambda>f. components (fst f)) (text_files s'))"
proof (rule concat_records_inj [where z = "CHR 0x00" and n = n])
  show "\<forall>f \<in> set (map (\<lambda>f. (fst f, rt_raw R (snd f))) (sort_key (\<lambda>f. components (fst f)) (text_files s)))
      \<union> set (map (\<lambda>f. (fst f, rt_raw R (snd f))) (sort_key (\<lambda>f. components (fst f)) (text_files s'))).
      CHR 0x00 \<notin> set (fst f) \<and> length (snd f) = n"
    using assms(2,3) by fastforce
qed (use assms(1) in \<open>simp add: digest_text_def o_def\<close>)

section \<open>A concrete registry\<close>

definition tool_manifest :: obj where
  "tool_manifest = [(''entrypoint'', JObj [(''adapter'', JStr ''cli'')])]"

definition tool_source :: source where
  "tool_source = SFile ''tool.sh'' ''#!/bin/sh''"

definition tool_row :: "string \<Rightarrow> row" where
  "tool_row lc = (\<lambda>_. SNull)(''id'' := SText ''t'', ''name'' := SText ''t'', ''type'' := SText ''script'',
     ''lifecycle'' := SText lc, ''current_digest'' := SText (source_digest rt0 tool_source),
     ''created_at'' := SText ''2025'', ''updated_at'' := SText ''2025'')"

definition tool_version :: row where
  "tool_version = (\<lambda>_. SNull)(''id'' := SText ''v'', ''capability_id'' := SText ''t'',
     ''manifest'' := SText (dumps (JObj tool_manifest)), ''source_location'' := SText ''tool.sh'',
     ''created_at'' := SText ''2025'')"

definition tool_world :: "string \<Rightarrow> world" where
  "tool_world lc = \<lparr>wlog = log0, wdb = (\<lambda>_. [])(''capabilities'' := [tool_row lc], ''capability_versions'' := [tool_version])\<rparr>"

definition tool_disk :: disk where
  "tool_disk = [''/p/tool.sh'' \<mapsto> tool_source]"

definition clock0 :: clock where
  "clock0 = \<lparr>c_now = ''2025-03-04'', c_ts = ''2025-03-04'', c_uid = ''u'', c_eid = ''e''\<rparr>"

lemma scrub0: "\<forall>s \<in> set LIFECYCLE_STATES. rt_scrub rt0 s = s" "rt_scrub rt0 s = s"
  by (simp_all add: rt0_def)

lemma tool_world_get: "cap_get ''t'' (wdb (tool_world lc)) = Some (tool_row lc)"
  by (simp add: tool_world_def cap_get_def first_by_def select_by_def eq_val_id tool_row_def)

lemma tool_gate_runs: "\<not> isl (fst (assert_executable rt0 clock0 tool_disk ADAPTERS ''/p'' ''t'' (tool_world ''approved'')))"
  by code_simp

lemma gate_passes_only_approved_source_witness:
  "\<exists>src. tool_disk ''/p/tool.sh'' = Some src \<and> tool_row ''approved'' ''current_digest'' = SText (source_digest rt0 src)"
  using gate_passes_only_approved_source [OF outcome [OF tool_gate_runs] scrub0(1)]
  by (auto simp: tool_world_get tool_disk_def split: if_splits)

lemma tool_set_runs: "\<not> isl (fst (set_lifecycle rt0 clock0 ''t'' ''active'' ''ana'' (tool_world ''approved'')))"
  by code_simp

lemma set_lifecycle_follows_table_witness:
  "cap_lifecycle ''t'' (wdb (snd (set_lifecycle rt0 clock0 ''t'' ''active'' ''ana'' (tool_world ''approved'')))) = Some ''active''"
  using set_lifecycle_follows_table [OF outcome [OF tool_set_runs] scrub0(2)] by blast

lemma tool_revoke_runs: "\<not> isl (fst (revoke rt0 clock0 clock0 ''t'' ''ana'' (tool_world ''active'')))"
  by code_simp

lemma revoke_ends_revoked_witness:
  "cap_lifecycle ''t'' (wdb (snd (revoke rt0 clock0 clock0 ''t'' ''ana'' (tool_world ''active'')))) = Some ''revoked''"
  using revoke_ends_revoked [OF outcome [OF tool_revoke_runs] scrub0(1), of "''active''"]
  by (simp add: cap_lifecycle_def tool_world_get) (simp add: tool_row_def LIFECYCLE_STATES_def)

lemma tool_drift_runs: "\<not> isl (fst (refresh_digest rt0 clock0 ''t'' ''sha256:x'' (tool_world ''active'')))"
  by code_simp

lemma drift_quarantines_witness:
  "cap_lifecycle ''t'' (wdb (snd (refresh_digest rt0 clock0 ''t'' ''sha256:x'' (tool_world ''active'')))) = Some ''quarantined''"
proof -
  have "tool_row ''active'' ''current_digest'' \<noteq> SText ''sha256:x''"
    using nat_str_digits [of "length (digest_text rt0 tool_source)"]
    by (auto simp: tool_row_def source_digest_def digest_directory_def rt0_def is_digit_def)
  then show ?thesis
    using drift_quarantines [OF outcome [OF tool_drift_runs] scrub0(1) tool_world_get]
    by (simp add: tool_row_def LIFECYCLE_STATES_def)
qed

definition rt_fixed :: rt where
  "rt_fixed = rt0\<lparr>rt_raw := (\<lambda>s. [CHR ''x''])\<rparr>"

lemma digest_text_determines_files_witness:
  "map (\<lambda>f. (fst f, rt_raw rt_fixed (snd f))) (sort_key (\<lambda>f. components (fst f)) (text_files (SDir [(''b.py'', ''2''), (''a.py'', ''1'')])))
   = map (\<lambda>f. (fst f, rt_raw rt_fixed (snd f))) (sort_key (\<lambda>f. components (fst f)) (text_files (SDir [(''a.py'', ''1''), (''x.bin'', ''3''), (''b.py'', ''2'')])))"
  by (rule digest_text_determines_files [where n = 1]) (code_simp, simp_all add: rt_fixed_def text_files_def)

end
