(* ===== verification/Approvals.thy ===== *)
theory Approvals
  imports Capability_Props
begin

text \<open>
  Human approvals: the request type (\<open>policy/approvals.py\<close>), the event-first service
  (\<open>policy/approval_service.py\<close>), the policy service that turns a verdict into a request
  (\<open>policy/service.py\<close>) and the onboarding of a capability
  (\<open>capabilities/onboarding.py\<close>), which ends in one.
\<close>

section \<open>Requests\<close>

datatype approval_type = ActionApproval | Strategic | ExceptionApproval | CapabilityApproval

datatype approval_status = Pending | Approved | Rejected | Revise | Deferred | StaleApproval

definition APPROVAL_TYPES :: "(string \<times> approval_type) list" where
  "APPROVAL_TYPES = [(''action'', ActionApproval), (''strategic'', Strategic),
     (''exception'', ExceptionApproval), (''capability'', CapabilityApproval)]"

definition APPROVAL_STATUSES :: "(string \<times> approval_status) list" where
  "APPROVAL_STATUSES = [(''pending'', Pending), (''approved'', Approved), (''rejected'', Rejected),
     (''revise'', Revise), (''deferred'', Deferred), (''stale'', StaleApproval)]"

definition enum_of :: "(string \<times> 'a) list \<Rightarrow> string \<Rightarrow> exn + 'a" where
  "enum_of E s = (case map_of E s of None \<Rightarrow> Inl (ValueError s) | Some x \<Rightarrow> Inr x)"

fun status_value :: "approval_status \<Rightarrow> string" where
  "status_value Pending = ''pending''"
| "status_value Approved = ''approved''"
| "status_value Rejected = ''rejected''"
| "status_value Revise = ''revise''"
| "status_value Deferred = ''deferred''"
| "status_value StaleApproval = ''stale''"

fun type_value :: "approval_type \<Rightarrow> string" where
  "type_value ActionApproval = ''action''"
| "type_value Strategic = ''strategic''"
| "type_value ExceptionApproval = ''exception''"
| "type_value CapabilityApproval = ''capability''"

text \<open>\<open>scope_digest\<close> serialises without \<open>ensure_ascii\<close>.\<close>

definition scope_digest :: "rt \<Rightarrow> obj \<Rightarrow> string" where
  "scope_digest R scope = ''sha256:'' @ rt_hash R (dumps_with False (JObj scope))"

record approval =
  ap_id :: string
  ap_type :: approval_type
  ap_action :: string
  ap_scope :: obj
  ap_reason :: string
  ap_risk :: string
  ap_graph :: "string option"
  ap_node :: "string option"
  ap_kind :: "string option"
  ap_options :: "json list"
  ap_evidence :: "json list"
  ap_status :: approval_status
  ap_requested_at :: string
  ap_decided_at :: "string option"
  ap_decided_by :: "string option"
  ap_decision_reason :: "string option"
  ap_digest :: string

definition check_request :: "string \<Rightarrow> string \<Rightarrow> string \<Rightarrow> exn + unit" where
  "check_request i act reason =
     rbind (rguard (strip i \<noteq> []) (ValueError ''approval id'')) (\<lambda>_.
     rbind (rguard (strip act \<noteq> []) (ValueError ''requested_action'')) (\<lambda>_.
     rguard (strip reason \<noteq> []) (ValueError ''reason'')))"

section \<open>The service\<close>

record request_args =
  rq_type :: string
  rq_action :: string
  rq_scope :: obj
  rq_reason :: string
  rq_risk :: string
  rq_graph :: "string option"
  rq_node :: "string option"
  rq_kind :: "string option"
  rq_options :: "json list"
  rq_evidence :: "json list"
  rq_id :: "string option"

definition request_payload :: "rt \<Rightarrow> approval \<Rightarrow> obj" where
  "request_payload R a =
     [(''id'', JStr (ap_id a)), (''graph_id'', jopt (ap_graph a)), (''node_id'', jopt (ap_node a)),
      (''approval_type'', JStr (type_value (ap_type a))), (''action_kind'', jopt (ap_kind a)),
      (''requested_action'', JStr (ap_action a)), (''scope'', JObj (ap_scope a)),
      (''scope_digest'', JStr (ap_digest a)), (''reason'', JStr (ap_reason a)),
      (''options'', JList (ap_options a)), (''evidence_refs'', JList (ap_evidence a)),
      (''risk'', JStr (ap_risk a)), (''status'', JStr (status_value (ap_status a))),
      (''requested_at'', JStr (ap_requested_at a))]"

definition mk_request :: "rt \<Rightarrow> clock \<Rightarrow> request_args \<Rightarrow> exn + approval" where
  "mk_request R K q =
     (let i = or_opt (rq_id q) (''apr_'' @ c_uid K) in
      rbind (check_request i (rq_action q) (rq_reason q)) (\<lambda>_.
      rbind (enum_of APPROVAL_TYPES (rq_type q)) (\<lambda>ty.
      Inr \<lparr>ap_id = i, ap_type = ty, ap_action = rq_action q, ap_scope = rq_scope q,
        ap_reason = rq_reason q, ap_risk = rq_risk q, ap_graph = rq_graph q, ap_node = rq_node q,
        ap_kind = rq_kind q, ap_options = rq_options q, ap_evidence = rq_evidence q,
        ap_status = Pending, ap_requested_at = c_now K, ap_decided_at = None, ap_decided_by = None,
        ap_decision_reason = None, ap_digest = scope_digest R (rq_scope q)\<rparr>)))"

definition approval_event :: "string \<Rightarrow> string \<Rightarrow> string \<Rightarrow> obj \<Rightarrow> envelope" where
  "approval_event ty actor i p = (event ty actor p)\<lparr>ev_target := Some (''approval:'' @ i)\<rparr>"

definition request :: "rt \<Rightarrow> clock \<Rightarrow> request_args \<Rightarrow> (world, approval) st" where
  "request R K q =
     st_bind (st_lift (mk_request R K q)) (\<lambda>a.
     st_bind (emit_as R K (approval_event ''approval.requested'' ''system'' (ap_id a) (request_payload R a))) (\<lambda>_.
     st_ret a))"

definition load_or_raise :: "string \<Rightarrow> exn + json" where
  "load_or_raise s = (case loads s of None \<Rightarrow> Inl (JSONDecodeError s) | Some j \<Rightarrow> Inr j)"

text \<open>\<open>ApprovalRequest\<close> from a row: its digest is recomputed from the stored scope.\<close>

definition approval_of_row :: "rt \<Rightarrow> row \<Rightarrow> exn + approval" where
  "approval_of_row R r =
     rbind (load_or_raise (stext (r ''scope_json''))) (\<lambda>sc.
     rbind (rbind (load_or_raise (stext (r ''options_json''))) jiter) (\<lambda>os.
     rbind (rbind (load_or_raise (stext (r ''evidence_refs_json''))) jiter) (\<lambda>es.
     rbind (check_request (stext (r ''id'')) (stext (r ''requested_action'')) (stext (r ''reason''))) (\<lambda>_.
     rbind (enum_of APPROVAL_TYPES (stext (r ''approval_type''))) (\<lambda>ty.
     rbind (enum_of APPROVAL_STATUSES (stext (r ''status''))) (\<lambda>st'.
     rbind (as_obj sc) (\<lambda>scope.
     Inr \<lparr>ap_id = stext (r ''id''), ap_type = ty, ap_action = stext (r ''requested_action''), ap_scope = scope,
       ap_reason = stext (r ''reason''), ap_risk = stext (r ''risk''), ap_graph = stext_opt (r ''graph_id''),
       ap_node = stext_opt (r ''node_id''), ap_kind = stext_opt (r ''action_kind''), ap_options = os,
       ap_evidence = es, ap_status = st', ap_requested_at = stext (r ''requested_at''),
       ap_decided_at = stext_opt (r ''decided_at''), ap_decided_by = stext_opt (r ''decided_by''),
       ap_decision_reason = stext_opt (r ''decision_reason''), ap_digest = scope_digest R scope\<rparr>)))))))"

definition approval_row :: "string \<Rightarrow> db \<Rightarrow> row option" where
  "approval_row i d = first_by approval_requests_t ''id'' i d"

definition get_approval :: "rt \<Rightarrow> string \<Rightarrow> (world, approval) st" where
  "get_approval R i =
     st_bind (st_get (\<lambda>w. approval_row i (wdb w))) (\<lambda>x.
     case x of None \<Rightarrow> st_raise (KeyError i) | Some r \<Rightarrow> st_lift (approval_of_row R r))"

definition decide_human ::
  "rt \<Rightarrow> clock \<Rightarrow> clock \<Rightarrow> string \<Rightarrow> string \<Rightarrow> string \<Rightarrow> string \<Rightarrow> string option \<Rightarrow> (world, approval) st" where
  "decide_human R K K2 i decision actor reason actor_kind =
     st_bind (raise_unless (actor = ''human'' \<and> (actor_kind = None \<or> actor_kind = Some ''human''))
       (AuthorizationError ''human actor'')) (\<lambda>_.
     st_bind (st_lift (enum_of APPROVAL_STATUSES decision)) (\<lambda>st'.
     st_bind (raise_unless (st' \<notin> {Pending, StaleApproval}) (ValueError ''not a human decision'')) (\<lambda>_.
     st_bind (get_approval R i) (\<lambda>_.
     st_bind (emit_as R K (approval_event ''approval.decided'' actor i
       [(''id'', JStr i), (''decision'', JStr (status_value st')), (''actor'', JStr actor),
        (''actor_kind'', jopt actor_kind), (''reason'', JStr reason), (''decided_at'', JStr (c_now K))])) (\<lambda>_.
     st_bind (get_approval R i) (\<lambda>req.
     st_bind
       (if ap_type req = CapabilityApproval \<and> st' = Approved then
          (case oget (ap_scope req) ''capability_id'' of
             JStr cid \<Rightarrow> if cid = [] then st_ret () else opened (set_lifecycle R K2 cid ''approved'' ''human'')
           | j \<Rightarrow> if truthy j then st_raise (KeyError ''capability_id'') else st_ret ())
        else st_ret ()) (\<lambda>_. st_ret req)))))))"

text \<open>\<open>assert_current\<close> compares digests; a scope is any JSON value.\<close>

definition assert_digest :: "rt \<Rightarrow> clock \<Rightarrow> string \<Rightarrow> string \<Rightarrow> (world, approval) st" where
  "assert_digest R K i cur =
     st_bind (get_approval R i) (\<lambda>req.
     if cur = ap_digest req then st_ret req
     else
       st_bind (emit_as R K (approval_event ''approval.staled'' ''system'' i
         [(''id'', JStr i), (''prior_digest'', JStr (ap_digest req)), (''current_digest'', JStr cur),
          (''reason'', JStr ''scope changed'')])) (\<lambda>_.
       get_approval R i))"

definition assert_current :: "rt \<Rightarrow> clock \<Rightarrow> string \<Rightarrow> obj \<Rightarrow> (world, approval) st" where
  "assert_current R K i scope = assert_digest R K i (scope_digest R scope)"

text \<open>\<open>COALESCE(c, '') = COALESCE(?, '')\<close>\<close>

definition coalesce_eq :: "sqlv \<Rightarrow> string option \<Rightarrow> bool" where
  "coalesce_eq v s = (stext v = (case s of None \<Rightarrow> [] | Some t \<Rightarrow> t))"

definition matches_request :: "string option \<Rightarrow> string option \<Rightarrow> string option \<Rightarrow> string \<Rightarrow> string \<Rightarrow> row \<Rightarrow> bool" where
  "matches_request g n k act dig r =
     (coalesce_eq (r ''graph_id'') g \<and> coalesce_eq (r ''node_id'') n \<and> coalesce_eq (r ''action_kind'') k
      \<and> r ''requested_action'' = SText act \<and> r ''scope_digest'' = SText dig)"

definition get_if :: "rt \<Rightarrow> row option \<Rightarrow> (world, approval option) st" where
  "get_if R x = (case x of None \<Rightarrow> st_ret None
     | Some r \<Rightarrow> st_bind (get_approval R (stext (r ''id''))) (\<lambda>a. st_ret (Some a)))"

definition find_pending :: "rt \<Rightarrow> string option \<Rightarrow> string option \<Rightarrow> string option \<Rightarrow> string \<Rightarrow> obj \<Rightarrow> (world, approval option) st" where
  "find_pending R g n k act scope =
     st_bind (st_get (\<lambda>w. latest ''requested_at''
       (filter (\<lambda>r. matches_request g n k act (scope_digest R scope) r \<and> r ''status'' = SText ''pending'')
         (wdb w ''approval_requests'')))) (get_if R)"

definition find_latest_matching :: "rt \<Rightarrow> string option \<Rightarrow> string option \<Rightarrow> string option \<Rightarrow> string \<Rightarrow> obj \<Rightarrow> (world, approval option) st" where
  "find_latest_matching R g n k act scope =
     st_bind (st_get (\<lambda>w. latest ''requested_at''
       (filter (matches_request g n k act (scope_digest R scope)) (wdb w ''approval_requests'')))) (get_if R)"

section \<open>The policy service\<close>

record authorization =
  au_verdict :: verdict
  au_reason :: string
  au_layer :: string
  au_approval :: "string option"

definition stack_for :: "files \<Rightarrow> string \<Rightarrow> exn + policy_layer list" where
  "stack_for F root = load_policy_stack F root (join_path root [''no-global-policy''])"

definition mk_auth :: "verdict \<Rightarrow> string \<Rightarrow> string \<Rightarrow> string option \<Rightarrow> authorization" where
  "mk_auth v r l a = \<lparr>au_verdict = v, au_reason = r, au_layer = l, au_approval = a\<rparr>"

text \<open>\<open>dict(scope or {...})\<close>\<close>

definition scope_or_default :: "action \<Rightarrow> obj option \<Rightarrow> obj" where
  "scope_or_default a scope = (case scope of
     Some s \<Rightarrow> if s \<noteq> [] then s else [(''target'', JStr (a_target a)), (''context'', JObj (a_context a))]
   | None \<Rightarrow> [(''target'', JStr (a_target a)), (''context'', JObj (a_context a))])"

definition action_request :: "action \<Rightarrow> string \<Rightarrow> obj \<Rightarrow> string option \<Rightarrow> string option \<Rightarrow> string \<Rightarrow> request_args" where
  "action_request a act scope g n reason =
     \<lparr>rq_type = ''action'', rq_action = act, rq_scope = scope, rq_reason = reason,
      rq_risk = (if a_kind a \<in> {Publish, Push, Merge, Destructive, FsDelete} then ''high'' else ''medium''),
      rq_graph = g, rq_node = n, rq_kind = Some (kind_value (a_kind a)), rq_options = [], rq_evidence = [], rq_id = None\<rparr>"

definition prior_result :: "decision \<Rightarrow> approval \<Rightarrow> authorization" where
  "prior_result dec prior =
     (if ap_status prior = Approved
      then mk_auth Allow (''human-approved: '' @ or_opt (ap_decision_reason prior) ''approved'') (d_layer dec) (Some (ap_id prior))
      else if ap_status prior = Rejected
      then mk_auth Deny (''human-rejected: '' @ or_opt (ap_decision_reason prior) ''rejected'') (d_layer dec) (Some (ap_id prior))
      else mk_auth (d_verdict dec) (''awaiting human decision ('' @ status_value (ap_status prior) @ '')'') (d_layer dec) (Some (ap_id prior)))"

text \<open>
  The latest request for this scope decides; without one a request is made.
\<close>

definition consult :: "rt \<Rightarrow> clock \<Rightarrow> decision \<Rightarrow> action \<Rightarrow> string \<Rightarrow> obj \<Rightarrow> string option \<Rightarrow> string option
    \<Rightarrow> (world, authorization) st" where
  "consult R K dec a act cur g n =
     st_bind (find_latest_matching R g n (Some (kind_value (a_kind a))) act cur) (\<lambda>prior.
     case prior of
       None \<Rightarrow>
         st_bind (request R K (action_request a act cur g n (d_reason dec))) (\<lambda>req.
         st_ret (mk_auth (d_verdict dec) (d_reason dec) (d_layer dec) (Some (ap_id req))))
     | Some p \<Rightarrow> st_ret (prior_result dec p))"

definition authorize ::
  "rt \<Rightarrow> clock \<Rightarrow> files \<Rightarrow> string \<Rightarrow> action \<Rightarrow> string option \<Rightarrow> string option \<Rightarrow> obj option \<Rightarrow> autonomy
    \<Rightarrow> (world, authorization) st" where
  "authorize R K F root a g n scope mode =
     st_bind (st_lift (stack_for F root)) (\<lambda>stack.
     let dec = evaluate a stack mode in
     if d_verdict dec \<noteq> RequireApproval then st_ret (mk_auth (d_verdict dec) (d_reason dec) (d_layer dec) None)
     else consult R K dec a (or_str (a_target a) (kind_value (a_kind a))) (scope_or_default a scope) g n)"

section \<open>Onboarding\<close>

definition id_safe :: "char \<Rightarrow> bool" where
  "id_safe c = (let n = (of_char c :: nat) in (97 \<le> n \<and> n \<le> 122) \<or> (48 \<le> n \<and> n \<le> 57))"

text \<open>\<open>re.sub("[^a-z0-9]+", "_", s)\<close>: every run of other characters becomes one underscore.\<close>

fun slug_runs :: "bool \<Rightarrow> string \<Rightarrow> string" where
  "slug_runs inrun [] = []"
| "slug_runs inrun (c # cs) =
     (if id_safe c then c # slug_runs False cs
      else if inrun then slug_runs True cs else CHR ''_'' # slug_runs True cs)"

definition strip_underscores :: "string \<Rightarrow> string" where
  "strip_underscores s = rstrip_char (CHR ''_'') (dropWhile (\<lambda>c. c = CHR ''_'') s)"

definition derive_capability_id :: "string \<Rightarrow> string" where
  "derive_capability_id rel =
     (let name = last (components rel);
          slug = or_str (strip_underscores (slug_runs False (lower (or_str (stem name) name)))) ''capability'' in
      ''local.'' @ slug)"

definition onboarding_request :: "string \<Rightarrow> json \<Rightarrow> request_args" where
  "onboarding_request cid dig =
     \<lparr>rq_type = ''capability'', rq_action = ''approve '' @ cid,
      rq_scope = [(''capability_id'', JStr cid), (''digest'', dig)], rq_reason = ''onboarding'', rq_risk = ''medium'',
      rq_graph = None, rq_node = None, rq_kind = Some ''capability.approve'', rq_options = [], rq_evidence = [],
      rq_id = None\<rparr>"

text \<open>
  \<open>rel_is_file\<close> is what \<open>Path(rel).is_file()\<close> says of the relative path in the process's
  working directory; \<open>lic\<close> the license the inspection detected.
\<close>

definition onboard ::
  "rt \<Rightarrow> clock \<Rightarrow> clock \<Rightarrow> clock \<Rightarrow> clock \<Rightarrow> disk \<Rightarrow> bool \<Rightarrow> string option \<Rightarrow> string \<Rightarrow> string
    \<Rightarrow> (world, string \<times> string \<times> approval) st" where
  "onboard R K1 K2 K3 K4 D rel_is_file lic root path =
     (case D path of
        None \<Rightarrow> st_raise (OnboardingError ''does not exist'')
      | Some src \<Rightarrow>
          (case relative_to path root of
             None \<Rightarrow> st_raise (OnboardingError ''outside project root'')
           | Some rel \<Rightarrow>
               (let cid = derive_capability_id rel; name = last (components rel);
                    ty = (case src of SFile _ _ \<Rightarrow> ''script'' | SDir _ \<Rightarrow> ''capability'') in
                st_bind (st_lift (infer_manifest rel rel_is_file cid name ty)) (\<lambda>m.
                st_bind (st_lift (validate_manifest m)) (\<lambda>_.
                st_bind (opened (
                  st_bind (st_get (\<lambda>w. cap_get cid (wdb w))) (\<lambda>ex.
                  st_bind (if ex = None then
                      st_bind (upsert_capability R K1 root cid (oget m ''name'') (oget m ''type'') ''quarantined''
                        (source_digest R src) m (source_kind_of m) rel lic JNull ''capability-manager'') (\<lambda>_.
                      st_bind (emit_as R K2 (capability_event ''capability.quarantined'' ''capability-manager'' cid
                        [(''reason'', JStr ''new discovery'')])) (\<lambda>_. st_ret ()))
                    else st_bind (refresh_digest R K1 cid (source_digest R src)) (\<lambda>_. st_ret ())) (\<lambda>_.
                  st_bind (set_lifecycle R K3 cid ''inspected'' ''onboarding'') (\<lambda>_.
                  get_row cid (TypeError ''None'')))))) (\<lambda>row.
                opened (
                  st_bind (request R K4 (onboarding_request cid (jopt (stext_opt (row ''current_digest''))))) (\<lambda>a.
                  st_ret (cid, stext (row ''lifecycle''), a)))))))))"

end
