(* ===== verification/Approval_Props.thy ===== *)
theory Approval_Props
  imports Approvals
begin

text \<open>
  Who can approve, what an approval authorises, and what invalidates it, over every
  sequence of calls of the services.
\<close>

section \<open>Tables a world computation leaves alone\<close>

definition keeps :: "string \<Rightarrow> (world, 'a) st \<Rightarrow> bool" where
  "keeps q m \<longleftrightarrow> (\<forall>w. wdb (snd (m w)) q = wdb w q)"

named_theorems keeping \<open>tables a world computation leaves alone\<close>

lemma keeps_pure [keeping]:
  "keeps q (st_ret x)" "keeps q (st_raise e)" "keeps q (st_lift r)" "keeps q (st_get f)" "keeps q (raise_unless b e)"
  by (simp_all add: keeps_def st_ret_def st_raise_def st_lift_def st_get_def raise_unless_def)

lemma keeps_bind [keeping]: "keeps q m \<Longrightarrow> (\<And>x. keeps q (f x)) \<Longrightarrow> keeps q (st_bind m f)"
  unfolding keeps_def st_bind_def by (auto split: prod.splits sum.splits) (metis snd_conv)+

lemma keeps_if [keeping]: "keeps q a \<Longrightarrow> keeps q b \<Longrightarrow> keeps q (if c then a else b)"
  by simp

lemma keeps_option [keeping]:
  "keeps q g \<Longrightarrow> (\<And>s. keeps q (f s)) \<Longrightarrow> keeps q (case x of None \<Rightarrow> g | Some s \<Rightarrow> f s)"
  by (cases x) simp_all

lemma keeps_opened [keeping]: "keeps q m \<Longrightarrow> keeps q (opened m)"
  by (simp add: keeps_def opened_def)

lemma keeps_get_row [keeping]: "keeps q (get_row cid e)"
  by (simp add: keeps_def get_row_def split: option.splits)

lemma keeps_append [keeping]: "q \<noteq> ''memory_events'' \<Longrightarrow> keeps q (append_event R now uid e)"
  using append_event_tables by (simp add: keeps_def) (metis prod.collapse)

lemma keeps_apply_on [keeping]: "only_touches S m \<Longrightarrow> q \<notin> S \<Longrightarrow> keeps q (apply_on m)"
  by (auto simp: keeps_def apply_on_def only_touches_def split: prod.splits) (metis snd_conv)

lemma touches_capability:
  "only_touches {''capabilities'', ''capability_versions'', ''capability_permissions''} (apply_capability env)"
  unfolding apply_capability_def apply_discovered_def write_permissions_def insert_or_replace_def update_by_def Let_def
  by (intro touches) simp_all

lemma touches_update_by: "tname t \<in> S \<Longrightarrow> only_touches S (update_by t sets upd key k)"
  unfolding update_by_def by (intro touches)

text \<open>An event of the capability domain, once appended.\<close>

lemma append_type:
  assumes "append_event R now uid e w = (Inr env, w')"
  shows "oget env ''event_type'' = JStr (ev_type e)"
  by (rule append_event_env [OF assms]) (simp add: oget_prepared)

lemma keeps_event:
  assumes "\<And>env w w'. append_event R now uid e w = (Inr env, w') \<Longrightarrow> keeps q (f env)" "q \<noteq> ''memory_events''"
  shows "keeps q (st_bind (append_event R now uid e) f)"
proof -
  have "wdb (snd (st_bind (append_event R now uid e) f w)) q = wdb w q" for w
  proof (cases "append_event R now uid e w")
    case (Pair r w1)
    note same = append_event_tables [OF Pair assms(2)]
    show ?thesis
    proof (cases r)
      case (Inr env)
      with Pair have "keeps q (f env)" by (intro assms(1)) simp
      with Pair Inr same show ?thesis by (simp add: st_bind_def keeps_def)
    qed (use Pair same in \<open>simp add: st_bind_def\<close>)
  qed
  then show ?thesis by (simp add: keeps_def)
qed

lemma keeps_apply_capability:
  assumes "append_event R now uid e w = (Inr env, w')" "starts_with (ev_type e) ''capability.''"
    and "q \<notin> {''capabilities'', ''capability_versions'', ''capability_permissions''}"
  shows "keeps q (apply_on (apply_event env))"
proof -
  have "snd (apply_event env d) = snd (apply_capability env d)" for d
    using apply_event_capability [OF append_type [OF assms(1)] assms(2), of d]
    by (simp split: prod.splits sum.splits)
  with touches_capability [of env] assms(3) show ?thesis
    by (simp add: keeps_def apply_on_def only_touches_def case_prod_beta)
qed

lemma lifecycle_type_prefix: "map_of LIFECYCLE_EVENT_TYPE target = Some ty \<Longrightarrow> starts_with ty ''capability.''"
  by (auto simp: LIFECYCLE_EVENT_TYPE_def split: if_splits)

lemma keeps_set_lifecycle:
  assumes "q \<notin> {''memory_events'', ''capabilities'', ''capability_versions'', ''capability_permissions''}"
  shows "keeps q (set_lifecycle R K cid target actor)"
proof -
  have "keeps q (case map_of LIFECYCLE_EVENT_TYPE target of None \<Rightarrow> st_raise (KeyError target)
      | Some ty \<Rightarrow> st_bind (append_event R (c_ts K) (c_eid K) (capability_event ty actor cid
            [(''from'', JStr (stext (r ''lifecycle''))), (''to'', JStr target)])) (\<lambda>env.
          st_bind (apply_on (update_by capabilities_t
            [(''lifecycle'', JStr target), (''updated_at'', JStr (c_now K))] id ''id'' (JStr cid))) (\<lambda>_.
          st_bind (apply_on (apply_event env)) (\<lambda>_. st_ret ()))))" for r
  proof (cases "map_of LIFECYCLE_EVENT_TYPE target")
    case None
    then show ?thesis by (simp add: keeping)
  next
    case (Some ty)
    have u: "only_touches {''capabilities''} (update_by capabilities_t sets id ''id'' (JStr cid))" for sets
      by (rule touches_update_by) simp
    show ?thesis
      unfolding Some option.case
      by (intro keeps_event keeps_bind keeps_apply_on [OF u] keeps_pure keeps_apply_capability)
         (use assms lifecycle_type_prefix [OF Some] in \<open>auto simp: capability_event_def event_def\<close>)
  qed
  then show ?thesis
    unfolding set_lifecycle_def by (intro keeps_bind keeps_get_row keeps_pure)
qed

section \<open>Rows of the approval table\<close>

text \<open>
  A decided request was decided by \<open>human\<close>, and the action on record is one that
  redaction returns.
\<close>

definition approval_ok :: "rt \<Rightarrow> row \<Rightarrow> bool" where
  "approval_ok R r =
     ((r ''status'' \<in> {SText ''pending'', SText ''stale''} \<or> r ''decided_by'' = SText ''human'')
      \<and> (\<exists>s. r ''requested_action'' = SText (rt_scrub R s)))"

definition approvals_ok :: "rt \<Rightarrow> world \<Rightarrow> bool" where
  "approvals_ok R w = (\<forall>r \<in> set (wdb w ''approval_requests''). approval_ok R r)"

text \<open>The words of the protocol are not redacted.\<close>

definition keeps_words :: "rt \<Rightarrow> bool" where
  "keeps_words R = (\<forall>s \<in> {''human'', ''pending'', ''approved'', ''rejected'', ''revise'', ''deferred''} \<union> set LIFECYCLE_STATES.
     rt_scrub R s = s)"

lemma aff_approvals [simp]: "aff_of approval_requests_t c = TextA"
  by (simp add: aff_of_def col_of_def approval_requests_t_def tab_def tx_def txn_def)

lemma replace_rows:
  assumes "insert_or_replace t vals d = (r, d')"
  shows "set (d' (tname t)) \<subseteq> set (d (tname t)) \<union> {default_nulls t (fill_row t vs) | vs. bind_all vals = Inr vs}"
  using assms
  by (auto simp: insert_or_replace_def replace_bound_def st_bind_def st_lift_def Let_def split: sum.splits if_splits)

lemma update_rows_set:
  assumes "update_by t sets upd key k d = (r, d')"
  shows "set (d' (tname t)) \<subseteq> set (d (tname t)) \<union> {upd (set_cols t vs x) | vs x. bind_all sets = Inr vs \<and> x \<in> set (d (tname t))}"
proof (cases r)
  case (Inl e)
  with assms have "d' = d" by (auto dest: update_by_err)
  then show ?thesis by simp
next
  case (Inr n)
  with assms have "update_by t sets upd key k d = (Inr n, d')" by simp
  then show ?thesis by (rule update_by_ok) auto
qed

lemma rows_after_replace:
  assumes "\<forall>r \<in> set (d (tname t)). P r" "\<And>vs. bind_all vals = Inr vs \<Longrightarrow> P (default_nulls t (fill_row t vs))"
  shows "\<forall>r \<in> set (snd (insert_or_replace t vals d) (tname t)). P r"
proof -
  obtain r d' where i: "insert_or_replace t vals d = (r, d')" by fastforce
  from replace_rows [OF i] assms show ?thesis by (auto simp: i)
qed

lemma rows_after_update:
  assumes "\<forall>r \<in> set (d (tname t)). P r" "\<And>vs r. bind_all sets = Inr vs \<Longrightarrow> P r \<Longrightarrow> P (upd (set_cols t vs r))"
  shows "\<forall>r \<in> set (snd (update_by t sets upd key k d) (tname t)). P r"
proof -
  obtain r d' where i: "update_by t sets upd key k d = (r, d')" by fastforce
  from update_rows_set [OF i] assms show ?thesis by (auto simp: i)
qed

lemma map_of_bind_all:
  "bind_all vals = Inr vs \<Longrightarrow> map_of vals c = Some j \<Longrightarrow> \<exists>v. bindv j = Inr v \<and> map_of vs c = Some v"
proof (induction vals arbitrary: vs)
  case (Cons p vals)
  obtain c' j' where p: "p = (c', j')" by (cases p)
  with Cons.prems(1) obtain v' vs' where "bindv j' = Inr v'" "bind_all vals = Inr vs'" "vs = (c', v') # vs'"
    by (auto split: sum.splits)
  with Cons p show ?case by auto
qed simp

lemma filled_text:
  assumes "bind_all vals = Inr vs" "map_of vals c = Some (JStr s)" "col_of t c = Some k" "caff k = TextA"
  shows "default_nulls t (fill_row t vs) c = SText s"
  using map_of_bind_all [OF assms(1,2)] assms(3,4) by (auto simp: default_nulls_def fill_row_def)

lemma approval_cols:
  "col_of approval_requests_t ''status'' = Some (txn ''status'')"
  "col_of approval_requests_t ''requested_action'' = Some (txn ''requested_action'')"
  by (simp_all add: col_of_def approval_requests_t_def tab_def tx_def txn_def)

lemma apply_event_approval:
  assumes "oget env ''event_type'' = JStr ty" "starts_with ty ''approval.''"
  shows "snd (apply_event env d) = snd (apply_approval env d)"
    "fst (apply_approval env d) = Inl e \<Longrightarrow> fst (apply_event env d) = Inl e"
    "fst (apply_event env d) = Inl e \<Longrightarrow> fst (apply_approval env d) = Inl e"
proof -
  from assms(2) obtain u where "ty = ''approval.'' @ u" by (auto simp: starts_with_iff)
  then have "domain_for_event env = Inr (Some ''approvals'')"
    using assms(1) by (simp add: domain_for_event_def jor_def)
  then have "apply_event env d = (case apply_approval env d of (Inl x, d') \<Rightarrow> (Inl x, d')
      | (Inr b, d') \<Rightarrow> (Inr (if b then Some ''approvals'' else None), d'))"
    by (auto simp: apply_event_def st_bind_def st_lift_def st_ret_def split: prod.splits sum.splits)
  then show "snd (apply_event env d) = snd (apply_approval env d)"
    "fst (apply_approval env d) = Inl e \<Longrightarrow> fst (apply_event env d) = Inl e"
    "fst (apply_event env d) = Inl e \<Longrightarrow> fst (apply_approval env d) = Inl e"
    by (auto split: prod.splits sum.splits)
qed

text \<open>The payloads the service writes.\<close>

definition good_payload :: "string \<Rightarrow> obj \<Rightarrow> bool" where
  "good_payload ty p =
     (if ty = ''approval.requested'' then
        oget p ''status'' = JStr ''pending'' \<and> (\<exists>s. oget p ''requested_action'' = JStr s)
      else if ty = ''approval.decided'' then
        oget p ''actor'' = JStr ''human'' \<and> (\<exists>s. oget p ''decision'' = JStr s)
      else ty = ''approval.staled'')"

lemma snd_bind_ret: "snd (st_bind m (\<lambda>_. st_ret x) d) = snd (m d)"
  by (cases "m d"; cases "fst (m d)") (simp_all add: st_bind_def st_ret_def)

lemma snd_st_ret: "snd (st_ret x d) = d"
  by (simp add: st_ret_def)

lemma snd_if: "snd (if b then x else y) = (if b then snd x else snd y)"
  by simp

lemma approval_rows_apply:
  assumes f: "oget env ''event_type'' = JStr ty" "payload_of env = scrub_payload R p"
    and g: "good_payload ty p" and w: "keeps_words R"
    and rows: "\<forall>r \<in> set (d ''approval_requests''). approval_ok R r"
  shows "\<forall>r \<in> set (snd (apply_approval env d) ''approval_requests''). approval_ok R r"
proof -
  have human: "rt_scrub R ''human'' = ''human''" "rt_scrub R ''pending'' = ''pending''"
    using w by (simp_all add: keeps_words_def)
  consider "ty = ''approval.requested''" | "ty = ''approval.decided''" | "ty = ''approval.staled''"
    using g unfolding good_payload_def by argo
  then show ?thesis
  proof cases
    case 1
    with g obtain s where s: "oget p ''status'' = JStr ''pending''" "oget p ''requested_action'' = JStr s"
      unfolding good_payload_def by auto
    let ?q = "scrub_payload R p"
    let ?vals = "[(''id'', oget ?q ''id''), (''graph_id'', oget ?q ''graph_id''), (''node_id'', oget ?q ''node_id''),
            (''approval_type'', oget ?q ''approval_type''), (''action_kind'', oget ?q ''action_kind''),
            (''requested_action'', oget ?q ''requested_action''), (''scope_json'', JStr (dumps (oget ?q ''scope''))),
            (''scope_digest'', oget ?q ''scope_digest''), (''reason'', oget ?q ''reason''),
            (''options_json'', JStr (dumps (oget_or ?q ''options'' (JList [])))),
            (''evidence_refs_json'', JStr (dumps (oget_or ?q ''evidence_refs'' (JList [])))),
            (''risk'', oget ?q ''risk''), (''status'', oget ?q ''status''), (''requested_at'', oget ?q ''requested_at''),
            (''decided_at'', JNull), (''decided_by'', JNull), (''decision_reason'', JNull)]"
    have new: "approval_ok R (default_nulls approval_requests_t (fill_row approval_requests_t vs))" if "bind_all ?vals = Inr vs" for vs
    proof -
      have "default_nulls approval_requests_t (fill_row approval_requests_t vs) ''status'' = SText ''pending''"
        by (rule filled_text [OF that _ approval_cols(1)]) (simp_all add: scrub_oget s human txn_def del: bind_all_simps)
      moreover have "default_nulls approval_requests_t (fill_row approval_requests_t vs) ''requested_action'' = SText (rt_scrub R s)"
        by (rule filled_text [OF that _ approval_cols(2)]) (simp_all add: scrub_oget s txn_def del: bind_all_simps)
      ultimately show ?thesis by (auto simp: approval_ok_def)
    qed
    have "snd (apply_approval env d) = (if missing APPROVAL_FIELDS ?q then d else snd (insert_or_replace approval_requests_t ?vals d))"
      using 1 f by (simp add: apply_approval_def Let_def snd_bind_ret snd_st_ret del: bind_all_simps)
    then show ?thesis
      using rows rows_after_replace [where t = approval_requests_t and vals = ?vals and P = "approval_ok R" and d = d] new
      by (simp del: bind_all_simps)
  next
    case 2
    with g obtain s where s: "oget p ''actor'' = JStr ''human''" "oget p ''decision'' = JStr s"
      by (simp add: good_payload_def) blast
    let ?q = "scrub_payload R p"
    let ?sets = "[(''status'', oget ?q ''decision''), (''decided_at'', oget ?q ''decided_at''),
            (''decided_by'', oget ?q ''actor''), (''decision_reason'', oget ?q ''reason'')]"
    have new: "approval_ok R (set_cols approval_requests_t vs r)" if "bind_all ?sets = Inr vs" "approval_ok R r" for vs r
    proof -
      from that(1) obtain a b c where "vs = [(''status'', a), (''decided_at'', b), (''decided_by'', SText ''human''), (''decision_reason'', c)]"
        by (auto simp: scrub_oget s human split: sum.splits)
      with that(2) show ?thesis by (simp add: approval_ok_def)
    qed
    have "snd (apply_approval env d) = (if missing [''id'', ''decision'', ''actor'', ''reason'', ''decided_at''] ?q then d
        else snd (update_by approval_requests_t ?sets id ''id'' (oget ?q ''id'') d))"
      using 2 f by (simp add: apply_approval_def Let_def snd_bind_ret snd_st_ret del: bind_all_simps)
    then show ?thesis
      using rows rows_after_update [where t = approval_requests_t and sets = ?sets and P = "approval_ok R" and d = d and upd = id] new
      by (simp del: bind_all_simps)
  next
    case 3
    have new: "approval_ok R (set_cols approval_requests_t vs r)" if "bind_all [(''status'', JStr ''stale'')] = Inr vs" "approval_ok R r" for vs r
      using that by (auto simp: approval_ok_def)
    have "snd (apply_approval env d) = (if missing [''id''] (scrub_payload R p) then d
        else snd (update_by approval_requests_t [(''status'', JStr ''stale'')] id ''id'' (oget (scrub_payload R p) ''id'') d))"
      using 3 f by (simp add: apply_approval_def Let_def snd_bind_ret snd_st_ret del: bind_all_simps)
    then show ?thesis
      using rows rows_after_update [where t = approval_requests_t and sets = "[(''status'', JStr ''stale'')]"
          and P = "approval_ok R" and d = d and upd = id] new
      by (simp del: bind_all_simps)
  qed
qed

section \<open>Invariants of the services\<close>

definition preserves :: "(world \<Rightarrow> bool) \<Rightarrow> (world, 'a) st \<Rightarrow> bool" where
  "preserves I m \<longleftrightarrow> (\<forall>w. I w \<longrightarrow> I (snd (m w)))"

named_theorems preserving \<open>computations that preserve an invariant\<close>

lemma preserves_pure [preserving]:
  "preserves I (st_ret x)" "preserves I (st_raise e)" "preserves I (st_get f)" "preserves I (st_lift r)"
  by (simp_all add: preserves_def st_ret_def st_raise_def st_lift_def st_get_def)

lemma preserves_bind: "preserves I m \<Longrightarrow> (\<And>x. preserves I (f x)) \<Longrightarrow> preserves I (st_bind m f)"
  unfolding preserves_def st_bind_def by (auto split: prod.splits sum.splits)

lemma preserves_lift [preserving]: "(\<And>x. r = Inr x \<Longrightarrow> preserves I (f x)) \<Longrightarrow> preserves I (st_bind (st_lift r) f)"
  by (cases r) (auto simp: preserves_def st_bind_def st_lift_def)

lemma preserves_guard [preserving]: "(b \<Longrightarrow> preserves I (f ())) \<Longrightarrow> preserves I (st_bind (raise_unless b e) f)"
  by (auto simp: preserves_def st_bind_def raise_unless_def st_ret_def st_raise_def)

lemma preserves_option [preserving]:
  "preserves I g \<Longrightarrow> (\<And>s. preserves I (f s)) \<Longrightarrow> preserves I (case x of None \<Rightarrow> g | Some s \<Rightarrow> f s)"
  by (cases x) simp_all

lemma preserves_if [preserving]: "preserves I a \<Longrightarrow> preserves I b \<Longrightarrow> preserves I (if c then a else b)"
  by simp

lemma preserves_keeps: "keeps ''approval_requests'' m \<Longrightarrow> preserves (approvals_ok R) m"
  by (simp add: preserves_def keeps_def approvals_ok_def)

lemma preserves_emit:
  assumes "good_payload ty p" "keeps_words R" "starts_with ty ''approval.''"
  shows "preserves (approvals_ok R) (emit_as R K (approval_event ty actor i p))"
  unfolding preserves_def
proof (intro allI impI)
  fix w
  assume ok: "approvals_ok R w"
  let ?e = "approval_event ty actor i p"
  obtain r w1 where a: "append_event R (c_ts K) (c_eid K) ?e w = (r, w1)" by fastforce
  have ok1: "approvals_ok R w1"
    using append_event_tables [OF a, of "''approval_requests''"] ok by (simp add: approvals_ok_def)
  show "approvals_ok R (snd (emit_as R K ?e w))"
  proof (cases r)
    case (Inl x)
    with a ok1 show ?thesis by (simp add: emit_as_def emit_def st_bind_def)
  next
    case (Inr env)
    with a have ae: "append_event R (c_ts K) (c_eid K) ?e w = (Inr env, w1)" by simp
    have f: "oget env ''event_type'' = JStr ty" "payload_of env = scrub_payload R p"
      by (rule append_event_env [OF ae], simp add: oget_prepared approval_event_def event_def)+
    from approval_rows_apply [OF f assms(1,2)] ok1 have
      "\<forall>r \<in> set (snd (apply_event env (wdb w1)) ''approval_requests''). approval_ok R r"
      by (simp add: apply_event_approval(1) [OF f(1) assms(3)] approvals_ok_def)
    with ae show ?thesis
      by (auto simp: emit_as_def emit_def st_bind_def apply_on_def st_ret_def approvals_ok_def split: prod.splits sum.splits)
  qed
qed

lemma mk_request_pending: "mk_request R K q = Inr a \<Longrightarrow> ap_status a = Pending"
  by (auto simp: mk_request_def Let_def rbind_ok)

lemma preserves_request: "keeps_words R \<Longrightarrow> preserves (approvals_ok R) (request R K q)"
  unfolding request_def
  by (intro preserving preserves_bind preserves_emit)
     (auto dest!: mk_request_pending simp: good_payload_def request_payload_def oget_def)

lemma preserves_get: "preserves I (get_approval R i)"
  unfolding get_approval_def by (intro preserving preserves_bind)

lemma preserves_get_if: "preserves I (get_if R x)"
  unfolding get_if_def by (intro preserving preserves_bind preserves_get)

lemma preserves_find: "preserves I (find_latest_matching R g n k act scope)"
  unfolding find_latest_matching_def by (intro preserving preserves_bind preserves_get_if)

lemma preserves_assert_current: "keeps_words R \<Longrightarrow> preserves (approvals_ok R) (assert_current R K i scope)"
  unfolding assert_current_def assert_digest_def
  by (intro preserving preserves_bind preserves_get preserves_emit) (auto simp: good_payload_def)

lemma preserves_authorize: "keeps_words R \<Longrightarrow> preserves (approvals_ok R) (authorize R K F root a g n scope mode)"
  unfolding authorize_def consult_def Let_def
  by (intro preserving preserves_bind preserves_find preserves_request)

lemma preserves_approve_capability:
  "preserves (approvals_ok R) (case j of
     JStr cid \<Rightarrow> if cid = [] then st_ret () else opened (set_lifecycle R K2 cid ''approved'' ''human'')
   | j \<Rightarrow> if truthy j then st_raise (KeyError ''capability_id'') else st_ret ())"
proof (cases j)
  case (JStr cid)
  have "keeps ''approval_requests'' (opened (set_lifecycle R K2 cid ''approved'' ''human''))"
    by (intro keeps_opened keeps_set_lifecycle) simp
  with JStr preserves_keeps show ?thesis by (auto intro: preserving)
qed (simp_all add: preserving)

lemma preserves_decide: "keeps_words R \<Longrightarrow> preserves (approvals_ok R) (decide_human R K K2 i decision actor reason ak)"
  unfolding decide_human_def
  by (intro preserving preserves_bind preserves_get preserves_emit preserves_approve_capability)
     (auto simp: good_payload_def oget_def)

text \<open>Any interleaving of the services' calls, successful or not.\<close>

inductive approval_step :: "rt \<Rightarrow> world \<Rightarrow> world \<Rightarrow> bool" for R where
  request: "approval_step R w (snd (request R K q w))"
| decide: "approval_step R w (snd (decide_human R K K2 i decision actor reason ak w))"
| current: "approval_step R w (snd (assert_current R K i scope w))"
| authorize: "approval_step R w (snd (authorize R K F root a g n scope mode w))"
| lifecycle: "approval_step R w (snd (set_lifecycle R K cid target actor w))"
| reopen: "approval_step R w (open_log w)"

lemma step_preserves:
  assumes "approval_step R w w'" "keeps_words R" "approvals_ok R w"
  shows "approvals_ok R w'"
  using assms(1)
proof cases
  case lifecycle
  have "preserves (approvals_ok R) (set_lifecycle R K cid target actor)" for K cid target actor
    by (rule preserves_keeps [OF keeps_set_lifecycle]) simp
  with lifecycle assms(3) show ?thesis by (simp add: preserves_def)
next
  case reopen
  with assms(3) show ?thesis by (simp add: approvals_ok_def)
qed (use assms preserves_request preserves_decide preserves_assert_current preserves_authorize in \<open>auto simp: preserves_def\<close>)

lemma reach_preserves:
  "(approval_step R)\<^sup>*\<^sup>* w w' \<Longrightarrow> keeps_words R \<Longrightarrow> approvals_ok R w \<Longrightarrow> approvals_ok R w'"
  by (induction rule: rtranclp_induct) (auto intro: step_preserves)

text \<open>C9: whatever sequence of requests, decisions, staleness checks, authorisations and
  lifecycle changes runs, in any order and with any failures, a request that is approved
  (or rejected, deferred, sent back) was decided by the actor \<open>human\<close>; and a decision by
  any other actor, or under another actor kind, raises and changes nothing at all.\<close>

theorem only_humans_decide:
  assumes "(approval_step R)\<^sup>*\<^sup>* w0 w" "wdb w0 ''approval_requests'' = []" "keeps_words R"
  shows "(\<forall>r \<in> set (wdb w ''approval_requests''). r ''status'' \<notin> {SText ''pending'', SText ''stale''} \<longrightarrow> r ''decided_by'' = SText ''human'')
    \<and> (\<forall>actor ak. actor \<noteq> ''human'' \<or> ak \<notin> {None, Some ''human''} \<longrightarrow>
        decide_human R K K2 i decision actor reason ak w = (Inl (AuthorizationError ''human actor''), w))"
proof -
  from assms(2) have "approvals_ok R w0" by (simp add: approvals_ok_def)
  from reach_preserves [OF assms(1,3) this] have "approvals_ok R w" .
  then show ?thesis
    by (auto simp: approvals_ok_def approval_ok_def decide_human_def st_bind_def raise_unless_def st_raise_def)
qed

section \<open>What an approval authorises\<close>

lemma latest_max: "latest c rs = Some r \<Longrightarrow> r \<in> set rs \<and> (\<forall>x \<in> set rs. stext (x c) \<le> stext (r c))"
proof (induction rs arbitrary: r)
  case (Cons x rs)
  show ?case
  proof (cases "latest c rs")
    case None
    then have "rs = []" by (cases rs) (auto split: option.splits if_splits)
    with Cons.prems show ?thesis by simp
  next
    case (Some y)
    with Cons.IH [OF Some] Cons.prems show ?thesis by (auto split: if_splits intro: order_trans)
  qed
qed simp

lemma latest_None_iff: "latest c rs = None \<longleftrightarrow> rs = []"
  by (cases rs) (auto split: option.splits)

lemma get_approval_ok:
  assumes "get_approval R i w = (Inr a, w')"
  shows "w' = w" "\<exists>r. approval_row i (wdb w) = Some r \<and> approval_of_row R r = Inr a"
  using assms by (auto simp: get_approval_def st_bind_ok st_get_def st_lift_def st_raise_def split: option.splits)

lemma approval_of_row_status:
  "approval_of_row R r = Inr a \<Longrightarrow> stext (r ''status'') = status_value (ap_status a)"
proof -
  assume "approval_of_row R r = Inr a"
  then obtain s where "map_of APPROVAL_STATUSES (stext (r ''status'')) = Some s" "ap_status a = s"
    by (auto simp: approval_of_row_def rbind_ok enum_of_def split: option.splits)
  then show ?thesis by (auto simp: APPROVAL_STATUSES_def split: if_splits)
qed

lemma find_latest_ok:
  assumes "find_latest_matching R g n k act scope w = (Inr x, w')"
  shows "w' = w"
    and "x = Some p \<Longrightarrow> \<exists>r r'. r \<in> set (wdb w ''approval_requests'') \<and> matches_request g n k act (scope_digest R scope) r
      \<and> (\<forall>r2 \<in> set (wdb w ''approval_requests''). matches_request g n k act (scope_digest R scope) r2 \<longrightarrow>
            stext (r2 ''requested_at'') \<le> stext (r ''requested_at''))
      \<and> approval_row (stext (r ''id'')) (wdb w) = Some r' \<and> stext (r' ''status'') = status_value (ap_status p)"
    and "x = None \<Longrightarrow> \<not> list_ex (matches_request g n k act (scope_digest R scope)) (wdb w ''approval_requests'')"
proof -
  let ?l = "latest ''requested_at'' (filter (matches_request g n k act (scope_digest R scope)) (wdb w ''approval_requests''))"
  from assms have g: "get_if R ?l w = (Inr x, w')"
    by (auto simp: find_latest_matching_def st_bind_ok st_get_def)
  show "w' = w" using g get_approval_ok(1) by (fastforce simp: get_if_def st_bind_ok st_ret_def split: option.splits)
  show "\<not> list_ex (matches_request g n k act (scope_digest R scope)) (wdb w ''approval_requests'')" if "x = None"
    using g that by (auto simp: get_if_def st_bind_ok st_ret_def latest_None_iff filter_empty_conv list_ex_iff split: option.splits)
  show "\<exists>r r'. r \<in> set (wdb w ''approval_requests'') \<and> matches_request g n k act (scope_digest R scope) r
      \<and> (\<forall>r2 \<in> set (wdb w ''approval_requests''). matches_request g n k act (scope_digest R scope) r2 \<longrightarrow>
            stext (r2 ''requested_at'') \<le> stext (r ''requested_at''))
      \<and> approval_row (stext (r ''id'')) (wdb w) = Some r' \<and> stext (r' ''status'') = status_value (ap_status p)" if "x = Some p"
  proof (cases ?l)
    case None
    with g that show ?thesis by (simp add: get_if_def st_ret_def)
  next
    case (Some r)
    with g that have "get_approval R (stext (r ''id'')) w = (Inr p, w')"
      by (auto simp: get_if_def st_bind_ok st_ret_def)
    from get_approval_ok(2) [OF this] obtain r' where "approval_row (stext (r ''id'')) (wdb w) = Some r'"
      "approval_of_row R r' = Inr p" by blast
    with approval_of_row_status latest_max [OF Some] show ?thesis by auto
  qed
qed

lemma consult_ok:
  assumes "consult R K dec a act cur g n w = (Inr au, w')"
  obtains x w1 where "find_latest_matching R g n (Some (kind_value (a_kind a))) act cur w = (Inr x, w1)"
    "\<And>p. x = Some p \<Longrightarrow> au = prior_result dec p" "x = None \<Longrightarrow> au_verdict au = d_verdict dec"
proof -
  from assms obtain x w1 where f: "find_latest_matching R g n (Some (kind_value (a_kind a))) act cur w = (Inr x, w1)"
    and r: "(case x of
       None \<Rightarrow>
         st_bind (request R K (action_request a act cur g n (d_reason dec))) (\<lambda>req.
         st_ret (mk_auth (d_verdict dec) (d_reason dec) (d_layer dec) (Some (ap_id req))))
     | Some p \<Rightarrow> st_ret (prior_result dec p)) w1 = (Inr au, w')"
    by (auto simp: consult_def st_bind_ok)
  show thesis
    by (rule that [OF f]) (use r in \<open>auto simp: st_bind_ok st_ret_def mk_auth_def\<close>)
qed

lemma authorize_consults:
  assumes "authorize R K F root a g n scope mode w = (Inr au, w')" "stack_for F root = Inr stack"
    and "d_verdict (evaluate a stack mode) = RequireApproval"
  shows "consult R K (evaluate a stack mode) a (or_str (a_target a) (kind_value (a_kind a))) (scope_or_default a scope) g n w
    = (Inr au, w')"
  using assms by (simp add: authorize_def st_bind_def st_lift_def Let_def)

text \<open>What an allowed action satisfies.\<close>

lemma authorize_allowed:
  assumes "authorize R K F root a g n scope mode w = (Inr au, w')" "au_verdict au = Allow"
  shows "\<exists>stack. stack_for F root = Inr stack \<and> d_verdict (evaluate a stack mode) \<noteq> Deny
    \<and> (d_verdict (evaluate a stack mode) = RequireApproval \<longrightarrow>
        (\<exists>r r'. r \<in> set (wdb w ''approval_requests'')
          \<and> matches_request g n (Some (kind_value (a_kind a))) (or_str (a_target a) (kind_value (a_kind a)))
              (scope_digest R (scope_or_default a scope)) r
          \<and> (\<forall>r2 \<in> set (wdb w ''approval_requests''). matches_request g n (Some (kind_value (a_kind a)))
              (or_str (a_target a) (kind_value (a_kind a))) (scope_digest R (scope_or_default a scope)) r2 \<longrightarrow>
                stext (r2 ''requested_at'') \<le> stext (r ''requested_at''))
          \<and> approval_row (stext (r ''id'')) (wdb w) = Some r' \<and> stext (r' ''status'') = ''approved''))"
proof -
  let ?k = "Some (kind_value (a_kind a))" and ?act = "or_str (a_target a) (kind_value (a_kind a))"
  let ?cur = "scope_or_default a scope"
  from assms(1) obtain stack where s: "stack_for F root = Inr stack"
    by (auto simp: authorize_def st_bind_ok st_lift_def)
  show ?thesis
  proof (cases "d_verdict (evaluate a stack mode) = RequireApproval")
    case False
    with assms s have "d_verdict (evaluate a stack mode) = Allow"
      by (auto simp: authorize_def st_bind_ok st_lift_def st_ret_def Let_def mk_auth_def)
    with s show ?thesis by simp
  next
    case True
    show ?thesis
    proof (rule consult_ok [OF authorize_consults [OF assms(1) s True]])
      fix x w1
      assume f: "find_latest_matching R g n ?k ?act ?cur w = (Inr x, w1)"
        and some: "\<And>p. x = Some p \<Longrightarrow> au = prior_result (evaluate a stack mode) p"
        and no: "x = None \<Longrightarrow> au_verdict au = d_verdict (evaluate a stack mode)"
      from no assms(2) True obtain p where p: "x = Some p" by (cases x) auto
      with some [OF p] assms(2) True have "ap_status p = Approved"
        by (auto simp: prior_result_def mk_auth_def split: if_splits)
      with find_latest_ok(2) [OF f p] s True show ?thesis by (intro exI [of _ stack]) simp
    qed
  qed
qed

text \<open>C10: the policy service allows an action only when the policy allows it, or when the
  policy asks for approval and the latest request on record for exactly this graph, node,
  action kind, action and scope digest is approved; a deny of the policy is never lifted
  by an approval.\<close>

theorem authorize_allows_only_approved:
  assumes "authorize R K F root a g n scope mode w = (Inr au, w')" "au_verdict au = Allow"
  shows "\<exists>stack. stack_for F root = Inr stack \<and> d_verdict (evaluate a stack mode) \<noteq> Deny
    \<and> (d_verdict (evaluate a stack mode) = RequireApproval \<longrightarrow>
        (\<exists>r r'. r \<in> set (wdb w ''approval_requests'')
          \<and> matches_request g n (Some (kind_value (a_kind a))) (or_str (a_target a) (kind_value (a_kind a)))
              (scope_digest R (scope_or_default a scope)) r
          \<and> (\<forall>r2 \<in> set (wdb w ''approval_requests''). matches_request g n (Some (kind_value (a_kind a)))
              (or_str (a_target a) (kind_value (a_kind a))) (scope_digest R (scope_or_default a scope)) r2 \<longrightarrow>
                stext (r2 ''requested_at'') \<le> stext (r ''requested_at''))
          \<and> approval_row (stext (r ''id'')) (wdb w) = Some r' \<and> stext (r' ''status'') = ''approved''))"
  by (rule authorize_allowed [OF assms])

text \<open>an action whose text redaction changes can never be authorised where approval is
  required: the request is stored with the redacted action and looked up with the
  original one, so no decision is ever found, and each call writes a new request.\<close>

theorem redacted_action_never_authorised:
  assumes "(approval_step R)\<^sup>*\<^sup>* w0 w" "wdb w0 ''approval_requests'' = []" "keeps_words R"
    and "\<forall>s. rt_scrub R s \<noteq> or_str (a_target a) (kind_value (a_kind a))"
    and "stack_for F root = Inr stack" "d_verdict (evaluate a stack mode) = RequireApproval"
    and "authorize R K F root a g n scope mode w = (Inr au, w')"
  shows "au_verdict au = RequireApproval"
proof -
  let ?k = "Some (kind_value (a_kind a))" and ?act = "or_str (a_target a) (kind_value (a_kind a))"
  let ?cur = "scope_or_default a scope"
  have "approvals_ok R w" using reach_preserves [OF assms(1,3)] assms(2) by (simp add: approvals_ok_def)
  then have none: "\<not> matches_request g n ?k ?act dg r" if "r \<in> set (wdb w ''approval_requests'')" for r dg
    using that assms(4) by (auto simp: approvals_ok_def approval_ok_def matches_request_def)
  show ?thesis
  proof (rule consult_ok [OF authorize_consults [OF assms(7,5,6)]])
    fix x w1
    assume f: "find_latest_matching R g n ?k ?act ?cur w = (Inr x, w1)"
      and no: "x = None \<Longrightarrow> au_verdict au = d_verdict (evaluate a stack mode)"
    have "x = None"
      using find_latest_ok(2) [OF f] none by (cases x) blast+
    with no assms(6) show ?thesis by simp
  qed
qed

section \<open>A changed scope\<close>

lemma first_by_after_update:
  assumes "update_by approval_requests_t sets id ''id'' (JStr i) d = (Inr n, d')"
    and "bind_all sets = Inr vs" "''id'' \<notin> fst ` set vs"
  shows "approval_row i d' = map_option (set_cols approval_requests_t vs) (approval_row i d)"
proof -
  have d': "d' = d(tname approval_requests_t := map (\<lambda>r. if eq_val approval_requests_t ''id'' (SText i) r
        then set_cols approval_requests_t vs r else r) (d (tname approval_requests_t)))"
    by (rule update_by_ok [OF assms(1)]) (auto simp: assms(2) simp del: tname_simps)
  have u: "approval_row i d' = map_option (\<lambda>r. if eq_val approval_requests_t ''id'' (SText i) r
      then set_cols approval_requests_t vs r else r) (approval_row i d)"
    unfolding approval_row_def by (rule first_by_update [OF d']) (simp add: set_cols_other assms(3))
  show ?thesis
  proof (cases "approval_row i d")
    case (Some r)
    with first_by_key have "eq_val approval_requests_t ''id'' (SText i) r" by (simp add: approval_row_def)
    with u Some show ?thesis by simp
  qed (use u in simp)
qed

lemma emit_approval:
  assumes "emit_as R K (approval_event ty actor i p) w = (Inr env, w')" "starts_with ty ''approval.''"
  shows "oget env ''event_type'' = JStr ty" "payload_of env = scrub_payload R p"
    "\<exists>(w1::world) b. apply_approval env (wdb w1) = (Inr b, wdb w') \<and> (\<forall>q. q \<noteq> ''memory_events'' \<longrightarrow> wdb w1 q = wdb w q)"
    "q \<notin> {''memory_events'', ''approval_requests''} \<Longrightarrow> wdb w' q = wdb w q"
proof -
  from assms(1) obtain w1 x where a: "append_event R (c_ts K) (c_eid K) (approval_event ty actor i p) w = (Inr env, w1)"
    and ev: "apply_event env (wdb w1) = (Inr x, wdb w')"
    by (auto simp: emit_as_def emit_def st_bind_ok apply_on_ok st_ret_def)
  show f: "oget env ''event_type'' = JStr ty" "payload_of env = scrub_payload R p"
    by (rule append_event_env [OF a], simp add: oget_prepared approval_event_def event_def)+
  have "fst (apply_approval env (wdb w1)) \<noteq> Inl e" for e
    using apply_event_approval(2) [OF f(1) assms(2), of "wdb w1" e] ev by auto
  then obtain b where b: "apply_approval env (wdb w1) = (Inr b, wdb w')"
    using apply_event_approval(1) [OF f(1) assms(2), of "wdb w1"] ev
    by (cases "apply_approval env (wdb w1)"; cases "fst (apply_approval env (wdb w1))") auto
  show "\<exists>(w1::world) b. apply_approval env (wdb w1) = (Inr b, wdb w') \<and> (\<forall>q. q \<noteq> ''memory_events'' \<longrightarrow> wdb w1 q = wdb w q)"
    by (rule exI [of _ w1], rule exI [of _ b]) (use b append_event_tables [OF a] in simp)
  have t: "only_touches {''approval_requests''} (apply_approval env)"
    unfolding apply_approval_def insert_or_replace_def update_by_def Let_def by (intro touches) simp_all
  then show "wdb w' q = wdb w q" if "q \<notin> {''memory_events'', ''approval_requests''}"
  proof -
    from t that have "snd (apply_approval env (wdb w1)) q = wdb w1 q" by (simp add: only_touches_def)
    with that b append_event_tables [OF a, of q] show ?thesis by simp
  qed
qed

lemma assert_digest_ok:
  assumes "assert_digest R K i dg w = (Inr a, w')" "approval_row i (wdb w) = Some r"
    and "approval_of_row R r = Inr req" "rt_scrub R i = i"
  shows "dg = ap_digest req \<Longrightarrow> a = req \<and> w' = w"
    and "dg \<noteq> ap_digest req \<Longrightarrow> ap_status a = StaleApproval
        \<and> (\<exists>r'. approval_row i (wdb w') = Some r' \<and> r' ''status'' = SText ''stale'')"
    and "q \<notin> {''memory_events'', ''approval_requests''} \<Longrightarrow> wdb w' q = wdb w q"
proof -
  have g: "get_approval R i w = (Inr req, w)"
    by (simp add: get_approval_def st_bind_def st_get_def st_lift_def assms(2,3))
  show same: "a = req \<and> w' = w" if "dg = ap_digest req"
    using assms(1) that by (simp_all add: assert_digest_def st_bind_def g st_ret_def)
  let ?p = "[(''id'', JStr i), (''prior_digest'', JStr (ap_digest req)), (''current_digest'', JStr dg),
          (''reason'', JStr ''scope changed'')]"
  have emitted: "\<exists>env. emit_as R K (approval_event ''approval.staled'' ''system'' i ?p) w = (Inr env, w')
      \<and> get_approval R i w' = (Inr a, w')" if "dg \<noteq> ap_digest req"
  proof -
    from assms(1) that obtain env w1 where "emit_as R K (approval_event ''approval.staled'' ''system'' i ?p) w = (Inr env, w1)"
      "get_approval R i w1 = (Inr a, w')"
      by (auto simp: assert_digest_def st_bind_ok g)
    moreover from get_approval_ok(1) [OF this(2)] have "w' = w1" .
    ultimately show ?thesis by blast
  qed
  show "wdb w' q = wdb w q" if "q \<notin> {''memory_events'', ''approval_requests''}"
    using same emitted emit_approval(4) [OF _ _ that] by (cases "dg = ap_digest req") (auto simp: starts_with_iff)
  assume ne: "dg \<noteq> ap_digest req"
  from emitted [OF ne] obtain env where
    em: "emit_as R K (approval_event ''approval.staled'' ''system'' i ?p) w = (Inr env, w')"
    and ga: "get_approval R i w' = (Inr a, w')" by blast
  have st: "starts_with ''approval.staled'' ''approval.''" by simp
  note f = emit_approval(1,2) [OF em st]
  from emit_approval(3) [OF em st] obtain w1 :: world and b where ap: "apply_approval env (wdb w1) = (Inr b, wdb w')"
    and keep: "\<forall>q. q \<noteq> ''memory_events'' \<longrightarrow> wdb w1 q = wdb w q" by (elim exE conjE)
  have pid: "oget (scrub_payload R ?p) ''id'' = JStr i" by (simp add: scrub_oget) (simp add: oget_def assms(4))
  from ap obtain n where u: "update_by approval_requests_t [(''status'', JStr ''stale'')] id ''id'' (JStr i) (wdb w1) = (Inr n, wdb w')"
    by (auto simp: apply_approval_def f pid missing_def Let_def st_bind_ok st_ret_def)
  have "approval_row i (wdb w1) = Some r"
    using keep assms(2) by (simp add: approval_row_def first_by_def select_by_def)
  with first_by_after_update [OF u] have row: "approval_row i (wdb w') = Some (r(''status'' := SText ''stale''))" by simp
  from get_approval_ok(2) [OF ga] row have "status_value (ap_status a) = ''stale''"
    using approval_of_row_status by fastforce
  then have "ap_status a = StaleApproval" by (cases "ap_status a") auto
  with row show "ap_status a = StaleApproval \<and> (\<exists>r'. approval_row i (wdb w') = Some r' \<and> r' ''status'' = SText ''stale'')" by simp
qed

text \<open>presenting an approval for a scope whose digest is not the one of the stored
  scope takes the approval away: the call that returns returns a stale request, and the
  stored status is stale. For the stored scope itself nothing changes.\<close>

theorem changed_scope_stales:
  assumes "assert_current R K i scope w = (Inr a, w')" "approval_row i (wdb w) = Some r"
    and "approval_of_row R r = Inr req" "rt_scrub R i = i"
  shows "(scope_digest R scope = ap_digest req \<longrightarrow> a = req \<and> w' = w)
    \<and> (scope_digest R scope \<noteq> ap_digest req \<longrightarrow>
        ap_status a = StaleApproval \<and> (\<exists>r'. approval_row i (wdb w') = Some r' \<and> r' ''status'' = SText ''stale''))"
  using assert_digest_ok(1,2) [OF assms(1) [unfolded assert_current_def] assms(2-4)] by auto

text \<open>Approving a capability request approves whatever the capability is now: when the
  call returns, the capability its scope names was \<open>inspected\<close> and is \<open>approved\<close>, with
  the digest it has, which nothing compares with the digest in the approved scope.\<close>

theorem capability_approval_ignores_digest:
  assumes "decide_human R K K2 i ''approved'' ''human'' reason ak w = (Inr req, w')" "keeps_words R"
    and "ap_type req = CapabilityApproval" "oget (ap_scope req) ''capability_id'' = JStr cid" "cid \<noteq> []"
  shows "(\<exists>r. cap_get cid (wdb w) = Some r \<and> can_transition (stext (r ''lifecycle'')) ''approved'')
    \<and> cap_lifecycle cid (wdb w') = Some ''approved'' \<and> cap_digest cid (wdb w') = cap_digest cid (wdb w)"
proof -
  let ?e = "approval_event ''approval.decided'' ''human'' i
       [(''id'', JStr i), (''decision'', JStr (status_value Approved)), (''actor'', JStr ''human''),
        (''actor_kind'', jopt ak), (''reason'', JStr reason), (''decided_at'', JStr (c_now K))]"
  have ap: "enum_of APPROVAL_STATUSES ''approved'' = Inr Approved" by (simp add: enum_of_def APPROVAL_STATUSES_def)
  from assms(1) obtain a0 w0 env w1 w2 where
    g0: "get_approval R i w = (Inr a0, w0)" and
    em0: "emit_as R K ?e w0 = (Inr env, w1)" and
    g1: "get_approval R i w1 = (Inr req, w2)" and
    s0: "opened (set_lifecycle R K2 cid ''approved'' ''human'') w2 = (Inr (), w')"
    unfolding decide_human_def
    by (auto simp: st_bind_ok ap raise_unless_ok st_lift_def st_ret_def assms(3,4,5))
  from get_approval_ok(1) [OF g0] get_approval_ok(1) [OF g1] em0 s0
  have em: "emit_as R K ?e w = (Inr env, w1)"
    and s: "opened (set_lifecycle R K2 cid ''approved'' ''human'') w1 = (Inr (), w')" by simp_all
  have keep: "wdb w1 q = wdb w q" if "q \<noteq> ''memory_events''" "q \<noteq> ''approval_requests''" for q
    using emit_approval(4) [OF em, of q] that by simp
  have sc: "rt_scrub R ''approved'' = ''approved''" using assms(2) by (simp add: keeps_words_def)
  from s have "set_lifecycle R K2 cid ''approved'' ''human'' (open_log w1) = (Inr (), w')" by (simp add: opened_ok)
  then show ?thesis
    by (rule set_lifecycle_ok [OF _ sc])
       (use keep [of "''capabilities''"] in \<open>simp add: cap_lifecycle_def cap_digest_def cap_get_def first_by_def select_by_def\<close>)
qed

end
