(* ===== verification/Approval_Examples.thy ===== *)
theory Approval_Examples
  imports Approval_Props
begin

text \<open>
  The approval properties at concrete inputs: a push that the project policy allows but
  whose kind always needs a human, and a capability waiting for its approval.
\<close>

definition push0 :: action where
  "push0 = \<lparr>a_kind = Push, a_target = ''origin'', a_context = []\<rparr>"

definition push_files :: files where
  "push_files = [workspace_file ''/p'' [''policy'', ''defaults.json''] \<mapsto>
     dumps (JObj [(''allow'', JList [JStr (kind_value Push)])])]"

definition push_scope :: obj where
  "push_scope = scope_or_default push0 None"

definition push_row :: "approval_type \<Rightarrow> obj \<Rightarrow> approval_status \<Rightarrow> row" where
  "push_row ty scope st' = (\<lambda>_. SNull)(''id'' := SText ''a'', ''approval_type'' := SText (type_value ty),
     ''action_kind'' := SText (kind_value Push), ''requested_action'' := SText ''origin'',
     ''scope_json'' := SText (dumps (JObj scope)), ''scope_digest'' := SText (scope_digest rt0 scope),
     ''reason'' := SText ''why'', ''options_json'' := SText ''[]'', ''evidence_refs_json'' := SText ''[]'',
     ''risk'' := SText ''high'', ''status'' := SText (status_value st'), ''requested_at'' := SText ''2025-03-04'')"

definition push_world :: "approval_type \<Rightarrow> obj \<Rightarrow> approval_status \<Rightarrow> world" where
  "push_world ty scope st' = world0\<lparr>wdb := (\<lambda>_. [])(''approval_requests'' := [push_row ty scope st'])\<rparr>"


lemma keeps_words0: "keeps_words rt0"
  by (simp add: keeps_words_def rt0_def)

lemma push_ask_reached: "(approval_step rt0)\<^sup>*\<^sup>* world0 (snd (request rt0 clock0 (action_request push0 ''origin'' push_scope None None ''why'') world0))"
  by (rule r_into_rtranclp, rule approval_step.request)

lemma only_humans_decide_witness:
  "fst (decide_human rt0 clock0 clock0 ''apr_u'' ''approved'' ''bot'' ''ok'' None
     (snd (request rt0 clock0 (action_request push0 ''origin'' push_scope None None ''why'') world0)))
   = Inl (AuthorizationError ''human actor'')"
  using only_humans_decide [OF push_ask_reached _ keeps_words0] by (simp add: world0_def)

lemma push_allowed:
  "map_sum id au_verdict (fst (authorize rt0 clock0 push_files ''/p'' push0 None None None PolicyBound
     (push_world ActionApproval push_scope Approved))) = Inr Allow"
  by code_simp

lemma authorize_allows_only_approved_witness:
  "\<exists>stack. stack_for push_files ''/p'' = Inr stack \<and> d_verdict (evaluate push0 stack PolicyBound) \<noteq> Deny"
proof -
  let ?m = "authorize rt0 clock0 push_files ''/p'' push0 None None None PolicyBound (push_world ActionApproval push_scope Approved)"
  obtain au w' where m: "?m = (Inr au, w')" and "au_verdict au = Allow"
    using push_allowed by (cases ?m; cases "fst ?m") auto
  from authorize_allows_only_approved [OF this] show ?thesis by blast
qed

definition rt_redacting :: rt where
  "rt_redacting = rt0\<lparr>rt_scrub := (\<lambda>s. if s = ''origin'' then ''[R]'' else s)\<rparr>"

lemma redacting: "keeps_words rt_redacting" "\<forall>s. rt_scrub rt_redacting s \<noteq> or_str (a_target push0) (kind_value (a_kind push0))"
  by (simp_all add: keeps_words_def rt_redacting_def rt0_def push0_def or_str_def LIFECYCLE_STATES_def)

lemma push_policy:
  "map_sum id (\<lambda>st'. d_verdict (evaluate push0 st' PolicyBound)) (stack_for push_files ''/p'') = Inr RequireApproval"
  by code_simp

lemma push_redacted_runs:
  "\<not> isl (fst (authorize rt_redacting clock0 push_files ''/p'' push0 None None None PolicyBound world0))"
  by code_simp

lemma redacted_action_never_authorised_witness:
  "\<exists>au w'. authorize rt_redacting clock0 push_files ''/p'' push0 None None None PolicyBound world0 = (Inr au, w')
     \<and> au_verdict au = RequireApproval"
proof -
  obtain st' where s: "stack_for push_files ''/p'' = Inr st'" "d_verdict (evaluate push0 st' PolicyBound) = RequireApproval"
    using push_policy by (cases "stack_for push_files ''/p''") auto
  have "wdb world0 ''approval_requests'' = []" by (simp add: world0_def)
  from redacted_action_never_authorised [OF rtranclp.rtrancl_refl this redacting s outcome [OF push_redacted_runs]]
    outcome [OF push_redacted_runs] show ?thesis by blast
qed

lemma push_staled_runs:
  "\<not> isl (fst (assert_current rt0 clock0 ''a'' [] (push_world ActionApproval push_scope Approved)))"
  by code_simp

lemma push_row_runs:
  "map_sum id ap_digest (approval_of_row rt0 (push_row ActionApproval push_scope Approved)) = Inr ''sha256:32''"
  by code_simp

lemma changed_scope_stales_witness:
  "\<exists>a w' r'. assert_current rt0 clock0 ''a'' [] (push_world ActionApproval push_scope Approved) = (Inr a, w')
     \<and> approval_row ''a'' (wdb w') = Some r' \<and> r' ''status'' = SText ''stale''"
proof -
  obtain req where r: "approval_of_row rt0 (push_row ActionApproval push_scope Approved) = Inr req" "ap_digest req = ''sha256:32''"
    using push_row_runs by (cases "approval_of_row rt0 (push_row ActionApproval push_scope Approved)") auto
  have row: "approval_row ''a'' (wdb (push_world ActionApproval push_scope Approved)) = Some (push_row ActionApproval push_scope Approved)"
    by (simp add: push_world_def approval_row_def first_by_def select_by_def eq_val_def push_row_def)
  have "scope_digest rt0 [] \<noteq> ''sha256:32''" by code_simp
  with changed_scope_stales [OF outcome [OF push_staled_runs] row r(1)] r(2) outcome [OF push_staled_runs]
  show ?thesis by (simp add: rt0_def) blast
qed

definition tool_scope :: obj where
  "tool_scope = [(''capability_id'', JStr ''t''), (''digest'', JStr ''sha256:old'')]"

definition tool_ask_world :: world where
  "tool_ask_world = world0\<lparr>wdb := (wdb (tool_world ''inspected''))(''approval_requests'' := [push_row CapabilityApproval tool_scope Pending])\<rparr>"

lemma tool_approve_runs:
  "map_sum id (\<lambda>a. (ap_type a, oget (ap_scope a) ''capability_id''))
     (fst (decide_human rt0 clock0 clock0 ''a'' ''approved'' ''human'' ''ok'' None tool_ask_world))
   = Inr (CapabilityApproval, JStr ''t'')"
  by code_simp

lemma capability_approval_ignores_digest_witness:
  "\<exists>req w'. decide_human rt0 clock0 clock0 ''a'' ''approved'' ''human'' ''ok'' None tool_ask_world = (Inr req, w')
     \<and> cap_lifecycle ''t'' (wdb w') = Some ''approved''"
proof -
  let ?m = "decide_human rt0 clock0 clock0 ''a'' ''approved'' ''human'' ''ok'' None tool_ask_world"
  obtain req w' where m: "?m = (Inr req, w')" and t: "ap_type req = CapabilityApproval"
    "oget (ap_scope req) ''capability_id'' = JStr ''t''"
    using tool_approve_runs by (cases ?m; cases "fst ?m") auto
  from capability_approval_ignores_digest [OF m keeps_words0 t] m show ?thesis by simp
qed

end
