(* ===== verification/Graphs.thy ===== *)
theory Graphs
  imports Tables
begin

text \<open>
  The Work Graph: its data types (\<open>work/schema.py\<close>), the compiler that checks a
  specification (\<open>work/compiler.py\<close>) with its iterative cycle search, and the readiness
  calculation (\<open>work/readiness.py\<close>).
\<close>

section \<open>Data types\<close>

datatype node_kind = Task | DecisionNode | ApprovalNode | ReviewNode

datatype graph_status = GDraft | GReady | GRunning | GPaused | GCompleted | GFailed | GCancelled

datatype node_status = NPending | NReady | NRunning | NBlocked | NCompleted | NFailed | NSkipped

definition NODE_KINDS :: "(string \<times> node_kind) list" where
  "NODE_KINDS = [(''task'', Task), (''decision'', DecisionNode), (''approval'', ApprovalNode), (''review'', ReviewNode)]"

definition GRAPH_STATUSES :: "(string \<times> graph_status) list" where
  "GRAPH_STATUSES = [(''draft'', GDraft), (''ready'', GReady), (''running'', GRunning), (''paused'', GPaused),
     (''completed'', GCompleted), (''failed'', GFailed), (''cancelled'', GCancelled)]"

definition NODE_STATUSES :: "(string \<times> node_status) list" where
  "NODE_STATUSES = [(''pending'', NPending), (''ready'', NReady), (''running'', NRunning), (''blocked'', NBlocked),
     (''completed'', NCompleted), (''failed'', NFailed), (''skipped'', NSkipped)]"

fun node_kind_value :: "node_kind \<Rightarrow> string" where
  "node_kind_value Task = ''task''"
| "node_kind_value DecisionNode = ''decision''"
| "node_kind_value ApprovalNode = ''approval''"
| "node_kind_value ReviewNode = ''review''"

fun graph_status_value :: "graph_status \<Rightarrow> string" where
  "graph_status_value GDraft = ''draft''"
| "graph_status_value GReady = ''ready''"
| "graph_status_value GRunning = ''running''"
| "graph_status_value GPaused = ''paused''"
| "graph_status_value GCompleted = ''completed''"
| "graph_status_value GFailed = ''failed''"
| "graph_status_value GCancelled = ''cancelled''"

fun node_status_value :: "node_status \<Rightarrow> string" where
  "node_status_value NPending = ''pending''"
| "node_status_value NReady = ''ready''"
| "node_status_value NRunning = ''running''"
| "node_status_value NBlocked = ''blocked''"
| "node_status_value NCompleted = ''completed''"
| "node_status_value NFailed = ''failed''"
| "node_status_value NSkipped = ''skipped''"

text \<open>\<open>_coerce_enum\<close>, \<open>_require_text\<close>\<close>

definition coerce_enum :: "(string \<times> 'a) list \<Rightarrow> json \<Rightarrow> exn + 'a" where
  "coerce_enum E j = (case j of
     JStr s \<Rightarrow> (case map_of E s of None \<Rightarrow> Inl (ValueError s) | Some x \<Rightarrow> Inr x)
   | _ \<Rightarrow> Inl (ValueError ''unknown''))"

definition require_text :: "json \<Rightarrow> exn + string" where
  "require_text j = (case j of
     JStr s \<Rightarrow> if strip s \<noteq> [] then Inr s else Inl (ValueError ''non-empty string'')
   | _ \<Rightarrow> Inl (ValueError ''non-empty string''))"

text \<open>
  \<open>v < 0\<close> and \<open>v < 1\<close> for a JSON value: a float is compared by its \<open>repr\<close>.
\<close>

fun below_zero :: "json \<Rightarrow> exn + bool" where
  "below_zero (JInt i) = Inr (i < 0)"
| "below_zero (JBool b) = Inr False"
| "below_zero (JFloat s) = Inr (starts_with s ''-'' \<and> s \<noteq> ''-0.0'')"
| "below_zero _ = Inl (TypeError ''comparison'')"

fun below_one :: "json \<Rightarrow> exn + bool" where
  "below_one (JInt i) = Inr (i < 1)"
| "below_one (JBool b) = Inr (\<not> b)"
| "below_one (JFloat s) = Inr (starts_with s ''-'' \<or> starts_with s ''0.'' \<or> contains s ''e-'')"
| "below_one _ = Inl (TypeError ''comparison'')"

record retry_policy =
  rp_max :: json
  rp_backoff :: json

definition mk_retry :: "json \<Rightarrow> json \<Rightarrow> exn + retry_policy" where
  "mk_retry m b =
     rbind (below_one m) (\<lambda>lt.
     rbind (rguard (\<not> lt) (ValueError ''max_attempts'')) (\<lambda>_.
     rbind (below_zero b) (\<lambda>neg.
     rbind (rguard (\<not> neg) (ValueError ''backoff_s'')) (\<lambda>_.
     Inr \<lparr>rp_max = m, rp_backoff = b\<rparr>))))"

record placement =
  pl_mode :: string
  pl_node :: json

definition mk_placement :: "json \<Rightarrow> json \<Rightarrow> exn + placement" where
  "mk_placement mode n =
     (if mode = JStr ''node'' then
        (if truthy n then Inr \<lparr>pl_mode = ''node'', pl_node = n\<rparr> else Inl (ValueError ''node placement requires node_id''))
      else if mode = JStr ''local'' then
        (if n = JNull then Inr \<lparr>pl_mode = ''local'', pl_node = JNull\<rparr> else Inl (ValueError ''local placement''))
      else Inl (ValueError ''unsupported placement mode''))"

text \<open>\<open>C(**raw)\<close>: a keyword the class does not have raises.\<close>

definition kwargs :: "string list \<Rightarrow> json \<Rightarrow> exn + obj" where
  "kwargs ks j = (case j of
     JObj o' \<Rightarrow> if list_all (\<lambda>p. fst p \<in> set ks) o' then Inr o' else Inl (TypeError ''unexpected keyword'')
   | _ \<Rightarrow> Inl (TypeError ''mapping''))"

definition retry_of :: "json \<Rightarrow> exn + retry_policy" where
  "retry_of j = rbind (kwargs [''max_attempts'', ''backoff_s''] j) (\<lambda>o'.
     mk_retry (oget_or o' ''max_attempts'' (JInt 1)) (oget_or o' ''backoff_s'' (JFloat ''0.0'')))"

definition placement_of :: "json \<Rightarrow> exn + placement" where
  "placement_of j = rbind (kwargs [''mode'', ''node_id''] j) (\<lambda>o'.
     mk_placement (oget_or o' ''mode'' (JStr ''local'')) (oget o' ''node_id''))"

record work_node =
  wn_id :: string
  wn_graph :: string
  wn_kind :: node_kind
  wn_objective :: string
  wn_requires :: "json list"
  wn_risk :: json
  wn_approval :: bool
  wn_review :: bool
  wn_evidence :: bool
  wn_outputs :: "json list"
  wn_retry :: retry_policy
  wn_placement :: placement
  wn_metadata :: obj

record work_edge =
  we_graph :: string
  we_src :: string
  we_dst :: string

record work_graph =
  wg_id :: string
  wg_objective :: string
  wg_nodes :: "work_node list"
  wg_edges :: "work_edge list"
  wg_constraints :: "json list"
  wg_success :: "json list"
  wg_status :: graph_status
  wg_version :: int
  wg_metadata :: obj

definition mk_edge :: "json \<Rightarrow> json \<Rightarrow> json \<Rightarrow> exn + work_edge" where
  "mk_edge g s t =
     rbind (require_text g) (\<lambda>g'. rbind (require_text s) (\<lambda>s'. rbind (require_text t) (\<lambda>t'.
     rbind (rguard (s' \<noteq> t') (ValueError ''self-edge'')) (\<lambda>_.
     Inr \<lparr>we_graph = g', we_src = s', we_dst = t'\<rparr>))))"

text \<open>\<open>WorkGraph.__post_init__\<close>\<close>

definition mk_graph :: "json \<Rightarrow> json \<Rightarrow> work_node list \<Rightarrow> work_edge list \<Rightarrow> json list \<Rightarrow> json list
    \<Rightarrow> json \<Rightarrow> int \<Rightarrow> obj \<Rightarrow> exn + work_graph" where
  "mk_graph i ob ns es cs sc st' v md =
     rbind (require_text i) (\<lambda>i'.
     rbind (require_text ob) (\<lambda>ob'.
     rbind (rguard (1 \<le> v) (ValueError ''graph version'')) (\<lambda>_.
     rbind (coerce_enum GRAPH_STATUSES st') (\<lambda>s.
     rbind (rguard (list_all (\<lambda>n. wn_graph n = i') ns) (ValueError ''node belongs to graph'')) (\<lambda>_.
     rbind (rguard (list_all (\<lambda>e. we_graph e = i') es) (ValueError ''edge belongs to graph'')) (\<lambda>_.
     Inr \<lparr>wg_id = i', wg_objective = ob', wg_nodes = ns, wg_edges = es, wg_constraints = cs,
       wg_success = sc, wg_status = s, wg_version = v, wg_metadata = md\<rparr>))))))"


section \<open>Rejecting cycles\<close>

type_synonym adjacency = "(string \<times> string list) list"

text \<open>\<open>outgoing[x]\<close>\<close>

definition children :: "adjacency \<Rightarrow> string \<Rightarrow> string list" where
  "children out x = (case map_of out x of None \<Rightarrow> [] | Some cs \<Rightarrow> cs)"

text \<open>
  The inner loop: the stack of open nodes, each with the children its iterator has
  left, the nodes on the stack (\<open>visiting\<close>) and the finished ones (\<open>visited\<close>). A child
  that is no key of \<open>outgoing\<close> raises a \<open>KeyError\<close>.
\<close>

function (sequential) dfs :: "adjacency \<Rightarrow> (string \<times> string list) list \<Rightarrow> string set \<Rightarrow> string set
    \<Rightarrow> exn + string set \<times> string set" where
  "dfs out [] visiting visited = Inr (visiting, visited)"
| "dfs out ((n, []) # stack) visiting visited = dfs out stack (visiting - {n}) (insert n visited)"
| "dfs out ((n, c # cs) # stack) visiting visited =
     (if c \<in> visiting then Inl (WorkGraphError ''graph contains a cycle'')
      else if c \<in> visited then dfs out ((n, cs) # stack) visiting visited
      else if map_of out c = None then Inl (KeyError c)
      else dfs out ((c, children out c) # (n, cs) # stack) (insert c visiting) visited)"
  by pat_completeness auto

lemma unseen_psubset:
  assumes "map_of out c = Some y" "c \<notin> A" "c \<notin> B"
  shows "card (fst ` set out - (insert c A \<union> B)) < card (fst ` set out - (A \<union> B))"
proof (rule psubset_card_mono)
  have "c \<in> fst ` set out" using assms(1) by (auto dest: map_of_SomeD intro: rev_image_eqI)
  with assms(2,3) show "fst ` set out - (insert c A \<union> B) \<subset> fst ` set out - (A \<union> B)" by blast
qed simp

termination dfs
proof (relation "measures [\<lambda>(out, _, A, B). card (fst ` set out - (A \<union> B)),
    \<lambda>(_, stack, _, _). sum_list (map (\<lambda>(_, cs). Suc (length cs)) stack)]")
  fix out :: adjacency and n and stack :: adjacency and A B :: "string set"
  have "card (fst ` set out - (A - {n} \<union> insert n B)) \<le> card (fst ` set out - (A \<union> B))"
    by (rule card_mono) auto
  then show "((out, stack, A - {n}, insert n B), out, (n, []) # stack, A, B)
    \<in> measures [\<lambda>(out, _, A, B). card (fst ` set out - (A \<union> B)),
        \<lambda>(_, stack, _, _). sum_list (map (\<lambda>(_, cs). Suc (length cs)) stack)]"
    by auto
qed (use unseen_psubset in \<open>auto simp del: Un_insert_left\<close>)

fun dfs_roots :: "adjacency \<Rightarrow> string list \<Rightarrow> string set \<Rightarrow> string set \<Rightarrow> exn + unit" where
  "dfs_roots out [] visiting visited = Inr ()"
| "dfs_roots out (r # rs) visiting visited =
     (if r \<in> visited then dfs_roots out rs visiting visited
      else rbind (dfs out [(r, children out r)] (insert r visiting) visited) (\<lambda>(vg, vd).
        dfs_roots out rs vg vd))"


section \<open>The compiler\<close>

text \<open>\<open>except (TypeError, ValueError) as exc: raise WorkGraphError\<close>\<close>

definition as_graph_error :: "exn + 'a \<Rightarrow> exn + 'a" where
  "as_graph_error r = (case r of
     Inl (ValueError s) \<Rightarrow> Inl (WorkGraphError s) | Inl (TypeError s) \<Rightarrow> Inl (WorkGraphError s) | _ \<Rightarrow> r)"

text \<open>\<open>dict(v)\<close>: a mapping, or an iterable of pairs with text keys.\<close>

fun as_pair :: "json \<Rightarrow> exn + (string \<times> json)" where
  "as_pair (JList [JStr k, v]) = Inr (k, v)"
| "as_pair (JStr [a, b]) = Inr ([a], JStr [b])"
| "as_pair (JObj [(k, _), (k', _)]) = Inr (k, JStr k')"
| "as_pair _ = Inl (TypeError ''dict update sequence'')"

definition dict_of :: "json \<Rightarrow> exn + obj" where
  "dict_of j = (case j of
     JObj o' \<Rightarrow> Inr o'
   | _ \<Rightarrow> rbind (jiter j) (\<lambda>xs. rbind (rmap as_pair xs) (\<lambda>ps. Inr (fold (\<lambda>(k, v) acc. oput acc k v) ps []))))"

definition mk_node :: "json \<Rightarrow> obj \<Rightarrow> exn + work_node" where
  "mk_node gid raw =
     rbind (dict_of (oget_or raw ''metadata'' (JObj []))) (\<lambda>md.
     rbind (rguard (\<not> ohas md ''placement'') (ValueError ''node placement'')) (\<lambda>_.
     rbind (retry_of (oget_or raw ''retry'' (JObj []))) (\<lambda>rp.
     rbind (placement_of (oget_or raw ''placement'' (JObj []))) (\<lambda>pl.
     rbind (jiter (oget_or raw ''requires'' (JList []))) (\<lambda>rq.
     rbind (jiter (oget_or raw ''expected_outputs'' (JList []))) (\<lambda>eo.
     rbind (require_text (oget_or raw ''id'' (JStr []))) (\<lambda>i.
     rbind (require_text gid) (\<lambda>g.
     rbind (require_text (oget_or raw ''objective'' (JStr []))) (\<lambda>ob.
     rbind (coerce_enum NODE_KINDS (oget_or raw ''kind'' (JStr ''task''))) (\<lambda>k.
     Inr \<lparr>wn_id = i, wn_graph = g, wn_kind = k, wn_objective = ob, wn_requires = rq,
       wn_risk = oget_or raw ''risk'' (JStr ''low''), wn_approval = truthy (oget raw ''approval_required''),
       wn_review = truthy (oget raw ''independent_review''), wn_evidence = truthy (oget raw ''evidence_required''),
       wn_outputs = eo, wn_retry = rp, wn_placement = pl, wn_metadata = md\<rparr>))))))))))"

definition compile_node :: "json \<Rightarrow> json \<Rightarrow> exn + work_node" where
  "compile_node gid raw = (case raw of
     JObj o' \<Rightarrow>
       rbind (as_graph_error (mk_node gid o')) (\<lambda>n.
       if wn_kind n = ApprovalNode \<and> \<not> wn_approval n then Inl (WorkGraphError ''approval_required'') else Inr n)
   | _ \<Rightarrow> Inl (WorkGraphError ''node must be a dict''))"

definition compile_edge :: "json \<Rightarrow> json \<Rightarrow> exn + work_edge" where
  "compile_edge gid raw = (case raw of
     JObj o' \<Rightarrow> as_graph_error (mk_edge gid
       (oget_or o' ''from'' (oget_or o' ''src_id'' (JStr []))) (oget_or o' ''to'' (oget_or o' ''dst_id'' (JStr []))))
   | _ \<Rightarrow> Inl (WorkGraphError ''edge must be a dict''))"

text \<open>The nodes in the order of the specification, without duplicates.\<close>

fun compile_nodes :: "json \<Rightarrow> string list \<Rightarrow> json list \<Rightarrow> exn + work_node list" where
  "compile_nodes gid seen [] = Inr []"
| "compile_nodes gid seen (raw # raws) =
     rbind (compile_node gid raw) (\<lambda>n.
     if wn_id n \<in> set seen then Inl (WorkGraphError ''duplicate node id'')
     else rbind (compile_nodes gid (wn_id n # seen) raws) (\<lambda>ns. Inr (n # ns)))"

definition edge_key :: "work_edge \<Rightarrow> string list" where
  "edge_key e = [we_src e, we_dst e]"

definition unknown_end :: "string list \<Rightarrow> work_edge \<Rightarrow> bool" where
  "unknown_end ids e = (we_src e \<notin> set ids \<or> we_dst e \<notin> set ids)"

text \<open>\<open>outgoing[src].append(dst)\<close> for every edge, over a dictionary of the node ids.\<close>

definition outgoing_of :: "string list \<Rightarrow> work_edge list \<Rightarrow> adjacency" where
  "outgoing_of ids es = map (\<lambda>i. (i, map we_dst (filter (\<lambda>e. we_src e = i) es))) ids"

definition reject_cycles :: "string list \<Rightarrow> work_edge list \<Rightarrow> exn + unit" where
  "reject_cycles ids es =
     (case find (\<lambda>e. we_src e \<notin> set ids) es of
        Some e \<Rightarrow> Inl (KeyError (we_src e))
      | None \<Rightarrow> dfs_roots (outgoing_of ids es) (sort ids) {} {})"

definition compile_work_graph :: "json \<Rightarrow> exn + work_graph" where
  "compile_work_graph spec = (case spec of
     JObj raw \<Rightarrow>
       (let gid = oget_or raw ''id'' (JStr []) in
        case oget raw ''nodes'' of
          JList (r # rs) \<Rightarrow>
            rbind (compile_nodes gid [] (r # rs)) (\<lambda>ns.
            rbind (jiter (oget_or raw ''edges'' (JList []))) (\<lambda>raw_edges.
            rbind (rmap (compile_edge gid) raw_edges) (\<lambda>es0.
            let es = sort_key edge_key es0; ids = map wn_id ns in
            if list_ex (unknown_end ids) es then Inl (WorkGraphError ''edge references unknown node'')
            else rbind (reject_cycles ids es) (\<lambda>_.
              as_graph_error
                (rbind (jiter (oget_or raw ''constraints'' (JList []))) (\<lambda>cs.
                 rbind (jiter (oget_or raw ''success_criteria'' (JList []))) (\<lambda>sc.
                 rbind (py_int (oget_or raw ''version'' (JInt 1))) (\<lambda>v.
                 rbind (dict_of (oget_or raw ''metadata'' (JObj []))) (\<lambda>md.
                 mk_graph gid (oget_or raw ''objective'' (JStr [])) (sort_key wn_id ns) es cs sc
                   (oget_or raw ''status'' (JStr ''draft'')) v md)))))))))
        | _ \<Rightarrow> Inl (WorkGraphError ''spec.nodes must be a non-empty list''))
   | _ \<Rightarrow> Inl (WorkGraphError ''spec must be a dict''))"

section \<open>Readiness\<close>

definition predecessors :: "work_graph \<Rightarrow> string \<Rightarrow> string list" where
  "predecessors g i = map we_src (filter (\<lambda>e. we_dst e = i) (wg_edges g))"

definition READY_PREDECESSORS :: "string set" where
  "READY_PREDECESSORS = {''completed'', ''skipped''}"

definition status_of :: "(string \<times> string) list \<Rightarrow> string \<Rightarrow> string" where
  "status_of sts i = (case map_of sts i of None \<Rightarrow> ''pending'' | Some s \<Rightarrow> s)"

definition preds_done :: "work_graph \<Rightarrow> (string \<times> string) list \<Rightarrow> string \<Rightarrow> bool" where
  "preds_done g sts i = list_all (\<lambda>p. \<exists>s \<in> READY_PREDECESSORS. map_of sts p = Some s) (predecessors g i)"

text \<open>
  \<open>nodes_by_id\<close> keeps the last node of an id; a key of \<open>predecessors\<close> an edge does not find
  raises.
\<close>

definition node_by_id :: "work_graph \<Rightarrow> string \<Rightarrow> work_node option" where
  "node_by_id g i = find (\<lambda>n. wn_id n = i) (rev (wg_nodes g))"

definition ready_nodes :: "(work_node \<Rightarrow> bool) \<Rightarrow> work_graph \<Rightarrow> (string \<times> string) list \<Rightarrow> string list" where
  "ready_nodes p g sts =
     filter (\<lambda>i. status_of sts i = ''pending'' \<and> (case node_by_id g i of None \<Rightarrow> False | Some n \<Rightarrow> p n)
         \<and> preds_done g sts i)
       (sort (remdups (map wn_id (wg_nodes g))))"

definition ready_node_ids :: "work_graph \<Rightarrow> (string \<times> string) list \<Rightarrow> exn + string list" where
  "ready_node_ids g sts =
     (case find (\<lambda>e. we_dst e \<notin> set (map wn_id (wg_nodes g))) (wg_edges g) of
        Some e \<Rightarrow> Inl (KeyError (we_dst e))
      | None \<Rightarrow> Inr (ready_nodes (\<lambda>n. wn_kind n \<noteq> ApprovalNode) g sts))"

text \<open>\<open>WorkStore.ready_node_ids\<close> adds the approval nodes.\<close>

definition ready_approvals :: "work_graph \<Rightarrow> (string \<times> string) list \<Rightarrow> string list" where
  "ready_approvals g sts = map wn_id (filter (\<lambda>n. wn_kind n = ApprovalNode
     \<and> status_of sts (wn_id n) = ''pending'' \<and> preds_done g sts (wn_id n)) (wg_nodes g))"

definition ready_with_approvals :: "work_graph \<Rightarrow> (string \<times> string) list \<Rightarrow> exn + string list" where
  "ready_with_approvals g sts =
     rbind (ready_node_ids g sts) (\<lambda>r. Inr (sort (remdups (r @ ready_approvals g sts))))"

section \<open>The search decides acyclicity\<close>

definition arcs :: "adjacency \<Rightarrow> (string \<times> string) set" where
  "arcs out = {(a, b). b \<in> set (children out a)}"

text \<open>The open nodes form a path, the deepest first.\<close>

fun linked :: "adjacency \<Rightarrow> (string \<times> string list) list \<Rightarrow> bool" where
  "linked out [] = True"
| "linked out [p] = True"
| "linked out (p # q # ps) = ((fst q, fst p) \<in> arcs out \<and> linked out (q # ps))"

text \<open>Every child of an open node is still to come, finished, or the next open node.\<close>

fun pending_ok :: "adjacency \<Rightarrow> string set \<Rightarrow> string set \<Rightarrow> (string \<times> string list) list \<Rightarrow> bool" where
  "pending_ok out vd nxt [] = True"
| "pending_ok out vd nxt ((n, cs) # ps) =
     (set cs \<subseteq> set (children out n) \<and> set (children out n) \<subseteq> set cs \<union> vd \<union> nxt \<and> pending_ok out vd {n} ps)"

definition closed :: "adjacency \<Rightarrow> string set \<Rightarrow> bool" where
  "closed out vd \<longleftrightarrow> (\<forall>a \<in> vd. set (children out a) \<subseteq> vd \<and> (a, a) \<notin> (arcs out)\<^sup>+)"

definition dfs_inv :: "adjacency \<Rightarrow> (string \<times> string list) list \<Rightarrow> string set \<Rightarrow> string set \<Rightarrow> bool" where
  "dfs_inv out stack vg vd \<longleftrightarrow> vg = fst ` set stack \<and> distinct (map fst stack) \<and> vg \<inter> vd = {}
     \<and> linked out stack \<and> pending_ok out vd {} stack \<and> closed out vd"

lemma pending_mono: "pending_ok out vd A ps \<Longrightarrow> vd \<subseteq> vd' \<Longrightarrow> A \<subseteq> A' \<union> vd' \<Longrightarrow> pending_ok out vd' A' ps"
proof (induction out vd A ps arbitrary: A' rule: pending_ok.induct)
  case (2 out vd nxt n cs ps)
  then have "pending_ok out vd' {n} ps" by simp
  with 2(2-4) show ?case by auto
qed simp

lemma linked_reaches: "linked out (p # ps) \<Longrightarrow> q \<in> set ps \<Longrightarrow> (fst q, fst p) \<in> (arcs out)\<^sup>+"
proof (induction ps arbitrary: p)
  case (Cons r ps)
  then have r: "(fst r, fst p) \<in> arcs out" "linked out (r # ps)" by simp_all
  show ?case
  proof (cases "q = r")
    case False
    with Cons r have "(fst q, fst r) \<in> (arcs out)\<^sup>+" by simp
    from trancl_into_trancl [OF this r(1)] show ?thesis .
  qed (use r in auto)
qed simp

lemma closed_stays: "closed out vd \<Longrightarrow> a \<in> vd \<Longrightarrow> (a, b) \<in> (arcs out)\<^sup>* \<Longrightarrow> b \<in> vd"
  by (erule rtrancl_induct) (auto simp: closed_def arcs_def)

lemma closed_insert:
  assumes "closed out vd" "set (children out n) \<subseteq> vd" "n \<notin> vd"
  shows "closed out (insert n vd)"
proof -
  have "(n, n) \<notin> (arcs out)\<^sup>+"
  proof
    assume "(n, n) \<in> (arcs out)\<^sup>+"
    then obtain c where "(n, c) \<in> arcs out" "(c, n) \<in> (arcs out)\<^sup>*" by (blast dest: tranclD)
    with assms closed_stays [OF assms(1), of c n] show False by (auto simp: arcs_def)
  qed
  with assms show ?thesis by (auto simp: closed_def)
qed

lemma dfs_correct:
  assumes "dfs_inv out stack vg vd" "\<forall>a. set (children out a) \<subseteq> fst ` set out"
  shows "case dfs out stack vg vd of
      Inl e \<Rightarrow> e = WorkGraphError ''graph contains a cycle'' \<and> \<not> acyclic (arcs out)
    | Inr (vg', vd') \<Rightarrow> vg' = {} \<and> closed out vd' \<and> vd \<union> vg \<subseteq> vd'"
  using assms
proof (induction out stack vg vd rule: dfs.induct)
  case (1 out vg vd)
  then show ?case by (simp add: dfs_inv_def)
next
  case (2 out n stack vg vd)
  from 2(2) have n: "set (children out n) \<subseteq> vd" "n \<notin> vd" "closed out vd" by (auto simp: dfs_inv_def)
  have "dfs_inv out stack (vg - {n}) (insert n vd)"
    unfolding dfs_inv_def
  proof (intro conjI)
    show "linked out stack" using 2(2) by (cases stack) (auto simp: dfs_inv_def)
    show "pending_ok out (insert n vd) {} stack"
      using 2(2) by (auto simp: dfs_inv_def intro: pending_mono)
    show "closed out (insert n vd)" using n by (intro closed_insert)
  qed (use 2(2) in \<open>auto simp: dfs_inv_def\<close>)
  with 2(1,3) show ?case by (auto split: sum.splits)
next
  case (3 out n c cs stack vg vd)
  have arc: "(n, c) \<in> arcs out" using 3(3) by (auto simp: dfs_inv_def arcs_def)
  show ?case
  proof (cases "c \<in> vg")
    case True
    have "(c, n) \<in> (arcs out)\<^sup>*"
    proof (cases "c = n")
      case False
      with True 3(3) obtain q where q: "q \<in> set stack" "fst q = c" by (auto simp: dfs_inv_def)
      have "linked out ((n, c # cs) # stack)" using 3(3) by (simp add: dfs_inv_def)
      from linked_reaches [OF this q(1)] q(2) show ?thesis by simp
    qed simp
    with arc have "(n, n) \<in> (arcs out)\<^sup>+" by (rule rtrancl_into_trancl2)
    then have "\<not> acyclic (arcs out)" by (auto simp: acyclic_def)
    with True show ?thesis by simp
  next
    case nvg: False
    show ?thesis
    proof (cases "c \<in> vd")
      case True
      with 3(3) have "dfs_inv out ((n, cs) # stack) vg vd"
        by (cases stack) (auto simp: dfs_inv_def)
      with 3(1) [OF nvg True _ 3(4)] nvg True show ?thesis by simp
    next
      case nvd: False
      have "map_of out c \<noteq> None" using arc 3(4) by (auto simp: arcs_def map_of_eq_None_iff)
      moreover have "dfs_inv out ((c, children out c) # (n, cs) # stack) (insert c vg) vd"
        using 3(3) arc nvg nvd by (cases stack) (auto simp: dfs_inv_def)
      ultimately show ?thesis using 3(2) [OF nvg nvd _ _ 3(4)] nvg nvd by (auto split: sum.splits)
    qed
  qed
qed

lemma dfs_roots_correct:
  assumes "closed out vd" "\<forall>a. set (children out a) \<subseteq> fst ` set out"
  shows "case dfs_roots out rs {} vd of
      Inl e \<Rightarrow> e = WorkGraphError ''graph contains a cycle'' \<and> \<not> acyclic (arcs out)
    | Inr u \<Rightarrow> \<exists>vd'. closed out vd' \<and> vd \<union> set rs \<subseteq> vd'"
  using assms(1)
proof (induction rs arbitrary: vd)
  case (Cons r rs)
  show ?case
  proof (cases "r \<in> vd")
    case True
    with Cons.IH [OF Cons.prems] show ?thesis by (cases "dfs_roots out rs {} vd") auto
  next
    case False
    have i: "dfs_inv out [(r, children out r)] {r} vd"
      using False Cons.prems by (auto simp: dfs_inv_def)
    show ?thesis
    proof (cases "dfs out [(r, children out r)] {r} vd")
      case (Inl e)
      with dfs_correct [OF i assms(2)] False show ?thesis by simp
    next
      case (Inr p)
      then obtain vd' where p: "p = ({}, vd')" "closed out vd'" "insert r vd \<subseteq> vd'"
        using dfs_correct [OF i assms(2)] by (cases p) auto
      with Cons.IH [OF p(2)] Inr False show ?thesis
        by (cases "dfs_roots out rs {} vd'") auto
    qed
  qed
qed auto

lemma closed_acyclic: "closed out vd \<Longrightarrow> fst ` set out \<subseteq> vd \<Longrightarrow> acyclic (arcs out)"
proof (rule acyclicI, intro allI notI)
  fix x
  assume c: "closed out vd" and k: "fst ` set out \<subseteq> vd" and x: "(x, x) \<in> (arcs out)\<^sup>+"
  from x obtain y where "(x, y) \<in> arcs out" by (blast dest: tranclD)
  then have "map_of out x \<noteq> None" by (cases "map_of out x") (simp_all add: arcs_def children_def)
  then have "x \<in> fst ` set out" by (simp add: map_of_eq_None_iff)
  with c k x show False by (auto simp: closed_def)
qed

lemma dfs_roots_iff:
  assumes "\<forall>a. set (children out a) \<subseteq> fst ` set out" "set rs = fst ` set out"
  shows "dfs_roots out rs {} {} = (if acyclic (arcs out) then Inr () else Inl (WorkGraphError ''graph contains a cycle''))"
proof -
  have c: "closed out {}" by (simp add: closed_def)
  show ?thesis
  proof (cases "dfs_roots out rs {} {}")
    case (Inl e)
    with dfs_roots_correct [OF c assms(1), of rs] show ?thesis by simp
  next
    case (Inr u)
    with dfs_roots_correct [OF c assms(1), of rs] closed_acyclic assms(2) show ?thesis by auto
  qed
qed



section \<open>What compiles\<close>

definition edge_rel :: "work_edge list \<Rightarrow> (string \<times> string) set" where
  "edge_rel es = (\<lambda>e. (we_src e, we_dst e)) ` set es"

lemma map_of_outgoing: "map_of (outgoing_of ids es) i =
    (if i \<in> set ids then Some (map we_dst (filter (\<lambda>e. we_src e = i) es)) else None)"
  by (induction ids) (auto simp: outgoing_of_def)

lemma arcs_outgoing:
  assumes "\<forall>e \<in> set es. we_src e \<in> set ids"
  shows "arcs (outgoing_of ids es) = edge_rel es"
  using assms by (auto simp: arcs_def children_def map_of_outgoing edge_rel_def image_iff split: if_splits)

lemma reject_cycles_eq:
  assumes "\<forall>e \<in> set es. \<not> unknown_end ids e"
  shows "reject_cycles ids es =
    (if acyclic (edge_rel es) then Inr () else Inl (WorkGraphError ''graph contains a cycle''))"
proof -
  have k: "\<forall>e \<in> set es. we_src e \<in> set ids \<and> we_dst e \<in> set ids"
    using assms by (simp add: unknown_end_def)
  then have f: "find (\<lambda>e. we_src e \<notin> set ids) es = None" by (simp add: find_None_iff)
  have keys: "fst ` set (outgoing_of ids es) = set ids" by (simp add: outgoing_of_def image_image)
  have "\<forall>a. set (children (outgoing_of ids es) a) \<subseteq> fst ` set (outgoing_of ids es)"
    using k by (auto simp: keys children_def map_of_outgoing)
  from dfs_roots_iff [OF this, of "sort ids"] keys k show ?thesis
    by (simp add: reject_cycles_def f arcs_outgoing)
qed


text \<open>C11: the iterative depth-first search of the compiler always ends, on any graph whose
  edges join known nodes, and it raises exactly when the edges have a directed cycle.\<close>

theorem reject_cycles_decides_acyclicity:
  assumes "list_all (\<lambda>e. we_src e \<in> set ids \<and> we_dst e \<in> set ids) es"
  shows "reject_cycles ids es =
    (if acyclic {(we_src e, we_dst e) |e. e \<in> set es} then Inr ()
     else Inl (WorkGraphError ''graph contains a cycle''))"
proof -
  have "{(we_src e, we_dst e) |e. e \<in> set es} = edge_rel es" by (auto simp: edge_rel_def)
  with assms reject_cycles_eq [of es ids] show ?thesis by (simp add: unknown_end_def list_all_iff)
qed

text \<open>
  The contract of a compiled graph: unique nodes in order, edges between known nodes in
  order, no cycle, every member of this graph, approval nodes asking for approval.
\<close>

definition graph_wf :: "work_graph \<Rightarrow> bool" where
  "graph_wf g \<longleftrightarrow> wg_nodes g \<noteq> [] \<and> sorted (map wn_id (wg_nodes g)) \<and> distinct (map wn_id (wg_nodes g))
     \<and> sorted (map edge_key (wg_edges g))
     \<and> list_all (\<lambda>e. \<not> unknown_end (map wn_id (wg_nodes g)) e \<and> we_graph e = wg_id g) (wg_edges g)
     \<and> acyclic (edge_rel (wg_edges g))
     \<and> list_all (\<lambda>n. wn_graph n = wg_id g \<and> (wn_kind n = ApprovalNode \<longrightarrow> wn_approval n)) (wg_nodes g)
     \<and> strip (wg_id g) \<noteq> [] \<and> 1 \<le> wg_version g"

lemma compile_nodes_ok:
  assumes "compile_nodes gid seen raws = Inr ns"
  shows "length ns = length raws \<and> distinct (map wn_id ns) \<and> set (map wn_id ns) \<inter> set seen = {}
    \<and> list_all (\<lambda>n. wn_kind n = ApprovalNode \<longrightarrow> wn_approval n) ns"
  using assms
proof (induction gid seen raws arbitrary: ns rule: compile_nodes.induct)
  case (2 gid seen raw raws)
  then obtain n ns' where n: "compile_node gid raw = Inr n" "wn_id n \<notin> set seen"
    and ns: "compile_nodes gid (wn_id n # seen) raws = Inr ns'" "ns = n # ns'"
    by (auto simp: rbind_ok split: if_splits)
  have "wn_kind n = ApprovalNode \<longrightarrow> wn_approval n"
    using n(1) by (auto simp: compile_node_def rbind_ok split: json.splits if_splits)
  with 2(1) [OF n(2) ns(1)] n ns show ?case by auto
qed simp

lemma as_graph_error_ok [simp]: "as_graph_error r = Inr x \<longleftrightarrow> r = Inr x"
  by (auto simp: as_graph_error_def split: sum.splits exn.splits)

lemma set_edge_rel_sort: "edge_rel (sort_key f es) = edge_rel es"
  by (simp add: edge_rel_def)

lemma compile_graph_wf:
  assumes "compile_work_graph spec = Inr g"
  shows "graph_wf g"
proof -
  from assms obtain raw where "spec = JObj raw" by (auto simp: compile_work_graph_def split: json.splits)
  moreover obtain r rs where "oget raw ''nodes'' = JList (r # rs)"
    using assms calculation by (auto simp: compile_work_graph_def Let_def split: json.splits list.splits)
  ultimately obtain ns es0 cs sc v md gid ob st' where
    ns: "compile_nodes gid [] (r # rs) = Inr ns"
    and u: "\<not> list_ex (unknown_end (map wn_id ns)) (sort_key edge_key es0)"
    and c: "reject_cycles (map wn_id ns) (sort_key edge_key es0) = Inr ()"
    and g: "mk_graph gid ob (sort_key wn_id ns) (sort_key edge_key es0) cs sc st' v md = Inr g"
    using assms by (auto simp: compile_work_graph_def Let_def rbind_ok simp del: compile_nodes.simps split: if_splits)
  have known: "\<forall>e \<in> set (sort_key edge_key es0). \<not> unknown_end (map wn_id ns) e"
    using u by (auto simp: list_ex_iff)
  with c have a: "acyclic (edge_rel (sort_key edge_key es0))"
    by (simp only: reject_cycles_eq split: if_splits) simp
  from g have "wg_nodes g = sort_key wn_id ns" "wg_edges g = sort_key edge_key es0" "1 \<le> wg_version g"
    "strip (wg_id g) \<noteq> []" "list_all (\<lambda>n. wn_graph n = wg_id g) (sort_key wn_id ns)"
    "list_all (\<lambda>e. we_graph e = wg_id g) (sort_key edge_key es0)"
    by (auto simp: mk_graph_def rbind_ok require_text_def split: json.splits if_splits)
  moreover from compile_nodes_ok [OF ns] have "ns \<noteq> []" "distinct (map wn_id ns)"
    "list_all (\<lambda>n. wn_kind n = ApprovalNode \<longrightarrow> wn_approval n) ns" by auto
  moreover from this(2) have "distinct (map wn_id (sort_key wn_id ns))" by (simp add: distinct_map)
  ultimately show ?thesis
    using known a by (auto simp: graph_wf_def list_all_iff sort_key_Nil_iff unknown_end_def)
qed

text \<open>C12: every specification that compiles gives a graph with unique node ids in order, at
  least one node, edges only between its own nodes, no directed cycle, members that all
  belong to the graph, approval nodes that ask for approval, and a positive version.\<close>

theorem compiled_graphs_are_well_formed:
  assumes "compile_work_graph spec = Inr g"
  shows "wg_nodes g \<noteq> [] \<and> sorted (map wn_id (wg_nodes g)) \<and> distinct (map wn_id (wg_nodes g))
    \<and> sorted (map edge_key (wg_edges g))
    \<and> list_all (\<lambda>e. we_src e \<in> wn_id ` set (wg_nodes g) \<and> we_dst e \<in> wn_id ` set (wg_nodes g) \<and> we_graph e = wg_id g) (wg_edges g)
    \<and> acyclic {(we_src e, we_dst e) |e. e \<in> set (wg_edges g)}
    \<and> list_all (\<lambda>n. wn_graph n = wg_id g \<and> (wn_kind n = ApprovalNode \<longrightarrow> wn_approval n)) (wg_nodes g)
    \<and> strip (wg_id g) \<noteq> [] \<and> 1 \<le> wg_version g"
proof -
  have "{(we_src e, we_dst e) |e. e \<in> set (wg_edges g)} = edge_rel (wg_edges g)" by (auto simp: edge_rel_def)
  with compile_graph_wf [OF assms] show ?thesis by (simp add: graph_wf_def unknown_end_def)
qed

section \<open>Progress\<close>

lemma node_by_id_ok:
  assumes "distinct (map wn_id (wg_nodes g))" "n \<in> set (wg_nodes g)"
  shows "node_by_id g (wn_id n) = Some n"
proof -
  obtain m where m: "node_by_id g (wn_id n) = Some m"
    using assms(2) by (cases "node_by_id g (wn_id n)") (auto simp: node_by_id_def find_None_iff)
  then have "m \<in> set (wg_nodes g)" "wn_id m = wn_id n"
    by (auto simp: node_by_id_def find_Some_iff) (metis nth_mem set_rev length_rev)
  with m assms show ?thesis by (metis distinct_map inj_onD)
qed

lemma graph_wf_ready:
  assumes "graph_wf g"
  shows "ready_with_approvals g sts = Inr (sort (remdups (ready_nodes (\<lambda>n. wn_kind n \<noteq> ApprovalNode) g sts @ ready_approvals g sts)))"
    and "set (ready_nodes (\<lambda>n. wn_kind n \<noteq> ApprovalNode) g sts @ ready_approvals g sts)
      = {wn_id n |n. n \<in> set (wg_nodes g) \<and> status_of sts (wn_id n) = ''pending'' \<and> preds_done g sts (wn_id n)}"
proof -
  have "find (\<lambda>e. we_dst e \<notin> set (map wn_id (wg_nodes g))) (wg_edges g) = None"
    using assms by (auto simp: graph_wf_def find_None_iff list_all_iff unknown_end_def)
  then show "ready_with_approvals g sts = Inr (sort (remdups (ready_nodes (\<lambda>n. wn_kind n \<noteq> ApprovalNode) g sts @ ready_approvals g sts)))"
    by (simp add: ready_with_approvals_def ready_node_ids_def)
  have d: "distinct (map wn_id (wg_nodes g))" using assms by (simp add: graph_wf_def)
  show "set (ready_nodes (\<lambda>n. wn_kind n \<noteq> ApprovalNode) g sts @ ready_approvals g sts)
      = {wn_id n |n. n \<in> set (wg_nodes g) \<and> status_of sts (wn_id n) = ''pending'' \<and> preds_done g sts (wn_id n)}"
    by (auto simp: ready_nodes_def ready_approvals_def node_by_id_ok [OF d])
qed

text \<open>C13: progress. In a compiled graph whose nodes are all pending, completed or skipped,
  with at least one pending, the ready nodes the store offers are not empty; and what it
  offers are, in order and once each, exactly the pending nodes whose predecessors are
  all completed or skipped.\<close>

theorem compiled_graphs_progress:
  assumes "graph_wf g"
  shows "\<exists>rs. ready_with_approvals g sts = Inr rs \<and> sorted rs \<and> distinct rs
    \<and> set rs = {wn_id n |n. n \<in> set (wg_nodes g) \<and> status_of sts (wn_id n) = ''pending''
         \<and> list_all (\<lambda>p. map_of sts p \<in> {Some ''completed'', Some ''skipped''}) (predecessors g (wn_id n))}
    \<and> ((\<forall>n \<in> set (wg_nodes g). status_of sts (wn_id n) \<in> {''pending'', ''completed'', ''skipped''})
        \<longrightarrow> (\<exists>n \<in> set (wg_nodes g). status_of sts (wn_id n) = ''pending'') \<longrightarrow> rs \<noteq> [])"
proof -
  let ?r = "ready_nodes (\<lambda>n. wn_kind n \<noteq> ApprovalNode) g sts @ ready_approvals g sts"
  have pd: "preds_done g sts i = list_all (\<lambda>p. map_of sts p \<in> {Some ''completed'', Some ''skipped''}) (predecessors g i)" for i
    by (auto simp: preds_done_def READY_PREDECESSORS_def list_all_iff)
  have ne: "set ?r \<noteq> {}" if all: "\<forall>n \<in> set (wg_nodes g). status_of sts (wn_id n) \<in> {''pending'', ''completed'', ''skipped''}"
    and some: "n0 \<in> set (wg_nodes g)" "status_of sts (wn_id n0) = ''pending''" for n0
  proof -
    let ?Q = "{i \<in> set (map wn_id (wg_nodes g)). status_of sts i = ''pending''}"
    have "wf (edge_rel (wg_edges g))"
      using assms by (intro finite_acyclic_wf) (auto simp: graph_wf_def edge_rel_def)
    moreover have "wn_id n0 \<in> ?Q" using some by simp
    ultimately obtain z where z: "z \<in> ?Q" "\<And>y. (y, z) \<in> edge_rel (wg_edges g) \<Longrightarrow> y \<notin> ?Q"
      by (rule wfE_min) blast
    have "preds_done g sts z"
      unfolding preds_done_def list_all_iff
    proof
      fix y
      assume "y \<in> set (predecessors g z)"
      then obtain e where e: "e \<in> set (wg_edges g)" "we_dst e = z" "we_src e = y" by (auto simp: predecessors_def)
      then have "(y, z) \<in> edge_rel (wg_edges g)" by (auto simp: edge_rel_def)
      with z(2) have "y \<notin> ?Q" by blast
      moreover have "y \<in> set (map wn_id (wg_nodes g))"
        using assms e by (auto simp: graph_wf_def list_all_iff unknown_end_def)
      ultimately have "status_of sts y \<in> {''completed'', ''skipped''}" using all by auto
      then show "\<exists>s \<in> READY_PREDECESSORS. map_of sts y = Some s"
        by (cases "map_of sts y") (simp_all add: status_of_def READY_PREDECESSORS_def)
    qed
    with z(1) graph_wf_ready(2) [OF assms, of sts] show ?thesis by auto
  qed
  have e: "sort (remdups ?r) \<noteq> []" if "set ?r \<noteq> {}"
    using that by (simp only: sort_key_Nil_iff remdups_eq_nil_iff) auto
  show ?thesis
  proof (intro exI [of _ "sort (remdups ?r)"] conjI impI)
    show "sort (remdups ?r) \<noteq> []"
      if "\<forall>n \<in> set (wg_nodes g). status_of sts (wn_id n) \<in> {''pending'', ''completed'', ''skipped''}"
        "\<exists>n \<in> set (wg_nodes g). status_of sts (wn_id n) = ''pending''"
    proof -
      from that(2) obtain n0 where "n0 \<in> set (wg_nodes g)" "status_of sts (wn_id n0) = ''pending''" by (rule bexE)
      from ne [OF that(1) this] show ?thesis by (rule e)
    qed
    show "ready_with_approvals g sts = Inr (sort (remdups ?r))" by (rule graph_wf_ready(1) [OF assms])
    show "set (sort (remdups ?r)) = {wn_id n |n. n \<in> set (wg_nodes g) \<and> status_of sts (wn_id n) = ''pending''
         \<and> list_all (\<lambda>p. map_of sts p \<in> {Some ''completed'', Some ''skipped''}) (predecessors g (wn_id n))}"
      unfolding set_sort set_remdups graph_wf_ready(2) [OF assms] pd ..
    show "sorted (sort (remdups ?r))" "distinct (sort (remdups ?r))" by simp_all
  qed
qed

section \<open>Examples\<close>

definition plan_spec :: json where
  "plan_spec = JObj [(''id'', JStr ''g''), (''objective'', JStr ''ship''),
     (''nodes'', JList [
        JObj [(''id'', JStr ''review''), (''kind'', JStr ''approval''), (''objective'', JStr ''look''), (''approval_required'', JBool True)],
        JObj [(''id'', JStr ''build''), (''objective'', JStr ''make'')]]),
     (''edges'', JList [JObj [(''from'', JStr ''build''), (''to'', JStr ''review'')]])]"

definition plan :: work_graph where
  "plan = projr (compile_work_graph plan_spec)"

lemma plan_compiles: "\<not> isl (compile_work_graph plan_spec)"
  by code_simp

lemma plan_ok: "compile_work_graph plan_spec = Inr plan"
  using plan_compiles by (cases "compile_work_graph plan_spec") (simp_all add: plan_def)

lemma reject_cycles_decides_acyclicity_witness:
  "\<not> acyclic {(we_src e, we_dst e) |e. e \<in> set [\<lparr>we_graph = ''g'', we_src = ''a'', we_dst = ''b''\<rparr>, \<lparr>we_graph = ''g'', we_src = ''b'', we_dst = ''a''\<rparr>]}"
proof -
  let ?es = "[\<lparr>we_graph = ''g'', we_src = ''a'', we_dst = ''b''\<rparr>, \<lparr>we_graph = ''g'', we_src = ''b'', we_dst = ''a''\<rparr>]"
  have "isl (reject_cycles [''a'', ''b''] ?es)" by code_simp
  with reject_cycles_decides_acyclicity [of "[''a'', ''b'']" ?es] show ?thesis by (simp split: if_splits)
qed

lemma compiled_graphs_are_well_formed_witness:
  "distinct (map wn_id (wg_nodes plan)) \<and> 1 \<le> wg_version plan"
  using compiled_graphs_are_well_formed [OF plan_ok] by blast

lemma compiled_graphs_progress_witness:
  "\<exists>rs. ready_with_approvals plan [] = Inr rs \<and> rs \<noteq> []"
proof -
  from compile_graph_wf [OF plan_ok] have "wg_nodes plan \<noteq> []" by (simp add: graph_wf_def)
  then have "\<exists>n \<in> set (wg_nodes plan). status_of [] (wn_id n) = ''pending''"
    by (simp add: status_of_def) (simp add: ex_in_conv)
  moreover have "\<forall>n \<in> set (wg_nodes plan). status_of [] (wn_id n) \<in> {''pending'', ''completed'', ''skipped''}"
    by (simp add: status_of_def)
  moreover note compiled_graphs_progress [OF compile_graph_wf [OF plan_ok], of "[]"]
  ultimately show ?thesis by blast
qed

end
