(* ===== verification/Work_Store.thy ===== *)
theory Work_Store
  imports Approval_Props Graphs
begin

text \<open>
  The stored Work Graph (\<open>work/store.py\<close>): creation, reading back, status changes under a
  version check, outputs, and the refresh of approval nodes from their approvals.
\<close>

section \<open>Creating a graph\<close>

definition retry_json :: "retry_policy \<Rightarrow> json" where
  "retry_json r = JObj [(''max_attempts'', rp_max r), (''backoff_s'', rp_backoff r)]"

definition placement_json :: "placement \<Rightarrow> json" where
  "placement_json p = JObj [(''mode'', JStr (pl_mode p)), (''node_id'', pl_node p)]"

definition node_json :: "work_node \<Rightarrow> obj" where
  "node_json n =
     [(''id'', JStr (wn_id n)), (''kind'', JStr (node_kind_value (wn_kind n))), (''objective'', JStr (wn_objective n)),
      (''requires'', JList (wn_requires n)), (''risk'', wn_risk n), (''approval_required'', JBool (wn_approval n)),
      (''independent_review'', JBool (wn_review n)), (''evidence_required'', JBool (wn_evidence n)),
      (''expected_outputs'', JList (wn_outputs n)), (''retry'', retry_json (wn_retry n)),
      (''placement'', placement_json (wn_placement n)), (''metadata'', JObj (wn_metadata n)),
      (''status'', JStr ''pending'')]"

definition edge_json :: "work_edge \<Rightarrow> obj" where
  "edge_json e = [(''src_id'', JStr (we_src e)), (''dst_id'', JStr (we_dst e))]"

definition graph_payload :: "work_graph \<Rightarrow> string \<Rightarrow> obj" where
  "graph_payload g now =
     [(''id'', JStr (wg_id g)), (''objective'', JStr (wg_objective g)), (''constraints'', JList (wg_constraints g)),
      (''success_criteria'', JList (wg_success g)), (''status'', JStr (graph_status_value (wg_status g))),
      (''version'', JInt (wg_version g)), (''event_time'', JStr now),
      (''nodes'', JList (map (\<lambda>n. JObj (node_json n)) (wg_nodes g))),
      (''edges'', JList (map (\<lambda>e. JObj (edge_json e)) (wg_edges g)))]"

definition graph_event :: "string \<Rightarrow> string \<Rightarrow> obj \<Rightarrow> envelope" where
  "graph_event ty gid p = (event ty ''system'' p)\<lparr>ev_target := Some (''graph:'' @ gid)\<rparr>"

definition node_event :: "string \<Rightarrow> string \<Rightarrow> obj \<Rightarrow> envelope" where
  "node_event ty nid p = (event ty ''system'' p)\<lparr>ev_target := Some (''work_node:'' @ nid)\<rparr>"

definition create_graph :: "rt \<Rightarrow> clock \<Rightarrow> work_graph \<Rightarrow> (world, unit) st" where
  "create_graph R K g =
     st_bind (emit_as R K (graph_event ''run.created'' (wg_id g) (graph_payload g (c_now K)))) (\<lambda>_. st_ret ())"

section \<open>Reading a graph\<close>

text \<open>A column value in Python; \<open>_loads\<close> with its fallback for NULL.\<close>

fun from_sql :: "sqlv \<Rightarrow> json" where
  "from_sql SNull = JNull"
| "from_sql (SInt i) = JInt i"
| "from_sql (SReal s) = JFloat s"
| "from_sql (SText s) = JStr s"

definition loads_or :: "json \<Rightarrow> sqlv \<Rightarrow> exn + json" where
  "loads_or fallback v = (if v = SNull then Inr fallback else load_or_raise (stext v))"

definition node_of_row :: "row \<Rightarrow> exn + work_node" where
  "node_of_row r =
     rbind (loads_or (JObj []) (r ''retry_json'')) (\<lambda>rt'.
     rbind (coerce_enum NODE_KINDS (from_sql (r ''kind''))) (\<lambda>k.
     rbind (rbind (loads_or (JList []) (r ''requires_json'')) jiter) (\<lambda>rq.
     rbind (rbind (loads_or (JList []) (r ''expected_outputs_json'')) jiter) (\<lambda>eo.
     rbind (retry_of rt') (\<lambda>rp.
     rbind (rbind (loads_or local_placement (r ''placement_json'')) placement_of) (\<lambda>pl.
     rbind (loads_or (JObj []) (r ''metadata_json'')) (\<lambda>mj.
     rbind (require_text (from_sql (r ''id''))) (\<lambda>i.
     rbind (require_text (from_sql (r ''graph_id''))) (\<lambda>g.
     rbind (require_text (from_sql (r ''objective''))) (\<lambda>ob.
     rbind (dict_of mj) (\<lambda>md.
     Inr \<lparr>wn_id = i, wn_graph = g, wn_kind = k, wn_objective = ob, wn_requires = rq,
       wn_risk = from_sql (r ''risk''), wn_approval = truthy (from_sql (r ''approval_required'')),
       wn_review = truthy (from_sql (r ''independent_review'')), wn_evidence = truthy (from_sql (r ''evidence_required'')),
       wn_outputs = eo, wn_retry = rp, wn_placement = pl, wn_metadata = md\<rparr>)))))))))))"

definition edge_of_row :: "row \<Rightarrow> exn + work_edge" where
  "edge_of_row r = mk_edge (from_sql (r ''graph_id'')) (from_sql (r ''src_id'')) (from_sql (r ''dst_id''))"

definition node_rows :: "string \<Rightarrow> db \<Rightarrow> row list" where
  "node_rows gid d = sort_key (\<lambda>r. stext (r ''id'')) (select_by work_nodes_t ''graph_id'' gid d)"

definition edge_rows :: "string \<Rightarrow> db \<Rightarrow> row list" where
  "edge_rows gid d = sort_key (\<lambda>r. [stext (r ''src_id''), stext (r ''dst_id'')]) (select_by work_edges_t ''graph_id'' gid d)"

definition graph_row :: "string \<Rightarrow> db \<Rightarrow> row option" where
  "graph_row gid d = first_by work_graphs_t ''id'' gid d"

definition graph_of_rows :: "row \<Rightarrow> row list \<Rightarrow> row list \<Rightarrow> exn + work_graph" where
  "graph_of_rows r nrs ers =
     rbind (rmap node_of_row nrs) (\<lambda>ns.
     rbind (rmap edge_of_row ers) (\<lambda>es.
     rbind (rbind (loads_or (JList []) (r ''constraints_json'')) jiter) (\<lambda>cs.
     rbind (rbind (loads_or (JList []) (r ''success_criteria_json'')) jiter) (\<lambda>sc.
     rbind (coerce_enum GRAPH_STATUSES (from_sql (r ''status''))) (\<lambda>s.
     rbind (py_int (from_sql (r ''version''))) (\<lambda>v.
     mk_graph (from_sql (r ''id'')) (from_sql (r ''objective'')) ns es cs sc (JStr (graph_status_value s)) v []))))))"

definition get_graph :: "string \<Rightarrow> db \<Rightarrow> exn + work_graph" where
  "get_graph gid d = (case graph_row gid d of
     None \<Rightarrow> Inl (KeyError gid)
   | Some r \<Rightarrow> graph_of_rows r (node_rows gid d) (edge_rows gid d))"

section \<open>Status changes\<close>

definition GRAPH_STATUS_EVENTS :: "(graph_status \<times> string) list" where
  "GRAPH_STATUS_EVENTS = [(GPaused, ''run.paused''), (GCompleted, ''run.completed''), (GFailed, ''run.failed''),
     (GCancelled, ''run.cancelled'')]"

definition NODE_STATUS_EVENTS :: "(node_status \<times> string) list" where
  "NODE_STATUS_EVENTS = [(NRunning, ''step.started''), (NCompleted, ''step.completed''), (NFailed, ''step.failed'')]"

definition set_graph_status :: "rt \<Rightarrow> clock \<Rightarrow> string \<Rightarrow> json \<Rightarrow> (world, unit) st" where
  "set_graph_status R K gid status =
     st_bind (st_lift (coerce_enum GRAPH_STATUSES status)) (\<lambda>nxt.
     st_bind (st_get (\<lambda>w. graph_row gid (wdb w))) (\<lambda>x.
     case x of None \<Rightarrow> st_raise (KeyError gid)
     | Some r \<Rightarrow>
         st_bind (st_lift (if nxt = GRunning
             then Inr (if r ''status'' = SText ''paused'' then ''run.resumed'' else ''run.started'')
             else (case map_of GRAPH_STATUS_EVENTS nxt of
                 None \<Rightarrow> Inl (ValueError ''unsupported graph status transition'') | Some ty \<Rightarrow> Inr ty))) (\<lambda>ty.
         st_bind (emit_as R K (graph_event ty gid
           [(''id'', JStr gid), (''status'', JStr (graph_status_value nxt)), (''event_time'', JStr (c_now K))])) (\<lambda>_.
         st_ret ()))))"

definition node_row :: "string \<Rightarrow> db \<Rightarrow> row option" where
  "node_row nid d = first_by work_nodes_t ''id'' nid d"

definition node_state_version :: "string \<Rightarrow> db \<Rightarrow> exn + int" where
  "node_state_version nid d = (case node_row nid d of
     None \<Rightarrow> Inl (KeyError nid) | Some r \<Rightarrow> py_int (from_sql (r ''state_version'')))"

definition emit_node_status :: "rt \<Rightarrow> clock \<Rightarrow> string \<Rightarrow> node_status \<Rightarrow> (world, unit) st" where
  "emit_node_status R K nid nxt =
     st_bind (emit_as R K (node_event
       (case map_of NODE_STATUS_EVENTS nxt of None \<Rightarrow> ''step.started'' | Some ty \<Rightarrow> ty) nid
       [(''node_id'', JStr nid), (''to'', JStr (node_status_value nxt))])) (\<lambda>_. st_ret ())"

definition check_version :: "string \<Rightarrow> int \<Rightarrow> (world, unit) st" where
  "check_version nid expected =
     st_bind (st_get (\<lambda>w. node_state_version nid (wdb w))) (\<lambda>r.
     st_bind (st_lift r) (\<lambda>v. raise_unless (v = expected) (ConcurrentWorkUpdate nid)))"

definition set_node_status :: "rt \<Rightarrow> clock \<Rightarrow> string \<Rightarrow> json \<Rightarrow> int \<Rightarrow> (world, unit) st" where
  "set_node_status R K nid status expected =
     st_bind (st_lift (coerce_enum NODE_STATUSES status)) (\<lambda>nxt.
     st_bind (check_version nid expected) (\<lambda>_.
     emit_node_status R K nid nxt))"

text \<open>The output of a node; the annotation says a dictionary, any JSON value is taken.\<close>

definition record_value :: "rt \<Rightarrow> clock \<Rightarrow> string \<Rightarrow> json \<Rightarrow> int \<Rightarrow> (world, unit) st" where
  "record_value R K nid out expected =
     st_bind (check_version nid expected) (\<lambda>_.
     st_bind (emit_as R K (node_event ''step.completed'' nid
       [(''node_id'', JStr nid), (''output'', out)])) (\<lambda>_. st_ret ()))"

definition record_output :: "rt \<Rightarrow> clock \<Rightarrow> string \<Rightarrow> obj \<Rightarrow> int \<Rightarrow> (world, unit) st" where
  "record_output R K nid out expected = record_value R K nid (JObj out) expected"

definition node_output :: "string \<Rightarrow> db \<Rightarrow> exn + json" where
  "node_output nid d = (case node_row nid d of
     None \<Rightarrow> Inl (KeyError nid) | Some r \<Rightarrow> loads_or JNull (r ''output_json''))"

definition stored_node :: "string \<Rightarrow> db \<Rightarrow> exn + work_node \<times> node_status \<times> int" where
  "stored_node nid d = (case node_row nid d of
     None \<Rightarrow> Inl (KeyError nid)
   | Some r \<Rightarrow> rbind (node_of_row r) (\<lambda>n.
       rbind (coerce_enum NODE_STATUSES (from_sql (r ''status''))) (\<lambda>s.
       rbind (py_int (from_sql (r ''state_version''))) (\<lambda>v. Inr (n, s, v)))))"

definition node_statuses :: "string \<Rightarrow> db \<Rightarrow> (string \<times> string) list" where
  "node_statuses gid d = map (\<lambda>r. (stext (r ''id''), stext (r ''status''))) (rev (select_by work_nodes_t ''graph_id'' gid d))"

definition store_ready_node_ids :: "string \<Rightarrow> db \<Rightarrow> exn + string list" where
  "store_ready_node_ids gid d = rbind (get_graph gid d) (\<lambda>g. ready_with_approvals g (node_statuses gid d))"

section \<open>Approval nodes\<close>

definition latest_approval_id :: "string \<Rightarrow> string \<Rightarrow> db \<Rightarrow> string option" where
  "latest_approval_id gid nid d = map_option (\<lambda>r. stext (r ''id'')) (latest ''requested_at''
     (filter (\<lambda>r. r ''graph_id'' = SText gid \<and> r ''node_id'' = SText nid) (d ''approval_requests'')))"

fun approval_to_node_status :: "approval_status \<Rightarrow> node_status" where
  "approval_to_node_status Approved = NCompleted"
| "approval_to_node_status Pending = NPending"
| "approval_to_node_status Deferred = NPending"
| "approval_to_node_status StaleApproval = NPending"
| "approval_to_node_status Rejected = NFailed"
| "approval_to_node_status Revise = NBlocked"

definition digest_of_scope :: "rt \<Rightarrow> json \<Rightarrow> string" where
  "digest_of_scope R j = ''sha256:'' @ rt_hash R (dumps_with False j)"

text \<open>
  The approval service has its own log object, opened once for the whole refresh: \<open>b\<close> says
  whether that object has reconciled its head; the store's own flag is put back.
\<close>

definition by_service :: "(world, 'a) st \<Rightarrow> (world \<times> bool, 'a) st" where
  "by_service m = (\<lambda>(w, b). (case m (w\<lparr>wlog := (wlog w)\<lparr>lrecovered := b\<rparr>\<rparr>) of
     (r, w') \<Rightarrow> (r, (w'\<lparr>wlog := (wlog w')\<lparr>lrecovered := lrecovered (wlog w)\<rparr>\<rparr>, lrecovered (wlog w')))))"

definition by_store :: "(world, 'a) st \<Rightarrow> (world \<times> bool, 'a) st" where
  "by_store m = (\<lambda>(w, b). (case m w of (r, w') \<Rightarrow> (r, (w', b))))"

definition refresh_node :: "rt \<Rightarrow> (string \<Rightarrow> clock \<times> clock) \<Rightarrow> string \<Rightarrow> work_node \<Rightarrow> (world \<times> bool, unit) st" where
  "refresh_node R Ks gid n =
     (if wn_kind n \<noteq> ApprovalNode then st_ret ()
      else
        st_bind (st_get (\<lambda>wb. latest_approval_id gid (wn_id n) (wdb (fst wb)))) (\<lambda>x.
        case x of None \<Rightarrow> st_ret ()
        | Some aid \<Rightarrow>
            st_bind (by_service (assert_digest R (fst (Ks (wn_id n))) aid
              (digest_of_scope R (oget_or (wn_metadata n) ''scope'' (JObj []))))) (\<lambda>req.
            st_bind (st_get (\<lambda>wb. stored_node (wn_id n) (wdb (fst wb)))) (\<lambda>r.
            st_bind (st_lift r) (\<lambda>(_, cur, _).
            if approval_to_node_status (ap_status req) = cur then st_ret ()
            else by_store (emit_node_status R (snd (Ks (wn_id n))) (wn_id n) (approval_to_node_status (ap_status req))))))))"

definition refresh_readiness :: "rt \<Rightarrow> (string \<Rightarrow> clock \<times> clock) \<Rightarrow> string \<Rightarrow> (world, unit) st" where
  "refresh_readiness R Ks gid =
     st_bind (st_get (\<lambda>w. get_graph gid (wdb w))) (\<lambda>x.
     st_bind (st_lift x) (\<lambda>g.
     (\<lambda>w. (case st_for (refresh_node R Ks gid) (wg_nodes g) (w, False) of (r, (w', _)) \<Rightarrow> (r, w')))))"

end
