(* ===== verification/Work_Props.thy ===== *)
theory Work_Props
  imports Work_Store
begin

text \<open>
  What the Work Graph store keeps: the round trip of creation and reading, what creation
  does to the rows of other graphs, the version check of status changes, and the states
  approval nodes take from their approvals.
\<close>

section \<open>Rows that were written\<close>

lemma filled:
  assumes "bind_all vals = Inr vs" "map_of vals c = Some j" "bindv j = Inr v" "col_of t c = Some k"
    "coerce (caff k) v \<noteq> SNull"
  shows "default_nulls t (fill_row t vs) c = coerce (caff k) v"
  using map_of_bind_all [OF assms(1,2)] assms(3-5) by (auto simp: default_nulls_def fill_row_def)

lemma clash_pk: "tuniq t = [] \<Longrightarrow> clash t r r' \<longleftrightarrow> same_key (tpk t) r r'"
  by (simp add: clash_def)

definition node_cols :: "string \<Rightarrow> work_node \<Rightarrow> row \<Rightarrow> bool" where
  "node_cols gid n r \<longleftrightarrow> r ''id'' = SText (wn_id n) \<and> r ''graph_id'' = SText gid
     \<and> r ''kind'' = SText (node_kind_value (wn_kind n)) \<and> r ''objective'' = SText (wn_objective n)
     \<and> r ''requires_json'' = SText (dumps (JList (wn_requires n)))
     \<and> (\<forall>s. wn_risk n = JStr s \<longrightarrow> r ''risk'' = SText s)
     \<and> r ''approval_required'' = SInt (if wn_approval n then 1 else 0)
     \<and> r ''independent_review'' = SInt (if wn_review n then 1 else 0)
     \<and> r ''evidence_required'' = SInt (if wn_evidence n then 1 else 0)
     \<and> r ''expected_outputs_json'' = SText (dumps (JList (wn_outputs n)))
     \<and> r ''retry_json'' = SText (dumps (retry_json (wn_retry n)))
     \<and> r ''placement_json'' = SText (dumps (placement_json (wn_placement n)))
     \<and> r ''metadata_json'' = SText (dumps (JObj (wn_metadata n)))
     \<and> r ''status'' = SText ''pending''"

lemma node_columns:
  "col_of work_nodes_t ''id'' = Some (tx ''id'')"
  "col_of work_nodes_t ''graph_id'' = Some (txn ''graph_id'')"
  "col_of work_nodes_t ''kind'' = Some (txn ''kind'')"
  "col_of work_nodes_t ''objective'' = Some (txn ''objective'')"
  "col_of work_nodes_t ''requires_json'' = Some (txn ''requires_json'')"
  "col_of work_nodes_t ''risk'' = Some (txn ''risk'')"
  "col_of work_nodes_t ''approval_required'' = Some (ind ''approval_required'' 0)"
  "col_of work_nodes_t ''independent_review'' = Some (ind ''independent_review'' 0)"
  "col_of work_nodes_t ''evidence_required'' = Some (ind ''evidence_required'' 0)"
  "col_of work_nodes_t ''expected_outputs_json'' = Some (txn ''expected_outputs_json'')"
  "col_of work_nodes_t ''retry_json'' = Some (txn ''retry_json'')"
  "col_of work_nodes_t ''placement_json'' = Some (txd ''placement_json'' local_placement_text)"
  "col_of work_nodes_t ''metadata_json'' = Some (txn ''metadata_json'')"
  "col_of work_nodes_t ''status'' = Some (txn ''status'')"
  by (simp_all add: col_of_def work_nodes_t_def tab_def column_defs)

lemma node_keys: "tpk work_nodes_t = [''id'']" "tuniq work_nodes_t = []"
  by (simp_all add: work_nodes_t_def tab_def)

lemma edge_keys: "tpk work_edges_t = [''graph_id'', ''src_id'', ''dst_id'']" "tuniq work_edges_t = []"
  by (simp_all add: work_edges_t_def tab_def)

lemma write_node_row:
  assumes "write_node (JStr gid) (JObj (node_json n)) d = (Inr u, d')"
  obtains r where "node_cols gid n r"
    "d' = d(''work_nodes'' := filter (\<lambda>r'. r' ''id'' \<noteq> SText (wn_id n)) (d ''work_nodes'') @ [r])"
proof -
  let ?vals = "[(''id'', JStr (wn_id n)), (''graph_id'', JStr gid), (''kind'', JStr (node_kind_value (wn_kind n))),
          (''objective'', JStr (wn_objective n)),
          (''requires_json'', JStr (dumps (JList (wn_requires n)))),
          (''risk'', wn_risk n),
          (''approval_required'', flag (JBool (wn_approval n))),
          (''independent_review'', flag (JBool (wn_review n))),
          (''evidence_required'', flag (JBool (wn_evidence n))),
          (''expected_outputs_json'', JStr (dumps (JList (wn_outputs n)))),
          (''retry_json'', JStr (dumps (retry_json (wn_retry n)))),
          (''placement_json'', JStr (dumps (placement_json (wn_placement n)))),
          (''metadata_json'', JStr (dumps (JObj (wn_metadata n)))),
          (''status'', JStr ''pending'')]"
  have "insert_or_replace work_nodes_t ?vals d = (Inr (), d')"
    using assms by (simp add: write_node_def node_json_def st_bind_def st_lift_def oget_or_def oget_def
        del: bind_all_simps dumps_with.simps)
  then show thesis
  proof (rule insert_or_replace_ok)
    fix vs
    assume b: "bind_all ?vals = Inr vs"
      and d': "d' = d(tname work_nodes_t := filter (\<lambda>r'. \<not> clash work_nodes_t (default_nulls work_nodes_t (fill_row work_nodes_t vs)) r')
          (d (tname work_nodes_t)) @ [default_nulls work_nodes_t (fill_row work_nodes_t vs)])"
    let ?r = "default_nulls work_nodes_t (fill_row work_nodes_t vs)"
    note f = filled [OF b _ _ node_columns(1)] filled [OF b _ _ node_columns(2)] filled [OF b _ _ node_columns(3)]
      filled [OF b _ _ node_columns(4)] filled [OF b _ _ node_columns(5)] filled [OF b _ _ node_columns(6)]
      filled [OF b _ _ node_columns(7)] filled [OF b _ _ node_columns(8)] filled [OF b _ _ node_columns(9)]
      filled [OF b _ _ node_columns(10)] filled [OF b _ _ node_columns(11)] filled [OF b _ _ node_columns(12)]
      filled [OF b _ _ node_columns(13)] filled [OF b _ _ node_columns(14)]
    have c: "node_cols gid n ?r"
      unfolding node_cols_def
      by (intro conjI allI impI) (simp_all add: f column_defs flag_def del: dumps_with.simps)
    then have "?r ''id'' = SText (wn_id n)" by (simp add: node_cols_def)
    then have "clash work_nodes_t ?r r' \<longleftrightarrow> r' ''id'' = SText (wn_id n)" for r'
      by (auto simp: clash_pk node_keys same_key_def)
    with c d' show thesis by (intro that [OF c]) simp
  qed
qed

lemma write_nodes_rows:
  assumes "st_for (write_node (JStr gid)) (map (\<lambda>n. JObj (node_json n)) ns) d = (Inr u, d')" "distinct (map wn_id ns)"
  shows "\<exists>rs. list_all2 (node_cols gid) ns rs
    \<and> d' = d(''work_nodes'' := filter (\<lambda>r. r ''id'' \<notin> SText ` set (map wn_id ns)) (d ''work_nodes'') @ rs)"
  using assms
proof (induction ns arbitrary: d)
  case (Cons n ns)
  then obtain d1 where w: "write_node (JStr gid) (JObj (node_json n)) d = (Inr (), d1)"
    and rest: "st_for (write_node (JStr gid)) (map (\<lambda>n. JObj (node_json n)) ns) d1 = (Inr u, d')"
    by (auto split: prod.splits sum.splits)
  from w obtain r where r: "node_cols gid n r"
    "d1 = d(''work_nodes'' := filter (\<lambda>r'. r' ''id'' \<noteq> SText (wn_id n)) (d ''work_nodes'') @ [r])"
    by (rule write_node_row)
  have "distinct (map wn_id ns)" using Cons.prems(2) by simp
  from Cons.IH [OF rest this] obtain rs where rs: "list_all2 (node_cols gid) ns rs"
    "d' = d1(''work_nodes'' := filter (\<lambda>r. r ''id'' \<notin> SText ` set (map wn_id ns)) (d1 ''work_nodes'') @ rs)"
    by (elim exE conjE)
  have "r ''id'' \<notin> SText ` set (map wn_id ns)" using r(1) Cons.prems(2) by (auto simp: node_cols_def)
  then have f: "filter (\<lambda>r. r ''id'' \<notin> SText ` set (map wn_id ns)) (d1 ''work_nodes'')
    = filter (\<lambda>r. r ''id'' \<notin> SText ` set (map wn_id (n # ns))) (d ''work_nodes'') @ [r]"
    by (simp add: r(2) conj_commute)
  have "d' = d(''work_nodes'' := filter (\<lambda>r. r ''id'' \<notin> SText ` set (map wn_id (n # ns))) (d ''work_nodes'') @ r # rs)"
    unfolding rs(2) f by (simp add: r(2))
  with r(1) rs(1) show ?case by (intro exI [of _ "r # rs"]) simp
qed simp

definition edge_cols :: "string \<Rightarrow> work_edge \<Rightarrow> row \<Rightarrow> bool" where
  "edge_cols gid e r \<longleftrightarrow> r ''graph_id'' = SText gid \<and> r ''src_id'' = SText (we_src e) \<and> r ''dst_id'' = SText (we_dst e)"

lemma edge_columns:
  "col_of work_edges_t ''graph_id'' = Some (txn ''graph_id'')"
  "col_of work_edges_t ''src_id'' = Some (txn ''src_id'')"
  "col_of work_edges_t ''dst_id'' = Some (txn ''dst_id'')"
  by (simp_all add: col_of_def work_edges_t_def tab_def column_defs)

lemma write_edge_row:
  assumes "write_edge (JStr gid) (JObj (edge_json e)) d = (Inr u, d')"
  obtains r where "edge_cols gid e r" "d' = d(''work_edges'' := filter (\<lambda>r'. \<not> edge_cols gid e r') (d ''work_edges'') @ [r])"
proof -
  let ?vals = "[(''graph_id'', JStr gid), (''src_id'', JStr (we_src e)), (''dst_id'', JStr (we_dst e))]"
  have "insert_or_replace work_edges_t ?vals d = (Inr (), d')"
    using assms by (simp add: write_edge_def edge_json_def st_bind_def st_lift_def del: bind_all_simps)
  then show thesis
  proof (rule insert_or_replace_ok)
    fix vs
    assume b: "bind_all ?vals = Inr vs"
      and d': "d' = d(tname work_edges_t := filter (\<lambda>r'. \<not> clash work_edges_t (default_nulls work_edges_t (fill_row work_edges_t vs)) r')
          (d (tname work_edges_t)) @ [default_nulls work_edges_t (fill_row work_edges_t vs)])"
    let ?r = "default_nulls work_edges_t (fill_row work_edges_t vs)"
    note f = filled [OF b _ _ edge_columns(1)] filled [OF b _ _ edge_columns(2)] filled [OF b _ _ edge_columns(3)]
    have c: "edge_cols gid e ?r"
      unfolding edge_cols_def by (intro conjI) (simp_all add: f column_defs)
    then have "clash work_edges_t ?r r' \<longleftrightarrow> edge_cols gid e r'" for r'
      by (auto simp: clash_pk edge_keys same_key_def edge_cols_def)
    with c d' show thesis by (intro that [OF c]) simp
  qed
qed

lemma write_edges_rows:
  assumes "st_for (write_edge (JStr gid)) (map (\<lambda>e. JObj (edge_json e)) es) d = (Inr u, d')" "distinct (map edge_key es)"
  shows "\<exists>rs. list_all2 (edge_cols gid) es rs
    \<and> d' = d(''work_edges'' := filter (\<lambda>r. \<not> list_ex (\<lambda>e. edge_cols gid e r) es) (d ''work_edges'') @ rs)"
  using assms
proof (induction es arbitrary: d)
  case (Cons e es)
  then obtain d1 where w: "write_edge (JStr gid) (JObj (edge_json e)) d = (Inr (), d1)"
    and rest: "st_for (write_edge (JStr gid)) (map (\<lambda>e. JObj (edge_json e)) es) d1 = (Inr u, d')"
    by (auto split: prod.splits sum.splits)
  from w obtain r where r: "edge_cols gid e r"
    "d1 = d(''work_edges'' := filter (\<lambda>r'. \<not> edge_cols gid e r') (d ''work_edges'') @ [r])"
    by (rule write_edge_row)
  have "distinct (map edge_key es)" using Cons.prems(2) by simp
  from Cons.IH [OF rest this] obtain rs where rs: "list_all2 (edge_cols gid) es rs"
    "d' = d1(''work_edges'' := filter (\<lambda>r. \<not> list_ex (\<lambda>e. edge_cols gid e r) es) (d1 ''work_edges'') @ rs)"
    by (elim exE conjE)
  have "\<not> list_ex (\<lambda>e. edge_cols gid e r) es"
    using r(1) Cons.prems(2) by (auto simp: edge_cols_def list_ex_iff edge_key_def)
  then have f: "filter (\<lambda>r. \<not> list_ex (\<lambda>e. edge_cols gid e r) es) (d1 ''work_edges'')
    = filter (\<lambda>r. \<not> list_ex (\<lambda>e. edge_cols gid e r) (e # es)) (d ''work_edges'') @ [r]"
    by (simp add: r(2) conj_commute)
  have "d' = d(''work_edges'' := filter (\<lambda>r. \<not> list_ex (\<lambda>e. edge_cols gid e r) (e # es)) (d ''work_edges'') @ r # rs)"
    unfolding rs(2) f by (simp add: r(2))
  with r(1) rs(1) show ?case by (intro exI [of _ "r # rs"]) simp
qed simp

section \<open>Reading them back\<close>

text \<open>A node as it comes back: its JSON values with their keys in order.\<close>

definition norm_node :: "work_node \<Rightarrow> work_node" where
  "norm_node n = n\<lparr>wn_requires := map norm (wn_requires n), wn_outputs := map norm (wn_outputs n),
     wn_metadata := onorm (wn_metadata n)\<rparr>"

text \<open>What the compiler checked, over JSON that came from a file.\<close>

definition storable_node :: "work_node \<Rightarrow> bool" where
  "storable_node n = (strip (wn_id n) \<noteq> [] \<and> strip (wn_objective n) \<noteq> [] \<and> wf_json (JList (wn_requires n))
     \<and> wf_json (JList (wn_outputs n)) \<and> wf_obj (wn_metadata n)
     \<and> (case wn_risk n of JStr _ \<Rightarrow> True | _ \<Rightarrow> False)
     \<and> mk_retry (rp_max (wn_retry n)) (rp_backoff (wn_retry n)) = Inr (wn_retry n)
     \<and> wf_json (rp_max (wn_retry n)) \<and> wf_json (rp_backoff (wn_retry n))
     \<and> mk_placement (JStr (pl_mode (wn_placement n))) (pl_node (wn_placement n)) = Inr (wn_placement n)
     \<and> (case pl_node (wn_placement n) of JNull \<Rightarrow> True | JStr _ \<Rightarrow> True | _ \<Rightarrow> False))"

lemma loads_or_text: "wf_json j \<Longrightarrow> loads_or f (SText (dumps j)) = Inr (norm j)"
  by (simp add: loads_or_def load_or_raise_def loads_dumps_with)

lemma node_kind_round [simp]: "coerce_enum NODE_KINDS (JStr (node_kind_value k)) = Inr k"
  by (cases k) (simp_all add: coerce_enum_def NODE_KINDS_def)

lemma graph_status_round [simp]: "coerce_enum GRAPH_STATUSES (JStr (graph_status_value k)) = Inr k"
  by (cases k) (simp_all add: coerce_enum_def GRAPH_STATUSES_def)

lemma node_status_round [simp]: "coerce_enum NODE_STATUSES (JStr (node_status_value k)) = Inr k"
  by (cases k) (simp_all add: coerce_enum_def NODE_STATUSES_def)

lemma below_one_norm: "below_one j = Inr b \<Longrightarrow> norm j = j"
  by (cases j) auto

lemma below_zero_norm: "below_zero j = Inr b \<Longrightarrow> norm j = j"
  by (cases j) auto

lemma mk_retry_fields:
  assumes "mk_retry m b = Inr r"
  shows "norm m = m" "norm b = b" "rp_max r = m" "rp_backoff r = b"
  using assms by (auto simp: mk_retry_def rbind_ok below_one_norm below_zero_norm)

lemma retry_round:
  assumes "mk_retry (rp_max r) (rp_backoff r) = Inr r" "wf_json (rp_max r)" "wf_json (rp_backoff r)"
  shows "rbind (loads_or f (SText (dumps (retry_json r)))) retry_of = Inr r"
proof -
  have "norm (retry_json r) = JObj [(''backoff_s'', rp_backoff r), (''max_attempts'', rp_max r)]"
    by (simp add: retry_json_def mk_retry_fields(1,2) [OF assms(1)])
  then have "loads_or f (SText (dumps (retry_json r))) = Inr (JObj [(''backoff_s'', rp_backoff r), (''max_attempts'', rp_max r)])"
    using assms(2,3) by (subst loads_or_text) (simp_all add: retry_json_def)
  then show ?thesis using assms(1) by (simp add: retry_of_def kwargs_def oget_or_def)
qed

lemma placement_round:
  assumes "mk_placement (JStr (pl_mode p)) (pl_node p) = Inr p" "case pl_node p of JNull \<Rightarrow> True | JStr _ \<Rightarrow> True | _ \<Rightarrow> False"
  shows "rbind (loads_or f (SText (dumps (placement_json p)))) placement_of = Inr p"
proof -
  have n: "norm (pl_node p) = pl_node p" "wf_json (pl_node p)" using assms(2) by (cases "pl_node p"; simp)+
  then have "loads_or f (SText (dumps (placement_json p))) = Inr (JObj [(''mode'', JStr (pl_mode p)), (''node_id'', pl_node p)])"
    by (subst loads_or_text) (simp_all add: placement_json_def)
  then show ?thesis using assms(1) by (simp add: placement_of_def kwargs_def oget_or_def oget_def)
qed

lemma list_round: "wf_json (JList xs) \<Longrightarrow> rbind (loads_or f (SText (dumps (JList xs)))) jiter = Inr (map norm xs)"
  by (simp add: loads_or_text del: dumps_with.simps)

lemma read_node:
  assumes "node_cols gid n r" "storable_node n" "strip gid \<noteq> []" "wn_graph n = gid"
  shows "node_of_row r = Inr (norm_node n)"
proof -
  from assms(2) obtain s where s: "wn_risk n = JStr s" by (auto simp: storable_node_def split: json.splits)
  note st = assms(2) [unfolded storable_node_def]
  have md: "loads_or (JObj []) (r ''metadata_json'') = Inr (JObj (onorm (wn_metadata n)))"
    using assms(1) st by (simp add: node_cols_def loads_or_text wf_obj_def norm_JObj del: dumps_with.simps norm.simps)
  obtain rt' where rt': "loads_or (JObj []) (r ''retry_json'') = Inr rt'" "retry_of rt' = Inr (wn_retry n)"
    using retry_round [of "wn_retry n" "JObj []"] assms(1) st by (auto simp: node_cols_def rbind_ok simp del: dumps_with.simps)
  have pl: "rbind (loads_or local_placement (r ''placement_json'')) placement_of = Inr (wn_placement n)"
    using placement_round [of "wn_placement n" local_placement] assms(1) st by (simp add: node_cols_def del: dumps_with.simps)
  have l: "rbind (loads_or (JList []) (r ''requires_json'')) jiter = Inr (map norm (wn_requires n))"
    "rbind (loads_or (JList []) (r ''expected_outputs_json'')) jiter = Inr (map norm (wn_outputs n))"
    using list_round [of "wn_requires n" "JList []"] list_round [of "wn_outputs n" "JList []"] assms(1) st
    by (simp_all add: node_cols_def del: dumps_with.simps)
  have c: "r ''id'' = SText (wn_id n)" "r ''graph_id'' = SText gid" "r ''kind'' = SText (node_kind_value (wn_kind n))"
    "r ''objective'' = SText (wn_objective n)" "r ''risk'' = SText s"
    "r ''approval_required'' = SInt (if wn_approval n then 1 else 0)"
    "r ''independent_review'' = SInt (if wn_review n then 1 else 0)"
    "r ''evidence_required'' = SInt (if wn_evidence n then 1 else 0)"
    using assms(1) s unfolding node_cols_def by simp_all
  have t: "require_text (JStr (wn_id n)) = Inr (wn_id n)" "require_text (JStr gid) = Inr gid"
    "require_text (JStr (wn_objective n)) = Inr (wn_objective n)"
    using st assms(3) by (simp_all add: require_text_def)
  show ?thesis
    unfolding node_of_row_def c from_sql.simps rt' pl l md t node_kind_round rbind_simps
    using assms(4) s by (simp add: dict_of_def norm_node_def)
qed

lemma read_edge:
  assumes "edge_cols gid e r" "strip gid \<noteq> []" "we_graph e = gid" "strip (we_src e) \<noteq> []" "strip (we_dst e) \<noteq> []" "we_src e \<noteq> we_dst e"
  shows "edge_of_row r = Inr e"
  using assms by (cases e) (simp add: edge_of_row_def edge_cols_def mk_edge_def require_text_def rguard_def)

lemma rmap_all2: "list_all2 (\<lambda>x r. f r = Inr (g x)) xs rs \<Longrightarrow> rmap f rs = Inr (map g xs)"
  by (induction rule: list_all2_induct) simp_all

section \<open>Events of the work domain\<close>

lemma apply_event_work:
  assumes "oget env ''event_type'' = JStr ty" "list_ex (starts_with ty) [''run.'', ''step.'']" "apply_event env d = (Inr x, d')"
  shows "\<exists>b. apply_work env d = (Inr b, d')"
proof -
  from assms(2) consider u where "ty = ''run.'' @ u" | u where "ty = ''step.'' @ u" by (auto simp: starts_with_iff)
  then have "domain_for_event env = Inr (Some ''work_projection'')"
    by cases (use assms(1) in \<open>simp_all add: domain_for_event_def jor_def\<close>)
  with assms(3) show ?thesis by (auto simp: apply_event_def st_bind_ok st_lift_def st_ret_def)
qed

lemma emit_as_ok:
  assumes "emit_as R K e w = (Inr env, w')"
  obtains w1 x where "append_event R (c_ts K) (c_eid K) e w = (Inr env, w1)"
    "apply_event env (wdb w1) = (Inr x, wdb w')" "oget env ''event_type'' = JStr (ev_type e)"
    "payload_of env = scrub_payload R (ev_payload e)"
    "\<forall>q. q \<noteq> ''memory_events'' \<longrightarrow> wdb w1 q = wdb w q"
proof -
  from assms obtain w1 x where a: "append_event R (c_ts K) (c_eid K) e w = (Inr env, w1)"
    and ev: "apply_event env (wdb w1) = (Inr x, wdb w')"
    by (auto simp: emit_as_def emit_def st_bind_ok apply_on_ok st_ret_def)
  have f: "oget env ''event_type'' = JStr (ev_type e)" "payload_of env = scrub_payload R (ev_payload e)"
    by (rule append_event_env [OF a], simp add: oget_prepared)+
  from that [OF a ev f] append_event_tables [OF a] show thesis by blast
qed

definition graph_cols :: "work_graph \<Rightarrow> row \<Rightarrow> bool" where
  "graph_cols g r \<longleftrightarrow> r ''id'' = SText (wg_id g) \<and> r ''objective'' = SText (wg_objective g)
     \<and> r ''constraints_json'' = SText (dumps (JList (wg_constraints g)))
     \<and> r ''success_criteria_json'' = SText (dumps (JList (wg_success g)))
     \<and> r ''status'' = SText (graph_status_value (wg_status g)) \<and> r ''version'' = SInt (wg_version g)"

lemma graph_columns:
  "col_of work_graphs_t ''id'' = Some (tx ''id'')"
  "col_of work_graphs_t ''objective'' = Some (txn ''objective'')"
  "col_of work_graphs_t ''constraints_json'' = Some (txn ''constraints_json'')"
  "col_of work_graphs_t ''success_criteria_json'' = Some (txn ''success_criteria_json'')"
  "col_of work_graphs_t ''status'' = Some (txn ''status'')"
  "col_of work_graphs_t ''version'' = Some (inn ''version'')"
  by (simp_all add: col_of_def work_graphs_t_def tab_def column_defs)

lemma graph_keys: "tpk work_graphs_t = [''id'']" "tuniq work_graphs_t = []"
  by (simp_all add: work_graphs_t_def tab_def)

lemma write_graph_row:
  assumes "insert_or_replace work_graphs_t
      [(''id'', JStr (wg_id g)), (''objective'', JStr (wg_objective g)),
       (''constraints_json'', JStr (dumps (JList (wg_constraints g)))),
       (''success_criteria_json'', JStr (dumps (JList (wg_success g)))),
       (''status'', JStr (graph_status_value (wg_status g))), (''version'', JInt (wg_version g)),
       (''created_at'', t1), (''updated_at'', t2)] d = (Inr u, d')" (is "insert_or_replace _ ?vals d = _")
  obtains r where "graph_cols g r" "d' = d(''work_graphs'' := filter (\<lambda>r'. r' ''id'' \<noteq> SText (wg_id g)) (d ''work_graphs'') @ [r])"
  using assms
proof (rule insert_or_replace_ok)
  fix vs
  assume b: "bind_all ?vals = Inr vs"
    and d': "d' = d(tname work_graphs_t := filter (\<lambda>r'. \<not> clash work_graphs_t (default_nulls work_graphs_t (fill_row work_graphs_t vs)) r')
        (d (tname work_graphs_t)) @ [default_nulls work_graphs_t (fill_row work_graphs_t vs)])"
  let ?r = "default_nulls work_graphs_t (fill_row work_graphs_t vs)"
  obtain v where "bindv (JInt (wg_version g)) = Inr v"
    using map_of_bind_all [OF b, of "''version''" "JInt (wg_version g)"] by auto
  then have v: "bindv (JInt (wg_version g)) = Inr (SInt (wg_version g))" by (auto split: if_splits)
  note f = filled [OF b _ _ graph_columns(1)] filled [OF b _ _ graph_columns(2)] filled [OF b _ _ graph_columns(3)]
    filled [OF b _ _ graph_columns(4)] filled [OF b _ _ graph_columns(5)] filled [OF b _ v graph_columns(6)]
  have c: "graph_cols g ?r"
    unfolding graph_cols_def by (intro conjI) (simp_all add: f column_defs del: dumps_with.simps)
  then have "clash work_graphs_t ?r r' \<longleftrightarrow> r' ''id'' = SText (wg_id g)" for r'
    by (auto simp: clash_pk graph_keys same_key_def graph_cols_def)
  with c d' show thesis by (intro that [OF c]) simp
qed

definition node_ids :: "work_graph \<Rightarrow> sqlv set" where
  "node_ids g = SText ` set (map wn_id (wg_nodes g))"

lemma create_rows:
  assumes "create_graph R K g w = (Inr u, w')" "scrub_payload R (graph_payload g (c_now K)) = graph_payload g (c_now K)"
    and "distinct (map wn_id (wg_nodes g))" "distinct (map edge_key (wg_edges g))"
  obtains gr nrs ers where "graph_cols g gr" "list_all2 (node_cols (wg_id g)) (wg_nodes g) nrs"
    "list_all2 (edge_cols (wg_id g)) (wg_edges g) ers"
    "wdb w' ''work_graphs'' = filter (\<lambda>r'. r' ''id'' \<noteq> SText (wg_id g)) (wdb w ''work_graphs'') @ [gr]"
    "wdb w' ''work_nodes'' = filter (\<lambda>r. r ''id'' \<notin> node_ids g) (wdb w ''work_nodes'') @ nrs"
    "wdb w' ''work_edges'' = filter (\<lambda>r. \<not> list_ex (\<lambda>e. edge_cols (wg_id g) e r) (wg_edges g)) (wdb w ''work_edges'') @ ers"
proof -
  let ?p = "graph_payload g (c_now K)"
  from assms(1) obtain env where em: "emit_as R K (graph_event ''run.created'' (wg_id g) ?p) w = (Inr env, w')"
    by (auto simp: create_graph_def st_bind_ok st_ret_def)
  let ?e = "graph_event ''run.created'' (wg_id g) ?p"
  from em obtain w1 x where "append_event R (c_ts K) (c_eid K) ?e w = (Inr env, w1)"
    and ev: "apply_event env (wdb w1) = (Inr x, wdb w')"
    and f: "oget env ''event_type'' = JStr (ev_type ?e)" "payload_of env = scrub_payload R (ev_payload ?e)"
    and same: "\<forall>q. q \<noteq> ''memory_events'' \<longrightarrow> wdb w1 q = wdb w q"
    by (rule emit_as_ok)
  have ty: "oget env ''event_type'' = JStr ''run.created''" and p: "payload_of env = ?p"
    using f assms(2) by (simp_all add: graph_event_def event_def)
  from apply_event_work [OF ty _ ev] obtain b where "apply_run_created ?p (oget env ''timestamp'') (wdb w1) = (Inr b, wdb w')"
    by (auto simp: apply_work_def ty p Let_def starts_with_iff)
  then obtain t1 t2 d1 d2 where
    g: "insert_or_replace work_graphs_t
      [(''id'', JStr (wg_id g)), (''objective'', JStr (wg_objective g)),
       (''constraints_json'', JStr (dumps (JList (wg_constraints g)))),
       (''success_criteria_json'', JStr (dumps (JList (wg_success g)))),
       (''status'', JStr (graph_status_value (wg_status g))), (''version'', JInt (wg_version g)),
       (''created_at'', t1), (''updated_at'', t2)] (wdb w1) = (Inr (), d1)"
    and n: "st_for (write_node (JStr (wg_id g))) (map (\<lambda>n. JObj (node_json n)) (wg_nodes g)) d1 = (Inr (), d2)"
    and e: "st_for (write_edge (JStr (wg_id g))) (map (\<lambda>e. JObj (edge_json e)) (wg_edges g)) d2 = (Inr (), wdb w')"
    by (auto simp: apply_run_created_def graph_payload_def missing_def oget_def oget_or_def Let_def st_bind_ok st_lift_def st_ret_def
        simp del: bind_all_simps dumps_with.simps)
  from write_graph_row [OF g] obtain gr where gr: "graph_cols g gr"
    "d1 = (wdb w1)(''work_graphs'' := filter (\<lambda>r'. r' ''id'' \<noteq> SText (wg_id g)) (wdb w1 ''work_graphs'') @ [gr])" by blast
  from write_nodes_rows [OF n assms(3)] obtain nrs where nrs: "list_all2 (node_cols (wg_id g)) (wg_nodes g) nrs"
    "d2 = d1(''work_nodes'' := filter (\<lambda>r. r ''id'' \<notin> node_ids g) (d1 ''work_nodes'') @ nrs)"
    unfolding node_ids_def by (elim exE conjE)
  from write_edges_rows [OF e assms(4)] obtain ers where ers: "list_all2 (edge_cols (wg_id g)) (wg_edges g) ers"
    "wdb w' = d2(''work_edges'' := filter (\<lambda>r. \<not> list_ex (\<lambda>e. edge_cols (wg_id g) e r) (wg_edges g)) (d2 ''work_edges'') @ ers)"
    by (elim exE conjE)
  show thesis
    by (rule that [OF gr(1) nrs(1) ers(1)]) (simp_all add: ers(2) nrs(2) gr(2) same)
qed

section \<open>Round trip\<close>

definition storable_graph :: "work_graph \<Rightarrow> bool" where
  "storable_graph g \<longleftrightarrow> graph_wf g \<and> distinct (map edge_key (wg_edges g)) \<and> list_all storable_node (wg_nodes g)
     \<and> list_all (\<lambda>e. strip (we_src e) \<noteq> [] \<and> strip (we_dst e) \<noteq> [] \<and> we_src e \<noteq> we_dst e) (wg_edges g)
     \<and> strip (wg_objective g) \<noteq> [] \<and> wf_json (JList (wg_constraints g)) \<and> wf_json (JList (wg_success g))"

lemma eq_text [simp]:
  "eq_val work_nodes_t ''graph_id'' (SText s) = (\<lambda>r. r ''graph_id'' = SText s)"
  "eq_val work_edges_t ''graph_id'' (SText s) = (\<lambda>r. r ''graph_id'' = SText s)"
  "eq_val work_graphs_t ''id'' (SText s) = (\<lambda>r. r ''id'' = SText s)"
  "eq_val work_nodes_t ''id'' (SText s) = (\<lambda>r. r ''id'' = SText s)"
  by (auto simp: fun_eq_iff eq_val_def aff_of_def node_columns edge_columns graph_columns column_defs)

lemma all2_map: "list_all2 P xs rs \<Longrightarrow> (\<And>x r. P x r \<Longrightarrow> f r = g x) \<Longrightarrow> map f rs = map g xs"
  by (induction rule: list_all2_induct) auto

lemma all2_range: "list_all2 P xs rs \<Longrightarrow> r \<in> set rs \<Longrightarrow> \<exists>x. P x r"
  by (induction rule: list_all2_induct) auto

lemma all2_filter_True: "list_all2 P xs rs \<Longrightarrow> (\<And>x r. P x r \<Longrightarrow> Q r) \<Longrightarrow> filter Q rs = rs"
  by (induction rule: list_all2_induct) auto

lemma all2_rmap:
  "list_all2 P xs rs \<Longrightarrow> (\<And>x r. x \<in> set xs \<Longrightarrow> P x r \<Longrightarrow> f r = Inr (g x)) \<Longrightarrow> rmap f rs = Inr (map g xs)"
proof (induction rule: list_all2_induct)
  case (Cons x xs y ys)
  have "f y = Inr (g x)" by (rule Cons.prems) (use Cons.hyps in simp_all)
  moreover have "rmap f ys = Inr (map g xs)" by (rule Cons.IH) (use Cons.prems in simp)
  ultimately show ?case by simp
qed simp


text \<open>Node ids are global. Creating a graph takes the row of every node whose id it uses,
  whatever graph that row belonged to: afterwards no node of another graph has such an id,
  and the row is a pending node of the new graph.\<close>

theorem creation_takes_over_node_ids:
  assumes "create_graph R K g w = (Inr u, w')" "scrub_payload R (graph_payload g (c_now K)) = graph_payload g (c_now K)"
    and "distinct (map wn_id (wg_nodes g))" "distinct (map edge_key (wg_edges g))" "n \<in> set (wg_nodes g)"
  shows "(\<exists>r. node_row (wn_id n) (wdb w') = Some r \<and> r ''graph_id'' = SText (wg_id g) \<and> r ''status'' = SText ''pending'')
    \<and> (\<forall>h. h \<noteq> wg_id g \<longrightarrow> \<not> list_ex (\<lambda>r. r ''id'' = SText (wn_id n)) (node_rows h (wdb w')))"
proof -
  obtain gr nrs ers where n2: "list_all2 (node_cols (wg_id g)) (wg_nodes g) nrs"
    and nodes: "wdb w' ''work_nodes'' = filter (\<lambda>r. r ''id'' \<notin> node_ids g) (wdb w ''work_nodes'') @ nrs"
    by (rule create_rows [OF assms(1-4)])
  have i: "SText (wn_id n) \<in> node_ids g" using assms(5) by (auto simp: node_ids_def)
  have cols: "r ''graph_id'' = SText (wg_id g) \<and> r ''status'' = SText ''pending''" if "r \<in> set nrs" for r
  proof -
    from all2_range [OF n2 that] obtain m where "node_cols (wg_id g) m r" by blast
    then show ?thesis by (simp add: node_cols_def)
  qed
  obtain r where r: "r \<in> set nrs" "node_cols (wg_id g) n r"
    using n2 assms(5) by (metis in_set_conv_nth list_all2_conv_all_nth)
  have old: "filter (\<lambda>r. r ''id'' = SText (wn_id n)) (filter (\<lambda>r. r ''id'' \<notin> node_ids g) (wdb w ''work_nodes'')) = []"
    using i by (auto simp: filter_empty_conv)
  have "select_by work_nodes_t ''id'' (wn_id n) (wdb w') = filter (\<lambda>r. r ''id'' = SText (wn_id n)) nrs"
    using old by (simp add: select_by_def nodes)
  moreover have "filter (\<lambda>r. r ''id'' = SText (wn_id n)) nrs \<noteq> []"
    using r by (auto simp: filter_empty_conv node_cols_def)
  then obtain r1 rs1 where f: "filter (\<lambda>r. r ''id'' = SText (wn_id n)) nrs = r1 # rs1" by (auto simp: neq_Nil_conv)
  have "r1 \<in> set (filter (\<lambda>r. r ''id'' = SText (wn_id n)) nrs)" by (simp only: f list.set) simp
  then have "r1 \<in> set nrs" by simp
  moreover note f
  ultimately have r1: "node_row (wn_id n) (wdb w') = Some r1" "r1 \<in> set nrs"
    by (simp_all add: node_row_def first_by_def f)
  with cols have "r1 ''graph_id'' = SText (wg_id g)" "r1 ''status'' = SText ''pending''"
    by simp_all
  moreover have "\<not> list_ex (\<lambda>r. r ''id'' = SText (wn_id n)) (node_rows h (wdb w'))" if "h \<noteq> wg_id g" for h
  proof -
    have "\<forall>r \<in> set nrs. r ''graph_id'' \<noteq> SText h"
    proof
      fix r
      assume "r \<in> set nrs"
      from cols [OF this] that show "r ''graph_id'' \<noteq> SText h" by simp
    qed
    with i show ?thesis by (auto simp: list_ex_iff node_rows_def select_by_def nodes)
  qed
  ultimately show ?thesis using r1 by blast
qed

section \<open>Status changes and outputs\<close>

lemma update_where_at:
  "d2 (tname t) = d (tname t) \<Longrightarrow> update_where t p f d = (Inr n, d') \<Longrightarrow>
    update_where t p f d2 = (Inr n, d2(tname t := d' (tname t)))"
  by (auto simp: update_where_def split: sum.splits)

lemma update_by_at:
  assumes "update_by t sets upd key k d = (Inr n, d')" "d2 (tname t) = d (tname t)"
  shows "update_by t sets upd key k d2 = (Inr n, d2(tname t := d' (tname t)))"
proof -
  from assms(1) obtain vs kv where "bind_all sets = Inr vs" "bindv k = Inr kv"
    "update_where t (eq_val t key kv) (\<lambda>r. upd (set_cols t vs r)) d = (Inr n, d')"
    by (auto simp: update_by_def st_bind_ok st_lift_def)
  with update_where_at [of d2 t d, OF assms(2)] show ?thesis by (simp add: update_by_def st_bind_def st_lift_def)
qed

lemma step_ok:
  assumes "emit_as R K (node_event ty nid p) w = (Inr env, w')" "ty \<in> set [''step.started'', ''step.completed'', ''step.failed'']"
    and "oget (scrub_payload R p) ''node_id'' = JStr nid"
  obtains n where "update_by work_nodes_t
      ((if oget (scrub_payload R p) ''to'' \<noteq> JNull then [(''status'', oget (scrub_payload R p) ''to'')] else [])
       @ (if oget (scrub_payload R p) ''output'' \<noteq> JNull then [(''output_json'', JStr (dumps (oget (scrub_payload R p) ''output'')))] else []))
      bump_version ''id'' (JStr nid) (wdb w) = (Inr n, (wdb w)(''work_nodes'' := wdb w' ''work_nodes''))"
    "\<forall>q. q \<notin> {''memory_events'', ''work_nodes''} \<longrightarrow> wdb w' q = wdb w q"
proof -
  let ?e = "node_event ty nid p" and ?q = "scrub_payload R p"
  let ?sets = "(if oget ?q ''to'' \<noteq> JNull then [(''status'', oget ?q ''to'')] else [])
       @ (if oget ?q ''output'' \<noteq> JNull then [(''output_json'', JStr (dumps (oget ?q ''output'')))] else [])"
  from assms(1) obtain w1 x where "append_event R (c_ts K) (c_eid K) ?e w = (Inr env, w1)"
    and ev: "apply_event env (wdb w1) = (Inr x, wdb w')"
    and f: "oget env ''event_type'' = JStr (ev_type ?e)" "payload_of env = scrub_payload R (ev_payload ?e)"
    and same: "\<forall>q. q \<noteq> ''memory_events'' \<longrightarrow> wdb w1 q = wdb w q"
    by (rule emit_as_ok)
  have ty: "oget env ''event_type'' = JStr ty" and p: "payload_of env = ?q"
    using f by (simp_all add: node_event_def event_def)
  have l: "list_ex (starts_with ty) [''run.'', ''step.'']" using assms(2) by auto
  from apply_event_work [OF ty l ev] obtain b where "apply_step ?q (wdb w1) = (Inr b, wdb w')"
    using assms(2) by (auto simp: apply_work_def ty p Let_def)
  then obtain n where u: "update_by work_nodes_t ?sets bump_version ''id'' (JStr nid) (wdb w1) = (Inr n, wdb w')"
    by (auto simp: apply_step_def assms(3) st_bind_ok st_ret_def)
  obtain vs kv where v: "bind_all ?sets = Inr vs" "bindv (JStr nid) = Inr kv"
    "wdb w' = (wdb w1)(tname work_nodes_t := map (\<lambda>r. if eq_val work_nodes_t ''id'' kv r then bump_version (set_cols work_nodes_t vs r) else r) (wdb w1 (tname work_nodes_t)))"
    by (rule update_by_ok [OF u])
  have "wdb w1 ''work_nodes'' = wdb w ''work_nodes''" using same by simp
  with update_by_at [OF u, of "wdb w"]
  have "update_by work_nodes_t ?sets bump_version ''id'' (JStr nid) (wdb w) = (Inr n, (wdb w)(''work_nodes'' := wdb w' ''work_nodes''))"
    by simp
  moreover have "\<forall>q. q \<notin> {''memory_events'', ''work_nodes''} \<longrightarrow> wdb w' q = wdb w q"
    using v(3) same by simp
  ultimately show thesis by (rule that)
qed

lemma work_node_update:
  assumes "update_by work_nodes_t sets bump_version ''id'' (JStr nid) d = (Inr n, d')" "bind_all sets = Inr vs" "''id'' \<notin> fst ` set vs"
  shows "d' ''work_nodes'' = map (\<lambda>r. if r ''id'' = SText nid then bump_version (set_cols work_nodes_t vs r) else r) (d ''work_nodes'')"
    "node_row nid d' = map_option (\<lambda>r. bump_version (set_cols work_nodes_t vs r)) (node_row nid d)"
proof -
  have d': "d' = d(tname work_nodes_t := map (\<lambda>r. if r ''id'' = SText nid then bump_version (set_cols work_nodes_t vs r) else r) (d (tname work_nodes_t)))"
    by (rule update_by_ok [OF assms(1)]) (use assms(2) in \<open>auto simp del: tname_simps\<close>)
  then show "d' ''work_nodes'' = map (\<lambda>r. if r ''id'' = SText nid then bump_version (set_cols work_nodes_t vs r) else r) (d ''work_nodes'')"
    by simp
  have "bump_version (set_cols work_nodes_t vs r) ''id'' = r ''id''" for r
    using set_cols_other [OF assms(3)] by (simp add: bump_version_def)
  from first_by_update [OF d', of "''id''" nid, OF this]
  have u: "node_row nid d' = map_option (\<lambda>r. if r ''id'' = SText nid then bump_version (set_cols work_nodes_t vs r) else r) (node_row nid d)"
    by (simp add: node_row_def)
  then show "node_row nid d' = map_option (\<lambda>r. bump_version (set_cols work_nodes_t vs r)) (node_row nid d)"
  proof (cases "node_row nid d")
    case (Some r)
    with first_by_key have "r ''id'' = SText nid" by (fastforce simp: node_row_def)
    with u Some show ?thesis by simp
  qed (use u in simp)
qed

lemma node_row_table: "d' ''work_nodes'' = d ''work_nodes'' \<Longrightarrow> node_row nid d' = node_row nid d"
  by (simp add: node_row_def first_by_def select_by_def)

lemma node_status_aff: "coerce (aff_of work_nodes_t ''status'') v = coerce TextA v"
  "coerce (aff_of work_nodes_t ''output_json'') v = coerce TextA v"
  by (simp_all add: aff_of_def col_of_def work_nodes_t_def tab_def column_defs)

definition keeps_node_words :: "rt \<Rightarrow> bool" where
  "keeps_node_words R = (\<forall>p \<in> set NODE_STATUSES. rt_scrub R (fst p) = fst p)"

lemma node_status_scrub: "keeps_node_words R \<Longrightarrow> rt_scrub R (node_status_value s) = node_status_value s"
  by (cases s) (simp_all add: keeps_node_words_def NODE_STATUSES_def)

lemma emit_node_status_ok:
  assumes "emit_node_status R K nid s w = (Inr u, w')" "keeps_node_words R" "rt_scrub R nid = nid"
  shows "node_row nid (wdb w') = map_option (\<lambda>r. bump_version (r(''status'' := SText (node_status_value s)))) (node_row nid (wdb w))"
    "wdb w' ''work_nodes'' = map (\<lambda>r. if r ''id'' = SText nid then bump_version (r(''status'' := SText (node_status_value s))) else r) (wdb w ''work_nodes'')"
    "\<forall>q. q \<notin> {''memory_events'', ''work_nodes''} \<longrightarrow> wdb w' q = wdb w q"
proof -
  let ?p = "[(''node_id'', JStr nid), (''to'', JStr (node_status_value s))]"
  let ?ty = "case map_of NODE_STATUS_EVENTS s of None \<Rightarrow> ''step.started'' | Some ty \<Rightarrow> ty"
  from assms(1) obtain env where em: "emit_as R K (node_event ?ty nid ?p) w = (Inr env, w')"
    by (auto simp: emit_node_status_def st_bind_ok st_ret_def)
  have ty: "?ty \<in> set [''step.started'', ''step.completed'', ''step.failed'']"
    by (cases s) (simp_all add: NODE_STATUS_EVENTS_def)
  have i: "oget (scrub_payload R ?p) ''node_id'' = JStr nid"
    "oget (scrub_payload R ?p) ''to'' = JStr (node_status_value s)" "oget (scrub_payload R ?p) ''output'' = JNull"
    using assms(3) node_status_scrub [OF assms(2), of s] by (simp_all add: scrub_oget) (simp_all add: oget_def)
  from step_ok [OF em ty i(1)] obtain n where
    u: "update_by work_nodes_t [(''status'', JStr (node_status_value s))] bump_version ''id'' (JStr nid) (wdb w)
      = (Inr n, (wdb w)(''work_nodes'' := wdb w' ''work_nodes''))"
    and k: "\<forall>q. q \<notin> {''memory_events'', ''work_nodes''} \<longrightarrow> wdb w' q = wdb w q"
    unfolding i by auto
  show "\<forall>q. q \<notin> {''memory_events'', ''work_nodes''} \<longrightarrow> wdb w' q = wdb w q" by (rule k)
  have "bind_all [(''status'', JStr (node_status_value s))] = Inr [(''status'', SText (node_status_value s))]" by simp
  note w = work_node_update [OF u this]
  show "wdb w' ''work_nodes'' = map (\<lambda>r. if r ''id'' = SText nid then bump_version (r(''status'' := SText (node_status_value s))) else r) (wdb w ''work_nodes'')"
    using w(1) by (simp add: node_status_aff)
  show "node_row nid (wdb w') = map_option (\<lambda>r. bump_version (r(''status'' := SText (node_status_value s)))) (node_row nid (wdb w))"
    using w(2) node_row_table [of "wdb w'" "(wdb w)(''work_nodes'' := wdb w' ''work_nodes'')" nid] by (simp add: node_status_aff)
qed

text \<open>a status change is a compare-and-swap on the version. With another version than the
  stored one it raises and changes nothing; when it returns, the node has the new status
  and the next version, every other node is as it was, and a second change that expects
  the same version is refused.\<close>

theorem node_status_compare_and_swap:
  assumes "node_row nid (wdb w) = Some r" "r ''state_version'' = SInt v" "keeps_node_words R" "rt_scrub R nid = nid"
  shows "(expected \<noteq> v \<longrightarrow> set_node_status R K nid (JStr (node_status_value s)) expected w = (Inl (ConcurrentWorkUpdate nid), w))
    \<and> (set_node_status R K nid (JStr (node_status_value s)) expected w = (Inr (), w') \<longrightarrow>
        expected = v
        \<and> (\<exists>r'. node_row nid (wdb w') = Some r' \<and> r' ''status'' = SText (node_status_value s) \<and> r' ''state_version'' = SInt (v + 1))
        \<and> filter (\<lambda>r. r ''id'' \<noteq> SText nid) (wdb w' ''work_nodes'') = filter (\<lambda>r. r ''id'' \<noteq> SText nid) (wdb w ''work_nodes'')
        \<and> set_node_status R K2 nid (JStr (node_status_value s2)) expected w' = (Inl (ConcurrentWorkUpdate nid), w'))"
proof -
  have nv: "node_state_version nid (wdb w) = Inr v" by (simp add: node_state_version_def assms(1,2))
  have stale: "set_node_status R K nid (JStr (node_status_value s)) e w = (Inl (ConcurrentWorkUpdate nid), w)"
    if "node_state_version nid (wdb w) = Inr v'" "v' \<noteq> e" for K s e v' w
    using that by (simp add: set_node_status_def check_version_def st_bind_def st_lift_def st_get_def raise_unless_def st_raise_def)
  have upd: "filter (\<lambda>r. r ''id'' \<noteq> SText nid) (map (\<lambda>r. if r ''id'' = SText nid then bump_version (r(''status'' := x)) else r) rs)
      = filter (\<lambda>r. r ''id'' \<noteq> SText nid) rs" for x and rs :: "row list"
    by (induction rs) (auto simp: bump_version_def)
  have ok: "expected = v
        \<and> (\<exists>r'. node_row nid (wdb w') = Some r' \<and> r' ''status'' = SText (node_status_value s) \<and> r' ''state_version'' = SInt (v + 1))
        \<and> filter (\<lambda>r. r ''id'' \<noteq> SText nid) (wdb w' ''work_nodes'') = filter (\<lambda>r. r ''id'' \<noteq> SText nid) (wdb w ''work_nodes'')
        \<and> set_node_status R K2 nid (JStr (node_status_value s2)) expected w' = (Inl (ConcurrentWorkUpdate nid), w')"
    if m: "set_node_status R K nid (JStr (node_status_value s)) expected w = (Inr (), w')"
  proof -
    have e: "expected = v" using m stale [OF nv, of expected K s] by (cases "v = expected") auto
    from m nv e have "emit_node_status R K nid s w = (Inr (), w')"
      by (simp add: set_node_status_def check_version_def st_bind_def st_lift_def st_get_def raise_unless_def st_ret_def)
    note em = emit_node_status_ok [OF this assms(3,4)]
    let ?r = "bump_version (r(''status'' := SText (node_status_value s)))"
    have r: "node_row nid (wdb w') = Some ?r" using em(1) assms(1) by simp
    have c: "?r ''status'' = SText (node_status_value s)" "?r ''state_version'' = SInt (v + 1)"
      using assms(2) by (simp_all add: bump_version_def)
    from r c(2) have "node_state_version nid (wdb w') = Inr (v + 1)" by (simp add: node_state_version_def)
    from stale [OF this] e have "set_node_status R K2 nid (JStr (node_status_value s2)) expected w' = (Inl (ConcurrentWorkUpdate nid), w')"
      by simp
    with e r c em(2) upd show ?thesis by simp
  qed
  show ?thesis using stale [OF nv, of expected K s] ok by auto
qed

text \<open>An output recorded for a node is what the node's output reads, up to the order of
  keys; recording does not change the node's status and moves its version on.\<close>

theorem recorded_outputs_read_back:
  assumes "record_output R K nid out expected w = (Inr (), w')" "rt_scrub R nid = nid"
    and "scrub_json (rt_scrub R) (JObj out) = JObj out" "wf_obj out" "node_row nid (wdb w) = Some r"
  shows "node_output nid (wdb w') = Inr (JObj (onorm out))
    \<and> map_option (\<lambda>r. r ''status'') (node_row nid (wdb w')) = Some (r ''status'')
    \<and> node_state_version nid (wdb w) = Inr expected
    \<and> (\<forall>v. r ''state_version'' = SInt v \<longrightarrow> node_state_version nid (wdb w') = Inr (v + 1))"
proof -
  let ?p = "[(''node_id'', JStr nid), (''output'', JObj out)]"
  from assms(1) obtain env where ver: "node_state_version nid (wdb w) = Inr expected"
    and em: "emit_as R K (node_event ''step.completed'' nid ?p) w = (Inr env, w')"
    by (auto simp: record_output_def record_value_def check_version_def st_bind_ok st_get_def st_lift_def st_ret_def raise_unless_def st_raise_def split: if_splits)
  have i: "oget (scrub_payload R ?p) ''node_id'' = JStr nid" "oget (scrub_payload R ?p) ''to'' = JNull"
    "oget (scrub_payload R ?p) ''output'' = JObj out"
    using assms(2,3) by (simp_all add: scrub_oget) (simp_all add: oget_def)
  have ty: "''step.completed'' \<in> set [''step.started'', ''step.completed'', ''step.failed'']" by simp
  let ?sets = "[(''output_json'', JStr (dumps (JObj out)))]"
  let ?q = "scrub_payload R ?p"
  obtain n where "update_by work_nodes_t
      ((if oget ?q ''to'' \<noteq> JNull then [(''status'', oget ?q ''to'')] else [])
       @ (if oget ?q ''output'' \<noteq> JNull then [(''output_json'', JStr (dumps (oget ?q ''output'')))] else []))
      bump_version ''id'' (JStr nid) (wdb w) = (Inr n, (wdb w)(''work_nodes'' := wdb w' ''work_nodes''))"
    by (rule step_ok [OF em ty i(1)])
  then have u: "update_by work_nodes_t ?sets bump_version ''id'' (JStr nid) (wdb w) = (Inr n, (wdb w)(''work_nodes'' := wdb w' ''work_nodes''))"
    unfolding i by (simp del: dumps_with.simps)
  have "bind_all ?sets = Inr [(''output_json'', SText (dumps (JObj out)))]" by simp
  from work_node_update(2) [OF u this]
  have "node_row nid (wdb w') = Some (bump_version (r(''output_json'' := SText (dumps (JObj out)))))"
    using node_row_table [of "wdb w'" "(wdb w)(''work_nodes'' := wdb w' ''work_nodes'')" nid] assms(5)
    by (simp add: node_status_aff del: dumps_with.simps)
  with ver assms(4) show ?thesis
    by (simp add: node_output_def node_state_version_def bump_version_def loads_or_text wf_obj_def norm_JObj
        del: dumps_with.simps norm.simps)
qed

section \<open>Approval nodes\<close>

lemma status_of_coerce: "coerce_enum NODE_STATUSES (from_sql x) = Inr s \<Longrightarrow> x = SText (node_status_value s)"
  by (cases x) (auto simp: coerce_enum_def NODE_STATUSES_def split: option.splits if_splits)

text \<open>C15: after a refresh the status of an approval node is the one its latest approval maps to;
  in particular the node is completed only if that approval is approved and was given for
  exactly the node's current scope, and an approval given for another scope leaves the
  node pending.\<close>

theorem approval_nodes_follow_their_approval:
  assumes "refresh_node R Ks gid n (w, b) = (Inr (), (w', b'))" "wn_kind n = ApprovalNode"
    and "latest_approval_id gid (wn_id n) (wdb w) = Some aid" "keeps_node_words R" "rt_scrub R (wn_id n) = wn_id n" "rt_scrub R aid = aid"
  shows "\<exists>r a r'. approval_row aid (wdb w) = Some r \<and> approval_of_row R r = Inr a \<and> node_row (wn_id n) (wdb w') = Some r'
    \<and> r' ''status'' = SText (node_status_value (approval_to_node_status
        (if digest_of_scope R (oget_or (wn_metadata n) ''scope'' (JObj [])) = ap_digest a then ap_status a else StaleApproval)))"
proof -
  let ?dg = "digest_of_scope R (oget_or (wn_metadata n) ''scope'' (JObj []))"
  let ?Ks = "Ks (wn_id n)" and ?w0 = "w\<lparr>wlog := (wlog w)\<lparr>lrecovered := b\<rparr>\<rparr>"
  from assms(1,2,3) obtain req wb sn s v where
    a0: "by_service (assert_digest R (fst ?Ks) aid ?dg) (w, b) = (Inr req, wb)"
    and sn: "stored_node (wn_id n) (wdb (fst wb)) = Inr (sn, s, v)"
    and fin: "(if approval_to_node_status (ap_status req) = s then st_ret ()
            else by_store (emit_node_status R (snd ?Ks) (wn_id n) (approval_to_node_status (ap_status req)))) wb = (Inr (), (w', b'))"
    by (auto simp: refresh_node_def st_bind_ok st_get_def st_lift_def)
  obtain w2 where a: "assert_digest R (fst ?Ks) aid ?dg ?w0 = (Inr req, w2)" and wb: "wdb (fst wb) = wdb w2"
    using a0 by (auto simp: by_service_def split: prod.splits)
  from a obtain ap w3 where "get_approval R aid ?w0 = (Inr ap, w3)"
    unfolding assert_digest_def by (rule st_bind_okE)
  from get_approval_ok(2) [OF this] obtain r where r: "approval_row aid (wdb w) = Some r" "approval_of_row R r = Inr ap" by auto
  have r0: "approval_row aid (wdb ?w0) = Some r" using r(1) by simp
  note as = assert_digest_ok [OF a r0 r(2) assms(6)]
  have st: "ap_status req = (if ?dg = ap_digest ap then ap_status ap else StaleApproval)" using as(1,2) by auto
  from sn obtain r1 where r1: "node_row (wn_id n) (wdb w2) = Some r1" "coerce_enum NODE_STATUSES (from_sql (r1 ''status'')) = Inr s"
    by (auto simp: stored_node_def wb rbind_ok split: option.splits)
  have "\<exists>r'. node_row (wn_id n) (wdb w') = Some r' \<and> r' ''status'' = SText (node_status_value (approval_to_node_status (ap_status req)))"
  proof (cases "approval_to_node_status (ap_status req) = s")
    case True
    with fin have "wb = (w', b')" by (simp add: st_ret_def)
    with wb r1 status_of_coerce [OF r1(2)] True show ?thesis by simp
  next
    case False
    with fin have "emit_node_status R (snd ?Ks) (wn_id n) (approval_to_node_status (ap_status req)) (fst wb) = (Inr (), w')"
      by (cases wb) (auto simp: by_store_def split: prod.splits)
    from emit_node_status_ok(1) [OF this assms(4,5)] r1(1) wb show ?thesis by (simp add: bump_version_def)
  qed
  with r st show ?thesis by auto
qed

end
