(* ===== verification/Work_Examples.thy ===== *)
theory Work_Examples
  imports Work_Props Approval_Examples
begin

text \<open>The properties of the Work Graph store at concrete inputs: a graph of a task and an approval node.\<close>

definition build_row :: row where
  "build_row = (\<lambda>_. SNull)(''id'' := SText ''build'', ''graph_id'' := SText ''old'', ''kind'' := SText ''task'',
     ''objective'' := SText ''make'', ''requires_json'' := SText ''[]'', ''risk'' := SText ''low'',
     ''approval_required'' := SInt 0, ''independent_review'' := SInt 0, ''evidence_required'' := SInt 0,
     ''expected_outputs_json'' := SText ''[]'', ''retry_json'' := SText ''{}'', ''placement_json'' := SText ''{}'',
     ''metadata_json'' := SText ''{}'', ''status'' := SText ''running'', ''state_version'' := SInt 3)"

definition build_world :: world where
  "build_world = world0\<lparr>wdb := (\<lambda>_. [])(''work_nodes'' := [build_row])\<rparr>"

definition build_node :: work_node where
  "build_node = \<lparr>wn_id = ''build'', wn_graph = ''g'', wn_kind = Task, wn_objective = ''make'', wn_requires = [JStr ''cc''],
     wn_risk = JStr ''low'', wn_approval = False, wn_review = False, wn_evidence = True, wn_outputs = [],
     wn_retry = \<lparr>rp_max = JInt 2, rp_backoff = JFloat ''0.0''\<rparr>,
     wn_placement = \<lparr>pl_mode = ''local'', pl_node = JNull\<rparr>, wn_metadata = [(''b'', JInt 1), (''a'', JNull)]\<rparr>"

definition build_graph :: work_graph where
  "build_graph = \<lparr>wg_id = ''g'', wg_objective = ''ship'', wg_nodes = [build_node], wg_edges = [], wg_constraints = [],
     wg_success = [JStr ''green''], wg_status = GDraft, wg_version = 1, wg_metadata = [(''k'', JInt 1)]\<rparr>"

lemma build_storable: "storable_graph build_graph"
proof -
  have "list_all storable_node (wg_nodes build_graph)" by code_simp
  moreover have "wg_edges build_graph = []" "strip (wg_objective build_graph) \<noteq> []"
    "wf_json (JList (wg_constraints build_graph))" "wf_json (JList (wg_success build_graph))" by code_simp+
  moreover have "graph_wf build_graph"
    by (simp add: graph_wf_def build_graph_def build_node_def edge_rel_def acyclic_def strip_def rstrip_def lstrip_def is_space_def)
  ultimately show ?thesis by (simp add: storable_graph_def)
qed

lemma scrub_json_id: "f = (\<lambda>s. s) \<Longrightarrow> scrub_json f j = j"
  by (induction f j rule: scrub_json.induct) (auto intro!: map_idI)

lemma scrub_json0: "scrub_json (rt_scrub rt0) j = j"
  by (rule scrub_json_id) (simp add: rt0_def)

lemma outcome_unit: "\<not> isl (fst m) \<Longrightarrow> m = (Inr (), snd m)"
  by (cases m; cases "fst m") auto

lemma scrub_payload0: "scrub_payload rt0 p = p"
  by (simp add: scrub_payload_def scrub_json0 case_prod_beta)

lemma build_created: "\<not> isl (fst (create_graph rt0 clock0 build_graph world0))"
  by code_simp


lemma build_created_again: "\<not> isl (fst (create_graph rt0 clock0 build_graph build_world))"
  by code_simp

lemma creation_takes_over_node_ids_witness:
  "node_rows ''old'' (wdb build_world) = [build_row]
   \<and> \<not> list_ex (\<lambda>r. r ''id'' = SText ''build'') (node_rows ''old'' (wdb (snd (create_graph rt0 clock0 build_graph build_world))))"
proof -
  have "node_rows ''old'' (wdb build_world) = [build_row]"
    by (simp add: node_rows_def select_by_def build_world_def build_row_def)
  moreover have "build_node \<in> set (wg_nodes build_graph)" "distinct (map wn_id (wg_nodes build_graph))"
    "distinct (map edge_key (wg_edges build_graph))" "wn_id build_node = ''build''" "wg_id build_graph = ''g''"
    by (simp_all add: build_graph_def build_node_def)
  moreover note creation_takes_over_node_ids [OF outcome [OF build_created_again] scrub_payload0, of build_node]
  ultimately show ?thesis by simp
qed

lemma build_row_stored: "node_row ''build'' (wdb build_world) = Some build_row" "build_row ''state_version'' = SInt 3"
  by (simp_all add: node_row_def first_by_def select_by_def build_world_def build_row_def)

lemma words0: "keeps_node_words rt0" "rt_scrub rt0 s = s"
  by (simp_all add: keeps_node_words_def rt0_def)

lemma build_fails: "\<not> isl (fst (set_node_status rt0 clock0 ''build'' (JStr (node_status_value NFailed)) 3 build_world))"
  by code_simp

lemma node_status_compare_and_swap_witness:
  "set_node_status rt0 clock0 ''build'' (JStr (node_status_value NFailed)) 2 build_world
     = (Inl (ConcurrentWorkUpdate ''build''), build_world)
   \<and> (\<exists>r'. node_row ''build'' (wdb (snd (set_node_status rt0 clock0 ''build'' (JStr (node_status_value NFailed)) 3 build_world))) = Some r'
        \<and> r' ''state_version'' = SInt 4)"
proof
  show "set_node_status rt0 clock0 ''build'' (JStr (node_status_value NFailed)) 2 build_world = (Inl (ConcurrentWorkUpdate ''build''), build_world)"
    using node_status_compare_and_swap [OF build_row_stored words0, of 2 clock0 NFailed] by simp
  show "\<exists>r'. node_row ''build'' (wdb (snd (set_node_status rt0 clock0 ''build'' (JStr (node_status_value NFailed)) 3 build_world))) = Some r'
        \<and> r' ''state_version'' = SInt 4"
  proof -
    from conjunct2 [OF node_status_compare_and_swap [OF build_row_stored words0, of 3 clock0 NFailed _ clock0 NFailed], THEN mp, OF outcome_unit [OF build_fails]]
    obtain r' where "node_row ''build'' (wdb (snd (set_node_status rt0 clock0 ''build'' (JStr (node_status_value NFailed)) 3 build_world))) = Some r'"
      "r' ''state_version'' = SInt (3 + 1)" by (elim conjE exE)
    then show ?thesis by simp
  qed
qed

lemma build_output: "\<not> isl (fst (record_output rt0 clock0 ''build'' [(''b'', JInt 1), (''a'', JNull)] 3 build_world))"
  by code_simp

lemma recorded_outputs_read_back_witness:
  "node_output ''build'' (wdb (snd (record_output rt0 clock0 ''build'' [(''b'', JInt 1), (''a'', JNull)] 3 build_world)))
   = Inr (JObj (onorm [(''b'', JInt 1), (''a'', JNull)]))"
proof -
  have "wf_obj [(''b'', JInt 1), (''a'', JNull)]" by (simp add: wf_obj_def)
  from recorded_outputs_read_back [OF outcome_unit [OF build_output] words0(2) scrub_json0 this build_row_stored(1)]
  show ?thesis by blast
qed

definition gate_node :: work_node where
  "gate_node = build_node\<lparr>wn_id := ''build'', wn_kind := ApprovalNode, wn_metadata := [(''scope'', JObj push_scope)]\<rparr>"

definition gate_world :: world where
  "gate_world = world0\<lparr>wdb := (\<lambda>_. [])(''work_nodes'' := [build_row(''graph_id'' := SText ''g'')],
     ''approval_requests'' := [(push_row ActionApproval push_scope Approved)(''graph_id'' := SText ''g'', ''node_id'' := SText ''build'')])\<rparr>"

lemma gate_refreshes: "\<not> isl (fst (refresh_node rt0 (\<lambda>_. (clock0, clock0)) ''g'' gate_node (gate_world, False)))"
  by code_simp

lemma approval_nodes_follow_their_approval_witness:
  "\<exists>r. node_row ''build'' (wdb (fst (snd (refresh_node rt0 (\<lambda>_. (clock0, clock0)) ''g'' gate_node (gate_world, False))))) = Some r
     \<and> r ''status'' \<noteq> SText ''running''"
proof -
  let ?m = "refresh_node rt0 (\<lambda>_. (clock0, clock0)) ''g'' gate_node (gate_world, False)"
  have m: "?m = (Inr (), (fst (snd ?m), snd (snd ?m)))" using outcome_unit [OF gate_refreshes] by simp
  have k: "wn_kind gate_node = ApprovalNode" "wn_id gate_node = ''build''" by (simp_all add: gate_node_def)
  have l: "latest_approval_id ''g'' (wn_id gate_node) (wdb gate_world) = Some ''a''"
    by (simp add: k latest_approval_id_def gate_world_def push_row_def)
  obtain r and a :: approval and r' where "node_row (wn_id gate_node) (wdb (fst (snd ?m))) = Some r'"
    "r' ''status'' = SText (node_status_value (approval_to_node_status
        (if digest_of_scope rt0 (oget_or (wn_metadata gate_node) ''scope'' (JObj [])) = ap_digest a then ap_status a else StaleApproval)))"
    using approval_nodes_follow_their_approval [OF m k(1) l words0(1) words0(2) words0(2)] by blast
  moreover have "node_status_value (approval_to_node_status x) \<noteq> ''running''" for x by (cases x) simp_all
  ultimately show ?thesis by (simp add: k(2))
qed

end
