(* ===== verification/Node_Store.thy ===== *)
theory Node_Store
  imports Approval_Props
begin

text \<open>
  The registry of worker nodes and the leases on work nodes (\<open>nodes/store.py\<close>). Unlike the
  other services it writes its tables first and then appends an event that nothing folds:
  the tables are not rebuilt by a replay.
\<close>

section \<open>Identifiers\<close>

definition is_lower :: "char \<Rightarrow> bool" where
  "is_lower c = (let n = (of_char c :: nat) in 97 \<le> n \<and> n \<le> 122)"

definition is_upper :: "char \<Rightarrow> bool" where
  "is_upper c = (let n = (of_char c :: nat) in 65 \<le> n \<and> n \<le> 90)"

definition is_alnum :: "char \<Rightarrow> bool" where
  "is_alnum c = (is_lower c \<or> is_upper c \<or> is_digit c)"

definition id_char :: "char \<Rightarrow> bool" where
  "id_char c = (is_lower c \<or> is_digit c \<or> c = CHR ''_'')"

text \<open>\<open>prefix[a-z0-9_]{lo,hi}\<close>\<close>

definition id_match :: "string \<Rightarrow> nat \<Rightarrow> nat \<Rightarrow> string \<Rightarrow> bool" where
  "id_match pre lo hi s = (starts_with s pre \<and>
     (let t = drop (length pre) s in list_all id_char t \<and> lo \<le> length t \<and> length t \<le> hi))"

definition node_id_ok :: "string \<Rightarrow> bool" where
  "node_id_ok s = id_match ''node_'' 3 64 s"

definition lease_id_ok :: "string \<Rightarrow> bool" where
  "lease_id_ok s = id_match ''lease_'' 3 80 s"

text \<open>
  \<open>[A-Za-z0-9](?:[A-Za-z0-9.-]{0,251}[A-Za-z0-9])?\<close> without two dots in a row;
  \<open>[a-z_][a-z0-9_-]{0,31}\<close>.
\<close>

definition host_ok :: "string \<Rightarrow> bool" where
  "host_ok s = (s \<noteq> [] \<and> length s \<le> 253 \<and> is_alnum (hd s) \<and> is_alnum (last s)
     \<and> list_all (\<lambda>c. is_alnum c \<or> c = CHR ''.'' \<or> c = CHR ''-'') s \<and> \<not> contains s ''..'')"

definition ssh_user_ok :: "string \<Rightarrow> bool" where
  "ssh_user_ok s = (case s of [] \<Rightarrow> False
     | c # cs \<Rightarrow> (is_lower c \<or> c = CHR ''_'') \<and> length cs \<le> 31 \<and> list_all (\<lambda>c. id_char c \<or> c = CHR ''-'') cs)"

definition validate_node_id :: "string \<Rightarrow> exn + string" where
  "validate_node_id s = rbind (rguard (node_id_ok s) (NodeValidationError ''node_id'')) (\<lambda>_. Inr s)"

definition validate_choice :: "string \<Rightarrow> string list \<Rightarrow> exn + string" where
  "validate_choice s allowed = rbind (rguard (s \<in> set allowed) (NodeValidationError s)) (\<lambda>_. Inr s)"

definition ROLES :: "string list" where "ROLES = [''controller'', ''worker'']"
definition TRANSPORTS :: "string list" where "TRANSPORTS = [''tailscale'']"
definition LEASE_STATES :: "string list" where
  "LEASE_STATES = [''active'', ''completed'', ''failed'', ''released'', ''expired'']"

section \<open>Nodes\<close>

record node_record =
  nr_id :: string
  nr_name :: string
  nr_role :: string
  nr_transport :: string
  nr_host :: string
  nr_user :: string
  nr_stable :: "string option"
  nr_trusted :: bool
  nr_status :: string
  nr_caps :: "json list"
  nr_digest :: "string option"
  nr_seen :: "string option"
  nr_created :: string
  nr_updated :: string

definition record_of_row :: "row \<Rightarrow> exn + node_record" where
  "record_of_row r =
     rbind (rbind (load_or_raise (stext (r ''capabilities_json''))) jiter) (\<lambda>caps.
     Inr \<lparr>nr_id = stext (r ''id''), nr_name = stext (r ''name''), nr_role = stext (r ''role''),
       nr_transport = stext (r ''transport''), nr_host = stext (r ''transport_host''), nr_user = stext (r ''ssh_user''),
       nr_stable = stext_opt (r ''tailscale_stable_id''), nr_trusted = (r ''trusted'' \<noteq> SInt 0), nr_status = stext (r ''status''),
       nr_caps = caps, nr_digest = stext_opt (r ''capability_digest''), nr_seen = stext_opt (r ''last_seen_at''),
       nr_created = stext (r ''created_at''), nr_updated = stext (r ''updated_at'')\<rparr>)"

definition node_by :: "string \<Rightarrow> db \<Rightarrow> row option" where
  "node_by i d = first_by nodes_t ''id'' i d"

definition get_node :: "string \<Rightarrow> db \<Rightarrow> exn + node_record" where
  "get_node i d =
     rbind (validate_node_id i) (\<lambda>_.
     case node_by i d of None \<Rightarrow> Inl (KeyError i) | Some r \<Rightarrow> record_of_row r)"

definition read_db :: "(db \<Rightarrow> exn + 'a) \<Rightarrow> (world, 'a) st" where
  "read_db f = st_bind (st_get (\<lambda>w. f (wdb w))) st_lift"

text \<open>\<open>_emit\<close>: the event is appended, no reducer runs.\<close>

definition node_emit :: "rt \<Rightarrow> clock \<Rightarrow> string \<Rightarrow> string \<Rightarrow> obj \<Rightarrow> (world, unit) st" where
  "node_emit R K ty target p =
     st_bind (append_event R (c_ts K) (c_eid K) ((event ty ''shiroe'' p)\<lparr>ev_target := Some target\<rparr>)) (\<lambda>_. st_ret ())"

record candidate =
  cd_name :: string
  cd_role :: string
  cd_host :: string
  cd_user :: string
  cd_transport :: string
  cd_stable :: "string option"
  cd_caps :: "string list"
  cd_digest :: "string option"
  cd_status :: string

definition node_values :: "clock \<Rightarrow> candidate \<Rightarrow> string \<Rightarrow> (string \<times> json) list" where
  "node_values K c i =
     [(''id'', JStr i), (''name'', JStr (cd_name c)), (''role'', JStr (cd_role c)), (''transport'', JStr (cd_transport c)),
      (''transport_host'', JStr (cd_host c)), (''ssh_user'', JStr (cd_user c)), (''tailscale_stable_id'', jopt (cd_stable c)),
      (''trusted'', JInt 0), (''status'', JStr (cd_status c)),
      (''capabilities_json'', JStr (dumps (JList (map JStr (cd_caps c))))), (''capability_digest'', jopt (cd_digest c)),
      (''created_at'', JStr (c_now K)), (''updated_at'', JStr (c_now K))]"

text \<open>The id factory is \<open>"node_" + uuid4().hex\<close> unless the caller gives another.\<close>

definition register_candidate :: "rt \<Rightarrow> clock \<Rightarrow> string \<Rightarrow> candidate \<Rightarrow> (world, node_record) st" where
  "register_candidate R K new_id c =
     st_bind (st_lift (validate_node_id new_id)) (\<lambda>i.
     st_bind (st_lift (validate_choice (cd_role c) ROLES)) (\<lambda>_.
     st_bind (st_lift (validate_choice (cd_transport c) TRANSPORTS)) (\<lambda>_.
     st_bind (raise_unless (host_ok (cd_host c)) (NodeValidationError ''transport_host'')) (\<lambda>_.
     st_bind (raise_unless (ssh_user_ok (cd_user c)) (NodeValidationError ''ssh_user'')) (\<lambda>_.
     st_bind (apply_on (insert_row nodes_t (node_values K c i))) (\<lambda>_.
     st_bind (node_emit R K ''node.registered'' (''node:'' @ i)
       [(''node_id'', JStr i), (''role'', JStr (cd_role c)), (''transport'', JStr (cd_transport c)),
        (''transport_host'', JStr (cd_host c))]) (\<lambda>_.
     read_db (get_node i))))))))"

definition trust_node :: "rt \<Rightarrow> clock \<Rightarrow> string \<Rightarrow> bool \<Rightarrow> (world, node_record) st" where
  "trust_node R K i trusted =
     st_bind (st_lift (validate_node_id i)) (\<lambda>_.
     st_bind (apply_on (update_by nodes_t [(''trusted'', JInt (if trusted then 1 else 0)), (''updated_at'', JStr (c_now K))]
       id ''id'' (JStr i))) (\<lambda>n.
     st_bind (raise_unless (n = 1) (KeyError i)) (\<lambda>_.
     st_bind (node_emit R K ''node.trust_changed'' (''node:'' @ i)
       [(''node_id'', JStr i), (''trusted'', JBool trusted)]) (\<lambda>_.
     read_db (get_node i)))))"

definition list_nodes :: "db \<Rightarrow> exn + node_record list" where
  "list_nodes d = rmap record_of_row (sort_key (\<lambda>r. [stext (r ''created_at''), stext (r ''id'')]) (d ''nodes''))"

section \<open>Leases\<close>

record lease_record =
  lr_id :: string
  lr_graph :: string
  lr_work_node :: string
  lr_node :: string
  lr_state :: string
  lr_acquired :: string
  lr_expires :: string
  lr_released :: "string option"

definition lease_of_row :: "row \<Rightarrow> lease_record" where
  "lease_of_row r = \<lparr>lr_id = stext (r ''id''), lr_graph = stext (r ''graph_id''), lr_work_node = stext (r ''work_node_id''),
     lr_node = stext (r ''node_id''), lr_state = stext (r ''state''), lr_acquired = stext (r ''acquired_at''),
     lr_expires = stext (r ''expires_at''), lr_released = stext_opt (r ''released_at'')\<rparr>"

definition lease_by :: "string \<Rightarrow> db \<Rightarrow> row option" where
  "lease_by i d = first_by node_leases_t ''id'' i d"

definition get_lease :: "string \<Rightarrow> db \<Rightarrow> exn + lease_record" where
  "get_lease i d = (case lease_by i d of None \<Rightarrow> Inl (KeyError i) | Some r \<Rightarrow> Inr (lease_of_row r))"

definition leases_for_work_node :: "string \<Rightarrow> string option \<Rightarrow> db \<Rightarrow> exn + lease_record list" where
  "leases_for_work_node i state d =
     rbind (rguard (case state of None \<Rightarrow> True | Some s \<Rightarrow> s \<in> set LEASE_STATES) (NodeValidationError ''lease state'')) (\<lambda>_.
     Inr (map lease_of_row (sort_key (\<lambda>r. [stext (r ''acquired_at''), stext (r ''id'')])
       (filter (\<lambda>r. r ''work_node_id'' = SText i \<and> (case state of None \<Rightarrow> True | Some s \<Rightarrow> r ''state'' = SText s))
         (d ''node_leases'')))))"

text \<open>\<open>state='active' AND expires_at <= ?\<close>\<close>

definition lease_expired :: "string \<Rightarrow> row \<Rightarrow> bool" where
  "lease_expired now r = (r ''state'' = SText ''active'' \<and> stext (r ''expires_at'') \<le> now)"

definition expire_active_leases :: "string \<Rightarrow> (world, nat) st" where
  "expire_active_leases now =
     apply_on (update_where node_leases_t (lease_expired now)
       (\<lambda>r. r(''state'' := SText ''expired'', ''released_at'' := SText now)))"

text \<open>\<open>except sqlite3.IntegrityError as exc: raise RuntimeError\<close>\<close>

definition catch_integrity :: "exn \<Rightarrow> ('s, 'a) st \<Rightarrow> ('s, 'a) st" where
  "catch_integrity e m s = (case m s of (Inl (IntegrityError _), s') \<Rightarrow> (Inl e, s') | x \<Rightarrow> x)"

definition lease_event :: "lease_record \<Rightarrow> obj" where
  "lease_event l = [(''lease_id'', JStr (lr_id l)), (''graph_id'', JStr (lr_graph l)),
     (''work_node_id'', JStr (lr_work_node l)), (''node_id'', JStr (lr_node l)), (''state'', JStr (lr_state l))]"

text \<open>
  The clock is read three times: \<open>sweep\<close> for the expiry of old leases, \<open>c_now\<close> for the
  acquisition, \<open>until\<close> the time \<open>ttl_s\<close> seconds after the third reading.
\<close>

definition acquire_lease :: "rt \<Rightarrow> clock \<Rightarrow> string \<Rightarrow> string \<Rightarrow> string \<Rightarrow> string \<Rightarrow> string \<Rightarrow> string \<Rightarrow> (world, lease_record) st" where
  "acquire_lease R K sweep new_id gid wid nid until =
     st_bind (read_db (get_node nid)) (\<lambda>node.
     st_bind (raise_unless (nr_role node = ''worker'' \<and> nr_trusted node) (PermissionError ''trusted worker'')) (\<lambda>_.
     st_bind (expire_active_leases sweep) (\<lambda>_.
     st_bind (raise_unless (lease_id_ok new_id) (NodeValidationError ''lease_id'')) (\<lambda>_.
     st_bind (catch_integrity (RuntimeError ''active lease already exists'')
       (apply_on (insert_row node_leases_t
         [(''id'', JStr new_id), (''graph_id'', JStr gid), (''work_node_id'', JStr wid), (''node_id'', JStr nid),
          (''state'', JStr ''active''), (''acquired_at'', JStr (c_now K)), (''expires_at'', JStr until)]))) (\<lambda>_.
     st_bind (node_emit R K ''node.lease_acquired'' (''node:'' @ nid)
       [(''lease_id'', JStr new_id), (''graph_id'', JStr gid), (''work_node_id'', JStr wid), (''node_id'', JStr nid),
        (''state'', JStr ''active'')]) (\<lambda>_.
     read_db (get_lease new_id)))))))"

definition terminal_lease :: "rt \<Rightarrow> clock \<Rightarrow> string \<Rightarrow> string \<Rightarrow> (world, lease_record) st" where
  "terminal_lease R K i target =
     st_bind (raise_unless (target \<in> set [''completed'', ''failed'', ''released'']) (NodeValidationError ''terminal lease state'')) (\<lambda>_.
     st_bind (read_db (get_lease i)) (\<lambda>cur.
     if lr_state cur = target then st_ret cur
     else
       st_bind (raise_unless (lr_state cur = ''active'') (RuntimeError ''not active'')) (\<lambda>_.
       st_bind (apply_on (update_by node_leases_t [(''state'', JStr target), (''released_at'', JStr (c_now K))] id ''id'' (JStr i))) (\<lambda>_.
       st_bind (read_db (get_lease i)) (\<lambda>l.
       st_bind (node_emit R K (if target = ''completed'' then ''node.lease_completed'' else ''node.lease_failed'')
         (''node:'' @ lr_node l) (lease_event l)) (\<lambda>_.
       st_ret l))))))"

definition complete_lease :: "rt \<Rightarrow> clock \<Rightarrow> string \<Rightarrow> (world, lease_record) st" where
  "complete_lease R K i = terminal_lease R K i ''completed''"

definition fail_lease :: "rt \<Rightarrow> clock \<Rightarrow> string \<Rightarrow> (world, lease_record) st" where
  "fail_lease R K i = terminal_lease R K i ''failed''"

definition release_lease :: "rt \<Rightarrow> clock \<Rightarrow> string \<Rightarrow> (world, lease_record) st" where
  "release_lease R K i = terminal_lease R K i ''released''"

end
