(* ===== verification/Node_Props.thy ===== *)
theory Node_Props
  imports Node_Store
begin

text \<open>
  Leases over every sequence of calls: at most one active lease for a work node, ended
  leases that never change again, and what an acquisition needs.
\<close>

section \<open>The lease machine\<close>

definition lease_final :: "string \<Rightarrow> bool" where
  "lease_final s = (s \<noteq> ''active'')"

definition lease_can :: "string \<Rightarrow> string \<Rightarrow> bool" where
  "lease_can s t = (s = ''active'' \<and> t \<in> set [''completed'', ''failed'', ''released'', ''expired''])"

interpretation lease: state_machine lease_can lease_final
  by unfold_locales (simp add: lease_can_def lease_final_def)

text \<open>A lease row moves when its state does, and keeps everything but its release.\<close>

definition lease_move :: "row \<Rightarrow> row \<Rightarrow> bool" where
  "lease_move r r' \<longleftrightarrow> r' = r \<or> (\<exists>s t. r ''state'' = SText ''active'' \<and> lease_can ''active'' s
     \<and> r' = r(''state'' := SText s, ''released_at'' := t))"

definition evolve :: "row list \<Rightarrow> row list \<Rightarrow> bool" where
  "evolve rs rs' \<longleftrightarrow> (\<exists>ms new. rs' = ms @ new \<and> list_all2 lease_move rs ms
     \<and> (new = [] \<or> (\<exists>r. new = [r] \<and> r ''state'' = SText ''active'' \<and> r ''id'' \<noteq> SNull \<and> r ''work_node_id'' \<noteq> SNull
          \<and> list_all (\<lambda>m. \<not> clash node_leases_t r m) ms)))"

lemma lease_moveI: "r ''state'' = SText ''active'' \<Longrightarrow> lease_can ''active'' s \<Longrightarrow>
    lease_move r (r(''state'' := SText s, ''released_at'' := t))"
  unfolding lease_move_def by blast

lemma lease_moves_map: "(\<And>r. r \<in> set rs \<Longrightarrow> lease_move r (f r)) \<Longrightarrow> evolve rs (map f rs)"
  unfolding evolve_def by (rule exI [of _ "map f rs"], rule exI [of _ "[]"]) (simp add: list_all2_conv_all_nth)

lemma evolve_refl: "evolve rs rs"
  unfolding evolve_def by (intro exI [of _ rs] exI [of _ "[]"]) (simp add: list_all2_refl lease_move_def)

lemma lease_keys: "tpk node_leases_t = [''id'']" "tuniq node_leases_t = [([''work_node_id''], \<lambda>r. r ''state'' = SText ''active'')]"
  "tcheck node_leases_t = (\<lambda>_. True)"
  by (simp_all add: node_leases_t_def tab_def)

definition active_work :: "row list \<Rightarrow> sqlv list" where
  "active_work rs = map (\<lambda>r. r ''work_node_id'') (filter (\<lambda>r. r ''state'' = SText ''active'') rs)"

definition leases_ok :: "row list \<Rightarrow> bool" where
  "leases_ok rs \<longleftrightarrow> distinct (map (\<lambda>r. r ''id'') rs) \<and> distinct (active_work rs)"

lemma move_fields: "lease_move r m \<Longrightarrow> m ''id'' = r ''id'' \<and> m ''work_node_id'' = r ''work_node_id''"
  by (auto simp: lease_move_def)

lemma move_active: "lease_move r m \<Longrightarrow> m ''state'' = SText ''active'' \<Longrightarrow> m = r"
  by (auto simp: lease_move_def lease_can_def)

lemma moves_ids: "list_all2 lease_move rs ms \<Longrightarrow> map (\<lambda>r. r ''id'') ms = map (\<lambda>r. r ''id'') rs"
  by (induction rule: list_all2_induct) (auto dest: move_fields)

lemma moves_active:
  assumes "list_all2 lease_move rs ms" "distinct (active_work rs)"
  shows "distinct (active_work ms) \<and> set (active_work ms) \<subseteq> set (active_work rs)"
  using assms
proof (induction rule: list_all2_induct)
  case (Cons r rs m ms)
  then have "distinct (active_work rs)" by (simp add: active_work_def split: if_splits)
  with Cons have ih: "distinct (active_work ms)" "set (active_work ms) \<subseteq> set (active_work rs)" by auto
  show ?case
  proof (cases "m ''state'' = SText ''active''")
    case True
    with move_active [OF Cons.hyps(1)] have "m = r" by simp
    with ih True Cons.prems show ?thesis by (auto simp: active_work_def)
  next
    case False
    then have "active_work (m # ms) = active_work ms" by (simp add: active_work_def)
    with ih show ?thesis by (auto simp: active_work_def)
  qed
qed simp

lemma evolve_ok:
  assumes "evolve rs rs'" "leases_ok rs"
  shows "leases_ok rs'"
proof -
  from assms(1) obtain ms new where e: "rs' = ms @ new" "list_all2 lease_move rs ms"
    and n: "new = [] \<or> (\<exists>r. new = [r] \<and> r ''state'' = SText ''active'' \<and> r ''id'' \<noteq> SNull \<and> r ''work_node_id'' \<noteq> SNull
          \<and> list_all (\<lambda>m. \<not> clash node_leases_t r m) ms)"
    unfolding evolve_def by (elim exE conjE)
  have m: "distinct (map (\<lambda>r. r ''id'') ms)" "distinct (active_work ms)"
    using assms(2) moves_ids [OF e(2)] moves_active [OF e(2)] by (simp_all add: leases_ok_def)
  from n show ?thesis
  proof (elim disjE exE conjE)
    fix r
    assume r: "new = [r]" "r ''state'' = SText ''active''" "r ''id'' \<noteq> SNull" "r ''work_node_id'' \<noteq> SNull"
      "list_all (\<lambda>m. \<not> clash node_leases_t r m) ms"
    then have "r ''id'' \<noteq> x ''id''" "x ''state'' = SText ''active'' \<Longrightarrow> r ''work_node_id'' \<noteq> x ''work_node_id''" if "x \<in> set ms" for x
      using that by (auto simp: list_all_iff clash_def lease_keys same_key_def)
    with m r(1,2) e(1) show ?thesis by (fastforce simp: leases_ok_def active_work_def)
  qed (use m e(1) in \<open>simp add: leases_ok_def\<close>)
qed

lemma evolve_keeps_ended:
  assumes "evolve rs rs'" "r \<in> set rs" "r ''state'' \<noteq> SText ''active''"
  shows "r \<in> set rs'"
proof -
  from assms(1) obtain ms new where e: "rs' = ms @ new" "list_all2 lease_move rs ms" by (auto simp: evolve_def)
  then obtain i where "i < length rs" "r = rs ! i" "lease_move (rs ! i) (ms ! i)" "i < length ms"
    using assms(2) by (auto simp: list_all2_conv_all_nth in_set_conv_nth)
  with assms(3) have "ms ! i = r" by (auto simp: lease_move_def)
  with \<open>i < length ms\<close> e(1) show ?thesis by (auto simp: in_set_conv_nth)
qed

section \<open>The operations are moves\<close>

definition lease_table :: "world \<Rightarrow> row list" where
  "lease_table w = wdb w ''node_leases''"

abbreviation reached :: "row list \<Rightarrow> world \<Rightarrow> bool" where
  "reached rs w \<equiv> leases_ok (lease_table w) \<and> evolve\<^sup>*\<^sup>* rs (lease_table w)"

lemma reached_step: "reached rs w \<Longrightarrow> evolve (lease_table w) (lease_table w') \<Longrightarrow> reached rs w'"
  by (auto intro: evolve_ok rtranclp.rtrancl_into_rtrancl)

lemma reached_keeps: "keeps ''node_leases'' m \<Longrightarrow> preserves (reached rs) m"
  by (simp add: preserves_def keeps_def lease_table_def)

lemma preserves_evolve:
  assumes "\<And>w. leases_ok (lease_table w) \<Longrightarrow> evolve (lease_table w) (lease_table (snd (m w)))"
  shows "preserves (reached rs) m"
  unfolding preserves_def using assms reached_step by blast

lemma keeps_read_db [keeping]: "keeps q (read_db f)"
  by (simp add: keeps_def read_db_def st_bind_def st_get_def st_lift_def split: sum.splits)

lemma keeps_node_emit [keeping]: "q \<noteq> ''memory_events'' \<Longrightarrow> keeps q (node_emit R K ty target p)"
  unfolding node_emit_def by (intro keeping)

lemma touches_insert_row: "tname t \<in> S \<Longrightarrow> only_touches S (insert_row t vals)"
  by (auto simp: only_touches_def insert_row_def insert_bound_def st_bind_def st_lift_def Let_def split: sum.splits)

lemma keeps_register: "keeps ''node_leases'' (register_candidate R K i c)"
  unfolding register_candidate_def
  by (intro keeping keeps_apply_on [OF touches_insert_row, of nodes_t "{''nodes''}"]) simp_all

lemma keeps_trust: "keeps ''node_leases'' (trust_node R K i b)"
  unfolding trust_node_def
  by (intro keeping keeps_apply_on [OF touches_update_by, of nodes_t "{''nodes''}"]) simp_all

lemma preserves_expire: "preserves (reached rs) (expire_active_leases now)"
proof (rule preserves_evolve)
  fix w :: world
  let ?f = "\<lambda>r. r(''state'' := SText ''expired'', ''released_at'' := SText now)"
  obtain r d' where u: "update_where node_leases_t (lease_expired now) ?f (wdb w) = (r, d')" by fastforce
  have "evolve (wdb w ''node_leases'') (d' ''node_leases'')"
  proof (cases r)
    case (Inl e)
    with u update_where_err have "d' = wdb w" by blast
    then show ?thesis by (simp add: evolve_refl)
  next
    case (Inr n)
    with u update_where_ok(1) have d': "d' = (wdb w)(tname node_leases_t := map (\<lambda>r. if lease_expired now r then ?f r else r) (wdb w (tname node_leases_t)))"
      by blast
    have "lease_move r (if lease_expired now r then ?f r else r)" for r
    proof (cases "lease_expired now r")
      case True
      then have "lease_move r (?f r)" by (intro lease_moveI) (simp_all add: lease_expired_def lease_can_def)
      with True show ?thesis by simp
    qed (simp add: lease_move_def)
    with lease_moves_map show ?thesis by (simp add: d')
  qed
  with u show "evolve (lease_table w) (lease_table (snd (expire_active_leases now w)))"
    by (simp add: expire_active_leases_def apply_on_def lease_table_def)
qed

lemma preserves_insert_lease:
  "preserves (reached rs) (catch_integrity e (apply_on (insert_row node_leases_t
     [(''id'', JStr i), (''graph_id'', JStr g), (''work_node_id'', JStr wid), (''node_id'', JStr n),
      (''state'', JStr ''active''), (''acquired_at'', JStr t1), (''expires_at'', JStr t2)])))"
proof (rule preserves_evolve)
  fix w :: world
  let ?vs = "[(''id'', SText i), (''graph_id'', SText g), (''work_node_id'', SText wid), (''node_id'', SText n),
      (''state'', SText ''active''), (''acquired_at'', SText t1), (''expires_at'', SText t2)]"
  let ?r = "fill_row node_leases_t ?vs"
  have c: "?r ''id'' = SText i" "?r ''state'' = SText ''active''" "?r ''work_node_id'' = SText wid"
    by (simp_all add: fill_row_def col_of_def node_leases_t_def tab_def column_defs)
  obtain x d' where u: "insert_bound node_leases_t ?vs (wdb w) = (x, d')" by fastforce
  have "evolve (wdb w ''node_leases'') (d' ''node_leases'')"
  proof (cases "d' = wdb w")
    case False
    with u have d': "d' = (wdb w)(''node_leases'' := wdb w ''node_leases'' @ [?r])"
      and n: "\<not> list_ex (clash node_leases_t ?r) (wdb w ''node_leases'')"
      by (auto simp: insert_bound_def Let_def split: if_splits)
    then have "list_all (\<lambda>m. \<not> clash node_leases_t ?r m) (wdb w ''node_leases'')" by (auto simp: list_ex_iff list_all_iff)
    with c show ?thesis
      unfolding evolve_def d'
      by (intro exI [of _ "wdb w ''node_leases''"] exI [of _ "[?r]"]) (simp add: list_all2_refl lease_move_def)
  qed (simp add: evolve_refl)
  moreover have "wdb (snd (catch_integrity e (apply_on (insert_row node_leases_t
     [(''id'', JStr i), (''graph_id'', JStr g), (''work_node_id'', JStr wid), (''node_id'', JStr n),
      (''state'', JStr ''active''), (''acquired_at'', JStr t1), (''expires_at'', JStr t2)])) w)) = d'"
    using u by (cases x) (auto simp: catch_integrity_def apply_on_def insert_row_def st_bind_def st_lift_def split: exn.splits)
  ultimately show "evolve (lease_table w) (lease_table (snd (catch_integrity e (apply_on (insert_row node_leases_t
     [(''id'', JStr i), (''graph_id'', JStr g), (''work_node_id'', JStr wid), (''node_id'', JStr n),
      (''state'', JStr ''active''), (''acquired_at'', JStr t1), (''expires_at'', JStr t2)])) w)))"
    by (simp add: lease_table_def)
qed

lemma preserves_acquire: "preserves (reached rs) (acquire_lease R K sweep i g wid n until)"
  unfolding acquire_lease_def
  by (intro preserving preserves_bind preserves_expire preserves_insert_lease reached_keeps) (intro keeping; simp)+

lemma lease_cols_aff: "aff_of node_leases_t c = TextA"
  by (simp add: aff_of_def col_of_def node_leases_t_def tab_def column_defs)

lemma lease_by_row: "lease_by i d = Some r \<Longrightarrow> r \<in> set (d ''node_leases'') \<and> r ''id'' = SText i"
  by (auto simp: lease_by_def eq_val_def lease_cols_aff dest: first_by_key)

lemma preserves_end_lease:
  assumes "target \<in> set [''completed'', ''failed'', ''released'']"
  shows "leases_ok (lease_table w) \<Longrightarrow> lease_by i (wdb w) = Some r \<Longrightarrow> r ''state'' = SText ''active'' \<Longrightarrow>
    evolve (lease_table w) (lease_table (snd (apply_on (update_by node_leases_t
      [(''state'', JStr target), (''released_at'', JStr now)] id ''id'' (JStr i)) w)))"
proof -
  assume ok: "leases_ok (lease_table w)" and r: "lease_by i (wdb w) = Some r" "r ''state'' = SText ''active''"
  let ?sets = "[(''state'', JStr target), (''released_at'', JStr now)]"
  obtain x d' where u: "update_by node_leases_t ?sets id ''id'' (JStr i) (wdb w) = (x, d')" by fastforce
  have "evolve (wdb w ''node_leases'') (d' ''node_leases'')"
  proof (cases x)
    case (Inl e)
    with u update_by_err have "d' = wdb w" by blast
    then show ?thesis by (simp add: evolve_refl)
  next
    case (Inr n)
    let ?f = "\<lambda>x. if eq_val node_leases_t ''id'' (SText i) x then x(''state'' := SText target, ''released_at'' := SText now) else x"
    from u Inr have "update_by node_leases_t ?sets id ''id'' (JStr i) (wdb w) = (Inr n, d')" by simp
    then have d': "d' = (wdb w)(tname node_leases_t := map ?f (wdb w (tname node_leases_t)))"
      by (rule update_by_ok) (auto simp: lease_cols_aff simp del: tname_simps)
    have "lease_move x (?f x)" if "x \<in> set (wdb w ''node_leases'')" for x
    proof (cases "eq_val node_leases_t ''id'' (SText i) x")
      case True
      then have "x ''id'' = r ''id''" using lease_by_row [OF r(1)] by (simp add: eq_val_def lease_cols_aff)
      with that lease_by_row [OF r(1)] ok have "x = r"
        by (auto simp: leases_ok_def lease_table_def distinct_map inj_on_def)
      with True r(2) assms show ?thesis by (auto simp: lease_can_def intro: lease_moveI)
    qed (simp add: lease_move_def)
    with lease_moves_map [of "wdb w ''node_leases''" ?f] show ?thesis by (simp add: d')
  qed
  with u show ?thesis by (simp add: apply_on_def lease_table_def)
qed

lemma bind_keeps_rest:
  assumes "\<And>x. keeps q (f x)"
  shows "wdb (snd (st_bind m f w)) q = wdb (snd (m w)) q"
  by (cases "m w"; cases "fst (m w)") (use assms in \<open>simp_all add: st_bind_def keeps_def\<close>)

lemma preserves_terminal: "preserves (reached rs) (terminal_lease R K i target)"
  unfolding terminal_lease_def
proof (intro preserves_guard)
  let ?rest = "\<lambda>_. st_bind (read_db (get_lease i)) (\<lambda>l.
       st_bind (node_emit R K (if target = ''completed'' then ''node.lease_completed'' else ''node.lease_failed'')
         (''node:'' @ lr_node l) (lease_event l)) (\<lambda>_. st_ret l))"
  let ?upd = "apply_on (update_by node_leases_t [(''state'', JStr target), (''released_at'', JStr (c_now K))] id ''id'' (JStr i))"
  let ?m = "\<lambda>cur. if lr_state cur = target then st_ret cur
     else st_bind (raise_unless (lr_state cur = ''active'') (RuntimeError ''not active'')) (\<lambda>_. st_bind ?upd ?rest)"
  assume t: "target \<in> set [''completed'', ''failed'', ''released'']"
  have rest: "keeps ''node_leases'' (?rest n)" for n by (intro keeping) simp
  show "preserves (reached rs) (st_bind (read_db (get_lease i)) ?m)"
  proof (rule preserves_evolve)
    fix w :: world
    assume ok: "leases_ok (lease_table w)"
    show "evolve (lease_table w) (lease_table (snd (st_bind (read_db (get_lease i)) ?m w)))"
    proof (cases "lease_by i (wdb w)")
      case None
      then show ?thesis
        by (simp add: read_db_def st_bind_def st_get_def st_lift_def get_lease_def evolve_refl)
    next
      case (Some r)
      then have m: "st_bind (read_db (get_lease i)) ?m w = ?m (lease_of_row r) w"
        by (simp add: read_db_def st_bind_def st_get_def st_lift_def get_lease_def)
      show ?thesis
      proof (cases "lr_state (lease_of_row r) \<noteq> target \<and> lr_state (lease_of_row r) = ''active''")
        case True
        then have a: "r ''state'' = SText ''active''" by (cases "r ''state''") (simp_all add: lease_of_row_def)
        from True have e: "?m (lease_of_row r) w = st_bind ?upd ?rest w"
          by (auto simp: raise_unless_def st_ret_def st_bind_def)
        have "lease_table (snd (st_bind ?upd ?rest w)) = lease_table (snd (?upd w))"
          unfolding lease_table_def by (rule bind_keeps_rest [OF rest])
        with preserves_end_lease [OF t ok Some a] show ?thesis unfolding m e by simp
      next
        case False
        then have "snd (?m (lease_of_row r) w) = w"
          by (auto simp: raise_unless_def st_ret_def st_raise_def st_bind_def)
        then show ?thesis unfolding m by (simp add: evolve_refl)
      qed
    qed
  qed
qed

text \<open>Any interleaving of the calls, successful or not.\<close>

inductive lease_step :: "rt \<Rightarrow> world \<Rightarrow> world \<Rightarrow> bool" for R where
  register: "lease_step R w (snd (register_candidate R K i c w))"
| trust: "lease_step R w (snd (trust_node R K i b w))"
| acquire: "lease_step R w (snd (acquire_lease R K sweep i g wid n until w))"
| expire: "lease_step R w (snd (expire_active_leases now w))"
| terminal: "lease_step R w (snd (terminal_lease R K i target w))"
| reopen: "lease_step R w (open_log w)"

lemma lease_step_reached: "lease_step R w w' \<Longrightarrow> reached rs w \<Longrightarrow> reached rs w'"
proof (induction rule: lease_step.induct)
  case reopen
  then show ?case by (simp add: lease_table_def)
qed (use reached_keeps [OF keeps_register] reached_keeps [OF keeps_trust] preserves_acquire preserves_expire preserves_terminal
  in \<open>auto simp: preserves_def\<close>)

lemma lease_reach: "(lease_step R)\<^sup>*\<^sup>* w w' \<Longrightarrow> reached rs w \<Longrightarrow> reached rs w'"
  by (induction rule: rtranclp_induct) (auto dest: lease_step_reached)

text \<open>C16: whatever the sequence of registrations, trust changes, acquisitions, expiries and
  endings, in any order and with any failures, no work node ever has two active leases, no
  two leases share an id, and a lease that has ended is never changed again.\<close>

theorem leases_exclude_each_other:
  assumes "(lease_step R)\<^sup>*\<^sup>* w w'" "distinct (map (\<lambda>r. r ''id'') (wdb w ''node_leases''))"
    and "distinct (map (\<lambda>r. r ''work_node_id'') (filter (\<lambda>r. r ''state'' = SText ''active'') (wdb w ''node_leases'')))"
  shows "distinct (map (\<lambda>r. r ''work_node_id'') (filter (\<lambda>r. r ''state'' = SText ''active'') (wdb w' ''node_leases'')))
    \<and> distinct (map (\<lambda>r. r ''id'') (wdb w' ''node_leases''))
    \<and> (\<forall>r \<in> set (wdb w ''node_leases''). r ''state'' \<noteq> SText ''active'' \<longrightarrow> r \<in> set (wdb w' ''node_leases''))"
proof -
  have "reached (lease_table w) w" using assms(2,3) by (simp add: leases_ok_def active_work_def lease_table_def)
  from lease_reach [OF assms(1) this] have r: "leases_ok (lease_table w')" "evolve\<^sup>*\<^sup>* (lease_table w) (lease_table w')" by simp_all
  have "r \<in> set rs'" if "evolve\<^sup>*\<^sup>* rs rs'" "r \<in> set rs" "r ''state'' \<noteq> SText ''active''" for r rs rs'
    using that by (induction rule: rtranclp_induct) (auto intro: evolve_keeps_ended)
  with r show ?thesis by (simp add: leases_ok_def active_work_def lease_table_def)
qed

end
