(* ===== verification/Remote.thy ===== *)
theory Remote
  imports Node_Props Work_Store
begin

text \<open>
  Remote execution: the digest-bound work package (\<open>nodes/protocol.py\<close>), the worker's
  checks (\<open>nodes/worker.py\<close>) and its configuration (\<open>nodes/local_config.py\<close>), the
  controller's dispatch (\<open>nodes/dispatcher.py\<close>). The network, the executor and the parser
  of timestamps (\<open>datetime.fromisoformat\<close>) are parameters.
\<close>

section \<open>Packages\<close>

definition WORK_PACKAGE_SCHEMA :: string where
  "WORK_PACKAGE_SCHEMA = ''shiroe.work-package/v1''"

definition PACKAGE_FIELDS :: "string list" where
  "PACKAGE_FIELDS = [''schema'', ''package_id'', ''graph_id'', ''work_node_id'', ''lease_id'', ''worker_node_id'',
     ''capability_id'', ''capability_digest'', ''inputs'', ''timeout_s'', ''created_at'', ''expires_at'', ''digest'']"

definition package_body :: "obj \<Rightarrow> obj" where
  "package_body o' = filter (\<lambda>p. fst p \<noteq> ''digest'') o'"

definition package_digest :: "rt \<Rightarrow> obj \<Rightarrow> string" where
  "package_digest R o' = ''sha256:'' @ rt_hash R (dumps_with False (JObj (package_body o')))"

record package_args =
  pa_id :: string
  pa_graph :: string
  pa_work_node :: string
  pa_lease :: string
  pa_worker :: string
  pa_capability :: string
  pa_digest :: string
  pa_inputs :: obj
  pa_timeout :: int
  pa_created :: string
  pa_expires :: string

definition package_data :: "package_args \<Rightarrow> obj" where
  "package_data a =
     [(''schema'', JStr WORK_PACKAGE_SCHEMA), (''package_id'', JStr (pa_id a)), (''graph_id'', JStr (pa_graph a)),
      (''work_node_id'', JStr (pa_work_node a)), (''lease_id'', JStr (pa_lease a)), (''worker_node_id'', JStr (pa_worker a)),
      (''capability_id'', JStr (pa_capability a)), (''capability_digest'', JStr (pa_digest a)), (''inputs'', JObj (pa_inputs a)),
      (''timeout_s'', JInt (pa_timeout a)), (''created_at'', JStr (pa_created a)), (''expires_at'', JStr (pa_expires a))]"

definition make_work_package :: "rt \<Rightarrow> package_args \<Rightarrow> obj" where
  "make_work_package R a = package_data a @ [(''digest'', JStr (package_digest R (package_data a)))]"

text \<open>
  \<open>_parse_time\<close>: seconds since the epoch of an ISO timestamp; a trailing \<open>Z\<close> is \<open>+00:00\<close>.
\<close>

type_synonym time_parser = "string \<Rightarrow> int option"

definition zulu :: "string \<Rightarrow> string" where
  "zulu s = concat (map (\<lambda>c. if c = CHR ''Z'' then ''+00:00'' else [c]) s)"

definition parse_time :: "time_parser \<Rightarrow> string \<Rightarrow> exn + int" where
  "parse_time P s = (case P (zulu s) of None \<Rightarrow> Inl (WorkPackageError ''invalid package timestamp'') | Some t \<Rightarrow> Inr t)"

definition validate_work_package :: "rt \<Rightarrow> time_parser \<Rightarrow> obj \<Rightarrow> string \<Rightarrow> string \<Rightarrow> int \<Rightarrow> exn + obj" where
  "validate_work_package R P data worker digest now =
     rbind (rguard (oget data ''schema'' = JStr WORK_PACKAGE_SCHEMA) (WorkPackageError ''schema'')) (\<lambda>_.
     rbind (rguard (oget data ''digest'' = JStr (package_digest R data)) (WorkPackageError ''digest mismatch'')) (\<lambda>_.
     rbind (rguard (oget data ''worker_node_id'' = JStr worker) (WorkPackageError ''worker identity'')) (\<lambda>_.
     rbind (rguard (oget data ''capability_digest'' = JStr digest) (WorkPackageError ''capability digest'')) (\<lambda>_.
     rbind (parse_time P (py_str (jor (oget data ''expires_at'') (JStr [])))) (\<lambda>expires.
     rbind (rguard (now < expires) (WorkPackageError ''expired'')) (\<lambda>_.
     rbind (rguard (list_all (\<lambda>p. fst p \<in> set PACKAGE_FIELDS) data \<and> list_all (ohas data) PACKAGE_FIELDS)
       (WorkPackageError ''malformed work package'')) (\<lambda>_.
     Inr data)))))))"

section \<open>The worker's configuration\<close>

definition SECRET_KEY_PARTS :: "string list" where
  "SECRET_KEY_PARTS = [''secret'', ''token'', ''api_key'', ''apikey'', ''auth_key'', ''private_key'', ''password'']"

definition secret_key :: "string \<Rightarrow> bool" where
  "secret_key k = list_ex (contains (lower k)) SECRET_KEY_PARTS"

fun has_secret_key :: "json \<Rightarrow> bool" where
  "has_secret_key (JObj kvs) = list_ex (\<lambda>(k, b). secret_key k \<or> b) (map (\<lambda>(k, v). (k, has_secret_key v)) kvs)"
| "has_secret_key (JList xs) = list_ex id (map has_secret_key xs)"
| "has_secret_key _ = False"

definition LOCAL_NODE_SCHEMA :: string where
  "LOCAL_NODE_SCHEMA = ''shiroe.node-local/v1''"

definition hex_char :: "char \<Rightarrow> bool" where
  "hex_char c = (is_digit c \<or> c \<in> set ''abcdef'')"

record local_config =
  lc_node :: string
  lc_role :: string
  lc_trusted :: "string list"

definition mk_local_config :: "json \<Rightarrow> json \<Rightarrow> json \<Rightarrow> json list \<Rightarrow> exn + local_config" where
  "mk_local_config schema node role trusted =
     rbind (rguard (schema = JStr LOCAL_NODE_SCHEMA) (ValueError ''unsupported local node config schema'')) (\<lambda>_.
     case node of JStr n \<Rightarrow>
       rbind (rguard (starts_with n ''node_'') (ValueError ''node_id'')) (\<lambda>_.
       rbind (rguard (role = JStr ''worker'') (ValueError ''role'')) (\<lambda>_.
       rbind (rguard (list_all (\<lambda>d. length d = 64 \<and> list_all hex_char d) (map py_str trusted)) (ValueError ''trusted ids'')) (\<lambda>_.
       Inr \<lparr>lc_node = n, lc_role = ''worker'', lc_trusted = map py_str trusted\<rparr>)))
     | _ \<Rightarrow> Inl (TypeError ''attribute''))"

definition load_local_node_config :: "json \<Rightarrow> exn + local_config" where
  "load_local_node_config data =
     rbind (rguard (\<not> has_secret_key data) (ValueError ''secret field'')) (\<lambda>_.
     rbind (as_obj data) (\<lambda>o'.
     case jiter (oget_or o' ''trusted_controller_tailscale_id_digests'' (JList [])) of
       Inl _ \<Rightarrow> Inl (ValueError ''malformed local node config'')
     | Inr ds \<Rightarrow> mk_local_config (oget_or o' ''schema'' (JStr [])) (oget_or o' ''node_id'' (JStr [])) (oget_or o' ''role'' (JStr [])) ds))"

section \<open>The worker\<close>

text \<open>
  \<open>is_ip\<close>: what \<open>ipaddress.ip_address\<close> accepts; \<open>whois\<close>: the stable Tailnet id of an address.
\<close>

type_synonym env = "string \<Rightarrow> string option"

definition words :: "string \<Rightarrow> string list" where
  "words s = filter (\<lambda>w. w \<noteq> []) (split_at (CHR '' '') (map (\<lambda>c. if is_space c then CHR '' '' else c) s))"

fun source_ip :: "(string \<Rightarrow> bool) \<Rightarrow> env \<Rightarrow> string list \<Rightarrow> exn + string" where
  "source_ip is_ip e [] = Inl (WorkerIdentityError ''missing SSH source identity'')"
| "source_ip is_ip e (k # ks) =
     (case e k of
        None \<Rightarrow> source_ip is_ip e ks
      | Some raw \<Rightarrow>
          (case words raw of
             [] \<Rightarrow> source_ip is_ip e ks
           | s # _ \<Rightarrow> if is_ip s then Inr s else Inl (WorkerIdentityError ''source address is malformed'')))"

definition source_ip_from_ssh_env :: "(string \<Rightarrow> bool) \<Rightarrow> env \<Rightarrow> exn + string" where
  "source_ip_from_ssh_env is_ip e = source_ip is_ip e [''SSH_CONNECTION'', ''SSH_CLIENT'']"

definition verify_controller_identity ::
  "rt \<Rightarrow> (string \<Rightarrow> bool) \<Rightarrow> (string \<Rightarrow> exn + string) \<Rightarrow> local_config \<Rightarrow> env \<Rightarrow> exn + string" where
  "verify_controller_identity R is_ip whois c e =
     rbind (source_ip_from_ssh_env is_ip e) (\<lambda>ip.
     rbind (whois ip) (\<lambda>sid.
     rbind (rguard (rt_hash R sid \<in> set (lc_trusted c)) (WorkerIdentityError ''controller not trusted'')) (\<lambda>_.
     Inr sid)))"

definition EXECUTION_RECEIPT_SCHEMA :: string where
  "EXECUTION_RECEIPT_SCHEMA = ''shiroe.execution-receipt/v1''"

definition zero_usage :: obj where
  "zero_usage = [(''cost_usd'', JFloat ''0.0''), (''tokens_in'', JInt 0), (''tokens_out'', JInt 0)]"

definition receipt :: "rt \<Rightarrow> obj \<Rightarrow> obj \<Rightarrow> string \<Rightarrow> exn + obj" where
  "receipt R package result sid =
     rbind (dict_of (oget_or result ''output'' (JObj []))) (\<lambda>output.
     rbind (py_int (oget_or result ''exit_code'' (JInt 0))) (\<lambda>code.
     rbind (dict_of (oget_or result ''metadata'' (JObj []))) (\<lambda>md.
     rbind (dict_of (oget_or result ''usage'' (JObj zero_usage))) (\<lambda>usage.
     Inr [(''schema'', JStr EXECUTION_RECEIPT_SCHEMA), (''package_digest'', oget package ''digest''),
       (''ok'', JBool (truthy (oget result ''ok''))), (''output'', JObj output), (''error'', oget result ''error''),
       (''exit_code'', JInt code), (''stderr_tail'', oget result ''stderr_tail''), (''metadata'', JObj md),
       (''usage'', JObj usage), (''controller_tailnet_id_digest'', JStr (rt_hash R sid))]))))"

text \<open>
  The state is the list of packages the executor was run on. \<open>PermissionError\<close> of the
  identity check and errors of the package check are refused the same way; an exception of
  \<open>whois\<close> or of the executor is raised as it is.
\<close>

definition refuse_package :: "exn + 'a \<Rightarrow> exn + 'a" where
  "refuse_package r = (case r of Inl (WorkPackageError s) \<Rightarrow> Inl (WorkerExecutionError s) | _ \<Rightarrow> r)"

definition refuse_identity :: "exn + 'a \<Rightarrow> exn + 'a" where
  "refuse_identity r = (case r of Inl (WorkerIdentityError s) \<Rightarrow> Inl (WorkerExecutionError s) | _ \<Rightarrow> r)"

definition worker_run_package ::
  "rt \<Rightarrow> time_parser \<Rightarrow> (string \<Rightarrow> bool) \<Rightarrow> (string \<Rightarrow> exn + string) \<Rightarrow> (obj \<Rightarrow> exn + obj) \<Rightarrow> local_config
    \<Rightarrow> env \<Rightarrow> string \<Rightarrow> int \<Rightarrow> obj \<Rightarrow> (obj list, obj) st" where
  "worker_run_package R P is_ip whois exec c e digest now data =
     st_bind (st_lift (refuse_package (validate_work_package R P data (lc_node c) digest now))) (\<lambda>package.
     st_bind (st_lift (refuse_identity (verify_controller_identity R is_ip whois c e))) (\<lambda>sid.
     st_bind (\<lambda>done. (exec package, done @ [package])) (\<lambda>result.
     st_lift (receipt R package result sid))))"

section \<open>The controller\<close>

text \<open>
  \<open>remote\<close>: the remote executor on the node's record and the package; its result's \<open>ok\<close> decides how the
  lease ends, an exception fails it. Every call opens its own log.
\<close>

definition capability_digest_of :: "string \<Rightarrow> db \<Rightarrow> exn + string" where
  "capability_digest_of cid d = (case cap_get cid d of
     None \<Rightarrow> Inl (KeyError cid) | Some r \<Rightarrow> Inr (py_str (from_sql (r ''current_digest''))))"

definition rescue :: "('s, 'a) st \<Rightarrow> ('s, 'b) st \<Rightarrow> ('s, 'a) st" where
  "rescue m h = (\<lambda>s. case m s of
     (Inr x, s') \<Rightarrow> (Inr x, s')
   | (Inl e, s') \<Rightarrow> (case h s' of (Inl e', s'') \<Rightarrow> (Inl e', s'') | (Inr _, s'') \<Rightarrow> (Inl e, s'')))"

definition dispatch ::
  "rt \<Rightarrow> clock \<Rightarrow> clock \<Rightarrow> string \<Rightarrow> string \<Rightarrow> string \<Rightarrow> string \<Rightarrow> (node_record \<Rightarrow> obj \<Rightarrow> exn + bool \<times> 'r)
    \<Rightarrow> string \<Rightarrow> work_node \<Rightarrow> string \<Rightarrow> obj \<Rightarrow> int \<Rightarrow> (world, bool \<times> 'r) st" where
  "dispatch R K K2 sweep lease_id until pkg_expires remote gid wn cid inputs timeout =
     (case pl_node (wn_placement wn) of JStr nid \<Rightarrow>
       st_bind (raise_unless (pl_mode (wn_placement wn) = ''node'' \<and> nid \<noteq> []) (ValueError ''node placement'')) (\<lambda>_.
       opened (
       st_bind (read_db (get_node nid)) (\<lambda>node.
       st_bind (read_db (capability_digest_of cid)) (\<lambda>cur.
       st_bind (raise_unless (nr_digest node = Some cur) (RuntimeError ''worker capability digest'')) (\<lambda>_.
       st_bind (acquire_lease R K sweep lease_id gid (wn_id wn) (nr_id node) until) (\<lambda>lease.
       rescue
         (st_bind (st_lift (remote node (make_work_package R
           \<lparr>pa_id = ''pkg_'' @ c_uid K2, pa_graph = gid, pa_work_node = wn_id wn, pa_lease = lr_id lease, pa_worker = nr_id node,
            pa_capability = cid, pa_digest = cur, pa_inputs = inputs, pa_timeout = timeout, pa_created = c_now K2,
            pa_expires = pkg_expires\<rparr>))) (\<lambda>result.
         st_bind (if fst result then complete_lease R K2 (lr_id lease) else fail_lease R K2 (lr_id lease)) (\<lambda>_.
         st_ret result)))
         (fail_lease R K2 (lr_id lease))))))))
     | _ \<Rightarrow> st_raise (ValueError ''node placement''))"

end
