(* ===== verification/Remote_Props.thy ===== *)
theory Remote_Props
  imports Remote
begin

text \<open>
  What an acquisition of a lease guarantees, how a dispatch ends its lease, what a worker
  executes, and that a package cannot be altered without its digest showing it.
\<close>

section \<open>Acquisition\<close>

lemma read_db_ok: "read_db f w = (Inr x, w') \<longleftrightarrow> w' = w \<and> f (wdb w) = Inr x"
  by (auto simp: read_db_def st_bind_ok st_get_def st_lift_def)

lemma catch_ok: "catch_integrity e m w = (Inr x, w') \<longleftrightarrow> m w = (Inr x, w')"
  by (auto simp: catch_integrity_def split: prod.splits sum.splits exn.splits)

lemma node_emit_ok: "node_emit R K ty target p w = (Inr u, w') \<Longrightarrow> q \<noteq> ''memory_events'' \<Longrightarrow> wdb w' q = wdb w q"
  using append_event_tables by (auto simp: node_emit_def st_bind_ok st_ret_def)

lemma lease_by_table: "d' ''node_leases'' = d ''node_leases'' \<Longrightarrow> lease_by i d' = lease_by i d"
  by (simp add: lease_by_def first_by_def select_by_def)

lemma raise_ok: "raise_unless b e w = (Inr u, w') \<longleftrightarrow> b \<and> w' = w"
  by (auto simp: raise_unless_def st_ret_def st_raise_def)

lemma expire_ok:
  assumes "expire_active_leases now w = (Inr n, w')"
  shows "wdb w' = (wdb w)(''node_leases'' := map (\<lambda>r. if lease_expired now r
      then r(''state'' := SText ''expired'', ''released_at'' := SText now) else r) (wdb w ''node_leases''))"
proof -
  from assms obtain d where "update_where node_leases_t (lease_expired now)
       (\<lambda>r. r(''state'' := SText ''expired'', ''released_at'' := SText now)) (wdb w) = (Inr n, d)" "wdb w' = d"
    by (auto simp: expire_active_leases_def apply_on_ok)
  from update_where_ok(1) [OF this(1)] this(2) show ?thesis by simp
qed

lemma insert_lease_ok:
  assumes "insert_row node_leases_t
     [(''id'', JStr i), (''graph_id'', JStr g), (''work_node_id'', JStr wid), (''node_id'', JStr n),
      (''state'', JStr ''active''), (''acquired_at'', JStr t1), (''expires_at'', JStr t2)] d = (Inr u, d')"
  obtains r where "d' = d(''node_leases'' := d ''node_leases'' @ [r])" "list_all (\<lambda>x. \<not> clash node_leases_t r x) (d ''node_leases'')"
    "r ''id'' = SText i" "r ''work_node_id'' = SText wid" "r ''node_id'' = SText n" "r ''state'' = SText ''active''"
proof -
  let ?r = "fill_row node_leases_t [(''id'', SText i), (''graph_id'', SText g), (''work_node_id'', SText wid), (''node_id'', SText n),
      (''state'', SText ''active''), (''acquired_at'', SText t1), (''expires_at'', SText t2)]"
  from assms have "d' = d(''node_leases'' := d ''node_leases'' @ [?r])" "\<not> list_ex (clash node_leases_t ?r) (d ''node_leases'')"
    by (auto simp: insert_row_def st_bind_def st_lift_def insert_bound_def Let_def split: if_splits)
  moreover have "?r ''id'' = SText i" "?r ''work_node_id'' = SText wid" "?r ''node_id'' = SText n" "?r ''state'' = SText ''active''"
    by (simp_all add: fill_row_def col_of_def node_leases_t_def tab_def column_defs)
  ultimately show thesis by (intro that [of ?r]) (auto simp: list_ex_iff list_all_iff)
qed

lemma acquire_ok:
  assumes "acquire_lease R K sweep i g wid n until w = (Inr l, w')"
  obtains node r where "get_node n (wdb w) = Inr node" "nr_role node = ''worker''" "nr_trusted node"
    "lease_by i (wdb w') = Some r" "l = lease_of_row r" "r ''id'' = SText i" "r ''work_node_id'' = SText wid"
    "r ''node_id'' = SText n" "r ''state'' = SText ''active''"
    "\<forall>x \<in> set (wdb w ''node_leases''). x ''state'' = SText ''active'' \<and> x ''work_node_id'' = SText wid \<longrightarrow> stext (x ''expires_at'') \<le> sweep"
    "\<And>q. q \<notin> {''memory_events'', ''node_leases''} \<Longrightarrow> wdb w' q = wdb w q"
proof -
  from assms obtain node n0 w1 w2 d2 where
    node: "get_node n (wdb w) = Inr node" "nr_role node = ''worker''" "nr_trusted node"
    and ex: "expire_active_leases sweep w = (Inr n0, w1)"
    and ins: "insert_row node_leases_t
     [(''id'', JStr i), (''graph_id'', JStr g), (''work_node_id'', JStr wid), (''node_id'', JStr n),
      (''state'', JStr ''active''), (''acquired_at'', JStr (c_now K)), (''expires_at'', JStr until)] (wdb w1) = (Inr (), d2)"
    and em: "node_emit R K ''node.lease_acquired'' (''node:'' @ n)
       [(''lease_id'', JStr i), (''graph_id'', JStr g), (''work_node_id'', JStr wid), (''node_id'', JStr n),
        (''state'', JStr ''active'')] (w1\<lparr>wdb := d2\<rparr>) = (Inr (), w2)"
    and l: "get_lease i (wdb w2) = Inr l" and w2: "w' = w2"
    unfolding acquire_lease_def by (simp add: st_bind_ok read_db_ok raise_ok catch_ok apply_on_ok) blast
  note e = expire_ok [OF ex]
  from ins obtain r where d2: "d2 = (wdb w1)(''node_leases'' := wdb w1 ''node_leases'' @ [r])"
    and nc: "list_all (\<lambda>x. \<not> clash node_leases_t r x) (wdb w1 ''node_leases'')"
    and c: "r ''id'' = SText i" "r ''work_node_id'' = SText wid" "r ''node_id'' = SText n" "r ''state'' = SText ''active''"
    by (rule insert_lease_ok)
  have leases: "wdb w' ''node_leases'' = wdb w1 ''node_leases'' @ [r]"
    using node_emit_ok [OF em, of "''node_leases''"] w2 d2 by simp
  have "\<not> eq_val node_leases_t ''id'' (SText i) x" if "x \<in> set (wdb w1 ''node_leases'')" for x
    using nc that c(1) by (auto simp: list_all_iff clash_def lease_keys same_key_def eq_val_def lease_cols_aff)
  then have "filter (eq_val node_leases_t ''id'' (SText i)) (wdb w1 ''node_leases'') = []" by (simp add: filter_empty_conv)
  then have by_i: "lease_by i (wdb w') = Some r"
    using c(1) by (simp add: lease_by_def first_by_def select_by_def leases eq_val_def lease_cols_aff)
  have old: "stext (x ''expires_at'') \<le> sweep"
    if "x \<in> set (wdb w ''node_leases'')" "x ''state'' = SText ''active'' \<and> x ''work_node_id'' = SText wid" for x
  proof (rule ccontr)
    assume "\<not> stext (x ''expires_at'') \<le> sweep"
    then have "x \<in> set (wdb w1 ''node_leases'')" using that(1) by (auto simp: e lease_expired_def image_iff)
    with nc have "\<not> clash node_leases_t r x" by (simp add: list_all_iff)
    with c that(2) show False by (simp add: clash_def lease_keys same_key_def)
  qed
  have keep: "wdb w' q = wdb w q" if "q \<notin> {''memory_events'', ''node_leases''}" for q
    using node_emit_ok [OF em, of q] that w2 d2 e by simp
  have "l = lease_of_row r" using l w2 by_i by (simp add: get_lease_def)
  from that [OF node by_i this c(1,2,3,4) _ keep] old show thesis by blast
qed

text \<open>A lease is acquired only for a registered, trusted worker, and only when no active
  lease of the same work node was still valid at the sweep; the lease it returns is the
  active one on record for that work node and worker.\<close>

theorem acquired_leases_are_exclusive:
  assumes "acquire_lease R K sweep i g wid n until w = (Inr l, w')"
  shows "(\<exists>node. get_node n (wdb w) = Inr node \<and> nr_role node = ''worker'' \<and> nr_trusted node)
    \<and> lr_id l = i \<and> lr_work_node l = wid \<and> lr_node l = n \<and> lr_state l = ''active'' \<and> get_lease i (wdb w') = Inr l
    \<and> (\<forall>x \<in> set (wdb w ''node_leases''). x ''state'' = SText ''active'' \<and> x ''work_node_id'' = SText wid \<longrightarrow>
          \<not> sweep < stext (x ''expires_at''))"
proof (rule acquire_ok [OF assms])
  fix node r
  assume "get_node n (wdb w) = Inr node" "nr_role node = ''worker''" "nr_trusted node"
    "lease_by i (wdb w') = Some r" "l = lease_of_row r" "r ''id'' = SText i" "r ''work_node_id'' = SText wid"
    "r ''node_id'' = SText n" "r ''state'' = SText ''active''"
    "\<forall>x \<in> set (wdb w ''node_leases''). x ''state'' = SText ''active'' \<and> x ''work_node_id'' = SText wid \<longrightarrow> stext (x ''expires_at'') \<le> sweep"
  then show ?thesis by (simp add: lease_of_row_def get_lease_def not_less)
qed

section \<open>Dispatch\<close>

lemma terminal_ok:
  assumes "terminal_lease R K i target w = (Inr l, w')"
  shows "\<exists>r. lease_by i (wdb w') = Some r \<and> stext (r ''state'') = target"
    "q \<notin> {''memory_events'', ''node_leases''} \<Longrightarrow> wdb w' q = wdb w q"
proof -
  from assms obtain cur where cur: "get_lease i (wdb w) = Inr cur"
    and rest: "(if lr_state cur = target then st_ret cur
     else
       st_bind (raise_unless (lr_state cur = ''active'') (RuntimeError ''not active'')) (\<lambda>_.
       st_bind (apply_on (update_by node_leases_t [(''state'', JStr target), (''released_at'', JStr (c_now K))] id ''id'' (JStr i))) (\<lambda>_.
       st_bind (read_db (get_lease i)) (\<lambda>l.
       st_bind (node_emit R K (if target = ''completed'' then ''node.lease_completed'' else ''node.lease_failed'')
         (''node:'' @ lr_node l) (lease_event l)) (\<lambda>_.
       st_ret l))))) w = (Inr l, w')"
    unfolding terminal_lease_def by (simp only: st_bind_ok read_db_ok raise_ok) blast
  from cur obtain r where r: "lease_by i (wdb w) = Some r" "cur = lease_of_row r"
    by (auto simp: get_lease_def split: option.splits)
  have both: "(\<exists>r. lease_by i (wdb w') = Some r \<and> stext (r ''state'') = target)
      \<and> (\<forall>q. q \<notin> {''memory_events'', ''node_leases''} \<longrightarrow> wdb w' q = wdb w q)"
  proof (cases "lr_state cur = target")
    case True
    with rest r show ?thesis by (simp add: st_ret_def lease_of_row_def)
  next
    case False
    with rest obtain n d l0 where
      u: "update_by node_leases_t [(''state'', JStr target), (''released_at'', JStr (c_now K))] id ''id'' (JStr i) (wdb w) = (Inr n, d)"
      and l0: "get_lease i d = Inr l0"
      and em: "node_emit R K (if target = ''completed'' then ''node.lease_completed'' else ''node.lease_failed'')
         (''node:'' @ lr_node l0) (lease_event l0) (w\<lparr>wdb := d\<rparr>) = (Inr (), w')"
      by (auto simp: st_bind_ok raise_ok apply_on_ok read_db_ok st_ret_def)
    have d: "d = (wdb w)(tname node_leases_t := map (\<lambda>r. if eq_val node_leases_t ''id'' (SText i) r
        then r(''state'' := SText target, ''released_at'' := SText (c_now K)) else r) (wdb w (tname node_leases_t)))"
      by (rule update_by_ok [OF u]) (auto simp: lease_cols_aff simp del: tname_simps)
    have "lease_by i d = map_option (\<lambda>r. if eq_val node_leases_t ''id'' (SText i) r
        then r(''state'' := SText target, ''released_at'' := SText (c_now K)) else r) (lease_by i (wdb w))"
      unfolding lease_by_def by (rule first_by_update [OF d]) simp
    moreover have "eq_val node_leases_t ''id'' (SText i) r"
      using lease_by_row [OF r(1)] by (simp add: eq_val_def lease_cols_aff)
    ultimately have "lease_by i d = Some (r(''state'' := SText target, ''released_at'' := SText (c_now K)))" using r(1) by simp
    moreover have "lease_by i (wdb w') = lease_by i d"
      using node_emit_ok [OF em, of "''node_leases''"] by (intro lease_by_table) simp
    ultimately show ?thesis using node_emit_ok [OF em] d by simp
  qed
  then show "\<exists>r. lease_by i (wdb w') = Some r \<and> stext (r ''state'') = target" by blast
  show "q \<notin> {''memory_events'', ''node_leases''} \<Longrightarrow> wdb w' q = wdb w q" using both by blast
qed

lemma rescue_ok: "rescue m h w = (Inr x, w') \<longleftrightarrow> m w = (Inr x, w')"
  by (auto simp: rescue_def split: prod.splits sum.splits)

text \<open>C17: a dispatch that returns has run the remote executor for a trusted worker that has the
  controller's digest of the capability, under a lease of its own, and has ended that lease:
  completed when the result is ok, failed otherwise.\<close>

theorem dispatch_ends_its_lease:
  assumes "dispatch R K K2 sweep i until exp remote gid wn cid inputs timeout w = (Inr (ok, x), w')"
  shows "(\<exists>nid node. pl_node (wn_placement wn) = JStr nid \<and> get_node nid (wdb w) = Inr node \<and> nr_trusted node
        \<and> nr_role node = ''worker'' \<and> (\<exists>dg. capability_digest_of cid (wdb w) = Inr dg \<and> nr_digest node = Some dg)
        \<and> (\<exists>p. remote node p = Inr (ok, x) \<and> oget p ''lease_id'' = JStr i \<and> oget p ''worker_node_id'' = JStr (nr_id node)))
    \<and> (\<exists>r. lease_by i (wdb w') = Some r \<and> stext (r ''state'') = (if ok then ''completed'' else ''failed''))"
proof -
  from assms obtain nid where nid: "pl_node (wn_placement wn) = JStr nid"
    by (auto simp: dispatch_def st_raise_def split: json.splits)
  let ?w = "open_log w"
  let ?pkg = "\<lambda>node cur lease. make_work_package R
           \<lparr>pa_id = ''pkg_'' @ c_uid K2, pa_graph = gid, pa_work_node = wn_id wn, pa_lease = lr_id lease, pa_worker = nr_id node,
            pa_capability = cid, pa_digest = cur, pa_inputs = inputs, pa_timeout = timeout, pa_created = c_now K2,
            pa_expires = exp\<rparr>"
  from assms obtain node cur lease w1 w2 u where
    node: "get_node nid (wdb ?w) = Inr node" and cur: "capability_digest_of cid (wdb ?w) = Inr cur"
    and dg: "nr_digest node = Some cur"
    and ac: "acquire_lease R K sweep i gid (wn_id wn) (nr_id node) until ?w = (Inr lease, w1)"
    and re: "remote node (?pkg node cur lease) = Inr (ok, x)"
    and fin: "(if ok then complete_lease R K2 (lr_id lease) else fail_lease R K2 (lr_id lease)) w1 = (Inr u, w')"
    unfolding dispatch_def nid json.case opened_def
    by (simp add: st_bind_ok read_db_ok raise_ok rescue_ok st_lift_def st_ret_def) (metis fst_conv)
  obtain node' where n: "get_node (nr_id node) (wdb ?w) = Inr node'" "nr_role node' = ''worker''" "nr_trusted node'"
    "lr_id lease = i"
    by (rule acquire_ok [OF ac]) (auto simp: lease_of_row_def)
  have "nr_id node = nid"
  proof -
    from node obtain r where "node_by nid (wdb ?w) = Some r" "record_of_row r = Inr node"
      by (auto simp: get_node_def rbind_ok split: option.splits)
    moreover have "eq_val nodes_t ''id'' v r \<longleftrightarrow> r ''id'' \<noteq> SNull \<and> r ''id'' = coerce TextA v" for v r
      by (simp add: eq_val_def aff_of_def col_of_def nodes_t_def tab_def column_defs)
    ultimately show ?thesis
      using first_by_key [of nodes_t "''id''" nid "wdb ?w" r] by (auto simp: node_by_def record_of_row_def rbind_ok)
  qed
  with n node have "nr_role node = ''worker''" "nr_trusted node" by simp_all
  moreover have "oget (?pkg node cur lease) ''lease_id'' = JStr i" "oget (?pkg node cur lease) ''worker_node_id'' = JStr (nr_id node)"
    using n(4) by (simp_all add: make_work_package_def package_data_def oget_def)
  moreover have "\<exists>r. lease_by i (wdb w') = Some r \<and> stext (r ''state'') = (if ok then ''completed'' else ''failed'')"
    using fin n(4) terminal_ok(1) by (cases ok) (auto simp: complete_lease_def fail_lease_def)
  ultimately show ?thesis using nid node cur dg re by auto
qed

section \<open>Workers\<close>

lemma validate_ok:
  "validate_work_package R P data worker digest now = Inr d \<longleftrightarrow> d = data
    \<and> oget data ''schema'' = JStr WORK_PACKAGE_SCHEMA \<and> oget data ''digest'' = JStr (package_digest R data)
    \<and> oget data ''worker_node_id'' = JStr worker \<and> oget data ''capability_digest'' = JStr digest
    \<and> (\<exists>t. parse_time P (py_str (jor (oget data ''expires_at'') (JStr []))) = Inr t \<and> now < t)
    \<and> list_all (\<lambda>p. fst p \<in> set PACKAGE_FIELDS) data \<and> list_all (ohas data) PACKAGE_FIELDS"
  by (auto simp: validate_work_package_def rbind_ok)

text \<open>C18: a worker runs its executor at most once per package, and only on a package whose
  digest is right, which names this worker and the worker's own capability digest, is not
  expired, and comes from an address whose Tailnet identity is trusted; otherwise it raises
  before running anything.\<close>

theorem workers_run_only_verified_packages:
  assumes m: "worker_run_package R P is_ip whois exec c e digest now data runs = (r, runs')"
  shows "runs' = runs \<and> isl r
    \<or> runs' = runs @ [data] \<and> oget data ''digest'' = JStr (package_digest R data)
      \<and> oget data ''worker_node_id'' = JStr (lc_node c) \<and> oget data ''capability_digest'' = JStr digest
      \<and> (\<exists>t. parse_time P (py_str (jor (oget data ''expires_at'') (JStr []))) = Inr t \<and> now < t)
      \<and> (\<exists>ip sid. source_ip_from_ssh_env is_ip e = Inr ip \<and> whois ip = Inr sid \<and> rt_hash R sid \<in> set (lc_trusted c))"
proof -
  show ?thesis
  proof (cases "refuse_package (validate_work_package R P data (lc_node c) digest now)")
    case (Inl x)
    with m have "runs' = runs" "r = Inl x" by (auto simp: worker_run_package_def st_bind_def st_lift_def)
    then show ?thesis by simp
  next
    case v: (Inr p)
    then have p: "validate_work_package R P data (lc_node c) digest now = Inr p"
      by (auto simp: refuse_package_def split: sum.splits exn.splits)
    show ?thesis
    proof (cases "refuse_identity (verify_controller_identity R is_ip whois c e)")
      case (Inl x)
      with m v have "runs' = runs" "r = Inl x" by (auto simp: worker_run_package_def st_bind_def st_lift_def)
      then show ?thesis by simp
    next
      case i: (Inr sid)
      then have "verify_controller_identity R is_ip whois c e = Inr sid"
        by (auto simp: refuse_identity_def split: sum.splits exn.splits)
      then have s: "\<exists>ip sid. source_ip_from_ssh_env is_ip e = Inr ip \<and> whois ip = Inr sid \<and> rt_hash R sid \<in> set (lc_trusted c)"
        by (auto simp: verify_controller_identity_def rbind_ok)
      have "runs' = runs @ [data]"
        using m v i p by (cases "exec data") (auto simp: worker_run_package_def st_bind_def st_lift_def validate_ok)
      with p s show ?thesis by (simp only: validate_ok) blast
    qed
  qed
qed

section \<open>Packages\<close>

lemma wf_package_body: "wf_obj o' \<Longrightarrow> wf_obj (package_body o')"
  unfolding wf_obj_def package_body_def by (auto simp: distinct_map inj_on_def)

lemma made_body: "package_body (make_work_package R a) = package_data a"
  by (simp add: make_work_package_def package_body_def package_data_def)

text \<open>a package the controller makes is accepted by the worker it names, for the
  capability digest it carries, until it expires; and any package a worker accepts that
  shows the same digest has the same fields, up to the order of keys, unless SHA-256 has a
  collision.\<close>

theorem packages_cannot_be_altered:
  assumes "wf_obj (package_data a)" "wf_obj d"
    and "validate_work_package R P d worker digest now = Inr d"
    and "oget d ''digest'' = oget (make_work_package R a) ''digest''"
  shows "(\<forall>t. parse_time P (pa_expires a) = Inr t \<longrightarrow> now0 < t \<longrightarrow> pa_expires a \<noteq> [] \<longrightarrow>
        validate_work_package R P (make_work_package R a) (pa_worker a) (pa_digest a) now0 = Inr (make_work_package R a))
    \<and> (onorm (package_body d) = onorm (package_data a) \<or> (\<exists>x y. x \<noteq> y \<and> rt_hash R x = rt_hash R y))"
proof
  have dig: "oget (make_work_package R a) ''digest'' = JStr (package_digest R (make_work_package R a))"
    by (simp only: package_digest_def made_body) (simp add: make_work_package_def package_data_def oget_def package_digest_def package_body_def)
  show "\<forall>t. parse_time P (pa_expires a) = Inr t \<longrightarrow> now0 < t \<longrightarrow> pa_expires a \<noteq> [] \<longrightarrow>
        validate_work_package R P (make_work_package R a) (pa_worker a) (pa_digest a) now0 = Inr (make_work_package R a)"
    unfolding validate_ok dig
    by (simp add: make_work_package_def package_data_def oget_def ohas_def PACKAGE_FIELDS_def jor_def)
  have "package_digest R d = package_digest R (make_work_package R a)"
    using assms(3,4) by (simp only: validate_ok dig json.inject)
  then have h: "rt_hash R (dumps_with False (JObj (package_body d))) = rt_hash R (dumps_with False (JObj (package_data a)))"
    by (simp add: package_digest_def made_body del: dumps_with.simps)
  show "onorm (package_body d) = onorm (package_data a) \<or> (\<exists>x y. x \<noteq> y \<and> rt_hash R x = rt_hash R y)"
  proof (cases "dumps_with False (JObj (package_body d)) = dumps_with False (JObj (package_data a))")
    case True
    from dumps_with_inj [OF _ _ True] wf_package_body [OF assms(2)] assms(1)
    have "norm (JObj (package_body d)) = norm (JObj (package_data a))" by (simp only: wf_obj_def)
    then have "onorm (package_body d) = onorm (package_data a)" by (simp only: norm_JObj json.inject)
    then show ?thesis ..
  next
    case False
    with h show ?thesis by blast
  qed
qed

end
