(* ===== verification/Remote_Examples.thy ===== *)
theory Remote_Examples
  imports Remote_Props
begin

text \<open>The properties of leases, dispatch and workers at concrete inputs.\<close>

definition worker_row :: row where
  "worker_row = (\<lambda>_. SNull)(''id'' := SText ''node_abc'', ''name'' := SText ''w'', ''role'' := SText ''worker'',
     ''transport'' := SText ''tailscale'', ''transport_host'' := SText ''h'', ''ssh_user'' := SText ''u'',
     ''trusted'' := SInt 1, ''status'' := SText ''unknown'', ''capabilities_json'' := SText ''[]'',
     ''capability_digest'' := SText ''sha256:d'', ''created_at'' := SText ''t'', ''updated_at'' := SText ''t'')"

definition ended_row :: row where
  "ended_row = (\<lambda>_. SNull)(''id'' := SText ''lease_old'', ''graph_id'' := SText ''g'', ''work_node_id'' := SText ''n'',
     ''node_id'' := SText ''node_abc'', ''state'' := SText ''failed'', ''acquired_at'' := SText ''2025-01-01'',
     ''expires_at'' := SText ''2025-01-02'', ''released_at'' := SText ''2025-01-01'')"

definition lease_world :: world where
  "lease_world = world0\<lparr>wdb := (\<lambda>_. [])(''nodes'' := [worker_row], ''node_leases'' := [ended_row],
     ''capabilities'' := [(\<lambda>_. SNull)(''id'' := SText ''cap'', ''current_digest'' := SText ''sha256:d'')])\<rparr>"

lemma leases_exclude_each_other_witness:
  "ended_row \<in> set (wdb (snd (acquire_lease rt0 clock0 ''2025-03-04'' ''lease_new'' ''g'' ''n'' ''node_abc'' ''2025-03-05'' lease_world)) ''node_leases'')"
proof -
  have "(lease_step rt0)\<^sup>*\<^sup>* lease_world
      (snd (acquire_lease rt0 clock0 ''2025-03-04'' ''lease_new'' ''g'' ''n'' ''node_abc'' ''2025-03-05'' lease_world))"
    by (rule r_into_rtranclp, rule lease_step.acquire)
  from leases_exclude_each_other [OF this] show ?thesis by (simp add: lease_world_def ended_row_def)
qed

lemma lease_acquired:
  "\<not> isl (fst (acquire_lease rt0 clock0 ''2025-03-04'' ''lease_new'' ''g'' ''n'' ''node_abc'' ''2025-03-05'' lease_world))"
  by code_simp

lemma acquired_leases_are_exclusive_witness:
  "lr_state (projr (fst (acquire_lease rt0 clock0 ''2025-03-04'' ''lease_new'' ''g'' ''n'' ''node_abc'' ''2025-03-05'' lease_world))) = ''active''"
  using acquired_leases_are_exclusive [OF outcome [OF lease_acquired]] by blast

definition remote_node :: work_node where
  "remote_node = \<lparr>wn_id = ''n'', wn_graph = ''g'', wn_kind = Task, wn_objective = ''o'', wn_requires = [],
     wn_risk = JStr ''low'', wn_approval = False, wn_review = False, wn_evidence = False, wn_outputs = [],
     wn_retry = \<lparr>rp_max = JInt 1, rp_backoff = JFloat ''0.0''\<rparr>,
     wn_placement = \<lparr>pl_mode = ''node'', pl_node = JStr ''node_abc''\<rparr>, wn_metadata = []\<rparr>"

definition run_remote :: "bool \<Rightarrow> (world, bool \<times> unit) st" where
  "run_remote ok = dispatch rt0 clock0 clock0 ''2025-03-04'' ''lease_new'' ''2025-03-05'' ''2025-03-05''
     (\<lambda>_ _. Inr (ok, ())) ''g'' remote_node ''cap'' [] 60"

lemma dispatched: "map_sum id fst (fst (run_remote False lease_world)) = Inr False"
  by code_simp

lemma dispatch_ends_its_lease_witness:
  "\<exists>r. lease_by ''lease_new'' (wdb (snd (run_remote False lease_world))) = Some r \<and> stext (r ''state'') = ''failed''"
proof -
  obtain x w' where m: "run_remote False lease_world = (Inr (False, x), w')"
    using dispatched by (cases "run_remote False lease_world"; cases "fst (run_remote False lease_world)") auto
  from dispatch_ends_its_lease [OF m [unfolded run_remote_def]] show ?thesis by (simp add: m)
qed

definition pkg_args :: package_args where
  "pkg_args = \<lparr>pa_id = ''pkg_1'', pa_graph = ''g'', pa_work_node = ''n'', pa_lease = ''lease_new'', pa_worker = ''node_abc'',
     pa_capability = ''cap'', pa_digest = ''sha256:d'', pa_inputs = [], pa_timeout = 60, pa_created = ''t0'', pa_expires = ''t1''\<rparr>"

definition times :: time_parser where
  "times s = (if s = ''t1'' then Some 10 else None)"

definition worker_config :: local_config where
  "worker_config = \<lparr>lc_node = ''node_abc'', lc_role = ''worker'', lc_trusted = [rt_hash rt0 ''ctl'']\<rparr>"

definition ssh_env :: env where
  "ssh_env = [''SSH_CLIENT'' \<mapsto> ''1.2.3.4 22'']"

definition worker_run :: "(obj list, obj) st" where
  "worker_run = worker_run_package rt0 times (\<lambda>_. True) (\<lambda>_. Inr ''ctl'') (\<lambda>_. Inr [(''ok'', JBool True)]) worker_config
     ssh_env ''sha256:d'' 5 (make_work_package rt0 pkg_args)"

lemma worker_runs: "length (snd (worker_run [])) = 1"
  by code_simp

lemma workers_run_only_verified_packages_witness:
  "snd (worker_run []) = [make_work_package rt0 pkg_args]"
  using workers_run_only_verified_packages [of rt0 times "\<lambda>_. True" "\<lambda>_. Inr ''ctl''" "\<lambda>_. Inr [(''ok'', JBool True)]" worker_config
      ssh_env "''sha256:d''" 5 "make_work_package rt0 pkg_args" "[]" "fst (worker_run [])" "snd (worker_run [])"] worker_runs
  by (auto simp: worker_run_def)

lemma package_accepted:
  "\<not> isl (validate_work_package rt0 times (make_work_package rt0 pkg_args) ''node_abc'' ''sha256:d'' 5)"
  by code_simp

lemma packages_cannot_be_altered_witness:
  "validate_work_package rt0 times (make_work_package rt0 pkg_args) ''node_abc'' ''sha256:d'' 9 = Inr (make_work_package rt0 pkg_args)"
proof -
  have w: "wf_obj (package_data pkg_args)" "wf_obj (make_work_package rt0 pkg_args)"
    by (simp_all add: wf_obj_def make_work_package_def package_data_def pkg_args_def)
  obtain p where "validate_work_package rt0 times (make_work_package rt0 pkg_args) ''node_abc'' ''sha256:d'' 5 = Inr p"
    using package_accepted by (cases "validate_work_package rt0 times (make_work_package rt0 pkg_args) ''node_abc'' ''sha256:d'' 5") auto
  then have v: "validate_work_package rt0 times (make_work_package rt0 pkg_args) ''node_abc'' ''sha256:d'' 5 = Inr (make_work_package rt0 pkg_args)"
    by (simp add: validate_ok)
  have t: "parse_time times (pa_expires pkg_args) = Inr 10" by code_simp
  have f: "pa_expires pkg_args \<noteq> []" "pa_worker pkg_args = ''node_abc''" "pa_digest pkg_args = ''sha256:d''"
    by (simp_all add: pkg_args_def)
  from packages_cannot_be_altered [OF w v refl, of 9] t f show ?thesis by simp
qed

end
