(* ===== verification/Routing.thy ===== *)
theory Routing
  imports Projections
begin

text \<open>
  Which model a call may use: reasoning classes and their entitlement
  (\<open>core/reasoning.py\<close>), the classifier of task signals
  (\<open>routing/criticality.py\<close>), the provider mapping files
  (\<open>adapters/providers\<close>) and the gateway every call passes (\<open>routing/gateway.py\<close>).
\<close>

section \<open>Reasoning classes\<close>

definition REASONING_CLASSES :: "string list" where
  "REASONING_CLASSES = [''fast'', ''balanced'', ''deep'', ''frontier'', ''local'', ''private'']"

definition CRITICALITIES :: "string list" where
  "CRITICALITIES = [''LOW'', ''MEDIUM'', ''HIGH'', ''CRITICAL'']"

definition CRITICALITY_TO_CLASS :: "(string \<times> string) list" where
  "CRITICALITY_TO_CLASS =
     [(''LOW'', ''fast''), (''MEDIUM'', ''balanced''), (''HIGH'', ''deep''), (''CRITICAL'', ''frontier'')]"

definition class_order :: "string list" where
  "class_order = [''fast'', ''balanced'', ''deep'', ''frontier'']"

text \<open>\<open>xs.index(x)\<close> for an element of the list.\<close>

fun index_of :: "'a list \<Rightarrow> 'a \<Rightarrow> nat" where
  "index_of [] x = 0"
| "index_of (y # ys) x = (if y = x then 0 else Suc (index_of ys x))"

definition resolve_class :: "string \<Rightarrow> exn + string" where
  "resolve_class criticality = (case map_of CRITICALITY_TO_CLASS (upper criticality) of
     None \<Rightarrow> Inl (ReasoningPolicyError ''unknown criticality'') | Some c \<Rightarrow> Inr c)"

definition validate_request :: "string \<Rightarrow> string \<Rightarrow> exn + string" where
  "validate_request criticality requested =
     (if requested \<notin> set REASONING_CLASSES then Inl (ReasoningPolicyError ''unknown reasoning class'')
      else if requested \<in> {''local'', ''private''} then Inr requested
      else rbind (resolve_class criticality) (\<lambda>entitled.
        if index_of class_order requested > index_of class_order entitled
        then Inl (ReasoningPolicyError ''entitlement'') else Inr requested))"

section \<open>Criticality\<close>

definition BLAST_RADII :: "string list" where "BLAST_RADII = [''local'', ''team'', ''org'', ''public'']"
definition ROUTING_PRIVACY_CLASSES :: "string list" where
  "ROUTING_PRIVACY_CLASSES = [''public'', ''internal'', ''confidential'', ''restricted'']"
definition ENVIRONMENTS :: "string list" where "ENVIRONMENTS = [''production'', ''staging'', ''development'']"
definition CHANGE_SHAPES :: "string list" where "CHANGE_SHAPES = [''breaking'', ''additive'']"
definition CLAIM_DIRECTIONS :: "string list" where "CLAIM_DIRECTIONS = [''asserting'', ''corrective'']"
definition FINANCIAL_EFFECTS :: "string list" where "FINANCIAL_EFFECTS = [''executes'', ''touches_path'']"

record task_signals =
  ts_reversible :: bool
  ts_blast :: string
  ts_privacy :: string
  ts_public_claim :: bool
  ts_schema :: bool
  ts_production :: bool
  ts_financial :: bool
  ts_canonical :: bool
  ts_ambiguous :: bool
  ts_environment :: string
  ts_shape :: string
  ts_direction :: string
  ts_effect :: string

text \<open>The field defaults, and the checks a construction makes.\<close>

definition default_signals :: task_signals where
  "default_signals = \<lparr>ts_reversible = True, ts_blast = ''local'', ts_privacy = ''internal'', ts_public_claim = False,
     ts_schema = False, ts_production = False, ts_financial = False, ts_canonical = False, ts_ambiguous = False,
     ts_environment = ''production'', ts_shape = ''breaking'', ts_direction = ''asserting'', ts_effect = ''executes''\<rparr>"

definition check_signals :: "task_signals \<Rightarrow> exn + task_signals" where
  "check_signals s =
     rbind (rguard (ts_blast s \<in> set BLAST_RADII) (ValueError ''unknown blast_radius'')) (\<lambda>_.
     rbind (rguard (ts_privacy s \<in> set ROUTING_PRIVACY_CLASSES) (ValueError ''unknown privacy_class'')) (\<lambda>_.
     rbind (rguard (ts_environment s \<in> set ENVIRONMENTS) (ValueError ''unknown environment'')) (\<lambda>_.
     rbind (rguard (ts_shape s \<in> set CHANGE_SHAPES) (ValueError ''unknown change_shape'')) (\<lambda>_.
     rbind (rguard (ts_direction s \<in> set CLAIM_DIRECTIONS) (ValueError ''unknown claim_direction'')) (\<lambda>_.
     rbind (rguard (ts_effect s \<in> set FINANCIAL_EFFECTS) (ValueError ''unknown financial_effect'')) (\<lambda>_.
     Inr s))))))"

record classification =
  cl_criticality :: string
  cl_rationale :: string
  cl_flagged :: bool
  cl_reasons :: "string list"

definition bump_level :: "string \<Rightarrow> string \<Rightarrow> string" where
  "bump_level current candidate =
     (if index_of CRITICALITIES candidate > index_of CRITICALITIES current then candidate else current)"

type_synonym floor_rule = "(string \<times> string) option"

definition bump :: "floor_rule \<Rightarrow> string \<times> string list \<Rightarrow> string \<times> string list" where
  "bump r st = (case r of
     None \<Rightarrow> st
   | Some (candidate, reason) \<Rightarrow> (bump_level (fst st) candidate, snd st @ [reason @ '' -> floor '' @ candidate]))"

text \<open>One rule for each \<open>if\<close> block of \<open>classify\<close>: the floor it forces and why, when it fires.\<close>

definition critical_rules :: "task_signals \<Rightarrow> floor_rule list" where
  "critical_rules s =
     [if ts_public_claim s then
        (if ts_direction s = ''asserting'' \<or> \<not> ts_reversible s
         then Some (''CRITICAL'', ''asserts a new public claim, or the publication cannot be retracted'')
         else Some (''HIGH'', ''corrective public claim that can itself be retracted''))
      else None,
      if ts_financial s then
        (if ts_effect s = ''executes'' \<or> \<not> ts_reversible s \<or> ts_canonical s
         then Some (''CRITICAL'', ''commits funds or legal obligation, is irreversible, or writes the canonical ledger'')
         else Some (''HIGH'', ''touches a financial or legal code path without committing to it, reversibly''))
      else None,
      if ts_schema s \<and> ts_canonical s then Some (''CRITICAL'', ''schema change that migrates canonical state'') else None,
      if ts_production s \<and> \<not> ts_reversible s
      then Some (''CRITICAL'', ''irreversible action touching production or credentials'') else None,
      if \<not> ts_reversible s \<and> ts_blast s \<in> {''org'', ''public''}
      then Some (''CRITICAL'', ''irreversible action with org/public blast radius'') else None,
      if ts_privacy s = ''restricted'' \<and> \<not> ts_reversible s
      then Some (''CRITICAL'', ''irreversible action on restricted-class data'') else None]"

definition high_rules :: "task_signals \<Rightarrow> floor_rule list" where
  "high_rules s =
     [if ts_canonical s then Some (''HIGH'', ''writes to canonical (shared source-of-truth) state'') else None,
      if ts_schema s then
        (if ts_environment s = ''production'' then Some (''HIGH'', ''production schema or migration impact'')
         else if \<not> ts_reversible s then Some (''HIGH'', ''irreversible schema change in '' @ ts_environment s)
         else Some (''MEDIUM'', ''reversible schema change confined to '' @ ts_environment s))
      else None,
      if ts_production s then Some (''HIGH'', ''touches production or credential access'') else None,
      if ts_blast s \<in> {''org'', ''public''} then Some (''HIGH'', ''blast radius is '' @ ts_blast s) else None,
      if ts_privacy s \<in> {''confidential'', ''restricted''} then
        (if ts_blast s = ''local'' then Some (''MEDIUM'', ts_privacy s @ '' data, but blast radius stays local'')
         else Some (''HIGH'', ts_privacy s @ '' data leaving local blast radius''))
      else None]"

definition medium_rules :: "task_signals \<Rightarrow> floor_rule list" where
  "medium_rules s =
     [if \<not> ts_reversible s then Some (''MEDIUM'', ''action is not reversible'') else None,
      if ts_blast s = ''team'' \<and> (ts_environment s = ''production'' \<or> \<not> ts_reversible s \<or> ts_shape s = ''breaking'')
      then Some (''MEDIUM'', ''team-scoped change that is production-facing, irreversible, or breaking'') else None]"

definition classify :: "task_signals \<Rightarrow> classification" where
  "classify s = (case fold bump (critical_rules s @ high_rules s @ medium_rules s) (''LOW'', []) of
     (level, reasons) \<Rightarrow>
       \<lparr>cl_criticality = level,
        cl_rationale = (if reasons \<noteq> [] then join_with ''; '' reasons else ''no elevated-risk signals present; baseline LOW''),
        cl_flagged = ts_ambiguous s \<and> level \<in> {''HIGH'', ''CRITICAL''},
        cl_reasons = reasons\<rparr>)"

section \<open>Provider files\<close>

definition SUPPORTED_SCHEMAS :: "json list" where
  "SUPPORTED_SCHEMAS = [JStr ''shiroe.provider/v1'', JStr ''shiroe.provider/v2'']"

definition MODEL_LIFECYCLE_STATES :: "json list" where
  "MODEL_LIFECYCLE_STATES = [JStr ''active'', JStr ''deprecated'', JStr ''retired'', JStr ''unknown'']"

definition VERIFIED_BY_VALUES :: "json list" where
  "VERIFIED_BY_VALUES = [JStr ''human'', JStr ''api'']"

record capability =
  mc_lifecycle :: json
  mc_source_url :: json
  mc_verified_at :: json
  mc_verified_by :: json
  mc_context_window :: json
  mc_max_output :: json
  mc_endpoint :: json
  mc_modalities :: "json list"
  mc_tools :: json
  mc_structured :: json
  mc_region :: json
  mc_retention :: json

definition unverified_capability :: capability where
  "unverified_capability = \<lparr>mc_lifecycle = JStr ''unknown'', mc_source_url = JNull, mc_verified_at = JNull,
     mc_verified_by = JNull, mc_context_window = JNull, mc_max_output = JNull, mc_endpoint = JNull, mc_modalities = [],
     mc_tools = JNull, mc_structured = JNull, mc_region = JNull, mc_retention = JNull\<rparr>"

definition mc_verified :: "capability \<Rightarrow> bool" where
  "mc_verified c \<longleftrightarrow> mc_verified_at c \<noteq> JNull \<and> mc_verified_by c \<noteq> JNull"

definition fails_closed :: "capability \<Rightarrow> bool" where
  "fails_closed c \<longleftrightarrow> mc_lifecycle c \<noteq> JStr ''active'' \<or> \<not> mc_verified c"

definition parse_capability :: "json \<Rightarrow> json \<Rightarrow> exn + capability" where
  "parse_capability entry schema =
     (if schema = JStr ''shiroe.provider/v1'' then Inr unverified_capability
      else
        rbind (as_obj entry) (\<lambda>e.
        rbind (rguard (oget_or e ''lifecycle'' (JStr ''unknown'') \<in> set MODEL_LIFECYCLE_STATES) (ValueError ''unknown lifecycle'')) (\<lambda>_.
        rbind (rguard (oget e ''verified_by'' = JNull \<or> oget e ''verified_by'' \<in> set VERIFIED_BY_VALUES) (ValueError ''unknown verified_by'')) (\<lambda>_.
        rbind (jiter (oget_or e ''modalities'' (JList []))) (\<lambda>ms.
        Inr \<lparr>mc_lifecycle = oget_or e ''lifecycle'' (JStr ''unknown''), mc_source_url = oget e ''source_url'',
          mc_verified_at = oget e ''verified_at'', mc_verified_by = oget e ''verified_by'',
          mc_context_window = oget e ''context_window'', mc_max_output = oget e ''max_output_tokens'',
          mc_endpoint = oget e ''endpoint'', mc_modalities = ms, mc_tools = oget e ''supports_tools'',
          mc_structured = oget e ''supports_structured_output'', mc_region = oget e ''region'',
          mc_retention = oget e ''retention_class''\<rparr>)))))"

record provider =
  pv_schema :: json
  pv_name :: json
  pv_classes :: "(string \<times> json) list"

definition subscript :: "obj \<Rightarrow> string \<Rightarrow> exn + json" where
  "subscript d k = (case map_of d k of None \<Rightarrow> Inl (KeyError k) | Some v \<Rightarrow> Inr v)"

definition check_class :: "json \<Rightarrow> string \<times> json \<Rightarrow> exn + unit" where
  "check_class schema c =
     rbind (rguard (fst c \<in> set REASONING_CLASSES) (ValueError ''unknown reasoning class'')) (\<lambda>_.
     rbind (parse_capability (snd c) schema) (\<lambda>_.
     rbind (as_obj (snd c)) (\<lambda>e.
     if oget e ''fallback'' = JNull then Inr ()
     else
       rbind (parse_capability (oget e ''fallback'') schema) (\<lambda>_.
       rbind (as_obj (oget e ''fallback'')) (\<lambda>f.
       rguard (ohas f ''model_id'') (ValueError ''fallback is missing model_id''))))))"

definition mk_provider :: "json \<Rightarrow> exn + provider" where
  "mk_provider data =
     rbind (as_obj data) (\<lambda>d.
     rbind (rguard (oget d ''schema'' \<in> set SUPPORTED_SCHEMAS) (ValueError ''schema'')) (\<lambda>_.
     rbind (subscript d ''provider'') (\<lambda>name.
     rbind (subscript d ''classes'') (\<lambda>cs.
     rbind (as_obj cs) (\<lambda>classes.
     rbind (rmap (check_class (oget d ''schema'')) classes) (\<lambda>_.
     Inr \<lparr>pv_schema = oget d ''schema'', pv_name = name, pv_classes = classes\<rparr>))))))"

record model_spec =
  ms_provider :: json
  ms_model :: json
  ms_class :: string
  ms_effort :: json
  ms_lifecycle :: json
  ms_verified :: bool
  ms_warning :: "string option"

definition provider_capability :: "provider \<Rightarrow> string \<Rightarrow> exn + capability" where
  "provider_capability p c = (case map_of (pv_classes p) c of
     None \<Rightarrow> Inl (ReasoningPolicyError ''no mapping'') | Some entry \<Rightarrow> parse_capability entry (pv_schema p))"

definition spec_of :: "json \<Rightarrow> json \<Rightarrow> string \<Rightarrow> json \<Rightarrow> capability \<Rightarrow> string option \<Rightarrow> model_spec" where
  "spec_of name model c effort cap warning =
     \<lparr>ms_provider = name, ms_model = model, ms_class = c, ms_effort = effort, ms_lifecycle = mc_lifecycle cap,
      ms_verified = mc_verified cap, ms_warning = warning\<rparr>"

text \<open>The fallback of an entry, when it is usable.\<close>

definition usable_fallback :: "provider \<Rightarrow> string \<Rightarrow> obj \<Rightarrow> exn + model_spec option" where
  "usable_fallback p c e =
     (if oget e ''fallback'' = JNull then Inr None
      else
        rbind (parse_capability (oget e ''fallback'') (pv_schema p)) (\<lambda>cap.
        if fails_closed cap then Inr None
        else
          rbind (as_obj (oget e ''fallback'')) (\<lambda>f.
          rbind (subscript f ''model_id'') (\<lambda>m.
          Inr (Some (spec_of (oget_or f ''provider'' (pv_name p)) m c (oget e ''effort'') cap
            (Some ''primary model unavailable; used fallback'')))))))"

definition resolve_spec :: "provider \<Rightarrow> string \<Rightarrow> bool \<Rightarrow> exn + model_spec" where
  "resolve_spec p c live = (case map_of (pv_classes p) c of
     None \<Rightarrow> Inl (ReasoningPolicyError ''no mapping'')
   | Some entry \<Rightarrow>
       rbind (parse_capability entry (pv_schema p)) (\<lambda>cap.
       rbind (as_obj entry) (\<lambda>e.
       rbind (subscript e ''model_id'') (\<lambda>m.
       if \<not> fails_closed cap then Inr (spec_of (pv_name p) m c (oget e ''effort'') cap None)
       else if live then
         rbind (usable_fallback p c e) (\<lambda>f. case f of
           Some sp \<Rightarrow> Inr sp
         | None \<Rightarrow> Inl (ReasoningPolicyError ''live call''))
       else Inr (spec_of (pv_name p) m c (oget e ''effort'') cap (Some ''dry-run''))))))"

text \<open>The files of the package, as texts; providers are read once and kept.\<close>

type_synonym provider_cache = "string \<Rightarrow> provider option"

definition get_provider :: "(string \<Rightarrow> string option) \<Rightarrow> string \<Rightarrow> (provider_cache, provider) st" where
  "get_provider files name = (\<lambda>cache. case cache name of
     Some p \<Rightarrow> (Inr p, cache)
   | None \<Rightarrow>
       (case files name of
          None \<Rightarrow> (Inl (KeyError ''no provider adapter''), cache)
        | Some text \<Rightarrow>
            (case rbind (case loads text of None \<Rightarrow> Inl (JSONDecodeError ''provider'') | Some j \<Rightarrow> Inr j) mk_provider of
               Inl e \<Rightarrow> (Inl e, cache)
             | Inr p \<Rightarrow> (Inr p, cache(name \<mapsto> p)))))"

definition resolve_model :: "(string \<Rightarrow> string option) \<Rightarrow> string \<Rightarrow> string \<Rightarrow> bool \<Rightarrow> (provider_cache, model_spec) st" where
  "resolve_model files c name live = st_bind (get_provider files name) (\<lambda>p. st_lift (resolve_spec p c live))"

section \<open>The gateway\<close>

definition PLACEMENTS :: "string list" where "PLACEMENTS = [''any'', ''local'', ''private'']"

record call_request =
  cr_criticality :: string
  cr_purpose :: string
  cr_class :: "string option"
  cr_placement :: string
  cr_privacy :: string
  cr_provider :: string
  cr_dry_run :: bool

definition check_call :: "call_request \<Rightarrow> exn + call_request" where
  "check_call r =
     rbind (rguard (upper (cr_criticality r) \<in> set CRITICALITIES) (RoutingError ''unknown criticality'')) (\<lambda>_.
     rbind (rguard (strip (cr_purpose r) \<noteq> []) (RoutingError ''purpose is required'')) (\<lambda>_.
     rbind (rguard (cr_placement r \<in> set PLACEMENTS) (RoutingError ''unknown placement'')) (\<lambda>_.
     rbind (rguard (cr_privacy r \<in> set ROUTING_PRIVACY_CLASSES) (RoutingError ''unknown privacy class'')) (\<lambda>_.
     rbind (rguard (cr_class r \<notin> {Some ''local'', Some ''private''}) (RoutingError ''is a placement'')) (\<lambda>_.
     Inr r)))))"

definition task_digest :: "(string \<Rightarrow> string) \<Rightarrow> call_request \<Rightarrow> string" where
  "task_digest sha r = take 16 (sha (join_with ''|'' [upper (cr_criticality r), cr_purpose r, or_opt (cr_class r) ''-'',
     cr_placement r, cr_privacy r, cr_provider r]))"

record route_decision =
  rd_spec :: model_spec
  rd_criticality :: string
  rd_entitled :: string
  rd_class :: string
  rd_placement :: string
  rd_privacy :: string
  rd_provider :: string
  rd_purpose :: string
  rd_digest :: string
  rd_classification :: "classification option"

definition route :: "(string \<Rightarrow> string) \<Rightarrow> (string \<Rightarrow> string option) \<Rightarrow> call_request \<Rightarrow> (provider_cache, route_decision) st" where
  "route sha files r =
     st_bind (st_lift (resolve_class (upper (cr_criticality r)))) (\<lambda>entitled.
     st_bind (st_lift (case cr_class r of None \<Rightarrow> Inr entitled | Some c \<Rightarrow> validate_request (upper (cr_criticality r)) c)) (\<lambda>granted.
     st_bind (st_guard (cr_placement r \<notin> {''local'', ''private''}) (RoutingError ''placement requires a local adapter'')) (\<lambda>_.
     st_bind (resolve_model files granted (cr_provider r) (\<not> cr_dry_run r)) (\<lambda>spec.
     st_ret \<lparr>rd_spec = spec, rd_criticality = upper (cr_criticality r), rd_entitled = entitled, rd_class = granted,
       rd_placement = cr_placement r, rd_privacy = cr_privacy r, rd_provider = cr_provider r, rd_purpose = cr_purpose r,
       rd_digest = task_digest sha r, rd_classification = None\<rparr>))))"

record route_options =
  ro_class :: "string option"
  ro_placement :: string
  ro_privacy :: string
  ro_provider :: string
  ro_dry_run :: bool
  ro_approved :: bool

definition classify_and_route ::
  "(string \<Rightarrow> string) \<Rightarrow> (string \<Rightarrow> string option) \<Rightarrow> task_signals \<Rightarrow> string \<Rightarrow> route_options \<Rightarrow> (provider_cache, route_decision) st" where
  "classify_and_route sha files s purpose opts =
     (let c = classify s in
      st_bind (st_guard (\<not> cl_flagged c \<or> ro_approved opts) (ApprovalRequiredError (cl_rationale c))) (\<lambda>_.
      st_bind (st_lift (check_call \<lparr>cr_criticality = cl_criticality c, cr_purpose = purpose, cr_class = ro_class opts,
        cr_placement = ro_placement opts, cr_privacy = ro_privacy opts, cr_provider = ro_provider opts,
        cr_dry_run = ro_dry_run opts\<rparr>)) (\<lambda>r.
      st_bind (route sha files r) (\<lambda>d. st_ret (d\<lparr>rd_classification := Some c\<rparr>)))))"

end
