(* ===== verification/Routing_Props.thy ===== *)
theory Routing_Props
  imports Routing
begin

text \<open>
  What the routing decides: a more severe task is never classified lower, and the gateway
  grants no more reasoning than the classification entitles and no unverified model.
\<close>

section \<open>The classifier takes the highest floor\<close>

definition rank :: "string \<Rightarrow> nat" where
  "rank c = index_of CRITICALITIES c"

definition floor_rank :: "floor_rule \<Rightarrow> nat" where
  "floor_rank r = (case r of None \<Rightarrow> 0 | Some (c, _) \<Rightarrow> rank c)"

lemma rank_bump: "rank (fst (bump r st)) = max (rank (fst st)) (floor_rank r)"
  by (auto simp: bump_def bump_level_def floor_rank_def rank_def split: option.splits)

lemma rank_fold_bump: "rank (fst (fold bump rs st)) = fold max (map floor_rank rs) (rank (fst st))"
  by (induction rs arbitrary: st) (simp_all add: rank_bump max.commute)

lemma le_fold_max: "(k :: nat) \<le> fold max ns n \<longleftrightarrow> k \<le> n \<or> (\<exists>m \<in> set ns. k \<le> m)"
  by (induction ns arbitrary: n) (simp_all add: le_max_iff_disj disj_commute disj_left_commute)

definition rules :: "task_signals \<Rightarrow> floor_rule list" where
  "rules s = critical_rules s @ high_rules s @ medium_rules s"

lemma rank_classify: "0 < k \<Longrightarrow> k \<le> rank (cl_criticality (classify s)) \<longleftrightarrow> (\<exists>r \<in> set (rules s). k \<le> floor_rank r)"
proof -
  assume k: "0 < k"
  have "rank (cl_criticality (classify s)) = fold max (map floor_rank (rules s)) (rank ''LOW'')"
    using rank_fold_bump [of "rules s" "(''LOW'', [])"] by (simp add: classify_def rules_def case_prod_beta)
  moreover have "rank ''LOW'' = 0" by (simp add: rank_def CRITICALITIES_def)
  ultimately show ?thesis using k by (simp add: le_fold_max)
qed

lemma rank_names [simp]:
  "rank ''LOW'' = 0" "rank ''MEDIUM'' = 1" "rank ''HIGH'' = 2" "rank ''CRITICAL'' = 3"
  by (simp_all add: rank_def CRITICALITIES_def)

lemma floor_rank_simps [simp]:
  "floor_rank None = 0" "floor_rank (Some (c, r)) = rank c"
  by (simp_all add: floor_rank_def)

lemma floor_if: "k \<le> floor_rank (if b then x else y) \<longleftrightarrow> b \<and> k \<le> floor_rank x \<or> \<not> b \<and> k \<le> floor_rank y"
  by simp

lemma bex_Cons: "(\<exists>x \<in> set (a # as). P x) \<longleftrightarrow> P a \<or> (\<exists>x \<in> set as. P x)" "(\<exists>x \<in> set []. P x) \<longleftrightarrow> False"
  by simp_all

lemma num_le:
  "(4::nat) \<le> 0 \<longleftrightarrow> False" "(4::nat) \<le> 1 \<longleftrightarrow> False" "(4::nat) \<le> 2 \<longleftrightarrow> False" "(4::nat) \<le> 3 \<longleftrightarrow> False"
  "(3::nat) \<le> 0 \<longleftrightarrow> False" "(3::nat) \<le> 1 \<longleftrightarrow> False" "(3::nat) \<le> 2 \<longleftrightarrow> False" "(3::nat) \<le> 3 \<longleftrightarrow> True"
  "(2::nat) \<le> 0 \<longleftrightarrow> False" "(2::nat) \<le> 1 \<longleftrightarrow> False" "(2::nat) \<le> 2 \<longleftrightarrow> True" "(2::nat) \<le> 3 \<longleftrightarrow> True"
  "(1::nat) \<le> 0 \<longleftrightarrow> False" "(1::nat) \<le> 1 \<longleftrightarrow> True" "(1::nat) \<le> 2 \<longleftrightarrow> True" "(1::nat) \<le> 3 \<longleftrightarrow> True"
  by simp_all

lemmas floors = rules_def critical_rules_def high_rules_def medium_rules_def append.simps bex_Cons floor_if
  floor_rank_simps rank_names num_le simp_thms insert_iff empty_iff

text \<open>The conditions of the three levels.\<close>

lemma no_higher_floor: "\<not> (\<exists>r \<in> set (rules s). 4 \<le> floor_rank r)"
  by (simp only: floors)

lemma critical_floor:
  "(\<exists>r \<in> set (rules s). 3 \<le> floor_rank r) \<longleftrightarrow>
     ts_public_claim s \<and> (ts_direction s = ''asserting'' \<or> \<not> ts_reversible s) \<or>
     ts_financial s \<and> (ts_effect s = ''executes'' \<or> \<not> ts_reversible s \<or> ts_canonical s) \<or>
     ts_schema s \<and> ts_canonical s \<or>
     \<not> ts_reversible s \<and> (ts_production s \<or> ts_blast s \<in> {''org'', ''public''} \<or> ts_privacy s = ''restricted'')"
  by (simp only: floors) argo

lemma high_floor:
  "(\<exists>r \<in> set (rules s). 2 \<le> floor_rank r) \<longleftrightarrow>
     ts_public_claim s \<or> ts_financial s \<or> ts_canonical s \<or> ts_production s \<or> ts_blast s \<in> {''org'', ''public''} \<or>
     ts_schema s \<and> (ts_environment s = ''production'' \<or> \<not> ts_reversible s) \<or>
     ts_privacy s \<in> {''confidential'', ''restricted''} \<and> ts_blast s \<noteq> ''local'' \<or>
     ts_privacy s = ''restricted'' \<and> \<not> ts_reversible s"
  by (simp only: floors) argo

lemma medium_floor:
  "(\<exists>r \<in> set (rules s). 1 \<le> floor_rank r) \<longleftrightarrow>
     (\<exists>r \<in> set (rules s). 2 \<le> floor_rank r) \<or> \<not> ts_reversible s \<or> ts_schema s \<or>
     ts_privacy s \<in> {''confidential'', ''restricted''} \<or>
     ts_blast s = ''team'' \<and> (ts_environment s = ''production'' \<or> ts_shape s = ''breaking'')"
  by (simp only: floors) argo

lemma rank_le: "rank (cl_criticality (classify s)) \<le> 3"
proof (rule ccontr)
  assume "\<not> rank (cl_criticality (classify s)) \<le> 3"
  then have "4 \<le> rank (cl_criticality (classify s))" by simp
  then show False using rank_classify [of 4 s] no_higher_floor [of s] by simp
qed

section \<open>Severity\<close>

text \<open>Every signal of \<open>t\<close> is at least as severe as that of \<open>s\<close>; the grading vocabularies start with the most severe value.\<close>

definition tamer :: "task_signals \<Rightarrow> task_signals \<Rightarrow> bool" where
  "tamer s t \<longleftrightarrow>
     (ts_reversible t \<longrightarrow> ts_reversible s) \<and>
     index_of BLAST_RADII (ts_blast s) \<le> index_of BLAST_RADII (ts_blast t) \<and>
     index_of ROUTING_PRIVACY_CLASSES (ts_privacy s) \<le> index_of ROUTING_PRIVACY_CLASSES (ts_privacy t) \<and>
     (ts_public_claim s \<longrightarrow> ts_public_claim t) \<and> (ts_schema s \<longrightarrow> ts_schema t) \<and>
     (ts_production s \<longrightarrow> ts_production t) \<and> (ts_financial s \<longrightarrow> ts_financial t) \<and> (ts_canonical s \<longrightarrow> ts_canonical t) \<and>
     index_of ENVIRONMENTS (ts_environment t) \<le> index_of ENVIRONMENTS (ts_environment s) \<and>
     index_of CHANGE_SHAPES (ts_shape t) \<le> index_of CHANGE_SHAPES (ts_shape s) \<and>
     index_of CLAIM_DIRECTIONS (ts_direction t) \<le> index_of CLAIM_DIRECTIONS (ts_direction s) \<and>
     index_of FINANCIAL_EFFECTS (ts_effect t) \<le> index_of FINANCIAL_EFFECTS (ts_effect s)"

definition valid_signals :: "task_signals \<Rightarrow> bool" where
  "valid_signals s \<longleftrightarrow> check_signals s = Inr s"

lemma valid_signals_iff:
  "valid_signals s \<longleftrightarrow> ts_blast s \<in> set BLAST_RADII \<and> ts_privacy s \<in> set ROUTING_PRIVACY_CLASSES \<and>
     ts_environment s \<in> set ENVIRONMENTS \<and> ts_shape s \<in> set CHANGE_SHAPES \<and>
     ts_direction s \<in> set CLAIM_DIRECTIONS \<and> ts_effect s \<in> set FINANCIAL_EFFECTS"
  by (simp add: valid_signals_def check_signals_def rbind_ok del: rbind_simps)

lemma index_hd: "index_of (a # as) y \<le> index_of (a # as) x \<Longrightarrow> x = a \<Longrightarrow> y = a"
  by (simp split: if_splits)

lemma index4:
  assumes "index_of [a, b, c, d] x \<le> index_of [a, b, c, d] y" "distinct [a, b, c, d]"
    and "x \<in> set [a, b, c, d]" "y \<in> set [a, b, c, d]"
  shows "x \<in> {c, d} \<Longrightarrow> y \<in> {c, d}" "x = b \<Longrightarrow> y \<in> {b, c, d}" "x \<noteq> a \<Longrightarrow> y \<noteq> a" "x = d \<Longrightarrow> y = d"
  using assms by (auto split: if_splits)

lemma tamerD:
  assumes "tamer s t" "valid_signals s" "valid_signals t"
  shows "ts_blast s \<in> {''org'', ''public''} \<longrightarrow> ts_blast t \<in> {''org'', ''public''}"
    and "ts_blast s = ''team'' \<longrightarrow> ts_blast t \<in> {''team'', ''org'', ''public''}"
    and "ts_blast s \<noteq> ''local'' \<longrightarrow> ts_blast t \<noteq> ''local''"
    and "ts_privacy s \<in> {''confidential'', ''restricted''} \<longrightarrow> ts_privacy t \<in> {''confidential'', ''restricted''}"
    and "ts_privacy s = ''restricted'' \<longrightarrow> ts_privacy t = ''restricted''"
    and "ts_environment s = ''production'' \<longrightarrow> ts_environment t = ''production''"
    and "ts_shape s = ''breaking'' \<longrightarrow> ts_shape t = ''breaking''"
    and "ts_direction s = ''asserting'' \<longrightarrow> ts_direction t = ''asserting''"
    and "ts_effect s = ''executes'' \<longrightarrow> ts_effect t = ''executes''"
    and "\<not> ts_reversible s \<longrightarrow> \<not> ts_reversible t"
    and "ts_public_claim s \<longrightarrow> ts_public_claim t" and "ts_schema s \<longrightarrow> ts_schema t"
    and "ts_production s \<longrightarrow> ts_production t" and "ts_financial s \<longrightarrow> ts_financial t"
    and "ts_canonical s \<longrightarrow> ts_canonical t"
proof -
  note l = assms(1) [unfolded tamer_def BLAST_RADII_def ROUTING_PRIVACY_CLASSES_def ENVIRONMENTS_def CHANGE_SHAPES_def
      CLAIM_DIRECTIONS_def FINANCIAL_EFFECTS_def]
  note vs = assms(2) [unfolded valid_signals_iff BLAST_RADII_def ROUTING_PRIVACY_CLASSES_def]
  note vt = assms(3) [unfolded valid_signals_iff BLAST_RADII_def ROUTING_PRIVACY_CLASSES_def]
  have b: "distinct [''local'', ''team'', ''org'', ''public'']"
    and c: "distinct [''public'', ''internal'', ''confidential'', ''restricted'']" by simp_all
  note lb = index4 [OF l [THEN conjunct2, THEN conjunct1] b vs [THEN conjunct1] vt [THEN conjunct1]]
  note lp = index4 [OF l [THEN conjunct2, THEN conjunct2, THEN conjunct1] c
      vs [THEN conjunct2, THEN conjunct1] vt [THEN conjunct2, THEN conjunct1]]
  show "ts_blast s \<in> {''org'', ''public''} \<longrightarrow> ts_blast t \<in> {''org'', ''public''}" by (rule impI, erule lb(1))
  show "ts_blast s = ''team'' \<longrightarrow> ts_blast t \<in> {''team'', ''org'', ''public''}" by (rule impI, erule lb(2))
  show "ts_blast s \<noteq> ''local'' \<longrightarrow> ts_blast t \<noteq> ''local''" by (rule impI, erule lb(3))
  show "ts_privacy s \<in> {''confidential'', ''restricted''} \<longrightarrow> ts_privacy t \<in> {''confidential'', ''restricted''}" by (rule impI, erule lp(1))
  show "ts_privacy s = ''restricted'' \<longrightarrow> ts_privacy t = ''restricted''" by (rule impI, erule lp(4))
  show "ts_environment s = ''production'' \<longrightarrow> ts_environment t = ''production''"
    using l by (elim conjE) (intro impI, rule index_hd, assumption+)
  show "ts_shape s = ''breaking'' \<longrightarrow> ts_shape t = ''breaking''"
    using l by (elim conjE) (intro impI, rule index_hd, assumption+)
  show "ts_direction s = ''asserting'' \<longrightarrow> ts_direction t = ''asserting''"
    using l by (elim conjE) (intro impI, rule index_hd, assumption+)
  show "ts_effect s = ''executes'' \<longrightarrow> ts_effect t = ''executes''"
    using l by (elim conjE) (intro impI, rule index_hd, assumption+)
  show "\<not> ts_reversible s \<longrightarrow> \<not> ts_reversible t"
    and "ts_public_claim s \<longrightarrow> ts_public_claim t" and "ts_schema s \<longrightarrow> ts_schema t"
    and "ts_production s \<longrightarrow> ts_production t" and "ts_financial s \<longrightarrow> ts_financial t"
    and "ts_canonical s \<longrightarrow> ts_canonical t" by (use l in \<open>elim conjE, iprover\<close>)+
qed

lemma level_up:
  assumes "tamer s t" "valid_signals s" "valid_signals t"
  shows "(\<exists>r \<in> set (rules s). 3 \<le> floor_rank r) \<Longrightarrow> (\<exists>r \<in> set (rules t). 3 \<le> floor_rank r)"
    and "(\<exists>r \<in> set (rules s). 2 \<le> floor_rank r) \<Longrightarrow> (\<exists>r \<in> set (rules t). 2 \<le> floor_rank r)"
    and "(\<exists>r \<in> set (rules s). 1 \<le> floor_rank r) \<Longrightarrow> (\<exists>r \<in> set (rules t). 1 \<le> floor_rank r)"
proof -
  note d = tamerD [OF assms]
  show "(\<exists>r \<in> set (rules s). 3 \<le> floor_rank r) \<Longrightarrow> (\<exists>r \<in> set (rules t). 3 \<le> floor_rank r)"
    unfolding critical_floor using d by argo
  show "(\<exists>r \<in> set (rules s). 2 \<le> floor_rank r) \<Longrightarrow> (\<exists>r \<in> set (rules t). 2 \<le> floor_rank r)"
    unfolding high_floor using d by argo
  show "(\<exists>r \<in> set (rules s). 1 \<le> floor_rank r) \<Longrightarrow> (\<exists>r \<in> set (rules t). 1 \<le> floor_rank r)"
    unfolding medium_floor high_floor using d unfolding insert_iff empty_iff by argo
qed

lemma severity_monotone:
  assumes "tamer s t" "valid_signals s" "valid_signals t"
  shows "rank (cl_criticality (classify s)) \<le> rank (cl_criticality (classify t))"
proof -
  have up: "0 < k \<Longrightarrow> k \<le> 3 \<Longrightarrow> k \<le> rank (cl_criticality (classify s)) \<Longrightarrow> k \<le> rank (cl_criticality (classify t))" for k
  proof -
    assume "0 < k" "k \<le> 3" "k \<le> rank (cl_criticality (classify s))"
    then have "k = 1 \<or> k = 2 \<or> k = 3" by linarith
    with level_up [OF assms] \<open>0 < k\<close> \<open>k \<le> rank (cl_criticality (classify s))\<close>
    show "k \<le> rank (cl_criticality (classify t))" unfolding rank_classify [OF \<open>0 < k\<close>] by blast
  qed
  then show ?thesis using rank_le [of s] by (cases "rank (cl_criticality (classify s)) = 0") auto
qed

text \<open>C19: The classifier fails upward. For valid signals, making any of them more severe (irreversible, a wider
  blast radius, a more protected privacy class, any flag raised, production, breaking, asserting, executing) never
  lowers the criticality, so no signal buys down a floor that another one forces, and the defaults of the grading
  fields are the worst case.\<close>

theorem severity_never_lowers_criticality:
  assumes "tamer s t" and "check_signals s = Inr s" and "check_signals t = Inr t"
  shows "rank (cl_criticality (classify s)) \<le> rank (cl_criticality (classify t))"
  using severity_monotone [OF assms(1)] assms(2,3) by (simp add: valid_signals_def)

definition mild_signals :: task_signals where
  "mild_signals = default_signals\<lparr>ts_schema := True, ts_environment := ''staging''\<rparr>"

definition harsh_signals :: task_signals where
  "harsh_signals = default_signals\<lparr>ts_schema := True, ts_reversible := False, ts_blast := ''org''\<rparr>"

theorem severity_never_lowers_criticality_witness:
  "rank (cl_criticality (classify mild_signals)) \<le> rank (cl_criticality (classify harsh_signals)) \<and>
   cl_criticality (classify mild_signals) = ''MEDIUM'' \<and> cl_criticality (classify harsh_signals) = ''CRITICAL''"
proof -
  have "tamer mild_signals harsh_signals" by code_simp
  moreover have "check_signals mild_signals = Inr mild_signals" by code_simp
  moreover have "check_signals harsh_signals = Inr harsh_signals" by code_simp
  ultimately have "rank (cl_criticality (classify mild_signals)) \<le> rank (cl_criticality (classify harsh_signals))"
    by (rule severity_never_lowers_criticality)
  moreover have "cl_criticality (classify mild_signals) = ''MEDIUM''" by code_simp
  moreover have "cl_criticality (classify harsh_signals) = ''CRITICAL''" by code_simp
  ultimately show ?thesis by blast
qed

section \<open>The gateway\<close>

text \<open>What a live resolution returns was active and verified.\<close>

lemma usable_fallback_verified:
  assumes "usable_fallback p c e = Inr (Some sp)"
  shows "ms_lifecycle sp = JStr ''active'' \<and> ms_verified sp \<and> ms_class sp = c"
  using assms by (auto simp: usable_fallback_def rbind_ok spec_of_def fails_closed_def split: if_splits)

lemma resolve_spec_class: "resolve_spec p c live = Inr sp \<Longrightarrow> ms_class sp = c"
  by (auto simp: resolve_spec_def rbind_ok spec_of_def dest: usable_fallback_verified split: option.splits if_splits)

lemma resolve_spec_live:
  assumes "resolve_spec p c True = Inr sp"
  shows "ms_lifecycle sp = JStr ''active'' \<and> ms_verified sp"
  using assms
  by (auto simp: resolve_spec_def rbind_ok spec_of_def fails_closed_def dest: usable_fallback_verified split: option.splits if_splits)

lemma resolve_model_spec:
  assumes "resolve_model files c name live k = (Inr sp, k')"
  obtains p where "resolve_spec p c live = Inr sp"
  using assms by (auto simp: resolve_model_def st_lift_def elim!: st_bind_okE)

lemma validate_request_le:
  assumes "validate_request c r = Inr g" and "r \<notin> {''local'', ''private''}"
  shows "g = r \<and> (\<exists>e. resolve_class c = Inr e \<and> index_of class_order r \<le> index_of class_order e)"
proof -
  have "\<not> (r = ''local'' \<or> r = ''private'')" using assms(2) by blast
  with assms(1) show ?thesis
    unfolding validate_request_def rbind_ok
    by (auto simp only: insert_iff empty_iff rbind_ok sum.inject sum.distinct split: if_splits)
qed

text \<open>The levels a classification can have, and their entitlement.\<close>

lemma level_member: "cl_criticality (classify s) \<in> set CRITICALITIES"
proof -
  have member: "x \<in> set xs \<longleftrightarrow> index_of xs x < length xs" for x :: string and xs
    by (induction xs) auto
  show ?thesis unfolding member using rank_le [of s] by (simp add: rank_def CRITICALITIES_def)
qed

lemma resolve_names:
  "resolve_class ''LOW'' = Inr ''fast''" "resolve_class ''MEDIUM'' = Inr ''balanced''"
  "resolve_class ''HIGH'' = Inr ''deep''" "resolve_class ''CRITICAL'' = Inr ''frontier''"
  by code_simp+

lemma level_names:
  "upper ''LOW'' = ''LOW''" "upper ''MEDIUM'' = ''MEDIUM''" "upper ''HIGH'' = ''HIGH''" "upper ''CRITICAL'' = ''CRITICAL''"
  "index_of class_order ''fast'' = 0" "index_of class_order ''balanced'' = 1" "index_of class_order ''deep'' = 2"
  "index_of class_order ''frontier'' = 3"
  by code_simp+

definition entitlement_ok :: "string \<Rightarrow> bool" where
  "entitlement_ok c \<longleftrightarrow> upper c = c \<and> (case resolve_class c of Inl _ \<Rightarrow> False
     | Inr e \<Rightarrow> e \<in> set class_order \<and> index_of class_order e = rank c \<and> (3 \<le> index_of class_order e \<longrightarrow> c = ''CRITICAL''))"

lemma entitled_of_level: "c \<in> set CRITICALITIES \<Longrightarrow> entitlement_ok c"
proof -
  have "list_all entitlement_ok CRITICALITIES" by code_simp
  then show "c \<in> set CRITICALITIES \<Longrightarrow> entitlement_ok c" by (simp add: list_all_iff)
qed

lemma route_ok:
  assumes "route sha files r k = (Inr d, k')"
  obtains entitled p where "resolve_class (upper (cr_criticality r)) = Inr entitled"
    and "(case cr_class r of None \<Rightarrow> Inr entitled | Some c \<Rightarrow> validate_request (upper (cr_criticality r)) c) = Inr (rd_class d)"
    and "cr_placement r \<notin> {''local'', ''private''}" and "resolve_spec p (rd_class d) (\<not> cr_dry_run r) = Inr (rd_spec d)"
    and "rd_entitled d = entitled" "rd_criticality d = upper (cr_criticality r)" "rd_placement d = cr_placement r"
proof -
  from assms obtain e g k1 sp where
    "resolve_class (upper (cr_criticality r)) = Inr e"
    "(case cr_class r of None \<Rightarrow> Inr e | Some c \<Rightarrow> validate_request (upper (cr_criticality r)) c) = Inr g"
    "cr_placement r \<notin> {''local'', ''private''}" "resolve_model files g (cr_provider r) (\<not> cr_dry_run r) k1 = (Inr sp, k')"
    and d: "d = \<lparr>rd_spec = sp, rd_criticality = upper (cr_criticality r), rd_entitled = e, rd_class = g,
       rd_placement = cr_placement r, rd_privacy = cr_privacy r, rd_provider = cr_provider r, rd_purpose = cr_purpose r,
       rd_digest = task_digest sha r, rd_classification = None\<rparr>"
    unfolding route_def
    by (elim st_bind_okE) (simp add: st_lift_def st_guard_def st_ret_def split: if_splits)
  moreover from this(4) obtain p where "resolve_spec p g (\<not> cr_dry_run r) = Inr sp" by (rule resolve_model_spec)
  ultimately show thesis by (intro that [of e p]) (simp_all only: d route_decision.simps simp_thms)
qed

lemma check_call_ok:
  assumes "check_call r = Inr r'"
  shows "r' = r \<and> cr_class r \<notin> {Some ''local'', Some ''private''} \<and> cr_placement r \<in> set PLACEMENTS"
  using assms unfolding check_call_def rbind_ok rguard_ok by (elim exE conjE) simp

text \<open>The class that is granted, against the entitlement of the classification.\<close>

lemma granted_within:
  assumes "c \<in> set CRITICALITIES" and "resolve_class c = Inr e" and "q \<notin> {Some ''local'', Some ''private''}"
    and "(case q of None \<Rightarrow> Inr e | Some r \<Rightarrow> validate_request c r) = Inr g"
  shows "index_of class_order g \<le> rank c \<and> e \<in> set class_order \<and> (g = ''frontier'' \<longrightarrow> c = ''CRITICAL'')"
proof -
  from entitled_of_level [OF assms(1)] assms(2)
  have e: "e \<in> set class_order" "index_of class_order e = rank c" "3 \<le> index_of class_order e \<longrightarrow> c = ''CRITICAL''"
    by (simp_all add: entitlement_ok_def)
  have le: "index_of class_order g \<le> index_of class_order e"
  proof (cases q)
    case (Some r)
    with assms(3) have "r \<notin> {''local'', ''private''}" by blast
    with validate_request_le [of c r g] assms(2,4) Some show ?thesis by simp
  qed (use assms(4) in simp)
  show ?thesis
  proof (intro conjI impI)
    show "index_of class_order g \<le> rank c" using le e(2) by simp
    show "e \<in> set class_order" by (rule e(1))
    assume "g = ''frontier''"
    with le level_names(8) have "3 \<le> index_of class_order e" by simp
    with e(3) show "c = ''CRITICAL''" by iprover
  qed
qed

text \<open>C20: What the gateway hands out. When it routes a task, an ambiguous task of level high or critical was
  approved by a human; the granted reasoning class never outranks the one the classification entitles, frontier is
  granted to critical tasks only, the payload was not confined to this machine, and on a live call the model is
  recorded as active and verified, whatever the provider files, the cached providers and the requested class are.\<close>

theorem gateway_grants_within_entitlement:
  assumes "classify_and_route sha files s purpose opts k = (Inr d, k')"
  shows "(cl_flagged (classify s) \<longrightarrow> ro_approved opts) \<and> rd_classification d = Some (classify s)
    \<and> rd_criticality d = cl_criticality (classify s)
    \<and> index_of class_order (rd_class d) \<le> rank (cl_criticality (classify s))
    \<and> (rd_class d = ''frontier'' \<longrightarrow> cl_criticality (classify s) = ''CRITICAL'')
    \<and> ms_class (rd_spec d) = rd_class d \<and> rd_placement d \<notin> {''local'', ''private''}
    \<and> (\<not> ro_dry_run opts \<longrightarrow> ms_lifecycle (rd_spec d) = JStr ''active'' \<and> ms_verified (rd_spec d))"
proof -
  let ?c = "cl_criticality (classify s)"
  have up: "upper ?c = ?c" using entitled_of_level [OF level_member] by (simp add: entitlement_ok_def)
  from assms obtain r k1 d' where
    flag: "\<not> cl_flagged (classify s) \<or> ro_approved opts"
    and r: "check_call \<lparr>cr_criticality = ?c, cr_purpose = purpose, cr_class = ro_class opts,
        cr_placement = ro_placement opts, cr_privacy = ro_privacy opts, cr_provider = ro_provider opts,
        cr_dry_run = ro_dry_run opts\<rparr> = Inr r"
    and d': "route sha files r k1 = (Inr d', k')" and d: "d = d'\<lparr>rd_classification := Some (classify s)\<rparr>"
    unfolding classify_and_route_def Let_def
    by (elim st_bind_okE) (auto simp: st_lift_def st_guard_def st_ret_def split: if_splits)
  note r = check_call_ok [OF r]
  from d' obtain e p where e: "resolve_class (upper (cr_criticality r)) = Inr e"
    and g: "(case cr_class r of None \<Rightarrow> Inr e | Some c \<Rightarrow> validate_request (upper (cr_criticality r)) c) = Inr (rd_class d')"
    and pl: "cr_placement r \<notin> {''local'', ''private''}"
    and sp: "resolve_spec p (rd_class d') (\<not> cr_dry_run r) = Inr (rd_spec d')"
    and eqs: "rd_criticality d' = upper (cr_criticality r)" "rd_placement d' = cr_placement r"
    by (rule route_ok)
  from r have rr: "cr_criticality r = ?c" "cr_class r = ro_class opts" "cr_dry_run r = ro_dry_run opts"
    and q: "ro_class opts \<notin> {Some ''local'', Some ''private''}" by simp_all
  from granted_within [OF level_member e [unfolded rr up] q g [unfolded rr up]]
  have grant: "index_of class_order (rd_class d') \<le> rank ?c" "rd_class d' = ''frontier'' \<longrightarrow> ?c = ''CRITICAL''"
    by iprover+
  have live: "\<not> ro_dry_run opts \<longrightarrow> ms_lifecycle (rd_spec d') = JStr ''active'' \<and> ms_verified (rd_spec d')"
    using sp resolve_spec_live by (auto simp only: rr simp_thms)
  have upd: "rd_classification d = Some (classify s)" "rd_criticality d = rd_criticality d'" "rd_class d = rd_class d'"
    "rd_spec d = rd_spec d'" "rd_placement d = rd_placement d'" by (simp_all add: d)
  show ?thesis
    using flag grant live resolve_spec_class [OF sp] pl unfolding upd eqs rr up by iprover
qed

definition provider_text :: string where
  "provider_text = dumps (JObj [(''schema'', JStr ''shiroe.provider/v2''), (''provider'', JStr ''p''), (''classes'',
     JObj [(''deep'', JObj [(''model_id'', JStr ''old''), (''lifecycle'', JStr ''deprecated''), (''fallback'',
       JObj [(''model_id'', JStr ''new''), (''lifecycle'', JStr ''active''), (''verified_at'', JStr ''d''),
             (''verified_by'', JStr ''human'')])])])])"

definition routed_options :: route_options where
  "routed_options = \<lparr>ro_class = None, ro_placement = ''any'', ro_privacy = ''internal'', ro_provider = ''p'',
     ro_dry_run = False, ro_approved = False\<rparr>"

definition routed :: "(exn + route_decision) \<times> provider_cache" where
  "routed = classify_and_route id [''p'' \<mapsto> provider_text] (default_signals\<lparr>ts_canonical := True\<rparr>) ''write'' routed_options Map.empty"

lemma routed_ok: "(case fst routed of Inl _ \<Rightarrow> False | Inr d \<Rightarrow>
    rd_class d = ''deep'' \<and> ms_model (rd_spec d) = JStr ''new'' \<and> ms_verified (rd_spec d))"
  by code_simp

theorem gateway_grants_within_entitlement_witness:
  "\<exists>d k'. routed = (Inr d, k') \<and> rd_class d = ''deep'' \<and> ms_model (rd_spec d) = JStr ''new''
     \<and> ms_lifecycle (rd_spec d) = JStr ''active''"
proof -
  obtain d where f: "fst routed = Inr d" using routed_ok by (cases "fst routed") simp_all
  then have d: "routed = (Inr d, snd routed)" by (simp add: prod_eq_iff)
  from gateway_grants_within_entitlement [OF d [unfolded routed_def]]
  have "ms_lifecycle (rd_spec d) = JStr ''active''" by (simp add: routed_options_def)
  moreover have "rd_class d = ''deep''" "ms_model (rd_spec d) = JStr ''new''" using routed_ok by (simp_all add: f)
  ultimately show ?thesis using d by blast
qed

end
