(* ===== verification/Adapters.thy ===== *)
theory Adapters
  imports Approvals
begin

text \<open>
  Running a capability: the result of an adapter (\<open>adapters/capabilities/base.py\<close>), the
  command line adapter (\<open>adapters/capabilities/cli.py\<close>), and the independent review of a
  node through another capability (\<open>verification/review.py\<close>, \<open>verification/schema.py\<close>).
\<close>

section \<open>Results\<close>

record adapter_result =
  ar_ok :: bool
  ar_output :: json
  ar_error :: "string option"
  ar_exit :: "int option"
  ar_stderr :: "string option"
  ar_metadata :: obj
  ar_usage :: "obj option"

definition failed_result :: "string \<Rightarrow> adapter_result" where
  "failed_result e = \<lparr>ar_ok = False, ar_output = JNull, ar_error = Some e, ar_exit = None, ar_stderr = None,
     ar_metadata = [], ar_usage = None\<rparr>"

section \<open>The command line adapter\<close>

text \<open>
  What the adapter finds on the machine: the database and the policy files of the project
  at a root, which paths exist, how the file system resolves a path, the user's home, and
  what a process does when it is run.
\<close>

datatype proc_result = Exited int string string | TimedOut "string option" | NoExecutable

record process =
  pr_argv :: "string list"
  pr_timeout :: int
  pr_cwd :: string

record machine =
  mc_db :: "string \<Rightarrow> db"
  mc_files :: files
  mc_disk :: disk
  mc_resolve :: "string \<Rightarrow> string"
  mc_home :: string
  mc_process :: "process \<Rightarrow> proc_result"

definition parent_of :: "string \<Rightarrow> string" where
  "parent_of p = join_with ''/'' (butlast (components p))"

definition last_chars :: "nat \<Rightarrow> string \<Rightarrow> string" where
  "last_chars n s = drop (length s - n) s"

fun json_strings :: "json list \<Rightarrow> string list option" where
  "json_strings [] = Some []"
| "json_strings (JStr s # js) = map_option ((#) s) (json_strings js)"
| "json_strings _ = None"

definition try_json :: "string \<Rightarrow> json" where
  "try_json text = (let t = strip text in
     if t = [] then JStr []
     else if starts_with t ''{'' \<or> starts_with t ''['' then (case loads t of None \<Rightarrow> JStr t | Some j \<Rightarrow> j)
     else JStr t)"

definition string_list :: "obj \<Rightarrow> string \<Rightarrow> exn + string list" where
  "string_list permissions k = (if permissions = [] then Inr []
     else rbind (jiter (jor (oget permissions k) (JList []))) (\<lambda>xs. Inr (map py_str xs)))"

text \<open>The command of the manifest, or the reason it is not one; its first token is looked up in the project.\<close>

definition command_of :: "obj \<Rightarrow> exn + string list option" where
  "command_of manifest =
     rbind (as_obj (oget_or manifest ''entrypoint'' (JObj []))) (\<lambda>ep.
     Inr (case oget ep ''command'' of JList xs \<Rightarrow> if xs = [] then None else json_strings xs | _ \<Rightarrow> None))"

fun resolved_command :: "machine \<Rightarrow> string \<Rightarrow> string list \<Rightarrow> string list" where
  "resolved_command M root [] = []"
| "resolved_command M root (t # ts) =
     (if \<not> is_absolute t \<and> mc_disk M (join_path root [t]) \<noteq> None then mc_resolve M (join_path root [t]) else t) # ts"

datatype arguments = Arguments "string list" | BadArguments string

definition arguments_of :: "obj \<Rightarrow> obj \<Rightarrow> exn + arguments" where
  "arguments_of manifest inputs =
     (let raw = oget_or inputs ''args'' (JList []) in
      if \<not> truthy raw then Inr (Arguments [])
      else rbind (as_obj (oget_or manifest ''entrypoint'' (JObj []))) (\<lambda>ep. Inr (
        case oget ep ''args'' of
          JList _ \<Rightarrow>
            (case raw of JList xs \<Rightarrow> (case json_strings xs of Some as \<Rightarrow> Arguments as
                | None \<Rightarrow> BadArguments ''inputs.args must be a list of strings'')
             | _ \<Rightarrow> BadArguments ''inputs.args must be a list of strings'')
        | _ \<Rightarrow> BadArguments ''inputs.args are not allowed unless manifest entrypoint.args declares an argument contract'')))"

definition AUTONOMY_MODES :: "(string \<times> autonomy) list" where
  "AUTONOMY_MODES = [(''suggest'', Suggest), (''auto-safe'', AutoSafe), (''policy-bound'', PolicyBound)]"

definition mode_of :: "json \<Rightarrow> exn + autonomy" where
  "mode_of j = (case j of JStr s \<Rightarrow> enum_of AUTONOMY_MODES s | _ \<Rightarrow> Inl (ValueError ''autonomy mode''))"

definition process_result :: "process \<Rightarrow> decision \<Rightarrow> proc_result \<Rightarrow> adapter_result" where
  "process_result p dec r = (case r of
     TimedOut err \<Rightarrow> (failed_result ''timeout'')\<lparr>ar_stderr := map_option (last_chars 2000) err\<rparr>
   | NoExecutable \<Rightarrow> failed_result ''executable not found''
   | Exited code out err \<Rightarrow>
       \<lparr>ar_ok = (code = 0), ar_output = try_json out, ar_error = None, ar_exit = Some code,
        ar_stderr = (if err \<noteq> [] then Some (last_chars 2000 err) else None),
        ar_metadata = [(''argv'', JList (map JStr (pr_argv p))), (''enforcement_level'', JStr ''A''),
          (''policy'', JObj [(''verdict'', JStr ''allow''), (''deciding_layer'', JStr (d_layer dec))])],
        ar_usage = None\<rparr>)"

text \<open>The state is the list of processes that were started.\<close>

definition run_process :: "machine \<Rightarrow> decision \<Rightarrow> process \<Rightarrow> (process list, adapter_result) st" where
  "run_process M dec p = (\<lambda>ps. (Inr (process_result p dec (mc_process M p)), ps @ [p]))"

definition subprocess_action :: "string \<Rightarrow> string list \<Rightarrow> action" where
  "subprocess_action cid argv =
     \<lparr>a_kind = Subprocess, a_target = join_with '' '' argv, a_context = [(''capability_id'', JStr cid)]\<rparr>"

definition cli_decision :: "machine \<Rightarrow> string \<Rightarrow> string \<Rightarrow> string list \<Rightarrow> obj \<Rightarrow> exn + decision" where
  "cli_decision M root cid argv inputs =
     rbind (load_policy_stack (mc_files M) root (global_root_of (mc_home M) None)) (\<lambda>stack.
     rbind (mode_of (oget_or inputs ''autonomy_mode'' (JStr ''auto-safe''))) (\<lambda>mode.
     Inr (evaluate (subprocess_action cid argv) stack mode)))"

definition working_directory :: "machine \<Rightarrow> string \<Rightarrow> string \<Rightarrow> string" where
  "working_directory M root raw =
     (let src = (if is_absolute raw then raw else mc_resolve M (join_path root [raw])) in
      case mc_disk M src of Some (SFile _ _) \<Rightarrow> parent_of src | _ \<Rightarrow> src)"

fun verdict_text :: "verdict \<Rightarrow> string" where
  "verdict_text Allow = ''allow''"
| "verdict_text Deny = ''deny''"
| "verdict_text RequireApproval = ''require_approval''"

definition refused_result :: "decision \<Rightarrow> adapter_result" where
  "refused_result dec = (let v = verdict_text (d_verdict dec) in
     (failed_result (''policy '' @ v @ '' at '' @ d_layer dec @ '': '' @ d_reason dec))
       \<lparr>ar_metadata := [(''policy'', JObj [(''verdict'', JStr v), (''reason'', JStr (d_reason dec)),
          (''deciding_layer'', JStr (d_layer dec))])]\<rparr>)"

definition cli_launch :: "machine \<Rightarrow> string \<Rightarrow> string \<Rightarrow> string list \<Rightarrow> string \<Rightarrow> obj \<Rightarrow> obj \<Rightarrow> int \<Rightarrow> (process list, adapter_result) st" where
  "cli_launch M root cid argv location inputs permissions timeout =
     st_bind (st_lift (cli_decision M root cid argv inputs)) (\<lambda>dec.
     if d_verdict dec \<noteq> Allow then st_ret (refused_result dec)
     else
       st_bind (st_lift (string_list permissions ''allow_commands'')) (\<lambda>allowed.
       if allowed \<noteq> [] \<and> hd argv \<notin> set allowed then st_ret (failed_result ''command not in capability allowlist'')
       else run_process M dec \<lparr>pr_argv = argv, pr_timeout = (if timeout = 0 then 60 else timeout),
              pr_cwd = working_directory M root location\<rparr>))"

definition cli_invoke :: "machine \<Rightarrow> string \<Rightarrow> obj \<Rightarrow> obj \<Rightarrow> int \<Rightarrow> (process list, adapter_result) st" where
  "cli_invoke M cid inputs permissions timeout =
     (case oget inputs ''root'' of
        JNull \<Rightarrow> st_ret (failed_result ''missing root input'')
      | JStr root \<Rightarrow>
          if ohas inputs ''command'' then st_ret (failed_result ''inputs.command is not allowed'')
          else
            (case latest_version cid (mc_db M root) of
               None \<Rightarrow> st_ret (failed_result ''no version record'')
             | Some row \<Rightarrow>
                 st_bind (st_lift (rbind (load_or_raise (stext (row ''manifest''))) as_obj)) (\<lambda>manifest.
                 st_bind (st_lift (command_of manifest)) (\<lambda>cmd.
                 case cmd of
                   None \<Rightarrow> st_ret (failed_result ''capability manifest entrypoint.command must be a non-empty list of strings'')
                 | Some tokens \<Rightarrow>
                     st_bind (st_lift (arguments_of manifest inputs)) (\<lambda>args.
                     case args of
                       BadArguments e \<Rightarrow> st_ret (failed_result e)
                     | Arguments as \<Rightarrow>
                         cli_launch M root cid (resolved_command M root tokens @ as) (stext (row ''source_location''))
                           inputs permissions timeout))))
      | _ \<Rightarrow> st_raise (TypeError ''Path''))"

section \<open>Verification results\<close>

datatype check_status = Passed | Warn | Block

record finding =
  fi_code :: string
  fi_message :: string
  fi_severity :: check_status
  fi_fix :: string
  fi_evidence :: obj

record check =
  ck_name :: string
  ck_status :: check_status
  ck_findings :: "finding list"
  ck_required :: bool

record report =
  rp_subject :: string
  rp_status :: check_status
  rp_checks :: "check list"

definition aggregate_status :: "check list \<Rightarrow> check_status" where
  "aggregate_status cs = (let required = map ck_status (filter ck_required cs) in
     if Block \<in> set required then Block else if Warn \<in> set required then Warn else Passed)"

section \<open>Independent review\<close>

definition status_for_verdict :: "string \<Rightarrow> bool \<Rightarrow> check_status" where
  "status_for_verdict verdict required =
     (if verdict = ''pass'' then Passed else if verdict = ''block'' then Block
      else if required then Block else Warn)"

definition parse_payload :: "json \<Rightarrow> exn + obj" where
  "parse_payload output = (case output of
     JObj p \<Rightarrow> Inr p
   | JStr s \<Rightarrow> rbind (load_or_raise s) (\<lambda>j. case j of JObj p \<Rightarrow> Inr p
       | _ \<Rightarrow> Inl (ValueError ''independent review output must be a JSON object''))
   | _ \<Rightarrow> Inl (ValueError ''independent review output must be a JSON object''))"

definition review_finding :: "obj \<Rightarrow> check_status \<Rightarrow> nat \<times> json \<Rightarrow> finding" where
  "review_finding p status x = (case x of (i, item) \<Rightarrow>
     let dflt = ''review_finding_'' @ nat_str (Suc i); sev = (if status \<noteq> Passed then status else Warn);
         fix' = py_str (jor (oget p ''rationale'') (JStr ''Address the review finding before continuing.''))
     in case item of
          JObj d \<Rightarrow> \<lparr>fi_code = py_str (jor (oget d ''code'') (JStr dflt)),
            fi_message = py_str (jor (jor (oget d ''message'') (oget d ''finding'')) item),
            fi_severity = sev, fi_fix = fix', fi_evidence = []\<rparr>
        | _ \<Rightarrow> \<lparr>fi_code = dflt, fi_message = py_str item, fi_severity = sev, fi_fix = fix', fi_evidence = []\<rparr>)"

fun check_value :: "check_status \<Rightarrow> string" where
  "check_value Passed = ''pass''"
| "check_value Warn = ''warn''"
| "check_value Block = ''block''"

definition review_findings :: "obj \<Rightarrow> check_status \<Rightarrow> exn + finding list" where
  "review_findings p status =
     (let items = jor (oget p ''findings'') (JList []);
          fs = (case items of JList xs \<Rightarrow> map (review_finding p status) (enumerate 0 xs) | _ \<Rightarrow> []) in
      if fs = [] \<and> status \<noteq> Passed then
        rbind (jiter (jor (oget p ''evidence_gaps'') (JList []))) (\<lambda>gaps.
        Inr [\<lparr>fi_code = ''review_verdict'',
          fi_message = py_str (jor (oget p ''rationale'') (JStr (''Independent review returned '' @ check_value status @ ''.''))),
          fi_severity = status, fi_fix = ''Resolve the reviewer concern or request a new human decision.'',
          fi_evidence = [(''evidence_gaps'', JList gaps)]\<rparr>])
      else Inr fs)"

definition review_check :: "bool \<Rightarrow> adapter_result \<Rightarrow> exn + check" where
  "review_check required r =
     (if \<not> ar_ok r then
        Inr \<lparr>ck_name = ''independent_review'', ck_status = Block, ck_findings =
          [\<lparr>fi_code = ''review_capability_failed'', fi_message = or_opt (ar_error r) ''independent review capability failed'',
            fi_severity = Block, fi_fix = ''Repair or replace the reviewer capability before accepting this node.'',
            fi_evidence = []\<rparr>], ck_required = required\<rparr>
      else
        rbind (parse_payload (ar_output r)) (\<lambda>p.
        let verdict = py_str (jor (oget p ''verdict'') (JStr [])) in
        rbind (rguard (verdict \<in> {''pass'', ''revise'', ''block''}) (ValueError ''unknown independent review verdict'')) (\<lambda>_.
        rbind (review_findings p (status_for_verdict verdict required)) (\<lambda>fs.
        Inr \<lparr>ck_name = ''independent_review'', ck_status = status_for_verdict verdict required, ck_findings = fs,
          ck_required = required\<rparr>))))"

text \<open>The adapter of a capability is named by its latest manifest.\<close>

definition adapter_name :: "string \<Rightarrow> db \<Rightarrow> exn + json" where
  "adapter_name cid d = (case latest_version cid d of
     None \<Rightarrow> Inl (CapabilityGateError ''no manifest'')
   | Some r \<Rightarrow>
       rbind (rbind (load_or_raise (stext (r ''manifest''))) as_obj) (\<lambda>m.
       rbind (case map_of m ''entrypoint'' of None \<Rightarrow> Inl (KeyError ''entrypoint'') | Some j \<Rightarrow> as_obj j) (\<lambda>ep.
       case map_of ep ''adapter'' of None \<Rightarrow> Inl (KeyError ''adapter'') | Some j \<Rightarrow> Inr j)))"

record invocation =
  iv_adapter :: string
  iv_capability :: string
  iv_action :: string
  iv_inputs :: obj
  iv_permissions :: obj
  iv_timeout :: int

definition review_invocation :: "string \<Rightarrow> string \<Rightarrow> string \<Rightarrow> string \<Rightarrow> obj \<Rightarrow> invocation" where
  "review_invocation adapter reviewer executor nid subject =
     \<lparr>iv_adapter = adapter, iv_capability = reviewer, iv_action = ''independent_review'',
      iv_inputs = [(''node_id'', JStr nid), (''executor_capability_id'', JStr executor), (''subject'', JObj subject),
        (''instruction'', JStr ''Return JSON with verdict, findings, rationale, and evidence_gaps.'')],
      iv_permissions = [(''external_write'', JBool False), (''approval_decision'', JBool False)], iv_timeout = 30\<rparr>"

end
