(* ===== verification/Budget.thy ===== *)
theory Budget
  imports Projections Complex_Main "HOL-Library.Log_Nat"
begin

text \<open>
  Python floats and the budget of a run (\<open>execution/budget.py\<close>). A finite float is the
  rational number it denotes; every operation rounds its exact result to the nearest
  double, ties to even. Infinities and NaN are not values of the model.
\<close>

section \<open>Floats\<close>

definition round_even :: "rat \<Rightarrow> int" where
  "round_even x = (let n = \<lfloor>x\<rfloor>; d = x - of_int n in
     if d < 1/2 then n else if 1/2 < d then n + 1 else if even n then n else n + 1)"

text \<open>The exponent of the binade of a positive number, and the distance of the doubles in it.\<close>

definition binade :: "rat \<Rightarrow> int" where
  "binade x = (case quotient_of x of (n, d) \<Rightarrow>
     let e = bitlen n - bitlen d in if 2 powi e \<le> x then e else e - 1)"

definition ulp :: "rat \<Rightarrow> rat" where
  "ulp x = 2 powi (max (binade x - 52) (- 1074))"

definition round_pos :: "rat \<Rightarrow> rat" where
  "round_pos x = of_int (round_even (x / ulp x)) * ulp x"

definition round_double :: "rat \<Rightarrow> rat" where
  "round_double x = (if x = 0 then 0 else if 0 < x then round_pos x else - round_pos (- x))"

definition fadd :: "rat \<Rightarrow> rat \<Rightarrow> rat" where
  "fadd x y = round_double (x + y)"

text \<open>The number a literal denotes, and \<open>float(v)\<close>.\<close>

definition digits_value :: "string \<Rightarrow> int" where
  "digits_value ds = fold (\<lambda>c v. 10 * v + (of_char c - 48)) ds 0"

definition literal_value :: "string \<Rightarrow> rat" where
  "literal_value s =
     (let neg = starts_with s ''-''; t = (if neg then tl s else s);
          mant = takeWhile (\<lambda>c. c \<notin> {CHR ''e'', CHR ''E''}) t;
          ex = drop (Suc (length mant)) t;
          ip = takeWhile (\<lambda>c. c \<noteq> CHR ''.'') mant; fp = drop (Suc (length ip)) mant;
          e = (if starts_with ex ''-'' then - digits_value (tl ex)
               else digits_value (if starts_with ex ''+'' then tl ex else ex));
          v = of_int (digits_value (ip @ fp)) * 10 powi (e - int (length fp))
      in if neg then - v else v)"

fun py_float :: "json \<Rightarrow> exn + rat" where
  "py_float (JInt i) = Inr (round_double (of_int i))"
| "py_float (JBool b) = Inr (if b then 1 else 0)"
| "py_float (JFloat s) = Inr (round_double (literal_value s))"
| "py_float (JStr s) = (if is_int_lit (strip s) \<or> is_float_lit (strip s) then Inr (round_double (literal_value (strip s)))
     else Inl (ValueError ''float''))"
| "py_float _ = Inl (TypeError ''float'')"

text \<open>\<open>round(x, k)\<close>: the decimal with \<open>k\<close> digits nearest to \<open>x\<close>, as a double.\<close>

definition round_digits :: "nat \<Rightarrow> rat \<Rightarrow> rat" where
  "round_digits k x = round_double (of_int (round_even (x * 10 ^ k)) / 10 ^ k)"

section \<open>Rounding is monotone\<close>

lemma round_even_cases: "round_even x = \<lfloor>x\<rfloor> \<or> round_even x = \<lfloor>x\<rfloor> + 1"
  by (simp add: round_even_def Let_def)

lemma round_even_int [simp]: "round_even (of_int n) = n"
  by (simp add: round_even_def)

lemma round_even_mono: "x \<le> y \<Longrightarrow> round_even x \<le> round_even y"
proof -
  assume le: "x \<le> y"
  then have f: "\<lfloor>x\<rfloor> \<le> \<lfloor>y\<rfloor>" by (rule floor_mono)
  show ?thesis
  proof (cases "\<lfloor>x\<rfloor> = \<lfloor>y\<rfloor>")
    case True
    with le show ?thesis by (simp add: round_even_def Let_def)
  next
    case False
    with f have "\<lfloor>x\<rfloor> + 1 \<le> \<lfloor>y\<rfloor>" by simp
    with round_even_cases [of x] round_even_cases [of y] show ?thesis by linarith
  qed
qed

lemma powi_less: "(a :: int) < b \<longleftrightarrow> (2 :: rat) powi a < 2 powi b"
  using power_int_strict_increasing [of a b "2 :: rat"] power_int_increasing [of b a "2 :: rat"]
  by (cases "a < b") auto

lemma powi_diff: "(2 :: rat) powi a / 2 powi b = 2 powi (a - b)"
  by (simp add: power_int_diff)

lemma pow_nat: "0 \<le> k \<Longrightarrow> (2 :: rat) ^ nat k = 2 powi k"
  by (simp add: power_int_def)

lemma binade_bounds:
  assumes "0 < x"
  shows "2 powi (binade x) \<le> x" "x < 2 powi (binade x + 1)"
proof -
  obtain n d where q: "quotient_of x = (n, d)" by fastforce
  then have d: "0 < d" and x: "x = of_int n / of_int d"
    by (simp_all add: quotient_of_denom_pos quotient_of_div)
  with assms have n: "0 < n" by (simp add: zero_less_divide_iff)
  define a b where "a = bitlen n" and "b = bitlen d"
  have pos: "1 \<le> a" "1 \<le> b" using n d bitlen_nonneg [of n] bitlen_nonneg [of d]
    by (simp_all add: a_def b_def) (smt (verit) bitlen_eq_zero_iff)+
  have nb: "(2 :: rat) powi (a - 1) \<le> of_int n" "of_int n < (2 :: rat) powi a"
    using bitlen_bounds [OF n] pos(1) by (simp_all add: a_def [symmetric] pow_nat [symmetric] flip: of_int_le_iff of_int_less_iff)
  have db: "(2 :: rat) powi (b - 1) \<le> of_int d" "of_int d < (2 :: rat) powi b"
    using bitlen_bounds [OF d] pos(2) by (simp_all add: b_def [symmetric] pow_nat [symmetric] flip: of_int_le_iff of_int_less_iff)
  have low: "2 powi (a - b - 1) \<le> x"
  proof -
    have "(2 :: rat) powi (a - b - 1) * of_int d \<le> 2 powi (a - b - 1) * 2 powi b"
      using db(2) by (intro mult_left_mono) simp_all
    also have "\<dots> = 2 powi (a - 1)" by (simp flip: power_int_add)
    finally show ?thesis using nb(1) d by (simp add: x le_divide_eq)
  qed
  have high: "x < 2 powi (a - b + 1)"
  proof -
    have "(2 :: rat) powi a = 2 powi (a - b + 1) * 2 powi (b - 1)" by (simp flip: power_int_add)
    also have "\<dots> \<le> 2 powi (a - b + 1) * of_int d" using db(1) by (intro mult_left_mono) simp_all
    finally show ?thesis using nb(2) d by (simp add: x divide_less_eq)
  qed
  from low high show "2 powi (binade x) \<le> x" "x < 2 powi (binade x + 1)"
    by (simp_all add: binade_def q Let_def a_def b_def)
qed

lemma binade_mono: "0 < x \<Longrightarrow> x \<le> y \<Longrightarrow> binade x \<le> binade y"
proof -
  assume "0 < x" "x \<le> y"
  then have "2 powi (binade x) < (2 :: rat) powi (binade y + 1)"
    using binade_bounds [of x] binade_bounds [of y] by linarith
  then show ?thesis by (simp add: powi_less [symmetric])
qed

lemma ulp_pos [simp]: "0 < ulp x"
  by (simp add: ulp_def)

lemma round_pos_mono:
  assumes x: "0 < x" and le: "x \<le> y"
  shows "round_pos x \<le> round_pos y"
proof (cases "ulp x = ulp y")
  case True
  with le show ?thesis
    by (simp add: round_pos_def mult_right_mono round_even_mono divide_right_mono less_imp_le)
next
  case False
  define u v where "u = max (binade x - 52) (- 1074)" and "v = max (binade y - 52) (- 1074)"
  have ul: "ulp x = 2 powi u" "ulp y = 2 powi v" by (simp_all add: ulp_def u_def v_def)
  have b: "binade x < binade y"
    using binade_mono [OF x le] False by (cases "binade x = binade y") (auto simp: ulp_def)
  with False have uv: "u < v" by (auto simp: ul u_def v_def max_def split: if_splits)
  then have v: "v = binade y - 52" and bx: "binade x + 1 \<le> binade y" and u: "u \<le> binade y"
    using b False by (auto simp: ulp_def u_def v_def max_def split: if_splits)
  have y: "0 < y" using x le by simp
  have "x \<le> 2 powi (binade y)"
  proof -
    have "(2 :: rat) powi (binade x + 1) \<le> 2 powi (binade y)" using bx by (rule power_int_increasing) simp
    with binade_bounds(2) [OF x] show ?thesis by simp
  qed
  then have "x / ulp x \<le> 2 powi (binade y) / ulp x" by (rule divide_right_mono) (simp add: less_imp_le)
  also have "\<dots> = of_int (2 ^ nat (binade y - u))"
    using u by (simp add: ul powi_diff pow_nat)
  finally have "round_even (x / ulp x) \<le> 2 ^ nat (binade y - u)"
    using round_even_mono round_even_int by metis
  then have "round_pos x \<le> of_int (2 ^ nat (binade y - u)) * ulp x"
    unfolding round_pos_def by (intro mult_right_mono) (simp_all add: less_imp_le del: of_int_power)
  also have "\<dots> = 2 powi (binade y)" using u by (simp add: ul pow_nat powi_diff [symmetric])
  also have "\<dots> \<le> round_pos y"
  proof -
    have "of_int (2 ^ 52) = 2 powi (binade y) / ulp y" by (simp add: ul v power_int_diff)
    also have "\<dots> \<le> y / ulp y" using binade_bounds(1) [OF y] by (rule divide_right_mono) (simp add: less_imp_le)
    finally have "2 ^ 52 \<le> round_even (y / ulp y)" using round_even_mono round_even_int by metis
    then have "of_int (2 ^ 52) * ulp y \<le> round_pos y"
      unfolding round_pos_def by (intro mult_right_mono) (simp_all add: less_imp_le del: of_int_power)
    moreover have "of_int (2 ^ 52) * ulp y = 2 powi (binade y)" by (simp add: ul v power_int_diff)
    ultimately show ?thesis by simp
  qed
  finally show ?thesis .
qed

lemma round_pos_nonneg: "0 < x \<Longrightarrow> 0 \<le> round_pos x"
proof -
  assume x: "0 < x"
  then have "of_int 0 \<le> x / ulp x" by (simp add: less_imp_le)
  then have "0 \<le> round_even (x / ulp x)" using round_even_mono round_even_int by metis
  then show ?thesis by (simp add: round_pos_def less_imp_le)
qed

lemma round_double_mono: "x \<le> y \<Longrightarrow> round_double x \<le> round_double y"
  using round_pos_mono [of x y] round_pos_mono [of "- y" "- x"] round_pos_nonneg [of y] round_pos_nonneg [of "- x"]
  by (auto simp: round_double_def)

lemma fadd_mono: "a \<le> b \<Longrightarrow> c \<le> d \<Longrightarrow> fadd a c \<le> fadd b d"
  by (simp add: fadd_def round_double_mono)

section \<open>The tracker\<close>

record budget =
  bt_usd_max :: rat
  bt_in_max :: int
  bt_out_max :: int
  bt_usd :: rat
  bt_in :: int
  bt_out :: int

definition mk_budget :: "rat \<Rightarrow> int \<Rightarrow> int \<Rightarrow> exn + budget" where
  "mk_budget usd i j =
     rbind (rguard (0 \<le> usd) (ValueError ''usd_max'')) (\<lambda>_.
     rbind (rguard (0 \<le> i) (ValueError ''tokens_input_max'')) (\<lambda>_.
     rbind (rguard (0 \<le> j) (ValueError ''tokens_output_max'')) (\<lambda>_.
     Inr \<lparr>bt_usd_max = usd, bt_in_max = i, bt_out_max = j, bt_usd = 0, bt_in = 0, bt_out = 0\<rparr>)))"

text \<open>The three amounts of a projection or of a usage report.\<close>

definition amounts :: "obj \<Rightarrow> exn + rat \<times> int \<times> int" where
  "amounts p =
     rbind (py_float (jor (oget_or p ''cost_usd'' (JFloat ''0.0'')) (JFloat ''0.0''))) (\<lambda>c.
     rbind (py_int (jor (oget_or p ''tokens_in'' (JInt 0)) (JInt 0))) (\<lambda>i.
     rbind (py_int (jor (oget_or p ''tokens_out'' (JInt 0)) (JInt 0))) (\<lambda>j.
     Inr (c, i, j))))"

definition would_exceed :: "budget \<Rightarrow> obj \<Rightarrow> exn + string option" where
  "would_exceed b p = rbind (amounts p) (\<lambda>(c, i, j). Inr (
     if bt_usd_max b \<noteq> 0 \<and> fadd (bt_usd b) c > bt_usd_max b then Some ''usd_max''
     else if bt_in_max b \<noteq> 0 \<and> bt_in b + i > bt_in_max b then Some ''tokens_input_max''
     else if bt_out_max b \<noteq> 0 \<and> bt_out b + j > bt_out_max b then Some ''tokens_output_max''
     else None))"

definition charge :: "budget \<Rightarrow> rat \<Rightarrow> int \<Rightarrow> int \<Rightarrow> budget" where
  "charge b c i j = b\<lparr>bt_usd := fadd (bt_usd b) c, bt_in := bt_in b + i, bt_out := bt_out b + j\<rparr>"

record usage_snapshot =
  us_usd :: rat
  us_in :: int
  us_out :: int
  us_total_usd :: rat

definition snapshot :: "budget \<Rightarrow> usage_snapshot" where
  "snapshot b = \<lparr>us_usd = round_digits 4 (bt_usd b), us_in = bt_in b, us_out = bt_out b,
     us_total_usd = round_digits 6 (bt_usd b)\<rparr>"

definition within_caps :: "budget \<Rightarrow> bool" where
  "within_caps b \<longleftrightarrow> (bt_usd_max b \<noteq> 0 \<longrightarrow> bt_usd b \<le> bt_usd_max b) \<and> (bt_in_max b \<noteq> 0 \<longrightarrow> bt_in b \<le> bt_in_max b)
     \<and> (bt_out_max b \<noteq> 0 \<longrightarrow> bt_out b \<le> bt_out_max b)"

lemma charge_within:
  assumes "would_exceed b p = Inr None" "amounts p = Inr (c, i, j)" "usd \<le> c" "m \<le> i" "n \<le> j"
  shows "within_caps (charge b usd m n)"
  using assms fadd_mono [of "bt_usd b" "bt_usd b" usd c]
  by (auto simp: would_exceed_def within_caps_def charge_def split: if_splits)

text \<open>C21: A budget is kept. When a projection does not exceed the budget and what is charged afterwards is no more
  than what was projected, in every axis with a cap the amount spent stays at most the cap, although the cost is a
  floating point sum: rounding is monotone. Token counts are exact.\<close>

theorem budget_stays_within_caps:
  assumes "would_exceed b p = Inr None" and "amounts p = Inr (c, i, j)" and "usd \<le> c" and "m \<le> i" and "n \<le> j"
  shows "within_caps (charge b usd m n) \<and> bt_in (charge b usd m n) = bt_in b + m
    \<and> bt_usd (charge b usd m n) = round_double (bt_usd b + usd)"
  using charge_within [OF assms] by (simp add: charge_def fadd_def)

definition tenth_budget :: budget where
  "tenth_budget = \<lparr>bt_usd_max = round_double (literal_value ''0.3''), bt_in_max = 100, bt_out_max = 0,
     bt_usd = round_double (literal_value ''0.1''), bt_in = 40, bt_out = 7\<rparr>"

theorem budget_stays_within_caps_witness:
  "within_caps (charge tenth_budget (round_double (literal_value ''0.1'')) 60 9)
   \<and> would_exceed tenth_budget [(''cost_usd'', JFloat ''0.2'')] = Inr (Some ''usd_max'')"
proof -
  have "would_exceed tenth_budget [(''cost_usd'', JFloat ''0.1''), (''tokens_in'', JInt 60), (''tokens_out'', JInt 9)] = Inr None"
    by code_simp
  moreover have "amounts [(''cost_usd'', JFloat ''0.1''), (''tokens_in'', JInt 60), (''tokens_out'', JInt 9)]
    = Inr (round_double (literal_value ''0.1''), 60, 9)" by code_simp
  ultimately have "within_caps (charge tenth_budget (round_double (literal_value ''0.1'')) 60 9)"
    using budget_stays_within_caps [of tenth_budget _ "round_double (literal_value ''0.1'')" 60 9] by simp
  moreover have "would_exceed tenth_budget [(''cost_usd'', JFloat ''0.2'')] = Inr (Some ''usd_max'')" by code_simp
  ultimately show ?thesis by blast
qed

end
