(* ===== verification/Supervisor.thy ===== *)
theory Supervisor
  imports Adapters Budget Work_Store Remote
begin

text \<open>
  The supervisor that runs a stored Work Graph (\<open>execution/supervisor.py\<close>): gates, attempts,
  retries with bounded waits, completion checks, pauses and the loop over ready nodes.
\<close>

section \<open>State and environment\<close>

text \<open>
  The local variables \<open>completed\<close>, \<open>failed\<close>, \<open>blocked\<close> of a run are part of the state, and so
  is what a run does outside: the executions it started (work node and capability) and its
  waits. Values from outside are drawn by the number of the draw.
\<close>

record sup =
  sv_world :: world
  sv_budget :: budget
  sv_tick :: nat
  sv_calls :: "(string \<times> string) list"
  sv_sleeps :: "rat list"
  sv_completed :: "string list"
  sv_failed :: "string list"
  sv_blocked :: "string list"

record lease_terms =
  lt_sweep :: string
  lt_id :: string
  lt_until :: string
  lt_package_until :: string

record env =
  se_rt :: rt
  se_root :: string
  se_files :: files
  se_disk :: "nat \<Rightarrow> disk"
  se_adapters :: adapters
  se_clock :: "nat \<Rightarrow> clock"
  se_refresh :: "nat \<Rightarrow> string \<Rightarrow> clock \<times> clock"
  se_lease :: "nat \<Rightarrow> lease_terms"
  se_invoke :: "nat \<Rightarrow> db \<Rightarrow> invocation \<Rightarrow> exn + adapter_result"
  se_remote :: "nat \<Rightarrow> node_record \<Rightarrow> obj \<Rightarrow> exn + adapter_result"

record run_summary =
  rs_graph :: string
  rs_status :: string
  rs_completed :: "string list"
  rs_failed :: "string list"
  rs_blocked :: "string list"
  rs_reason :: "string option"
  rs_usage :: usage_snapshot
  rs_pending :: "string list"

definition on_world :: "(world, 'a) st \<Rightarrow> (sup, 'a) st" where
  "on_world m s = (case m (sv_world s) of (r, w) \<Rightarrow> (r, s\<lparr>sv_world := w\<rparr>))"

text \<open>Another service works on the same files with a log object of its own.\<close>

definition elsewhere :: "(world, 'a) st \<Rightarrow> (world, 'a) st" where
  "elsewhere m w = (case opened m w of (r, w') \<Rightarrow>
     (r, w'\<lparr>wlog := (wlog w')\<lparr>lrecovered := lrecovered (wlog w), lmirror := lmirror (wlog w)\<rparr>\<rparr>))"

definition tick :: "(sup, nat) st" where
  "tick s = (Inr (sv_tick s), s\<lparr>sv_tick := Suc (sv_tick s)\<rparr>)"

definition modify :: "(sup \<Rightarrow> sup) \<Rightarrow> (sup, unit) st" where
  "modify f s = (Inr (), f s)"

text \<open>An operation of the store or of a service, at a fresh draw.\<close>

definition store_op :: "env \<Rightarrow> (rt \<Rightarrow> clock \<Rightarrow> (world, 'a) st) \<Rightarrow> (sup, 'a) st" where
  "store_op E f = st_bind tick (\<lambda>k. on_world (f (se_rt E) (se_clock E k)))"

definition service_op :: "env \<Rightarrow> (rt \<Rightarrow> clock \<Rightarrow> (world, 'a) st) \<Rightarrow> (sup, 'a) st" where
  "service_op E f = st_bind tick (\<lambda>k. on_world (elsewhere (f (se_rt E) (se_clock E k))))"

definition read :: "(db \<Rightarrow> exn + 'a) \<Rightarrow> (sup, 'a) st" where
  "read f s = (f (wdb (sv_world s)), s)"

definition st_catch :: "(exn \<Rightarrow> bool) \<Rightarrow> ('s, 'a) st \<Rightarrow> (exn \<Rightarrow> ('s, 'a) st) \<Rightarrow> ('s, 'a) st" where
  "st_catch p m h s = (case m s of
     (Inl e, s') \<Rightarrow> if p e then h e s' else (Inl e, s') | (Inr x, s') \<Rightarrow> (Inr x, s'))"

text \<open>The exceptions the \<open>except\<close> clauses catch, by the class hierarchy.\<close>

fun is_runtime_error :: "exn \<Rightarrow> bool" where
  "is_runtime_error (RuntimeError _) = True"
| "is_runtime_error (CapabilityGateError _) = True"
| "is_runtime_error (ConcurrentWorkUpdate _) = True"
| "is_runtime_error (WorkerExecutionError _) = True"
| "is_runtime_error (NetworkDeniedError _) = True"
| "is_runtime_error (ConnectorDisabledError _) = True"
| "is_runtime_error _ = False"

fun is_permission_error :: "exn \<Rightarrow> bool" where
  "is_permission_error (PermissionError _) = True"
| "is_permission_error (AuthorizationError _) = True"
| "is_permission_error (WorkerIdentityError _) = True"
| "is_permission_error _ = False"

fun is_value_error :: "exn \<Rightarrow> bool" where
  "is_value_error (ValueError _) = True"
| "is_value_error (EventValidationError _) = True"
| "is_value_error (HashChainError _) = True"
| "is_value_error (JSONDecodeError _) = True"
| "is_value_error (InvalidTransition _ _) = True"
| "is_value_error (WorkGraphError _) = True"
| "is_value_error (ManifestError _) = True"
| "is_value_error (OnboardingError _) = True"
| "is_value_error (NodeValidationError _) = True"
| "is_value_error (WorkPackageError _) = True"
| "is_value_error (ReasoningPolicyError _) = True"
| "is_value_error (RoutingError _) = True"
| "is_value_error (ApprovalRequiredError _) = True"
| "is_value_error (ValidationError _) = True"
| "is_value_error (BundleError _) = True"
| "is_value_error _ = False"

definition retried :: "exn \<Rightarrow> bool" where
  "retried e \<longleftrightarrow> is_runtime_error e \<or> is_permission_error e"

definition is_gate_error :: "exn \<Rightarrow> bool" where
  "is_gate_error e \<longleftrightarrow> (case e of CapabilityGateError _ \<Rightarrow> True | _ \<Rightarrow> False)"

text \<open>\<open>str(exc)\<close> of a caught exception, up to the wording of its message.\<close>

definition exn_text :: "exn \<Rightarrow> string" where
  "exn_text e = (case e of RuntimeError s \<Rightarrow> s | PermissionError s \<Rightarrow> s | AuthorizationError s \<Rightarrow> s | CapabilityGateError s \<Rightarrow> s
     | ConcurrentWorkUpdate s \<Rightarrow> s | WorkerExecutionError s \<Rightarrow> s | WorkerIdentityError s \<Rightarrow> s | NetworkDeniedError s \<Rightarrow> s
     | ConnectorDisabledError s \<Rightarrow> s | _ \<Rightarrow> [])"

section \<open>Approvals of a node\<close>

definition node_scope :: "work_node \<Rightarrow> exn + obj" where
  "node_scope n = dict_of (oget_or (wn_metadata n) ''scope'' (JObj []))"

definition node_request :: "string \<Rightarrow> work_node \<Rightarrow> string \<Rightarrow> obj \<Rightarrow> request_args" where
  "node_request gid n kind scope =
     \<lparr>rq_type = ''action'', rq_action = ''approve '' @ wn_id n, rq_scope = scope,
      rq_reason = py_str (jor (oget (wn_metadata n) ''reason'') (JStr (''approval required for node '' @ wn_id n))),
      rq_risk = py_str (jor (wn_risk n) (JStr ''medium'')), rq_graph = Some gid, rq_node = Some (wn_id n), rq_kind = Some kind,
      rq_options = [], rq_evidence = [], rq_id = None\<rparr>"

definition ensure_approval_request :: "env \<Rightarrow> string \<Rightarrow> work_node \<Rightarrow> string \<Rightarrow> (sup, string) st" where
  "ensure_approval_request E gid n kind =
     st_bind (st_lift (node_scope n)) (\<lambda>scope.
     st_bind (read (\<lambda>d. Inr (latest_approval_id gid (wn_id n) d))) (\<lambda>x.
     case x of
       Some i \<Rightarrow> st_ret i
     | None \<Rightarrow>
         st_bind (service_op E (\<lambda>R K. request R K (node_request gid n kind scope))) (\<lambda>a. st_ret (ap_id a))))"

definition task_approval_current :: "env \<Rightarrow> string \<Rightarrow> work_node \<Rightarrow> (sup, bool) st" where
  "task_approval_current E gid n =
     st_bind (st_lift (node_scope n)) (\<lambda>scope.
     st_bind (read (\<lambda>d. Inr (latest_approval_id gid (wn_id n) d))) (\<lambda>x.
     case x of
       None \<Rightarrow> st_ret False
     | Some i \<Rightarrow>
         st_bind (service_op E (\<lambda>R K. assert_current R K i scope)) (\<lambda>a. st_ret (ap_status a = Approved))))"

section \<open>Statuses and pauses\<close>

definition set_status :: "env \<Rightarrow> string \<Rightarrow> node_status \<Rightarrow> int \<Rightarrow> (sup, unit) st" where
  "set_status E nid st' v = store_op E (\<lambda>R K. set_node_status R K nid (JStr (node_status_value st')) v)"

definition set_graph :: "env \<Rightarrow> string \<Rightarrow> string \<Rightarrow> (sup, unit) st" where
  "set_graph E gid status = store_op E (\<lambda>R K. set_graph_status R K gid (JStr status))"

definition summary :: "string \<Rightarrow> string \<Rightarrow> string option \<Rightarrow> string list \<Rightarrow> sup \<Rightarrow> run_summary" where
  "summary gid status reason pending s =
     \<lparr>rs_graph = gid, rs_status = status, rs_completed = sv_completed s, rs_failed = sv_failed s, rs_blocked = sv_blocked s,
      rs_reason = reason, rs_usage = snapshot (sv_budget s), rs_pending = pending\<rparr>"

definition finish :: "env \<Rightarrow> string \<Rightarrow> string \<Rightarrow> string option \<Rightarrow> string list \<Rightarrow> (sup, run_summary) st" where
  "finish E gid status reason pending =
     st_bind (set_graph E gid status) (\<lambda>_. st_get (summary gid status reason pending))"

definition pause :: "env \<Rightarrow> string \<Rightarrow> string \<Rightarrow> int \<Rightarrow> string \<Rightarrow> string list \<Rightarrow> (sup, run_summary) st" where
  "pause E gid nid v reason pending =
     st_bind (set_status E nid NBlocked v) (\<lambda>_.
     st_bind (modify (\<lambda>s. s\<lparr>sv_blocked := sv_blocked s @ [nid]\<rparr>)) (\<lambda>_.
     finish E gid ''paused'' (Some reason) pending))"

definition complete_node :: "env \<Rightarrow> string \<Rightarrow> int \<Rightarrow> (sup, unit) st" where
  "complete_node E nid v =
     st_bind (set_status E nid NCompleted v) (\<lambda>_.
     modify (\<lambda>s. s\<lparr>sv_completed := sv_completed s @ [nid]\<rparr>))"

section \<open>Attempts\<close>

definition attempt_rows :: "string \<Rightarrow> db \<Rightarrow> row list" where
  "attempt_rows nid d = filter (\<lambda>r. r ''node_id'' = SText nid) (d ''work_attempts'')"

definition attempt_count :: "string \<Rightarrow> db \<Rightarrow> int" where
  "attempt_count nid d = int (length (attempt_rows nid d))"

definition next_attempt :: "string \<Rightarrow> db \<Rightarrow> int" where
  "next_attempt nid d = (case map (\<lambda>r. snum (r ''attempt'')) (attempt_rows nid d) of [] \<Rightarrow> 1 | k # ks \<Rightarrow> fold max ks k + 1)"

definition attempt_event :: "string \<Rightarrow> string \<Rightarrow> obj \<Rightarrow> envelope" where
  "attempt_event ty aid p = (event ty ''system'' p)\<lparr>ev_target := Some (''work_attempt:'' @ aid)\<rparr>"

definition record_attempt :: "env \<Rightarrow> string \<Rightarrow> string \<Rightarrow> string \<Rightarrow> string \<Rightarrow> (sup, string) st" where
  "record_attempt E gid nid cid state =
     st_bind (read (\<lambda>d. Inr (next_attempt nid d))) (\<lambda>k.
     store_op E (\<lambda>R K.
       let aid = ''wa_'' @ take 16 (c_uid K) in
       st_bind (emit_as R K (attempt_event ''attempt.started'' aid
         [(''id'', JStr aid), (''graph_id'', JStr gid), (''node_id'', JStr nid), (''attempt'', JInt k),
          (''capability_id'', JStr cid), (''state'', JStr state), (''event_time'', JStr (c_now K))])) (\<lambda>_.
       st_ret aid)))"

definition attempt_row :: "string \<Rightarrow> db \<Rightarrow> exn + row" where
  "attempt_row aid d = (case first_by work_attempts_t ''id'' aid d of None \<Rightarrow> Inl (KeyError aid) | Some r \<Rightarrow> Inr r)"

definition finish_attempt :: "env \<Rightarrow> string \<Rightarrow> string \<Rightarrow> string option \<Rightarrow> obj option \<Rightarrow> (sup, unit) st" where
  "finish_attempt E aid state err usage =
     st_bind (read (attempt_row aid)) (\<lambda>r.
     st_bind (store_op E (\<lambda>R K. emit_as R K (attempt_event
       (if state = ''completed'' then ''attempt.completed'' else ''attempt.failed'') aid
       [(''id'', JStr aid), (''graph_id'', from_sql (r ''graph_id'')), (''node_id'', from_sql (r ''node_id'')),
        (''attempt'', from_sql (r ''attempt'')), (''capability_id'', from_sql (r ''capability_id'')), (''state'', JStr state),
        (''error'', jopt err), (''usage'', JObj (case usage of None \<Rightarrow> [] | Some u \<Rightarrow> u)), (''event_time'', JStr (c_now K))])))
     (\<lambda>_. st_ret ()))"

section \<open>Gates and execution\<close>

text \<open>Capability ids of a graph are strings; another JSON value is taken by its text, as SQLite compares it.\<close>

definition required :: "work_node \<Rightarrow> string list" where
  "required n = map py_str (wn_requires n)"

definition gate :: "env \<Rightarrow> string \<Rightarrow> (sup, unit) st" where
  "gate E cid = st_bind tick (\<lambda>k. on_world (elsewhere
     (assert_executable (se_rt E) (se_clock E k) (se_disk E k) (se_adapters E) (se_root E) cid)))"

definition invoke_action :: "string \<Rightarrow> action" where
  "invoke_action cid = \<lparr>a_kind = CapabilityInvoke, a_target = cid, a_context = []\<rparr>"

definition authorize_node :: "env \<Rightarrow> string \<Rightarrow> string \<Rightarrow> string \<Rightarrow> (sup, authorization) st" where
  "authorize_node E gid nid cid = service_op E (\<lambda>R K. authorize R K (se_files E) (se_root E) (invoke_action cid) (Some gid) (Some nid)
     (Some [(''capability_id'', JStr cid), (''node_id'', JStr nid)]) PolicyBound)"

text \<open>\<open>{"root": ..., "autonomy_mode": ..., **inputs}\<close>: later keys win.\<close>

definition node_inputs :: "env \<Rightarrow> work_node \<Rightarrow> exn + obj" where
  "node_inputs E n =
     rbind (dict_of (oget_or (wn_metadata n) ''inputs'' (JObj []))) (\<lambda>extra.
     Inr (fold (\<lambda>(k, v) acc. oput acc k v) extra [(''root'', JStr (se_root E)), (''autonomy_mode'', JStr ''policy-bound'')]))"

definition adapter_of :: "env \<Rightarrow> string \<Rightarrow> (sup, string) st" where
  "adapter_of E cid =
     st_bind (read (adapter_name cid)) (\<lambda>j.
     case j of
       JStr name \<Rightarrow> st_bind (st_lift (resolve_adapter (se_adapters E) name)) (\<lambda>_. st_ret name)
     | JList _ \<Rightarrow> st_raise (TypeError ''unhashable'')
     | JObj _ \<Rightarrow> st_raise (TypeError ''unhashable'')
     | _ \<Rightarrow> st_raise (AdapterNotFoundError ''no capability adapter''))"

definition call_adapter :: "env \<Rightarrow> invocation \<Rightarrow> (sup, adapter_result) st" where
  "call_adapter E iv = st_bind tick (\<lambda>k. st_bind (st_get (\<lambda>s. se_invoke E k (wdb (sv_world s)) iv)) st_lift)"

definition log_call :: "string \<Rightarrow> string \<Rightarrow> (sup, unit) st" where
  "log_call nid cid = modify (\<lambda>s. s\<lparr>sv_calls := sv_calls s @ [(nid, cid)]\<rparr>)"

definition execute :: "env \<Rightarrow> string \<Rightarrow> work_node \<Rightarrow> string \<Rightarrow> obj \<Rightarrow> int \<Rightarrow> (sup, adapter_result) st" where
  "execute E gid n cid inputs timeout =
     (if pl_mode (wn_placement n) = ''node'' then
        st_bind (log_call (wn_id n) cid) (\<lambda>_.
        st_bind tick (\<lambda>k. st_bind tick (\<lambda>k2.
        st_bind (on_world (elsewhere (dispatch (se_rt E) (se_clock E k) (se_clock E k2) (lt_sweep (se_lease E k)) (lt_id (se_lease E k))
            (lt_until (se_lease E k)) (lt_package_until (se_lease E k))
            (\<lambda>nr pkg. map_sum id (\<lambda>r. (ar_ok r, r)) (se_remote E k nr pkg)) gid n cid inputs timeout))) (\<lambda>x.
        st_ret (snd x)))))
      else
        st_bind (adapter_of E cid) (\<lambda>name.
        st_bind (log_call (wn_id n) cid) (\<lambda>_.
        call_adapter E \<lparr>iv_adapter = name, iv_capability = cid, iv_action = ''run'', iv_inputs = inputs, iv_permissions = [],
          iv_timeout = timeout\<rparr>)))"

definition missing_outputs :: "work_node \<Rightarrow> obj \<Rightarrow> exn + json list" where
  "missing_outputs n out =
     (if list_ex (\<lambda>j. case j of JList _ \<Rightarrow> True | JObj _ \<Rightarrow> True | _ \<Rightarrow> False) (wn_outputs n) then Inl (TypeError ''unhashable'')
      else Inr (filter (\<lambda>j. case j of JStr k \<Rightarrow> \<not> ohas out k | _ \<Rightarrow> True) (wn_outputs n)))"

definition has_evidence :: "obj \<Rightarrow> bool" where
  "has_evidence out = truthy (jor (oget out ''evidence'') (oget out ''evidence_refs''))"

definition output_dict :: "adapter_result \<Rightarrow> obj" where
  "output_dict r = (case ar_output r of JObj out \<Rightarrow> out | _ \<Rightarrow> [])"

section \<open>Review\<close>

definition reviewer_adapter :: "env \<Rightarrow> string \<Rightarrow> (sup, string) st" where
  "reviewer_adapter E cid =
     st_bind (read (adapter_name cid)) (\<lambda>j.
     st_bind (st_lift (resolve_adapter (se_adapters E) (py_str j))) (\<lambda>_. st_ret (py_str j)))"

definition review :: "env \<Rightarrow> work_node \<Rightarrow> string \<Rightarrow> string \<Rightarrow> (sup, bool) st" where
  "review E n executor reviewer =
     st_bind (read (node_output (wn_id n))) (\<lambda>out.
     st_bind (st_guard (executor \<noteq> reviewer) (ValueError ''independent review'')) (\<lambda>_.
     st_bind (gate E reviewer) (\<lambda>_.
     st_bind (reviewer_adapter E reviewer) (\<lambda>name.
     st_bind (call_adapter E (review_invocation name reviewer executor (wn_id n) [(''output'', jor out (JObj []))])) (\<lambda>r.
     st_bind (st_lift (review_check True r)) (\<lambda>c.
     st_ret (ck_status c = Passed)))))))"

definition independent_review_passes :: "env \<Rightarrow> work_node \<Rightarrow> (sup, bool) st" where
  "independent_review_passes E n =
     (let reviewer = oget (wn_metadata n) ''reviewer_capability_id'' in
      if \<not> truthy reviewer \<or> wn_requires n = [] \<or> \<not> truthy (hd (wn_requires n)) then st_ret False
      else st_catch (\<lambda>e. is_gate_error e \<or> is_value_error e)
             (review E n (py_str (hd (wn_requires n))) (py_str reviewer)) (\<lambda>_. st_ret False))"

section \<open>One attempt\<close>

text \<open>
  An attempt returns nothing when the node is completed, or the summary the run returns.
  A raise is a failed attempt when it is of a class the \<open>except\<close> clause names.
\<close>

definition fail_attempt :: "env \<Rightarrow> string \<Rightarrow> adapter_result \<Rightarrow> string option \<Rightarrow> string \<Rightarrow> (sup, 'a) st" where
  "fail_attempt E aid r err msg =
     st_bind (finish_attempt E aid ''failed'' err (ar_usage r)) (\<lambda>_. st_raise (RuntimeError msg))"

definition check_result :: "env \<Rightarrow> work_node \<Rightarrow> string \<Rightarrow> adapter_result \<Rightarrow> (sup, unit) st" where
  "check_result E n aid r =
     (if \<not> ar_ok r then fail_attempt E aid r (ar_error r) (or_opt (ar_error r) ''adapter failed'')
      else
        st_bind (st_lift (missing_outputs n (output_dict r))) (\<lambda>ms.
        if ms \<noteq> [] then fail_attempt E aid r (Some ''missing expected outputs'') ''missing expected outputs''
        else if wn_evidence n \<and> \<not> has_evidence (output_dict r)
        then fail_attempt E aid r (Some ''evidence_required but none produced'') ''completed without required evidence''
        else st_ret ()))"

definition settle :: "env \<Rightarrow> string \<Rightarrow> work_node \<Rightarrow> string \<Rightarrow> adapter_result \<Rightarrow> (sup, run_summary option) st" where
  "settle E gid n aid r =
     (let usage = (case ar_usage r of None \<Rightarrow> [] | Some u \<Rightarrow> u) in
      st_bind (st_lift (amounts usage)) (\<lambda>(c, i, j).
      st_bind (modify (\<lambda>s. s\<lparr>sv_budget := charge (sv_budget s) c i j\<rparr>)) (\<lambda>_.
      st_bind (finish_attempt E aid ''completed'' None (Some usage)) (\<lambda>_.
      st_bind (read (node_state_version (wn_id n))) (\<lambda>v.
      st_bind (store_op E (\<lambda>R K. record_value R K (wn_id n) (jor (ar_output r) (JObj [])) v)) (\<lambda>_.
      st_bind (if wn_review n then independent_review_passes E n else st_ret True) (\<lambda>ok.
      if \<not> ok then st_bind (pause E gid (wn_id n) (v + 1) ''independent_review'' []) (\<lambda>x. st_ret (Some x))
      else st_bind (complete_node E (wn_id n) (v + 1)) (\<lambda>_. st_ret None))))))))"

definition admit :: "env \<Rightarrow> string \<Rightarrow> work_node \<Rightarrow> string \<Rightarrow> (sup, authorization) st" where
  "admit E gid n cid =
     st_bind (st_for (gate E) (required n)) (\<lambda>_.
     st_bind (authorize_node E gid (wn_id n) cid) (\<lambda>auth.
     st_bind (st_guard (au_verdict auth \<noteq> Deny) (PermissionError (au_reason auth))) (\<lambda>_. st_ret auth)))"

definition run_capability :: "env \<Rightarrow> string \<Rightarrow> work_node \<Rightarrow> string \<Rightarrow> (sup, string \<times> adapter_result) st" where
  "run_capability E gid n cid =
     st_bind (record_attempt E gid (wn_id n) cid ''running'') (\<lambda>aid.
     st_bind (st_lift (node_inputs E n)) (\<lambda>inputs.
     st_bind (st_lift (py_int (oget_or (wn_metadata n) ''timeout_s'' (JInt 60)))) (\<lambda>timeout.
     st_bind (execute E gid n cid inputs timeout) (\<lambda>r. st_ret (aid, r)))))"

definition attempt_once :: "env \<Rightarrow> string \<Rightarrow> work_node \<Rightarrow> string \<Rightarrow> int \<Rightarrow> (sup, run_summary option) st" where
  "attempt_once E gid n cid v =
     st_bind (admit E gid n cid) (\<lambda>auth.
     if au_verdict auth = RequireApproval then
       st_bind (pause E gid (wn_id n) v
         (case au_approval auth of None \<Rightarrow> ''approval'' | Some i \<Rightarrow> ''approval '' @ i @ '': '' @ au_reason auth)
         (case au_approval auth of None \<Rightarrow> [] | Some i \<Rightarrow> [i])) (\<lambda>x. st_ret (Some x))
     else
       st_bind (run_capability E gid n cid) (\<lambda>(aid, r).
       st_bind (check_result E n aid r) (\<lambda>_.
       settle E gid n aid r)))"

section \<open>Retries\<close>

definition MAX_BACKOFF :: rat where "MAX_BACKOFF = 30"

text \<open>\<open>max(1, max_attempts)\<close>; counting up by one below a float bound ends at its ceiling.\<close>

fun attempt_limit :: "json \<Rightarrow> exn + int" where
  "attempt_limit (JInt i) = Inr (max 1 i)"
| "attempt_limit (JBool b) = Inr 1"
| "attempt_limit (JFloat s) = Inr (max 1 \<lceil>round_double (literal_value s)\<rceil>)"
| "attempt_limit _ = Inl (TypeError ''max'')"

definition backoff_of :: "json \<Rightarrow> exn + rat" where
  "backoff_of j = rbind (py_float j) (\<lambda>x. Inr (min (max 0 x) MAX_BACKOFF))"

datatype outcome = NodeDone | Return run_summary | Exhausted "exn option"

definition wait :: "rat \<Rightarrow> nat \<Rightarrow> (sup, unit) st" where
  "wait b left = (if 0 < left then modify (\<lambda>s. s\<lparr>sv_sleeps := sv_sleeps s @ [b]\<rparr>) else st_ret ())"

primrec attempts :: "env \<Rightarrow> string \<Rightarrow> work_node \<Rightarrow> string \<Rightarrow> int \<Rightarrow> rat \<Rightarrow> nat \<Rightarrow> exn option \<Rightarrow> (sup, outcome) st" where
  "attempts E gid n cid v b 0 err = st_ret (Exhausted err)"
| "attempts E gid n cid v b (Suc left) err =
     st_bind
       (st_catch retried
         (st_bind (attempt_once E gid n cid v) (\<lambda>x. st_ret (Inr (case x of None \<Rightarrow> NodeDone | Some r \<Rightarrow> Return r))))
         (\<lambda>e. st_bind (wait b left) (\<lambda>_. st_ret (Inl e)))) (\<lambda>x.
     case x of Inr o' \<Rightarrow> st_ret o' | Inl e \<Rightarrow> attempts E gid n cid v b left (Some e))"

definition give_up :: "env \<Rightarrow> string \<Rightarrow> work_node \<Rightarrow> exn option \<Rightarrow> (sup, run_summary) st" where
  "give_up E gid n err =
     st_bind (read (stored_node (wn_id n))) (\<lambda>(_, cur, v).
     st_bind (if cur \<noteq> NFailed then set_status E (wn_id n) NFailed v else st_ret ()) (\<lambda>_.
     st_bind (modify (\<lambda>s. s\<lparr>sv_failed := sv_failed s @ [wn_id n]\<rparr>)) (\<lambda>_.
     finish E gid ''failed'' (Some (case err of None \<Rightarrow> ''None'' | Some e \<Rightarrow> exn_text e)) [])))"

definition run_attempts :: "env \<Rightarrow> string \<Rightarrow> work_node \<Rightarrow> int \<Rightarrow> (sup, run_summary option) st" where
  "run_attempts E gid n v =
     st_bind (st_lift (attempt_limit (rp_max (wn_retry n)))) (\<lambda>limit.
     st_bind (st_lift (backoff_of (rp_backoff (wn_retry n)))) (\<lambda>b.
     st_bind (read (\<lambda>d. Inr (attempt_count (wn_id n) d))) (\<lambda>spent.
     st_bind (attempts E gid n (hd (required n)) v b (nat (limit - spent)) None) (\<lambda>o'.
     case o' of
       NodeDone \<Rightarrow> st_ret None
     | Return x \<Rightarrow> st_ret (Some x)
     | Exhausted err \<Rightarrow> st_bind (give_up E gid n err) (\<lambda>x. st_ret (Some x))))))"

section \<open>A ready node\<close>

definition ask_human :: "env \<Rightarrow> string \<Rightarrow> work_node \<Rightarrow> int \<Rightarrow> string \<Rightarrow> string \<Rightarrow> (sup, run_summary option) st" where
  "ask_human E gid n v kind reason =
     st_bind (ensure_approval_request E gid n kind) (\<lambda>i.
     st_bind (pause E gid (wn_id n) v reason [i]) (\<lambda>x. st_ret (Some x)))"

text \<open>A node without capabilities completes at once, unless it wants a review nobody can give.\<close>

definition run_bare :: "env \<Rightarrow> string \<Rightarrow> work_node \<Rightarrow> int \<Rightarrow> (sup, run_summary option) st" where
  "run_bare E gid n v =
     st_bind (if wn_review n then independent_review_passes E n else st_ret True) (\<lambda>ok.
     if \<not> ok then st_bind (pause E gid (wn_id n) v ''independent_review'' []) (\<lambda>x. st_ret (Some x))
     else st_bind (complete_node E (wn_id n) v) (\<lambda>_. st_ret None))"

definition over_budget :: "work_node \<Rightarrow> (sup, bool) st" where
  "over_budget n =
     st_bind (st_lift (dict_of (oget_or (wn_metadata n) ''budget_projection'' (JObj [])))) (\<lambda>p.
     st_bind (st_get (\<lambda>s. would_exceed (sv_budget s) p)) (\<lambda>x.
     st_bind (st_lift x) (\<lambda>burst. st_ret (burst \<noteq> None))))"

definition run_task :: "env \<Rightarrow> string \<Rightarrow> work_node \<Rightarrow> int \<Rightarrow> (sup, run_summary option) st" where
  "run_task E gid n v =
     (if wn_requires n = [] then run_bare E gid n v
      else
        st_bind (over_budget n) (\<lambda>over.
        if over then st_bind (pause E gid (wn_id n) v ''budget'' []) (\<lambda>x. st_ret (Some x))
        else run_attempts E gid n v))"

definition run_node :: "env \<Rightarrow> string \<Rightarrow> string \<Rightarrow> (sup, run_summary option) st" where
  "run_node E gid nid =
     st_bind (read (stored_node nid)) (\<lambda>(n, _, v).
     if wn_kind n = ApprovalNode then ask_human E gid n v ''approval_node'' ''approval''
     else
       st_bind (if wn_approval n then task_approval_current E gid n else st_ret True) (\<lambda>ok.
       if \<not> ok then ask_human E gid n v ''approval_required'' ''approval_required''
       else run_task E gid n v))"

section \<open>The loop\<close>

fun run_ready :: "env \<Rightarrow> string \<Rightarrow> string list \<Rightarrow> (sup, run_summary option) st" where
  "run_ready E gid [] = st_ret None"
| "run_ready E gid (nid # nids) =
     st_bind (run_node E gid nid) (\<lambda>x. case x of Some r \<Rightarrow> st_ret (Some r) | None \<Rightarrow> run_ready E gid nids)"

definition graph_statuses :: "string \<Rightarrow> db \<Rightarrow> exn + (string \<times> node_status) list" where
  "graph_statuses gid d =
     rbind (get_graph gid d) (\<lambda>g.
     rmap (\<lambda>n. rbind (stored_node (wn_id n) d) (\<lambda>(_, st', _). Inr (wn_id n, st'))) (wg_nodes g))"

definition no_node_ready :: "env \<Rightarrow> string \<Rightarrow> (string \<times> node_status) list \<Rightarrow> (sup, run_summary) st" where
  "no_node_ready E gid sts =
     (if list_all (\<lambda>(_, st'). st' \<in> {NCompleted, NSkipped}) sts then finish E gid ''completed'' None []
      else finish E gid ''failed'' (Some (''deadlocked pending nodes: '' @
        join_with '', '' (map fst (filter (\<lambda>(_, st'). st' = NPending) sts)))) [])"

definition run_pass :: "env \<Rightarrow> string \<Rightarrow> (sup, run_summary option) st" where
  "run_pass E gid =
     st_bind tick (\<lambda>k.
     st_bind (on_world (refresh_readiness (se_rt E) (se_refresh E k) gid)) (\<lambda>_.
     st_bind (read (store_ready_node_ids gid)) (\<lambda>ready.
     st_bind (read (graph_statuses gid)) (\<lambda>sts.
     if ready = [] then st_bind (no_node_ready E gid sts) (\<lambda>x. st_ret (Some x))
     else run_ready E gid ready))))"

primrec run_loop :: "env \<Rightarrow> string \<Rightarrow> nat \<Rightarrow> (sup, run_summary option) st" where
  "run_loop E gid 0 = st_ret None"
| "run_loop E gid (Suc fuel) =
     st_bind (run_pass E gid) (\<lambda>x. case x of Some r \<Rightarrow> st_ret (Some r) | None \<Rightarrow> run_loop E gid fuel)"

text \<open>Nodes a previous run left blocked are tried again, except approval nodes.\<close>

definition unblock_node :: "env \<Rightarrow> work_node \<Rightarrow> (sup, unit) st" where
  "unblock_node E n =
     (if wn_kind n = ApprovalNode then st_ret ()
      else
        st_bind (read (stored_node (wn_id n))) (\<lambda>(_, st', v).
        if st' = NBlocked then set_status E (wn_id n) NPending v else st_ret ()))"

definition unblock_task_nodes :: "env \<Rightarrow> string \<Rightarrow> (sup, unit) st" where
  "unblock_task_nodes E gid = st_bind (read (get_graph gid)) (\<lambda>g. st_for (unblock_node E) (wg_nodes g))"

text \<open>Every pass completes a node or returns, so one pass more than there are rows is enough fuel.\<close>

definition run :: "env \<Rightarrow> string \<Rightarrow> (sup, run_summary option) st" where
  "run E gid =
     st_bind (unblock_task_nodes E gid) (\<lambda>_.
     st_bind (set_graph E gid ''running'') (\<lambda>_.
     st_bind (modify (\<lambda>s. s\<lparr>sv_completed := [], sv_failed := [], sv_blocked := []\<rparr>)) (\<lambda>_.
     st_bind (st_get (\<lambda>s. Suc (length (wdb (sv_world s) ''work_nodes'')))) (run_loop E gid))))"

definition resume :: "env \<Rightarrow> string \<Rightarrow> (sup, run_summary option) st" where
  "resume E gid = run E gid"

definition start :: "world \<Rightarrow> budget \<Rightarrow> sup" where
  "start w b = \<lparr>sv_world = w, sv_budget = b, sv_tick = 0, sv_calls = [], sv_sleeps = [], sv_completed = [], sv_failed = [],
     sv_blocked = []\<rparr>"

end
