(* ===== verification/Run_Props.thy ===== *)
theory Run_Props
  imports Supervisor Work_Props Remote_Props Capability_Props
begin

text \<open>
  A run of the supervisor ends: every pass over the ready nodes completes one of them or
  returns, and nothing a run does makes a node pending again.
\<close>

section \<open>How the rows of nodes move\<close>

text \<open>With \<open>up\<close>, a row may become pending.\<close>

definition row_move :: "bool \<Rightarrow> row \<Rightarrow> row \<Rightarrow> bool" where
  "row_move up r r' \<longleftrightarrow> r' ''id'' = r ''id'' \<and> r' ''kind'' = r ''kind'' \<and> r' ''graph_id'' = r ''graph_id''
     \<and> (r' ''status'' = SText ''pending'' \<longrightarrow> up \<or> r ''status'' = SText ''pending'' \<or> r ''kind'' = SText ''approval'')"

definition node_moves :: "bool \<Rightarrow> db \<Rightarrow> db \<Rightarrow> bool" where
  "node_moves up d d' \<longleftrightarrow> list_all2 (row_move up) (d ''work_nodes'') (d' ''work_nodes'')"

lemma row_move_refl [simp]: "row_move up r r"
  by (simp add: row_move_def)

lemma row_move_trans: "row_move up r r' \<Longrightarrow> row_move up r' r'' \<Longrightarrow> row_move up r r''"
  by (auto simp: row_move_def)

lemma moves_same: "d' ''work_nodes'' = d ''work_nodes'' \<Longrightarrow> node_moves up d d'"
  by (simp add: node_moves_def list_all2_refl)

lemma moves_trans: "node_moves up d d' \<Longrightarrow> node_moves up d' d'' \<Longrightarrow> node_moves up d d''"
  unfolding node_moves_def by (rule list_all2_trans [of "row_move up" "row_move up" "row_move up", OF row_move_trans])

lemma moves_map: "(\<And>r. row_move up r (f r)) \<Longrightarrow> d' ''work_nodes'' = map f (d ''work_nodes'') \<Longrightarrow> node_moves up d d'"
  by (simp add: node_moves_def list_all2_map2 list_all2_refl)

definition moving :: "bool \<Rightarrow> (sup, 'a) st \<Rightarrow> bool" where
  "moving up m \<longleftrightarrow> (\<forall>s. node_moves up (wdb (sv_world s)) (wdb (sv_world (snd (m s)))))"

named_theorems moves \<open>computations of the supervisor that move nodes only as a run may\<close>

lemma moving_pure [moves]:
  "moving up (st_ret x)" "moving up (st_raise e)" "moving up (st_lift r)" "moving up (st_get f)" "moving up (st_guard b e)"
  "moving up (read g)" "moving up tick"
  by (simp_all add: moving_def st_ret_def st_raise_def st_lift_def st_get_def st_guard_def read_def tick_def moves_same)

lemma moving_modify: "(\<And>s. sv_world (f s) = sv_world s) \<Longrightarrow> moving up (modify f)"
  by (simp add: moving_def modify_def moves_same)

lemma moving_bind [moves]: "moving up m \<Longrightarrow> (\<And>x. moving up (f x)) \<Longrightarrow> moving up (st_bind m f)"
  unfolding moving_def st_bind_def by (auto split: prod.splits sum.splits) (metis moves_trans snd_conv)+

lemma moving_if [moves]: "moving up a \<Longrightarrow> moving up b \<Longrightarrow> moving up (if c then a else b)"
  by simp

lemma moving_option [moves]:
  "moving up g \<Longrightarrow> (\<And>x. moving up (f x)) \<Longrightarrow> moving up (case o' of None \<Rightarrow> g | Some x \<Rightarrow> f x)"
  by (cases o') simp_all

lemma moving_sum [moves]:
  "(\<And>x. moving up (f x)) \<Longrightarrow> (\<And>x. moving up (g x)) \<Longrightarrow> moving up (case o' of Inl x \<Rightarrow> f x | Inr x \<Rightarrow> g x)"
  by (cases o') simp_all

lemma moving_prod [moves]: "(\<And>x y. moving up (f x y)) \<Longrightarrow> moving up (case p of (x, y) \<Rightarrow> f x y)"
  by (cases p) simp

lemma moving_json [moves]:
  "(\<And>x. moving up (f x)) \<Longrightarrow> (\<And>x. moving up (g x)) \<Longrightarrow> (\<And>x. moving up (h x)) \<Longrightarrow> moving up i \<Longrightarrow>
    moving up (case j of JStr x \<Rightarrow> f x | JList x \<Rightarrow> g x | JObj x \<Rightarrow> h x | _ \<Rightarrow> i)"
  by (cases j) simp_all

lemma moving_catch [moves]: "moving up m \<Longrightarrow> (\<And>e. moving up (h e)) \<Longrightarrow> moving up (st_catch p m h)"
  unfolding moving_def st_catch_def by (auto split: prod.splits sum.splits) (metis moves_trans snd_conv)+

lemma moving_for [moves]:
  assumes "\<And>x. moving up (f x)"
  shows "moving up (st_for f xs)"
proof -
  have "node_moves up (wdb (sv_world s)) (wdb (sv_world (snd (st_for f xs s))))" for s
  proof (induction xs arbitrary: s)
    case (Cons x xs)
    have "node_moves up (wdb (sv_world s)) (wdb (sv_world (snd (f x s))))" using assms by (simp add: moving_def)
    with Cons.IH show ?case by (auto split: prod.splits sum.splits) (metis moves_trans snd_conv)+
  qed (simp add: moves_same)
  then show ?thesis by (simp add: moving_def)
qed

lemma moving_on_world: "keeps ''work_nodes'' m \<Longrightarrow> moving up (on_world m)"
  by (simp add: moving_def keeps_def on_world_def moves_same split: prod.splits) (metis moves_same snd_conv)

section \<open>Operations that leave the nodes alone\<close>

definition NODE_EVENTS :: "string list" where
  "NODE_EVENTS = [''run.created'', ''step.started'', ''step.completed'', ''step.failed'']"

lemma touches_memory: "only_touches {''memory_records'', ''memory_sources''} (apply_memory env)"
  unfolding apply_memory_def write_source_def insert_or_replace_def update_by_def Let_def
  by (intro touches) simp_all

lemma touches_approval: "only_touches {''approval_requests''} (apply_approval env)"
  unfolding apply_approval_def insert_or_replace_def update_by_def Let_def
  by (intro touches) simp_all

lemma touches_run_status: "only_touches {''work_graphs''} (apply_run_status p ts)"
  unfolding apply_run_status_def update_by_def Let_def
  by (intro touches) simp_all

lemma touches_attempt: "only_touches {''work_attempts''} (apply_attempt p ts)"
  unfolding apply_attempt_def upsert_def Let_def
  by (intro touches) simp_all

lemma touches_mono: "only_touches S m \<Longrightarrow> S \<subseteq> T \<Longrightarrow> only_touches T m"
  by (auto simp: only_touches_def)

definition OTHER_TABLES :: "string set" where
  "OTHER_TABLES = {''memory_records'', ''memory_sources''} \<union> {''capabilities'', ''capability_versions'', ''capability_permissions''}
     \<union> {''approval_requests''} \<union> {''work_graphs''} \<union> {''work_attempts''}"

lemma touches_other:
  "only_touches OTHER_TABLES (apply_memory env)" "only_touches OTHER_TABLES (apply_capability env)"
  "only_touches OTHER_TABLES (apply_approval env)" "only_touches OTHER_TABLES (apply_run_status p ts)"
  "only_touches OTHER_TABLES (apply_attempt p ts)"
  unfolding OTHER_TABLES_def
  by (rule touches_mono [OF touches_memory] touches_mono [OF touches_capability] touches_mono [OF touches_approval]
      touches_mono [OF touches_run_status] touches_mono [OF touches_attempt], blast)+

lemma touches_work:
  assumes "oget env ''event_type'' = JStr ty" "ty \<notin> set NODE_EVENTS"
  shows "only_touches OTHER_TABLES (apply_work env)"
proof -
  have n: "(ty = ''run.created'') = False" "(ty \<in> set [''step.started'', ''step.completed'', ''step.failed'']) = False"
    using assms(2) by (simp_all add: NODE_EVENTS_def)
  show ?thesis
    unfolding apply_work_def Let_def assms(1) json.case n if_False by (intro touches touches_other)
qed

lemma apply_event_nodes:
  assumes "oget env ''event_type'' = JStr ty" "ty \<notin> set NODE_EVENTS"
  shows "snd (apply_event env d) ''work_nodes'' = d ''work_nodes''"
proof -
  have "only_touches OTHER_TABLES (apply_event env)"
    unfolding apply_event_def by (intro touches touches_other touches_work [OF assms])
  then show ?thesis by (simp add: only_touches_def OTHER_TABLES_def)
qed

lemma keeps_emit_nodes [keeping]:
  assumes "ev_type e \<notin> set NODE_EVENTS"
  shows "keeps ''work_nodes'' (emit_as R K e)"
proof -
  have "keeps ''work_nodes'' (apply_on (apply_event env))" if "oget env ''event_type'' = JStr (ev_type e)" for env
    using apply_event_nodes [OF that assms] by (simp add: keeps_def apply_on_def case_prod_beta)
  then show ?thesis
    unfolding emit_as_def emit_def
    by (intro keeps_event keeps_bind keeps_pure) (auto dest: append_type)
qed

lemma event_types [simp]:
  "ev_type (event ty a p) = ty" "ev_type (approval_event ty a i p) = ty" "ev_type (attempt_event ty i p) = ty"
  "ev_type (graph_event ty i p) = ty" "ev_type (node_event ty i p) = ty" "ev_type (capability_event ty a i p) = ty"
  by (simp_all add: event_def approval_event_def attempt_event_def graph_event_def node_event_def capability_event_def)

lemma keeps_capability_event:
  assumes "starts_with (ev_type e) ''capability.''"
    and "only_touches {''capabilities''} m"
  shows "keeps ''work_nodes'' (st_bind (append_event R now uid e) (\<lambda>env. st_bind (apply_on m) (\<lambda>_.
    st_bind (apply_on (apply_event env)) (\<lambda>_. st_ret x))))"
  by (intro keeps_event keeps_bind keeps_apply_on [OF assms(2)] keeps_pure keeps_apply_capability [OF _ assms(1)]) simp_all

lemma keeps_refresh_digest: "keeps ''work_nodes'' (refresh_digest R K cid nd)"
  unfolding refresh_digest_def Let_def
  by (intro keeps_bind keeps_get_row keeps_if keeps_pure keeps_capability_event touches_update_by) simp_all

lemma keeps_resolve_source: "keeps ''work_nodes'' (resolve_source R K D pr cid x)"
  unfolding resolve_source_def
  by (intro keeps_bind keeps_get_row keeps_if keeps_pure keeps_option keeps_refresh_digest)

lemma keeps_same_db: "(\<And>w. wdb (snd (m w)) = wdb w) \<Longrightarrow> keeps q m"
  by (simp add: keeps_def)

lemma adapter_executable_db: "wdb (snd (assert_adapter_executable A cid w)) = wdb w"
  unfolding assert_adapter_executable_def
  by (auto simp: st_bind_def st_get_def st_raise_def st_lift_def st_ret_def
      split: option.splits sum.splits json.splits)

lemma keeps_assert_executable: "keeps ''work_nodes'' (assert_executable R K D A pr cid)"
  unfolding assert_executable_def
  by (intro keeps_opened keeps_bind keeps_get_row keeps_pure keeps_resolve_source keeps_same_db adapter_executable_db)

lemma keeps_get_approval: "keeps q (get_approval R i)"
  unfolding get_approval_def by (intro keeps_bind keeps_pure keeps_option)

lemma keeps_request: "keeps ''work_nodes'' (request R K q)"
  unfolding request_def by (intro keeps_bind keeps_pure keeps_emit_nodes) (simp add: NODE_EVENTS_def)

lemma keeps_assert_current: "keeps ''work_nodes'' (assert_current R K i scope)"
  unfolding assert_current_def assert_digest_def
  by (intro keeps_bind keeps_pure keeps_if keeps_get_approval keeps_emit_nodes) (simp add: NODE_EVENTS_def)

lemma keeps_assert_digest: "keeps ''work_nodes'' (assert_digest R K i dg)"
  unfolding assert_digest_def
  by (intro keeps_bind keeps_pure keeps_if keeps_get_approval keeps_emit_nodes) (simp add: NODE_EVENTS_def)

lemma keeps_authorize: "keeps ''work_nodes'' (authorize R K F pr a g n scope mode)"
  unfolding authorize_def Let_def consult_def find_latest_matching_def get_if_def
  by (intro keeps_bind keeps_pure keeps_if keeps_option keeps_get_approval keeps_request)

lemma keeps_catch_integrity: "keeps q m \<Longrightarrow> keeps q (catch_integrity e m)"
  by (auto simp: keeps_def catch_integrity_def split: prod.splits sum.splits exn.splits) (metis snd_conv)+

lemma keeps_terminal: "keeps ''work_nodes'' (terminal_lease R K i t)"
  unfolding terminal_lease_def
  by (intro keeps_bind keeps_pure keeps_if keeps_read_db keeps_node_emit
      keeps_apply_on [OF touches_update_by, of node_leases_t "{''node_leases''}"]) simp_all

lemma keeps_rescue: "keeps q m \<Longrightarrow> keeps q h \<Longrightarrow> keeps q (rescue m h)"
  unfolding keeps_def rescue_def by (auto split: prod.splits sum.splits) (metis snd_conv)+

lemma keeps_dispatch: "keeps ''work_nodes'' (dispatch R K K2 sw li un pe rem gid wn cid inputs tmo)"
proof -
  have e: "keeps ''work_nodes'' (expire_active_leases now)" for now
    unfolding expire_active_leases_def
    by (intro keeps_apply_on [OF touches_update, of node_leases_t "{''node_leases''}"]) simp_all
  have i: "keeps ''work_nodes'' (apply_on (insert_row node_leases_t vs))" for vs
    by (intro keeps_apply_on [OF touches_insert_row, of node_leases_t "{''node_leases''}"]) simp_all
  show ?thesis
    unfolding dispatch_def acquire_lease_def complete_lease_def fail_lease_def
    by (cases "pl_node (wn_placement wn)")
      (simp_all, (intro keeps_bind keeps_pure keeps_if keeps_opened keeps_read_db keeps_node_emit keeps_rescue keeps_terminal
         keeps_catch_integrity e i; simp)+)
qed

lemma keeps_elsewhere: "keeps q m \<Longrightarrow> keeps q (elsewhere m)"
  unfolding keeps_def elsewhere_def opened_def by (auto split: prod.splits) (metis open_log_db snd_conv)

lemma keeps_set_graph_status: "keeps ''work_nodes'' (set_graph_status R K gid status)"
proof -
  have e: "keeps ''work_nodes'' (emit_as R K (graph_event ty gid p))"
    if "(if nxt = GRunning then Inr (if r ''status'' = SText ''paused'' then ''run.resumed'' else ''run.started'')
             else (case map_of GRAPH_STATUS_EVENTS nxt of
                 None \<Rightarrow> Inl (ValueError ''unsupported graph status transition'') | Some ty \<Rightarrow> Inr ty)) = Inr ty"
    for nxt and r :: row and ty p
    using that by (intro keeps_emit_nodes) (auto simp: NODE_EVENTS_def GRAPH_STATUS_EVENTS_def split: if_splits option.splits)
  have l: "keeps q (f x)" if "r = Inr x" "\<And>x. r = Inr x \<Longrightarrow> keeps q (f x)" for q f r x
    using that by blast
  have b: "keeps q (st_bind (st_lift r) f)" if "\<And>x. r = Inr x \<Longrightarrow> keeps q (f x)" for q r and f :: "'x \<Rightarrow> (world, 'y) st"
    using that by (cases r) (simp_all add: keeps_def st_bind_def st_lift_def)
  show ?thesis
    unfolding set_graph_status_def
    by (intro keeps_bind keeps_pure keeps_option b) (erule e)
qed

section \<open>Status changes\<close>

text \<open>A step event moves rows as its \<open>to\<close> says.\<close>

definition to_ok :: "bool \<Rightarrow> json \<Rightarrow> bool" where
  "to_ok up j \<longleftrightarrow> up \<or> j = JNull \<or> (\<exists>t. j = JStr t \<and> t \<noteq> ''pending'')"

lemma set_cols_move:
  assumes "\<And>v. (''status'', v) \<in> set vs \<Longrightarrow> up \<or> coerce TextA v \<noteq> SText ''pending''"
    and "fst ` set vs \<subseteq> {''status'', ''output_json''}"
  shows "row_move up r (bump_version (set_cols work_nodes_t vs r))"
proof -
  have c: "set_cols work_nodes_t vs r c = r c" if "c \<notin> {''status'', ''output_json''}" for c
    by (rule set_cols_other) (use assms(2) that in blast)
  have st: "set_cols work_nodes_t vs r ''status'' = SText ''pending'' \<Longrightarrow> up \<or> r ''status'' = SText ''pending''"
    using assms(1)
  proof (induction vs arbitrary: r)
    case (Cons p vs)
    obtain c v where p: "p = (c, v)" by fastforce
    let ?r = "r(c := coerce (aff_of work_nodes_t c) v)"
    have "set_cols work_nodes_t vs ?r ''status'' = SText ''pending''" using Cons.prems(1) by (simp add: p)
    from Cons.IH [OF this] Cons.prems(2) have u: "up \<or> ?r ''status'' = SText ''pending''" by simp
    show ?case
    proof (cases "c = ''status''")
      case True
      have "up \<or> coerce TextA v \<noteq> SText ''pending''" by (rule Cons.prems(2)) (simp add: p True)
      with u True show ?thesis by (auto simp: node_status_aff)
    next
      case False
      then have "''status'' \<noteq> c" by metis
      with u show ?thesis by simp
    qed
  qed simp
  show ?thesis using c st by (auto simp: row_move_def bump_version_def)
qed

lemma apply_step_moves: "to_ok up (oget p ''to'') \<Longrightarrow> node_moves up d (snd (apply_step p d))"
proof -
  assume to: "to_ok up (oget p ''to'')"
  let ?sets = "(if oget p ''to'' \<noteq> JNull then [(''status'', oget p ''to'')] else [])
     @ (if oget p ''output'' \<noteq> JNull then [(''output_json'', JStr (dumps (oget p ''output'')))] else [])"
  have u: "node_moves up d (snd (update_by work_nodes_t ?sets bump_version k j d))" for k j
  proof (cases "update_by work_nodes_t ?sets bump_version k j d")
    case (Pair r d')
    show ?thesis
    proof (cases r)
      case (Inl e)
      with Pair update_by_err show ?thesis by (metis moves_same snd_conv)
    next
      case (Inr n)
      obtain vs kv where v: "bind_all ?sets = Inr vs"
        "d' = d(tname work_nodes_t := map (\<lambda>r. if eq_val work_nodes_t k kv r then bump_version (set_cols work_nodes_t vs r) else r) (d (tname work_nodes_t)))"
        by (rule update_by_ok [OF Pair [unfolded Inr]])
      from seq_all_ok [OF v(1) [unfolded bind_all_def]]
      have f1: "map fst vs = map fst ?sets" and f2: "\<And>c x. (c, x) \<in> set vs \<Longrightarrow> (c, Inr x) \<in> set (map (\<lambda>(c, j). (c, bindv j)) ?sets)"
        by (simp_all add: case_prod_beta comp_def)
      have f: "fst ` set vs \<subseteq> {''status'', ''output_json''}"
        using arg_cong [OF f1, of set] by (simp only: set_map [symmetric]) (auto split: if_splits)
      have s: "up \<or> coerce TextA x \<noteq> SText ''pending''" if "(''status'', x) \<in> set vs" for x
      proof -
        from f2 [OF that] have "oget p ''to'' \<noteq> JNull" "bindv (oget p ''to'') = Inr x" by (auto split: if_splits)
        with to show ?thesis by (auto simp: to_ok_def)
      qed
      show ?thesis
        unfolding Pair snd_conv
        by (rule moves_map [where f = "\<lambda>r. if eq_val work_nodes_t k kv r then bump_version (set_cols work_nodes_t vs r) else r"])
          (use set_cols_move [OF s f] v(2) in auto)
    qed
  qed
  show ?thesis
    unfolding apply_step_def
    by (cases "oget p ''node_id'' = JNull") (simp_all only: if_True if_False snd_st_ret snd_bind_ret u moves_same simp_thms)
qed

lemma apply_event_step:
  assumes "oget env ''event_type'' = JStr ty" "ty \<in> set [''step.started'', ''step.completed'', ''step.failed'']"
  shows "snd (apply_event env d) = snd (apply_step (payload_of env) d)"
proof -
  have "domain_for_event env = Inr (Some ''work_projection'')"
    using assms by (auto simp: domain_for_event_def jor_def)
  moreover have "apply_work env = apply_step (payload_of env)"
    using assms by (auto simp: apply_work_def)
  ultimately show ?thesis by (simp add: apply_event_def st_bind_def st_lift_def st_ret_def split: prod.splits sum.splits)
qed

text \<open>Computations of a world that move nodes.\<close>

definition wmoving :: "bool \<Rightarrow> (world, 'a) st \<Rightarrow> bool" where
  "wmoving up m \<longleftrightarrow> (\<forall>w. node_moves up (wdb w) (wdb (snd (m w))))"

lemma wmoving_keeps: "keeps ''work_nodes'' m \<Longrightarrow> wmoving up m"
  by (simp add: wmoving_def keeps_def moves_same)

lemma wmoving_bind: "wmoving up m \<Longrightarrow> (\<And>x. wmoving up (f x)) \<Longrightarrow> wmoving up (st_bind m f)"
  unfolding wmoving_def st_bind_def by (auto split: prod.splits sum.splits) (metis moves_trans snd_conv)+

lemma wmoving_pure: "wmoving up (st_ret x)" "wmoving up (st_lift r)" "wmoving up (st_get f)" "wmoving up (raise_unless b e)"
  by (simp_all add: wmoving_keeps keeping)

lemma wmoving_step:
  assumes "ty \<in> set [''step.started'', ''step.completed'', ''step.failed'']" "to_ok up (oget (scrub_payload R p) ''to'')"
  shows "wmoving up (emit_as R K (node_event ty nid p))"
proof -
  have "node_moves up (wdb w) (wdb (snd (emit_as R K (node_event ty nid p) w)))" for w
  proof (cases "append_event R (c_ts K) (c_eid K) (node_event ty nid p) w")
    case (Pair r w1)
    have same: "node_moves up (wdb w) (wdb w1)" using append_event_tables [OF Pair] by (intro moves_same) simp
    show ?thesis
    proof (cases r)
      case (Inr env)
      note a = Pair [unfolded Inr]
      have ty: "oget env ''event_type'' = JStr ty" using append_type [OF a] by simp
      have "payload_of env = scrub_payload R p"
        by (rule append_event_env [OF a]) (simp add: node_event_def event_def)
      with apply_event_step [OF ty assms(1)] apply_step_moves [of up "payload_of env"] assms(2)
      have "node_moves up (wdb w1) (snd (apply_event env (wdb w1)))" by simp
      with same have "node_moves up (wdb w) (snd (apply_event env (wdb w1)))" by (rule moves_trans)
      then show ?thesis using a
        by (auto simp: emit_as_def emit_def st_bind_def apply_on_def st_ret_def split: prod.splits sum.splits)
    qed (use Pair same in \<open>simp add: emit_as_def emit_def st_bind_def\<close>)
  qed
  then show ?thesis by (simp add: wmoving_def)
qed

lemma wmoving_status:
  assumes "keeps_node_words R" "st' = NPending \<longrightarrow> up"
  shows "wmoving up (emit_node_status R K nid st')"
proof -
  let ?p = "[(''node_id'', JStr nid), (''to'', JStr (node_status_value st'))]"
  have "oget (scrub_payload R ?p) ''to'' = JStr (node_status_value st')"
    using node_status_scrub [OF assms(1), of st'] by (simp add: scrub_oget) (simp add: oget_def)
  moreover have "st' = NPending \<or> node_status_value st' \<noteq> ''pending''" by (cases st') simp_all
  ultimately have to: "to_ok up (oget (scrub_payload R ?p) ''to'')" using assms(2) by (auto simp: to_ok_def)
  have ty: "(case map_of NODE_STATUS_EVENTS st' of None \<Rightarrow> ''step.started'' | Some ty \<Rightarrow> ty)
      \<in> set [''step.started'', ''step.completed'', ''step.failed'']"
    by (cases st') (simp_all add: NODE_STATUS_EVENTS_def)
  show ?thesis unfolding emit_node_status_def by (intro wmoving_bind wmoving_pure wmoving_step [OF ty to])
qed

lemma wmoving_set_status:
  assumes "keeps_node_words R" "st' = NPending \<longrightarrow> up"
  shows "wmoving up (set_node_status R K nid (JStr (node_status_value st')) v)"
proof -
  have "set_node_status R K nid (JStr (node_status_value st')) v =
    st_bind (check_version nid v) (\<lambda>_. emit_node_status R K nid st')"
    by (simp add: set_node_status_def st_bind_def st_lift_def fun_eq_iff)
  then show ?thesis unfolding check_version_def
    by (simp only:) (intro wmoving_bind wmoving_pure wmoving_status assms)
qed

lemma wmoving_record: "wmoving up (record_value R K nid out v)"
proof -
  let ?p = "[(''node_id'', JStr nid), (''output'', out)]"
  have "to_ok up (oget (scrub_payload R ?p) ''to'')"
    by (simp add: scrub_oget to_ok_def) (simp add: oget_def)
  then show ?thesis unfolding record_value_def check_version_def
    by (intro wmoving_bind wmoving_pure wmoving_step) simp
qed

lemma moving_wmoving: "wmoving up m \<Longrightarrow> moving up (on_world m)"
  by (simp add: moving_def wmoving_def on_world_def split: prod.splits) (metis snd_conv)

section \<open>Steps of the supervisor\<close>

lemma moving_keeps: "keeps ''work_nodes'' m \<Longrightarrow> moving up (on_world m)"
  by (intro moving_wmoving wmoving_keeps)

lemma moving_service: "(\<And>R K. keeps ''work_nodes'' (f R K)) \<Longrightarrow> moving up (service_op E f)"
  unfolding service_op_def by (intro moves moving_keeps keeps_elsewhere)

lemma moving_store: "(\<And>K. wmoving up (f (se_rt E) K)) \<Longrightarrow> moving up (store_op E f)"
  unfolding store_op_def by (intro moves moving_wmoving)

lemma moving_set_status [moves]:
  "keeps_node_words (se_rt E) \<Longrightarrow> st' = NPending \<longrightarrow> up \<Longrightarrow> moving up (set_status E nid st' v)"
  unfolding set_status_def by (intro moving_store wmoving_set_status)

lemma moving_set_graph [moves]: "moving up (set_graph E gid status)"
  unfolding set_graph_def by (intro moving_store wmoving_keeps keeps_set_graph_status)

lemma moving_finish [moves]: "moving up (finish E gid status reason pending)"
  unfolding finish_def by (intro moves)

lemma moving_pause [moves]: "keeps_node_words (se_rt E) \<Longrightarrow> moving up (pause E gid nid v reason pending)"
  unfolding pause_def by (intro moves moving_modify) simp_all

lemma moving_complete [moves]: "keeps_node_words (se_rt E) \<Longrightarrow> moving up (complete_node E nid v)"
  unfolding complete_node_def by (intro moves moving_modify) simp_all

lemma keeps_attempt_event:
  "ty \<in> {''attempt.started'', ''attempt.completed'', ''attempt.failed''} \<Longrightarrow> keeps ''work_nodes'' (emit_as R K (attempt_event ty aid p))"
  by (intro keeps_emit_nodes) (auto simp: NODE_EVENTS_def)

lemma moving_record_attempt [moves]: "moving up (record_attempt E gid nid cid state)"
  unfolding record_attempt_def Let_def
  by (intro moves moving_store wmoving_keeps keeps_bind keeps_pure keeps_attempt_event) simp

lemma moving_finish_attempt [moves]: "moving up (finish_attempt E aid state err usage)"
  unfolding finish_attempt_def
  by (intro moves moving_store wmoving_keeps keeps_bind keeps_pure keeps_attempt_event) simp

lemma moving_ensure [moves]: "moving up (ensure_approval_request E gid n kind)"
  unfolding ensure_approval_request_def by (intro moves moving_service keeps_request)

lemma moving_task_approval [moves]: "moving up (task_approval_current E gid n)"
  unfolding task_approval_current_def by (intro moves moving_service keeps_assert_current)

lemma moving_gate [moves]: "moving up (gate E cid)"
  unfolding gate_def by (intro moves moving_keeps keeps_elsewhere keeps_assert_executable)

lemma moving_authorize [moves]: "moving up (authorize_node E gid nid cid)"
  unfolding authorize_node_def by (intro moving_service keeps_authorize)

lemma moving_adapter [moves]: "moving up (adapter_of E cid)"
  unfolding adapter_of_def by (intro moving_bind moving_pure) (simp split: json.splits add: moving_pure moving_bind)

lemma moving_call [moves]: "moving up (call_adapter E iv)"
  unfolding call_adapter_def by (intro moves)

lemma moving_log_call [moves]: "moving up (log_call nid cid)"
  unfolding log_call_def by (rule moving_modify) simp

lemma moving_execute [moves]: "moving up (execute E gid n cid inputs tmo)"
  unfolding execute_def by (intro moves moving_keeps keeps_elsewhere keeps_dispatch)

lemma moving_review [moves]: "moving up (independent_review_passes E n)"
  unfolding independent_review_passes_def review_def reviewer_adapter_def Let_def by (intro moves)

lemma moving_check_result [moves]: "moving up (check_result E n aid r)"
  unfolding check_result_def fail_attempt_def by (intro moves)

lemma moving_settle [moves]: "keeps_node_words (se_rt E) \<Longrightarrow> moving up (settle E gid n aid r)"
  unfolding settle_def Let_def by (intro moves moving_modify moving_store wmoving_record) simp_all

lemma moving_attempt [moves]: "keeps_node_words (se_rt E) \<Longrightarrow> moving up (attempt_once E gid n cid v)"
  unfolding attempt_once_def admit_def run_capability_def by (intro moves)

lemma moving_wait [moves]: "moving up (wait b k)"
  unfolding wait_def by (intro moves moving_modify) simp

lemma moving_attempts [moves]: "keeps_node_words (se_rt E) \<Longrightarrow> moving up (attempts E gid n cid v b k err)"
  by (induction k arbitrary: err) (simp_all, (intro moves; simp)+)

lemma moving_give_up [moves]: "keeps_node_words (se_rt E) \<Longrightarrow> moving up (give_up E gid n err)"
  unfolding give_up_def by (intro moves moving_modify) simp_all

lemma moving_run_node [moves]: "keeps_node_words (se_rt E) \<Longrightarrow> moving up (run_node E gid nid)"
  unfolding run_node_def run_task_def run_bare_def over_budget_def run_attempts_def ask_human_def
  by (intro moves) (auto intro!: moves split: outcome.splits)

lemma moving_run_ready [moves]: "keeps_node_words (se_rt E) \<Longrightarrow> moving up (run_ready E gid nids)"
  by (induction nids) (simp_all add: moves)

end
