(* ===== verification/Run_Ends.thy ===== *)
theory Run_Ends
  imports Run_Props
begin

text \<open>
  The termination of a run: the rows that can be ready, how a refresh of the approval
  nodes leaves the others alone, and the count that goes down with every pass.
\<close>

section \<open>Nodes that can be ready\<close>

definition ids_ok :: "rt \<Rightarrow> db \<Rightarrow> bool" where
  "ids_ok R d \<longleftrightarrow> distinct (map (\<lambda>r. r ''id'') (d ''work_nodes''))
     \<and> (\<forall>r \<in> set (d ''work_nodes''). \<exists>i. r ''id'' = SText i \<and> rt_scrub R i = i)"

definition waiting :: "db \<Rightarrow> string set" where
  "waiting d = {i. \<exists>r \<in> set (d ''work_nodes''). r ''id'' = SText i \<and> r ''status'' = SText ''pending'' \<and> r ''kind'' \<noteq> SText ''approval''}"

lemma waiting_finite: "finite (waiting d)"
proof -
  have "waiting d \<subseteq> (\<lambda>r. stext (r ''id'')) ` set (d ''work_nodes'')" by (force simp: waiting_def image_iff)
  then show ?thesis by (rule finite_subset) simp
qed

lemma waiting_card: "card (waiting d) \<le> length (d ''work_nodes'')"
proof -
  have "waiting d \<subseteq> (\<lambda>r. stext (r ''id'')) ` set (d ''work_nodes'')" by (force simp: waiting_def image_iff)
  then have "card (waiting d) \<le> card ((\<lambda>r. stext (r ''id'')) ` set (d ''work_nodes''))" by (intro card_mono) simp_all
  also have "\<dots> \<le> card (set (d ''work_nodes''))" by (rule card_image_le) simp
  also have "\<dots> \<le> length (d ''work_nodes'')" by (rule card_length)
  finally show ?thesis .
qed

lemma moves_back:
  assumes "node_moves up d d'" "r' \<in> set (d' ''work_nodes'')"
  obtains r where "r \<in> set (d ''work_nodes'')" "row_move up r r'"
proof -
  from assms(2) obtain i where i: "i < length (d' ''work_nodes'')" "r' = d' ''work_nodes'' ! i" by (auto simp: in_set_conv_nth)
  with assms(1) have "length (d ''work_nodes'') = length (d' ''work_nodes'')" "row_move up (d ''work_nodes'' ! i) r'"
    by (simp_all add: node_moves_def list_all2_conv_all_nth)
  with i(1) show thesis by (intro that [of "d ''work_nodes'' ! i"]) simp_all
qed

lemma waiting_moves: "node_moves False d d' \<Longrightarrow> waiting d' \<subseteq> waiting d"
proof
  fix i
  assume m: "node_moves False d d'" and "i \<in> waiting d'"
  then obtain r' where r': "r' \<in> set (d' ''work_nodes'')" "r' ''id'' = SText i" "r' ''status'' = SText ''pending''"
    "r' ''kind'' \<noteq> SText ''approval''" by (auto simp: waiting_def)
  from m r'(1) obtain r where "r \<in> set (d ''work_nodes'')" "row_move False r r'" by (rule moves_back)
  with r' show "i \<in> waiting d" by (auto simp: waiting_def row_move_def)
qed

lemma moves_map_eq: "node_moves up d d' \<Longrightarrow> (\<And>r r'. row_move up r r' \<Longrightarrow> f r' = f r) \<Longrightarrow>
    map f (d' ''work_nodes'') = map f (d ''work_nodes'')"
  unfolding node_moves_def by (induction rule: list_all2_induct) auto

lemma moves_length: "node_moves up d d' \<Longrightarrow> length (d' ''work_nodes'') = length (d ''work_nodes'')"
  by (simp add: node_moves_def list_all2_lengthD)

lemma ids_moves: "node_moves up d d' \<Longrightarrow> ids_ok R d \<Longrightarrow> ids_ok R d'"
proof -
  assume m: "node_moves up d d'" and i: "ids_ok R d"
  have "map (\<lambda>r. r ''id'') (d' ''work_nodes'') = map (\<lambda>r. r ''id'') (d ''work_nodes'')"
    by (rule moves_map_eq [OF m]) (simp add: row_move_def)
  moreover have "\<exists>i. r' ''id'' = SText i \<and> rt_scrub R i = i" if "r' \<in> set (d' ''work_nodes'')" for r'
    using m that i by (elim moves_back) (auto simp: ids_ok_def row_move_def)
  ultimately show ?thesis using i by (simp add: ids_ok_def)
qed

section \<open>Refreshing approval nodes\<close>

lemma apply_event_step_full:
  assumes "oget env ''event_type'' = JStr ty" "ty \<in> set [''step.started'', ''step.completed'', ''step.failed'']"
    and "apply_event env d = (Inl e, d')"
  shows "d' = d"
proof -
  have "domain_for_event env = Inr (Some ''work_projection'')"
    using assms(1,2) by (auto simp: domain_for_event_def jor_def)
  moreover have "apply_work env = apply_step (payload_of env)"
    using assms(1,2) by (auto simp: apply_work_def)
  ultimately have "apply_step (payload_of env) d = (Inl e, d')"
    using assms(3) by (simp add: apply_event_def st_bind_def st_lift_def st_ret_def split: prod.splits sum.splits)
  then show ?thesis
    unfolding apply_step_def by (auto simp: st_bind_def st_ret_def dest: update_by_err split: if_splits prod.splits sum.splits)
qed

lemma emit_step_err:
  assumes "ty \<in> set [''step.started'', ''step.completed'', ''step.failed'']"
    and "emit_as R K (node_event ty nid p) w = (Inl e, w')"
  shows "wdb w' ''work_nodes'' = wdb w ''work_nodes''"
proof (cases "append_event R (c_ts K) (c_eid K) (node_event ty nid p) w")
  case (Pair r w1)
  have same: "wdb w1 ''work_nodes'' = wdb w ''work_nodes''" using append_event_tables [OF Pair] by simp
  show ?thesis
  proof (cases r)
    case (Inr env)
    note a = Pair [unfolded Inr]
    obtain r2 d2 where ev: "apply_event env (wdb w1) = (r2, d2)" by fastforce
    with assms(2) a have "r2 = Inl e" "wdb w' = d2"
      by (auto simp: emit_as_def emit_def st_bind_def apply_on_def st_ret_def split: sum.splits)
    moreover have "oget env ''event_type'' = JStr ty" using append_type [OF a] by simp
    ultimately show ?thesis using apply_event_step_full [OF _ assms(1)] ev same by metis
  qed (use Pair same assms(2) in \<open>simp add: emit_as_def emit_def st_bind_def\<close>)
qed

lemma emit_status_at:
  assumes "keeps_node_words R" "rt_scrub R nid = nid"
    and "\<forall>r \<in> set (wdb w ''work_nodes''). r ''id'' = SText nid \<longrightarrow> r ''kind'' = SText ''approval''"
  shows "node_moves False (wdb w) (wdb (snd (emit_node_status R K nid st' w)))"
proof (cases "emit_node_status R K nid st' w")
  case (Pair r w')
  show ?thesis
  proof (cases r)
    case (Inl e)
    have ty: "(case map_of NODE_STATUS_EVENTS st' of None \<Rightarrow> ''step.started'' | Some ty \<Rightarrow> ty)
      \<in> set [''step.started'', ''step.completed'', ''step.failed'']"
      by (cases st') (simp_all add: NODE_STATUS_EVENTS_def)
    from Pair Inl obtain w1 where "emit_as R K (node_event (case map_of NODE_STATUS_EVENTS st' of None \<Rightarrow> ''step.started'' | Some ty \<Rightarrow> ty) nid
       [(''node_id'', JStr nid), (''to'', JStr (node_status_value st'))]) w = (Inl e, w')"
      unfolding emit_node_status_def st_bind_def st_ret_def by (auto split: prod.splits sum.splits)
    from emit_step_err [OF ty this] show ?thesis by (simp add: Pair moves_same)
  next
    case (Inr u)
    from emit_node_status_ok(2) [OF Pair [unfolded Inr] assms(1,2)]
    have t: "wdb w' ''work_nodes'' = map (\<lambda>r. if r ''id'' = SText nid then bump_version (r(''status'' := SText (node_status_value st'))) else r) (wdb w ''work_nodes'')" .
    have "list_all2 (row_move False) rs (map (\<lambda>r. if r ''id'' = SText nid then bump_version (r(''status'' := SText (node_status_value st'))) else r) rs)"
      if "\<forall>r \<in> set rs. r ''id'' = SText nid \<longrightarrow> r ''kind'' = SText ''approval''" for rs
      using that by (induction rs) (auto simp: row_move_def bump_version_def)
    from this [OF assms(3)] show ?thesis by (simp add: Pair node_moves_def t)
  qed
qed

text \<open>Nodes of a graph that was read, against the rows.\<close>

lemma rbind_okE: "rbind r f = Inr y \<Longrightarrow> (\<And>x. r = Inr x \<Longrightarrow> f x = Inr y \<Longrightarrow> thesis) \<Longrightarrow> thesis"
  by (auto simp: rbind_ok)

lemma kind_of_coerce: "coerce_enum NODE_KINDS (from_sql x) = Inr k \<Longrightarrow> x = SText (node_kind_value k)"
  by (cases x) (auto simp: coerce_enum_def NODE_KINDS_def split: option.splits if_splits)

lemma node_of_row_fields:
  assumes "node_of_row r = Inr n"
  shows "require_text (from_sql (r ''id'')) = Inr (wn_id n)" "coerce_enum NODE_KINDS (from_sql (r ''kind'')) = Inr (wn_kind n)"
  using assms unfolding node_of_row_def by (elim rbind_okE; simp only: sum.inject; hypsubst; simp only: work_node.simps)+

lemma node_of_row_cols:
  assumes "node_of_row r = Inr n"
  shows "r ''id'' = SText (wn_id n)" "r ''kind'' = SText ''approval'' \<longleftrightarrow> wn_kind n = ApprovalNode"
proof -
  note f = node_of_row_fields [OF assms]
  show "r ''id'' = SText (wn_id n)" using f(1) by (cases "r ''id''") (simp_all add: require_text_def split: if_splits)
  show "r ''kind'' = SText ''approval'' \<longleftrightarrow> wn_kind n = ApprovalNode"
    unfolding kind_of_coerce [OF f(2)] by (cases "wn_kind n") simp_all
qed

lemma get_graph_nodes:
  assumes "get_graph gid d = Inr g" "n \<in> set (wg_nodes g)"
  obtains r where "r \<in> set (d ''work_nodes'')" "r ''graph_id'' = SText gid" "node_of_row r = Inr n"
proof -
  from assms(1) obtain gr where "graph_of_rows gr (node_rows gid d) (edge_rows gid d) = Inr g"
    by (auto simp: get_graph_def split: option.splits)
  then obtain ns where ns: "rmap node_of_row (node_rows gid d) = Inr ns" "wg_nodes g = ns"
    unfolding graph_of_rows_def mk_graph_def by (elim rbind_okE; simp only: sum.inject; hypsubst; simp only: work_graph.simps)
  from rmap_ok [OF ns(1)] assms(2) ns(2) obtain r where "r \<in> set (node_rows gid d)" "node_of_row r = Inr n"
    by (auto simp: in_set_conv_nth)
  then show thesis by (intro that) (auto simp: node_rows_def select_by_def)
qed

definition kinds_ok :: "work_node list \<Rightarrow> db \<Rightarrow> bool" where
  "kinds_ok ns d \<longleftrightarrow> (\<forall>n \<in> set ns. wn_kind n = ApprovalNode \<longrightarrow>
     (\<forall>r \<in> set (d ''work_nodes''). r ''id'' = SText (wn_id n) \<longrightarrow> r ''kind'' = SText ''approval''))"

lemma kinds_moves: "node_moves up d d' \<Longrightarrow> kinds_ok ns d \<Longrightarrow> kinds_ok ns d'"
  unfolding kinds_ok_def
proof (intro ballI impI)
  fix n r'
  assume m: "node_moves up d d'" and n: "n \<in> set ns" "wn_kind n = ApprovalNode"
    and k: "\<forall>n \<in> set ns. wn_kind n = ApprovalNode \<longrightarrow>
      (\<forall>r \<in> set (d ''work_nodes''). r ''id'' = SText (wn_id n) \<longrightarrow> r ''kind'' = SText ''approval'')"
    and r': "r' \<in> set (d' ''work_nodes'')" "r' ''id'' = SText (wn_id n)"
  from m r'(1) obtain r where "r \<in> set (d ''work_nodes'')" "row_move up r r'" by (rule moves_back)
  with k n r'(2) show "r' ''kind'' = SText ''approval''" by (simp add: row_move_def)
qed

lemma kinds_of_graph:
  assumes "get_graph gid d = Inr g" "ids_ok R d"
  shows "kinds_ok (wg_nodes g) d" "\<forall>n \<in> set (wg_nodes g). rt_scrub R (wn_id n) = wn_id n"
proof -
  show "kinds_ok (wg_nodes g) d"
    unfolding kinds_ok_def
  proof (intro ballI impI)
    fix n r
    assume n: "n \<in> set (wg_nodes g)" "wn_kind n = ApprovalNode" and r: "r \<in> set (d ''work_nodes'')" "r ''id'' = SText (wn_id n)"
    from assms(1) n(1) obtain r0 where r0: "r0 \<in> set (d ''work_nodes'')" "node_of_row r0 = Inr n" by (rule get_graph_nodes)
    have "r0 = r" using assms(2) r r0(1) node_of_row_cols(1) [OF r0(2)] by (auto simp: ids_ok_def distinct_map inj_on_def)
    then show "r ''kind'' = SText ''approval''" using node_of_row_cols(2) [OF r0(2)] n(2) by simp
  qed
  show "\<forall>n \<in> set (wg_nodes g). rt_scrub R (wn_id n) = wn_id n"
  proof
    fix n
    assume "n \<in> set (wg_nodes g)"
    with assms(1) obtain r0 where r0: "r0 \<in> set (d ''work_nodes'')" "node_of_row r0 = Inr n" by (rule get_graph_nodes)
    with assms(2) node_of_row_cols(1) [OF r0(2)] show "rt_scrub R (wn_id n) = wn_id n" by (auto simp: ids_ok_def)
  qed
qed

lemma by_service_moves: "keeps ''work_nodes'' m \<Longrightarrow> wdb (fst (snd (by_service m wb))) ''work_nodes'' = wdb (fst wb) ''work_nodes''"
  by (cases wb) (simp add: by_service_def keeps_def case_prod_beta)

lemma refresh_node_moves:
  assumes "keeps_node_words R" "rt_scrub R (wn_id n) = wn_id n" "kinds_ok [n] (wdb (fst wb))"
  shows "node_moves False (wdb (fst wb)) (wdb (fst (snd (refresh_node R Ks gid n wb))))"
proof (cases "wn_kind n = ApprovalNode")
  case True
  have em: "node_moves False (wdb w) (wdb (snd (emit_node_status R K (wn_id n) st' w)))"
    if "kinds_ok [n] (wdb w)" for K st' w
    using that True by (intro emit_status_at [OF assms(1,2)]) (simp add: kinds_ok_def)
  have bs: "node_moves False (wdb (fst wb)) (wdb (fst (snd (by_service (assert_digest R K i dg) wb))))" for K i dg
    by (intro moves_same by_service_moves keeps_assert_digest)
  have st: "node_moves False (wdb (fst v)) (wdb (fst (snd (by_store (emit_node_status R K (wn_id n) st') v))))"
    if "kinds_ok [n] (wdb (fst v))" for K st' v
    using em [OF that] by (cases v) (simp add: by_store_def case_prod_beta)
  show ?thesis
  proof (cases "latest_approval_id gid (wn_id n) (wdb (fst wb))")
    case None
    with True show ?thesis by (simp add: refresh_node_def st_bind_def st_get_def st_ret_def moves_same)
  next
    case (Some aid)
    obtain r1 v where v: "by_service (assert_digest R (fst (Ks (wn_id n))) aid
        (digest_of_scope R (oget_or (wn_metadata n) ''scope'' (JObj [])))) wb = (r1, v)" 
      by (cases "by_service (assert_digest R (fst (Ks (wn_id n))) aid
        (digest_of_scope R (oget_or (wn_metadata n) ''scope'' (JObj [])))) wb")
    from bs have m: "node_moves False (wdb (fst wb)) (wdb (fst v))" using v by (metis snd_conv)
    from st [OF kinds_moves [OF m assms(3)]]
    have m2: "node_moves False (wdb (fst wb)) (wdb (fst (snd (by_store (emit_node_status R K (wn_id n) st') v))))" for K st'
      by (rule moves_trans [OF m])
    show ?thesis
      using True Some v m m2
      by (auto simp: refresh_node_def st_bind_def st_get_def st_ret_def st_lift_def split: sum.splits prod.splits)
  qed
qed (simp add: refresh_node_def st_ret_def moves_same)

lemma refresh_nodes_moves:
  assumes "keeps_node_words R" "\<forall>n \<in> set ns. rt_scrub R (wn_id n) = wn_id n" "kinds_ok ns (wdb (fst wb))"
  shows "node_moves False (wdb (fst wb)) (wdb (fst (snd (st_for (refresh_node R Ks gid) ns wb))))"
  using assms
proof (induction ns arbitrary: wb)
  case (Cons n ns)
  obtain r v where v: "refresh_node R Ks gid n wb = (r, v)" by (cases "refresh_node R Ks gid n wb")
  have "node_moves False (wdb (fst wb)) (wdb (fst (snd (refresh_node R Ks gid n wb))))"
    using Cons.prems by (intro refresh_node_moves) (simp_all add: kinds_ok_def)
  then have m: "node_moves False (wdb (fst wb)) (wdb (fst v))" by (simp add: v)
  have "kinds_ok ns (wdb (fst wb))" using Cons.prems(3) by (simp add: kinds_ok_def)
  from Cons.IH [OF Cons.prems(1) _ kinds_moves [OF m this]] Cons.prems(2)
  have "node_moves False (wdb (fst v)) (wdb (fst (snd (st_for (refresh_node R Ks gid) ns v))))" by simp
  with m have "node_moves False (wdb (fst wb)) (wdb (fst (snd (st_for (refresh_node R Ks gid) ns v))))" by (rule moves_trans)
  with m v show ?case by (auto split: sum.splits)
qed (simp add: moves_same)

lemma refresh_moves:
  assumes "keeps_node_words R" "ids_ok R (wdb w)"
  shows "node_moves False (wdb w) (wdb (snd (refresh_readiness R Ks gid w)))"
proof (cases "get_graph gid (wdb w)")
  case (Inl e)
  then show ?thesis by (simp add: refresh_readiness_def st_bind_def st_get_def st_lift_def moves_same)
next
  case (Inr g)
  from refresh_nodes_moves [OF assms(1) kinds_of_graph(2) [OF Inr assms(2)], of "(w, False)" Ks gid] kinds_of_graph(1) [OF Inr assms(2)]
  have "node_moves False (wdb w) (wdb (fst (snd (st_for (refresh_node R Ks gid) (wg_nodes g) (w, False)))))" by simp
  then show ?thesis
    by (simp add: refresh_readiness_def st_bind_def st_get_def st_lift_def Inr case_prod_beta)
qed

section \<open>A node that is done\<close>

definition completes :: "string \<Rightarrow> (sup, run_summary option) st \<Rightarrow> bool" where
  "completes nid m \<longleftrightarrow> (\<forall>s s'. m s = (Inr None, s') \<longrightarrow> nid \<notin> waiting (wdb (sv_world s')))"

named_theorems completing \<open>computations that return nothing only when a node is done\<close>

lemma completes_bind [completing]: "(\<And>x. completes nid (f x)) \<Longrightarrow> completes nid (st_bind m f)"
  by (auto simp: completes_def st_bind_ok)

lemma completes_some [completing]: "completes nid (st_ret (Some x))" "completes nid (st_raise e)"
  by (simp_all add: completes_def st_ret_def st_raise_def)

lemma completes_if [completing]: "completes nid a \<Longrightarrow> completes nid b \<Longrightarrow> completes nid (if c then a else b)"
  by simp

lemma completes_prod [completing]: "(\<And>x y. completes nid (f x y)) \<Longrightarrow> completes nid (case p of (x, y) \<Rightarrow> f x y)"
  by (cases p) simp

lemma on_world_ok: "on_world m s = (Inr x, s') \<longleftrightarrow> (\<exists>w. m (sv_world s) = (Inr x, w) \<and> s' = s\<lparr>sv_world := w\<rparr>)"
  by (auto simp: on_world_def split: prod.splits)

lemma tick_ok: "tick s = (Inr k, s') \<longleftrightarrow> k = sv_tick s \<and> s' = s\<lparr>sv_tick := Suc (sv_tick s)\<rparr>"
  by (auto simp: tick_def)

lemma modify_ok: "modify f s = (Inr u, s') \<longleftrightarrow> s' = f s"
  by (auto simp: modify_def)

lemma set_status_ok:
  assumes "set_status E nid st' v s = (Inr u, s')" "keeps_node_words (se_rt E)" "rt_scrub (se_rt E) nid = nid"
  shows "wdb (sv_world s') ''work_nodes'' = map (\<lambda>r. if r ''id'' = SText nid then bump_version (r(''status'' := SText (node_status_value st'))) else r)
      (wdb (sv_world s) ''work_nodes'')"
    and "\<forall>q. q \<notin> {''memory_events'', ''work_nodes''} \<longrightarrow> wdb (sv_world s') q = wdb (sv_world s) q"
    and "node_state_version nid (wdb (sv_world s)) = Inr v"
proof -
  from assms(1) obtain K w where m: "set_node_status (se_rt E) K nid (JStr (node_status_value st')) v (sv_world s) = (Inr u, w)"
    and s': "sv_world s' = w"
    by (auto simp: set_status_def store_op_def st_bind_ok tick_ok on_world_ok)
  then have e: "emit_node_status (se_rt E) K nid st' (sv_world s) = (Inr u, w)" and v: "node_state_version nid (wdb (sv_world s)) = Inr v"
    by (auto simp: set_node_status_def check_version_def st_bind_ok st_lift_def st_get_def raise_unless_def st_ret_def st_raise_def
        split: if_splits)
  from emit_node_status_ok(2,3) [OF e assms(2,3)] v
  show "wdb (sv_world s') ''work_nodes'' = map (\<lambda>r. if r ''id'' = SText nid then bump_version (r(''status'' := SText (node_status_value st'))) else r)
      (wdb (sv_world s) ''work_nodes'')"
    and "\<forall>q. q \<notin> {''memory_events'', ''work_nodes''} \<longrightarrow> wdb (sv_world s') q = wdb (sv_world s) q"
    and "node_state_version nid (wdb (sv_world s)) = Inr v"
    by (simp_all add: s')
qed

lemma not_waiting_after:
  assumes "d ''work_nodes'' = map (\<lambda>r. if r ''id'' = SText nid then bump_version (r(''status'' := SText (node_status_value NCompleted))) else r) rows"
  shows "nid \<notin> waiting d"
proof
  assume "nid \<in> waiting d"
  then obtain r' where "r' \<in> set (d ''work_nodes'')" "r' ''id'' = SText nid" "r' ''status'' = SText ''pending''"
    by (auto simp: waiting_def)
  then show False by (auto simp: assms bump_version_def split: if_splits)
qed

lemma completes_node [completing]:
  assumes "keeps_node_words (se_rt E)" "rt_scrub (se_rt E) nid = nid"
  shows "completes nid (st_bind (complete_node E nid v) (\<lambda>_. st_ret None))"
proof -
  have "nid \<notin> waiting (wdb (sv_world s'))" if c: "complete_node E nid v s = (Inr u, s')" for s u s'
  proof -
    from c obtain s1 where s1: "set_status E nid NCompleted v s = (Inr (), s1)" "wdb (sv_world s') = wdb (sv_world s1)"
      by (auto simp: complete_node_def st_bind_ok modify_ok)
    show ?thesis unfolding s1(2) by (rule not_waiting_after) (rule set_status_ok(1) [OF s1(1) assms])
  qed
  then show ?thesis by (auto simp: completes_def st_bind_ok st_ret_def)
qed

lemma completes_attempt:
  assumes "keeps_node_words (se_rt E)" "rt_scrub (se_rt E) (wn_id n) = wn_id n"
  shows "completes (wn_id n) (attempt_once E gid n cid v)"
  unfolding attempt_once_def settle_def Let_def by (intro completing assms)

lemma completes_attempts:
  assumes "keeps_node_words (se_rt E)" "rt_scrub (se_rt E) (wn_id n) = wn_id n"
    and "attempts E gid n cid v b k err s = (Inr NodeDone, s')"
  shows "wn_id n \<notin> waiting (wdb (sv_world s'))"
  using assms(3)
proof (induction k arbitrary: err s)
  case 0
  then show ?case by (simp add: st_ret_def)
next
  case (Suc k)
  from Suc.prems obtain x s1 where x: "st_catch retried
         (st_bind (attempt_once E gid n cid v) (\<lambda>x. st_ret (Inr (case x of None \<Rightarrow> NodeDone | Some r \<Rightarrow> Return r))))
         (\<lambda>e. st_bind (wait b k) (\<lambda>_. st_ret (Inl e))) s = (Inr x, s1)"
    and rest: "(case x of Inr o' \<Rightarrow> st_ret o' | Inl e \<Rightarrow> attempts E gid n cid v b k (Some e)) s1 = (Inr NodeDone, s')"
    by (auto simp: st_bind_ok)
  show ?case
  proof (cases x)
    case (Inl e)
    with rest Suc.IH show ?thesis by simp
  next
    case (Inr o')
    with rest have "o' = NodeDone" "s1 = s'" by (simp_all add: st_ret_def)
    with x Inr obtain y where "attempt_once E gid n cid v s = (Inr y, s')" "(case y of None \<Rightarrow> NodeDone | Some r \<Rightarrow> Return r) = NodeDone"
      by (auto simp: st_catch_def st_bind_def st_ret_def split: prod.splits sum.splits if_splits option.splits)
    with completes_attempt [OF assms(1,2)] show ?thesis by (auto simp: completes_def split: option.splits)
  qed
qed

lemma completes_run_task:
  assumes "keeps_node_words (se_rt E)" "rt_scrub (se_rt E) (wn_id n) = wn_id n"
  shows "completes (wn_id n) (run_task E gid n v)"
proof -
  have "completes (wn_id n) (run_attempts E gid n v)"
    unfolding completes_def
  proof (intro allI impI)
    fix s s'
    assume "run_attempts E gid n v s = (Inr None, s')"
    then obtain b k o' s1 where a: "attempts E gid n (hd (required n)) v b k None s1 = (Inr o', s')" "o' = NodeDone"
      unfolding run_attempts_def by (elim st_bind_okE) (auto simp: st_ret_def st_bind_ok split: outcome.splits)
    from completes_attempts [OF assms a(1) [unfolded a(2)]] show "wn_id n \<notin> waiting (wdb (sv_world s'))" .
  qed
  then show ?thesis
    unfolding run_task_def run_bare_def over_budget_def by (intro completing assms)
qed

lemma read_ok: "read f s = (Inr x, s') \<longleftrightarrow> f (wdb (sv_world s)) = Inr x \<and> s' = s"
  by (auto simp: read_def)

lemma stored_node_row:
  assumes "stored_node nid d = Inr (n, st', v)"
  obtains r where "r \<in> set (d ''work_nodes'')" "r ''id'' = SText nid" "node_of_row r = Inr n" "wn_id n = nid"
proof -
  from assms obtain r where r: "node_row nid d = Some r" "node_of_row r = Inr n"
    by (auto simp: stored_node_def rbind_ok split: option.splits)
  with first_by_key have k: "r \<in> set (d ''work_nodes'')" "r ''id'' = SText nid" by (fastforce simp: node_row_def)+
  from node_of_row_cols(1) [OF r(2)] k(2) have "wn_id n = nid" by simp
  with k r(2) show thesis by (intro that [of r]) simp_all
qed

text \<open>A node the loop goes past was no approval node and is done.\<close>

lemma run_node_done:
  assumes "run_node E gid nid s = (Inr None, s')" "keeps_node_words (se_rt E)" "ids_ok (se_rt E) (wdb (sv_world s))"
  obtains n st' v where "stored_node nid (wdb (sv_world s)) = Inr (n, st', v)" "wn_kind n \<noteq> ApprovalNode"
    "nid \<notin> waiting (wdb (sv_world s'))"
proof -
  from assms(1) obtain n st' v s1 ok where sn: "stored_node nid (wdb (sv_world s)) = Inr (n, st', v)"
    and rest: "(if wn_kind n = ApprovalNode then ask_human E gid n v ''approval_node'' ''approval''
     else st_bind (if wn_approval n then task_approval_current E gid n else st_ret True) (\<lambda>ok.
       if \<not> ok then ask_human E gid n v ''approval_required'' ''approval_required'' else run_task E gid n v)) s = (Inr None, s')"
    unfolding run_node_def by (elim st_bind_okE) (auto simp: read_ok)
  have ask: "\<not> ask_human E gid n v k r t = (Inr None, s')" for k r t
    by (auto simp: ask_human_def st_bind_ok st_ret_def)
  obtain r where r: "r \<in> set (wdb (sv_world s) ''work_nodes'')" "r ''id'' = SText nid" "wn_id n = nid"
    using sn by (rule stored_node_row)
  with assms(3) have sc: "rt_scrub (se_rt E) (wn_id n) = wn_id n" by (auto simp: ids_ok_def)
  have k: "wn_kind n \<noteq> ApprovalNode" using rest ask by auto
  with rest obtain ok t where "(if \<not> ok then ask_human E gid n v ''approval_required'' ''approval_required'' else run_task E gid n v) t = (Inr None, s')"
    by (auto simp: st_bind_ok)
  with ask have "run_task E gid n v t = (Inr None, s')" by (cases ok) simp_all
  with completes_run_task [OF assms(2) sc] r(3) have "nid \<notin> waiting (wdb (sv_world s'))" by (auto simp: completes_def)
  with sn k show thesis by (rule that)
qed

lemma store_ready_pending:
  assumes "store_ready_node_ids gid d = Inr ready" "nid \<in> set ready" "ids_ok R d"
  obtains r where "r \<in> set (d ''work_nodes'')" "r ''id'' = SText nid" "r ''status'' = SText ''pending''"
proof -
  from assms(1) obtain g where g: "get_graph gid d = Inr g" "ready_with_approvals g (node_statuses gid d) = Inr ready"
    by (auto simp: store_ready_node_ids_def rbind_ok)
  then have "nid \<in> set (map wn_id (wg_nodes g))" "status_of (node_statuses gid d) nid = ''pending''"
    using assms(2) by (auto simp: ready_with_approvals_def ready_node_ids_def ready_nodes_def ready_approvals_def rbind_ok split: option.splits)
  then obtain n where n: "n \<in> set (wg_nodes g)" "wn_id n = nid" and st: "status_of (node_statuses gid d) nid = ''pending''" by auto
  from g(1) n(1) obtain r where r: "r \<in> set (d ''work_nodes'')" "r ''graph_id'' = SText gid" "node_of_row r = Inr n"
    by (rule get_graph_nodes)
  have i: "r ''id'' = SText nid" using node_of_row_cols(1) [OF r(3)] n(2) by simp
  let ?rs = "filter (\<lambda>r. r ''graph_id'' = SText gid) (d ''work_nodes'')"
  have inj: "inj_on (\<lambda>r. stext (r ''id'')) (set (d ''work_nodes''))"
  proof (rule inj_onI)
    fix x y
    assume x: "x \<in> set (d ''work_nodes'')" "y \<in> set (d ''work_nodes'')" "stext (x ''id'') = stext (y ''id'')"
    with assms(3) obtain a b where "x ''id'' = SText a" "y ''id'' = SText b" unfolding ids_ok_def by blast
    with x(3) have "x ''id'' = y ''id''" by simp
    with x(1,2) assms(3) show "x = y" by (auto simp: ids_ok_def distinct_map inj_on_def)
  qed
  have dist: "distinct (d ''work_nodes'')" using assms(3) by (simp add: ids_ok_def distinct_map)
  have "distinct (map (\<lambda>r. stext (r ''id'')) ?rs)"
    unfolding distinct_map using dist inj by (auto intro: inj_on_subset)
  then have "distinct (map fst (node_statuses gid d))"
    by (simp add: node_statuses_def select_by_def comp_def rev_map [symmetric])
  moreover have "(nid, stext (r ''status'')) \<in> set (node_statuses gid d)"
    using r(1,2) i by (auto simp: node_statuses_def select_by_def image_iff intro!: bexI [of _ r])
  ultimately have "map_of (node_statuses gid d) nid = Some (stext (r ''status''))" by simp
  with st have "stext (r ''status'') = ''pending''" by (simp add: status_of_def)
  then have "r ''status'' = SText ''pending''" by (cases "r ''status''") simp_all
  with r(1) i show thesis by (rule that)
qed

end
