(* ===== verification/Run_Returns.thy ===== *)
theory Run_Returns
  imports Run_Ends Work_Examples
begin

text \<open>
  Every run of the supervisor returns: a pass that does not return leaves one node fewer to
  be tried, so that the fuel of the model is never used up.
\<close>

lemma pass_waits_less:
  assumes "run_pass E gid s = (Inr None, s')" "keeps_node_words (se_rt E)" "ids_ok (se_rt E) (wdb (sv_world s))"
  shows "card (waiting (wdb (sv_world s'))) < card (waiting (wdb (sv_world s)))"
    and "ids_ok (se_rt E) (wdb (sv_world s'))"
proof -
  from assms(1) obtain k w ready where r: "refresh_readiness (se_rt E) (se_refresh E k) gid (sv_world s) = (Inr (), w)"
    and ready: "store_ready_node_ids gid (wdb w) = Inr ready" "ready \<noteq> []"
    and rest: "run_ready E gid ready (s\<lparr>sv_tick := Suc (sv_tick s), sv_world := w\<rparr>) = (Inr None, s')"
    unfolding run_pass_def
    by (elim st_bind_okE) (auto simp: tick_ok on_world_ok read_ok st_bind_ok st_ret_def split: if_splits)
  let ?s = "s\<lparr>sv_tick := Suc (sv_tick s), sv_world := w\<rparr>"
  have m1: "node_moves False (wdb (sv_world s)) (wdb w)"
    using refresh_moves [OF assms(2,3), of "se_refresh E k" gid] by (simp add: r)
  then have ids: "ids_ok (se_rt E) (wdb (sv_world ?s))" using ids_moves [OF _ assms(3)] by simp
  obtain nid nids where nn: "ready = nid # nids" using ready(2) by (cases ready) auto
  with rest obtain s1 where s1: "run_node E gid nid ?s = (Inr None, s1)" "run_ready E gid nids s1 = (Inr None, s')"
    by (auto simp: st_bind_ok st_ret_def split: option.splits)
  obtain n st' v where n: "stored_node nid (wdb (sv_world ?s)) = Inr (n, st', v)" "wn_kind n \<noteq> ApprovalNode"
    and gone: "nid \<notin> waiting (wdb (sv_world s1))" by (rule run_node_done [OF s1(1) assms(2) ids])
  have m2: "node_moves False (wdb w) (wdb (sv_world s1))"
    using moving_run_node [OF assms(2), of False gid nid] s1(1) unfolding moving_def
    by (metis snd_conv sup.select_convs(1) sup.surjective sup.update_convs(1))
  have m3: "node_moves False (wdb (sv_world s1)) (wdb (sv_world s'))"
    using moving_run_ready [OF assms(2), of False gid nids] s1(2) unfolding moving_def by (metis snd_conv)
  obtain r0 where r0: "r0 \<in> set (wdb w ''work_nodes'')" "r0 ''id'' = SText nid" "node_of_row r0 = Inr n"
    using n(1) by (rule stored_node_row) simp
  obtain r1 where r1: "r1 \<in> set (wdb w ''work_nodes'')" "r1 ''id'' = SText nid" "r1 ''status'' = SText ''pending''"
    by (rule store_ready_pending [OF ready(1), of nid "se_rt E"]) (use nn ids in simp_all)
  have "r0 = r1" using ids r0 r1 by (auto simp: ids_ok_def distinct_map inj_on_def)
  with r1 n(2) node_of_row_cols(2) [OF r0(3)] have "nid \<in> waiting (wdb w)" by (auto simp: waiting_def)
  moreover have "waiting (wdb w) \<subseteq> waiting (wdb (sv_world s))" by (rule waiting_moves [OF m1])
  moreover have "waiting (wdb (sv_world s1)) \<subseteq> waiting (wdb w)" by (rule waiting_moves [OF m2])
  moreover have "waiting (wdb (sv_world s')) \<subseteq> waiting (wdb (sv_world s1))" by (rule waiting_moves [OF m3])
  ultimately have "waiting (wdb (sv_world s')) \<subset> waiting (wdb (sv_world s))" using gone by blast
  then show "card (waiting (wdb (sv_world s'))) < card (waiting (wdb (sv_world s)))" by (rule psubset_card_mono [OF waiting_finite])
  from ids_moves [OF moves_trans [OF m2 m3]] ids show "ids_ok (se_rt E) (wdb (sv_world s'))" by simp
qed

lemma loop_returns:
  assumes "keeps_node_words (se_rt E)" "ids_ok (se_rt E) (wdb (sv_world s))" "card (waiting (wdb (sv_world s))) < fuel"
  shows "fst (run_loop E gid fuel s) \<noteq> Inr None"
  using assms(2,3)
proof (induction fuel arbitrary: s)
  case (Suc fuel)
  show ?case
  proof (cases "run_pass E gid s")
    case (Pair r s1)
    show ?thesis
    proof (cases "r = Inr None")
      case True
      with pass_waits_less [OF Pair [unfolded True] assms(1) Suc.prems(1)] Suc.prems(2)
      have "fst (run_loop E gid fuel s1) \<noteq> Inr None" by (intro Suc.IH) simp_all
      with Pair True show ?thesis by (simp add: st_bind_def)
    qed (use Pair in \<open>auto simp: st_bind_def st_ret_def split: sum.splits option.splits\<close>)
  qed
qed simp

lemma moving_unblock: "keeps_node_words (se_rt E) \<Longrightarrow> moving True (unblock_task_nodes E gid)"
  unfolding unblock_task_nodes_def unblock_node_def by (intro moves) simp_all

lemma run_not_out:
  assumes "keeps_node_words (se_rt E)" "ids_ok (se_rt E) (wdb (sv_world s))"
  shows "fst (run E gid s) \<noteq> Inr None"
proof
  assume "fst (run E gid s) = Inr None"
  then obtain s' where "run E gid s = (Inr None, s')" by (cases "run E gid s") simp
  then obtain s1 s2 u v where 1: "unblock_task_nodes E gid s = (Inr u, s1)" and 2: "set_graph E gid ''running'' s1 = (Inr v, s2)"
    and 3: "run_loop E gid (Suc (length (wdb (sv_world s2) ''work_nodes''))) (s2\<lparr>sv_completed := [], sv_failed := [], sv_blocked := []\<rparr>)
      = (Inr None, s')"
    unfolding run_def by (elim st_bind_okE) (auto simp: modify_ok st_bind_ok st_get_def)
  have "node_moves True (wdb (sv_world s)) (wdb (sv_world s1))"
    using moving_unblock [OF assms(1), of gid] 1 unfolding moving_def by (metis snd_conv)
  moreover have "node_moves True (wdb (sv_world s1)) (wdb (sv_world s2))"
    using moving_set_graph [of True E gid] 2 unfolding moving_def by (metis snd_conv)
  ultimately have "node_moves True (wdb (sv_world s)) (wdb (sv_world s2))" by (rule moves_trans)
  then have "ids_ok (se_rt E) (wdb (sv_world s2))" using ids_moves assms(2) by blast
  with waiting_card [of "wdb (sv_world s2)"]
  have "fst (run_loop E gid (Suc (length (wdb (sv_world s2) ''work_nodes''))) (s2\<lparr>sv_completed := [], sv_failed := [], sv_blocked := []\<rparr>)) \<noteq> Inr None"
    by (intro loop_returns [OF assms(1)]) simp_all
  with 3 show False by simp
qed

lemma loop_more_fuel: "fst (run_loop E gid fuel s) \<noteq> Inr None \<Longrightarrow> run_loop E gid (fuel + k) s = run_loop E gid fuel s"
proof (induction fuel arbitrary: s)
  case (Suc fuel)
  then show ?case
    by (auto simp: st_bind_def split: prod.splits sum.splits option.splits)
qed (simp add: st_ret_def)

text \<open>C22: Every run returns. On a table of nodes with distinct ids that redaction keeps, a run ends with a
  summary or an exception, whatever the adapters, the approvals, the policy and the clock do: the model never uses
  up its fuel, and more passes than the table has rows change nothing, so that the bounded loop is the loop of the
  code.\<close>

theorem run_returns:
  assumes "keeps_node_words (se_rt E)" and "ids_ok (se_rt E) (wdb (sv_world s))"
  shows "((\<exists>e. fst (run E gid s) = Inl e) \<or> (\<exists>x. fst (run E gid s) = Inr (Some x)))
    \<and> run_loop E gid (Suc (length (wdb (sv_world s) ''work_nodes'')) + k) s
       = run_loop E gid (Suc (length (wdb (sv_world s) ''work_nodes''))) s"
proof (rule conjI)
  have "fst (run E gid s) \<noteq> Inr None" by (rule run_not_out [OF assms])
  then show "(\<exists>e. fst (run E gid s) = Inl e) \<or> (\<exists>x. fst (run E gid s) = Inr (Some x))"
    by (cases "fst (run E gid s)"; cases "projr (fst (run E gid s))") auto
  show "run_loop E gid (Suc (length (wdb (sv_world s) ''work_nodes'')) + k) s
      = run_loop E gid (Suc (length (wdb (sv_world s) ''work_nodes''))) s"
    using waiting_card [of "wdb (sv_world s)"] by (intro loop_more_fuel loop_returns assms) simp
qed

end
