(* ===== verification/Run_Jobs.thy ===== *)
theory Run_Jobs
  imports Supervisor Work_Examples
begin

text \<open>
  The projects the supervisor is run on in the examples: a graph of one pending task without a
  registered capability, and the same graph with an approved tool whose result has the
  declared output and evidence, one attempt of which is evaluated here.
\<close>

definition run_world :: world where
  "run_world = world0\<lparr>wdb := (\<lambda>_. [])(
     ''work_graphs'' := [(\<lambda>_. SNull)(''id'' := SText ''g'', ''objective'' := SText ''ship'', ''status'' := SText ''ready'', ''version'' := SInt 1,
       ''constraints_json'' := SText ''[]'', ''success_criteria_json'' := SText ''[]'', ''created_at'' := SText ''t'', ''updated_at'' := SText ''t'')],
     ''work_nodes'' := [build_row(''graph_id'' := SText ''g'', ''status'' := SText ''pending'')])\<rparr>"

definition run_env :: env where
  "run_env = \<lparr>se_rt = rt0, se_root = ''/p'', se_files = (\<lambda>_. None), se_disk = (\<lambda>_ _. None), se_adapters = ADAPTERS,
     se_clock = (\<lambda>_. clock0), se_refresh = (\<lambda>_ _. (clock0, clock0)),
     se_lease = (\<lambda>_. \<lparr>lt_sweep = ''2025'', lt_id = ''l'', lt_until = ''2026'', lt_package_until = ''2026''\<rparr>),
     se_invoke = (\<lambda>_ _ _. Inr (failed_result ''down'')), se_remote = (\<lambda>_ _ _. Inl (RuntimeError ''down''))\<rparr>"

definition no_budget :: budget where
  "no_budget = \<lparr>bt_usd_max = 0, bt_in_max = 0, bt_out_max = 0, bt_usd = 0, bt_in = 0, bt_out = 0\<rparr>"

definition run_sup :: sup where
  "run_sup = \<lparr>sv_world = run_world, sv_budget = no_budget, sv_tick = 0, sv_calls = [], sv_sleeps = [], sv_completed = [],
     sv_failed = [], sv_blocked = []\<rparr>"

definition job_node :: work_node where
  "job_node = build_node\<lparr>wn_requires := [JStr ''t''], wn_outputs := [JStr ''o'']\<rparr>"

definition job_env :: env where
  "job_env = run_env\<lparr>se_disk := (\<lambda>_. tool_disk),
     se_files := [''/p/.shiroe/policy/defaults.json'' \<mapsto> ''{\"allow\":[\"capability.invoke\"]}''],
     se_invoke := (\<lambda>_ _ _. Inr \<lparr>ar_ok = True, ar_output = JObj [(''o'', JInt 1), (''evidence'', JStr ''e'')], ar_error = None,
       ar_exit = Some 0, ar_stderr = None, ar_metadata = [], ar_usage = None\<rparr>)\<rparr>"

definition job_sup :: sup where
  "job_sup = run_sup\<lparr>sv_world := run_world\<lparr>wdb := (wdb run_world)(''capabilities'' := [tool_row ''active''],
     ''capability_versions'' := [tool_version])\<rparr>\<rparr>"

lemma job_done: "(case fst (attempt_once job_env ''g'' job_node ''t'' 3 job_sup) of Inl e \<Rightarrow> False | Inr x \<Rightarrow> x = None)"
  by code_simp

end
