(* ===== verification/Run_Examples.thy ===== *)
theory Run_Examples
  imports Run_Returns Run_Jobs
begin

text \<open>The properties of the supervisor at a concrete project: a graph of one pending task.\<close>

lemma run_ids: "ids_ok (se_rt run_env) (wdb (sv_world run_sup))" "keeps_node_words (se_rt run_env)"
  by (simp_all add: run_env_def words0 ids_ok_def run_sup_def run_world_def build_row_def)

lemma run_waits: "waiting (wdb (sv_world run_sup)) = {''build''}"
  by (auto simp: waiting_def run_sup_def run_world_def build_row_def)

theorem run_returns_witness:
  "waiting (wdb (sv_world run_sup)) = {''build''}
   \<and> ((\<exists>e. fst (run run_env ''g'' run_sup) = Inl e) \<or> (\<exists>x. fst (run run_env ''g'' run_sup) = Inr (Some x)))
   \<and> run_loop run_env ''g'' 7 run_sup = run_loop run_env ''g'' 2 run_sup"
proof -
  have "Suc (length (wdb (sv_world run_sup) ''work_nodes'')) = 2" by (simp add: run_sup_def run_world_def)
  with run_returns [OF run_ids(2,1), of "''g''" 5] show ?thesis by (simp add: run_waits)
qed

end
