(* ===== verification/Run_Bounds.thy ===== *)
theory Run_Bounds
  imports Run_Examples
begin

text \<open>
  The bound on what a node may cost: how often its capability is executed and how long the
  supervisor waits between the attempts.
\<close>

section \<open>Computations that execute nothing\<close>

definition quiet :: "(sup, 'a) st \<Rightarrow> bool" where
  "quiet m \<longleftrightarrow> (\<forall>s. sv_calls (snd (m s)) = sv_calls s \<and> sv_sleeps (snd (m s)) = sv_sleeps s)"

definition one_call :: "string \<times> string \<Rightarrow> (sup, 'a) st \<Rightarrow> bool" where
  "one_call p m \<longleftrightarrow> (\<forall>s. sv_calls (snd (m s)) \<in> {sv_calls s, sv_calls s @ [p]} \<and> sv_sleeps (snd (m s)) = sv_sleeps s)"

named_theorems quiets \<open>computations that start no execution and do not wait\<close>

lemma quiet_pure [quiets]:
  "quiet (st_ret x)" "quiet (st_raise e)" "quiet (st_lift r)" "quiet (st_get f)" "quiet (st_guard b e)"
  "quiet (read g)" "quiet tick" "quiet (on_world m)"
  by (simp_all add: quiet_def st_ret_def st_raise_def st_lift_def st_get_def st_guard_def read_def tick_def on_world_def split: prod.splits)

lemma quiet_modify: "(\<And>s. sv_calls (f s) = sv_calls s) \<Longrightarrow> (\<And>s. sv_sleeps (f s) = sv_sleeps s) \<Longrightarrow> quiet (modify f)"
  by (simp add: quiet_def modify_def)

lemma quiet_bind [quiets]: "quiet m \<Longrightarrow> (\<And>x. quiet (f x)) \<Longrightarrow> quiet (st_bind m f)"
  unfolding quiet_def st_bind_def by (auto split: prod.splits sum.splits) (metis snd_conv)+

lemma quiet_if [quiets]: "quiet a \<Longrightarrow> quiet b \<Longrightarrow> quiet (if c then a else b)"
  by simp

lemma quiet_option [quiets]: "quiet g \<Longrightarrow> (\<And>x. quiet (f x)) \<Longrightarrow> quiet (case o' of None \<Rightarrow> g | Some x \<Rightarrow> f x)"
  by (cases o') simp_all

lemma quiet_prod [quiets]: "(\<And>x y. quiet (f x y)) \<Longrightarrow> quiet (case p of (x, y) \<Rightarrow> f x y)"
  by (cases p) simp

lemma quiet_json [quiets]:
  "(\<And>x. quiet (f x)) \<Longrightarrow> (\<And>x. quiet (g x)) \<Longrightarrow> (\<And>x. quiet (h x)) \<Longrightarrow> quiet i \<Longrightarrow>
    quiet (case j of JStr x \<Rightarrow> f x | JList x \<Rightarrow> g x | JObj x \<Rightarrow> h x | _ \<Rightarrow> i)"
  by (cases j) simp_all

lemma quiet_catch [quiets]: "quiet m \<Longrightarrow> (\<And>e. quiet (h e)) \<Longrightarrow> quiet (st_catch p m h)"
  unfolding quiet_def st_catch_def by (auto split: prod.splits sum.splits) (metis snd_conv)+

lemma quiet_for [quiets]:
  assumes "\<And>x. quiet (f x)"
  shows "quiet (st_for f xs)"
proof -
  have "sv_calls (snd (st_for f xs s)) = sv_calls s \<and> sv_sleeps (snd (st_for f xs s)) = sv_sleeps s" for s
  proof (induction xs arbitrary: s)
    case (Cons x xs)
    have "sv_calls (snd (f x s)) = sv_calls s" "sv_sleeps (snd (f x s)) = sv_sleeps s" using assms by (simp_all add: quiet_def)
    with Cons.IH show ?case by (auto split: prod.splits sum.splits)
  qed simp
  then show ?thesis by (simp add: quiet_def)
qed

lemma one_quiet: "quiet m \<Longrightarrow> one_call p m"
  by (simp add: quiet_def one_call_def)

lemma one_then_quiet: "one_call p m \<Longrightarrow> (\<And>x. quiet (f x)) \<Longrightarrow> one_call p (st_bind m f)"
  unfolding quiet_def one_call_def st_bind_def by (auto split: prod.splits sum.splits) (metis snd_conv)+

lemma quiet_then_one: "quiet m \<Longrightarrow> (\<And>x. one_call p (f x)) \<Longrightarrow> one_call p (st_bind m f)"
  unfolding quiet_def one_call_def st_bind_def by (auto split: prod.splits sum.splits) (metis snd_conv)+

section \<open>One attempt\<close>

lemma quiet_ops [quiets]: "quiet (store_op E f)" "quiet (service_op E f)"
  unfolding store_op_def service_op_def by (intro quiets)+

lemma quiet_set_status [quiets]: "quiet (set_status E nid st' v)" "quiet (set_graph E gid status)"
  unfolding set_status_def set_graph_def by (intro quiets)+

lemma quiet_finish [quiets]: "quiet (finish E gid status reason pending)"
  unfolding finish_def by (intro quiets)

lemma quiet_pause [quiets]: "quiet (pause E gid nid v reason pending)"
  unfolding pause_def by (intro quiets quiet_modify) simp_all

lemma quiet_complete [quiets]: "quiet (complete_node E nid v)"
  unfolding complete_node_def by (intro quiets quiet_modify) simp_all

lemma quiet_attempt_rows [quiets]: "quiet (record_attempt E gid nid cid state)" "quiet (finish_attempt E aid state err usage)"
  unfolding record_attempt_def finish_attempt_def Let_def by (intro quiets)+

lemma quiet_gate [quiets]: "quiet (gate E cid)" "quiet (authorize_node E gid nid cid)"
  unfolding gate_def authorize_node_def by (intro quiets)+

lemma quiet_adapter [quiets]: "quiet (adapter_of E cid)" "quiet (call_adapter E iv)"
  unfolding adapter_of_def call_adapter_def by (intro quiets)+

lemma quiet_review [quiets]: "quiet (independent_review_passes E n)"
  unfolding independent_review_passes_def review_def reviewer_adapter_def Let_def by (intro quiets)

lemma quiet_check_result [quiets]: "quiet (check_result E n aid r)"
  unfolding check_result_def fail_attempt_def by (intro quiets)

lemma quiet_settle [quiets]: "quiet (settle E gid n aid r)"
  unfolding settle_def Let_def by (intro quiets quiet_modify) simp_all

lemma quiet_admit [quiets]: "quiet (admit E gid n cid)"
  unfolding admit_def by (intro quiets)

lemma one_log_call: "one_call (nid, cid) (log_call nid cid)"
  by (simp add: one_call_def log_call_def modify_def)

lemma one_execute: "one_call (wn_id n, cid) (execute E gid n cid inputs tmo)"
  unfolding execute_def
  by (auto intro!: one_then_quiet [OF one_log_call] quiet_then_one quiets)

lemma one_run_capability: "one_call (wn_id n, cid) (run_capability E gid n cid)"
  unfolding run_capability_def by (intro quiet_then_one one_then_quiet [OF one_execute] quiets)

lemma one_if: "one_call p a \<Longrightarrow> one_call p b \<Longrightarrow> one_call p (if c then a else b)"
  by simp

lemma one_attempt: "one_call (wn_id n, cid) (attempt_once E gid n cid v)"
  unfolding attempt_once_def
  by (intro quiet_then_one quiet_admit one_if one_then_quiet [OF one_run_capability]; (intro one_quiet)?; intro quiets)

section \<open>All attempts\<close>

lemma attempts_cost:
  "\<exists>i j. sv_calls (snd (attempts E gid n cid v b k err s)) = sv_calls s @ replicate i (wn_id n, cid)
     \<and> sv_sleeps (snd (attempts E gid n cid v b k err s)) = sv_sleeps s @ replicate j b \<and> i \<le> k \<and> j \<le> k - 1"
proof (induction k arbitrary: err s)
  case (Suc k)
  obtain r t where a: "attempt_once E gid n cid v s = (r, t)" by (cases "attempt_once E gid n cid v s")
  have t: "sv_calls t \<in> {sv_calls s, sv_calls s @ [(wn_id n, cid)]}" "sv_sleeps t = sv_sleeps s"
    using one_attempt [of n cid E gid v] by (auto simp: one_call_def) (metis a snd_conv)+
  then obtain i where i: "sv_calls t = sv_calls s @ replicate i (wn_id n, cid)" "i \<le> 1"
    by (auto intro: that [of 0] that [of 1])
  show ?case
  proof (cases "\<exists>e. r = Inl e \<and> retried e")
    case False
    with a have "snd (attempts E gid n cid v b (Suc k) err s) = t"
      by (auto simp: st_bind_def st_catch_def st_ret_def split: sum.splits option.splits)
    with i t(2) show ?thesis by (intro exI [of _ i] exI [of _ 0]) simp
  next
    case True
    then obtain e where e: "r = Inl e" "retried e" by blast
    obtain u where w: "wait b k t = (Inr (), u)" "sv_calls u = sv_calls t" "sv_sleeps u = sv_sleeps t @ replicate (if 0 < k then 1 else 0) b"
      by (cases "0 < k") (simp_all add: wait_def modify_def st_ret_def)
    have eq: "attempts E gid n cid v b (Suc k) err s = attempts E gid n cid v b k (Some e) u"
      using a e w(1) by (simp add: st_bind_def st_catch_def st_ret_def)
    obtain i' j' where ij: "sv_calls (snd (attempts E gid n cid v b k (Some e) u)) = sv_calls u @ replicate i' (wn_id n, cid)"
      "sv_sleeps (snd (attempts E gid n cid v b k (Some e) u)) = sv_sleeps u @ replicate j' b" "i' \<le> k" "j' \<le> k - 1"
      using Suc.IH [of "Some e" u] by blast
    show ?thesis unfolding eq ij(1,2) w(2,3) i(1) t(2)
      by (rule exI [of _ "i + i'"], rule exI [of _ "(if 0 < k then 1 else 0) + j'"])
        (use i(2) ij(3,4) in \<open>auto simp: replicate_add\<close>)
  qed
qed (simp add: st_ret_def)

lemma quiet_give_up [quiets]: "quiet (give_up E gid n err)"
  unfolding give_up_def by (intro quiets quiet_modify) simp_all

lemma backoff_bounds: "backoff_of j = Inr b \<Longrightarrow> 0 \<le> b \<and> b \<le> 30"
  by (auto simp: backoff_of_def rbind_ok MAX_BACKOFF_def)

lemma run_attempts_cost:
  assumes "attempt_limit (rp_max (wn_retry n)) = Inr limit" "backoff_of (rp_backoff (wn_retry n)) = Inr b"
  shows "\<exists>i j. sv_calls (snd (run_attempts E gid n v s)) = sv_calls s @ replicate i (wn_id n, hd (required n))
     \<and> sv_sleeps (snd (run_attempts E gid n v s)) = sv_sleeps s @ replicate j b
     \<and> i \<le> nat (limit - attempt_count (wn_id n) (wdb (sv_world s))) \<and> j \<le> nat (limit - attempt_count (wn_id n) (wdb (sv_world s))) - 1"
proof -
  let ?m = "attempts E gid n (hd (required n)) v b (nat (limit - attempt_count (wn_id n) (wdb (sv_world s)))) None"
  let ?f = "\<lambda>o'. case o' of NodeDone \<Rightarrow> st_ret None | Return x \<Rightarrow> st_ret (Some x)
     | Exhausted err \<Rightarrow> st_bind (give_up E gid n err) (\<lambda>x. st_ret (Some x))"
  have "run_attempts E gid n v s = st_bind ?m ?f s"
    by (simp add: run_attempts_def assms st_bind_def st_lift_def read_def)
  moreover have q: "quiet (?f x)" for x by (cases x) (simp_all add: quiets)
  then have "sv_calls (snd (st_bind ?m ?f s)) = sv_calls (snd (?m s))" "sv_sleeps (snd (st_bind ?m ?f s)) = sv_sleeps (snd (?m s))"
    unfolding quiet_def st_bind_def by (auto split: prod.splits sum.splits)
  ultimately show ?thesis using attempts_cost [of E gid n "hd (required n)" v b] by metis
qed

text \<open>C23: The cost of a node is bounded. Whatever the adapters and the services do, and whether the attempts of a
  node end with a result or an exception, its capability is executed at most as often as the attempt limit of its retry
  policy leaves over the attempts already stored, nothing else is executed, and the supervisor waits less often than it
  tries, each time the same time between zero and thirty seconds.\<close>

theorem attempts_are_bounded:
  assumes "attempt_limit (rp_max (wn_retry n)) = Inr limit"
  shows "\<exists>i j b. sv_calls (snd (run_attempts E gid n v s)) = sv_calls s @ replicate i (wn_id n, hd (required n))
     \<and> sv_sleeps (snd (run_attempts E gid n v s)) = sv_sleeps s @ replicate j b \<and> 0 \<le> b \<and> b \<le> 30
     \<and> int i \<le> max 0 (limit - attempt_count (wn_id n) (wdb (sv_world s)))
     \<and> (0 < j \<longrightarrow> int j < limit - attempt_count (wn_id n) (wdb (sv_world s)))"
proof (cases "backoff_of (rp_backoff (wn_retry n))")
  case (Inl e)
  then have "snd (run_attempts E gid n v s) = s" by (simp add: run_attempts_def assms st_bind_def st_lift_def)
  then show ?thesis by (intro exI [of _ 0] exI [of _ 0] exI [of _ 0]) simp
next
  case (Inr b)
  from run_attempts_cost [OF assms Inr, of E gid v s] obtain i j where
    "sv_calls (snd (run_attempts E gid n v s)) = sv_calls s @ replicate i (wn_id n, hd (required n))"
    "sv_sleeps (snd (run_attempts E gid n v s)) = sv_sleeps s @ replicate j b"
    "i \<le> nat (limit - attempt_count (wn_id n) (wdb (sv_world s)))" "j \<le> nat (limit - attempt_count (wn_id n) (wdb (sv_world s))) - 1"
    by blast
  with backoff_bounds [OF Inr] show ?thesis by (intro exI [of _ i] exI [of _ j] exI [of _ b]) auto
qed

definition flaky_node :: work_node where
  "flaky_node = build_node\<lparr>wn_retry := \<lparr>rp_max = JInt 3, rp_backoff = JFloat ''90.0''\<rparr>\<rparr>"

theorem attempts_are_bounded_witness:
  "attempt_count (wn_id flaky_node) (wdb (sv_world run_sup)) = 0
   \<and> (\<exists>i \<le> 3. sv_calls (snd (run_attempts run_env ''g'' flaky_node 3 run_sup)) = replicate i (''build'', ''cc''))"
proof -
  have l: "attempt_limit (rp_max (wn_retry flaky_node)) = Inr 3" "wn_id flaky_node = ''build''" "hd (required flaky_node) = ''cc''"
    by (simp_all add: flaky_node_def build_node_def required_def)
  have c: "attempt_count ''build'' (wdb (sv_world run_sup)) = 0" "sv_calls run_sup = []"
    by (simp_all add: attempt_count_def attempt_rows_def run_sup_def run_world_def)
  from attempts_are_bounded [OF l(1), of run_env "''g''" 3 run_sup] obtain i where
    "sv_calls (snd (run_attempts run_env ''g'' flaky_node 3 run_sup)) = replicate i (''build'', ''cc'')" "int i \<le> 3"
    by (auto simp: l(2,3) c)
  then show ?thesis by (auto simp: l c)
qed

end
