(* ===== verification/Run_Gates.thy ===== *)
theory Run_Gates
  imports Run_Bounds
begin

text \<open>
  What an attempt that completes a node has been through: the gate and the policy on the
  database it started from, the checks of its result, and the review.
\<close>

definition vouched :: "env \<Rightarrow> string \<Rightarrow> db \<Rightarrow> bool" where
  "vouched E cid d \<longleftrightarrow> (\<exists>k r loc src. cap_get cid d = Some r \<and> is_executable (stext (r ''lifecycle''))
     \<and> source_location_of (se_root E) cid d = Some loc \<and> se_disk E k loc = Some src
     \<and> r ''current_digest'' = SText (source_digest (se_rt E) src))"

definition granted :: "env \<Rightarrow> string \<Rightarrow> string \<Rightarrow> string \<Rightarrow> db \<Rightarrow> bool" where
  "granted E gid nid cid d \<longleftrightarrow> (\<exists>stack. stack_for (se_files E) (se_root E) = Inr stack
     \<and> (let dec = d_verdict (evaluate (invoke_action cid) stack PolicyBound) in dec \<noteq> Deny
        \<and> (dec = RequireApproval \<longrightarrow> (\<exists>r r'. r \<in> set (d ''approval_requests'')
             \<and> matches_request (Some gid) (Some nid) (Some (kind_value CapabilityInvoke)) (or_str cid (kind_value CapabilityInvoke))
                 (scope_digest (se_rt E) [(''capability_id'', JStr cid), (''node_id'', JStr nid)]) r
             \<and> approval_row (stext (r ''id'')) d = Some r' \<and> stext (r' ''status'') = ''approved''))))"

lemma elsewhere_ok:
  assumes "elsewhere m w = (Inr x, w')"
  obtains w1 where "m (open_log w) = (Inr x, w1)" "wdb w' = wdb w1"
  using assms by (auto simp: elsewhere_def opened_def split: prod.splits)

lemma gate_ok:
  assumes "gate E cid s = (Inr u, s')" "\<forall>l \<in> set LIFECYCLE_STATES. rt_scrub (se_rt E) l = l"
  shows "vouched E cid (wdb (sv_world s)) \<and> wdb (sv_world s') = wdb (sv_world s)"
proof -
  from assms(1) obtain k w where e: "elsewhere (assert_executable (se_rt E) (se_clock E k) (se_disk E k) (se_adapters E) (se_root E) cid)
      (sv_world s) = (Inr u, w)" and s': "sv_world s' = w"
    unfolding gate_def by (auto simp: st_bind_ok tick_ok on_world_ok)
  from e obtain w1 where a: "assert_executable (se_rt E) (se_clock E k) (se_disk E k) (se_adapters E) (se_root E) cid
      (open_log (sv_world s)) = (Inr u, w1)" and w: "wdb w = wdb w1" by (rule elsewhere_ok)
  from gate_facts [OF a assms(2)] obtain r loc src where "cap_get cid (wdb (sv_world s)) = Some r" "is_executable (stext (r ''lifecycle''))"
    "source_location_of (se_root E) cid (wdb (sv_world s)) = Some loc" "se_disk E k loc = Some src"
    "r ''current_digest'' = SText (source_digest (se_rt E) src)" "wdb w1 = wdb (sv_world s)"
    unfolding open_log_db by (elim exE conjE)
  then show ?thesis unfolding vouched_def s' w by blast
qed

lemma gates_ok:
  assumes "st_for (gate E) cs s = (Inr u, s')" "\<forall>l \<in> set LIFECYCLE_STATES. rt_scrub (se_rt E) l = l"
  shows "(\<forall>c \<in> set cs. vouched E c (wdb (sv_world s))) \<and> wdb (sv_world s') = wdb (sv_world s)"
  using assms(1)
proof (induction cs arbitrary: s)
  case (Cons c cs)
  from Cons.prems obtain v s1 where "gate E c s = (Inr v, s1)" "st_for (gate E) cs s1 = (Inr u, s')"
    by (auto split: prod.splits sum.splits)
  with Cons.IH gate_ok [OF _ assms(2)] show ?case by fastforce
qed simp

lemma authorize_ok:
  assumes "authorize_node E gid nid cid s = (Inr au, s')" "au_verdict au = Allow"
  shows "granted E gid nid cid (wdb (sv_world s))"
proof -
  from assms(1) obtain k w where e: "elsewhere (authorize (se_rt E) (se_clock E k) (se_files E) (se_root E) (invoke_action cid) (Some gid)
      (Some nid) (Some [(''capability_id'', JStr cid), (''node_id'', JStr nid)]) PolicyBound) (sv_world s) = (Inr au, w)"
    unfolding authorize_node_def service_op_def by (auto simp: st_bind_ok tick_ok on_world_ok)
  from e obtain w1 where a: "authorize (se_rt E) (se_clock E k) (se_files E) (se_root E) (invoke_action cid) (Some gid)
      (Some nid) (Some [(''capability_id'', JStr cid), (''node_id'', JStr nid)]) PolicyBound (open_log (sv_world s)) = (Inr au, w1)"
    by (rule elsewhere_ok)
  have act: "a_kind (invoke_action cid) = CapabilityInvoke" "a_target (invoke_action cid) = cid"
    "scope_or_default (invoke_action cid) (Some [(''capability_id'', JStr cid), (''node_id'', JStr nid)])
      = [(''capability_id'', JStr cid), (''node_id'', JStr nid)]"
    by (simp_all add: invoke_action_def scope_or_default_def)
  from authorize_allowed [OF a assms(2)] show ?thesis
    unfolding granted_def act Let_def open_log_db by blast
qed

lemma admit_ok:
  assumes "admit E gid n cid s = (Inr au, s')" "\<forall>l \<in> set LIFECYCLE_STATES. rt_scrub (se_rt E) l = l"
  shows "(\<forall>c \<in> set (required n). vouched E c (wdb (sv_world s))) \<and> au_verdict au \<noteq> Deny
    \<and> (au_verdict au = Allow \<longrightarrow> granted E gid (wn_id n) cid (wdb (sv_world s)))"
proof -
  from assms(1) obtain s1 where g: "st_for (gate E) (required n) s = (Inr (), s1)" and au: "authorize_node E gid (wn_id n) cid s1 = (Inr au, s')"
    and nd: "au_verdict au \<noteq> Deny"
    unfolding admit_def by (auto simp: st_bind_ok st_guard_def st_ret_def split: if_splits)
  from gates_ok [OF g assms(2)] authorize_ok [OF au] nd show ?thesis by auto
qed

section \<open>The checks of a result\<close>

definition delivers :: "work_node \<Rightarrow> adapter_result \<Rightarrow> bool" where
  "delivers n r \<longleftrightarrow> ar_ok r \<and> (\<forall>k. JStr k \<in> set (wn_outputs n) \<longrightarrow> ohas (output_dict r) k)
     \<and> (wn_evidence n \<longrightarrow> has_evidence (output_dict r))"

lemma check_result_ok: "check_result E n aid r s = (Inr u, s') \<Longrightarrow> delivers n r"
proof -
  have no: "fail_attempt E aid r err msg t \<noteq> (Inr x, t')" for err msg t x t'
    by (auto simp: fail_attempt_def st_bind_ok st_raise_def)
  assume "check_result E n aid r s = (Inr u, s')"
  then have o': "ar_ok r" and m: "missing_outputs n (output_dict r) = Inr []" and e: "wn_evidence n \<longrightarrow> has_evidence (output_dict r)"
    unfolding check_result_def by (auto simp: st_bind_ok st_lift_def no split: if_splits)
  from m have f: "filter (\<lambda>j. case j of JStr k \<Rightarrow> \<not> ohas (output_dict r) k | _ \<Rightarrow> True) (wn_outputs n) = []"
    by (simp add: missing_outputs_def split: if_splits)
  have "ohas (output_dict r) k" if "JStr k \<in> set (wn_outputs n)" for k
    using f that by (auto simp: filter_empty_conv)
  with o' e show ?thesis by (simp add: delivers_def)
qed

lemma settle_done:
  assumes "settle E gid n aid r s = (Inr None, s')" "keeps_node_words (se_rt E)" "rt_scrub (se_rt E) (wn_id n) = wn_id n"
  shows "(wn_review n \<longrightarrow> (\<exists>t. fst (independent_review_passes E n t) = Inr True))
    \<and> (\<forall>row \<in> set (wdb (sv_world s') ''work_nodes''). row ''id'' = SText (wn_id n) \<longrightarrow> row ''status'' = SText ''completed'')"
proof -
  from assms(1) obtain v t ok t1 where rv: "(if wn_review n then independent_review_passes E n else st_ret True) t = (Inr ok, t1)"
    and rest: "(if \<not> ok then st_bind (pause E gid (wn_id n) (v + 1) ''independent_review'' []) (\<lambda>x. st_ret (Some x))
      else st_bind (complete_node E (wn_id n) (v + 1)) (\<lambda>_. st_ret None)) t1 = (Inr None, s')"
    unfolding settle_def Let_def by (auto simp: st_bind_ok split: prod.splits)
  from rest have ok: ok by (auto simp: st_bind_ok st_ret_def split: if_splits)
  with rest obtain u t2 where c: "complete_node E (wn_id n) (v + 1) t1 = (Inr u, t2)" "s' = t2" by (auto simp: st_bind_ok st_ret_def)
  then obtain t3 where t3: "set_status E (wn_id n) NCompleted (v + 1) t1 = (Inr (), t3)" "wdb (sv_world s') = wdb (sv_world t3)"
    by (auto simp: complete_node_def st_bind_ok modify_ok)
  have "row ''status'' = SText ''completed''" if "row \<in> set (wdb (sv_world s') ''work_nodes'')" "row ''id'' = SText (wn_id n)" for row
    using that unfolding t3(2) set_status_ok(1) [OF t3(1) assms(2,3)] by (auto simp: bump_version_def split: if_splits)
  with rv ok show ?thesis by (auto intro!: exI [of _ t])
qed

lemma attempt_parts:
  assumes "attempt_once E gid n cid v s = (Inr None, s')"
  obtains au s1 aid r s2 s3 where "admit E gid n cid s = (Inr au, s1)" "au_verdict au \<noteq> RequireApproval"
    "run_capability E gid n cid s1 = (Inr (aid, r), s2)" "check_result E n aid r s2 = (Inr (), s3)" "settle E gid n aid r s3 = (Inr None, s')"
proof -
  have no: "st_ret (Some x) t \<noteq> (Inr None, t')" for x :: run_summary and t t' :: sup
    by (simp add: st_ret_def)
  from assms show thesis
    unfolding attempt_once_def by (elim st_bind_okE) (auto simp: no st_bind_ok split: if_splits intro: that)
qed

text \<open>C24: A node completes only through its gates. When an attempt completes a node, then on the database the attempt
  started from every capability the node requires was executable with the digest of its present source, and the
  policy did not deny the invocation and, where it wants a human, a request for this very capability, node and graph is
  approved; the adapter returned a result that is ok, has every declared output and, if evidence is required, evidence;
  if a review is required it passed; and the node is stored as completed.\<close>

theorem completed_nodes_passed_their_gates:
  assumes "attempt_once E gid n cid v s = (Inr None, s')"
    and "keeps_node_words (se_rt E)" and "\<forall>l \<in> set LIFECYCLE_STATES. rt_scrub (se_rt E) l = l"
    and "rt_scrub (se_rt E) (wn_id n) = wn_id n"
  shows "(\<forall>c \<in> set (required n). vouched E c (wdb (sv_world s))) \<and> granted E gid (wn_id n) cid (wdb (sv_world s))
    \<and> (\<exists>t inputs timeout r. fst (execute E gid n cid inputs timeout t) = Inr r \<and> delivers n r)
    \<and> (wn_review n \<longrightarrow> (\<exists>t. fst (independent_review_passes E n t) = Inr True))
    \<and> (\<forall>row \<in> set (wdb (sv_world s') ''work_nodes''). row ''id'' = SText (wn_id n) \<longrightarrow> row ''status'' = SText ''completed'')"
proof -
  from assms(1) obtain au s1 aid r s2 s3 where ad: "admit E gid n cid s = (Inr au, s1)" and na: "au_verdict au \<noteq> RequireApproval"
    and run: "run_capability E gid n cid s1 = (Inr (aid, r), s2)" and ck: "check_result E n aid r s2 = (Inr (), s3)"
    and st: "settle E gid n aid r s3 = (Inr None, s')" by (rule attempt_parts)
  note a = admit_ok [OF ad assms(3)]
  with na have allow: "au_verdict au = Allow" by (cases "au_verdict au") auto
  from run obtain inputs tmo t t' where "execute E gid n cid inputs tmo t = (Inr r, t')"
    unfolding run_capability_def by (auto simp: st_bind_ok st_ret_def)
  then have "\<exists>t inputs timeout r. fst (execute E gid n cid inputs timeout t) = Inr r \<and> delivers n r"
    using check_result_ok [OF ck] by (metis fst_conv)
  with a allow settle_done [OF st assms(2,4)] show ?thesis by blast
qed

section \<open>Review with the registered adapters\<close>

text \<open>Every registered adapter runs the command line adapter (\<open>repository_tool.py\<close>).\<close>

definition builtin_invoke :: "machine \<Rightarrow> invocation \<Rightarrow> exn + adapter_result" where
  "builtin_invoke M iv = fst (cli_invoke M (iv_capability iv) (iv_inputs iv) (iv_permissions iv) (iv_timeout iv) [])"

lemma builtin_review: "builtin_invoke M (review_invocation name reviewer executor nid subject) = Inr (failed_result ''missing root input'')"
  by (simp add: builtin_invoke_def cli_invoke_def review_invocation_def oget_def st_ret_def)

lemma review_blocked:
  assumes "\<And>k d iv. se_invoke E k d iv = builtin_invoke (M k d) iv"
  shows "fst (independent_review_passes E n s) \<noteq> Inr True"
proof
  assume "fst (independent_review_passes E n s) = Inr True"
  then obtain t where "st_catch (\<lambda>e. is_gate_error e \<or> is_value_error e)
      (review E n (py_str (hd (wn_requires n))) (py_str (oget (wn_metadata n) ''reviewer_capability_id''))) (\<lambda>_. st_ret False) s = (Inr True, t)"
    by (cases "independent_review_passes E n s") (auto simp: independent_review_passes_def Let_def st_ret_def split: if_splits)
  then obtain t where "review E n (py_str (hd (wn_requires n))) (py_str (oget (wn_metadata n) ''reviewer_capability_id'')) s = (Inr True, t)"
    by (auto simp: st_catch_def st_ret_def split: prod.splits sum.splits if_splits)
  then obtain name out k d c where "rbind (se_invoke E k d (review_invocation name (py_str (oget (wn_metadata n) ''reviewer_capability_id''))
      (py_str (hd (wn_requires n))) (wn_id n) out)) (review_check True) = Inr c" "ck_status c = Passed"
    unfolding review_def call_adapter_def
    by (auto simp: st_bind_ok st_lift_def st_ret_def tick_ok st_get_def read_ok rbind_ok) blast
  then show False
    by (simp add: assms builtin_review failed_result_def review_check_def) auto
qed


section \<open>Examples\<close>

theorem completed_nodes_passed_their_gates_witness:
  "vouched job_env ''t'' (wdb (sv_world job_sup)) \<and> granted job_env ''g'' ''build'' ''t'' (wdb (sv_world job_sup))
   \<and> \<not> (\<exists>row \<in> set (wdb (sv_world (snd (attempt_once job_env ''g'' job_node ''t'' 3 job_sup))) ''work_nodes'').
        row ''id'' = SText ''build'' \<and> row ''status'' \<noteq> SText ''completed'')"
proof -
  have "attempt_once job_env ''g'' job_node ''t'' 3 job_sup = (Inr None, snd (attempt_once job_env ''g'' job_node ''t'' 3 job_sup))"
    using job_done by (simp add: prod_eq_iff split: sum.splits)
  moreover have "se_rt job_env = rt0" "wn_id job_node = ''build''" "required job_node = [''t'']"
    by (simp_all add: job_env_def run_env_def job_node_def build_node_def required_def)
  moreover note completed_nodes_passed_their_gates [of job_env "''g''" job_node "''t''" 3 job_sup]
  ultimately show ?thesis using words0 scrub0(1) by simp
qed

definition reviewer_machine :: machine where
  "reviewer_machine = \<lparr>mc_db = (\<lambda>_ _. []), mc_files = (\<lambda>_. None), mc_disk = (\<lambda>_. None), mc_resolve = (\<lambda>p. p), mc_home = ''/h'',
     mc_process = (\<lambda>_. Exited 0 ''{\"verdict\":\"pass\"}'' [])\<rparr>"

definition review_node :: work_node where
  "review_node = job_node\<lparr>wn_review := True, wn_metadata := [(''reviewer_capability_id'', JStr ''r'')]\<rparr>"


end
