(* ===== verification/Claims.thy ===== *)
theory Claims
  imports Adapters Work_Store
begin

text \<open>
  The checks a memory passes before it is written (\<open>verification/claims.py\<close>,
  \<open>verification/engine.py\<close>, the constants of \<open>core/schema.py\<close>), up to the check
  against the memories that exist, which Memory adds.
\<close>

section \<open>Words and replacement\<close>

text \<open>\<open>s.split()\<close>: the maximal runs of characters that are no white space.\<close>

function words :: "string \<Rightarrow> string list" where
  "words s = (let t = lstrip s in
     if t = [] then [] else takeWhile (\<lambda>c. \<not> is_space c) t # words (dropWhile (\<lambda>c. \<not> is_space c) t))"
  by pat_completeness auto
termination
proof (relation "measure length")
  fix s x :: string
  assume x: "x = lstrip s" "x \<noteq> []"
  then obtain c cs where c: "x = c # cs" "\<not> is_space c"
    unfolding lstrip_def by (metis hd_dropWhile list.collapse list.sel(1))
  have "length (dropWhile (\<lambda>c. \<not> is_space c) x) \<le> length cs"
    using c length_dropWhile_le [of "\<lambda>c. \<not> is_space c" cs] by simp
  moreover have "length x \<le> length s" unfolding x(1) lstrip_def by (rule length_dropWhile_le)
  ultimately show "(dropWhile (\<lambda>c. \<not> is_space c) x, s) \<in> measure length" using c by simp
qed simp

declare words.simps [simp del]

text \<open>\<open>s.replace(old, new, 1)\<close> for a nonempty \<open>old\<close>.\<close>

fun replace_first :: "string \<Rightarrow> string \<Rightarrow> string \<Rightarrow> string" where
  "replace_first old new [] = []"
| "replace_first old new (c # cs) =
     (if starts_with (c # cs) old then new @ drop (length old) (c # cs) else c # replace_first old new cs)"

section \<open>Claims\<close>

definition BLOCKED_PATTERNS :: "(string \<times> string list) list" where
  "BLOCKED_PATTERNS =
    [(''unsupported_superlative'', [''is the best'', ''best-in-class'', ''beats every'', ''beats all'']),
     (''benchmark_claim'', [''10/10 on all benchmarks'', ''scores 10/10'', ''leaderboard'']),
     (''production_ready'', [''production-ready'', ''production proven'', ''production-proven'']),
     (''success_without_evidence'', [''all gates pass'', ''all checks pass'', ''fully verified'', ''unsupported claim''])]"

record claim_finding =
  cf_path :: string
  cf_line :: nat
  cf_category :: string
  cf_severity :: string
  cf_claim :: string
  cf_suggestion :: string

definition matched_claim_category :: "string \<Rightarrow> string" where
  "matched_claim_category claim =
     (case find (\<lambda>(_, phrases). list_ex (contains (lower claim)) phrases) BLOCKED_PATTERNS of
        Some (category, _) \<Rightarrow> category | None \<Rightarrow> [])"

definition classify_claim :: "string \<Rightarrow> string list \<Rightarrow> string" where
  "classify_claim claim refs =
     (let lowered = lower claim in
      if matched_claim_category lowered \<noteq> [] then ''unsupported_claim''
      else if contains lowered ''unknown'' then ''unknown''
      else if list_ex (contains lowered) [''assume'', ''assumption'', ''likely'', ''maybe''] then ''assumption''
      else if refs \<noteq> [] then ''verified_fact''
      else ''user_provided_fact'')"

definition suggest_rewrite :: "string \<Rightarrow> string" where
  "suggest_rewrite claim =
     (let lowered = lower claim in
      if contains lowered ''best'' \<or> contains lowered ''beats''
      then ''Use: Shiroe is designed as a local-first memory hardening layer for AI agents.''
      else if contains lowered ''benchmark'' \<or> contains lowered ''10/10'' \<or> contains lowered ''leaderboard''
      then ''State benchmark status only with a dated, reproducible source.''
      else if contains lowered ''production''
      then ''Use: Shiroe is being hardened for local-first AI memory workflows.''
      else ''Rewrite as a sourced, bounded claim.'')"

definition looks_factual :: "string \<Rightarrow> bool" where
  "looks_factual claim = list_ex (contains (lower claim)) ['' is '', '' has '', '' supports '', '' ships '', '' passes '']"

definition check_claim :: "string \<Rightarrow> string list \<Rightarrow> string \<Rightarrow> claim_finding list" where
  "check_claim claim refs path =
     (let category = matched_claim_category claim in
      if category \<noteq> [] then
        [\<lparr>cf_path = path, cf_line = 1, cf_category = category, cf_severity = ''high'', cf_claim = claim,
          cf_suggestion = suggest_rewrite claim\<rparr>]
      else if classify_claim claim refs = ''user_provided_fact'' \<and> looks_factual claim then
        [\<lparr>cf_path = path, cf_line = 1, cf_category = ''missing_source_ref'', cf_severity = ''medium'', cf_claim = claim,
          cf_suggestion = ''Add a source reference or reclassify this as an assumption.''\<rparr>]
      else [])"

text \<open>The lines of the Markdown files of a directory, given as the sorted files and their lines.\<close>

definition scan_files :: "(string \<times> string list) list \<Rightarrow> claim_finding list" where
  "scan_files fs = concat (map (\<lambda>(path, lines). concat (map (\<lambda>(i, line).
     let category = matched_claim_category line in
     if category \<noteq> [] then
       [\<lparr>cf_path = path, cf_line = i, cf_category = category, cf_severity = ''high'', cf_claim = strip line,
         cf_suggestion = suggest_rewrite line\<rparr>]
     else []) (enumerate 1 lines))) fs)"

section \<open>What is written\<close>

record memory_write =
  mw_kind :: string
  mw_title :: string
  mw_claim :: string
  mw_sources :: "string list"
  mw_grade :: string
  mw_summary :: string
  mw_confidence :: string
  mw_privacy :: string
  mw_authority :: json
  mw_scope :: string
  mw_from :: "string option"
  mw_until :: "string option"
  mw_owner :: string
  mw_tags :: "string list"

definition EVIDENCE_GRADES :: "string list" where
  "EVIDENCE_GRADES = [''A'', ''B'', ''C'', ''D'', ''F'']"

definition SOURCE_OPTIONAL_TYPES :: "string list" where
  "SOURCE_OPTIONAL_TYPES = [''unknown'', ''assumption'']"

section \<open>The checks of one write\<close>

definition check_of :: "string \<Rightarrow> finding list \<Rightarrow> check" where
  "check_of name fs = \<lparr>ck_name = name,
     ck_status = (if list_ex (\<lambda>f. fi_severity f = Block) fs then Block else if fs \<noteq> [] then Warn else Passed),
     ck_findings = fs, ck_required = True\<rparr>"

definition mk_finding :: "string \<Rightarrow> string \<Rightarrow> check_status \<Rightarrow> string \<Rightarrow> finding" where
  "mk_finding code msg sev fix' = \<lparr>fi_code = code, fi_message = msg, fi_severity = sev, fi_fix = fix', fi_evidence = []\<rparr>"

definition check_write_shape :: "memory_write \<Rightarrow> check" where
  "check_write_shape p = check_of ''write'' (concat (map (\<lambda>(field, value).
     if strip value = [] then
       [mk_finding (field @ ''_required'') (field @ '' is required.'') Block (''Provide a non-empty '' @ field @ ''.'')]
     else []) [(''kind'', mw_kind p), (''title'', mw_title p), (''claim'', mw_claim p)]))"

text \<open>The parameter gives the redaction classes that hit a text.\<close>

definition credential_hit :: "string list \<Rightarrow> bool" where
  "credential_hit hits = (''credentials'' \<in> set hits \<or> list_ex (\<lambda>h. starts_with h ''credentials_'') hits)"

definition check_privacy :: "(string \<Rightarrow> string list) \<Rightarrow> memory_write \<Rightarrow> check" where
  "check_privacy scan p =
     (let hits = scan (mw_claim p) in
      check_of ''privacy''
        ((if mw_privacy p \<in> {''secret'', ''do_not_store''} then
            [mk_finding ''privacy_class_blocked'' (''privacy_class `'' @ mw_privacy p @ ''` cannot be stored.'') Block
               ''Store only an abstracted, lower-risk memory or do not store it.'']
          else []) @
         (if credential_hit hits then
            [(mk_finding ''credential_shaped_claim'' ''The memory claim contains credential-shaped material.'' Block
               ''Remove the secret and store only a safe abstraction.'')
               \<lparr>fi_evidence := [(''classes_hit'', JList (map JStr hits))]\<rparr>]
          else if hits \<noteq> [] then
            [(mk_finding ''sensitive_claim'' ''The memory claim contains sensitive material.'' Warn
               ''Review and abstract before storing.'')
               \<lparr>fi_evidence := [(''classes_hit'', JList (map JStr hits))]\<rparr>]
          else [])))"

definition check_evidence :: "memory_write \<Rightarrow> check" where
  "check_evidence p = check_of ''evidence''
     ((if mw_kind p \<notin> set SOURCE_OPTIONAL_TYPES \<and> mw_sources p = [] then
         [mk_finding ''source_refs_required'' ''Factual or decision-like memory requires source_refs.'' Block
            ''Add at least one source reference or reclassify the memory.'']
       else []) @
      (if mw_grade p \<in> {''D'', ''F''} then
         [mk_finding ''weak_evidence_grade'' (''Evidence grade '' @ mw_grade p @ '' is weak for durable memory.'') Warn
            ''Upgrade evidence or mark the memory as assumption/unknown.'']
       else []))"

definition check_claims :: "memory_write \<Rightarrow> check" where
  "check_claims p = check_of ''claims'' (map (\<lambda>f.
     mk_finding (cf_category f) (cf_claim f) (if cf_severity f = ''high'' then Block else Warn) (cf_suggestion f))
     (check_claim (mw_claim p) (mw_sources p) ''<memory-write>''))"

section \<open>Opposite claims\<close>

definition OPPOSITES :: "(string \<times> string) list" where
  "OPPOSITES = [(''enabled'', ''disabled''), (''allowed'', ''denied''), (''on'', ''off''), (''true'', ''false'')]"

definition opposition_terms :: "(string \<times> string) list" where
  "opposition_terms = concat (map (\<lambda>(pos, neg). [(pos, ''positive''), (neg, ''negative'')]) OPPOSITES)"

definition lowered_claim :: "string \<Rightarrow> string" where
  "lowered_claim claim = join_with '' '' (words (rstrip_char (CHR ''.'') (strip (lower claim))))"

definition opposition_key :: "string \<Rightarrow> (string \<times> string) option" where
  "opposition_key claim =
     (let lowered = lowered_claim claim in
      case find (\<lambda>(term, _). let needle = '' '' @ term in ends_with lowered needle \<or> contains lowered (needle @ '' '')) opposition_terms of
        None \<Rightarrow> None
      | Some (term, polarity) \<Rightarrow> Some (replace_first ('' '' @ term) '' <state>'' lowered, polarity))"

definition opposed :: "string \<Rightarrow> string \<Rightarrow> bool" where
  "opposed a b = (case opposition_key a of None \<Rightarrow> False | Some (sa, pa) \<Rightarrow>
     (case opposition_key b of None \<Rightarrow> False | Some (sb, pb) \<Rightarrow> sa = sb \<and> pa \<noteq> pb))"

lemma opposed_sym: "opposed a b = opposed b a"
  by (auto simp: opposed_def split: option.splits)

end
