(* ===== verification/Memory.thy ===== *)
theory Memory
  imports Claims
begin

text \<open>
  The memory service (\<open>memory/service.py\<close>, \<open>memory/models.py\<close>, the writers of
  \<open>storage/records.py\<close>), the rest of the verification engine, and search and recall over
  the stored records (\<open>memory/search.py\<close>, \<open>memory/recall.py\<close>).
\<close>

section \<open>Records\<close>

record memory_record =
  mr_id :: string
  mr_kind :: string
  mr_title :: string
  mr_claim :: string
  mr_summary :: string
  mr_status :: string
  mr_confidence :: string
  mr_grade :: string
  mr_privacy :: string
  mr_authority :: json
  mr_scope :: string
  mr_from :: "string option"
  mr_until :: "string option"
  mr_created :: string
  mr_updated :: string
  mr_owner :: string
  mr_version :: int
  mr_archived :: bool
  mr_sources :: "string list"
  mr_tags :: "json list"

text \<open>A column of a row as a Python value, \<open>str(row[i])\<close> of it, and \<open>float(row[i])\<close> of a REAL column.\<close>

definition col :: "row \<Rightarrow> string \<Rightarrow> json" where
  "col r c = from_sql (r c)"

definition col_str :: "row \<Rightarrow> string \<Rightarrow> string" where
  "col_str r c = py_str (col r c)"

fun as_float :: "json \<Rightarrow> exn + json" where
  "as_float (JFloat s) = Inr (JFloat s)"
| "as_float (JInt i) = Inr (JFloat (int_str i @ ''.0''))"
| "as_float (JStr s) = Inl (ValueError ''float'')"
| "as_float _ = Inl (TypeError ''float'')"

definition source_refs :: "string \<Rightarrow> db \<Rightarrow> string list" where
  "source_refs i d = map (\<lambda>r. col_str r ''source_ref'')
     (sort_key (\<lambda>r. stext (r ''id'')) (filter (eq_val memory_sources_t ''memory_id'' (SText i)) (d ''memory_sources'')))"

definition record_from_row :: "db \<Rightarrow> row \<Rightarrow> exn + memory_record" where
  "record_from_row d r =
     rbind (as_float (col r ''authority'')) (\<lambda>authority.
     rbind (py_int (col r ''schema_version'')) (\<lambda>version.
     rbind (load_or_raise (or_str (stext (r ''tags_json'')) ''[]'')) (\<lambda>tags.
     rbind (jiter tags) (\<lambda>ts.
     Inr \<lparr>mr_id = col_str r ''id'', mr_kind = col_str r ''kind'', mr_title = col_str r ''title'', mr_claim = col_str r ''claim'',
       mr_summary = py_str (jor (col r ''summary'') (JStr [])), mr_status = col_str r ''status'',
       mr_confidence = col_str r ''confidence'', mr_grade = col_str r ''evidence_grade'', mr_privacy = col_str r ''privacy_class'',
       mr_authority = authority, mr_scope = col_str r ''scope'', mr_from = stext_opt (r ''valid_from''),
       mr_until = stext_opt (r ''valid_until''), mr_created = col_str r ''created_at'', mr_updated = col_str r ''updated_at'',
       mr_owner = col_str r ''owner'', mr_version = version, mr_archived = truthy (col r ''archived''),
       mr_sources = source_refs (col_str r ''id'') d, mr_tags = ts\<rparr>))))"

definition record_row :: "string \<Rightarrow> db \<Rightarrow> row option" where
  "record_row i d = first_by memory_records_t ''id'' i d"

definition get_memory :: "string \<Rightarrow> db \<Rightarrow> exn + memory_record" where
  "get_memory i d = (case record_row i d of None \<Rightarrow> Inl (MemoryNotFoundError i) | Some r \<Rightarrow> record_from_row d r)"

text \<open>\<open>ORDER BY updated_at DESC, id ASC\<close>; a negative \<open>LIMIT\<close> is none.\<close>

definition newest_first :: "row list \<Rightarrow> row list" where
  "newest_first rs = rev (sort_key (\<lambda>r. stext (r ''updated_at'')) (rev (sort_key (\<lambda>r. stext (r ''id'')) rs)))"

definition at_most :: "int option \<Rightarrow> 'a list \<Rightarrow> 'a list" where
  "at_most lim xs = (case lim of None \<Rightarrow> xs | Some k \<Rightarrow> if k < 0 then xs else take (nat k) xs)"

definition one_of :: "string \<Rightarrow> string list \<Rightarrow> row \<Rightarrow> bool" where
  "one_of c vs r \<longleftrightarrow> vs = [] \<or> list_ex (\<lambda>v. eq_val memory_records_t c (SText v) r) vs"

definition selected_rows :: "string list \<Rightarrow> string list \<Rightarrow> bool \<Rightarrow> int option \<Rightarrow> db \<Rightarrow> row list" where
  "selected_rows kinds statuses archived lim d =
     at_most lim (newest_first (filter (\<lambda>r. one_of ''kind'' kinds r \<and> one_of ''status'' statuses r
       \<and> (archived \<or> r ''archived'' = SInt 0)) (d ''memory_records'')))"

definition list_memory :: "string list \<Rightarrow> string list \<Rightarrow> bool \<Rightarrow> int option \<Rightarrow> db \<Rightarrow> exn + memory_record list" where
  "list_memory kinds statuses archived lim d = rmap (record_from_row d) (selected_rows kinds statuses archived lim d)"

section \<open>The contradiction check\<close>

definition check_contradictions :: "db \<Rightarrow> memory_write \<Rightarrow> check" where
  "check_contradictions d p = check_of ''contradictions''
     (if opposition_key (mw_claim p) = None then []
      else (case list_memory [] [''active''] False None d of
        Inl e \<Rightarrow> [mk_finding ''contradiction_check_failed'' ''Contradiction check could not complete'' Block
          ''Repair canonical state before writing memory.'']
      | Inr rs \<Rightarrow> map (\<lambda>r. (mk_finding ''contradiction_detected''
            (''Claim contradicts active memory '' @ mr_id r @ ''; human arbitration is required.'') Block
            ''Create an explicit resolution instead of silently storing both claims.'')
            \<lparr>fi_evidence := [(''existing_id'', JStr (mr_id r))]\<rparr>)
          (filter (\<lambda>r. opposed (mw_claim p) (mr_claim r)) rs)))"

definition verify_memory_write :: "(string \<Rightarrow> string list) \<Rightarrow> db \<Rightarrow> memory_write \<Rightarrow> report" where
  "verify_memory_write scan d p =
     (let checks = [check_write_shape p, check_privacy scan p, check_evidence p, check_claims p, check_contradictions d p] in
      \<lparr>rp_subject = ''memory_write'', rp_status = aggregate_status checks, rp_checks = checks\<rparr>)"

section \<open>Writing\<close>

definition validate_write :: "memory_write \<Rightarrow> string option" where
  "validate_write p =
     (if mw_sources p = [] then Some ''source_refs required''
      else if strip (mw_kind p) = [] then Some ''kind required''
      else if strip (mw_title p) = [] then Some ''title required''
      else if strip (mw_claim p) = [] then Some ''claim required''
      else if mw_grade p \<notin> set EVIDENCE_GRADES then Some ''evidence_grade must be one of: A, B, C, D, F''
      else None)"

definition block_messages :: "report \<Rightarrow> string list" where
  "block_messages rp = map fi_message (filter (\<lambda>f. fi_severity f = Block) (concat (map ck_findings (rp_checks rp))))"

definition verify_write :: "(string \<Rightarrow> string list) \<Rightarrow> db \<Rightarrow> memory_write \<Rightarrow> string option" where
  "verify_write scan d p =
     (let rp = verify_memory_write scan d p in
      if rp_status rp \<noteq> Block then None
      else Some (or_str (join_with ''; '' (block_messages rp)) ''verification blocked memory write''))"

definition rejection :: "(string \<Rightarrow> string list) \<Rightarrow> db \<Rightarrow> memory_write \<Rightarrow> string option" where
  "rejection scan d p = (case validate_write p of Some r \<Rightarrow> Some r | None \<Rightarrow> verify_write scan d p)"

definition PRIVACY_LABELS :: "(string \<times> string) list" where
  "PRIVACY_LABELS = [(''public-safe'', ''public''), (''private'', ''confidential''), (''local-only'', ''restricted''),
     (''unknown'', ''internal'')]"

definition event_privacy_class :: "string \<Rightarrow> string" where
  "event_privacy_class v = (case map_of PRIVACY_LABELS v of None \<Rightarrow> v | Some l \<Rightarrow> l)"

definition rejection_privacy_class :: "string \<Rightarrow> string" where
  "rejection_privacy_class v = (let l = event_privacy_class v in
     if l \<in> {''public'', ''internal'', ''confidential'', ''restricted''} then l else ''restricted'')"

definition rejected_event :: "memory_write \<Rightarrow> string \<Rightarrow> envelope" where
  "rejected_event p reason = (event ''memory.rejected'' (mw_owner p)
     [(''kind'', JStr (mw_kind p)), (''title'', JStr (mw_title p)), (''reason'', JStr reason)])
     \<lparr>ev_privacy := rejection_privacy_class (mw_privacy p)\<rparr>"

text \<open>\<open>json.dumps(list(tags))\<close> puts a space after each comma.\<close>

definition tags_text :: "string list \<Rightarrow> string" where
  "tags_text tags = ''['' @ join_with '', '' (map (quote True) tags) @ '']''"

definition source_payload :: "(nat \<Rightarrow> string) \<Rightarrow> nat \<times> string \<Rightarrow> json" where
  "source_payload U x = (case x of (i, ref) \<Rightarrow>
     JObj [(''id'', JStr (''src_'' @ take 16 (U i))), (''source_type'', JStr ''user''), (''source_ref'', JStr ref),
       (''provenance'', JStr ''memory-service'')])"

definition record_payload :: "memory_write \<Rightarrow> string \<Rightarrow> string \<Rightarrow> json list \<Rightarrow> obj" where
  "record_payload p i stamp sources =
     [(''summary'', JStr (mw_summary p)), (''status'', JStr ''active''), (''confidence'', JStr (mw_confidence p)),
      (''evidence_grade'', JStr (mw_grade p)), (''privacy_class'', JStr (event_privacy_class (mw_privacy p))),
      (''authority'', mw_authority p), (''scope'', JStr (mw_scope p)), (''valid_from'', jopt (mw_from p)),
      (''valid_until'', jopt (mw_until p)), (''archived'', JInt 0), (''tags_json'', JStr (tags_text (mw_tags p))),
      (''id'', JStr i), (''kind'', JStr (mw_kind p)), (''title'', JStr (mw_title p)), (''claim'', JStr (mw_claim p)),
      (''owner'', JStr (mw_owner p)), (''created_at'', JStr stamp), (''updated_at'', JStr stamp), (''schema_version'', JInt 2)]
     @ (if sources = [] then [] else [(''sources'', JList sources)])"

text \<open>The writers of \<open>storage/records.py\<close>: the event first, then the fold of it.\<close>

definition log_record :: "rt \<Rightarrow> clock \<Rightarrow> envelope \<Rightarrow> (world, obj) st" where
  "log_record R K e =
     st_bind (append_event R (c_ts K) (c_eid K) e) (\<lambda>env.
     st_bind (apply_on (apply_memory env)) (\<lambda>_. st_ret env))"

definition write_record :: "rt \<Rightarrow> clock \<Rightarrow> memory_write \<Rightarrow> string \<Rightarrow> json list \<Rightarrow> (world, obj) st" where
  "write_record R K p i sources = log_record R K
     ((event ''memory.written'' (mw_owner p) (record_payload p i (c_now K) sources))
       \<lparr>ev_target := Some i, ev_privacy := event_privacy_class (mw_privacy p)\<rparr>)"

definition supersede_record :: "rt \<Rightarrow> clock \<Rightarrow> string \<Rightarrow> string \<Rightarrow> (world, obj) st" where
  "supersede_record R K i actor = log_record R K
     ((event ''memory.superseded'' actor [(''id'', JStr i), (''updated_at'', JStr (c_now K))])\<lparr>ev_target := Some i\<rparr>)"

definition archive_record :: "rt \<Rightarrow> clock \<Rightarrow> string \<Rightarrow> string \<Rightarrow> (world, obj) st" where
  "archive_record R K i actor = log_record R K
     ((event ''memory.archived'' actor [(''id'', JStr i), (''updated_at'', JStr (c_now K))])\<lparr>ev_target := Some i\<rparr>)"

definition read_memory :: "string \<Rightarrow> (world, memory_record) st" where
  "read_memory i = st_bind (st_get (\<lambda>w. get_memory i (wdb w))) st_lift"

definition write_memory ::
  "rt \<Rightarrow> (string \<Rightarrow> string list) \<Rightarrow> clock \<Rightarrow> (nat \<Rightarrow> string) \<Rightarrow> memory_write \<Rightarrow> (world, memory_record) st" where
  "write_memory R scan K U p =
     st_bind (st_get (\<lambda>w. rejection scan (wdb w) p)) (\<lambda>why.
     case why of
       Some reason \<Rightarrow>
         st_bind (append_event R (c_ts K) (c_eid K) (rejected_event p reason)) (\<lambda>_. st_raise (ValueError reason))
     | None \<Rightarrow>
         (let i = ''mem_'' @ take 16 (c_uid K) in
          st_bind (write_record R K p i (map (source_payload U) (enumerate 0 (mw_sources p)))) (\<lambda>_.
          read_memory i)))"

definition supersede :: "rt \<Rightarrow> clock \<Rightarrow> string \<Rightarrow> string \<Rightarrow> (world, memory_record) st" where
  "supersede R K i actor = st_bind (supersede_record R K i actor) (\<lambda>_. read_memory i)"

definition archive :: "rt \<Rightarrow> clock \<Rightarrow> string \<Rightarrow> string \<Rightarrow> (world, memory_record) st" where
  "archive R K i actor = st_bind (archive_record R K i actor) (\<lambda>_. read_memory i)"

section \<open>Relations and history\<close>

record memory_relation =
  ml_id :: string
  ml_src :: string
  ml_dst :: string
  ml_kind :: string
  ml_created :: string
  ml_note :: "string option"

definition relations :: "string option \<Rightarrow> db \<Rightarrow> memory_relation list" where
  "relations i d = map (\<lambda>r. \<lparr>ml_id = stext (r ''id''), ml_src = stext (r ''src_id''), ml_dst = stext (r ''dst_id''),
       ml_kind = stext (r ''kind''), ml_created = stext (r ''created_at''), ml_note = stext_opt (r ''note'')\<rparr>)
     (sort_key (\<lambda>r. stext (r ''created_at'')) (sort_key (\<lambda>r. stext (r ''id''))
       (filter (\<lambda>r. case i of None \<Rightarrow> True | Some x \<Rightarrow> r ''src_id'' = SText x \<or> r ''dst_id'' = SText x) (d ''memory_relations''))))"

record memory_event_row =
  me_id :: string
  me_time :: string
  me_type :: string
  me_actor :: string
  me_target :: "string option"
  me_payload :: json
  me_privacy :: string
  me_hash :: string

definition history :: "string option \<Rightarrow> db \<Rightarrow> exn + memory_event_row list" where
  "history i d = rmap (\<lambda>r. rbind (load_or_raise (stext (r ''payload''))) (\<lambda>p.
       Inr \<lparr>me_id = stext (r ''event_id''), me_time = stext (r ''timestamp''), me_type = stext (r ''event_type''),
         me_actor = stext (r ''actor''), me_target = stext_opt (r ''target''), me_payload = p,
         me_privacy = stext (r ''privacy_class''), me_hash = stext (r ''hash'')\<rparr>))
     (sort_key (\<lambda>r. stext (r ''timestamp'')) (sort_key (\<lambda>r. stext (r ''event_id''))
       (filter (\<lambda>r. case i of None \<Rightarrow> True | Some x \<Rightarrow> r ''target'' = SText x) (d ''memory_events''))))"

section \<open>Search\<close>

text \<open>\<open>\w\<close> on the ASCII range, where NFKC changes nothing.\<close>

definition word_char :: "char \<Rightarrow> bool" where
  "word_char c \<longleftrightarrow> (let n = (of_char c :: nat) in
     (48 \<le> n \<and> n \<le> 57) \<or> (65 \<le> n \<and> n \<le> 90) \<or> n = 95 \<or> (97 \<le> n \<and> n \<le> 122))"

fun word_runs :: "string \<Rightarrow> string \<Rightarrow> string list" where
  "word_runs acc [] = (if acc = [] then [] else [acc])"
| "word_runs acc (c # cs) =
     (if word_char c then word_runs (acc @ [c]) cs
      else if acc = [] then word_runs [] cs else acc # word_runs [] cs)"

text \<open>\<open>dict.fromkeys\<close> keeps the first of equal keys.\<close>

definition first_only :: "'a list \<Rightarrow> 'a list" where
  "first_only xs = rev (remdups (rev xs))"

definition tokenize :: "string \<Rightarrow> string list" where
  "tokenize text = first_only (word_runs [] (lower text))"

definition overlap_score :: "string list \<Rightarrow> string \<Rightarrow> nat" where
  "overlap_score query candidate = card (set query \<inter> set (tokenize candidate))"

text \<open>Joining tags that are not all strings is a \<open>TypeError\<close>.\<close>

definition candidate_text :: "memory_record \<Rightarrow> exn + string" where
  "candidate_text r = (case json_strings (mr_tags r) of
     None \<Rightarrow> Inl (TypeError ''join'')
   | Some tags \<Rightarrow> Inr (join_with '' '' (filter (\<lambda>s. s \<noteq> [])
       [mr_title r, mr_claim r, mr_summary r, join_with '' '' tags])))"

definition mirror_digit :: "char \<Rightarrow> char" where
  "mirror_digit c = (if is_digit c then digit (9 - digit_val c) else c)"

definition reverse_timestamp :: "string \<Rightarrow> string" where
  "reverse_timestamp v = map mirror_digit v"

record search_hit =
  sh_record :: memory_record
  sh_score :: nat
  sh_why :: string

record search_result =
  sr_query :: string
  sr_tokens :: "string list"
  sr_hits :: "search_hit list"
  sr_abstained :: bool

definition hit_of :: "string list \<Rightarrow> memory_record \<Rightarrow> exn + search_hit" where
  "hit_of q r = rbind (candidate_text r) (\<lambda>text.
     Inr \<lparr>sh_record = r, sh_score = overlap_score q text,
       sh_why = nat_str (overlap_score q text) @ '' unique query token(s) overlapped canonical memory text''\<rparr>)"

definition current_rank :: "memory_record \<Rightarrow> string" where
  "current_rank r = (if mr_status r = ''active'' \<and> \<not> mr_archived r then ''0'' else ''1'')"

text \<open>The sort key: a tuple, whose components are sorted from the last one on.\<close>

definition ranked :: "search_hit list \<Rightarrow> search_hit list" where
  "ranked hits = sort_key (\<lambda>h. current_rank (sh_record h)) (sort_key (\<lambda>h. - int (sh_score h))
     (sort_key (\<lambda>h. reverse_timestamp (mr_updated (sh_record h))) (sort_key (\<lambda>h. mr_id (sh_record h)) hits)))"

text \<open>The order of the tokens in the result is that of a Python set, which is not specified; the model keeps the text's.\<close>

definition search_memory :: "string \<Rightarrow> int \<Rightarrow> string list \<Rightarrow> string list \<Rightarrow> string option \<Rightarrow> db \<Rightarrow> exn + search_result" where
  "search_memory query lim kinds statuses as_of d =
     (let q = tokenize query in
      if q = [] \<or> lim \<le> 0 then Inr \<lparr>sr_query = query, sr_tokens = q, sr_hits = [], sr_abstained = True\<rparr>
      else
        rbind (list_memory kinds statuses False None d) (\<lambda>records.
        rbind (rmap (hit_of q) records) (\<lambda>all_hits.
        let hits = take (nat lim) (ranked (filter (\<lambda>h. 0 < sh_score h) all_hits)) in
        Inr \<lparr>sr_query = query, sr_tokens = q, sr_hits = hits, sr_abstained = (hits = [])\<rparr>)))"

section \<open>Recall\<close>

definition RECALL_STATUSES :: "string list" where
  "RECALL_STATUSES = [''active'', ''superseded'', ''archived'', ''disputed'', ''stale'']"

definition statuses_of :: "string option \<Rightarrow> string list" where
  "statuses_of status = (case status of None \<Rightarrow> RECALL_STATUSES | Some s \<Rightarrow> if s = [] then RECALL_STATUSES else [s])"

definition kinds_of :: "string option \<Rightarrow> string list" where
  "kinds_of ty = (case ty of None \<Rightarrow> [] | Some t \<Rightarrow> if t = [] then [] else [t])"

record recall_result =
  rc_query :: string
  rc_hits :: "search_hit list"
  rc_refs :: "string list"

definition recall :: "string \<Rightarrow> int \<Rightarrow> string option \<Rightarrow> string option \<Rightarrow> db \<Rightarrow> exn + recall_result" where
  "recall query lim ty status d =
     rbind (search_memory query lim (kinds_of ty) (statuses_of status) None d) (\<lambda>r.
     Inr \<lparr>rc_query = query, rc_hits = sr_hits r, rc_refs = concat (map (\<lambda>h. mr_sources (sh_record h)) (sr_hits r))\<rparr>)"

definition legacy_atom :: "memory_record \<Rightarrow> obj" where
  "legacy_atom r =
     [(''id'', JStr (mr_id r)), (''type'', JStr (mr_kind r)), (''claim'', JStr (mr_claim r)),
      (''summary'', JStr (or_str (mr_summary r) (mr_claim r))), (''source'', JStr (join_with '','' (mr_sources r))),
      (''source_type'', JStr ''user''), (''evidence'', JStr (mr_grade r)), (''confidence'', JStr (mr_confidence r)),
      (''status'', JStr (mr_status r)), (''created_at'', JStr (mr_created r)), (''observed_at'', JNull),
      (''last_confirmed_at'', JNull), (''valid_from'', jopt (mr_from r)), (''valid_until'', jopt (mr_until r)),
      (''recorded_at'', JStr (mr_created r)), (''superseded_at'', JNull), (''entities'', JList []), (''tags'', JList (mr_tags r)),
      (''links'', JList []), (''privacy'', JStr (mr_privacy r)), (''provenance'', JStr (mr_owner r))]"

definition record_dict :: "memory_record \<Rightarrow> obj" where
  "record_dict r =
     [(''id'', JStr (mr_id r)), (''kind'', JStr (mr_kind r)), (''title'', JStr (mr_title r)), (''claim'', JStr (mr_claim r)),
      (''summary'', JStr (mr_summary r)), (''status'', JStr (mr_status r)), (''confidence'', JStr (mr_confidence r)),
      (''evidence_grade'', JStr (mr_grade r)), (''privacy_class'', JStr (mr_privacy r)), (''authority'', mr_authority r),
      (''scope'', JStr (mr_scope r)), (''valid_from'', jopt (mr_from r)), (''valid_until'', jopt (mr_until r)),
      (''created_at'', JStr (mr_created r)), (''updated_at'', JStr (mr_updated r)), (''owner'', JStr (mr_owner r)),
      (''schema_version'', JInt (mr_version r)), (''archived'', JBool (mr_archived r)),
      (''source_refs'', JList (map JStr (mr_sources r))), (''tags'', JList (mr_tags r))]"

definition recall_to_dict :: "recall_result \<Rightarrow> obj" where
  "recall_to_dict r =
     [(''query'', JStr (rc_query r)),
      (''answer'', JStr (case rc_hits r of [] \<Rightarrow> ''No matching memory record found.''
         | h # _ \<Rightarrow> or_str (mr_summary (sh_record h)) (mr_claim (sh_record h)))),
      (''matched_atoms'', JList (map (\<lambda>h. JObj [(''atom'', JObj (legacy_atom (sh_record h))), (''score'', JInt (int (sh_score h))),
         (''why'', JStr (sh_why h))]) (rc_hits r))),
      (''hits'', JList (map (\<lambda>h. JObj [(''record'', JObj (record_dict (sh_record h))), (''score'', JInt (int (sh_score h))),
         (''why'', JStr (sh_why h))]) (rc_hits r))),
      (''evidence_grade'', JStr (case rc_hits r of [] \<Rightarrow> ''unverified'' | h # _ \<Rightarrow> mr_grade (sh_record h))),
      (''evidence_refs'', JList (map JStr (rc_refs r))), (''source'', JStr ''sqlite''), (''abstained'', JBool (rc_hits r = []))]"

definition explain_search :: "string \<Rightarrow> int \<Rightarrow> string option \<Rightarrow> string option \<Rightarrow> db \<Rightarrow> exn + obj" where
  "explain_search query lim ty status d =
     rbind (search_memory query lim (kinds_of ty) (statuses_of status) None d) (\<lambda>r.
     Inr [(''query'', JStr query), (''tokens'', JList (map JStr (sr_tokens r))), (''source'', JStr ''sqlite''),
       (''candidates'', JList (map (\<lambda>h. JObj
          [(''id'', JStr (mr_id (sh_record h))), (''type'', JStr (mr_kind (sh_record h))), (''status'', JStr (mr_status (sh_record h))),
           (''score'', JInt (int (sh_score h))), (''why_selected'', JStr (sh_why h)), (''claim'', JStr (mr_claim (sh_record h))),
           (''evidence'', JStr (mr_grade (sh_record h)))]) (sr_hits r)))])"

end
