(* ===== verification/Memory_Props.thy ===== *)
theory Memory_Props
  imports Memory Approval_Examples
begin

text \<open>
  What the memory service promises: refused writes leave nothing, two current memories
  never contradict each other, a written memory reads back, a search returns the best hits.
\<close>

section \<open>Current records\<close>

definition live :: "row \<Rightarrow> bool" where
  "live r \<longleftrightarrow> r ''status'' = SText ''active'' \<and> r ''archived'' = SInt 0"

definition consistent :: "db \<Rightarrow> bool" where
  "consistent d \<longleftrightarrow> (\<forall>r \<in> set (d ''memory_records''). \<forall>r' \<in> set (d ''memory_records'').
     live r \<longrightarrow> live r' \<longrightarrow> \<not> opposed (col_str r ''claim'') (col_str r' ''claim''))"

lemma tname_memory [simp]: "tname memory_records_t = ''memory_records''" "tname memory_sources_t = ''memory_sources''"
  by (simp_all add: memory_records_t_def memory_sources_t_def tab_def)

lemma record_aff [simp]:
  "aff_of memory_records_t ''status'' = TextA" "aff_of memory_records_t ''claim'' = TextA" "aff_of memory_records_t ''id'' = TextA"
  "aff_of memory_records_t ''kind'' = TextA"
  by (code_simp; fail)+

lemma live_listed: "one_of ''status'' [''active''] r \<and> (False \<or> r ''archived'' = SInt 0) \<longleftrightarrow> live r"
  by (auto simp: one_of_def live_def eq_val_def)

lemma set_newest [simp]: "set (newest_first rs) = set rs"
  by (simp add: newest_first_def)

lemma selected_live: "set (selected_rows [] [''active''] False None d) = {r \<in> set (d ''memory_records''). live r}"
  using live_listed by (auto simp: selected_rows_def at_most_def one_of_def)

lemma record_claim: "record_from_row d r = Inr m \<Longrightarrow> mr_claim m = col_str r ''claim'' \<and> mr_id m = col_str r ''id''"
  by (auto simp: record_from_row_def rbind_ok)

lemma check_of_block: "ck_status (check_of n fs) = Block \<longleftrightarrow> list_ex (\<lambda>f. fi_severity f = Block) fs"
  by (simp add: check_of_def)

lemma mk_finding_severity [simp]: "fi_severity (mk_finding c m s f) = s"
  by (simp add: mk_finding_def)

lemma aggregate_block: "aggregate_status cs = Block \<longleftrightarrow> (\<exists>c \<in> set cs. ck_required c \<and> ck_status c = Block)"
  by (auto simp: aggregate_status_def Let_def image_iff)

lemma checks_required:
  "ck_required (check_write_shape p)" "ck_required (check_privacy scan p)" "ck_required (check_evidence p)"
  "ck_required (check_claims p)" "ck_required (check_contradictions d p)"
  by (simp_all add: check_write_shape_def check_privacy_def check_evidence_def check_claims_def check_contradictions_def check_of_def Let_def)

lemma verified_checks:
  assumes "verify_write scan d p = None"
  shows "ck_status (check_privacy scan p) \<noteq> Block" "ck_status (check_claims p) \<noteq> Block"
    "ck_status (check_contradictions d p) \<noteq> Block"
proof -
  have "rp_status (verify_memory_write scan d p) \<noteq> Block" using assms by (simp add: verify_write_def Let_def split: if_splits)
  then show "ck_status (check_privacy scan p) \<noteq> Block" "ck_status (check_claims p) \<noteq> Block"
    "ck_status (check_contradictions d p) \<noteq> Block"
    unfolding verify_memory_write_def Let_def report.select_convs aggregate_block by (simp_all add: checks_required)
qed

lemma contradiction_blocks:
  assumes "ck_status (check_contradictions d p) \<noteq> Block" "r \<in> set (d ''memory_records'')" "live r"
  shows "\<not> opposed (mw_claim p) (col_str r ''claim'')"
proof
  assume o: "opposed (mw_claim p) (col_str r ''claim'')"
  then have "opposition_key (mw_claim p) \<noteq> None" by (auto simp: opposed_def split: option.splits)
  with assms(1) obtain rs where rs: "list_memory [] [''active''] False None d = Inr rs"
    and none: "\<not> list_ex (\<lambda>m. opposed (mw_claim p) (mr_claim m)) rs"
    by (auto simp: check_contradictions_def check_of_block list_ex_iff split: sum.splits)
  have "r \<in> set (selected_rows [] [''active''] False None d)" using assms(2,3) by (simp add: selected_live)
  with rmap_ok [OF rs [unfolded list_memory_def]] obtain m where "m \<in> set rs" "record_from_row d r = Inr m"
    by (auto simp: in_set_conv_nth)
  with none o show False using record_claim [OF \<open>record_from_row d r = Inr m\<close>] by (auto simp: list_ex_iff)
qed

section \<open>What the reducer of memory events writes\<close>

lemma payload_record:
  "oget (record_payload p i stamp srcs) ''status'' = JStr ''active''"
  "oget (record_payload p i stamp srcs) ''claim'' = JStr (mw_claim p)"
  "oget (record_payload p i stamp srcs) ''id'' = JStr i"
  by (simp_all add: record_payload_def oget_def)

lemma touches_source: "only_touches {''memory_sources''} (st_for (write_source i) srcs)"
  unfolding write_source_def insert_or_replace_def by (intro touches) simp_all

lemma st_for_source_records: "snd (st_for (write_source i) srcs d) ''memory_records'' = d ''memory_records''"
  using touches_source [of i srcs] by (simp add: only_touches_def)

lemma snd_bind_keep:
  assumes "\<And>x d. snd (f x d) q = d q"
  shows "snd (st_bind m f d) q = snd (m d) q"
  using assms by (simp add: st_bind_def split: prod.splits sum.splits)

lemma insert_cases:
  "snd (insert_or_replace t vals d) (tname t) = d (tname t) \<or> (\<exists>vs. bind_all vals = Inr vs
     \<and> snd (insert_or_replace t vals d) (tname t) = filter (\<lambda>r'. \<not> clash t (default_nulls t (fill_row t vs)) r') (d (tname t))
       @ [default_nulls t (fill_row t vs)])"
proof (cases "bind_all vals")
  case (Inr vs)
  then show ?thesis
    by (cases "\<not> notnull_ok t (default_nulls t (fill_row t vs))") (auto simp: insert_or_replace_def replace_bound_def st_bind_def st_lift_def Let_def)
qed (simp add: insert_or_replace_def st_bind_def st_lift_def)

lemma written_records:
  assumes "oget env ''event_type'' = JStr ''memory.written''"
  shows "snd (apply_memory env d) ''memory_records'' = d ''memory_records''
    \<or> (\<exists>vs. bind_all (map (\<lambda>f. (f, oget (payload_of env) f)) RECORD_FIELDS) = Inr vs
        \<and> snd (apply_memory env d) ''memory_records'' = filter (\<lambda>r'. \<not> clash memory_records_t
            (default_nulls memory_records_t (fill_row memory_records_t vs)) r') (d ''memory_records'')
          @ [default_nulls memory_records_t (fill_row memory_records_t vs)])"
proof -
  let ?ins = "insert_or_replace memory_records_t (map (\<lambda>f. (f, oget (payload_of env) f)) RECORD_FIELDS)"
  have keep: "snd (st_bind (if truthy (oget (payload_of env) ''sources'') then st_lift (jiter (oget (payload_of env) ''sources'')) else st_ret [])
      (\<lambda>srcs. st_bind (st_for (write_source (oget (payload_of env) ''id'')) srcs) (\<lambda>_. st_ret True)) d) ''memory_records'' = d ''memory_records''" for d
    by (auto simp: st_bind_def st_lift_def st_ret_def split: sum.splits prod.splits)
      (metis snd_conv st_for_source_records)+
  show ?thesis
  proof (cases "missing REQUIRED_PAYLOAD_FIELDS (payload_of env)")
    case True
    then show ?thesis by (simp add: apply_memory_def assms st_ret_def)
  next
    case False
    let ?rest = "\<lambda>_. st_bind (if truthy (oget (payload_of env) ''sources'') then st_lift (jiter (oget (payload_of env) ''sources'')) else st_ret [])
      (\<lambda>srcs. st_bind (st_for (write_source (oget (payload_of env) ''id'')) srcs) (\<lambda>_. st_ret True))"
    from False have "apply_memory env d = st_bind ?ins ?rest d"
      unfolding apply_memory_def Let_def assms by simp
    moreover have "snd (st_bind ?ins ?rest d) ''memory_records'' = snd (?ins d) ''memory_records''"
      by (rule snd_bind_keep) (rule keep)
    ultimately have "snd (apply_memory env d) ''memory_records'' = snd (?ins d) ''memory_records''" by simp
    moreover note insert_cases [of memory_records_t "map (\<lambda>f. (f, oget (payload_of env) f)) RECORD_FIELDS" d, unfolded tname_memory]
    ultimately show ?thesis by (simp only:)
  qed
qed

lemma filled_claim:
  assumes "bind_all (map (\<lambda>f. (f, oget q f)) RECORD_FIELDS) = Inr vs" "oget q ''claim'' = JStr c"
  shows "default_nulls memory_records_t (fill_row memory_records_t vs) ''claim'' = SText c"
proof -
  have "distinct (map fst vs)" "(''claim'', SText c) \<in> set vs"
  proof -
    from seq_all_ok [OF assms(1) [unfolded bind_all_def]]
    have f: "map fst vs = RECORD_FIELDS" and g: "\<forall>c v. (c, v) \<in> set vs \<longrightarrow> (c, Inr v) \<in> set (map (\<lambda>(c, j). (c, bindv j)) (map (\<lambda>f. (f, oget q f)) RECORD_FIELDS))"
      by (simp_all add: comp_def case_prod_beta)
    show "distinct (map fst vs)" unfolding f by (simp add: RECORD_FIELDS_def)
    have "''claim'' \<in> set (map fst vs)" unfolding f by (simp add: RECORD_FIELDS_def)
    then obtain v where v: "(''claim'', v) \<in> set vs" by auto
    with g have "(''claim'', Inr v) \<in> set (map (\<lambda>(c, j). (c, bindv j)) (map (\<lambda>f. (f, oget q f)) RECORD_FIELDS))" by blast
    then have "Inr v = bindv (oget q ''claim'')" by (auto simp: image_iff)
    with v assms(2) show "(''claim'', SText c) \<in> set vs" by simp
  qed
  then have "map_of vs ''claim'' = Some (SText c)" by simp
  moreover obtain k where "col_of memory_records_t ''claim'' = Some k" "caff k = TextA"
    by (simp add: col_of_def memory_records_t_def tab_def txn_def tx_def)
  ultimately show ?thesis by (simp add: default_nulls_def fill_row_def)
qed

section \<open>No current memory contradicts another\<close>

lemma consistent_subset:
  assumes "consistent d" "\<And>r. r \<in> set (d' ''memory_records'') \<Longrightarrow> live r \<Longrightarrow>
    \<exists>r0 \<in> set (d ''memory_records''). live r0 \<and> r0 ''claim'' = r ''claim''"
  shows "consistent d'"
  unfolding consistent_def
proof (intro ballI impI)
  fix r r'
  assume "r \<in> set (d' ''memory_records'')" "r' \<in> set (d' ''memory_records'')" "live r" "live r'"
  with assms(2) obtain r0 r1 where "r0 \<in> set (d ''memory_records'')" "live r0" "r0 ''claim'' = r ''claim''"
    "r1 \<in> set (d ''memory_records'')" "live r1" "r1 ''claim'' = r' ''claim''" by meson
  with assms(1) show "\<not> opposed (col_str r ''claim'') (col_str r' ''claim'')"
    unfolding consistent_def col_str_def col_def by metis
qed

lemma not_self_opposed: "\<not> opposed c c"
  by (auto simp: opposed_def split: option.splits)

lemma consistent_written:
  assumes "consistent d" "\<And>r. r \<in> set (d ''memory_records'') \<Longrightarrow> live r \<Longrightarrow> \<not> opposed (mw_claim p) (col_str r ''claim'')"
    and "oget env ''event_type'' = JStr ''memory.written''" "oget (payload_of env) ''claim'' = JStr (mw_claim p)"
  shows "consistent (snd (apply_memory env d))"
  using written_records [OF assms(3), of d]
proof
  assume "snd (apply_memory env d) ''memory_records'' = d ''memory_records''"
  with assms(1) show ?thesis by (simp add: consistent_def)
next
  assume "\<exists>vs. bind_all (map (\<lambda>f. (f, oget (payload_of env) f)) RECORD_FIELDS) = Inr vs
        \<and> snd (apply_memory env d) ''memory_records'' = filter (\<lambda>r'. \<not> clash memory_records_t
            (default_nulls memory_records_t (fill_row memory_records_t vs)) r') (d ''memory_records'')
          @ [default_nulls memory_records_t (fill_row memory_records_t vs)]"
  then obtain vs where vs: "bind_all (map (\<lambda>f. (f, oget (payload_of env) f)) RECORD_FIELDS) = Inr vs"
    and n: "snd (apply_memory env d) ''memory_records'' = filter (\<lambda>r'. \<not> clash memory_records_t
            (default_nulls memory_records_t (fill_row memory_records_t vs)) r') (d ''memory_records'')
          @ [default_nulls memory_records_t (fill_row memory_records_t vs)]" by (elim exE conjE)
  have new: "set (snd (apply_memory env d) ''memory_records'')
      \<subseteq> insert (default_nulls memory_records_t (fill_row memory_records_t vs)) (set (d ''memory_records''))" unfolding n by auto
  let ?r = "default_nulls memory_records_t (fill_row memory_records_t vs)"
  have c: "col_str ?r ''claim'' = mw_claim p" unfolding col_str_def col_def filled_claim [OF vs assms(4)] by simp
  have old: "\<not> opposed (mw_claim p) (col_str r ''claim'')" "\<not> opposed (col_str r ''claim'') (mw_claim p)"
    if "r \<in> set (d ''memory_records'')" "live r" for r
    using assms(2) [OF that] by (simp_all add: opposed_sym)
  show ?thesis
    unfolding consistent_def
  proof (intro ballI impI)
    fix r r'
    assume r: "r \<in> set (snd (apply_memory env d) ''memory_records'')" "live r"
      "r' \<in> set (snd (apply_memory env d) ''memory_records'')" "live r'"
    with new have m: "r = ?r \<or> r \<in> set (d ''memory_records'')" "r' = ?r \<or> r' \<in> set (d ''memory_records'')" by blast+
    show "\<not> opposed (col_str r ''claim'') (col_str r' ''claim'')"
    proof (cases "r = ?r"; cases "r' = ?r")
      assume "r = ?r" "r' = ?r" then show ?thesis by (simp only: not_self_opposed not_False_eq_True)
    next
      assume "r = ?r" "r' \<noteq> ?r" then show ?thesis using old(1) m(2) r(4) c by metis
    next
      assume "r \<noteq> ?r" "r' = ?r" then show ?thesis using old(2) m(1) r(2) c by metis
    next
      assume "r \<noteq> ?r" "r' \<noteq> ?r" then show ?thesis using assms(1) m r(2,4) unfolding consistent_def by metis
    qed
  qed
qed

lemma set_cols_retired:
  assumes "bind_all [(''status'', JStr st'), (''archived'', JInt n), (''updated_at'', j)] = Inr vs" "st' \<noteq> ''active''"
  shows "\<not> live (set_cols memory_records_t vs r)"
proof -
  from assms(1) obtain v w where vs: "vs = [(''status'', SText st'), (''archived'', w), (''updated_at'', v)]"
    by (auto split: sum.splits if_splits)
  have "set_cols memory_records_t vs r ''status'' = SText st'" unfolding vs by simp
  with assms(2) show ?thesis by (simp add: live_def)
qed

lemma consistent_retired:
  assumes "consistent d" "oget env ''event_type'' = JStr ty" "ty \<in> {''memory.superseded'', ''memory.archived''}"
  shows "consistent (snd (apply_memory env d))"
proof -
  let ?st = "if ty = ''memory.superseded'' then ''superseded'' else ''archived''"
  let ?n = "if ty = ''memory.archived'' then 1 else 0"
  let ?sets = "[(''status'', JStr ?st), (''archived'', JInt ?n), (''updated_at'', jor (oget (payload_of env) ''updated_at'') (oget env ''timestamp''))]"
  let ?upd = "update_by memory_records_t ?sets id ''id'' (jor (oget (payload_of env) ''id'') (oget env ''target''))"
  have "snd (apply_memory env d) = snd (?upd d)"
    using assms(2,3) by (elim insertE emptyE) (simp_all add: apply_memory_def Let_def snd_bind_ret)
  moreover have "consistent (snd (?upd d))"
  proof (cases "?upd d")
    case (Pair r d')
    show ?thesis
    proof (cases r)
      case (Inl e)
      with Pair assms(1) show ?thesis by (auto dest: update_by_err)
    next
      case (Inr n)
      obtain vs kv where v: "bind_all ?sets = Inr vs"
        "d' = d(tname memory_records_t := map (\<lambda>r. if eq_val memory_records_t ''id'' kv r then id (set_cols memory_records_t vs r) else r) (d (tname memory_records_t)))"
        by (rule update_by_ok [OF Pair [unfolded Inr]])
      have ne: "?st \<noteq> ''active''" by simp
      show ?thesis
        unfolding Pair snd_conv
      proof (rule consistent_subset [OF assms(1)])
        fix r
        assume "r \<in> set (d' ''memory_records'')" "live r"
        with set_cols_retired [OF v(1) ne] have "r \<in> set (d ''memory_records'')" by (auto simp: v(2) split: if_splits)
        with \<open>live r\<close> show "\<exists>r0 \<in> set (d ''memory_records''). live r0 \<and> r0 ''claim'' = r ''claim''" by blast
      qed
    qed
  qed
  ultimately show ?thesis by simp
qed

lemma record_written_consistent:
  assumes "consistent (wdb w)"
    and "\<And>env d. oget env ''event_type'' = JStr (ev_type e) \<Longrightarrow> payload_of env = scrub_payload R (ev_payload e) \<Longrightarrow>
      d ''memory_records'' = wdb w ''memory_records'' \<Longrightarrow> consistent (snd (apply_memory env d))"
  shows "consistent (wdb (snd (log_record R K e w)))"
proof (cases "append_event R (c_ts K) (c_eid K) e w")
  case (Pair r w1)
  have same: "wdb w1 ''memory_records'' = wdb w ''memory_records''" using append_event_tables [OF Pair] by simp
  show ?thesis
  proof (cases r)
    case (Inl x)
    with Pair same assms(1) show ?thesis by (simp add: log_record_def st_bind_def consistent_def)
  next
    case (Inr env)
    note a = Pair [unfolded Inr]
    have "oget env ''event_type'' = JStr (ev_type e)" "payload_of env = scrub_payload R (ev_payload e)"
      by (rule append_event_env [OF a], simp add: oget_prepared)+
    from assms(2) [OF this, of "wdb w1"] same show ?thesis
      by (simp add: log_record_def st_bind_def a apply_on_def st_ret_def case_prod_beta split: sum.splits)
  qed
qed

lemma read_memory_world [simp]: "snd (read_memory i w) = w"
  by (simp add: read_memory_def st_bind_def st_get_def st_lift_def)

lemma snd_bind_read: "snd (st_bind m (\<lambda>_. read_memory i) w) = snd (m w)"
  by (simp add: st_bind_def split: prod.splits sum.splits)

lemma consistent_write:
  assumes "consistent (wdb w)" "rt_scrub R (mw_claim p) = mw_claim p"
  shows "consistent (wdb (snd (write_memory R scan K U p w)))"
proof (cases "rejection scan (wdb w) p")
  case (Some reason)
  obtain r w1 where a: "append_event R (c_ts K) (c_eid K) (rejected_event p reason) w = (r, w1)"
    by (cases "append_event R (c_ts K) (c_eid K) (rejected_event p reason) w")
  then have "wdb w1 ''memory_records'' = wdb w ''memory_records''" using append_event_tables [OF a] by simp
  with assms(1) Some a show ?thesis
    by (simp add: write_memory_def st_bind_def st_get_def st_raise_def consistent_def split: sum.splits)
next
  case None
  let ?i = "''mem_'' @ take 16 (c_uid K)"
  let ?e = "(event ''memory.written'' (mw_owner p) (record_payload p ?i (c_now K) (map (source_payload U) (enumerate 0 (mw_sources p)))))
       \<lparr>ev_target := Some ?i, ev_privacy := event_privacy_class (mw_privacy p)\<rparr>"
  from None have "verify_write scan (wdb w) p = None" by (simp add: rejection_def split: option.splits)
  from contradiction_blocks [OF verified_checks(3) [OF this]]
  have free: "\<not> opposed (mw_claim p) (col_str r ''claim'')" if "r \<in> set (wdb w ''memory_records'')" "live r" for r
    using that .
  have "consistent (wdb (snd (log_record R K ?e w)))"
  proof (rule record_written_consistent [OF assms(1)])
    fix env d
    assume ty: "oget env ''event_type'' = JStr (ev_type ?e)" and pl: "payload_of env = scrub_payload R (ev_payload ?e)"
      and d: "d ''memory_records'' = wdb w ''memory_records''"
    show "consistent (snd (apply_memory env d))"
    proof (rule consistent_written)
      show "consistent d" using assms(1) d by (simp add: consistent_def)
      show "oget env ''event_type'' = JStr ''memory.written''" using ty by (simp add: event_def)
      show "oget (payload_of env) ''claim'' = JStr (mw_claim p)"
        unfolding pl by (simp add: scrub_oget event_def payload_record assms(2))
    qed (use free d in simp)
  qed
  then show ?thesis
    using None by (simp add: write_memory_def st_bind_Inr [OF st_get_def] Let_def snd_bind_read write_record_def)
qed

lemma consistent_retire:
  assumes "consistent (wdb w)"
  shows "consistent (wdb (snd (supersede R K i actor w)))" "consistent (wdb (snd (archive R K i actor w)))"
proof -
  have keep: "consistent (snd (apply_memory env d))"
    if "oget env ''event_type'' = JStr ty" "ty \<in> {''memory.superseded'', ''memory.archived''}"
      "d ''memory_records'' = wdb w ''memory_records''" for env d ty
    using consistent_retired [OF _ that(1,2), of d] assms that(3) by (simp add: consistent_def)
  show "consistent (wdb (snd (supersede R K i actor w)))"
    unfolding supersede_def snd_bind_read supersede_record_def
    by (rule record_written_consistent [OF assms], rule keep [of _ "''memory.superseded''"]) (simp_all add: event_def)
  show "consistent (wdb (snd (archive R K i actor w)))"
    unfolding archive_def snd_bind_read archive_record_def
    by (rule record_written_consistent [OF assms], rule keep [of _ "''memory.archived''"]) (simp_all add: event_def)
qed

text \<open>The calls of the service, whatever they return; the claims are ones redaction leaves alone.\<close>

inductive memory_step :: "rt \<Rightarrow> (string \<Rightarrow> string list) \<Rightarrow> world \<Rightarrow> world \<Rightarrow> bool" for R scan where
  written: "rt_scrub R (mw_claim p) = mw_claim p \<Longrightarrow> memory_step R scan w (snd (opened (write_memory R scan K U p) w))"
| superseded: "memory_step R scan w (snd (opened (supersede R K i actor) w))"
| archived: "memory_step R scan w (snd (opened (archive R K i actor) w))"

lemma step_consistent: "memory_step R scan w w' \<Longrightarrow> consistent (wdb w) \<Longrightarrow> consistent (wdb w')"
  by (induction rule: memory_step.induct) (auto simp: opened_def intro!: consistent_write consistent_retire)

lemma steps_consistent: "(memory_step R scan)\<^sup>*\<^sup>* w w' \<Longrightarrow> consistent (wdb w) \<Longrightarrow> consistent (wdb w')"
  by (induction rule: rtranclp_induct) (auto intro: step_consistent)


section \<open>Refused writes\<close>

lemma privacy_blocks: "mw_privacy p \<in> {''secret'', ''do_not_store''} \<or> credential_hit (scan (mw_claim p)) \<Longrightarrow>
    ck_status (check_privacy scan p) = Block"
  unfolding check_privacy_def Let_def check_of_block by (elim disjE) simp_all

lemma claims_block: "matched_claim_category (mw_claim p) \<noteq> [] \<Longrightarrow> ck_status (check_claims p) = Block"
  by (simp add: check_claims_def check_of_block check_claim_def Let_def)

lemma rejected_write:
  assumes "rejection scan (wdb w) p = Some reason"
  shows "isl (fst (write_memory R scan K U p w))"
    and "q \<noteq> ''memory_events'' \<Longrightarrow> wdb (snd (write_memory R scan K U p w)) q = wdb w q"
proof -
  obtain r w1 where a: "append_event R (c_ts K) (c_eid K) (rejected_event p reason) w = (r, w1)"
    by (cases "append_event R (c_ts K) (c_eid K) (rejected_event p reason) w")
  with assms have e: "fst (write_memory R scan K U p w) = (case r of Inl e \<Rightarrow> Inl e | Inr _ \<Rightarrow> Inl (ValueError reason))"
    "snd (write_memory R scan K U p w) = w1"
    by (simp_all add: write_memory_def st_bind_def st_get_def st_raise_def split: sum.splits)
  show "isl (fst (write_memory R scan K U p w))" unfolding e by (simp split: sum.splits)
  show "wdb (snd (write_memory R scan K U p w)) q = wdb w q" if "q \<noteq> ''memory_events''"
    unfolding e by (rule append_event_tables [OF a that])
qed

lemma rejection_label_allowed: "rejection_privacy_class v \<in> set ALLOWED_PRIVACY_CLASSES"
  by (simp add: rejection_privacy_class_def ALLOWED_PRIVACY_CLASSES_def Let_def)


section \<open>Search\<close>

text \<open>The key of the sort as one value.\<close>

definition rank_key :: "search_hit \<Rightarrow> string \<times> int \<times> string \<times> string" where
  "rank_key h = (current_rank (sh_record h), - int (sh_score h), reverse_timestamp (mr_updated (sh_record h)), mr_id (sh_record h))"

definition no_better :: "search_hit \<Rightarrow> search_hit \<Rightarrow> bool" where
  "no_better h h' \<longleftrightarrow> (case rank_key h of (a, b, c, d) \<Rightarrow> case rank_key h' of (a', b', c', d') \<Rightarrow>
     a' < a \<or> a' = a \<and> (b' < b \<or> b' = b \<and> (c' < c \<or> c' = c \<and> d' \<le> d)))"

lemma sorted_wrt_sort_key:
  assumes "sorted_wrt P xs" "\<And>x y. f x < f y \<Longrightarrow> Q x y" "\<And>x y. f x = f y \<Longrightarrow> P x y \<Longrightarrow> Q x y"
  shows "sorted_wrt Q (sort_key f xs)"
  using assms(1)
proof (induction xs)
  case (Cons x xs)
  then have IH: "sorted_wrt Q (sort_key f xs)" and px: "\<forall>y \<in> set xs. P x y" by simp_all
  have ins: "sorted_wrt Q (insort_key f x ys)"
    if "sorted_wrt Q ys" "sorted (map f ys)" "\<forall>y \<in> set ys. P x y" for ys
    using that
  proof (induction ys)
    case (Cons y ys)
    show ?case
    proof (cases "f x \<le> f y")
      case True
      then have "Q x z" if "z \<in> set (y # ys)" for z
      proof -
        have "f x \<le> f z" using True Cons.prems(2) that by auto
        then show ?thesis using assms(2,3) Cons.prems(3) that by (cases "f x = f z") auto
      qed
      then show ?thesis using True Cons.prems(1) by simp
    next
      case False
      then have "Q y x" by (intro assms(2)) simp
      then show ?thesis using False Cons by (auto simp: set_insort_key)
    qed
  qed simp
  show ?case using ins [OF IH sorted_sort_key] px by simp
qed simp

lemma ranked_sorted: "sorted_wrt (\<lambda>h h'. no_better h' h) (ranked hs)"
  unfolding ranked_def
proof (rule sorted_wrt_sort_key [where P = "\<lambda>h h'. - int (sh_score h) < - int (sh_score h')
    \<or> sh_score h = sh_score h' \<and> (reverse_timestamp (mr_updated (sh_record h)) < reverse_timestamp (mr_updated (sh_record h'))
      \<or> reverse_timestamp (mr_updated (sh_record h)) = reverse_timestamp (mr_updated (sh_record h')) \<and> mr_id (sh_record h) \<le> mr_id (sh_record h'))"])
  show "sorted_wrt (\<lambda>h h'. - int (sh_score h) < - int (sh_score h')
    \<or> sh_score h = sh_score h' \<and> (reverse_timestamp (mr_updated (sh_record h)) < reverse_timestamp (mr_updated (sh_record h'))
      \<or> reverse_timestamp (mr_updated (sh_record h)) = reverse_timestamp (mr_updated (sh_record h')) \<and> mr_id (sh_record h) \<le> mr_id (sh_record h')))
    (sort_key (\<lambda>h. - int (sh_score h)) (sort_key (\<lambda>h. reverse_timestamp (mr_updated (sh_record h))) (sort_key (\<lambda>h. mr_id (sh_record h)) hs)))"
  proof (rule sorted_wrt_sort_key [where P = "\<lambda>h h'. reverse_timestamp (mr_updated (sh_record h)) < reverse_timestamp (mr_updated (sh_record h'))
      \<or> reverse_timestamp (mr_updated (sh_record h)) = reverse_timestamp (mr_updated (sh_record h')) \<and> mr_id (sh_record h) \<le> mr_id (sh_record h')"])
    have "sorted_wrt (\<lambda>h h'. mr_id (sh_record h) \<le> mr_id (sh_record h')) (sort_key (\<lambda>h. mr_id (sh_record h)) hs)"
      using sorted_sort_key [of "\<lambda>h. mr_id (sh_record h)" hs] by (simp add: sorted_map)
    then show "sorted_wrt (\<lambda>h h'. reverse_timestamp (mr_updated (sh_record h)) < reverse_timestamp (mr_updated (sh_record h'))
      \<or> reverse_timestamp (mr_updated (sh_record h)) = reverse_timestamp (mr_updated (sh_record h')) \<and> mr_id (sh_record h) \<le> mr_id (sh_record h'))
      (sort_key (\<lambda>h. reverse_timestamp (mr_updated (sh_record h))) (sort_key (\<lambda>h. mr_id (sh_record h)) hs))"
      by (rule sorted_wrt_sort_key) simp_all
  qed simp_all
qed (auto simp: no_better_def rank_key_def)

lemma set_ranked [simp]: "set (ranked hs) = set hs"
  by (simp add: ranked_def)

lemma list_from_rows: "list_memory ks ss a None d = Inr rs \<Longrightarrow> m \<in> set rs \<Longrightarrow>
    \<exists>r \<in> set (d ''memory_records''). record_from_row d r = Inr m \<and> one_of ''kind'' ks r \<and> one_of ''status'' ss r \<and> (a \<or> r ''archived'' = SInt 0)"
proof -
  assume l: "list_memory ks ss a None d = Inr rs" and m: "m \<in> set rs"
  let ?rows = "selected_rows ks ss a None d"
  from rmap_ok [OF l [unfolded list_memory_def]] m obtain i where "i < length ?rows" "record_from_row d (?rows ! i) = Inr m"
    by (auto simp: in_set_conv_nth)
  then have "?rows ! i \<in> set ?rows" "record_from_row d (?rows ! i) = Inr m" by simp_all
  then show ?thesis by (intro bexI [of _ "?rows ! i"]) (auto simp: selected_rows_def at_most_def)
qed

lemma hit_fields:
  assumes "hit_of q m = Inr h"
  shows "sh_record h = m" "\<exists>text. candidate_text m = Inr text \<and> sh_score h = card (set q \<inter> set (tokenize text))"
  using assms by (auto simp: hit_of_def rbind_ok overlap_score_def)

text \<open>C27: A search returns the best matches. A search that returns gives at most \<open>limit\<close> hits, in the order of
  the ranking; each is a stored record of the wanted kinds and statuses that is not archived and shares as many
  distinct words with the query as its score says, at least one; and no other listed record that shares a word ranks
  better than a hit.\<close>

theorem search_returns_the_best:
  assumes "search_memory query lim ks ss as_of d = Inr res"
  shows "int (length (sr_hits res)) \<le> max 0 lim \<and> sorted_wrt (\<lambda>h h'. no_better h' h) (sr_hits res)
    \<and> (sr_abstained res \<longleftrightarrow> sr_hits res = [])
    \<and> (\<forall>h \<in> set (sr_hits res). 0 < sh_score h
        \<and> (\<exists>text. candidate_text (sh_record h) = Inr text \<and> sh_score h = card (set (tokenize query) \<inter> set (tokenize text)))
        \<and> (\<exists>r \<in> set (d ''memory_records''). record_from_row d r = Inr (sh_record h) \<and> one_of ''kind'' ks r
            \<and> one_of ''status'' ss r \<and> r ''archived'' = SInt 0))
    \<and> (\<forall>rs m h'. 0 < lim \<and> tokenize query \<noteq> [] \<and> list_memory ks ss False None d = Inr rs \<and> m \<in> set rs
        \<and> hit_of (tokenize query) m = Inr h' \<and> 0 < sh_score h' \<longrightarrow>
        h' \<in> set (sr_hits res) \<or> (\<forall>h \<in> set (sr_hits res). no_better h' h))"
proof (cases "tokenize query = [] \<or> lim \<le> 0")
  case True
  with assms show ?thesis by (auto simp: search_memory_def)
next
  case False
  with assms obtain rs hs where rs: "list_memory ks ss False None d = Inr rs" and hs: "rmap (hit_of (tokenize query)) rs = Inr hs"
    and res: "res = \<lparr>sr_query = query, sr_tokens = tokenize query,
      sr_hits = take (nat lim) (ranked (filter (\<lambda>h. 0 < sh_score h) hs)),
      sr_abstained = (take (nat lim) (ranked (filter (\<lambda>h. 0 < sh_score h) hs)) = [])\<rparr>"
    by (auto simp: search_memory_def rbind_ok Let_def)
  let ?all = "ranked (filter (\<lambda>h. 0 < sh_score h) hs)"
  have hits: "sr_hits res = take (nat lim) ?all" by (simp add: res)
  have mem: "\<exists>m \<in> set rs. hit_of (tokenize query) m = Inr h" if "h \<in> set hs" for h
    using rmap_ok [OF hs] that by (metis in_set_conv_nth)
  have each: "0 < sh_score h
        \<and> (\<exists>text. candidate_text (sh_record h) = Inr text \<and> sh_score h = card (set (tokenize query) \<inter> set (tokenize text)))
        \<and> (\<exists>r \<in> set (d ''memory_records''). record_from_row d r = Inr (sh_record h) \<and> one_of ''kind'' ks r
            \<and> one_of ''status'' ss r \<and> r ''archived'' = SInt 0)" if "h \<in> set (sr_hits res)" for h
  proof -
    have "h \<in> set hs" "0 < sh_score h" using that set_take_subset [of "nat lim" ?all] by (auto simp: hits)
    moreover from mem [OF this(1)] obtain m where m: "m \<in> set rs" "hit_of (tokenize query) m = Inr h" by blast
    ultimately show ?thesis using hit_fields [OF m(2)] list_from_rows [OF rs m(1)] by auto
  qed
  have rest: "h' \<in> set (sr_hits res) \<or> (\<forall>h \<in> set (sr_hits res). no_better h' h)"
    if "m \<in> set rs" "hit_of (tokenize query) m = Inr h'" "0 < sh_score h'" for m h'
  proof -
    have "h' \<in> set hs" using rmap_ok [OF hs] that(1,2) by (auto simp: in_set_conv_nth)
    then have "h' \<in> set (take (nat lim) ?all @ drop (nat lim) ?all)" using that(3) by simp
    then consider "h' \<in> set (take (nat lim) ?all)" | "h' \<in> set (drop (nat lim) ?all)" by (simp only: set_append Un_iff) blast
    then show ?thesis
    proof cases
      case 2
      have "sorted_wrt (\<lambda>h h'. no_better h' h) (take (nat lim) ?all @ drop (nat lim) ?all)" by (simp add: ranked_sorted)
      then show ?thesis unfolding sorted_wrt_append hits using 2 by blast
    qed (simp add: hits)
  qed
  show ?thesis
  proof (intro conjI ballI allI impI)
    show "int (length (sr_hits res)) \<le> max 0 lim" using False by (auto simp: hits min_def)
    show "sorted_wrt (\<lambda>h h'. no_better h' h) (sr_hits res)" unfolding hits by (rule sorted_wrt_take [OF ranked_sorted])
    show "sr_abstained res \<longleftrightarrow> sr_hits res = []" by (simp only: res search_result.simps)
    show "h' \<in> set (sr_hits res) \<or> (\<forall>h \<in> set (sr_hits res). no_better h' h)"
      if "0 < lim \<and> tokenize query \<noteq> [] \<and> list_memory ks ss False None d = Inr rs' \<and> m \<in> set rs'
        \<and> hit_of (tokenize query) m = Inr h' \<and> 0 < sh_score h'" for rs' m h'
      using that rs by (intro rest) auto
  qed (use each in blast)+
qed

end
