(* ===== verification/Memory_Reads.thy ===== *)
theory Memory_Reads
  imports Memory_Props "HOL-Library.Multiset"
begin

text \<open>The round trip of a memory: what a write proposed is what the service reads.\<close>

section \<open>Tags\<close>

lemma p_value_quote: "p_value (Suc n) (quote True s @ r) = Some (JStr s, r)"
proof -
  obtain t where t: "quote True s = CHR 0x22 # t" by (simp add: quote_def)
  with p_string_quote [of True s r] have "p_string (t @ r) = Some (s, r)" by simp
  then show ?thesis unfolding t by simp
qed

lemma p_value_space: "p_value (Suc n) (CHR '' '' # s) = p_value (Suc n) s"
  by (simp add: skip_ws_def is_ws_def)

lemma p_elems_tags:
  assumes "length (t # ts) \<le> n"
  shows "p_elems (Suc n) (join_with '', '' (map (quote True) (t # ts)) @ '']'' @ r) = Some (map JStr (t # ts), r)"
    and "p_elems (Suc n) (CHR '' '' # join_with '', '' (map (quote True) (t # ts)) @ '']'' @ r) = Some (map JStr (t # ts), r)"
proof -
  have both: "p_elems (Suc n) (join_with '', '' (map (quote True) (t # ts)) @ '']'' @ r) = Some (map JStr (t # ts), r)
    \<and> p_elems (Suc n) (CHR '' '' # join_with '', '' (map (quote True) (t # ts)) @ '']'' @ r) = Some (map JStr (t # ts), r)"
    using assms
  proof (induction ts arbitrary: t n)
    case Nil
    then obtain m where m: "n = Suc m" by (cases n) auto
    have q: "p_value n (quote True t @ CHR '']'' # r) = Some (JStr t, CHR '']'' # r)" unfolding m by (rule p_value_quote)
    then have q': "p_value n (CHR '' '' # quote True t @ CHR '']'' # r) = Some (JStr t, CHR '']'' # r)"
      unfolding m p_value_space .
    show ?case using q q' by (simp del: p_value.simps)
  next
    case (Cons u us)
    then obtain m where m: "n = Suc m" "length (u # us) \<le> m" by (cases n) auto
    let ?rest = "CHR '' '' # join_with '', '' (map (quote True) (u # us)) @ '']'' @ r"
    have j: "join_with '', '' (map (quote True) (t # u # us)) @ '']'' @ r = quote True t @ CHR '','' # ?rest" by simp
    have q: "p_value n (quote True t @ CHR '','' # ?rest) = Some (JStr t, CHR '','' # ?rest)" unfolding m(1) by (rule p_value_quote)
    then have q': "p_value n (CHR '' '' # quote True t @ CHR '','' # ?rest) = Some (JStr t, CHR '','' # ?rest)"
      unfolding m(1) p_value_space .
    have "p_elems n ?rest = Some (map JStr (u # us), r)" using Cons.IH [OF m(2)] unfolding m(1) by blast
    with q q' show ?case unfolding j by (simp del: p_value.simps p_elems.simps(2) join_with.simps add: p_elems.simps(2) [of n])
  qed
  from both show "p_elems (Suc n) (join_with '', '' (map (quote True) (t # ts)) @ '']'' @ r) = Some (map JStr (t # ts), r)"
    "p_elems (Suc n) (CHR '' '' # join_with '', '' (map (quote True) (t # ts)) @ '']'' @ r) = Some (map JStr (t # ts), r)"
    by blast+
qed

lemma length_join_tags: "length ts \<le> length (join_with '', '' (map (quote True) ts))"
proof (induction ts)
  case (Cons t ts)
  have "2 \<le> length (quote True t)" by (simp add: quote_def)
  with Cons show ?case by (cases ts) auto
qed simp

lemma loads_tags: "loads (tags_text ts) = Some (JList (map JStr ts))"
proof (cases ts)
  case Nil
  then show ?thesis by (simp add: tags_text_def loads_def)
next
  case (Cons u us)
  let ?s = "join_with '', '' (map (quote True) ts)"
  have len: "length (u # us) \<le> length ?s" using length_join_tags [of ts] Cons by simp
  have "p_elems (Suc (Suc (length ?s))) (?s @ '']'' @ []) = Some (map JStr ts, [])"
    unfolding Cons by (rule p_elems_tags(1)) (use len Cons in simp)
  then have e: "p_elems (Suc (Suc (length ?s))) (?s @ '']'') = Some (map JStr ts, [])" by simp
  obtain c where c: "?s = CHR 0x22 # c" unfolding Cons by (cases us) (simp_all add: quote_def)
  have "skip_ws (?s @ '']'') = ?s @ '']''" unfolding c by simp
  moreover have "hd (?s @ '']'') \<noteq> CHR '']''" unfolding c by simp
  ultimately show ?thesis using e by (simp add: loads_def tags_text_def del: p_elems.simps)
qed

section \<open>The columns of a written record\<close>

lemma bound_cols:
  assumes "bind_all (map (\<lambda>f. (f, oget q f)) fs) = Inr vs" "distinct fs" "f \<in> set fs"
  obtains v where "map_of vs f = Some v" "bindv (oget q f) = Inr v"
proof -
  from seq_all_ok [OF assms(1) [unfolded bind_all_def]]
  have f: "map fst vs = fs" and g: "\<forall>c v. (c, v) \<in> set vs \<longrightarrow> (c, Inr v) \<in> set (map (\<lambda>(c, j). (c, bindv j)) (map (\<lambda>f. (f, oget q f)) fs))"
    by (simp_all add: comp_def case_prod_beta)
  from f assms(3) have "f \<in> fst ` set vs" by (metis set_map)
  then obtain v where v: "(f, v) \<in> set vs" by auto
  with f assms(2) have "map_of vs f = Some v" by simp
  moreover from v g have "(f, Inr v) \<in> set (map (\<lambda>(c, j). (c, bindv j)) (map (\<lambda>f. (f, oget q f)) fs))" by blast
  then have "bindv (oget q f) = Inr v" by (auto simp: image_iff)
  ultimately show thesis by (rule that)
qed

lemma record_cols:
  assumes "bind_all (map (\<lambda>f. (f, oget q f)) RECORD_FIELDS) = Inr vs" "f \<in> set RECORD_FIELDS" "bindv (oget q f) = Inr v"
    and "col_of memory_records_t f = Some k" "coerce (caff k) v \<noteq> SNull \<or> \<not> cnotnull k"
  shows "default_nulls memory_records_t (fill_row memory_records_t vs) f = coerce (caff k) v"
proof -
  have "distinct RECORD_FIELDS" by (simp add: RECORD_FIELDS_def)
  from bound_cols [OF assms(1) this assms(2)] assms(3) have "map_of vs f = Some v" by auto
  with assms(4,5) show ?thesis by (auto simp: default_nulls_def fill_row_def)
qed

definition record_cells :: "memory_write \<Rightarrow> string \<Rightarrow> string \<Rightarrow> (string \<times> json) list" where
  "record_cells p i stamp =
     [(''id'', JStr i), (''kind'', JStr (mw_kind p)), (''title'', JStr (mw_title p)), (''claim'', JStr (mw_claim p)),
      (''summary'', JStr (mw_summary p)), (''status'', JStr ''active''), (''confidence'', JStr (mw_confidence p)),
      (''evidence_grade'', JStr (mw_grade p)), (''privacy_class'', JStr (event_privacy_class (mw_privacy p))),
      (''scope'', JStr (mw_scope p)), (''created_at'', JStr stamp), (''updated_at'', JStr stamp), (''owner'', JStr (mw_owner p)),
      (''tags_json'', JStr (tags_text (mw_tags p)))]"

lemma text_cells:
  assumes "(c, j) \<in> set (record_cells p i stamp)"
  shows "oget (record_payload p i stamp srcs) c = j \<and> c \<in> set RECORD_FIELDS \<and> (\<exists>s. j = JStr s)
    \<and> (\<exists>k. col_of memory_records_t c = Some k \<and> caff k = TextA)"
  using assms
  unfolding record_cells_def set_simps insert_iff empty_iff prod.inject
  by (elim disjE conjE FalseE)
    (simp_all add: record_payload_def oget_def RECORD_FIELDS_def col_of_def memory_records_t_def tab_def tx_def txn_def txd_def
      red_def inn_def ind_def)

text \<open>The row a write leaves, as the service reads its columns.\<close>

definition written_row :: "memory_write \<Rightarrow> string \<Rightarrow> string \<Rightarrow> string \<Rightarrow> row \<Rightarrow> bool" where
  "written_row p i stamp a r \<longleftrightarrow> (\<forall>(c, j) \<in> set (record_cells p i stamp). col r c = j)
     \<and> r ''authority'' = SReal a \<and> r ''valid_from'' = (case mw_from p of None \<Rightarrow> SNull | Some s \<Rightarrow> SText s)
     \<and> r ''valid_until'' = (case mw_until p of None \<Rightarrow> SNull | Some s \<Rightarrow> SText s) \<and> r ''schema_version'' = SInt 2 \<and> r ''archived'' = SInt 0"

lemma other_cells:
  "oget (record_payload p i stamp srcs) ''authority'' = mw_authority p"
  "oget (record_payload p i stamp srcs) ''valid_from'' = jopt (mw_from p)"
  "oget (record_payload p i stamp srcs) ''valid_until'' = jopt (mw_until p)"
  "oget (record_payload p i stamp srcs) ''schema_version'' = JInt 2"
  "oget (record_payload p i stamp srcs) ''archived'' = JInt 0"
  "{''authority'', ''valid_from'', ''valid_until'', ''schema_version'', ''archived''} \<subseteq> set RECORD_FIELDS"
  by (simp_all add: record_payload_def oget_def RECORD_FIELDS_def)

lemma other_cols:
  "col_of memory_records_t ''authority'' = Some (red ''authority'' ''0.0'')"
  "col_of memory_records_t ''valid_from'' = Some (tx ''valid_from'')"
  "col_of memory_records_t ''valid_until'' = Some (tx ''valid_until'')"
  "col_of memory_records_t ''schema_version'' = Some (inn ''schema_version'')"
  "col_of memory_records_t ''archived'' = Some (ind ''archived'' 0)"
  by (simp_all add: col_of_def memory_records_t_def tab_def tx_def txn_def txd_def red_def inn_def ind_def)

lemma filled_row:
  assumes "bind_all (map (\<lambda>f. (f, oget (record_payload p i stamp srcs) f)) RECORD_FIELDS) = Inr vs" "mw_authority p = JFloat a"
  shows "written_row p i stamp a (default_nulls memory_records_t (fill_row memory_records_t vs))"
proof -
  note rc = record_cols [OF assms(1)]
  have "col (default_nulls memory_records_t (fill_row memory_records_t vs)) c = j" if "(c, j) \<in> set (record_cells p i stamp)" for c j
  proof -
    from text_cells [OF that, of srcs] obtain s k where t: "oget (record_payload p i stamp srcs) c = JStr s" "c \<in> set RECORD_FIELDS" "j = JStr s"
      "col_of memory_records_t c = Some k" "caff k = TextA" by blast
    have "default_nulls memory_records_t (fill_row memory_records_t vs) c = coerce (caff k) (SText s)"
      by (rule rc [OF t(2) _ t(4)]) (simp_all add: t)
    then show ?thesis by (simp add: col_def t)
  qed
  moreover have "default_nulls memory_records_t (fill_row memory_records_t vs) ''authority'' = coerce (caff (red ''authority'' ''0.0'')) (SReal a)"
    by (rule rc [OF _ _ other_cols(1)]) (use other_cells(6) in \<open>simp_all add: other_cells(1) assms(2) red_def\<close>)
  moreover have "default_nulls memory_records_t (fill_row memory_records_t vs) ''valid_from'' = coerce (caff (tx ''valid_from'')) (case mw_from p of None \<Rightarrow> SNull | Some s \<Rightarrow> SText s)"
    by (rule rc [OF _ _ other_cols(2)]) (use other_cells(6) in \<open>simp_all add: other_cells(2) jopt_def tx_def split: option.splits\<close>)
  moreover have "default_nulls memory_records_t (fill_row memory_records_t vs) ''valid_until'' = coerce (caff (tx ''valid_until'')) (case mw_until p of None \<Rightarrow> SNull | Some s \<Rightarrow> SText s)"
    by (rule rc [OF _ _ other_cols(3)]) (use other_cells(6) in \<open>simp_all add: other_cells(3) jopt_def tx_def split: option.splits\<close>)
  moreover have "default_nulls memory_records_t (fill_row memory_records_t vs) ''schema_version'' = coerce (caff (inn ''schema_version'')) (SInt 2)"
    by (rule rc [OF _ _ other_cols(4)]) (use other_cells(6) in \<open>simp_all add: other_cells(4) inn_def\<close>)
  moreover have "default_nulls memory_records_t (fill_row memory_records_t vs) ''archived'' = coerce (caff (ind ''archived'' 0)) (SInt 0)"
    by (rule rc [OF _ _ other_cols(5)]) (use other_cells(6) in \<open>simp_all add: other_cells(5) ind_def\<close>)
  ultimately show ?thesis
    by (auto simp: written_row_def red_def tx_def inn_def ind_def split: option.splits)
qed

section \<open>Sources\<close>

definition refs_of :: "string \<Rightarrow> row list \<Rightarrow> string multiset" where
  "refs_of i rs = mset (map (\<lambda>r. col_str r ''source_ref'') (filter (\<lambda>r. r ''memory_id'' = SText i) rs))"

lemma source_aff: "aff_of memory_sources_t ''memory_id'' = TextA"
  by code_simp

lemma refs_read: "mset (source_refs i d) = refs_of i (d ''memory_sources'')"
proof -
  have "eq_val memory_sources_t ''memory_id'' (SText i) = (\<lambda>r. r ''memory_id'' = SText i)"
    by (auto simp: eq_val_def fun_eq_iff source_aff)
  then show ?thesis by (simp add: source_refs_def refs_of_def)
qed

lemma source_key: "clash memory_sources_t r r' \<longleftrightarrow> r ''id'' \<noteq> SNull \<and> r ''id'' = r' ''id''"
  by (simp add: clash_def same_key_def memory_sources_t_def tab_def)

definition source_json :: "string \<times> string \<Rightarrow> json" where
  "source_json x = (case x of (k, ref) \<Rightarrow> JObj [(''id'', JStr k), (''source_type'', JStr ''user''), (''source_ref'', JStr ref),
       (''provenance'', JStr ''memory-service'')])"

lemma source_bound:
  "bind_all [(''id'', JStr k), (''memory_id'', JStr i), (''source_type'', JStr ''user''), (''source_ref'', JStr ref),
      (''source_digest'', JNull), (''observed_at'', JNull), (''retrieved_at'', JNull), (''provenance'', JStr ''memory-service'')]
   = Inr [(''id'', SText k), (''memory_id'', SText i), (''source_type'', SText ''user''), (''source_ref'', SText ref),
      (''source_digest'', SNull), (''observed_at'', SNull), (''retrieved_at'', SNull), (''provenance'', SText ''memory-service'')]"
  by simp

lemma source_written:
  assumes "write_source (JStr i) (source_json (k, ref)) d = (Inr u, d')"
  obtains r where "d' ''memory_sources'' = filter (\<lambda>r'. r' ''id'' \<noteq> SText k) (d ''memory_sources'') @ [r]"
    "r ''id'' = SText k" "r ''memory_id'' = SText i" "r ''source_ref'' = SText ref"
proof -
  let ?vals = "[(''id'', JStr k), (''memory_id'', JStr i), (''source_type'', JStr ''user''), (''source_ref'', JStr ref),
      (''source_digest'', JNull), (''observed_at'', JNull), (''retrieved_at'', JNull), (''provenance'', JStr ''memory-service'')]"
  from assms have "insert_or_replace memory_sources_t ?vals d = (Inr u, d')"
    by (simp add: write_source_def source_json_def st_bind_def st_lift_def oget_def oget_or_def)
  then obtain vs where vs: "bind_all ?vals = Inr vs"
    and d': "d' = d(tname memory_sources_t := filter (\<lambda>r'. \<not> clash memory_sources_t (default_nulls memory_sources_t (fill_row memory_sources_t vs)) r')
        (d (tname memory_sources_t)) @ [default_nulls memory_sources_t (fill_row memory_sources_t vs)])"
    by (rule insert_or_replace_ok)
  let ?r = "default_nulls memory_sources_t (fill_row memory_sources_t vs)"
  have r: "?r ''id'' = SText k" "?r ''memory_id'' = SText i" "?r ''source_ref'' = SText ref"
    using vs by (auto simp: source_bound default_nulls_def fill_row_def col_of_def memory_sources_t_def tab_def tx_def txn_def)
  from d' have "d' ''memory_sources'' = filter (\<lambda>r'. r' ''id'' \<noteq> SText k) (d ''memory_sources'') @ [?r]"
    by (simp add: source_key r(1)) metis
  with r show thesis by (intro that)
qed

lemma sources_written:
  assumes "st_for (write_source (JStr i)) (map source_json xs) d = (Inr u, d')" "distinct (map fst xs)"
    and "\<And>r. r \<in> set (d ''memory_sources'') \<Longrightarrow> r ''memory_id'' = SText i \<Longrightarrow> \<forall>x \<in> set xs. r ''id'' \<noteq> SText (fst x)"
  shows "refs_of i (d' ''memory_sources'') = refs_of i (d ''memory_sources'') + mset (map snd xs)"
  using assms
proof (induction xs arbitrary: d)
  case (Cons x xs)
  obtain k ref where x: "x = (k, ref)" by fastforce
  from Cons.prems(1) obtain v d1 where w: "write_source (JStr i) (source_json (k, ref)) d = (Inr v, d1)"
    and rest: "st_for (write_source (JStr i)) (map source_json xs) d1 = (Inr u, d')"
    by (auto simp: x split: prod.splits sum.splits)
  obtain r where r: "d1 ''memory_sources'' = filter (\<lambda>r'. r' ''id'' \<noteq> SText k) (d ''memory_sources'') @ [r]"
    "r ''id'' = SText k" "r ''memory_id'' = SText i" "r ''source_ref'' = SText ref"
    by (rule source_written [OF w])
  have keep: "filter (\<lambda>r. r ''memory_id'' = SText i) (filter (\<lambda>r'. r' ''id'' \<noteq> SText k) (d ''memory_sources''))
      = filter (\<lambda>r. r ''memory_id'' = SText i) (d ''memory_sources'')"
    using Cons.prems(3) by (auto simp: x intro!: filter_cong)
  have one: "refs_of i (d1 ''memory_sources'') = refs_of i (d ''memory_sources'') + {#ref#}"
    unfolding refs_of_def r(1) filter_append map_append mset_append keep by (simp add: r(3) col_str_def col_def r(4))
  have "refs_of i (d' ''memory_sources'') = refs_of i (d1 ''memory_sources'') + mset (map snd xs)"
  proof (rule Cons.IH [OF rest])
    show "distinct (map fst xs)" using Cons.prems(2) by simp
    fix r'
    assume r': "r' \<in> set (d1 ''memory_sources'')" "r' ''memory_id'' = SText i"
    show "\<forall>y \<in> set xs. r' ''id'' \<noteq> SText (fst y)"
    proof (cases "r' = r")
      case True
      with r(2) Cons.prems(2) show ?thesis by (auto simp: x image_iff)
    next
      case False
      with r' r(1) have "r' \<in> set (d ''memory_sources'')" by auto
      from Cons.prems(3) [OF this r'(2)] show ?thesis by simp
    qed
  qed
  with one show ?case by (simp add: x)
qed (simp add: st_ret_def)

section \<open>The round trip\<close>

lemma map_enumerate_fst: "map (\<lambda>x. g (fst x)) (enumerate n xs) = map g [n..<n + length xs]"
  unfolding map_fst_enumerate [symmetric] map_map comp_def ..

lemma record_of_written:
  assumes "written_row p i stamp a r" "record_row i d = Some r"
  shows "\<exists>m. get_memory i d = Inr m \<and> m = \<lparr>mr_id = i, mr_kind = mw_kind p, mr_title = mw_title p, mr_claim = mw_claim p,
     mr_summary = mw_summary p, mr_status = ''active'', mr_confidence = mw_confidence p, mr_grade = mw_grade p,
     mr_privacy = event_privacy_class (mw_privacy p), mr_authority = JFloat a, mr_scope = mw_scope p, mr_from = mw_from p,
     mr_until = mw_until p, mr_created = stamp, mr_updated = stamp, mr_owner = mw_owner p, mr_version = 2, mr_archived = False,
     mr_sources = source_refs i d, mr_tags = map JStr (mw_tags p)\<rparr>"
proof -
  have c: "col r ''id'' = JStr i" "col r ''kind'' = JStr (mw_kind p)" "col r ''title'' = JStr (mw_title p)" "col r ''claim'' = JStr (mw_claim p)"
    "col r ''summary'' = JStr (mw_summary p)" "col r ''status'' = JStr ''active''" "col r ''confidence'' = JStr (mw_confidence p)"
    "col r ''evidence_grade'' = JStr (mw_grade p)" "col r ''privacy_class'' = JStr (event_privacy_class (mw_privacy p))"
    "col r ''scope'' = JStr (mw_scope p)" "col r ''created_at'' = JStr stamp" "col r ''updated_at'' = JStr stamp"
    "col r ''owner'' = JStr (mw_owner p)" "col r ''tags_json'' = JStr (tags_text (mw_tags p))"
    using assms(1) by (simp_all add: written_row_def record_cells_def)
  have o': "col r ''authority'' = JFloat a" "col r ''schema_version'' = JInt 2" "col r ''archived'' = JInt 0"
    "stext_opt (r ''valid_from'') = mw_from p" "stext_opt (r ''valid_until'') = mw_until p"
    using assms(1) by (auto simp: written_row_def col_def split: option.splits)
  have t: "load_or_raise (or_str (stext (r ''tags_json'')) ''[]'') = Inr (JList (map JStr (mw_tags p)))"
  proof -
    have "r ''tags_json'' = SText (tags_text (mw_tags p))" using c(14) by (cases "r ''tags_json''") (simp_all add: col_def)
    moreover have "tags_text (mw_tags p) \<noteq> []" by (simp add: tags_text_def)
    ultimately show ?thesis by (simp add: or_str_def load_or_raise_def loads_tags)
  qed
  show ?thesis
    by (simp add: get_memory_def assms(2) record_from_row_def c o' t col_str_def jor_def)
qed

lemma record_key: "clash memory_records_t r r' \<longleftrightarrow> r ''id'' \<noteq> SNull \<and> r ''id'' = r' ''id''"
  by (simp add: clash_def same_key_def memory_records_t_def tab_def)

lemma record_row_new:
  assumes "d' ''memory_records'' = filter (\<lambda>r'. \<not> clash memory_records_t r r') rs @ [r]" "r ''id'' = SText i"
  shows "record_row i d' = Some r"
proof -
  have e: "eq_val memory_records_t ''id'' (SText i) = (\<lambda>r. r ''id'' = SText i)" by (auto simp: eq_val_def fun_eq_iff)
  have "filter (\<lambda>r. r ''id'' = SText i) (filter (\<lambda>r'. \<not> clash memory_records_t r r') rs) = []"
    by (auto simp: filter_empty_conv record_key assms(2))
  then show ?thesis unfolding record_row_def first_by_def select_by_def e tname_memory assms(1) by (simp add: assms(2))
qed

lemma written_core:
  assumes "write_record R K p i srcs w = (Inr env0, w')"
    and "srcs = map (source_payload U) (enumerate 0 (mw_sources p))"
    and "scrub_payload R (record_payload p i (c_now K) srcs) = record_payload p i (c_now K) srcs"
    and "mw_authority p = JFloat a" and "distinct (map (\<lambda>k. take 16 (U k)) [0..<length (mw_sources p)])"
    and "\<forall>r \<in> set (wdb w ''memory_sources''). r ''memory_id'' \<noteq> SText i"
  shows "\<exists>m. get_memory i (wdb w') = Inr m \<and> mset (mr_sources m) = mset (mw_sources p)
    \<and> m = \<lparr>mr_id = i, mr_kind = mw_kind p, mr_title = mw_title p, mr_claim = mw_claim p,
     mr_summary = mw_summary p, mr_status = ''active'', mr_confidence = mw_confidence p, mr_grade = mw_grade p,
     mr_privacy = event_privacy_class (mw_privacy p), mr_authority = JFloat a, mr_scope = mw_scope p, mr_from = mw_from p,
     mr_until = mw_until p, mr_created = c_now K, mr_updated = c_now K, mr_owner = mw_owner p, mr_version = 2,
     mr_archived = False, mr_sources = mr_sources m, mr_tags = map JStr (mw_tags p)\<rparr>"
proof -
  let ?p = "record_payload p i (c_now K) srcs"
  let ?e = "(event ''memory.written'' (mw_owner p) ?p)\<lparr>ev_target := Some i, ev_privacy := event_privacy_class (mw_privacy p)\<rparr>"
  from assms(1) obtain env w1 b where a: "append_event R (c_ts K) (c_eid K) ?e w = (Inr env, w1)"
    and ap: "apply_memory env (wdb w1) = (Inr b, wdb w')"
    unfolding write_record_def log_record_def by (auto simp: st_bind_ok apply_on_ok st_ret_def)
  have ty: "oget env ''event_type'' = JStr ''memory.written''" and pl: "payload_of env = ?p"
    by (rule append_event_env [OF a], simp add: oget_prepared event_def assms(3))+
  have nm: "\<not> missing REQUIRED_PAYLOAD_FIELDS ?p"
    by (simp add: missing_def REQUIRED_PAYLOAD_FIELDS_def record_payload_def oget_def)
  have src: "oget ?p ''sources'' = (if srcs = [] then JNull else JList srcs)" "oget ?p ''id'' = JStr i"
    by (simp_all add: record_payload_def oget_def)
  from ap nm obtain u d1 v where ins: "insert_or_replace memory_records_t (map (\<lambda>f. (f, oget ?p f)) RECORD_FIELDS) (wdb w1) = (Inr u, d1)"
    and st: "st_for (write_source (JStr i)) srcs d1 = (Inr v, wdb w')"
    by (auto simp: apply_memory_def ty pl src st_bind_ok st_lift_def st_ret_def Let_def split: if_splits)
  obtain vs where vs: "bind_all (map (\<lambda>f. (f, oget ?p f)) RECORD_FIELDS) = Inr vs"
    and d1: "d1 = (wdb w1)(tname memory_records_t := filter (\<lambda>r'. \<not> clash memory_records_t (default_nulls memory_records_t (fill_row memory_records_t vs)) r')
        (wdb w1 (tname memory_records_t)) @ [default_nulls memory_records_t (fill_row memory_records_t vs)])"
    by (rule insert_or_replace_ok [OF ins])
  let ?r = "default_nulls memory_records_t (fill_row memory_records_t vs)"
  have row: "written_row p i (c_now K) a ?r" by (rule filled_row [OF vs assms(4)])
  then have id: "?r ''id'' = SText i" by (cases "?r ''id''") (simp_all add: written_row_def record_cells_def col_def)
  have "wdb w' ''memory_records'' = d1 ''memory_records''" using st_for_source_records [of "JStr i" srcs d1] st by simp
  also have "\<dots> = filter (\<lambda>r'. \<not> clash memory_records_t ?r r') (wdb w1 ''memory_records'') @ [?r]" by (simp add: d1)
  finally have "record_row i (wdb w') = Some ?r" by (rule record_row_new [where r = ?r, OF _ id])
  from record_of_written [OF row this] obtain m where rd: "get_memory i (wdb w') = Inr m" and m: "m = \<lparr>mr_id = i, mr_kind = mw_kind p, mr_title = mw_title p, mr_claim = mw_claim p,
     mr_summary = mw_summary p, mr_status = ''active'', mr_confidence = mw_confidence p, mr_grade = mw_grade p,
     mr_privacy = event_privacy_class (mw_privacy p), mr_authority = JFloat a, mr_scope = mw_scope p, mr_from = mw_from p,
     mr_until = mw_until p, mr_created = c_now K, mr_updated = c_now K, mr_owner = mw_owner p, mr_version = 2, mr_archived = False,
     mr_sources = source_refs i (wdb w'), mr_tags = map JStr (mw_tags p)\<rparr>" by blast
  let ?xs = "map (\<lambda>(k, ref). (''src_'' @ take 16 (U k), ref)) (enumerate 0 (mw_sources p))"
  have xs: "srcs = map source_json ?xs" by (simp add: assms(2) source_payload_def source_json_def case_prod_beta comp_def)
  have fst: "map fst ?xs = map ((@) ''src_'') (map (\<lambda>k. take 16 (U k)) [0..<length (mw_sources p)])"
    by (simp add: comp_def case_prod_beta map_enumerate_fst [of "\<lambda>k. CHR ''s'' # CHR ''r'' # CHR ''c'' # CHR ''_'' # take 16 (U k)"])
  have dist: "distinct (map fst ?xs)" unfolding fst distinct_map [of "(@) ''src_''"] using assms(5) by (simp add: inj_on_def)
  have same: "d1 ''memory_sources'' = wdb w ''memory_sources''"
    using append_event_tables [OF a, of "''memory_sources''"] by (simp add: d1)
  have "refs_of i (wdb w' ''memory_sources'') = refs_of i (d1 ''memory_sources'') + mset (map snd ?xs)"
    by (rule sources_written [OF st [unfolded xs] dist]) (use assms(6) same in auto)
  moreover have "refs_of i (d1 ''memory_sources'') = {#}" using assms(6) by (simp add: refs_of_def same filter_mset_eq_conv)
  moreover have "map snd ?xs = mw_sources p" by (simp add: comp_def case_prod_beta)
  ultimately have "refs_of i (wdb w' ''memory_sources'') = mset (mw_sources p)" by (simp only: add_0)
  then have "mset (mr_sources m) = mset (mw_sources p)" by (simp add: m refs_read)
  with rd m show ?thesis by simp
qed

text \<open>C28: A written memory reads back. When redaction leaves the payload alone, the authority is a float, and the drawn
  ids are fresh, a write that returns gives the record with exactly the proposed fields, active and not archived, with
  the label of its privacy class, and with the proposed sources up to their order; the same record is what \<open>get\<close> reads.\<close>

theorem written_memory_reads_back:
  assumes "write_memory R scan K U p w = (Inr m, w')" and "i = ''mem_'' @ take 16 (c_uid K)"
    and "srcs = map (source_payload U) (enumerate 0 (mw_sources p))"
    and "scrub_payload R (record_payload p i (c_now K) srcs) = record_payload p i (c_now K) srcs"
    and "mw_authority p = JFloat a" and "distinct (map (\<lambda>k. take 16 (U k)) [0..<length (mw_sources p)])"
    and "\<forall>r \<in> set (wdb w ''memory_sources''). r ''memory_id'' \<noteq> SText i"
  shows "get_memory i (wdb w') = Inr m \<and> mset (mr_sources m) = mset (mw_sources p)
    \<and> m = \<lparr>mr_id = i, mr_kind = mw_kind p, mr_title = mw_title p, mr_claim = mw_claim p,
     mr_summary = mw_summary p, mr_status = ''active'', mr_confidence = mw_confidence p, mr_grade = mw_grade p,
     mr_privacy = event_privacy_class (mw_privacy p), mr_authority = JFloat a, mr_scope = mw_scope p, mr_from = mw_from p,
     mr_until = mw_until p, mr_created = c_now K, mr_updated = c_now K, mr_owner = mw_owner p, mr_version = 2,
     mr_archived = False, mr_sources = mr_sources m, mr_tags = map JStr (mw_tags p)\<rparr>"
proof -
  from assms(1) have "rejection scan (wdb w) p = None"
    by (auto simp: write_memory_def st_bind_Inr [OF st_get_def] st_bind_ok st_raise_def split: option.splits)
  with assms(1-3) have "st_bind (write_record R K p i srcs) (\<lambda>_. read_memory i) w = (Inr m, w')"
    by (simp add: write_memory_def st_bind_Inr [OF st_get_def] Let_def)
  then obtain env0 where wr: "write_record R K p i srcs w = (Inr env0, w')" and rd: "get_memory i (wdb w') = Inr m"
    by (auto simp: st_bind_ok read_memory_def st_get_def st_lift_def)
  from written_core [OF wr assms(3-7)] rd show ?thesis by simp
qed

end
