(* ===== verification/Memory_Examples.thy ===== *)
theory Memory_Examples
  imports Memory_Reads Work_Examples
begin

text \<open>The properties of the memory service at concrete memories.\<close>

definition cache_on :: memory_write where
  "cache_on = \<lparr>mw_kind = ''fact'', mw_title = ''c'', mw_claim = ''c is on'', mw_sources = [''d''], mw_grade = ''A'', mw_summary = [],
     mw_confidence = ''low'', mw_privacy = ''private'', mw_authority = JFloat ''0.5'', mw_scope = ''p'', mw_from = None,
     mw_until = Some ''2026'', mw_owner = ''a'', mw_tags = [''t'']\<rparr>"

definition cache_off :: memory_write where
  "cache_off = cache_on\<lparr>mw_claim := ''C is off.''\<rparr>"

definition no_hits :: "string \<Rightarrow> string list" where
  "no_hits s = []"

definition memory_world :: world where
  "memory_world = snd (write_memory rt0 no_hits clock0 nat_str cache_on (open_log world0))"

lemma cache_accepted: "rejection no_hits (wdb world0) cache_on = None"
  by code_simp

lemma cache_recorded: "\<not> isl (fst (write_record rt0 clock0 cache_on ''mem_u'' [source_payload nat_str (0, ''d'')] (open_log world0)))"
  by code_simp

theorem written_memory_reads_back_witness:
  "\<exists>m. write_memory rt0 no_hits clock0 nat_str cache_on (open_log world0) = (Inr m, memory_world)
     \<and> mr_claim m = ''c is on'' \<and> mr_privacy m = ''confidential'' \<and> mr_tags m = [JStr ''t'']"
proof -
  let ?i = "''mem_'' @ take 16 (c_uid clock0)" and ?srcs = "map (source_payload nat_str) (enumerate 0 (mw_sources cache_on))"
  have i: "?i = ''mem_u''" and srcs: "?srcs = [source_payload nat_str (0, ''d'')]" and now: "mw_authority cache_on = JFloat ''0.5''"
    "length (mw_sources cache_on) = 1" by (simp_all add: clock0_def cache_on_def)
  have dist: "distinct (map (\<lambda>k. take 16 (nat_str k)) [0..<length (mw_sources cache_on)])" unfolding now(2) by simp
  have none: "\<forall>r \<in> set (wdb (open_log world0) ''memory_sources''). r ''memory_id'' \<noteq> SText ?i" by (simp add: world0_def)
  have "\<not> isl (fst (write_record rt0 clock0 cache_on ?i ?srcs (open_log world0)))" unfolding i srcs by (rule cache_recorded)
  then obtain env0 w' where wr: "write_record rt0 clock0 cache_on ?i ?srcs (open_log world0) = (Inr env0, w')" by (metis outcome)
  from written_core [OF wr refl scrub_payload0 now(1) dist none] obtain m where "get_memory ?i (wdb w') = Inr m" by blast
  then have w: "write_memory rt0 no_hits clock0 nat_str cache_on (open_log world0) = (Inr m, w')"
    using wr by (simp add: write_memory_def st_bind_Inr [OF st_get_def] cache_accepted Let_def st_bind_def read_memory_def st_get_def st_lift_def)
  from written_memory_reads_back [OF w refl refl scrub_payload0 now(1) dist none]
  have m: "m = \<lparr>mr_id = ?i, mr_kind = mw_kind cache_on, mr_title = mw_title cache_on, mr_claim = mw_claim cache_on,
     mr_summary = mw_summary cache_on, mr_status = ''active'', mr_confidence = mw_confidence cache_on, mr_grade = mw_grade cache_on,
     mr_privacy = event_privacy_class (mw_privacy cache_on), mr_authority = JFloat ''0.5'', mr_scope = mw_scope cache_on,
     mr_from = mw_from cache_on, mr_until = mw_until cache_on, mr_created = c_now clock0, mr_updated = c_now clock0,
     mr_owner = mw_owner cache_on, mr_version = 2, mr_archived = False, mr_sources = mr_sources m,
     mr_tags = map JStr (mw_tags cache_on)\<rparr>" by blast
  have "mr_claim m = ''c is on''" "mr_privacy m = ''confidential''" "mr_tags m = [JStr ''t'']"
    by (subst m, simp add: cache_on_def event_privacy_class_def PRIVACY_LABELS_def)+
  with w show ?thesis unfolding memory_world_def by (intro exI [of _ m]) simp
qed


definition on_row :: row where
  "on_row = (\<lambda>_. SNull)(''id'' := SText ''m'', ''kind'' := SText ''fact'', ''title'' := SText ''c'', ''claim'' := SText ''c is on'',
     ''status'' := SText ''active'', ''archived'' := SInt 0, ''authority'' := SReal ''0.5'', ''schema_version'' := SInt 2,
     ''updated_at'' := SText ''2025'', ''tags_json'' := SText ''[]'')"

definition on_state :: world where
  "on_state = world0\<lparr>wdb := (\<lambda>_. [])(''memory_records'' := [on_row])\<rparr>"

lemma on_opposed: "opposed (mw_claim cache_off) (col_str on_row ''claim'')"
  by code_simp


lemma read_hits: "\<not> isl (rbind (list_memory [] [''active''] False None (wdb on_state)) (rmap (hit_of (tokenize ''is C?''))))"
  by code_simp

lemma found: "\<not> isl (search_memory ''is C?'' 3 [] [''active''] None (wdb on_state))"
proof -
  have q: "tokenize ''is C?'' \<noteq> []" by code_simp
  obtain rs where rs: "list_memory [] [''active''] False None (wdb on_state) = Inr rs"
    using read_hits by (cases "list_memory [] [''active''] False None (wdb on_state)") simp_all
  moreover obtain hs where "rmap (hit_of (tokenize ''is C?'')) rs = Inr hs"
    using read_hits by (cases "rmap (hit_of (tokenize ''is C?'')) rs") (simp_all add: rs)
  ultimately show ?thesis by (simp add: search_memory_def q Let_def)
qed

theorem search_returns_the_best_witness:
  "\<exists>res. search_memory ''is C?'' 3 [] [''active''] None (wdb on_state) = Inr res \<and> length (sr_hits res) \<le> 3
     \<and> (\<forall>h \<in> set (sr_hits res). record_from_row (wdb on_state) on_row = Inr (sh_record h))"
proof -
  from found obtain res where r: "search_memory ''is C?'' 3 [] [''active''] None (wdb on_state) = Inr res" by (metis isl_def sum.exhaust)
  from search_returns_the_best [OF r] r show ?thesis by (intro exI [of _ res]) (auto simp: on_state_def)
qed

end
