(* ===== verification/Regex.thy ===== *)
theory Regex
  imports Prelude
begin

text \<open>
  Python's \<open>re\<close> as the code uses it: the abstract syntax of its patterns, the backtracking
  matcher with its greedy, lazy and bounded repeats, look-ahead, word boundaries and groups,
  and \<open>search\<close>, \<open>finditer\<close> and \<open>sub\<close>. A text is a list of code points. What depends on the
  Unicode character database (\<open>str.isspace\<close>, \<open>\w\<close>, \<open>\d\<close>, case variants, NFKC) is a
  record of tables, a parameter of every definition.
\<close>

section \<open>Texts\<close>

type_synonym chars = "int list"

definition ord :: "char \<Rightarrow> int" where
  "ord c = of_char c"

definition u :: "string \<Rightarrow> chars" where
  "u s = map ord s"

text \<open>The tables of \<open>unicodedata\<close>, \<open>str\<close> and \<open>re\<close>; \<open>case_variants c\<close> are the other code points that
  \<open>re.IGNORECASE\<close> identifies with \<open>c\<close>.\<close>

record tables =
  is_space :: "int \<Rightarrow> bool"
  is_word :: "int \<Rightarrow> bool"
  is_decimal :: "int \<Rightarrow> bool"
  is_alnum :: "int \<Rightarrow> bool"
  is_printable :: "int \<Rightarrow> bool"
  case_variants :: "int \<Rightarrow> int list"
  to_lower :: "int \<Rightarrow> chars"
  nfkc :: "chars \<Rightarrow> chars"

section \<open>Patterns\<close>

datatype rx =
    Eps
  | One "int \<Rightarrow> bool"
  | Cat rx rx
  | Alt rx rx
  | Rep bool nat "int option" rx
  | Word_Boundary
  | Line_Start
  | Line_End
  | Look bool rx
  | Not_Behind "int \<Rightarrow> bool"
  | Group nat rx

text \<open>A position of a text: the code point before it and the text from it on. A match carries the
  spans of its groups, the last one first, as the texts from their start and their end on.\<close>

type_synonym pos = "int option \<times> chars"
type_synonym caps = "(nat \<times> chars \<times> chars) list"
type_synonym hit = "pos \<times> caps"

fun wordlike :: "tables \<Rightarrow> int option \<Rightarrow> bool" where
  "wordlike U None = False"
| "wordlike U (Some c) = is_word U c"

definition next_char :: "pos \<Rightarrow> int option" where
  "next_char p = (case snd p of [] \<Rightarrow> None | c # cs \<Rightarrow> Some c)"

text \<open>One more copy of the body of a repeat: \<open>lo\<close> copies are still required and at most \<open>hi\<close> are
  allowed; an optional copy that consumes nothing is not tried.\<close>

primrec reps :: "(pos \<Rightarrow> caps \<Rightarrow> (pos \<Rightarrow> caps \<Rightarrow> hit option) \<Rightarrow> hit option) \<Rightarrow> bool \<Rightarrow> nat
    \<Rightarrow> nat \<Rightarrow> int option \<Rightarrow> pos \<Rightarrow> caps \<Rightarrow> (pos \<Rightarrow> caps \<Rightarrow> hit option) \<Rightarrow> hit option" where
  "reps body greedy 0 lo hi p g k = None"
| "reps body greedy (Suc fuel) lo hi p g k =
     (let once = (\<lambda>optional. body p g (\<lambda>q g'.
            if optional \<and> length (snd q) = length (snd p) then None
            else reps body greedy fuel (lo - 1) (map_option (\<lambda>n. n - 1) hi) q g' k))
      in if 0 < lo then once False
         else if hi = Some 0 then k p g
         else if greedy then (case once True of Some x \<Rightarrow> Some x | None \<Rightarrow> k p g)
         else (case k p g of Some x \<Rightarrow> Some x | None \<Rightarrow> once True))"

text \<open>The matcher: \<open>run U r p g k\<close> tries the ways \<open>r\<close> can match at \<open>p\<close> in Python's order of
  preference and returns the first one that the continuation \<open>k\<close> accepts. A repeat has fuel for
  its required copies and one optional copy per remaining code point.\<close>

primrec mt :: "tables \<Rightarrow> rx \<Rightarrow> pos \<Rightarrow> caps \<Rightarrow> (pos \<Rightarrow> caps \<Rightarrow> hit option) \<Rightarrow> hit option" where
  "mt U Eps p g k = k p g"
| "mt U (One f) p g k =
     (case snd p of [] \<Rightarrow> None | c # cs \<Rightarrow> if f c then k (Some c, cs) g else None)"
| "mt U (Cat a b) p g k = mt U a p g (\<lambda>q h. mt U b q h k)"
| "mt U (Alt a b) p g k = (case mt U a p g k of Some x \<Rightarrow> Some x | None \<Rightarrow> mt U b p g k)"
| "mt U (Rep greedy lo hi a) p g k = reps (mt U a) greedy (lo + length (snd p) + 1) lo hi p g k"
| "mt U Word_Boundary p g k =
     (if wordlike U (fst p) \<noteq> wordlike U (next_char p) then k p g else None)"
| "mt U Line_Start p g k = (if fst p = None \<or> fst p = Some 10 then k p g else None)"
| "mt U Line_End p g k = (if next_char p = None \<or> next_char p = Some 10 then k p g else None)"
| "mt U (Look ahead a) p g k =
     (case mt U a p g (\<lambda>q h. Some (q, h)) of
        Some x \<Rightarrow> if ahead then k p (snd x) else None
      | None \<Rightarrow> if ahead then None else k p g)"
| "mt U (Not_Behind f) p g k =
     (case fst p of None \<Rightarrow> k p g | Some c \<Rightarrow> if f c then None else k p g)"
| "mt U (Group n a) p g k = mt U a p g (\<lambda>q h. k q ((n, snd p, snd q) # h))"

section \<open>search, finditer and sub\<close>

text \<open>A match at a position; after an empty match the next one there must not be empty
  (\<open>must_advance\<close>).\<close>

definition match_at :: "tables \<Rightarrow> rx \<Rightarrow> bool \<Rightarrow> pos \<Rightarrow> hit option" where
  "match_at U r advance p =
     mt U r p [] (\<lambda>q g. if advance \<and> length (snd q) = length (snd p) then None else Some (q, g))"

record found =
  m_from :: pos
  m_to :: pos
  m_caps :: caps

fun scan :: "tables \<Rightarrow> rx \<Rightarrow> bool \<Rightarrow> int option \<Rightarrow> chars \<Rightarrow> found option" where
  "scan U r advance b [] =
     (case match_at U r advance (b, []) of
        Some (q, g) \<Rightarrow> Some \<lparr>m_from = (b, []), m_to = q, m_caps = g\<rparr> | None \<Rightarrow> None)"
| "scan U r advance b (c # cs) =
     (case match_at U r advance (b, c # cs) of
        Some (q, g) \<Rightarrow> Some \<lparr>m_from = (b, c # cs), m_to = q, m_caps = g\<rparr>
      | None \<Rightarrow> scan U r False (Some c) cs)"

text \<open>\<open>pos_at t i\<close> is position \<open>i\<close> of the text \<open>t\<close>. A continuation is only ever called at a
  position of the same text, not before the one the matcher started from.\<close>

definition pos_at :: "chars \<Rightarrow> nat \<Rightarrow> pos" where
  "pos_at t i = (if i = 0 then None else Some (t ! (i - 1)), drop i t)"

definition forward :: "(pos \<Rightarrow> caps \<Rightarrow> (pos \<Rightarrow> caps \<Rightarrow> hit option) \<Rightarrow> hit option) \<Rightarrow> bool" where
  "forward m \<longleftrightarrow> (\<forall>t i g k x. i \<le> length t \<longrightarrow> m (pos_at t i) g k = Some x
     \<longrightarrow> (\<exists>j h. i \<le> j \<and> j \<le> length t \<and> k (pos_at t j) h = Some x))"

lemma forwardE:
  assumes "forward m" "m (pos_at t i) g k = Some x" "i \<le> length t"
  obtains j h where "i \<le> j" "j \<le> length t" "k (pos_at t j) h = Some x"
  using assms unfolding forward_def by blast

lemma snd_pos_at [simp]: "snd (pos_at t i) = drop i t"
  by (simp add: pos_at_def)

lemma pos_at_0: "pos_at t 0 = (None, t)"
  by (simp add: pos_at_def)

lemma pos_at_step: "drop i t = c # cs \<Longrightarrow> (Some c, cs) = pos_at t (Suc i)"
proof -
  assume d: "drop i t = c # cs"
  then have "i < length t" by (metis drop_eq_Nil2 linorder_not_le list.distinct(1))
  then have "t ! i = c" "drop (Suc i) t = cs" using d by (simp_all add: Cons_nth_drop_Suc [symmetric])
  then show "(Some c, cs) = pos_at t (Suc i)" by (simp add: pos_at_def)
qed

lemma forward_here:
  assumes "\<And>p g k x. m p g k = Some x \<Longrightarrow> \<exists>h. k p h = Some x"
  shows "forward m"
  using assms unfolding forward_def by blast

lemma forward_reps: "forward body \<Longrightarrow> forward (reps body greedy fuel lo hi)"
proof (induction fuel arbitrary: lo hi)
  case (Suc fuel)
  show ?case
    unfolding forward_def
  proof (intro allI impI)
    fix t i g k x
    assume i: "i \<le> length t" and r: "reps body greedy (Suc fuel) lo hi (pos_at t i) g k = Some x"
    define once where "once = (\<lambda>opt. body (pos_at t i) g (\<lambda>q g'.
        if opt \<and> length (snd q) = length (snd (pos_at t i)) then None
        else reps body greedy fuel (lo - 1) (map_option (\<lambda>n. n - 1) hi) q g' k))"
    have later: "\<exists>j h. i \<le> j \<and> j \<le> length t \<and> k (pos_at t j) h = Some x" if "once opt = Some x" for opt
    proof -
      from forwardE [OF Suc.prems that [unfolded once_def] i] obtain j h where j: "i \<le> j" "j \<le> length t"
        and "reps body greedy fuel (lo - 1) (map_option (\<lambda>n. n - 1) hi) (pos_at t j) h k = Some x"
        by (metis option.distinct(1))
      from forwardE [OF Suc.IH [OF Suc.prems] this(3) j(2)] obtain j' h'
        where "j \<le> j'" "j' \<le> length t" "k (pos_at t j') h' = Some x" .
      then show ?thesis using j(1) by (intro exI [of _ j'] exI [of _ h']) simp
    qed
    have "(if 0 < lo then once False else if hi = Some 0 then k (pos_at t i) g
        else if greedy then (case once True of Some x \<Rightarrow> Some x | None \<Rightarrow> k (pos_at t i) g)
        else (case k (pos_at t i) g of Some x \<Rightarrow> Some x | None \<Rightarrow> once True)) = Some x"
      using r by (simp only: reps.simps once_def Let_def)
    then consider opt where "once opt = Some x" | "k (pos_at t i) g = Some x"
      by (auto split: if_splits option.splits)
    then show "\<exists>j h. i \<le> j \<and> j \<le> length t \<and> k (pos_at t j) h = Some x"
      using later i by cases blast+
  qed
qed (simp add: forward_def)

lemma forward_mt: "forward (mt U r)"
proof (induction r)
  case (One f)
  show ?case unfolding forward_def
  proof (intro allI impI)
    fix t i g k x
    assume i: "i \<le> length t" and m: "mt U (One f) (pos_at t i) g k = Some x"
    then obtain c cs where d: "drop i t = c # cs" and k: "k (Some c, cs) g = Some x"
      by (auto split: list.splits if_splits)
    have "i < length t" using d i by (metis drop_all le_neq_implies_less linorder_not_le list.distinct(1))
    then show "\<exists>j h. i \<le> j \<and> j \<le> length t \<and> k (pos_at t j) h = Some x"
      using k pos_at_step [OF d] by (intro exI [of _ "Suc i"] exI [of _ g]) simp
  qed
next
  case (Cat a b)
  show ?case unfolding forward_def
  proof (intro allI impI)
    fix t i g k x
    assume i: "i \<le> length t" and "mt U (Cat a b) (pos_at t i) g k = Some x"
    then have "mt U a (pos_at t i) g (\<lambda>q h. mt U b q h k) = Some x" by simp
    from forwardE [OF Cat.IH(1) this i] obtain j h
      where j: "i \<le> j" "j \<le> length t" "mt U b (pos_at t j) h k = Some x" .
    from forwardE [OF Cat.IH(2) j(3,2)] obtain j' h'
      where "j \<le> j'" "j' \<le> length t" "k (pos_at t j') h' = Some x" .
    then show "\<exists>j h. i \<le> j \<and> j \<le> length t \<and> k (pos_at t j) h = Some x"
      using j(1) by (intro exI [of _ j'] exI [of _ h']) simp
  qed
next
  case (Alt a b)
  then show ?case unfolding forward_def by (auto split: option.splits)
next
  case (Rep greedy lo hi a)
  show ?case unfolding forward_def
  proof (intro allI impI)
    fix t i g k x
    assume i: "i \<le> length t" and "mt U (Rep greedy lo hi a) (pos_at t i) g k = Some x"
    then have "reps (mt U a) greedy (lo + length (drop i t) + 1) lo hi (pos_at t i) g k = Some x"
      by (simp only: mt.simps snd_pos_at)
    from forwardE [OF forward_reps [OF Rep.IH] this i]
    show "\<exists>j h. i \<le> j \<and> j \<le> length t \<and> k (pos_at t j) h = Some x" by blast
  qed
next
  case (Group n a)
  show ?case unfolding forward_def
  proof (intro allI impI)
    fix t i g k x
    assume i: "i \<le> length t" and "mt U (Group n a) (pos_at t i) g k = Some x"
    then have "mt U a (pos_at t i) g (\<lambda>q h. k q ((n, drop i t, snd q) # h)) = Some x" by simp
    from forwardE [OF Group.IH this i] show "\<exists>j h. i \<le> j \<and> j \<le> length t \<and> k (pos_at t j) h = Some x"
      by blast
  qed
qed (rule forward_here, auto split: if_splits option.splits)+

lemma match_at_pos:
  assumes "match_at U r advance (pos_at t i) = Some (q, g)" and "i \<le> length t"
  obtains j where "i \<le> j" "j \<le> length t" "q = pos_at t j" "advance \<Longrightarrow> i < j"
proof -
  from forwardE [OF forward_mt assms(1) [unfolded match_at_def] assms(2)] obtain j h
    where j: "i \<le> j" "j \<le> length t"
      and k: "(if advance \<and> length (snd (pos_at t j)) = length (snd (pos_at t i)) then None else Some (pos_at t j, h)) = Some (q, g)" .
  have "advance \<Longrightarrow> i < j" using j k by (auto split: if_splits)
  then show thesis using j k that [of j] by (auto split: if_splits)
qed

text \<open>A matcher that finds nothing for a continuation finds nothing for one that accepts less.\<close>

definition shrinks :: "(pos \<Rightarrow> caps \<Rightarrow> (pos \<Rightarrow> caps \<Rightarrow> hit option) \<Rightarrow> hit option) \<Rightarrow> bool" where
  "shrinks m \<longleftrightarrow> (\<forall>p g k k'. (\<forall>q h. k q h = None \<longrightarrow> k' q h = None)
     \<longrightarrow> m p g k = None \<longrightarrow> m p g k' = None)"

lemma shrinksE: "shrinks m \<Longrightarrow> m p g k = None \<Longrightarrow> (\<And>q h. k q h = None \<Longrightarrow> k' q h = None) \<Longrightarrow> m p g k' = None"
  unfolding shrinks_def by blast

lemma shrinks_reps: "shrinks body \<Longrightarrow> shrinks (reps body greedy fuel lo hi)"
proof (induction fuel arbitrary: lo hi)
  case (Suc fuel)
  show ?case
    unfolding shrinks_def
  proof (intro allI impI)
    fix p g and k k' :: "pos \<Rightarrow> caps \<Rightarrow> hit option"
    assume less: "\<forall>q h. k q h = None \<longrightarrow> k' q h = None" and r: "reps body greedy (Suc fuel) lo hi p g k = None"
    define once where "once = (\<lambda>(k :: pos \<Rightarrow> caps \<Rightarrow> hit option) opt. body p g (\<lambda>q g'.
        if opt \<and> length (snd q) = length (snd p) then None
        else reps body greedy fuel (lo - 1) (map_option (\<lambda>n. n - 1) hi) q g' k))"
    have once: "once k' opt = None" if "once k opt = None" for opt
      unfolding once_def
    proof (rule shrinksE [OF Suc.prems that [unfolded once_def]])
      fix q h
      assume "(if opt \<and> length (snd q) = length (snd p) then None
        else reps body greedy fuel (lo - 1) (map_option (\<lambda>n. n - 1) hi) q h k) = None"
      then show "(if opt \<and> length (snd q) = length (snd p) then None
        else reps body greedy fuel (lo - 1) (map_option (\<lambda>n. n - 1) hi) q h k') = None"
        using shrinksE [OF Suc.IH [OF Suc.prems], of "lo - 1" "map_option (\<lambda>n. n - 1) hi" q h k k'] less
        by (auto split: if_splits)
    qed
    have eq: "reps body greedy (Suc fuel) lo hi p g k =
      (if 0 < lo then once k False else if hi = Some 0 then k p g
        else if greedy then (case once k True of Some x \<Rightarrow> Some x | None \<Rightarrow> k p g)
        else (case k p g of Some x \<Rightarrow> Some x | None \<Rightarrow> once k True))" for k
      by (simp only: reps.simps once_def Let_def)
    show "reps body greedy (Suc fuel) lo hi p g k' = None"
      using r once less [rule_format, of p g] unfolding eq by (simp split: if_splits option.splits)
  qed
qed (simp add: shrinks_def)

lemma shrinks_mt: "shrinks (mt U r)"
proof (induction r)
  case (Cat a b)
  show ?case unfolding shrinks_def
  proof (intro allI impI)
    fix p g and k k' :: "pos \<Rightarrow> caps \<Rightarrow> hit option"
    assume less: "\<forall>q h. k q h = None \<longrightarrow> k' q h = None" and "mt U (Cat a b) p g k = None"
    then have "mt U a p g (\<lambda>q h. mt U b q h k) = None" by simp
    then have "mt U a p g (\<lambda>q h. mt U b q h k') = None"
      by (rule shrinksE [OF Cat.IH(1)]) (use shrinksE [OF Cat.IH(2)] less in blast)
    then show "mt U (Cat a b) p g k' = None" by simp
  qed
next
  case (Rep greedy lo hi a)
  then show ?case
    using shrinks_reps [OF Rep.IH] unfolding shrinks_def mt.simps by blast
next
  case (Group n a)
  show ?case unfolding shrinks_def
  proof (intro allI impI)
    fix p g and k k' :: "pos \<Rightarrow> caps \<Rightarrow> hit option"
    assume less: "\<forall>q h. k q h = None \<longrightarrow> k' q h = None" and "mt U (Group n a) p g k = None"
    then have "mt U a p g (\<lambda>q h. k q ((n, snd p, snd q) # h)) = None" by simp
    then have "mt U a p g (\<lambda>q h. k' q ((n, snd p, snd q) # h)) = None"
      by (rule shrinksE [OF Group.IH]) (use less in blast)
    then show "mt U (Group n a) p g k' = None" by simp
  qed
qed (auto simp: shrinks_def split: if_splits option.splits list.splits)

lemma match_at_advance: "match_at U r False p = None \<Longrightarrow> match_at U r True p = None"
  unfolding match_at_def by (erule shrinksE [OF shrinks_mt]) simp

subsection \<open>search\<close>

definition scan_at :: "tables \<Rightarrow> rx \<Rightarrow> bool \<Rightarrow> chars \<Rightarrow> nat \<Rightarrow> found option" where
  "scan_at U r advance t i = scan U r advance (fst (pos_at t i)) (drop i t)"

lemma scan_step:
  "i < length t \<Longrightarrow> scan_at U r advance t i =
     (case match_at U r advance (pos_at t i) of
        Some (q, g) \<Rightarrow> Some \<lparr>m_from = pos_at t i, m_to = q, m_caps = g\<rparr>
      | None \<Rightarrow> scan_at U r False t (Suc i))"
proof -
  assume i: "i < length t"
  have d: "drop i t = t ! i # drop (Suc i) t" using i by (simp add: Cons_nth_drop_Suc)
  have p: "pos_at t i = (fst (pos_at t i), t ! i # drop (Suc i) t)" using d by (simp add: prod_eq_iff)
  have q: "fst (pos_at t (Suc i)) = Some (t ! i)" by (simp add: pos_at_def)
  show ?thesis unfolding scan_at_def d q scan.simps by (subst p [symmetric])+ (rule refl)
qed

lemma scan_end:
  "scan_at U r advance t (length t) =
     (case match_at U r advance (pos_at t (length t)) of
        Some (q, g) \<Rightarrow> Some \<lparr>m_from = pos_at t (length t), m_to = q, m_caps = g\<rparr> | None \<Rightarrow> None)"
proof -
  have d: "drop (length t) t = []" by simp
  have p: "pos_at t (length t) = (fst (pos_at t (length t)), [])" by (simp add: prod_eq_iff)
  show ?thesis unfolding scan_at_def d scan.simps by (subst p [symmetric])+ (rule refl)
qed

lemma scan_None:
  assumes "scan_at U r advance t i = None" "i \<le> j" "j \<le> length t"
  shows "match_at U r (advance \<and> j = i) (pos_at t j) = None"
  using assms
proof (induction "length t - i" arbitrary: i advance)
  case 0
  then have "i = length t" "j = length t" by simp_all
  then show ?case using 0 by (auto simp: scan_end split: option.splits)
next
  case (Suc n)
  then have i: "i < length t" by simp
  from Suc.prems(1) have m: "match_at U r advance (pos_at t i) = None" "scan_at U r False t (Suc i) = None"
    by (auto simp: scan_step [OF i] split: option.splits)
  have n: "n = length t - Suc i" using Suc.hyps(2) by simp
  show ?case
    using Suc.hyps(1) [OF n m(2)] Suc.prems(2,3) m(1) by (cases "j = i") auto
qed

lemma scan_Some:
  assumes "scan_at U r advance t i = Some m" "i \<le> length t"
  obtains s e where "i \<le> s" "s \<le> e" "e \<le> length t" "m_from m = pos_at t s" "m_to m = pos_at t e"
    and "advance \<and> s = i \<Longrightarrow> s < e" and "match_at U r (advance \<and> s = i) (pos_at t s) = Some (m_to m, m_caps m)"
    and "\<And>j. i \<le> j \<Longrightarrow> j < s \<Longrightarrow> match_at U r (advance \<and> j = i) (pos_at t j) = None"
proof -
  have now: ?thesis if "match_at U r advance (pos_at t i) = Some (q, g)"
    and "m = \<lparr>m_from = pos_at t i, m_to = q, m_caps = g\<rparr>" "i \<le> length t"
    and "\<And>s e. \<lbrakk>i \<le> s; s \<le> e; e \<le> length t; m_from m = pos_at t s; m_to m = pos_at t e; advance \<and> s = i \<Longrightarrow> s < e;
       match_at U r (advance \<and> s = i) (pos_at t s) = Some (m_to m, m_caps m);
       \<And>j. i \<le> j \<Longrightarrow> j < s \<Longrightarrow> match_at U r (advance \<and> j = i) (pos_at t j) = None\<rbrakk> \<Longrightarrow> thesis"
    for q g i advance
  proof -
    from match_at_pos [OF that(1,3)] obtain e
      where e: "i \<le> e" "e \<le> length t" "q = pos_at t e" "advance \<Longrightarrow> i < e" by blast
    show thesis by (rule that(4) [of i e]) (use e that(1,2) in auto)
  qed
  from assms that show thesis
  proof (induction "length t - i" arbitrary: i advance)
    case 0
    then have i: "i = length t" by simp
    obtain q g where "match_at U r advance (pos_at t i) = Some (q, g)"
      and "m = \<lparr>m_from = pos_at t i, m_to = q, m_caps = g\<rparr>"
      using 0(2) unfolding i scan_end by (auto split: option.splits)
    from now [OF this 0(3)] 0(4) show thesis by blast
  next
    case (Suc n)
    then have i: "i < length t" and n: "n = length t - Suc i" by simp_all
    show thesis
    proof (cases "match_at U r advance (pos_at t i)")
      case None
      with Suc.prems(1) have "scan_at U r False t (Suc i) = Some m" by (simp add: scan_step [OF i])
      then show thesis
      proof (rule Suc.hyps(1) [OF n])
        fix s e
        assume *: "Suc i \<le> s" "s \<le> e" "e \<le> length t" "m_from m = pos_at t s" "m_to m = pos_at t e"
          "match_at U r (False \<and> s = Suc i) (pos_at t s) = Some (m_to m, m_caps m)"
          and none: "\<And>j. Suc i \<le> j \<Longrightarrow> j < s \<Longrightarrow> match_at U r (False \<and> j = Suc i) (pos_at t j) = None"
        show thesis
        proof (rule Suc.prems(3) [of s e])
          show "match_at U r (advance \<and> j = i) (pos_at t j) = None" if "i \<le> j" "j < s" for j
            using none [of j] that None by (cases "j = i") auto
        qed (use * in auto)
      qed (use i in simp)
    next
      case (Some hit)
      obtain q g where hit: "hit = (q, g)" by (cases hit)
      with Some Suc.prems(1) have "m = \<lparr>m_from = pos_at t i, m_to = q, m_caps = g\<rparr>"
        by (simp add: scan_step [OF i])
      from now [OF Some [unfolded hit] this Suc.prems(2)] Suc.prems(3) show thesis by blast
    qed
  qed
qed

subsection \<open>finditer\<close>

definition nonempty_found :: "found \<Rightarrow> bool" where
  "nonempty_found m \<longleftrightarrow> length (snd (m_to m)) \<noteq> length (snd (m_from m))"

lemma any_pos: "\<exists>t i. i \<le> length t \<and> (b, cs) = pos_at t i"
proof (cases b)
  case None
  then show ?thesis by (intro exI [of _ cs] exI [of _ 0]) (simp add: pos_at_def)
next
  case (Some c)
  then show ?thesis by (intro exI [of _ "c # cs"] exI [of _ 1]) (simp add: pos_at_def)
qed

lemma scan_shorter:
  assumes "scan U r advance b cs = Some m"
  shows "length (snd (m_to m)) \<le> length (snd (m_from m))" and "length (snd (m_from m)) \<le> length cs"
    and "advance \<Longrightarrow> length (snd (m_from m)) = length cs \<Longrightarrow> nonempty_found m"
proof -
  obtain t i where i: "i \<le> length t" and p: "(b, cs) = pos_at t i" using any_pos by blast
  have cs: "cs = drop i t" and b: "b = fst (pos_at t i)" using p by (simp_all add: pos_at_def)
  have sc: "scan_at U r advance t i = Some m" using assms unfolding scan_at_def b cs .
  obtain s e where *: "i \<le> s" "s \<le> e" "e \<le> length t" "m_from m = pos_at t s" "m_to m = pos_at t e"
    and ad: "advance \<and> s = i \<Longrightarrow> s < e"
    by (rule scan_Some [OF sc i]) blast
  show "length (snd (m_to m)) \<le> length (snd (m_from m))" "length (snd (m_from m)) \<le> length cs"
    using * cs by simp_all
  show "nonempty_found m" if "advance" "length (snd (m_from m)) = length cs"
  proof -
    have "s = i" using that(2) * cs i by simp
    with ad that(1) have "s < e" by simp
    then show ?thesis using * by (simp add: nonempty_found_def)
  qed
qed

function finditer :: "tables \<Rightarrow> rx \<Rightarrow> bool \<Rightarrow> int option \<Rightarrow> chars \<Rightarrow> found list" where
  "finditer U r advance b cs =
     (case scan U r advance b cs of
        None \<Rightarrow> []
      | Some m \<Rightarrow> m # finditer U r (\<not> nonempty_found m) (fst (m_to m)) (snd (m_to m)))"
  by pat_completeness auto
termination
proof (relation "measure (\<lambda>(U, r, advance, b, cs). 2 * length cs + (if advance then 0 else 1))")
  fix U r advance b and cs :: chars and m
  assume "scan U r advance b cs = Some m"
  from scan_shorter [OF this]
  show "((U, r, \<not> nonempty_found m, fst (m_to m), snd (m_to m)), U, r, advance, b, cs)
     \<in> measure (\<lambda>(U, r, advance, b, cs). 2 * length cs + (if advance then 0 else 1))"
    by (cases "nonempty_found m"; cases advance; cases "length (snd (m_from m)) = length cs")
      (auto simp: nonempty_found_def case_prod_beta)
qed simp

declare finditer.simps [simp del]

definition span :: "chars \<Rightarrow> found \<Rightarrow> nat \<times> nat" where
  "span t m = (length t - length (snd (m_from m)), length t - length (snd (m_to m)))"

definition matches :: "tables \<Rightarrow> rx \<Rightarrow> chars \<Rightarrow> found list" where
  "matches U r t = finditer U r False None t"

definition spans :: "tables \<Rightarrow> rx \<Rightarrow> chars \<Rightarrow> (nat \<times> nat) list" where
  "spans U r t = map (span t) (matches U r t)"

text \<open>\<open>pattern.search(text)\<close>, as a condition.\<close>

definition found_in :: "tables \<Rightarrow> rx \<Rightarrow> chars \<Rightarrow> bool" where
  "found_in U r t \<longleftrightarrow> scan U r False None t \<noteq> None"

text \<open>\<open>match.group(0)\<close>.\<close>

definition matched :: "found \<Rightarrow> chars" where
  "matched m = take (length (snd (m_from m)) - length (snd (m_to m))) (snd (m_from m))"

text \<open>Spans as \<open>finditer\<close> returns them: in order, disjoint, within the text.\<close>

fun ordered :: "nat \<Rightarrow> nat \<Rightarrow> (nat \<times> nat) list \<Rightarrow> bool" where
  "ordered i n [] \<longleftrightarrow> i \<le> n"
| "ordered i n ((s, e) # ss) \<longleftrightarrow> i \<le> s \<and> s \<le> e \<and> e \<le> n \<and> ordered e n ss"

definition covered :: "(nat \<times> nat) list \<Rightarrow> nat \<Rightarrow> bool" where
  "covered ss i \<longleftrightarrow> (\<exists>(s, e) \<in> set ss. s \<le> i \<and> i < e)"

lemma covered_simps [simp]:
  "\<not> covered [] i" "covered ((s, e) # ss) i \<longleftrightarrow> s \<le> i \<and> i < e \<or> covered ss i"
  by (auto simp: covered_def)

lemma ordered_le: "ordered i n ss \<Longrightarrow> i \<le> n"
  by (induction i n ss rule: ordered.induct) auto

lemma ordered_mono: "ordered i n ss \<Longrightarrow> j \<le> i \<Longrightarrow> ordered j n ss"
  by (cases ss) auto

lemma ordered_not_before: "ordered i n ss \<Longrightarrow> j < i \<Longrightarrow> \<not> covered ss j"
  by (induction i n ss rule: ordered.induct) auto

lemma finditer_ordered:
  assumes "i \<le> length t"
  shows "ordered i (length t) (map (span t) (finditer U r advance (fst (pos_at t i)) (drop i t)))
    \<and> (\<forall>j. i \<le> j \<and> j \<le> length t \<and> match_at U r True (pos_at t j) \<noteq> None
        \<longrightarrow> covered (map (span t) (finditer U r advance (fst (pos_at t i)) (drop i t))) j)"
  using assms
proof (induction "2 * length (drop i t) + (if advance then 0 else 1)" arbitrary: i advance rule: less_induct)
  case less
  show ?case
  proof (cases "scan_at U r advance t i")
    case None
    have "match_at U r True (pos_at t j) = None" if "i \<le> j" "j \<le> length t" for j
      using scan_None [OF None that] match_at_advance [of U r "pos_at t j"] by (cases "advance \<and> j = i") auto
    then show ?thesis using None less.prems by (simp add: finditer.simps [of U r advance] scan_at_def)
  next
    case (Some m)
    obtain s e where se: "i \<le> s" "s \<le> e" "e \<le> length t" "m_from m = pos_at t s" "m_to m = pos_at t e"
      and ad: "advance \<and> s = i \<Longrightarrow> s < e"
      and before: "\<And>j. i \<le> j \<Longrightarrow> j < s \<Longrightarrow> match_at U r (advance \<and> j = i) (pos_at t j) = None"
      by (rule scan_Some [OF Some less.prems]) blast
    have ne: "nonempty_found m \<longleftrightarrow> s < e" using se by (auto simp: nonempty_found_def)
    have sp: "span t m = (s, e)" using se by (simp add: span_def)
    let ?rest = "map (span t) (finditer U r (\<not> s < e) (fst (pos_at t e)) (drop e t))"
    have eq: "map (span t) (finditer U r advance (fst (pos_at t i)) (drop i t)) = (s, e) # ?rest"
      using Some sp se(5) by (simp add: finditer.simps [of U r advance] scan_at_def ne del: not_less)
    have "i < e" if "advance" "\<not> s < e" using ad se that by (cases "s = i") auto
    then have "2 * length (drop e t) + (if \<not> s < e then 0 else 1) < 2 * length (drop i t) + (if advance then 0 else 1)"
      using se by (cases "s < e"; cases advance) auto
    from less.hyps [OF this se(3)]
    have o: "ordered e (length t) ?rest"
      and c: "\<And>j. e \<le> j \<Longrightarrow> j \<le> length t \<Longrightarrow> match_at U r True (pos_at t j) \<noteq> None \<Longrightarrow> covered ?rest j"
      by blast+
    have "covered ((s, e) # ?rest) j"
      if "i \<le> j" "j \<le> length t" "match_at U r True (pos_at t j) \<noteq> None" for j
    proof -
      have "\<not> j < s"
        using before [OF that(1)] that(3) match_at_advance [of U r "pos_at t j"] by (cases "advance \<and> j = i") auto
      then show ?thesis using c [OF _ that(2,3)] by (cases "j < e") auto
    qed
    then show ?thesis unfolding eq using se o by simp
  qed
qed

theorem spans_ordered: "ordered 0 (length t) (spans U r t)"
  using finditer_ordered [of 0 t U r False] by (simp add: spans_def matches_def pos_at_def)

theorem spans_cover:
  "j \<le> length t \<Longrightarrow> match_at U r True (pos_at t j) \<noteq> None \<Longrightarrow> covered (spans U r t) j"
  using finditer_ordered [of 0 t U r False] by (simp add: spans_def matches_def pos_at_def)

lemma matches_Nil_iff: "matches U r t = [] \<longleftrightarrow> \<not> found_in U r t"
  by (simp add: matches_def found_in_def finditer.simps [of U r False] split: option.splits)

lemma not_found_anywhere: "\<not> found_in U r t \<Longrightarrow> j \<le> length t \<Longrightarrow> match_at U r False (pos_at t j) = None"
  using scan_None [of U r False t 0 j] by (simp add: found_in_def scan_at_def pos_at_def)

subsection \<open>sub\<close>

text \<open>The text with each span replaced: \<open>rest\<close> is the text from position \<open>i\<close> on.\<close>

fun weave :: "nat \<Rightarrow> chars \<Rightarrow> (nat \<times> nat \<times> chars) list \<Rightarrow> chars" where
  "weave i rest [] = rest"
| "weave i rest ((s, e, r) # ss) = take (s - i) rest @ r @ weave e (drop (e - i) rest) ss"

text \<open>The \<open>re\<close> module beyond matching: \<open>re.compile(p, re.IGNORECASE | re.VERBOSE)\<close> and the template
  language of replacements that hold a backslash; a replacement without one stands for itself.\<close>

record engine =
  en_tables :: tables
  re_compile :: "chars \<Rightarrow> exn + rx"
  re_template :: "chars \<Rightarrow> exn + (found \<Rightarrow> chars)"

definition re_sub :: "engine \<Rightarrow> rx \<Rightarrow> chars \<Rightarrow> chars \<Rightarrow> exn + chars" where
  "re_sub E r repl t =
     rbind (if 92 \<in> set repl then re_template E repl else Inr (\<lambda>m. repl)) (\<lambda>f.
     Inr (weave 0 t (map (\<lambda>m. (fst (span t m), snd (span t m), f m)) (matches (en_tables E) r t))))"

section \<open>Building patterns\<close>

definition upper :: "int \<Rightarrow> bool" where
  "upper c \<longleftrightarrow> 65 \<le> c \<and> c \<le> 90"

definition lower :: "int \<Rightarrow> bool" where
  "lower c \<longleftrightarrow> 97 \<le> c \<and> c \<le> 122"

definition digit :: "int \<Rightarrow> bool" where
  "digit c \<longleftrightarrow> 48 \<le> c \<and> c \<le> 57"

definition letter :: "int \<Rightarrow> bool" where
  "letter c \<longleftrightarrow> upper c \<or> lower c"

definition alnum :: "int \<Rightarrow> bool" where
  "alnum c \<longleftrightarrow> upper c \<or> lower c \<or> digit c"

definition among :: "string \<Rightarrow> int \<Rightarrow> bool" where
  "among s c \<longleftrightarrow> c \<in> set (u s)"

text \<open>A character set under \<open>re.IGNORECASE\<close>.\<close>

definition ci :: "tables \<Rightarrow> (int \<Rightarrow> bool) \<Rightarrow> int \<Rightarrow> bool" where
  "ci U f c \<longleftrightarrow> f c \<or> list_ex f (case_variants U c)"

fun cats :: "rx list \<Rightarrow> rx" where
  "cats [] = Eps"
| "cats [r] = r"
| "cats (r # rs) = Cat r (cats rs)"

fun alts :: "rx list \<Rightarrow> rx" where
  "alts [] = Look False Eps"
| "alts [r] = r"
| "alts (r # rs) = Alt r (alts rs)"

definition lit :: "string \<Rightarrow> rx" where
  "lit s = cats (map (\<lambda>c. One (\<lambda>x. x = ord c)) s)"

definition lit_ci :: "tables \<Rightarrow> string \<Rightarrow> rx" where
  "lit_ci U s = cats (map (\<lambda>c. One (ci U (\<lambda>x. x = ord c))) s)"

definition many :: "rx \<Rightarrow> rx" where
  "many r = Rep True 0 None r"

definition some_of :: "rx \<Rightarrow> rx" where
  "some_of r = Rep True 1 None r"

definition optional :: "rx \<Rightarrow> rx" where
  "optional r = Rep True 0 (Some 1) r"

definition at_least :: "nat \<Rightarrow> rx \<Rightarrow> rx" where
  "at_least n r = Rep True n None r"

definition exactly :: "nat \<Rightarrow> rx \<Rightarrow> rx" where
  "exactly n r = Rep True n (Some (int n)) r"

definition between :: "nat \<Rightarrow> int \<Rightarrow> rx \<Rightarrow> rx" where
  "between n m r = Rep True n (Some m) r"

end
