(* ===== verification/Redaction.thy ===== *)
theory Redaction
  imports Regex "HOL-Library.Product_Lexorder"
begin

text \<open>
  The deterministic redaction of \<open>privacy.py\<close>: the credential and class patterns, the
  parser of \<open>REDACT.md\<close>, the decoders and the scans of the whitespace-collapsed and the
  encoded surfaces, and \<open>scrub\<close> with its report. Python's Unicode tables and
  \<open>re.compile\<close> are parameters (\<open>Regex.engine\<close>).
\<close>

section \<open>Patterns\<close>

text \<open>\<open>_PROVIDER_PATTERNS\<close>, in the order of the dictionary.\<close>

definition openai_project :: rx where
  "openai_project = Cat (lit ''sk-proj-'') (at_least 20 (One (\<lambda>c. alnum c \<or> among ''_-'' c)))"

definition openai_bare :: rx where
  "openai_bare = cats [Word_Boundary, lit ''sk-'', Look False (lit ''proj-''),
     at_least 20 (One alnum), Word_Boundary]"

definition github_pat :: rx where
  "github_pat = Cat (lit ''github_pat_'') (at_least 20 (One (\<lambda>c. alnum c \<or> among ''_'' c)))"

definition github_ghp :: rx where
  "github_ghp = cats [Word_Boundary, lit ''ghp_'', at_least 20 (One alnum), Word_Boundary]"

definition slack_bot :: rx where
  "slack_bot = cats [Word_Boundary, lit ''xoxb-'', at_least 10 (One (\<lambda>c. alnum c \<or> among ''-'' c)),
     Word_Boundary]"

definition google_api :: rx where
  "google_api = cats [Word_Boundary, lit ''AIza'', at_least 30 (One (\<lambda>c. alnum c \<or> among ''_-'' c)),
     Word_Boundary]"

definition aws_access_key :: rx where
  "aws_access_key = cats [Word_Boundary, lit ''AKIA'', exactly 16 (One (\<lambda>c. upper c \<or> digit c)),
     Word_Boundary]"

definition key_kinds :: rx where
  "key_kinds = optional (alts [lit ''RSA '', lit ''EC '', lit ''DSA '', lit ''OPENSSH '',
     lit ''ENCRYPTED '', lit ''PGP ''])"

definition pem_block :: rx where
  "pem_block = cats [lit ''-----BEGIN '', key_kinds, lit ''PRIVATE KEY-----'',
     Rep False 1 (Some 8192) (One (\<lambda>c. True)),
     lit ''-----END '', key_kinds, lit ''PRIVATE KEY-----'']"

definition natural_language :: "tables \<Rightarrow> rx" where
  "natural_language U = cats [Word_Boundary,
     alts [lit_ci U ''api key'', lit_ci U ''secret key'', lit_ci U ''access token''],
     many (One (is_space U)), optional (One (ci U (among '':=''))), many (One (is_space U)),
     optional (One (\<lambda>c. c = 39 \<or> c = 34)),
     Group 1 (Cat (One (ci U (\<lambda>c. alnum c \<or> among ''_-'' c)))
       (at_least 7 (One (ci U (\<lambda>c. alnum c \<or> among ''_-./+='' c))))),
     optional (One (\<lambda>c. c = 39 \<or> c = 34))]"

definition provider_patterns :: "tables \<Rightarrow> (string \<times> rx) list" where
  "provider_patterns U =
     [(''credentials_openai_project'', openai_project),
      (''credentials_openai_bare'', openai_bare),
      (''credentials_github_pat'', github_pat),
      (''credentials_github_ghp'', github_ghp),
      (''credentials_slack_bot'', slack_bot),
      (''credentials_google_api'', google_api),
      (''credentials_aws_access_key'', aws_access_key),
      (''credentials_pem_block'', pem_block),
      (''credentials_natural_language'', natural_language U)]"

text \<open>\<open>_BUILTIN_PATTERNS\<close>: one pattern per class of \<open>REDACT.md\<close>.\<close>

definition credential_value :: "tables \<Rightarrow> int \<Rightarrow> bool" where
  "credential_value U = ci U (\<lambda>c. alnum c \<or> among ''+/=-_'' c)"

definition credentials :: "tables \<Rightarrow> rx" where
  "credentials U = cats [Word_Boundary,
     alts [cats [lit_ci U ''api'', optional (One (ci U (among ''_-''))), lit_ci U ''key''],
       lit_ci U ''token'', lit_ci U ''secret'', lit_ci U ''password'', lit_ci U ''passwd'',
       lit_ci U ''bearer'', lit_ci U ''auth''],
     between 1 4 (One (\<lambda>c. is_space U c \<or> among '':='' c \<or> c = 39 \<or> c = 34)),
     Look True (Cat (many (One (credential_value U))) (One (is_decimal U))),
     at_least 8 (One (credential_value U))]"

definition not_a_name :: "string list" where
  "not_a_name = [''Hire'', ''Call'', ''Email'', ''Tell'', ''Send'', ''Meet'', ''Ask'', ''See'',
     ''Visit'', ''With'', ''Hired'', ''Called'', ''Emailed'', ''Told'', ''Sent'', ''Met'', ''Asked'',
     ''Saw'', ''Visited'', ''Will'', ''Can'', ''May'', ''Should'', ''Would'', ''Shall'', ''Did'',
     ''Was'', ''Were'', ''Has'', ''Have'', ''Had'', ''Benchmark'', ''Failure'', ''Analysis'']"

definition pii :: "tables \<Rightarrow> rx" where
  "pii U = (let b = Word_Boundary; d = One (is_decimal U); sep = One (among ''.- '') in
     alts [cats [b, Look False (Cat (alts (map lit not_a_name)) b),
         One upper, between 1 20 (One lower), lit '' '', One upper, between 1 20 (One lower), b],
       cats [b, exactly 3 d, lit ''-'', exactly 2 d, lit ''-'', exactly 4 d, b],
       cats [b, exactly 3 d, sep, exactly 3 d, sep, exactly 4 d, b]])"

definition email :: rx where
  "email = cats [some_of (One (\<lambda>c. alnum c \<or> among ''._%+-'' c)), lit ''@'',
     some_of (One (\<lambda>c. alnum c \<or> among ''.-'' c)), lit ''.'', at_least 2 (One letter)]"

definition path_char :: "tables \<Rightarrow> int \<Rightarrow> bool" where
  "path_char U c \<longleftrightarrow> \<not> (is_space U c \<or> c = 34 \<or> c = 39 \<or> among ''<>'' c)"

definition internal_paths :: "tables \<Rightarrow> rx" where
  "internal_paths U = alts
     [cats [lit ''/'', alts (map lit [''Users'', ''home'', ''var'', ''etc'', ''opt'', ''srv'']), lit ''/'',
        some_of (One (path_char U))],
      cats [One letter, lit '':'', One (\<lambda>c. c = 92), some_of (One (path_char U))]]"

definition client_data :: "tables \<Rightarrow> rx" where
  "client_data U = cats [Word_Boundary,
     alts (map (lit_ci U) [''client'', ''customer'', ''account'', ''contract'']),
     optional (One (ci U (among ''_- ''))),
     alts (map (lit_ci U) [''id'', ''name'', ''number'', ''ref'']),
     between 0 4 (One (\<lambda>c. among ''_- :='' c \<or> c = 39 \<or> c = 34)),
     at_least 3 (One (ci U (\<lambda>c. alnum c \<or> among ''-'' c)))]"

definition financial :: "tables \<Rightarrow> rx" where
  "financial U = (let b = Word_Boundary; d = One (is_decimal U); sep = optional (One (among '' -'')) in
     alts [cats [b, exactly 4 d, sep, exactly 4 d, sep, exactly 4 d, sep, exactly 4 d, b],
       cats [lit ''$'', many (lit '' ''), d, many (One (\<lambda>c. is_decimal U c \<or> among '','' c)),
         optional (Cat (lit ''.'') (exactly 2 d))],
       cats [b, alts (map lit [''IBAN'', ''BIC'', ''SWIFT'']),
         some_of (One (\<lambda>c. among '':'' c \<or> is_space U c)),
         between 8 34 (One (\<lambda>c. upper c \<or> digit c))]])"

definition proprietary_code :: "tables \<Rightarrow> rx" where
  "proprietary_code U = (let d = One (is_decimal U) in
     cats [Word_Boundary,
       alts [cats [between 2 6 (One (ci U upper)), lit ''-'', between 3 8 d],
         cats [lit_ci U ''v'', some_of d, lit ''.'', some_of d, lit ''.'', some_of d,
           some_of (One (\<lambda>c. among ''-'' c \<or> is_word U c))]],
       Word_Boundary])"

definition builtin_patterns :: "tables \<Rightarrow> (chars \<times> rx) list" where
  "builtin_patterns U =
     [(u ''credentials'', credentials U), (u ''pii'', pii U), (u ''email'', email),
      (u ''internal_paths'', internal_paths U), (u ''client_data'', client_data U),
      (u ''financial'', financial U), (u ''proprietary_code'', proprietary_code U)]"

section \<open>Text operations\<close>

definition strip_left :: "tables \<Rightarrow> chars \<Rightarrow> chars" where
  "strip_left U t = dropWhile (is_space U) t"

definition strip_right :: "tables \<Rightarrow> chars \<Rightarrow> chars" where
  "strip_right U t = rev (dropWhile (is_space U) (rev t))"

definition strip :: "tables \<Rightarrow> chars \<Rightarrow> chars" where
  "strip U t = strip_right U (strip_left U t)"

definition lowered :: "tables \<Rightarrow> chars \<Rightarrow> chars" where
  "lowered U t = concat (map (to_lower U) t)"

fun begins :: "chars \<Rightarrow> chars \<Rightarrow> bool" where
  "begins [] t = True"
| "begins (x # xs) [] = False"
| "begins (x # xs) (y # ys) = (x = y \<and> begins xs ys)"

definition ends :: "chars \<Rightarrow> chars \<Rightarrow> bool" where
  "ends suffix t = begins (rev suffix) (rev t)"

text \<open>The text before and after the first occurrence of a separator
  (\<open>str.split(sep, 1)\<close>, \<open>str.partition\<close>).\<close>

fun cut :: "chars \<Rightarrow> chars \<Rightarrow> (chars \<times> chars) option" where
  "cut sep [] = (if sep = [] then Some ([], []) else None)"
| "cut sep (c # cs) =
     (if begins sep (c # cs) then Some ([], drop (length sep) (c # cs))
      else map_option (\<lambda>(a, b). (c # a, b)) (cut sep cs))"

text \<open>\<open>str.splitlines\<close>.\<close>

definition line_break :: "int \<Rightarrow> bool" where
  "line_break c \<longleftrightarrow> c \<in> {10, 11, 12, 13, 28, 29, 30, 133, 8232, 8233}"

fun lines_from :: "chars \<Rightarrow> chars \<Rightarrow> chars list" where
  "lines_from acc [] = (if acc = [] then [] else [rev acc])"
| "lines_from acc [c] = (if line_break c then [rev acc] else [rev (c # acc)])"
| "lines_from acc (c # d # cs) =
     (if c = 13 \<and> d = 10 then rev acc # lines_from [] cs
      else if line_break c then rev acc # lines_from [] (d # cs)
      else lines_from (c # acc) (d # cs))"

definition splitlines :: "chars \<Rightarrow> chars list" where
  "splitlines t = lines_from [] t"

text \<open>\<open>dict.get(k, default)\<close> and \<open>dict[k] = v\<close>.\<close>

definition the_default :: "'a \<Rightarrow> 'a option \<Rightarrow> 'a" where
  "the_default d x = (case x of None \<Rightarrow> d | Some y \<Rightarrow> y)"

fun put_item :: "'k \<Rightarrow> 'v \<Rightarrow> ('k \<times> 'v) list \<Rightarrow> ('k \<times> 'v) list" where
  "put_item k v [] = [(k, v)]"
| "put_item k v ((k', v') # xs) = (if k = k' then (k, v) # xs else (k', v') # put_item k v xs)"

section \<open>REDACT.md\<close>

record redact_class =
  rc_name :: chars
  rc_enabled :: bool
  rc_replacement :: chars
  rc_pattern :: "chars option"

definition default_replacement :: "chars \<Rightarrow> chars" where
  "default_replacement n = u ''[PII:'' @ n @ u '']''"

definition default_classes :: "tables \<Rightarrow> redact_class list" where
  "default_classes U = map (\<lambda>(n, r). \<lparr>rc_name = n, rc_enabled = True,
     rc_replacement = default_replacement n, rc_pattern = None\<rparr>) (builtin_patterns U)"

definition parse_bool :: "tables \<Rightarrow> chars \<Rightarrow> bool" where
  "parse_bool U v \<longleftrightarrow> lowered U (strip U v) \<in> set [u ''true'', u ''yes'', u ''on'', u ''1'']"

definition parse_scalar :: "tables \<Rightarrow> chars \<Rightarrow> chars" where
  "parse_scalar U v =
     (let v = strip U v;
          v = (case cut (u ''#'') v of Some (a, b) \<Rightarrow> strip U a | None \<Rightarrow> v)
      in if 2 \<le> length v \<and> hd v = List.last v \<and> (hd v = 39 \<or> hd v = 34)
         then take (length v - 2) (drop 1 v) else v)"

text \<open>The scanner of the frontmatter: whether it is inside \<open>classes:\<close>, the current class, and
  the classes read so far with their settings, in the order of the dictionary.\<close>

type_synonym settings = "(chars \<times> chars) list"
type_synonym front = "bool \<times> chars option \<times> (chars \<times> settings) list"

definition front_line :: "tables \<Rightarrow> front \<Rightarrow> chars \<Rightarrow> front" where
  "front_line U s raw = (case s of (inside, current, classes) \<Rightarrow>
     let line = strip_right U raw; stripped = strip U line;
         indent = length line - length (dropWhile (\<lambda>c. c = 32) line)
     in if stripped = [] \<or> begins (u ''#'') stripped then s
        else if indent = 0 then (stripped = u ''classes:'', None, classes)
        else if \<not> inside then s
        else if indent = 2 \<and> ends (u '':'') stripped \<and> \<not> begins (u ''- '') stripped then
          (let name = strip U (butlast stripped)
           in (inside, Some name, if map_of classes name = None then classes @ [(name, [])] else classes))
        else (case current of
            None \<Rightarrow> s
          | Some name \<Rightarrow>
              if indent \<noteq> 4 then s
              else (case cut (u '':'') stripped of
                  None \<Rightarrow> s
                | Some (key, v) \<Rightarrow>
                    if strip U key \<in> set [u ''enabled'', u ''replacement'', u ''pattern'']
                    then (inside, current, put_item name
                      (put_item (strip U key) (parse_scalar U v) (the_default [] (map_of classes name))) classes)
                    else s)))"

definition class_of :: "tables \<Rightarrow> chars \<times> settings \<Rightarrow> redact_class" where
  "class_of U nc = (case nc of (name, cfg) \<Rightarrow>
     \<lparr>rc_name = name,
      rc_enabled = parse_bool U (the_default (u ''false'') (map_of cfg (u ''enabled''))),
      rc_replacement = the_default (default_replacement name) (map_of cfg (u ''replacement'')),
      rc_pattern = map_of cfg (u ''pattern'')\<rparr>)"

definition parse_frontmatter :: "tables \<Rightarrow> chars \<Rightarrow> redact_class list" where
  "parse_frontmatter U block =
     map (class_of U) (snd (snd (foldl (front_line U) (False, None, []) (splitlines block))))"

text \<open>\<open>_load_redact_md\<close>: the file is \<open>None\<close> when it does not exist. \<open>text.split('---', 2)\<close> has a
  third part when the marker occurs twice.\<close>

definition load_redact :: "tables \<Rightarrow> chars option \<Rightarrow> redact_class list" where
  "load_redact U file = (case file of
       None \<Rightarrow> default_classes U
     | Some t \<Rightarrow>
         if begins (u ''---'') t then
           (case cut (u ''---'') (drop 3 t) of
              None \<Rightarrow> default_classes U
            | Some (block, rest) \<Rightarrow>
                (let cs = parse_frontmatter U block in if cs = [] then default_classes U else cs))
         else default_classes U)"

section \<open>Normalisation\<close>

text \<open>\<open>_HOMOGLYPHS\<close>: Cyrillic and Greek look-alikes of Latin letters.\<close>

definition homoglyphs :: "(int \<times> int) list" where
  "homoglyphs = map (\<lambda>(g, c). (g, ord c))
     [(0x430, CHR ''a''), (0x435, CHR ''e''), (0x43E, CHR ''o''), (0x440, CHR ''p''),
      (0x441, CHR ''c''), (0x445, CHR ''x''), (0x456, CHR ''i''), (0x4CF, CHR ''l''),
      (0x443, CHR ''y''), (0x455, CHR ''s''), (0x458, CHR ''j''), (0x4BB, CHR ''h''),
      (0x410, CHR ''A''), (0x412, CHR ''B''), (0x415, CHR ''E''), (0x41A, CHR ''K''),
      (0x41C, CHR ''M''), (0x41D, CHR ''H''), (0x41E, CHR ''O''), (0x420, CHR ''P''),
      (0x421, CHR ''C''), (0x422, CHR ''T''), (0x425, CHR ''X''), (0x406, CHR ''I''),
      (0x405, CHR ''S''), (0x408, CHR ''J''), (0x423, CHR ''Y''),
      (0x391, CHR ''A''), (0x392, CHR ''B''), (0x395, CHR ''E''), (0x396, CHR ''Z''),
      (0x397, CHR ''H''), (0x399, CHR ''I''), (0x39A, CHR ''K''), (0x39C, CHR ''M''),
      (0x39D, CHR ''N''), (0x39F, CHR ''O''), (0x3A1, CHR ''P''), (0x3A4, CHR ''T''),
      (0x3A5, CHR ''Y''), (0x3A7, CHR ''X'')]"

text \<open>\<open>_INVISIBLE_CHARS_RE\<close>: zero-width characters, directional marks and overrides, BOM.\<close>

definition invisible :: "int \<Rightarrow> bool" where
  "invisible c \<longleftrightarrow> 0x200B \<le> c \<and> c \<le> 0x200F \<or> 0x202A \<le> c \<and> c \<le> 0x202E
     \<or> 0x2060 \<le> c \<and> c \<le> 0x2064 \<or> 0x2066 \<le> c \<and> c \<le> 0x2069 \<or> c = 0xFEFF"

definition unicode_normalize :: "tables \<Rightarrow> chars \<Rightarrow> chars" where
  "unicode_normalize U t = nfkc U (filter (\<lambda>c. \<not> invisible c) t)"

definition homoglyph_normalize :: "chars \<Rightarrow> chars" where
  "homoglyph_normalize t = map (\<lambda>c. the_default c (map_of homoglyphs c)) t"

definition fold_text :: "tables \<Rightarrow> chars \<Rightarrow> chars" where
  "fold_text U t = homoglyph_normalize (unicode_normalize U t)"

section \<open>Encoded text\<close>

text \<open>\<open>bytes.decode('utf-8', errors='strict')\<close>.\<close>

definition tail_byte :: "int \<Rightarrow> bool" where
  "tail_byte b \<longleftrightarrow> 128 \<le> b \<and> b \<le> 191"

fun utf8 :: "int list \<Rightarrow> chars option" where
  "utf8 [] = Some []"
| "utf8 (b # bs) =
     (if b < 128 then map_option ((#) b) (utf8 bs)
      else if 194 \<le> b \<and> b \<le> 223 then
        (case bs of c # cs \<Rightarrow>
           if tail_byte c then map_option ((#) ((b - 192) * 64 + (c - 128))) (utf8 cs) else None
         | _ \<Rightarrow> None)
      else if 224 \<le> b \<and> b \<le> 239 then
        (case bs of c # d # ds \<Rightarrow>
           if tail_byte c \<and> tail_byte d \<and> (b = 224 \<longrightarrow> 160 \<le> c) \<and> (b = 237 \<longrightarrow> c \<le> 159)
           then map_option ((#) ((b - 224) * 4096 + (c - 128) * 64 + (d - 128))) (utf8 ds) else None
         | _ \<Rightarrow> None)
      else if 240 \<le> b \<and> b \<le> 244 then
        (case bs of c # d # e # es \<Rightarrow>
           if tail_byte c \<and> tail_byte d \<and> tail_byte e \<and> (b = 240 \<longrightarrow> 144 \<le> c) \<and> (b = 244 \<longrightarrow> c \<le> 143)
           then map_option ((#) ((b - 240) * 262144 + (c - 128) * 4096 + (d - 128) * 64 + (e - 128)))
             (utf8 es) else None
         | _ \<Rightarrow> None)
      else None)"

text \<open>\<open>_validate_decoded_container\<close>.\<close>

definition plausible :: "tables \<Rightarrow> int list \<Rightarrow> chars option" where
  "plausible U bytes = (case utf8 bytes of
       None \<Rightarrow> None
     | Some t \<Rightarrow>
         if length t < 8 then None
         else if list_all (\<lambda>c. is_printable U c \<or> c = 9 \<or> c = 10 \<or> c = 13) t then Some t else None)"

definition without_padding :: "chars \<Rightarrow> chars" where
  "without_padding t = rev (dropWhile (\<lambda>c. c = 61) (rev t))"

text \<open>\<open>base64.b64decode(s, validate=True)\<close> of a body without its padding: the alphabet with
  \<open>+\<close> and \<open>/\<close>, and the bytes of every complete group; one character alone is an error.\<close>

definition sextet :: "int \<Rightarrow> int option" where
  "sextet c = (if upper c then Some (c - 65) else if lower c then Some (c - 71)
     else if digit c then Some (c + 4) else if c = 43 then Some 62 else if c = 47 then Some 63 else None)"

fun sextets_bytes :: "int list \<Rightarrow> int list option" where
  "sextets_bytes [] = Some []"
| "sextets_bytes [a] = None"
| "sextets_bytes [a, b] = Some [a * 4 + b div 16]"
| "sextets_bytes [a, b, c] = Some [a * 4 + b div 16, b mod 16 * 16 + c div 4]"
| "sextets_bytes (a # b # c # d # rest) =
     map_option (\<lambda>bs. [a * 4 + b div 16, b mod 16 * 16 + c div 4, c mod 4 * 64 + d] @ bs)
       (sextets_bytes rest)"

definition all_some :: "'a option list \<Rightarrow> 'a list option" where
  "all_some xs = (if None \<in> set xs then None else Some (map the xs))"

definition b64decode :: "chars \<Rightarrow> int list option" where
  "b64decode body = (case all_some (map sextet body) of None \<Rightarrow> None | Some qs \<Rightarrow> sextets_bytes qs)"

definition urlsafe_to_standard :: "chars \<Rightarrow> chars" where
  "urlsafe_to_standard t = map (\<lambda>c. if c = 45 then 43 else if c = 95 then 47 else c) t"

definition decode_base64_container :: "tables \<Rightarrow> chars \<Rightarrow> chars option" where
  "decode_base64_container U blob =
     (let body = without_padding blob; translated = urlsafe_to_standard body
      in case b64decode body of
           Some raw \<Rightarrow> plausible U raw
         | None \<Rightarrow> if translated = body then None
             else (case b64decode translated of Some raw \<Rightarrow> plausible U raw | None \<Rightarrow> None))"

text \<open>\<open>bytes.fromhex\<close>, which skips ASCII blanks between bytes.\<close>

definition hex_digit_of :: "int \<Rightarrow> int option" where
  "hex_digit_of c = (if digit c then Some (c - 48) else if 97 \<le> c \<and> c \<le> 102 then Some (c - 87)
     else if 65 \<le> c \<and> c \<le> 70 then Some (c - 55) else None)"

fun fromhex :: "chars \<Rightarrow> int list option" where
  "fromhex [] = Some []"
| "fromhex [a] = (if a \<in> {9, 10, 11, 12, 13, 32} then Some [] else None)"
| "fromhex (a # b # rest) =
     (if a \<in> {9, 10, 11, 12, 13, 32} then fromhex (b # rest)
      else (case (hex_digit_of a, hex_digit_of b) of
          (Some x, Some y) \<Rightarrow> map_option ((#) (16 * x + y)) (fromhex rest)
        | _ \<Rightarrow> None))"

definition decode_hex_container :: "tables \<Rightarrow> chars \<Rightarrow> chars option" where
  "decode_hex_container U blob = (case fromhex blob of Some raw \<Rightarrow> plausible U raw | None \<Rightarrow> None)"

text \<open>\<open>base64.b32decode\<close> of a body without its padding: five bytes per eight characters; the last
  group has 2, 4, 5 or 7 characters.\<close>

definition quintet :: "int \<Rightarrow> int option" where
  "quintet c = (if upper c then Some (c - 65) else if 50 \<le> c \<and> c \<le> 55 then Some (c - 24) else None)"

definition group_bytes :: "int list \<Rightarrow> int list" where
  "group_bytes qs =
     (let v = foldl (\<lambda>a q. a * 32 + q) 0 (take 8 (qs @ replicate 8 0))
      in take (5 * length qs div 8)
           [v div 4294967296, v div 16777216 mod 256, v div 65536 mod 256, v div 256 mod 256, v mod 256])"

function quintets_bytes :: "int list \<Rightarrow> int list option" where
  "quintets_bytes qs =
     (if length qs < 8 then (if length qs \<in> {1, 3, 6} then None else Some (group_bytes qs))
      else map_option ((@) (group_bytes (take 8 qs))) (quintets_bytes (drop 8 qs)))"
  by pat_completeness auto
termination by (relation "measure length") auto

declare quintets_bytes.simps [simp del]

definition decode_base32_container :: "tables \<Rightarrow> chars \<Rightarrow> chars option" where
  "decode_base32_container U blob =
     (case all_some (map quintet (without_padding blob)) of
        None \<Rightarrow> None
      | Some qs \<Rightarrow> (case quintets_bytes qs of Some raw \<Rightarrow> plausible U raw | None \<Rightarrow> None))"

section \<open>Spans\<close>

text \<open>\<open>_merge_spans\<close> and \<open>_redact_spans\<close>, which replaces the last span first.\<close>

fun merge_sorted :: "nat \<times> nat \<Rightarrow> (nat \<times> nat) list \<Rightarrow> (nat \<times> nat) list" where
  "merge_sorted (s, e) [] = [(s, e)]"
| "merge_sorted (s, e) ((s', e') # ss) =
     (if s' \<le> e then merge_sorted (s, max e e') ss else (s, e) # merge_sorted (s', e') ss)"

definition merge_spans :: "(nat \<times> nat) list \<Rightarrow> (nat \<times> nat) list" where
  "merge_spans ss = (case sort ss of [] \<Rightarrow> [] | x # xs \<Rightarrow> merge_sorted x xs)"

definition redact_spans :: "chars \<Rightarrow> (nat \<times> nat) list \<Rightarrow> chars \<Rightarrow> chars" where
  "redact_spans t ss r = foldr (\<lambda>(s, e) t. take s t @ r @ drop e t) ss t"

section \<open>The encoded surfaces\<close>

definition hex_char :: "int \<Rightarrow> bool" where
  "hex_char c \<longleftrightarrow> digit c \<or> 97 \<le> c \<and> c \<le> 102 \<or> 65 \<le> c \<and> c \<le> 70"

definition base32_char :: "int \<Rightarrow> bool" where
  "base32_char c \<longleftrightarrow> upper c \<or> 50 \<le> c \<and> c \<le> 55"

definition encoded_run :: rx where
  "encoded_run = Cat (at_least 16 (One (\<lambda>c. alnum c \<or> among ''+/_-'' c))) (between 0 2 (lit ''=''))"

definition hex_run :: rx where
  "hex_run = cats [Not_Behind hex_char, at_least 12 (exactly 2 (One hex_char)), Look False (One hex_char)]"

definition base32_run :: rx where
  "base32_run = cats [Not_Behind base32_char, at_least 16 (One base32_char), between 0 6 (lit ''=''),
     Look False (One base32_char)]"

definition encoded_surfaces :: "tables \<Rightarrow> (rx \<times> (chars \<Rightarrow> chars option)) list" where
  "encoded_surfaces U = [(encoded_run, decode_base64_container U), (hex_run, decode_hex_container U),
     (base32_run, decode_base32_container U)]"

text \<open>\<open>_probe_encoded\<close>: whether a decoded text matches a pattern as it is, folded, or in an encoded
  run inside it, to a bounded depth.\<close>

definition surface_hit :: "tables \<Rightarrow> rx list \<Rightarrow> chars \<Rightarrow> bool" where
  "surface_hit U ps t \<longleftrightarrow>
     (let folded = fold_text U t
      in list_ex (\<lambda>r. found_in U r t) ps \<or> folded \<noteq> t \<and> list_ex (\<lambda>r. found_in U r folded) ps)"

primrec probe_encoded :: "tables \<Rightarrow> rx list \<Rightarrow> nat \<Rightarrow> chars \<Rightarrow> bool" where
  "probe_encoded U ps 0 t \<longleftrightarrow> surface_hit U ps t"
| "probe_encoded U ps (Suc n) t \<longleftrightarrow> surface_hit U ps t
     \<or> list_ex (\<lambda>(run, decoder). list_ex (\<lambda>m. case decoder (matched m) of None \<Rightarrow> False
         | Some inner \<Rightarrow> probe_encoded U ps n inner) (matches U run t)) (encoded_surfaces U)"

definition ENCODED_MAX_DEPTH :: nat where
  "ENCODED_MAX_DEPTH = 3"

definition encoded_hits :: "tables \<Rightarrow> rx list \<Rightarrow> chars \<Rightarrow> (nat \<times> nat) list" where
  "encoded_hits U ps t = concat (map (\<lambda>(run, decoder). map (span t) (filter (\<lambda>m.
     case decoder (matched m) of None \<Rightarrow> False
     | Some inner \<Rightarrow> probe_encoded U ps (ENCODED_MAX_DEPTH - 1) inner) (matches U run t)))
       (encoded_surfaces U))"

definition scan_encoded :: "tables \<Rightarrow> rx list \<Rightarrow> chars \<Rightarrow> (nat \<times> nat) list" where
  "scan_encoded U ps t = merge_spans (encoded_hits U ps t)"

section \<open>The whitespace-collapsed surface\<close>

text \<open>\<open>_collapsed_pattern_spans\<close>: the kept positions are its \<open>index_map\<close>.\<close>

definition collapsed_spans :: "tables \<Rightarrow> (chars \<Rightarrow> nat \<Rightarrow> bool) \<Rightarrow> rx list \<Rightarrow> chars \<Rightarrow> (nat \<times> nat) list" where
  "collapsed_spans U collapse ps t =
     (let kept = filter (\<lambda>i. \<not> (is_space U (t ! i) \<and> collapse t i)) [0..<length t];
          collapsed = map (\<lambda>i. t ! i) kept
      in merge_spans (concat (map (\<lambda>r. concat (map (\<lambda>(s, e).
           if e \<le> s then []
           else (let from = kept ! s; to = kept ! (e - 1) + 1
                 in if list_ex (\<lambda>j. is_space U (t ! j)) [from..<to] then [(from, to)] else []))
           (spans U r collapsed))) ps)))"

definition ws_scan_providers :: "string list" where
  "ws_scan_providers = [''credentials_openai_project'', ''credentials_openai_bare'',
     ''credentials_github_pat'', ''credentials_github_ghp'', ''credentials_slack_bot'',
     ''credentials_google_api'', ''credentials_aws_access_key'']"

definition scan_whitespace_collapsed :: "tables \<Rightarrow> chars \<Rightarrow> (nat \<times> nat) list" where
  "scan_whitespace_collapsed U t = collapsed_spans U (\<lambda>t i. True)
     (map (\<lambda>n. the (map_of (provider_patterns U) n)) ws_scan_providers) t"

text \<open>\<open>_borders_punctuation\<close>: the nearest neighbour that is no blank, on either side.\<close>

definition punctuation_next :: "tables \<Rightarrow> chars \<Rightarrow> bool" where
  "punctuation_next U t = (case dropWhile (is_space U) t of [] \<Rightarrow> False | c # cs \<Rightarrow> \<not> is_alnum U c)"

definition borders_punctuation :: "tables \<Rightarrow> chars \<Rightarrow> nat \<Rightarrow> bool" where
  "borders_punctuation U t i \<longleftrightarrow>
     punctuation_next U (rev (take i t)) \<or> punctuation_next U (drop (i + 1) t)"

definition scan_whitespace_split :: "tables \<Rightarrow> rx list \<Rightarrow> chars \<Rightarrow> (nat \<times> nat) list" where
  "scan_whitespace_split U ps t = collapsed_spans U (borders_punctuation U) ps t"

section \<open>scrub\<close>

record report =
  rp_redacted :: nat
  rp_classes :: "chars list"
  rp_provenance :: chars
  rp_trail :: "(chars \<times> nat \<times> chars) list"

definition add_hits :: "chars \<Rightarrow> chars \<Rightarrow> nat \<Rightarrow> chars \<Rightarrow> report \<Rightarrow> report" where
  "add_hits cls name n repl rep = rep
     \<lparr>rp_redacted := rp_redacted rep + n,
      rp_classes := (if cls \<in> set (rp_classes rep) then rp_classes rep else rp_classes rep @ [cls]),
      rp_trail := rp_trail rep @ [(name, n, repl)]\<rparr>"

definition record_credentials :: "chars \<Rightarrow> nat \<Rightarrow> chars \<Rightarrow> report \<Rightarrow> report" where
  "record_credentials name n repl rep = add_hits (u ''credentials'') name n repl rep"

definition record_class :: "chars \<Rightarrow> nat \<Rightarrow> chars \<Rightarrow> report \<Rightarrow> report" where
  "record_class name n repl rep = add_hits name name n repl rep"

definition MARKER :: chars where
  "MARKER = u ''[REDACTED:credentials]''"

fun rfold :: "('a \<Rightarrow> 'b \<Rightarrow> exn + 'b) \<Rightarrow> 'a list \<Rightarrow> 'b \<Rightarrow> exn + 'b" where
  "rfold f [] b = Inr b"
| "rfold f (x # xs) b = rbind (f x b) (rfold f xs)"

text \<open>One pattern on the working text: the hits are counted and replaced.\<close>

definition replace_hits :: "engine \<Rightarrow> (nat \<Rightarrow> report \<Rightarrow> report) \<Rightarrow> rx \<Rightarrow> chars
    \<Rightarrow> chars \<times> report \<Rightarrow> exn + chars \<times> report" where
  "replace_hits E note_hits r repl wr = (case wr of (w, rep) \<Rightarrow>
     let n = length (matches (en_tables E) r w)
     in if n = 0 then Inr (w, rep)
        else rbind (re_sub E r repl w) (\<lambda>w'. Inr (w', note_hits n rep)))"

definition scan_surface :: "engine \<Rightarrow> rx \<Rightarrow> chars \<Rightarrow> chars \<times> report \<Rightarrow> exn + chars \<times> report" where
  "scan_surface E generic repl wr =
     rbind (rfold (\<lambda>(n, r). replace_hits E (\<lambda>k. record_credentials (u n) k MARKER) r MARKER)
       (provider_patterns (en_tables E)) wr)
     (replace_hits E (\<lambda>k. record_credentials (u ''credentials'') k repl) generic repl)"

text \<open>Spans found on a surface, replaced and recorded when there are any.\<close>

definition replace_spans :: "(nat \<Rightarrow> report \<Rightarrow> report) \<Rightarrow> (chars \<Rightarrow> (nat \<times> nat) list) \<Rightarrow> chars
    \<Rightarrow> chars \<times> report \<Rightarrow> chars \<times> report" where
  "replace_spans note_hits scanner repl wr = (case wr of (w, rep) \<Rightarrow>
     let ss = scanner w
     in if ss = [] then (w, rep) else (redact_spans w ss repl, note_hits (length ss) rep))"

definition probe_patterns :: "tables \<Rightarrow> rx list" where
  "probe_patterns U = map snd (provider_patterns U) @ [credentials U]"

definition evasion_scan_classes :: "chars list" where
  "evasion_scan_classes = [u ''email'', u ''pii'', u ''internal_paths'']"

definition custom_pattern :: "redact_class \<Rightarrow> chars option" where
  "custom_pattern c = (case rc_pattern c of Some (x # xs) \<Rightarrow> Some (x # xs) | _ \<Rightarrow> None)"

text \<open>One class of \<open>REDACT.md\<close>: its pattern on the working text, then the evasion surfaces.\<close>

definition class_pattern :: "engine \<Rightarrow> redact_class \<Rightarrow> exn + rx option" where
  "class_pattern E c = (case custom_pattern c of
       Some p \<Rightarrow> rbind (re_compile E p) (\<lambda>r. Inr (Some r))
     | None \<Rightarrow> Inr (map_of (builtin_patterns (en_tables E)) (rc_name c)))"

definition apply_class :: "engine \<Rightarrow> redact_class \<Rightarrow> rx \<Rightarrow> chars \<times> report \<Rightarrow> exn + chars \<times> report" where
  "apply_class E c r wr =
     rbind (replace_hits E (\<lambda>k. record_class (rc_name c) k (rc_replacement c)) r (rc_replacement c) wr) (\<lambda>wr'.
     if rc_name c \<in> set evasion_scan_classes then
       Inr (replace_spans (\<lambda>k. record_class (rc_name c) k (rc_replacement c))
         (\<lambda>w. merge_spans (scan_whitespace_split (en_tables E) [r] w @ scan_encoded (en_tables E) [r] w))
         (rc_replacement c) wr')
     else Inr wr')"

definition scan_class :: "engine \<Rightarrow> redact_class \<Rightarrow> chars \<times> report \<Rightarrow> exn + chars \<times> report" where
  "scan_class E c wr =
     (if rc_name c = u ''credentials'' \<or> \<not> rc_enabled c then Inr wr
      else rbind (class_pattern E c) (\<lambda>p. case p of None \<Rightarrow> Inr wr | Some r \<Rightarrow> apply_class E c r wr))"

definition credentials_class :: "redact_class list \<Rightarrow> redact_class option" where
  "credentials_class cs = find (\<lambda>c. rc_name c = u ''credentials'') cs"

definition generic_pattern :: "engine \<Rightarrow> redact_class list \<Rightarrow> exn + rx" where
  "generic_pattern E cs = (case Option.bind (credentials_class cs) custom_pattern of
       Some p \<Rightarrow> re_compile E p
     | None \<Rightarrow> Inr (credentials (en_tables E)))"

definition generic_replacement :: "redact_class list \<Rightarrow> chars" where
  "generic_replacement cs = (case credentials_class cs of Some c \<Rightarrow> rc_replacement c | None \<Rightarrow> MARKER)"

definition scrub_classes :: "engine \<Rightarrow> redact_class list \<Rightarrow> chars \<Rightarrow> chars \<Rightarrow> exn + chars \<times> report" where
  "scrub_classes E cs provenance t =
     rbind (generic_pattern E cs) (\<lambda>generic.
     rbind (scan_surface E generic (generic_replacement cs)
       (t, \<lparr>rp_redacted = 0, rp_classes = [], rp_provenance = provenance, rp_trail = []\<rparr>)) (\<lambda>(w, rep).
     rbind (scan_surface E generic (generic_replacement cs) (fold_text (en_tables E) w, rep)) (\<lambda>wr.
     rfold (scan_class E) cs
       (replace_spans (\<lambda>k. record_credentials (u ''credentials_encoded'') k MARKER)
          (scan_encoded (en_tables E) (probe_patterns (en_tables E))) MARKER
       (replace_spans (\<lambda>k. record_credentials (u ''credentials_whitespace_split'') k MARKER)
          (scan_whitespace_collapsed (en_tables E)) MARKER wr)))))"

definition scrub :: "engine \<Rightarrow> chars option \<Rightarrow> chars \<Rightarrow> chars \<Rightarrow> exn + chars \<times> report" where
  "scrub E redact_md provenance t =
     scrub_classes E (load_redact (en_tables E) redact_md) provenance t"

end
