(* ===== verification/Redaction_Props.thy ===== *)
theory Redaction_Props
  imports Redaction
begin

text \<open>
  What redaction guarantees: the spans it merges are exactly the ones that were found, and their
  replacement keeps the rest of the text; a text it reports nothing about holds no credential on
  any surface and no hit of an enabled class; the credentials class cannot be switched off; and
  the report accounts for every hit.
\<close>

section \<open>Merging spans\<close>

lemma covered_append [simp]: "covered (a @ b) i \<longleftrightarrow> covered a i \<or> covered b i"
  by (auto simp: covered_def)

lemma covered_sort [simp]: "covered (sort ss) i \<longleftrightarrow> covered ss i"
  by (simp add: covered_def)

definition within :: "nat \<Rightarrow> (nat \<times> nat) list \<Rightarrow> bool" where
  "within n ss \<longleftrightarrow> (\<forall>(s, e) \<in> set ss. s \<le> e \<and> e \<le> n)"

lemma merge_sorted_ok:
  "sorted (s # map fst ss) \<Longrightarrow> s \<le> e \<Longrightarrow> e \<le> n \<Longrightarrow> within n ss \<Longrightarrow>
     ordered s n (merge_sorted (s, e) ss) \<and> (\<forall>i. covered (merge_sorted (s, e) ss) i \<longleftrightarrow> covered ((s, e) # ss) i)"
proof (induction ss arbitrary: s e)
  case (Cons x ss)
  obtain s' e' where x: "x = (s', e')" by (cases x)
  have in_text: "s \<le> s'" "s' \<le> e'" "e' \<le> n" "within n ss" "sorted (s' # map fst ss)" "sorted (s # map fst ss)"
    using Cons.prems by (auto simp: x within_def)
  show ?case
  proof (cases "s' \<le> e")
    case True
    with Cons.IH [of s "max e e'"] in_text Cons.prems(2,3) show ?thesis by (auto simp: x)
  next
    case False
    with Cons.IH [of s' e'] in_text Cons.prems(2,3) show ?thesis by (auto simp: x intro: ordered_mono)
  qed
qed simp

lemma sorted_fst: "sorted (ss :: (nat \<times> nat) list) \<Longrightarrow> sorted (map fst ss)"
proof (induction ss)
  case (Cons x ss)
  then have "\<forall>y\<in>set ss. fst x \<le> fst y" by (cases x) (force simp: less_eq_prod_def)
  then show ?case using Cons by simp
qed simp

lemma merge_spans_ok:
  assumes "within n ss"
  shows "ordered 0 n (merge_spans ss)" and "covered (merge_spans ss) i \<longleftrightarrow> covered ss i"
proof -
  have w: "within n (sort ss)" using assms by (simp add: within_def)
  have "ordered 0 n (merge_spans ss) \<and> (\<forall>i. covered (merge_spans ss) i \<longleftrightarrow> covered (sort ss) i)"
  proof (cases "sort ss")
    case (Cons x xs)
    obtain s e where x: "x = (s, e)" by (cases x)
    have "sorted (s # map fst xs)" using sorted_fst [OF sorted_sort [of ss]] unfolding Cons x by simp
    moreover have "s \<le> e" "e \<le> n" "within n xs" using w by (auto simp: Cons x within_def)
    ultimately show ?thesis
      using merge_sorted_ok [of s xs e n] by (auto simp: merge_spans_def Cons x intro: ordered_mono)
  qed (simp add: merge_spans_def)
  then show "ordered 0 n (merge_spans ss)" "covered (merge_spans ss) i \<longleftrightarrow> covered ss i" by simp_all
qed

lemma merge_sorted_nonempty: "merge_sorted x xs \<noteq> []"
  by (induction x xs rule: merge_sorted.induct) auto

lemma merge_spans_Nil_iff [simp]: "merge_spans ss = [] \<longleftrightarrow> ss = []"
proof -
  have "sort ss = [] \<longleftrightarrow> ss = []" by (metis length_0_conv length_sort)
  then show ?thesis using merge_sorted_nonempty by (auto simp: merge_spans_def split: list.splits)
qed

text \<open>The pieces of the text between ordered spans.\<close>

fun pieces :: "nat \<Rightarrow> chars \<Rightarrow> (nat \<times> nat) list \<Rightarrow> chars list" where
  "pieces i t [] = [drop i t]"
| "pieces i t ((s, e) # ss) = drop i (take s t) # pieces e t ss"

fun joined :: "chars \<Rightarrow> chars list \<Rightarrow> chars" where
  "joined sep [] = []"
| "joined sep [x] = x"
| "joined sep (x # xs) = x @ sep @ joined sep xs"

lemma pieces_nonempty [simp]: "pieces i t ss \<noteq> []"
  by (cases ss) auto

lemma length_pieces [simp]: "length (pieces i t ss) = Suc (length ss)"
  by (induction i t ss rule: pieces.induct) auto

lemma joined_Cons: "xs \<noteq> [] \<Longrightarrow> joined sep (x # xs) = x @ sep @ joined sep xs"
  by (cases xs) auto

lemma redact_prefix:
  "ordered i (length t) ss \<Longrightarrow> redact_spans t ss r = take i t @ joined r (pieces i t ss)"
proof (induction i "length t" ss rule: ordered.induct)
  case (2 i s e ss)
  then have o: "ordered e (length t) ss" "i \<le> s" "s \<le> e" "e \<le> length t" by simp_all
  have "redact_spans t ((s, e) # ss) r
      = take s (redact_spans t ss r) @ r @ drop e (redact_spans t ss r)"
    by (simp add: redact_spans_def)
  also have "redact_spans t ss r = take e t @ joined r (pieces e t ss)" using 2 o by simp
  also have "take s (take e t @ joined r (pieces e t ss)) = take s t" using o by (simp add: min_def)
  also have "drop e (take e t @ joined r (pieces e t ss)) = joined r (pieces e t ss)" using o by simp
  also have "take s t = take i t @ drop i (take s t)" using o by (metis append_take_drop_id min.absorb1 take_take)
  finally show ?case by (simp add: joined_Cons)
qed (simp add: redact_spans_def)

text \<open>The code points of the text that no span covers, in order.\<close>

definition kept_from :: "nat \<Rightarrow> chars \<Rightarrow> (nat \<times> nat) list \<Rightarrow> chars" where
  "kept_from i t ss = map (\<lambda>j. t ! j) (filter (\<lambda>j. \<not> covered ss j) [i..<length t])"

lemma map_nth_upt: "s \<le> length t \<Longrightarrow> map (\<lambda>j. t ! j) [i..<s] = drop i (take s t)"
  by (rule nth_equalityI) auto

lemma concat_pieces: "ordered i (length t) ss \<Longrightarrow> concat (pieces i t ss) = kept_from i t ss"
proof (induction ss arbitrary: i)
  case Nil
  then show ?case by (simp add: kept_from_def map_nth_upt)
next
  case (Cons x ss)
  obtain s e where x: "x = (s, e)" by (cases x)
  have o: "ordered e (length t) ss" "i \<le> s" "s \<le> e" "e \<le> length t" using Cons.prems by (simp_all add: x)
  have split: "[i..<length t] = [i..<s] @ [s..<e] @ [e..<length t]"
    using o upt_add_eq_append [of i s "length t - s"] upt_add_eq_append [of s e "length t - e"] by simp
  have before: "filter (\<lambda>j. \<not> covered (x # ss) j) [i..<s] = [i..<s]"
    using ordered_not_before [OF o(1)] o(3) by (intro filter_True) (auto simp: x)
  have inside: "filter (\<lambda>j. \<not> covered (x # ss) j) [s..<e] = []" by (auto simp: x)
  have after: "filter (\<lambda>j. \<not> covered (x # ss) j) [e..<length t] = filter (\<lambda>j. \<not> covered ss j) [e..<length t]"
    by (rule filter_cong) (auto simp: x)
  have "kept_from i t (x # ss) = drop i (take s t) @ kept_from e t ss"
    unfolding kept_from_def split filter_append before inside after using o by (simp add: map_nth_upt)
  then show ?case using Cons.IH [OF o(1)] by (simp add: x)
qed

text \<open>Redaction replaces exactly what was found. For any spans within the text, however they overlap,
  the text after merging and replacing them is the text that no span covers, in order, cut into one piece more than
  there are merged spans and joined with the replacement.\<close>

theorem redaction_replaces_exactly_the_spans:
  assumes "within (length t) ss"
  shows "\<exists>ps. redact_spans t (merge_spans ss) r = joined r ps \<and> length ps = Suc (length (merge_spans ss))
    \<and> concat ps = map (\<lambda>j. t ! j) (filter (\<lambda>j. \<not> covered ss j) [0..<length t])"
proof -
  have o: "ordered 0 (length t) (merge_spans ss)" by (rule merge_spans_ok [OF assms])
  have c: "covered (merge_spans ss) = covered ss" by (rule ext) (rule merge_spans_ok(2) [OF assms])
  show ?thesis
    using redact_prefix [OF o, of r] concat_pieces [OF o]
    by (intro exI [of _ "pieces 0 t (merge_spans ss)"]) (simp add: kept_from_def c)
qed

section \<open>What a silent report means\<close>

text \<open>A step that either adds to a count of the report or leaves the text and the report alone; in
  the second case \<open>Q\<close> holds of the text.\<close>

definition notices :: "(report \<Rightarrow> nat) \<Rightarrow> (chars \<times> report \<Rightarrow> exn + chars \<times> report) \<Rightarrow> (chars \<Rightarrow> bool) \<Rightarrow> bool" where
  "notices count f Q \<longleftrightarrow> (\<forall>wr wr'. f wr = Inr wr' \<longrightarrow> count (snd wr) \<le> count (snd wr')
     \<and> (count (snd wr') = count (snd wr) \<longrightarrow> wr' = wr \<and> Q (fst wr)))"

lemma noticesD:
  assumes "notices count f Q" "f wr = Inr wr'"
  shows "count (snd wr) \<le> count (snd wr')"
    and "count (snd wr') = count (snd wr) \<Longrightarrow> wr' = wr"
    and "count (snd wr') = count (snd wr) \<Longrightarrow> Q (fst wr)"
  using assms unfolding notices_def by blast+

lemma notices_bind:
  assumes "notices count f Q" "notices count g R"
  shows "notices count (\<lambda>wr. rbind (f wr) g) (\<lambda>w. Q w \<and> R w)"
  unfolding notices_def
proof (intro allI impI)
  fix wr wr'
  assume "rbind (f wr) g = Inr wr'"
  then obtain m where m: "f wr = Inr m" "g m = Inr wr'" by (auto simp: rbind_ok)
  note f = noticesD [OF assms(1) m(1)] and g = noticesD [OF assms(2) m(2)]
  show "count (snd wr) \<le> count (snd wr') \<and>
     (count (snd wr') = count (snd wr) \<longrightarrow> wr' = wr \<and> Q (fst wr) \<and> R (fst wr))"
  proof (intro conjI impI)
    show "count (snd wr) \<le> count (snd wr')" using f(1) g(1) by linarith
    assume eq: "count (snd wr') = count (snd wr)"
    then have "count (snd m) = count (snd wr)" using f(1) g(1) by linarith
    with f have mw: "m = wr" "Q (fst wr)" by auto
    with g eq show "wr' = wr" "Q (fst wr)" "R (fst wr)" by auto
  qed
qed

lemma notices_rfold:
  "(\<And>x. x \<in> set xs \<Longrightarrow> notices count (f x) (Q x)) \<Longrightarrow> notices count (rfold f xs) (\<lambda>w. \<forall>x\<in>set xs. Q x w)"
proof (induction xs)
  case Nil
  then show ?case by (simp add: notices_def)
next
  case (Cons x xs)
  have "notices count (\<lambda>wr. rbind (f x wr) (rfold f xs)) (\<lambda>w. Q x w \<and> (\<forall>x\<in>set xs. Q x w))"
    by (rule notices_bind) (use Cons in auto)
  then show ?case by (simp add: notices_def)
qed

lemma notices_hits:
  assumes "\<And>k rep. count (noted k rep) = count rep + k"
  shows "notices count (replace_hits E noted r repl) (\<lambda>w. \<not> found_in (en_tables E) r w)"
  unfolding notices_def replace_hits_def
  by (auto simp: Let_def rbind_ok assms matches_Nil_iff split: if_splits prod.splits)

lemma notices_spans:
  assumes "\<And>k rep. count (noted k rep) = count rep + k"
  shows "notices count (\<lambda>wr. Inr (replace_spans noted scanner repl wr)) (\<lambda>w. scanner w = [])"
  unfolding notices_def replace_spans_def
  by (auto simp: Let_def assms split: if_splits prod.splits)

text \<open>The credential surfaces of \<open>scrub\<close>, and what holds of a text they leave alone.\<close>

definition credential_surfaces :: "engine \<Rightarrow> rx \<Rightarrow> chars \<Rightarrow> chars \<Rightarrow> report \<Rightarrow> exn + chars \<times> report" where
  "credential_surfaces E generic repl t rep =
     rbind (scan_surface E generic repl (t, rep)) (\<lambda>(w, rep').
     rbind (scan_surface E generic repl (fold_text (en_tables E) w, rep')) (\<lambda>wr.
     Inr (replace_spans (\<lambda>k. record_credentials (u ''credentials_encoded'') k MARKER)
          (scan_encoded (en_tables E) (probe_patterns (en_tables E))) MARKER
       (replace_spans (\<lambda>k. record_credentials (u ''credentials_whitespace_split'') k MARKER)
          (scan_whitespace_collapsed (en_tables E)) MARKER wr))))"

lemma scrub_surfaces:
  assumes "generic_pattern E (load_redact (en_tables E) redact_md) = Inr generic"
  shows "scrub E redact_md provenance t =
    rbind (credential_surfaces E generic (generic_replacement (load_redact (en_tables E) redact_md)) t
        \<lparr>rp_redacted = 0, rp_classes = [], rp_provenance = provenance, rp_trail = []\<rparr>)
      (rfold (scan_class E) (load_redact (en_tables E) redact_md))"
  by (simp add: scrub_def scrub_classes_def credential_surfaces_def assms rbind_def split: sum.split prod.split)

definition credential_free :: "engine \<Rightarrow> rx \<Rightarrow> chars \<Rightarrow> bool" where
  "credential_free E generic w \<longleftrightarrow> (\<forall>j \<le> length w.
     (\<forall>(n, r)\<in>set (provider_patterns (en_tables E)). match_at (en_tables E) r False (pos_at w j) = None)
     \<and> match_at (en_tables E) generic False (pos_at w j) = None)"

definition credential_clean :: "engine \<Rightarrow> rx \<Rightarrow> chars \<Rightarrow> bool" where
  "credential_clean E generic t \<longleftrightarrow> (let folded = fold_text (en_tables E) t
     in credential_free E generic t \<and> credential_free E generic folded
      \<and> scan_whitespace_collapsed (en_tables E) folded = []
      \<and> encoded_hits (en_tables E) (probe_patterns (en_tables E)) folded = [])"

text \<open>A count of a report that every recorded credential adds to.\<close>

locale hit_counter =
  fixes count :: "report \<Rightarrow> nat"
  assumes count_credentials: "begins (u ''credentials'') n \<Longrightarrow> count (record_credentials n k r rep) = count rep + k"
begin

lemma surface:
  "notices count (scan_surface E generic repl)
     (\<lambda>w. (\<forall>(n, r)\<in>set (provider_patterns (en_tables E)). \<not> found_in (en_tables E) r w)
        \<and> \<not> found_in (en_tables E) generic w)"
proof -
  have named: "begins (u ''credentials'') (u n)" if "(n, r) \<in> set (provider_patterns U)" for n r U
    using that by (auto simp: provider_patterns_def u_def ord_def)
  have providers: "notices count (rfold (\<lambda>(n, r). replace_hits E (\<lambda>k. record_credentials (u n) k MARKER) r MARKER)
      (provider_patterns (en_tables E)))
    (\<lambda>w. \<forall>x\<in>set (provider_patterns (en_tables E)). \<not> found_in (en_tables E) (snd x) w)"
    by (rule notices_rfold) (auto split: prod.splits intro!: notices_hits count_credentials named)
  have labelled: "notices count (replace_hits E (\<lambda>k. record_credentials (u ''credentials'') k repl) generic repl)
      (\<lambda>w. \<not> found_in (en_tables E) generic w)"
    by (rule notices_hits) (rule count_credentials, simp add: u_def)
  show ?thesis
    using notices_bind [OF providers labelled] by (simp add: scan_surface_def [abs_def] case_prod_beta)
qed

lemma silent_surfaces:
  assumes run: "credential_surfaces E generic repl t rep = Inr (out, rep')"
  shows "count rep \<le> count rep'"
    and "count rep' = count rep \<Longrightarrow> out = fold_text (en_tables E) t \<and> rep' = rep \<and> credential_clean E generic t"
proof -
  let ?U = "en_tables E"
  let ?ws = "\<lambda>wr. Inr (replace_spans (\<lambda>k. record_credentials (u ''credentials_whitespace_split'') k MARKER)
          (scan_whitespace_collapsed ?U) MARKER wr)"
  let ?enc = "\<lambda>wr. Inr (replace_spans (\<lambda>k. record_credentials (u ''credentials_encoded'') k MARKER)
          (scan_encoded ?U (probe_patterns ?U)) MARKER wr)"
  have enc: "notices count ?enc (\<lambda>w. scan_encoded ?U (probe_patterns ?U) w = [])"
    by (rule notices_spans) (rule count_credentials, simp add: u_def)
  have ws: "notices count ?ws (\<lambda>w. scan_whitespace_collapsed ?U w = [])"
    by (rule notices_spans) (rule count_credentials, simp add: u_def)
  let ?g0 = "\<lambda>wr. rbind (scan_surface E generic repl wr) (\<lambda>wr. rbind (?ws wr) ?enc)"
  note g0 = notices_bind [OF surface notices_bind [OF ws enc], of E generic repl]
  from run obtain w r where w: "scan_surface E generic repl (t, rep) = Inr (w, r)" "?g0 (fold_text ?U w, r) = Inr (out, rep')"
    by (auto simp: credential_surfaces_def rbind_ok)
  note first = noticesD [OF surface w(1)] and second = noticesD [OF g0 w(2)]
  show "count rep \<le> count rep'" using first(1) second(1) by simp
  show "out = fold_text ?U t \<and> rep' = rep \<and> credential_clean E generic t" if eq: "count rep' = count rep"
  proof -
    have r: "count r = count rep" "count rep' = count r" using first(1) second(1) eq by simp_all
    have t: "w = t" "r = rep" using first(2) r by simp_all
    have o: "out = fold_text ?U t" "rep' = rep" using second(2) r t by simp_all
    have "(\<forall>(n, r)\<in>set (provider_patterns ?U). \<not> found_in ?U r t) \<and> \<not> found_in ?U generic t"
      using first(3) r by simp
    moreover have "((\<forall>(n, r)\<in>set (provider_patterns ?U). \<not> found_in ?U r out) \<and> \<not> found_in ?U generic out)
        \<and> scan_whitespace_collapsed ?U out = [] \<and> scan_encoded ?U (probe_patterns ?U) out = []"
      using second(3) r o t by simp
    ultimately show ?thesis
      using o by (auto simp: credential_clean_def credential_free_def Let_def not_found_anywhere scan_encoded_def)
  qed
qed

end

lemma rp_redacted_add [simp]:
  "rp_redacted (add_hits c n k r rep) = rp_redacted rep + k"
  "rp_redacted (record_credentials n k r rep) = rp_redacted rep + k"
  "rp_redacted (record_class n k r rep) = rp_redacted rep + k"
  by (simp_all add: add_hits_def record_credentials_def record_class_def)

interpretation redacted: hit_counter rp_redacted
  by unfold_locales simp

text \<open>The hits of the credential classes in the audit trail.\<close>

definition credential_count :: "report \<Rightarrow> nat" where
  "credential_count rep = sum_list (map (\<lambda>(n, k, r). if begins (u ''credentials'') n then k else 0) (rp_trail rep))"

lemma credential_count_add [simp]:
  "credential_count (add_hits c n k r rep) = credential_count rep + (if begins (u ''credentials'') n then k else 0)"
  by (simp add: credential_count_def add_hits_def)

interpretation credential_hits: hit_counter credential_count
  by unfold_locales (simp add: record_credentials_def)

definition class_clean :: "engine \<Rightarrow> redact_class \<Rightarrow> chars \<Rightarrow> bool" where
  "class_clean E c w \<longleftrightarrow> (\<forall>r. rc_name c \<noteq> u ''credentials'' \<and> rc_enabled c \<and> class_pattern E c = Inr (Some r)
     \<longrightarrow> \<not> found_in (en_tables E) r w
       \<and> (rc_name c \<in> set evasion_scan_classes \<longrightarrow>
           scan_whitespace_split (en_tables E) [r] w = [] \<and> scan_encoded (en_tables E) [r] w = []))"

lemma notices_apply:
  "notices rp_redacted (apply_class E c r) (\<lambda>w. \<not> found_in (en_tables E) r w
     \<and> (rc_name c \<in> set evasion_scan_classes \<longrightarrow>
          scan_whitespace_split (en_tables E) [r] w = [] \<and> scan_encoded (en_tables E) [r] w = []))"
proof -
  let ?note = "\<lambda>k. record_class (rc_name c) k (rc_replacement c)"
  let ?scanner = "\<lambda>w. merge_spans (scan_whitespace_split (en_tables E) [r] w @ scan_encoded (en_tables E) [r] w)"
  have hits: "notices rp_redacted (replace_hits E ?note r (rc_replacement c)) (\<lambda>w. \<not> found_in (en_tables E) r w)"
    by (rule notices_hits) simp
  have spans: "notices rp_redacted (\<lambda>wr. Inr (replace_spans ?note ?scanner (rc_replacement c) wr)) (\<lambda>w. ?scanner w = [])"
    by (rule notices_spans) simp
  show ?thesis
  proof (cases "rc_name c \<in> set evasion_scan_classes")
    case True
    show ?thesis using notices_bind [OF hits spans] by (simp add: True apply_class_def [abs_def])
  next
    case False
    show ?thesis using hits by (simp add: False notices_def apply_class_def [abs_def] rbind_ok)
  qed
qed

lemma notices_class: "notices rp_redacted (scan_class E c) (class_clean E c)"
  unfolding notices_def
proof (intro allI impI)
  fix wr wr'
  assume run: "scan_class E c wr = Inr wr'"
  show "rp_redacted (snd wr) \<le> rp_redacted (snd wr') \<and>
     (rp_redacted (snd wr') = rp_redacted (snd wr) \<longrightarrow> wr' = wr \<and> class_clean E c (fst wr))"
  proof (cases "(rc_name c = u ''credentials'' \<or> \<not> rc_enabled c) \<or> class_pattern E c = Inr None")
    case True
    with run have "wr' = wr" by (auto simp: scan_class_def split: if_splits)
    with True show ?thesis by (auto simp: class_clean_def)
  next
    case False
    with run obtain r where r: "class_pattern E c = Inr (Some r)" "apply_class E c r wr = Inr wr'"
      by (auto simp: scan_class_def rbind_ok split: option.splits)
    from noticesD [OF notices_apply r(2)] show ?thesis by (simp add: class_clean_def r(1))
  qed
qed

lemma silent_core:
  assumes "scrub E redact_md provenance t = Inr (out, rep)" and "rp_redacted rep = 0"
    and "generic_pattern E (load_redact (en_tables E) redact_md) = Inr generic"
  shows "out = fold_text (en_tables E) t" and "rp_classes rep = []" and "rp_trail rep = []"
    and "credential_clean E generic t" and "\<forall>c\<in>set (load_redact (en_tables E) redact_md). class_clean E c out"
proof -
  let ?cs = "load_redact (en_tables E) redact_md"
  let ?rep = "\<lparr>rp_redacted = 0, rp_classes = [], rp_provenance = provenance, rp_trail = []\<rparr>"
  from assms(1) scrub_surfaces [OF assms(3)] obtain w r where
    w: "credential_surfaces E generic (generic_replacement ?cs) t ?rep = Inr (w, r)" and
    c: "rfold (scan_class E) ?cs (w, r) = Inr (out, rep)" by (auto simp: rbind_ok)
  have classes: "notices rp_redacted (rfold (scan_class E) ?cs) (\<lambda>w. \<forall>c\<in>set ?cs. class_clean E c w)"
    by (rule notices_rfold) (rule notices_class)
  note last_stage = noticesD [OF classes c]
  have r: "rp_redacted r = 0" using last_stage(1) assms(2) by simp
  have o: "w = out" "r = rep" "\<forall>c\<in>set ?cs. class_clean E c w" using last_stage(2,3) r assms(2) by simp_all
  have "w = fold_text (en_tables E) t \<and> r = ?rep \<and> credential_clean E generic t"
    using redacted.silent_surfaces(2) [OF w] r by simp
  with o show "out = fold_text (en_tables E) t" "rp_classes rep = []" "rp_trail rep = []" "credential_clean E generic t"
    "\<forall>c\<in>set ?cs. class_clean E c out" by auto
qed

lemma credential_count_hits:
  assumes "\<And>k rep. credential_count rep \<le> credential_count (noted k rep)"
  shows "replace_hits E noted r repl wr = Inr wr' \<Longrightarrow> credential_count (snd wr) \<le> credential_count (snd wr')"
    and "credential_count (snd wr) \<le> credential_count (snd (replace_spans noted scanner repl wr))"
  using assms by (auto simp: replace_hits_def replace_spans_def Let_def rbind_ok split: if_splits prod.splits)

lemma credential_count_class:
  assumes "scan_class E c wr = Inr wr'"
  shows "credential_count (snd wr) \<le> credential_count (snd wr')"
proof -
  let ?noted = "\<lambda>k. record_class (rc_name c) k (rc_replacement c)"
  have up: "credential_count rep \<le> credential_count (?noted k rep)" for k rep by (simp add: record_class_def)
  have "credential_count (snd wr) \<le> credential_count (snd wr')" if a: "apply_class E c r wr = Inr wr'" for r
  proof -
    obtain m where m: "replace_hits E ?noted r (rc_replacement c) wr = Inr m"
      using a unfolding apply_class_def by (auto simp: rbind_ok)
    note m_le = credential_count_hits(1) [OF up m]
    show ?thesis
    proof (cases "rc_name c \<in> set evasion_scan_classes")
      case True
      with a m have "wr' = replace_spans ?noted (\<lambda>w. merge_spans (scan_whitespace_split (en_tables E) [r] w
          @ scan_encoded (en_tables E) [r] w)) (rc_replacement c) m" by (simp add: apply_class_def)
      then show ?thesis using le_trans [OF m_le credential_count_hits(2) [OF up]] by simp
    next
      case False
      with a m m_le show ?thesis by (simp add: apply_class_def)
    qed
  qed
  with assms show ?thesis by (auto simp: scan_class_def rbind_ok split: if_splits option.splits)
qed

lemma credential_count_classes:
  "rfold (scan_class E) cs wr = Inr wr' \<Longrightarrow> credential_count (snd wr) \<le> credential_count (snd wr')"
proof (induction cs arbitrary: wr)
  case (Cons c cs)
  then obtain m where "scan_class E c wr = Inr m" "rfold (scan_class E) cs m = Inr wr'" by (auto simp: rbind_ok)
  then show ?case using credential_count_class Cons.IH by (meson le_trans)
qed simp

lemma no_credential_hits:
  assumes "scrub E redact_md provenance t = Inr (out, rep)" and "credential_count rep = 0"
    and "generic_pattern E (load_redact (en_tables E) redact_md) = Inr generic"
  shows "credential_clean E generic t"
proof -
  let ?cs = "load_redact (en_tables E) redact_md"
  from assms(1) scrub_surfaces [OF assms(3)] obtain w r where
    w: "credential_surfaces E generic (generic_replacement ?cs) t
        \<lparr>rp_redacted = 0, rp_classes = [], rp_provenance = provenance, rp_trail = []\<rparr> = Inr (w, r)" and
    c: "rfold (scan_class E) ?cs (w, r) = Inr (out, rep)" by (auto simp: rbind_ok)
  have "credential_count r = 0" using credential_count_classes [OF c] assms(2) by simp
  with credential_hits.silent_surfaces(2) [OF w] show ?thesis by (simp add: credential_count_def)
qed

text \<open>C29: A silent report means a clean text. When \<open>scrub\<close> reports nothing, its output is the folded text, no
  provider token and no labelled credential matches anywhere in the raw or in the folded text, nor with its white
  space collapsed, no encoded run decodes to a credential within the depth bound, and no enabled class of REDACT.md
  has a match on the surfaces scanned for it.\<close>

theorem silent_reports_mean_clean_text:
  assumes "scrub E redact_md provenance t = Inr (out, rep)" and "rp_redacted rep = 0"
    and "generic_pattern E (load_redact (en_tables E) redact_md) = Inr generic"
  shows "out = fold_text (en_tables E) t \<and> rp_classes rep = [] \<and> rp_trail rep = []
    \<and> credential_free E generic t \<and> credential_free E generic out
    \<and> scan_whitespace_collapsed (en_tables E) out = []
    \<and> encoded_hits (en_tables E) (probe_patterns (en_tables E)) out = []
    \<and> (\<forall>c\<in>set (load_redact (en_tables E) redact_md). class_clean E c out)"
  using silent_core [OF assms] by (auto simp: credential_clean_def Let_def)

section \<open>The credentials class cannot be switched off\<close>

definition switched :: "bool \<Rightarrow> redact_class \<Rightarrow> redact_class" where
  "switched on c = (if rc_name c = u ''credentials'' then c\<lparr>rc_enabled := on\<rparr> else c)"

lemma switched_simps [simp]:
  "rc_name (switched on c) = rc_name c" "rc_replacement (switched on c) = rc_replacement c"
  "custom_pattern (switched on c) = custom_pattern c"
  by (simp_all add: switched_def custom_pattern_def)

lemma credentials_class_switched: "credentials_class (map (switched on) cs) = map_option (switched on) (credentials_class cs)"
  by (induction cs) (simp_all add: credentials_class_def)

lemma scan_class_switched: "scan_class E (switched on c) = scan_class E c"
  by (rule ext) (simp add: scan_class_def switched_def)

lemma rfold_map: "rfold f (map g xs) b = rfold (\<lambda>x. f (g x)) xs b"
proof (induction xs arbitrary: b)
  case (Cons x xs)
  then have "rfold f (map g xs) = rfold (\<lambda>x. f (g x)) xs" by (rule ext)
  then show ?case by simp
qed simp

text \<open>The credentials class is always applied. Whatever the \<open>enabled\<close> setting of the credentials class in
  REDACT.md says, \<open>scrub\<close> returns the same text and the same report.\<close>

theorem credentials_are_always_scrubbed:
  "scrub_classes E (map (switched on) cs) provenance t = scrub_classes E cs provenance t"
proof -
  have "generic_pattern E (map (switched on) cs) = generic_pattern E cs"
    by (cases "credentials_class cs") (simp_all add: generic_pattern_def credentials_class_switched)
  moreover have "generic_replacement (map (switched on) cs) = generic_replacement cs"
    by (cases "credentials_class cs") (simp_all add: generic_replacement_def credentials_class_switched)
  ultimately show ?thesis by (simp add: scrub_classes_def rfold_map scan_class_switched)
qed

section \<open>The report accounts for every hit\<close>

definition trail_count :: "report \<Rightarrow> nat" where
  "trail_count rep = sum_list (map (\<lambda>(n, k, r). k) (rp_trail rep))"

text \<open>What every step keeps of the report.\<close>

definition accounted :: "report \<Rightarrow> bool" where
  "accounted rep \<longleftrightarrow> rp_redacted rep = trail_count rep \<and> (\<forall>(n, k, r) \<in> set (rp_trail rep). 0 < k)
     \<and> (rp_classes rep = [] \<longleftrightarrow> rp_trail rep = []) \<and> distinct (rp_classes rep)"

definition accounts :: "(chars \<times> report \<Rightarrow> exn + chars \<times> report) \<Rightarrow> bool" where
  "accounts f \<longleftrightarrow> (\<forall>wr wr'. f wr = Inr wr' \<longrightarrow> accounted (snd wr) \<longrightarrow> accounted (snd wr'))"

lemma accounted_add: "accounted rep \<Longrightarrow> 0 < k \<Longrightarrow> accounted (add_hits c n k r rep)"
  by (auto simp: accounted_def add_hits_def trail_count_def)

lemma accounts_bind: "accounts f \<Longrightarrow> accounts g \<Longrightarrow> accounts (\<lambda>wr. rbind (f wr) g)"
  unfolding accounts_def by (metis rbind_ok)

lemma accounts_rfold: "(\<And>x. x \<in> set xs \<Longrightarrow> accounts (f x)) \<Longrightarrow> accounts (rfold f xs)"
proof (induction xs)
  case (Cons x xs)
  then have "accounts (\<lambda>wr. rbind (f x wr) (rfold f xs))" by (intro accounts_bind) auto
  then show ?case by (simp add: accounts_def)
qed (simp add: accounts_def)

lemma accounts_hits:
  "(\<And>k rep. accounted rep \<Longrightarrow> 0 < k \<Longrightarrow> accounted (note k rep)) \<Longrightarrow> accounts (replace_hits E note r repl)"
  unfolding accounts_def replace_hits_def
  by (auto simp: Let_def rbind_ok split: if_splits prod.splits)

lemma accounts_spans:
  "(\<And>k rep. accounted rep \<Longrightarrow> 0 < k \<Longrightarrow> accounted (note k rep)) \<Longrightarrow>
     accounts (\<lambda>wr. Inr (replace_spans note scanner repl wr))"
  unfolding accounts_def replace_spans_def by (auto simp: Let_def split: if_splits prod.splits)

lemmas accounted_notes = accounted_add [of _ _ "u ''credentials''", folded record_credentials_def]
  accounted_add [of _ _ c c for c, folded record_class_def]

lemma accounts_surface: "accounts (scan_surface E generic repl)"
  unfolding scan_surface_def [abs_def]
  by (intro accounts_bind accounts_rfold) (auto split: prod.splits intro!: accounts_hits accounted_notes)

lemma accounts_class: "accounts (scan_class E c)"
proof -
  have noted: "accounted rep \<Longrightarrow> 0 < k \<Longrightarrow> accounted (record_class (rc_name c) k (rc_replacement c) rep)" for k rep
    by (rule accounted_notes)
  have "accounts (apply_class E c r)" for r
  proof (cases "rc_name c \<in> set evasion_scan_classes")
    case True
    from accounts_bind [OF accounts_hits [OF noted] accounts_spans [OF noted]]
    show ?thesis by (simp add: apply_class_def [abs_def] True)
  next
    case False
    have "rbind m Inr = m" for m :: "exn + chars \<times> report" by (cases m) auto
    then have eq: "apply_class E c r
        = replace_hits E (\<lambda>k. record_class (rc_name c) k (rc_replacement c)) r (rc_replacement c)"
      by (intro ext) (simp add: apply_class_def False)
    show ?thesis unfolding eq by (rule accounts_hits) (rule noted)
  qed
  then show ?thesis by (auto simp: accounts_def scan_class_def rbind_ok split: if_splits option.splits)
qed

lemma scrub_accounted:
  assumes "scrub E redact_md provenance t = Inr (out, rep)"
  shows "accounted rep"
proof -
  let ?U = "en_tables E" and ?cs = "load_redact (en_tables E) redact_md"
  let ?rep = "\<lparr>rp_redacted = 0, rp_classes = [], rp_provenance = provenance, rp_trail = []\<rparr>"
  have start: "accounted ?rep" by (simp add: accounted_def trail_count_def)
  have spans: "accounted (snd wr) \<Longrightarrow> accounted (snd (replace_spans (\<lambda>k. record_credentials n k r) scanner repl wr))"
    for wr n r scanner repl
    using accounts_spans [of "\<lambda>k. record_credentials n k r" scanner repl] accounted_notes(1)
    unfolding accounts_def by blast
  have step: "f wr = Inr wr' \<Longrightarrow> accounted (snd wr) \<Longrightarrow> accounts f \<Longrightarrow> accounted (snd wr')" for f wr wr'
    unfolding accounts_def by blast
  from assms obtain generic w r wr where
    a: "scan_surface E generic (generic_replacement ?cs) (t, ?rep) = Inr (w, r)" and
    b: "scan_surface E generic (generic_replacement ?cs) (fold_text ?U w, r) = Inr wr" and
    c: "rfold (scan_class E) ?cs
       (replace_spans (\<lambda>k. record_credentials (u ''credentials_encoded'') k MARKER)
          (scan_encoded ?U (probe_patterns ?U)) MARKER
       (replace_spans (\<lambda>k. record_credentials (u ''credentials_whitespace_split'') k MARKER)
          (scan_whitespace_collapsed ?U) MARKER wr)) = Inr (out, rep)"
    by (auto simp: scrub_def scrub_classes_def rbind_ok)
  have "accounted r" using step [OF a _ accounts_surface] start by simp
  then have "accounted (snd wr)" using step [OF b _ accounts_surface] by simp
  from step [OF c spans [OF spans [OF this]] accounts_rfold [OF accounts_class]]
  show ?thesis by simp
qed

text \<open>The report accounts for every replacement. Its count is the sum of the counts of the audit trail, every
  entry of the trail is positive, and a class is listed, once, exactly when something was replaced.\<close>

theorem reports_account_for_every_hit:
  assumes "scrub E redact_md provenance t = Inr (out, rep)"
  shows "rp_redacted rep = sum_list (map (\<lambda>(n, k, r). k) (rp_trail rep))
    \<and> (\<forall>(n, k, r) \<in> set (rp_trail rep). 0 < k)
    \<and> (rp_classes rep = [] \<longleftrightarrow> rp_trail rep = []) \<and> distinct (rp_classes rep)"
  using scrub_accounted [OF assms] by (simp add: accounted_def trail_count_def)

section \<open>Tokens that are always reported\<close>

lemma mt_cats_Cons: "mt U (cats (r # rs)) p g k = mt U r p g (\<lambda>q h. mt U (cats rs) q h k)"
  by (cases rs) simp_all

lemma mt_lit: "mt U (lit s) (b, u s @ rest) g k = k (if s = [] then b else Some (ord (List.last s)), rest) g"
proof (induction s arbitrary: b)
  case (Cons c s)
  then show ?case by (simp add: lit_def u_def mt_cats_Cons)
qed (simp add: lit_def u_def)

lemma reps_exactly:
  assumes body: "\<And>b x rest g k. f x \<Longrightarrow> body (b, x # rest) g k = k (Some x, rest) g"
  shows "length xs = n \<Longrightarrow> n < fuel \<Longrightarrow> (\<And>x. x \<in> set xs \<Longrightarrow> f x) \<Longrightarrow>
     reps body True fuel n (Some (int n)) (b, xs @ rest) g k
     = k (if xs = [] then b else Some (List.last xs), rest) g"
proof (induction fuel arbitrary: n xs b g)
  case (Suc fuel)
  show ?case
  proof (cases xs)
    case (Cons x ys)
    have n: "int (n - 1) = int n - 1" "0 < n" "f x" using Suc.prems by (auto simp: Cons)
    have "reps body True fuel (n - 1) (Some (int (n - 1))) (Some x, ys @ rest) g k
        = k (if ys = [] then Some x else Some (List.last ys), rest) g"
      using Suc.prems by (intro Suc.IH) (auto simp: Cons)
    then show ?thesis using n by (simp add: Cons Let_def body)
  qed (use Suc.prems in \<open>simp add: Let_def\<close>)
qed simp

lemma mt_exactly:
  assumes "length xs = n" "\<And>x. x \<in> set xs \<Longrightarrow> f x"
  shows "mt U (exactly n (One f)) (b, xs @ rest) g k = k (if xs = [] then b else Some (List.last xs), rest) g"
  unfolding exactly_def mt.simps(5) by (rule reps_exactly [where f = f]) (use assms in auto)

lemma aws_key_matches:
  assumes key: "length key = 16" "\<And>c. c \<in> set key \<Longrightarrow> upper c \<or> digit c"
    and word: "\<And>c. upper c \<or> digit c \<Longrightarrow> is_word U c"
    and edges: "before = [] \<or> \<not> is_word U (List.last before)" "after = [] \<or> \<not> is_word U (hd after)"
  shows "match_at U aws_access_key False (pos_at (before @ u ''AKIA'' @ key @ after) (length before)) \<noteq> None"
proof -
  have p: "pos_at (before @ u ''AKIA'' @ key @ after) (length before)
      = (if before = [] then None else Some (List.last before), u ''AKIA'' @ key @ after)"
    by (auto simp: pos_at_def nth_append last_conv_nth)
  have "upper (ord CHR ''A'')" by (simp add: upper_def ord_def)
  with word have A: "is_word U (ord CHR ''A'')" by blast
  have "List.last key \<in> set key" "key \<noteq> []" using key(1) by (auto intro: last_in_set)
  with key(2) word have L: "is_word U (List.last key)" by blast
  have start: "wordlike U (if before = [] then None else Some (List.last before))
      \<noteq> wordlike U (next_char (if before = [] then None else Some (List.last before), u ''AKIA'' @ key @ after))"
    using edges(1) A by (auto simp: next_char_def u_def)
  have stop: "wordlike U (Some (List.last key)) \<noteq> wordlike U (next_char (Some (List.last key), after))"
    using edges(2) L by (auto simp: next_char_def split: list.splits)
  have "match_at U aws_access_key False (pos_at (before @ u ''AKIA'' @ key @ after) (length before))
      = Some ((Some (List.last key), after), [])"
    using start stop \<open>key \<noteq> []\<close>
    by (simp add: p match_at_def aws_access_key_def mt_cats_Cons mt_lit mt_exactly [OF key] del: cats.simps(3))
  then show ?thesis by simp
qed

text \<open>An AWS access key never passes in silence. A text that holds \<open>AKIA\<close> and sixteen upper-case letters or
  digits, with no word character next to them, is reported under the class credentials, whatever REDACT.md says
  and whatever surrounds it, when the tables know ASCII letters and digits as word characters.\<close>

theorem aws_keys_are_always_reported:
  assumes "length key = 16" and "\<forall>c \<in> set key. upper c \<or> digit c"
    and "\<forall>c. upper c \<or> digit c \<longrightarrow> is_word (en_tables E) c"
    and "before = [] \<or> \<not> is_word (en_tables E) (List.last before)"
    and "after = [] \<or> \<not> is_word (en_tables E) (hd after)"
    and "scrub E redact_md provenance (before @ u ''AKIA'' @ key @ after) = Inr (out, rep)"
  shows "0 < rp_redacted rep \<and> rp_classes rep \<noteq> []"
proof -
  let ?t = "before @ u ''AKIA'' @ key @ after"
  obtain generic where g: "generic_pattern E (load_redact (en_tables E) redact_md) = Inr generic"
    using assms(6) by (auto simp: scrub_def scrub_classes_def rbind_ok)
  have "match_at (en_tables E) aws_access_key False (pos_at ?t (length before)) \<noteq> None"
    by (rule aws_key_matches) (use assms in auto)
  then have "\<not> credential_free E generic ?t"
    by (auto simp: credential_free_def provider_patterns_def intro!: exI [of _ "length before"])
  then have "\<not> credential_clean E generic ?t" by (simp add: credential_clean_def Let_def)
  with silent_core(4) [OF assms(6) _ g] have "rp_redacted rep \<noteq> 0" by blast
  moreover have "accounted rep" by (rule scrub_accounted [OF assms(6)])
  ultimately show ?thesis by (auto simp: accounted_def trail_count_def)
qed

section \<open>When redaction cannot fail\<close>

text \<open>Without patterns of its own and without backslashes in its replacements, REDACT.md leaves
  \<open>scrub\<close> nothing to raise.\<close>

definition plain_class :: "redact_class \<Rightarrow> bool" where
  "plain_class c \<longleftrightarrow> custom_pattern c = None \<and> 92 \<notin> set (rc_replacement c)"

definition total :: "('a \<Rightarrow> exn + 'b) \<Rightarrow> bool" where
  "total f \<longleftrightarrow> (\<forall>x. \<exists>y. f x = Inr y)"

lemma totalD: "total f \<Longrightarrow> \<exists>y. f x = Inr y"
  by (simp add: total_def)

lemma total_bind: "total f \<Longrightarrow> total g \<Longrightarrow> total (\<lambda>x. rbind (f x) g)"
  unfolding total_def by (metis rbind_simps(2))

lemma total_rfold: "(\<And>x. x \<in> set xs \<Longrightarrow> total (f x)) \<Longrightarrow> total (rfold f xs)"
proof (induction xs)
  case (Cons x xs)
  then have "total (\<lambda>b. rbind (f x b) (rfold f xs))" by (intro total_bind) auto
  then show ?case by (simp add: total_def)
qed (simp add: total_def)

lemma total_hits: "92 \<notin> set repl \<Longrightarrow> total (replace_hits E noted r repl)"
  by (auto simp: total_def replace_hits_def re_sub_def Let_def split: prod.splits)

lemma marker_plain: "92 \<notin> set MARKER"
  by (simp add: MARKER_def u_def ord_def)

lemma total_surface: "92 \<notin> set repl \<Longrightarrow> total (scan_surface E generic repl)"
  unfolding scan_surface_def [abs_def]
  by (intro total_bind total_rfold) (auto split: prod.splits intro!: total_hits marker_plain)

lemma total_class: "plain_class c \<Longrightarrow> total (scan_class E c)"
proof -
  assume c: "plain_class c"
  have "\<exists>y. apply_class E c r wr = Inr y" for r wr
    using totalD [OF total_hits, of "rc_replacement c" E "\<lambda>k. record_class (rc_name c) k (rc_replacement c)" r wr] c
    by (auto simp: apply_class_def plain_class_def)
  then show ?thesis using c
    by (auto simp: total_def scan_class_def class_pattern_def plain_class_def split: option.splits)
qed

lemma scrub_total:
  assumes "\<And>c. c \<in> set (load_redact (en_tables E) redact_md) \<Longrightarrow> plain_class c"
  shows "\<exists>out rep. scrub E redact_md provenance t = Inr (out, rep)"
proof -
  let ?cs = "load_redact (en_tables E) redact_md"
  have cc: "credentials_class ?cs = Some c \<Longrightarrow> plain_class c" for c
    using assms by (auto simp: credentials_class_def find_Some_iff)
  have g: "generic_pattern E ?cs = Inr (credentials (en_tables E))"
    using cc by (cases "credentials_class ?cs") (auto simp: generic_pattern_def plain_class_def)
  have "92 \<notin> set (generic_replacement ?cs)"
    using cc marker_plain by (cases "credentials_class ?cs") (auto simp: generic_replacement_def plain_class_def)
  then have s: "total (scan_surface E generic (generic_replacement ?cs))" for generic by (rule total_surface)
  have f: "total (rfold (scan_class E) ?cs)" by (rule total_rfold) (rule total_class [OF assms])
  let ?start = "(t, \<lparr>rp_redacted = 0, rp_classes = [], rp_provenance = provenance, rp_trail = []\<rparr>)"
  obtain w r where w: "scan_surface E (credentials (en_tables E)) (generic_replacement ?cs) ?start = Inr (w, r)"
    using totalD [OF s, of "credentials (en_tables E)" ?start] by auto
  obtain wr where wr: "scan_surface E (credentials (en_tables E)) (generic_replacement ?cs)
      (fold_text (en_tables E) w, r) = Inr wr"
    using totalD [OF s] by blast
  obtain z where "rfold (scan_class E) ?cs
       (replace_spans (\<lambda>k. record_credentials (u ''credentials_encoded'') k MARKER)
          (scan_encoded (en_tables E) (probe_patterns (en_tables E))) MARKER
       (replace_spans (\<lambda>k. record_credentials (u ''credentials_whitespace_split'') k MARKER)
          (scan_whitespace_collapsed (en_tables E)) MARKER wr)) = Inr z"
    using totalD [OF f] by blast
  with w wr g show ?thesis by (cases z) (auto simp: scrub_def scrub_classes_def)
qed

lemma default_classes_plain: "c \<in> set (default_classes U) \<Longrightarrow> plain_class c"
  by (auto simp: default_classes_def builtin_patterns_def plain_class_def custom_pattern_def
      default_replacement_def u_def ord_def)

text \<open>A REDACT.md that opens with a comment is ignored. The frontmatter is read only when the file begins with
  its marker; after an HTML comment, like the one the file of this repository begins with, every class is enabled with
  its built-in pattern and replacement, whatever the frontmatter says, and \<open>scrub\<close> returns for every text.\<close>

theorem commented_redact_md_is_ignored:
  "load_redact U (Some (u ''<!--'' @ rest)) = default_classes U
   \<and> (\<forall>c \<in> set (default_classes U). rc_enabled c)
   \<and> (en_tables E = U \<longrightarrow> (\<exists>out rep. scrub E (Some (u ''<!--'' @ rest)) provenance t = Inr (out, rep)))"
proof (intro conjI impI)
  show eq: "load_redact U (Some (u ''<!--'' @ rest)) = default_classes U"
    by (simp add: load_redact_def u_def ord_def)
  show "\<forall>c \<in> set (default_classes U). rc_enabled c" by (auto simp: default_classes_def)
  assume "en_tables E = U"
  then show "\<exists>out rep. scrub E (Some (u ''<!--'' @ rest)) provenance t = Inr (out, rep)"
    by (intro scrub_total) (simp add: eq default_classes_plain)
qed

end
