(* ===== verification/Privacy_Audit.thy ===== *)
theory Privacy_Audit
  imports Redaction_Props
begin

text \<open>
  The repository scan of \<open>privacy.audit\<close>: which files it reads, the allow markers, the nested
  archives with their ceilings, and the findings a release gate reads. What \<open>git\<close> and the
  operating system say of the tree (the files, the tracked ones, whether REDACT.md is changed) and
  what \<open>zipfile\<close> and \<open>tarfile\<close> read from an archive are arguments. When the scan leaves
  \<open>credential_files\<close> empty, every file it covers is free of credentials.
\<close>

section \<open>Allow markers\<close>

definition allow_file :: "tables \<Rightarrow> rx" where
  "allow_file U = cats [lit_ci U ''privacy-audit:'', many (One (is_space U)), lit_ci U ''allow-file'']"

definition allow_line :: "tables \<Rightarrow> rx" where
  "allow_line U = alts
     [cats [lit_ci U ''noqa:'', many (One (is_space U)), lit_ci U ''privacy-audit''],
      cats [lit_ci U ''privacy-audit:'', many (One (is_space U)), alts [lit_ci U ''allow'', lit_ci U ''ignore'']]]"

fun join_lines :: "chars list \<Rightarrow> chars" where
  "join_lines [] = []"
| "join_lines [x] = x"
| "join_lines (x # xs) = x @ 10 # join_lines xs"

definition file_allowlisted :: "tables \<Rightarrow> chars \<Rightarrow> bool" where
  "file_allowlisted U t \<longleftrightarrow> found_in U (allow_file U) (join_lines (take 40 (splitlines t)))"

definition filter_noqa_lines :: "tables \<Rightarrow> chars \<Rightarrow> chars" where
  "filter_noqa_lines U t = join_lines (filter (\<lambda>l. \<not> found_in U (allow_line U) l) (splitlines t))"

section \<open>Archives\<close>

definition ARCHIVE_MAX_DEPTH :: nat where
  "ARCHIVE_MAX_DEPTH = 3"

definition ARCHIVE_MAX_MEMBER_BYTES :: int where
  "ARCHIVE_MAX_MEMBER_BYTES = 2 * 1024 * 1024"

definition ARCHIVE_MAX_TOTAL_BYTES :: int where
  "ARCHIVE_MAX_TOTAL_BYTES = 32 * 1024 * 1024"

definition ARCHIVE_MAX_MEMBERS :: int where
  "ARCHIVE_MAX_MEMBERS = 4096"

definition TEXTUAL_EXTS :: "string list" where
  "TEXTUAL_EXTS = [''.md'', ''.py'', ''.json'', ''.yml'', ''.yaml'', ''.toml'', ''.jsonl'',
     ''.txt'', ''.cfg'', ''.ini'', ''.env'']"

datatype archive_kind = Zip | Tar

definition archive_kind_of :: "tables \<Rightarrow> chars \<Rightarrow> archive_kind option" where
  "archive_kind_of U name =
     (let n = lowered U name
      in if ends (u ''.zip'') n then Some Zip
         else if list_ex (\<lambda>x. ends (u x) n) [''.tar'', ''.tar.gz'', ''.tgz'', ''.tar.bz2'', ''.tbz2'']
         then Some Tar else None)"

text \<open>\<open>Path.suffix\<close> of a file name.\<close>

definition suffix_of :: "chars \<Rightarrow> chars" where
  "suffix_of name = (case cut (u ''.'') (rev name) of
       Some (ext, stem) \<Rightarrow> if ext = [] \<or> stem = [] then [] else u ''.'' @ rev ext
     | None \<Rightarrow> [])"

text \<open>The final path component of a member name.\<close>

definition base_name :: "chars \<Rightarrow> chars" where
  "base_name p = (case cut (u ''/'') (rev p) of Some (b, a) \<Rightarrow> rev b | None \<Rightarrow> p)"

text \<open>A member as the library lists it; \<open>mb_data\<close> is \<open>None\<close> when it cannot be read.\<close>

record member =
  mb_name :: chars
  mb_file :: bool
  mb_size :: int
  mb_data :: "int list option"

text \<open>The members an archive delivers, and whether reading it ended in an error.\<close>

type_synonym unpacker = "archive_kind \<Rightarrow> int list \<Rightarrow> member list \<times> bool"

record archive_scan =
  as_members :: int
  as_bytes :: int
  as_hits :: nat
  as_classes :: "chars list"
  as_exceeded :: bool
  as_malformed :: bool

definition credential_entries :: "report \<Rightarrow> (chars \<times> nat \<times> chars) list" where
  "credential_entries rep = filter (\<lambda>(n, k, r). begins (u ''credentials'') n) (rp_trail rep)"

text \<open>\<open>_observe\<close>.\<close>

definition observe :: "engine \<Rightarrow> chars option \<Rightarrow> chars \<Rightarrow> archive_scan \<Rightarrow> exn + archive_scan" where
  "observe E redact_md t st = rbind (scrub E redact_md [] t) (\<lambda>(out, rep). Inr (st
     \<lparr>as_hits := as_hits st + sum_list (map (\<lambda>(n, k, r). k) (credential_entries rep)),
      as_classes := as_classes st @ map fst (credential_entries rep)\<rparr>))"

text \<open>\<open>_handle_member\<close>: \<open>nested\<close> scans an archive inside the archive, if the depth allows one.\<close>

definition handle_member :: "engine \<Rightarrow> chars option
    \<Rightarrow> (archive_kind \<Rightarrow> int list \<Rightarrow> archive_scan \<Rightarrow> exn + archive_scan) option
    \<Rightarrow> chars \<Rightarrow> int list \<Rightarrow> archive_scan \<Rightarrow> exn + archive_scan" where
  "handle_member E redact_md nested name data st =
     (let U = en_tables E
      in if ARCHIVE_MAX_MEMBER_BYTES < int (length data) then Inr st
         else
           (let st = st\<lparr>as_members := as_members st + 1, as_bytes := as_bytes st + int (length data)\<rparr>
            in if \<not> (as_members st \<le> ARCHIVE_MAX_MEMBERS \<and> as_bytes st \<le> ARCHIVE_MAX_TOTAL_BYTES)
               then Inr (st\<lparr>as_malformed := True\<rparr>)
               else (case archive_kind_of U name of
                   Some kind \<Rightarrow>
                     (case nested of
                        None \<Rightarrow> Inr (st\<lparr>as_exceeded := True\<rparr>)
                      | Some scan_nested \<Rightarrow>
                          rbind (scan_nested kind data (st\<lparr>as_hits := 0, as_classes := [], as_exceeded := False, as_malformed := False\<rparr>))
                            (\<lambda>sub. Inr (sub
                               \<lparr>as_hits := as_hits st + as_hits sub, as_classes := as_classes st @ as_classes sub,
                                as_exceeded := as_exceeded st \<or> as_exceeded sub,
                                as_malformed := as_malformed st \<or> as_malformed sub\<rparr>)))
                 | None \<Rightarrow>
                     (let suffix = lowered U (suffix_of (base_name name))
                      in if suffix \<noteq> [] \<and> suffix \<notin> set (map u TEXTUAL_EXTS) then Inr st
                         else (case utf8 data of None \<Rightarrow> Inr st | Some t \<Rightarrow> observe E redact_md t st)))))"

text \<open>One member of the listing: what is no file or declares too large a size is passed over.\<close>

definition list_member :: "engine \<Rightarrow> chars option
    \<Rightarrow> (archive_kind \<Rightarrow> int list \<Rightarrow> archive_scan \<Rightarrow> exn + archive_scan) option
    \<Rightarrow> archive_kind \<Rightarrow> member \<Rightarrow> archive_scan \<Rightarrow> exn + archive_scan" where
  "list_member E redact_md nested kind m st =
     (if \<not> mb_file m \<or> ARCHIVE_MAX_MEMBER_BYTES < mb_size m then Inr st
      else (case mb_data m of
          None \<Rightarrow> Inr (if kind = Zip then st\<lparr>as_malformed := True\<rparr> else st)
        | Some data \<Rightarrow> handle_member E redact_md nested (mb_name m) data st))"

text \<open>\<open>_scan_archive_bytes\<close>; the argument counts the levels still allowed below this one, from
  \<open>ARCHIVE_MAX_DEPTH - 1\<close> at depth 0.\<close>

primrec scan_archive :: "engine \<Rightarrow> unpacker \<Rightarrow> chars option \<Rightarrow> nat \<Rightarrow> archive_kind \<Rightarrow> int list
    \<Rightarrow> archive_scan \<Rightarrow> exn + archive_scan" where
  "scan_archive E unpack redact_md 0 kind raw st =
     (case unpack kind raw of (members, broken) \<Rightarrow>
        rbind (rfold (list_member E redact_md None kind) members st)
          (\<lambda>st. Inr (if broken then st\<lparr>as_malformed := True\<rparr> else st)))"
| "scan_archive E unpack redact_md (Suc n) kind raw st =
     (case unpack kind raw of (members, broken) \<Rightarrow>
        rbind (rfold (list_member E redact_md (Some (scan_archive E unpack redact_md n)) kind) members st)
          (\<lambda>st. Inr (if broken then st\<lparr>as_malformed := True\<rparr> else st)))"

definition no_findings :: archive_scan where
  "no_findings = \<lparr>as_members = 0, as_bytes = 0, as_hits = 0, as_classes = [],
     as_exceeded = False, as_malformed = False\<rparr>"

section \<open>The scan of a tree\<close>

text \<open>An entry of \<open>sorted(directory.rglob('*'))\<close>: its path as text and in components, whether it
  is a file, its resolved path, its \<open>st_flags\<close>, and what reading it gives (\<open>None\<close> for an error).\<close>

record entry =
  af_path :: chars
  af_parts :: "chars list"
  af_file :: bool
  af_resolved :: chars
  af_flags :: "int option"
  af_text :: "chars option"
  af_bytes :: "int list option"

definition af_name :: "entry \<Rightarrow> chars" where
  "af_name f = List.last (af_parts f)"

definition absolute :: "chars list \<Rightarrow> bool" where
  "absolute parts \<longleftrightarrow> parts \<noteq> [] \<and> hd parts = u ''/''"

definition rel_parts :: "chars list \<Rightarrow> entry \<Rightarrow> chars list" where
  "rel_parts dir f = (if absolute (af_parts f) then drop (length dir) (af_parts f) else af_parts f)"

definition SKIP_DIRS :: "string list" where
  "SKIP_DIRS = [''docs'', ''references'', ''tests'', ''.git'', ''__pycache__'', ''node_modules'', ''assets'',
     ''.venv'', ''venv'', ''site-packages'', ''.tox'', ''.nox'', ''build'', ''dist'', ''.claude'',
     ''.pytest_cache'', ''.mypy_cache'', ''.ruff_cache'']"

definition SKIP_PATHS :: "string list list" where
  "SKIP_PATHS = [[''CHANGELOG.md''], [''shiroe'', ''privacy.py''], [''shiroe'', ''security'', ''policy.py'']]"

definition skipped :: "chars list \<Rightarrow> bool" where
  "skipped parts \<longleftrightarrow> parts \<in> set (map (map u) SKIP_PATHS)
     \<or> list_ex (\<lambda>p. p \<in> set (map u SKIP_DIRS)) parts \<or> list_ex (ends (u ''.egg-info'')) parts"

text \<open>\<open>_is_macos_dataless_placeholder\<close>: bit 30 of the flags.\<close>

definition dataless_placeholder :: "entry \<Rightarrow> bool" where
  "dataless_placeholder f = (case af_flags f of None \<Rightarrow> False | Some fl \<Rightarrow> fl div 1073741824 mod 2 = 1)"

record audit_results =
  ar_scanned :: nat
  ar_total :: nat
  ar_by_file :: "(chars \<times> nat) list"
  ar_by_class :: "(chars \<times> nat) list"
  ar_allowlisted :: "chars list"
  ar_hits_by_class :: "(chars \<times> nat) list"
  ar_credential_files :: "(chars \<times> nat) list"
  ar_depth_exceeded :: "chars list"
  ar_malformed :: "chars list"
  ar_allowlist_changed :: bool

text \<open>\<open>d[k] = d.get(k, 0) + n\<close>.\<close>

definition bump_by :: "chars \<Rightarrow> nat \<Rightarrow> (chars \<times> nat) list \<Rightarrow> (chars \<times> nat) list" where
  "bump_by k n d = put_item k (the_default 0 (map_of d k) + n) d"

text \<open>The synthetic credentials hit of a changed REDACT.md and of an archive that cannot be scanned.\<close>

definition stamp :: "chars \<Rightarrow> audit_results \<Rightarrow> audit_results" where
  "stamp path r = r\<lparr>ar_credential_files := bump_by path 1 (ar_credential_files r),
     ar_hits_by_class := bump_by (u ''credentials'') 1 (ar_hits_by_class r), ar_total := ar_total r + 1\<rparr>"

definition audit_archive :: "engine \<Rightarrow> unpacker \<Rightarrow> chars option \<Rightarrow> archive_kind \<Rightarrow> chars \<Rightarrow> int list
    \<Rightarrow> audit_results \<Rightarrow> exn + audit_results" where
  "audit_archive E unpack redact_md kind path raw r =
     rbind (scan_archive E unpack redact_md (ARCHIVE_MAX_DEPTH - 1) kind raw no_findings) (\<lambda>st.
     let r = r\<lparr>ar_scanned := ar_scanned r + 1\<rparr>;
         r = (if as_exceeded st then stamp path (r\<lparr>ar_depth_exceeded := ar_depth_exceeded r @ [path]\<rparr>) else r);
         r = (if as_malformed st then stamp path (r\<lparr>ar_malformed := ar_malformed r @ [path]\<rparr>) else r);
         n = as_hits st
     in Inr (if n = 0 then r
        else r\<lparr>ar_total := ar_total r + n, ar_by_file := bump_by path n (ar_by_file r),
               ar_hits_by_class := bump_by (u ''credentials'') n (ar_hits_by_class r),
               ar_credential_files := bump_by path n (ar_credential_files r),
               ar_by_class := bump_by (u ''credentials'') 1 (ar_by_class r)\<rparr>))"

text \<open>One entry of the audit trail of a file's report: provider classes count as credentials.\<close>

definition tally_entry :: "chars \<Rightarrow> chars \<times> nat \<times> chars \<Rightarrow> audit_results \<Rightarrow> audit_results" where
  "tally_entry path e r = (case e of (n, k, _) \<Rightarrow>
     if begins (u ''credentials'') n
     then r\<lparr>ar_hits_by_class := bump_by (u ''credentials'') k (ar_hits_by_class r),
            ar_credential_files := bump_by path k (ar_credential_files r)\<rparr>
     else r\<lparr>ar_hits_by_class := bump_by n k (ar_hits_by_class r)\<rparr>)"

definition audit_text :: "engine \<Rightarrow> chars option \<Rightarrow> chars \<Rightarrow> chars \<Rightarrow> audit_results \<Rightarrow> exn + audit_results" where
  "audit_text E redact_md path t r =
     (if file_allowlisted (en_tables E) t then Inr (r\<lparr>ar_allowlisted := ar_allowlisted r @ [path]\<rparr>)
      else rbind (scrub E redact_md [] (filter_noqa_lines (en_tables E) t)) (\<lambda>(out, rep).
        let r = r\<lparr>ar_scanned := ar_scanned r + 1\<rparr>
        in Inr (if rp_redacted rep = 0 then r
           else fold (tally_entry path) (rp_trail rep)
             (r\<lparr>ar_total := ar_total r + rp_redacted rep,
                ar_by_file := put_item path (rp_redacted rep) (ar_by_file r),
                ar_by_class := fold (\<lambda>c. bump_by c 1) (rp_classes rep) (ar_by_class r)\<rparr>))))"

definition audited_exts :: "bool \<Rightarrow> string list" where
  "audited_exts strict = (if strict then [''.md'', ''.py'', ''.json'', ''.yml'', ''.yaml'', ''.toml'', ''.jsonl'']
     else [''.md''])"

definition archive_exts :: "bool \<Rightarrow> string list" where
  "archive_exts strict = (if strict then [''.zip'', ''.tar'', ''.gz'', ''.tgz'', ''.bz2'', ''.tbz2''] else [])"

definition in_archive_branch :: "tables \<Rightarrow> bool \<Rightarrow> entry \<Rightarrow> archive_kind option" where
  "in_archive_branch U strict f =
     (if lowered U (suffix_of (af_name f)) \<in> set (map u (archive_exts strict))
      then archive_kind_of U (af_name f) else None)"

definition untracked :: "chars list option \<Rightarrow> entry \<Rightarrow> bool" where
  "untracked tracked f = (case tracked of None \<Rightarrow> False | Some ts \<Rightarrow> af_resolved f \<notin> set ts)"

definition audit_entry :: "engine \<Rightarrow> unpacker \<Rightarrow> chars option \<Rightarrow> bool \<Rightarrow> chars list \<Rightarrow> chars list option
    \<Rightarrow> entry \<Rightarrow> audit_results \<Rightarrow> exn + audit_results" where
  "audit_entry E unpack redact_md strict dir tracked f r =
     (if \<not> af_file f then Inr r
      else (case in_archive_branch (en_tables E) strict f of
          Some kind \<Rightarrow>
            if skipped (rel_parts dir f) \<or> untracked tracked f then Inr r
            else (case af_bytes f of None \<Rightarrow> Inr r
              | Some raw \<Rightarrow> audit_archive E unpack redact_md kind (af_path f) raw r)
        | None \<Rightarrow>
            if suffix_of (af_name f) \<notin> set (map u (audited_exts strict)) \<or> untracked tracked f
               \<or> skipped (rel_parts dir f) \<or> dataless_placeholder f then Inr r
            else (case af_text f of None \<Rightarrow> Inr r
              | Some t \<Rightarrow> audit_text E redact_md (af_path f) t r)))"

definition empty_results :: audit_results where
  "empty_results = \<lparr>ar_scanned = 0, ar_total = 0, ar_by_file = [], ar_by_class = [], ar_allowlisted = [],
     ar_hits_by_class = [], ar_credential_files = [], ar_depth_exceeded = [], ar_malformed = [],
     ar_allowlist_changed = False\<rparr>"

definition audit :: "engine \<Rightarrow> unpacker \<Rightarrow> chars option \<Rightarrow> chars \<Rightarrow> bool \<Rightarrow> bool \<Rightarrow> chars list
    \<Rightarrow> chars list option \<Rightarrow> entry list \<Rightarrow> exn + audit_results" where
  "audit E unpack redact_md redact_path redact_dirty strict dir tracked files =
     rfold (audit_entry E unpack redact_md strict dir tracked) files
       (if strict \<and> redact_dirty then stamp redact_path (empty_results\<lparr>ar_allowlist_changed := True\<rparr>)
        else empty_results)"

section \<open>An empty list of credential files\<close>

lemma put_item_nonempty [simp]: "put_item k v d \<noteq> []"
  by (cases "(k, v, d)" rule: put_item.cases) auto

lemma bump_by_nonempty [simp]: "bump_by k n d \<noteq> []"
  by (simp add: bump_by_def)

lemma tally_entry_files:
  "ar_credential_files (tally_entry path e r) = []
     \<longleftrightarrow> ar_credential_files r = [] \<and> \<not> begins (u ''credentials'') (fst e)"
  by (auto simp: tally_entry_def split: prod.splits)

lemma fold_tally_files:
  "ar_credential_files (fold (tally_entry path) es r) = []
     \<longleftrightarrow> ar_credential_files r = [] \<and> (\<forall>e \<in> set es. \<not> begins (u ''credentials'') (fst e))"
  by (induction es arbitrary: r) (auto simp: tally_entry_files)

text \<open>What the gate is about: a text the scan covers.\<close>

definition covers :: "engine \<Rightarrow> bool \<Rightarrow> chars list \<Rightarrow> chars list option \<Rightarrow> entry \<Rightarrow> chars \<Rightarrow> bool" where
  "covers E strict dir tracked f t \<longleftrightarrow> af_file f \<and> in_archive_branch (en_tables E) strict f = None
     \<and> suffix_of (af_name f) \<in> set (map u (audited_exts strict)) \<and> \<not> untracked tracked f
     \<and> \<not> skipped (rel_parts dir f) \<and> \<not> dataless_placeholder f \<and> af_text f = Some t
     \<and> \<not> file_allowlisted (en_tables E) t"

text \<open>A step keeps the list of credential files from becoming empty again.\<close>

lemma audit_archive_files:
  "audit_archive E unpack redact_md kind path raw r = Inr r' \<Longrightarrow> ar_credential_files r' = [] \<Longrightarrow> ar_credential_files r = []"
  by (auto simp: audit_archive_def rbind_ok stamp_def Let_def split: if_splits)

lemma audit_text_files:
  "audit_text E redact_md path t r = Inr r' \<Longrightarrow> ar_credential_files r' = [] \<Longrightarrow> ar_credential_files r = []"
  by (auto simp: audit_text_def rbind_ok Let_def fold_tally_files split: if_splits)

lemma audit_entry_files:
  "audit_entry E unpack redact_md strict dir tracked f r = Inr r' \<Longrightarrow> ar_credential_files r' = [] \<Longrightarrow>
     ar_credential_files r = []"
  unfolding audit_entry_def
  by (auto split: if_splits option.splits dest: audit_archive_files audit_text_files)

lemma credential_count_0: "(\<forall>e \<in> set (rp_trail rep). \<not> begins (u ''credentials'') (fst e)) \<Longrightarrow> credential_count rep = 0"
  by (auto simp: credential_count_def case_prod_beta)

lemma audit_text_clean:
  assumes "audit_text E redact_md path t r = Inr r'" and "ar_credential_files r' = []"
    and "\<not> file_allowlisted (en_tables E) t"
  shows "\<exists>generic. generic_pattern E (load_redact (en_tables E) redact_md) = Inr generic
     \<and> credential_clean E generic (filter_noqa_lines (en_tables E) t)"
proof -
  let ?t = "filter_noqa_lines (en_tables E) t"
  from assms(1,3) obtain out rep where s: "scrub E redact_md [] ?t = Inr (out, rep)"
    and r': "r' = (let r = r\<lparr>ar_scanned := ar_scanned r + 1\<rparr> in if rp_redacted rep = 0 then r
       else fold (tally_entry path) (rp_trail rep)
         (r\<lparr>ar_total := ar_total r + rp_redacted rep,
            ar_by_file := put_item path (rp_redacted rep) (ar_by_file r),
            ar_by_class := fold (\<lambda>c. bump_by c 1) (rp_classes rep) (ar_by_class r)\<rparr>))"
    by (auto simp: audit_text_def rbind_ok Let_def)
  have quiet: "rp_redacted rep = 0 \<or> (\<forall>e \<in> set (rp_trail rep). \<not> begins (u ''credentials'') (fst e))"
    using assms(2) unfolding r' by (cases "rp_redacted rep = 0") (simp_all add: Let_def fold_tally_files)
  obtain generic where g: "generic_pattern E (load_redact (en_tables E) redact_md) = Inr generic"
    using s by (auto simp: scrub_def scrub_classes_def rbind_ok)
  have "credential_clean E generic ?t"
  proof (cases "rp_redacted rep = 0")
    case False
    with quiet have "credential_count rep = 0" by (intro credential_count_0) simp
    then show ?thesis by (rule no_credential_hits [OF s _ g])
  qed (rule silent_core(4) [OF s _ g])
  with g show ?thesis by (intro exI conjI)
qed

lemma audit_core:
  "rfold (audit_entry E unpack redact_md strict dir tracked) files r = Inr res \<Longrightarrow> ar_credential_files res = [] \<Longrightarrow>
     ar_credential_files r = [] \<and> (\<forall>f \<in> set files. \<forall>t. covers E strict dir tracked f t \<longrightarrow>
       (\<exists>generic. generic_pattern E (load_redact (en_tables E) redact_md) = Inr generic
          \<and> credential_clean E generic (filter_noqa_lines (en_tables E) t)))"
proof (induction files arbitrary: r)
  case (Cons f files)
  then obtain m where m: "audit_entry E unpack redact_md strict dir tracked f r = Inr m"
    and later: "rfold (audit_entry E unpack redact_md strict dir tracked) files m = Inr res" by (auto simp: rbind_ok)
  note rest = Cons.IH [OF later Cons.prems(2)]
  have "\<exists>generic. generic_pattern E (load_redact (en_tables E) redact_md) = Inr generic
      \<and> credential_clean E generic (filter_noqa_lines (en_tables E) t)" if "covers E strict dir tracked f t" for t
  proof -
    have "audit_text E redact_md (af_path f) t r = Inr m" "\<not> file_allowlisted (en_tables E) t"
      using m that by (auto simp: audit_entry_def covers_def)
    with rest show ?thesis using audit_text_clean by blast
  qed
  with rest audit_entry_files [OF m] show ?case by auto
qed simp

text \<open>C30: The zero-tolerance gate is sound. When a strict audit ends with no credential file, REDACT.md was not
  changed, and every text the audit covers (a tracked file of an audited kind, in no skipped tree, without an
  allow-file marker) holds no credential on any surface, outside the lines its author marked.\<close>

theorem credential_gate_is_sound:
  assumes "audit E unpack redact_md redact_path redact_dirty True dir tracked files = Inr res"
    and "ar_credential_files res = []"
  shows "\<not> redact_dirty \<and> (\<forall>f \<in> set files. \<forall>t. covers E True dir tracked f t \<longrightarrow>
      (\<exists>generic. generic_pattern E (load_redact (en_tables E) redact_md) = Inr generic
         \<and> credential_clean E generic (filter_noqa_lines (en_tables E) t)))"
  using audit_core [OF assms(1) [unfolded audit_def] assms(2)] by (auto simp: stamp_def split: if_splits)

end
