(* ===== verification/Redaction_Examples.thy ===== *)
theory Redaction_Examples
  imports Privacy_Audit
begin

text \<open>
  Redaction on concrete texts: the Unicode tables restricted to ASCII, a clean text and an AWS
  access key, and a tree of one file, for the properties of \<open>Redaction_Props\<close> and
  \<open>Privacy_Audit\<close>.
\<close>

definition ascii :: tables where
  "ascii = \<lparr>is_space = (\<lambda>c. 9 \<le> c \<and> c \<le> 13 \<or> 28 \<le> c \<and> c \<le> 32),
     is_word = (\<lambda>c. alnum c \<or> c = 95), is_decimal = digit, is_alnum = alnum,
     is_printable = (\<lambda>c. 32 \<le> c \<and> c \<le> 126),
     case_variants = (\<lambda>c. if upper c then [c + 32] else if lower c then [c - 32] else []),
     to_lower = (\<lambda>c. [if upper c then c + 32 else c]), nfkc = (\<lambda>t. t)\<rparr>"

definition ascii_engine :: engine where
  "ascii_engine = \<lparr>en_tables = ascii, re_compile = (\<lambda>p. Inl (PatternError ''unsupported'')),
     re_template = (\<lambda>p. Inl (PatternError ''bad escape''))\<rparr>"

lemma tables_ascii: "en_tables ascii_engine = ascii"
  by (simp add: ascii_engine_def)

theorem redaction_replaces_exactly_the_spans_witness:
  "\<exists>ps. redact_spans (u ''abcdef'') (merge_spans [(4, 5), (1, 2), (1, 3)]) (u ''#'') = joined (u ''#'') ps
    \<and> length ps = 3 \<and> concat ps = u ''adf''"
proof -
  have m: "merge_spans [(4, 5), (1, 2), (1, 3)] = [(1, 3), (4, 5)]" by code_simp
  have "within (length (u ''abcdef'')) [(4, 5), (1, 2), (1, 3)]" by (simp add: within_def u_def)
  from redaction_replaces_exactly_the_spans [OF this, of "u ''#''"]
  show ?thesis unfolding m by (simp add: u_def ord_def upt_rec numeral_3_eq_3)
qed

lemma a_scrubbed:
  "scrub ascii_engine None [] (u ''a'') = Inr (u ''a'',
     \<lparr>rp_redacted = 0, rp_classes = [], rp_provenance = [], rp_trail = []\<rparr>)"
  by code_simp

theorem silent_reports_mean_clean_text_witness:
  "fold_text ascii (u ''a'') = u ''a'' \<and> credential_free ascii_engine (credentials ascii) (u ''a'')"
proof -
  have g: "generic_pattern ascii_engine (load_redact (en_tables ascii_engine) None) = Inr (credentials ascii)"
    by (simp add: generic_pattern_def credentials_class_def load_redact_def default_classes_def
        builtin_patterns_def custom_pattern_def tables_ascii)
  from silent_reports_mean_clean_text [OF a_scrubbed _ g] show ?thesis by (simp add: tables_ascii)
qed

definition aws_key :: chars where
  "aws_key = u ''ABCDEFGHIJKL0123''"

lemma aws_scrubbed: "\<exists>out rep. scrub ascii_engine None [] (u ''key '' @ u ''AKIA'' @ aws_key @ u '' here'') = Inr (out, rep)"
  by (rule scrub_total) (simp add: load_redact_def default_classes_plain)

theorem aws_keys_are_always_reported_witness:
  "\<exists>out rep. scrub ascii_engine None [] (u ''key '' @ u ''AKIA'' @ aws_key @ u '' here'') = Inr (out, rep)
    \<and> 0 < rp_redacted rep"
proof -
  obtain out rep where s: "scrub ascii_engine None [] (u ''key '' @ u ''AKIA'' @ aws_key @ u '' here'') = Inr (out, rep)"
    using aws_scrubbed by blast
  have "0 < rp_redacted rep \<and> rp_classes rep \<noteq> []"
    by (rule aws_keys_are_always_reported [OF _ _ _ _ _ s])
      (auto simp: aws_key_def tables_ascii ascii_def u_def ord_def upper_def digit_def lower_def alnum_def)
  with s show ?thesis by blast
qed

theorem reports_account_for_every_hit_witness:
  "\<exists>out rep. scrub ascii_engine None [] (u ''key '' @ u ''AKIA'' @ aws_key @ u '' here'') = Inr (out, rep)
    \<and> rp_redacted rep = sum_list (map (\<lambda>(n, k, r). k) (rp_trail rep))"
  using aws_scrubbed reports_account_for_every_hit by blast

definition readme :: entry where
  "readme = \<lparr>af_path = u ''a.md'', af_parts = [u ''a.md''], af_file = True, af_resolved = u ''/r/a.md'',
     af_flags = None, af_text = Some (u ''a''), af_bytes = None\<rparr>"

definition no_archives :: unpacker where
  "no_archives kind raw = ([], True)"

definition readme_results :: audit_results where
  "readme_results = empty_results\<lparr>ar_scanned := 1\<rparr>"

lemma readme_text: "filter_noqa_lines ascii (u ''a'') = u ''a''" "\<not> file_allowlisted ascii (u ''a'')"
  by code_simp+

lemma readme_kind: "in_archive_branch ascii True readme = None" "\<not> skipped (rel_parts [] readme)"
  "suffix_of (af_name readme) \<in> set (map u (audited_exts True))" "\<not> dataless_placeholder readme"
  by code_simp+

lemma readme_covered: "covers ascii_engine True [] None readme (u ''a'')"
  using readme_text readme_kind by (simp add: covers_def tables_ascii untracked_def readme_def)

lemma readme_fields: "af_file readme" "af_text readme = Some (u ''a'')" "\<not> untracked None readme"
  by (simp_all add: readme_def untracked_def)

lemma readme_audited: "audit ascii_engine no_archives None (u ''REDACT.md'') False True [] None [readme] = Inr readme_results"
proof -
  have t: "audit_text ascii_engine None p (u ''a'') r = Inr (r\<lparr>ar_scanned := ar_scanned r + 1\<rparr>)" for p r
    using readme_text a_scrubbed by (simp add: audit_text_def tables_ascii)
  have "audit_entry ascii_engine no_archives None True [] None readme r = Inr (r\<lparr>ar_scanned := ar_scanned r + 1\<rparr>)" for r
    unfolding audit_entry_def tables_ascii readme_kind(1) readme_fields(2)
    using readme_kind(2-4) readme_fields(1,3) t by (simp del: set_map)
  then show ?thesis by (simp add: audit_def readme_results_def empty_results_def)
qed

theorem credential_gate_is_sound_witness:
  "ar_credential_files readme_results = [] \<and> (\<exists>generic. credential_clean ascii_engine generic (u ''a''))"
proof -
  have none: "ar_credential_files readme_results = []" by (simp add: readme_results_def empty_results_def)
  from credential_gate_is_sound [OF readme_audited none]
  have "\<exists>generic. generic_pattern ascii_engine (load_redact (en_tables ascii_engine) None) = Inr generic
      \<and> credential_clean ascii_engine generic (filter_noqa_lines (en_tables ascii_engine) (u ''a''))"
    using readme_covered by simp
  then show ?thesis using none by (auto simp: tables_ascii readme_text)
qed

end
