(* ===== verification/Bundle.thy ===== *)
theory Bundle
  imports Projections "HOL-Library.AList"
begin

text \<open>
  The digest-checked artifact bundles of \<open>transfer/bundle.py\<close>: the entries of a source directory,
  the manifest, the reading of a bundle with its checks, and the extraction, which builds the tree
  beside its destination, swaps it in and cleans up after an error. A directory tree is a value;
  every operation of the extraction on the parent directory may be made to fail by a schedule of
  faults. A tar file is the list of its members; SHA-256 is a parameter.
\<close>

section \<open>Trees\<close>

datatype fs = File string | Dir "(string \<times> fs) list"

fun file_at :: "fs \<Rightarrow> string list \<Rightarrow> string option" where
  "file_at (File d) ns = (if ns = [] then Some d else None)"
| "file_at (Dir es) [] = None"
| "file_at (Dir es) (n # ns) = (case map_of es n of None \<Rightarrow> None | Some t \<Rightarrow> file_at t ns)"

text \<open>\<open>mkdir(parents=True, exist_ok=True)\<close> and \<open>write_bytes\<close> at a path below a directory.\<close>

fun mkdirs :: "string list \<Rightarrow> fs \<Rightarrow> exn + fs" where
  "mkdirs ns (File d) = Inl (OSError ''not a directory'')"
| "mkdirs [] (Dir es) = Inr (Dir es)"
| "mkdirs (n # ns) (Dir es) =
     rbind (mkdirs ns (case map_of es n of None \<Rightarrow> Dir [] | Some t \<Rightarrow> t))
       (\<lambda>t. Inr (Dir (AList.update n t es)))"

fun write_file :: "string list \<Rightarrow> string \<Rightarrow> fs \<Rightarrow> exn + fs" where
  "write_file ns d (File d') = Inl (OSError ''not a directory'')"
| "write_file [] d (Dir es) = Inl (OSError ''is a directory'')"
| "write_file [n] d (Dir es) = (case map_of es n of
       Some (Dir _) \<Rightarrow> Inl (OSError ''is a directory'')
     | _ \<Rightarrow> Inr (Dir (AList.update n (File d) es)))"
| "write_file (n # m # ns) d (Dir es) = (case map_of es n of
       None \<Rightarrow> Inl (OSError ''no such directory'')
     | Some t \<Rightarrow> rbind (write_file (m # ns) d t) (\<lambda>t. Inr (Dir (AList.update n t es))))"

section \<open>Manifests\<close>

definition ARTIFACT_BUNDLE_SCHEMA :: string where
  "ARTIFACT_BUNDLE_SCHEMA = ''shiroe.artifact-bundle/v1''"

record bundle_entry =
  be_path :: string
  be_sha :: string
  be_size :: json

record manifest =
  mf_schema :: string
  mf_files :: "bundle_entry list"
  mf_digest :: string

text \<open>\<open>str.encode('utf-8')\<close> and strict decoding, for the code points of the model.\<close>

definition utf8_encode :: "string \<Rightarrow> string" where
  "utf8_encode s = concat (map (\<lambda>c. let n = (of_char c :: nat)
     in if n < 128 then [c] else [char_of (192 + n div 64), char_of (128 + n mod 64)]) s)"

fun utf8_decode :: "string \<Rightarrow> string option" where
  "utf8_decode [] = Some []"
| "utf8_decode (c # cs) = (let n = (of_char c :: nat)
     in if n < 128 then map_option ((#) c) (utf8_decode cs)
        else if n = 194 \<or> n = 195 then (case cs of
            d # ds \<Rightarrow> (let k = (of_char d :: nat) in
              if 128 \<le> k \<and> k < 192 then map_option ((#) (char_of ((n - 192) * 64 + (k - 128)))) (utf8_decode ds)
              else None)
          | [] \<Rightarrow> None)
        else None)"

definition canonical_json :: "json \<Rightarrow> string" where
  "canonical_json j = utf8_encode (dumps_with False j)"

definition digest_bytes :: "(string \<Rightarrow> string) \<Rightarrow> string \<Rightarrow> string" where
  "digest_bytes H data = ''sha256:'' @ H data"

definition entry_json :: "bundle_entry \<Rightarrow> json" where
  "entry_json e = JObj [(''path'', JStr (be_path e)), (''sha256'', JStr (be_sha e)), (''size'', be_size e)]"

definition manifest_body :: "bundle_entry list \<Rightarrow> json" where
  "manifest_body es = JObj [(''schema'', JStr ARTIFACT_BUNDLE_SCHEMA), (''files'', JList (map entry_json es))]"

definition mk_manifest :: "(string \<Rightarrow> string) \<Rightarrow> bundle_entry list \<Rightarrow> manifest" where
  "mk_manifest H es = \<lparr>mf_schema = ARTIFACT_BUNDLE_SCHEMA, mf_files = es,
     mf_digest = digest_bytes H (canonical_json (manifest_body es))\<rparr>"

text \<open>The components of \<open>Path(path)\<close>, and \<open>_validate_relative_path\<close>.\<close>

definition path_parts :: "string \<Rightarrow> string list" where
  "path_parts p = filter (\<lambda>x. x \<noteq> [] \<and> x \<noteq> ''.'') (components p)"

definition validate_relative_path :: "string \<Rightarrow> exn + string" where
  "validate_relative_path p =
     (if p = [] \<or> starts_with p ''/'' \<or> ''..'' \<in> set (path_parts p)
      then Inl (BundleError ''artifact paths must be relative and stay inside the bundle'')
      else if path_parts p = [] then Inl (BundleError ''artifact paths must be relative file paths'')
      else Inr (join_with ''/'' (path_parts p)))"

section \<open>Creating a bundle\<close>

text \<open>An entry of \<open>source.rglob('*')\<close> that is a file or a symbolic link: its components, what it
  is and its bytes.\<close>

datatype file_kind = Regular nat | Symlink | Special

record source_file =
  sf_parts :: "string list"
  sf_kind :: file_kind
  sf_data :: string

datatype member_kind = RegularMember | OtherMember

record tar_member =
  tm_name :: string
  tm_kind :: member_kind
  tm_data :: string

definition source_entry :: "(string \<Rightarrow> string) \<Rightarrow> string list \<Rightarrow> source_file \<Rightarrow> exn + bundle_entry" where
  "source_entry H seen f =
     rbind (validate_relative_path (join_with ''/'' (sf_parts f))) (\<lambda>rel.
     if rel \<in> set seen then Inl (BundleError ''duplicate artifact path'')
     else (case sf_kind f of
         Symlink \<Rightarrow> Inl (BundleError ''artifact path is a symlink'')
       | Special \<Rightarrow> Inl (BundleError ''artifact path is not a regular file'')
       | Regular links \<Rightarrow>
           if 1 < links then Inl (BundleError ''artifact path is a hardlink'')
           else Inr \<lparr>be_path = rel, be_sha = digest_bytes H (sf_data f), be_size = JInt (int (length (sf_data f)))\<rparr>))"

fun source_entries_from :: "(string \<Rightarrow> string) \<Rightarrow> string list \<Rightarrow> source_file list \<Rightarrow> exn + (bundle_entry \<times> source_file) list" where
  "source_entries_from H seen [] = Inr []"
| "source_entries_from H seen (f # fs) =
     rbind (source_entry H seen f) (\<lambda>e.
     rbind (source_entries_from H (be_path e # seen) fs) (\<lambda>es. Inr ((e, f) # es)))"

text \<open>\<open>_source_entries\<close>; the source is \<open>None\<close> when it is no directory. Paths sort by components.\<close>

definition source_entries :: "(string \<Rightarrow> string) \<Rightarrow> source_file list option \<Rightarrow> exn + (bundle_entry \<times> source_file) list" where
  "source_entries H source = (case source of
       None \<Rightarrow> Inl (BundleError ''artifact source must be a directory'')
     | Some fs \<Rightarrow> source_entries_from H [] (sort_key sf_parts fs))"

definition create_bundle :: "(string \<Rightarrow> string) \<Rightarrow> source_file list option \<Rightarrow> exn + manifest \<times> tar_member list" where
  "create_bundle H source =
     rbind (source_entries H source) (\<lambda>entries.
     Inr (mk_manifest H (map fst entries),
       \<lparr>tm_name = ''manifest.json'', tm_kind = RegularMember,
        tm_data = canonical_json (manifest_body (map fst entries))\<rparr>
       # map (\<lambda>(e, f). \<lparr>tm_name = ''files/'' @ be_path e, tm_kind = RegularMember, tm_data = sf_data f\<rparr>) entries))"

section \<open>Reading a bundle\<close>

definition parse_entry :: "string list \<Rightarrow> json \<Rightarrow> exn + bundle_entry" where
  "parse_entry seen j = (case j of
       JObj o' \<Rightarrow>
         rbind (validate_relative_path (if truthy (oget o' ''path'') then py_str (oget o' ''path'') else [])) (\<lambda>rel.
         let digest = (if truthy (oget o' ''sha256'') then py_str (oget o' ''sha256'') else []);
             size = oget o' ''size''
         in if rel \<in> set seen then Inl (BundleError ''duplicate artifact path'')
            else if \<not> starts_with digest ''sha256:'' \<or> length digest \<noteq> 71 then Inl (BundleError ''missing sha256'')
            else if (case size of JInt i \<Rightarrow> i < 0 | JBool b \<Rightarrow> False | _ \<Rightarrow> True) then Inl (BundleError ''invalid size'')
            else Inr \<lparr>be_path = rel, be_sha = digest, be_size = size\<rparr>)
     | _ \<Rightarrow> Inl (BundleError ''artifact manifest file entry must be an object''))"

fun parse_entries :: "string list \<Rightarrow> json list \<Rightarrow> exn + bundle_entry list" where
  "parse_entries seen [] = Inr []"
| "parse_entries seen (j # js) =
     rbind (parse_entry seen j) (\<lambda>e.
     rbind (parse_entries (be_path e # seen) js) (\<lambda>es. Inr (e # es)))"

definition manifest_from_bytes :: "(string \<Rightarrow> string) \<Rightarrow> string \<Rightarrow> exn + manifest" where
  "manifest_from_bytes H data = (case Option.bind (utf8_decode data) loads of
       None \<Rightarrow> Inl (BundleError ''artifact manifest is invalid JSON'')
     | Some j \<Rightarrow>
         rbind (as_obj j) (\<lambda>o'.
         if oget o' ''schema'' \<noteq> JStr ARTIFACT_BUNDLE_SCHEMA then Inl (BundleError ''artifact manifest has wrong schema'')
         else (case oget o' ''files'' of
             JList js \<Rightarrow> rbind (parse_entries [] js) (\<lambda>es. Inr (mk_manifest H es))
           | _ \<Rightarrow> Inl (BundleError ''artifact manifest files must be a list''))))"

text \<open>The members in order: the names seen, the manifest read, and the payloads.\<close>

fun read_members :: "string list \<Rightarrow> string option \<Rightarrow> (string \<times> string) list \<Rightarrow> tar_member list
    \<Rightarrow> exn + string option \<times> (string \<times> string) list" where
  "read_members names mf payloads [] = Inr (mf, payloads)"
| "read_members names mf payloads (m # ms) =
     (if tm_name m \<in> set names then Inl (BundleError ''duplicate bundle member'')
      else if tm_name m = ''manifest.json'' then
        (if tm_kind m \<noteq> RegularMember then Inl (BundleError ''manifest.json must be a regular file'')
         else read_members (tm_name m # names) (Some (tm_data m)) payloads ms)
      else if \<not> starts_with (tm_name m) ''files/'' then Inl (BundleError ''unexpected bundle member'')
      else if tm_kind m \<noteq> RegularMember then Inl (BundleError ''artifact member is not a regular file'')
      else rbind (validate_relative_path (drop 6 (tm_name m))) (\<lambda>rel.
        read_members (tm_name m # names) mf (AList.update rel (tm_data m) payloads) ms))"

text \<open>\<open>_read_bundle\<close>; the members are an error when \<open>tarfile\<close> cannot read the file.\<close>

definition read_bundle :: "(string \<Rightarrow> string) \<Rightarrow> exn + tar_member list \<Rightarrow> exn + manifest \<times> (string \<times> string) list" where
  "read_bundle H bundle =
     rbind bundle (\<lambda>members.
     rbind (read_members [] None [] members) (\<lambda>(mf, payloads).
     case mf of
       None \<Rightarrow> Inl (BundleError ''missing artifact manifest'')
     | Some data \<Rightarrow>
         rbind (manifest_from_bytes H data) (\<lambda>m.
         if set (map fst payloads) \<noteq> set (map be_path (mf_files m))
         then Inl (BundleError ''artifact bundle payload set does not match manifest'')
         else Inr (m, payloads))))"

section \<open>Extracting a bundle\<close>

text \<open>The parent directory of the destination, and which of the next operations fail.\<close>

record space =
  sp_parent :: "(string \<times> fs) list"
  sp_faults :: "bool list"

definition io :: "((string \<times> fs) list \<Rightarrow> exn + (string \<times> fs) list) \<Rightarrow> (space, unit) st" where
  "io f s =
     (let s' = s\<lparr>sp_faults := tl (sp_faults s)\<rparr>
      in if sp_faults s \<noteq> [] \<and> hd (sp_faults s) then (Inl (OSError ''fault''), s')
         else (case f (sp_parent s) of Inl e \<Rightarrow> (Inl e, s') | Inr p \<Rightarrow> (Inr (), s'\<lparr>sp_parent := p\<rparr>)))"

definition fs_exists :: "string \<Rightarrow> space \<Rightarrow> bool" where
  "fs_exists n s \<longleftrightarrow> map_of (sp_parent s) n \<noteq> None"

definition mkdir :: "string \<Rightarrow> (string \<times> fs) list \<Rightarrow> exn + (string \<times> fs) list" where
  "mkdir n p = (if map_of p n = None then Inr (AList.update n (Dir []) p) else Inl (OSError ''exists''))"

definition in_tree :: "string \<Rightarrow> (fs \<Rightarrow> exn + fs) \<Rightarrow> (string \<times> fs) list \<Rightarrow> exn + (string \<times> fs) list" where
  "in_tree n f p = (case map_of p n of
       None \<Rightarrow> Inl (OSError ''no such directory'')
     | Some t \<Rightarrow> rbind (f t) (\<lambda>t. Inr (AList.update n t p)))"

text \<open>\<open>os.replace\<close>: a directory replaces nothing or an empty directory, a file nothing or a file.\<close>

definition os_replace :: "string \<Rightarrow> string \<Rightarrow> (string \<times> fs) list \<Rightarrow> exn + (string \<times> fs) list" where
  "os_replace a b p = (case map_of p a of
       None \<Rightarrow> Inl (OSError ''no such file'')
     | Some t \<Rightarrow>
         (if (case (t, map_of p b) of (_, None) \<Rightarrow> True | (File _, Some (File _)) \<Rightarrow> True
              | (Dir _, Some (Dir [])) \<Rightarrow> True | _ \<Rightarrow> False)
          then Inr (AList.update b t (AList.delete a p)) else Inl (OSError ''cannot replace'')))"

definition rmtree :: "string \<Rightarrow> (string \<times> fs) list \<Rightarrow> exn + (string \<times> fs) list" where
  "rmtree n p = (case map_of p n of
       Some (Dir _) \<Rightarrow> Inr (AList.delete n p) | _ \<Rightarrow> Inl (OSError ''not a directory''))"

definition do_if :: "(space \<Rightarrow> bool) \<Rightarrow> (space, unit) st \<Rightarrow> (space, unit) st" where
  "do_if c m s = (if c s then m s else (Inr (), s))"

text \<open>The checks of one entry of the manifest, and its file.\<close>

definition checked_payload :: "(string \<Rightarrow> string) \<Rightarrow> (string \<times> string) list \<Rightarrow> bundle_entry \<Rightarrow> exn + string \<times> string" where
  "checked_payload H payloads e =
     rbind (validate_relative_path (be_path e)) (\<lambda>rel.
     case map_of payloads rel of
       None \<Rightarrow> Inl (BundleError ''missing artifact payload'')
     | Some payload \<Rightarrow>
         rbind (py_int (be_size e)) (\<lambda>size.
         if int (length payload) \<noteq> size then Inl (BundleError ''artifact size mismatch'')
         else if digest_bytes H payload \<noteq> be_sha e then Inl (BundleError ''artifact hash mismatch'')
         else Inr (rel, payload)))"

definition extract_entry :: "(string \<Rightarrow> string) \<Rightarrow> string \<Rightarrow> (string \<times> string) list \<Rightarrow> bundle_entry \<Rightarrow> (space, unit) st" where
  "extract_entry H tmp payloads e =
     st_bind (st_lift (checked_payload H payloads e)) (\<lambda>(rel, payload).
     st_bind (io (in_tree tmp (mkdirs (butlast (path_parts rel))))) (\<lambda>_.
     io (in_tree tmp (write_file (path_parts rel) payload))))"

definition swap_in :: "string \<Rightarrow> string \<Rightarrow> string \<Rightarrow> (space, unit) st" where
  "swap_in tmp backup dest =
     st_bind (do_if (fs_exists dest) (io (os_replace dest backup))) (\<lambda>_.
     st_bind (io (os_replace tmp dest)) (\<lambda>_.
     do_if (fs_exists backup) (io (rmtree backup))))"

definition try_extract :: "(string \<Rightarrow> string) \<Rightarrow> string \<Rightarrow> string \<Rightarrow> string \<Rightarrow> exn + tar_member list \<Rightarrow> (space, manifest) st" where
  "try_extract H tmp backup dest bundle =
     st_bind (st_lift (read_bundle H bundle)) (\<lambda>(m, payloads).
     st_bind (io (mkdir tmp)) (\<lambda>_.
     st_bind (st_for (extract_entry H tmp payloads) (mf_files m)) (\<lambda>_.
     st_bind (swap_in tmp backup dest) (\<lambda>_. st_ret m))))"

definition clean_up :: "string \<Rightarrow> string \<Rightarrow> string \<Rightarrow> (space, unit) st" where
  "clean_up tmp backup dest =
     st_bind (do_if (fs_exists tmp) (io (rmtree tmp))) (\<lambda>_ s.
     if fs_exists backup s \<and> \<not> fs_exists dest s then io (os_replace backup dest) s
     else do_if (fs_exists backup) (io (rmtree backup)) s)"

text \<open>\<open>extract_artifact_bundle\<close>: after an exception the clean-up runs and the exception goes on.\<close>

definition extract_bundle :: "(string \<Rightarrow> string) \<Rightarrow> string \<Rightarrow> string \<Rightarrow> string \<Rightarrow> exn + tar_member list \<Rightarrow> (space, manifest) st" where
  "extract_bundle H tmp backup dest bundle s =
     (case try_extract H tmp backup dest bundle s of
        (Inr m, s') \<Rightarrow> (Inr m, s')
      | (Inl e, s') \<Rightarrow> st_bind (clean_up tmp backup dest) (\<lambda>_. st_raise e) s')"

end
