(* ===== verification/Bundle_Props.thy ===== *)
theory Bundle_Props
  imports Bundle
begin

text \<open>
  The extraction of a bundle is all or nothing: whatever a bundle holds and whichever single
  operation fails, the destination is what it was or the complete tree of the manifest with the
  recorded digests. A bundle made of a directory extracts to the files of the directory.
\<close>

section \<open>Paths\<close>

lemma split_at_no_sep: "x \<in> set (split_at c s) \<Longrightarrow> c \<notin> set x"
  by (induction s arbitrary: x) (auto split: list.splits if_splits)

lemma split_at_simple: "c \<notin> set x \<Longrightarrow> split_at c x = [x]"
  by (induction x) auto

lemma split_at_join: "xs \<noteq> [] \<Longrightarrow> (\<And>x. x \<in> set xs \<Longrightarrow> c \<notin> set x) \<Longrightarrow> split_at c (join_with [c] xs) = xs"
proof (induction "[c]" xs rule: join_with.induct)
  case (3 x y ys)
  have "split_at c (x @ c # join_with [c] (y # ys)) = split_at c x @ split_at c (join_with [c] (y # ys))"
    by (rule split_at_sep)
  then show ?case using 3 by (simp add: split_at_simple)
qed (simp_all add: split_at_simple)

definition proper :: "string list \<Rightarrow> bool" where
  "proper ns \<longleftrightarrow> ns \<noteq> [] \<and> (\<forall>n \<in> set ns. n \<noteq> [] \<and> n \<noteq> ''.'' \<and> n \<noteq> ''..'' \<and> CHR ''/'' \<notin> set n)"

lemma path_parts_join: "proper ns \<Longrightarrow> path_parts (join_with ''/'' ns) = ns"
  by (auto simp: path_parts_def components_def proper_def split_at_join intro!: filter_True)

lemma relative_path_ok:
  assumes "validate_relative_path p = Inr rel"
  shows "proper (path_parts p)" and "rel = join_with ''/'' (path_parts p)" and "path_parts rel = path_parts p"
proof -
  show p: "proper (path_parts p)"
    using assms split_at_no_sep
    by (auto simp: validate_relative_path_def proper_def path_parts_def components_def split: if_splits)
  show r: "rel = join_with ''/'' (path_parts p)"
    using assms by (auto simp: validate_relative_path_def split: if_splits)
  show "path_parts rel = path_parts p" unfolding r by (rule path_parts_join [OF p])
qed

lemma join_proper:
  assumes "proper ns"
  shows "join_with ''/'' ns \<noteq> []" and "\<not> starts_with (join_with ''/'' ns) ''/''"
proof -
  obtain n ms where ns: "ns = n # ms" "n \<noteq> []" "CHR ''/'' \<notin> set n" using assms by (cases ns) (auto simp: proper_def)
  obtain c cs where n: "n = c # cs" "c \<noteq> CHR ''/''" using ns by (cases n) auto
  obtain rest where "join_with ''/'' ns = c # rest" by (cases ms) (auto simp: ns n)
  then show "join_with ''/'' ns \<noteq> []" "\<not> starts_with (join_with ''/'' ns) ''/''" using n by auto
qed

lemma validate_proper: "proper ns \<Longrightarrow> validate_relative_path (join_with ''/'' ns) = Inr (join_with ''/'' ns)"
  using join_proper by (auto simp: validate_relative_path_def path_parts_join) (auto simp: proper_def)

text \<open>The paths of a manifest that was read are normalised and distinct.\<close>

definition normal_path :: "string \<Rightarrow> bool" where
  "normal_path p \<longleftrightarrow> proper (path_parts p) \<and> p = join_with ''/'' (path_parts p)"

lemma validate_normal: "validate_relative_path p = Inr rel \<Longrightarrow> normal_path rel"
  using relative_path_ok [of p rel] by (simp add: normal_path_def)

lemma validate_of_normal: "normal_path p \<Longrightarrow> validate_relative_path p = Inr p"
  using validate_proper [of "path_parts p"] by (simp add: normal_path_def)

lemma parse_entry_ok:
  "parse_entry seen j = Inr e \<Longrightarrow> normal_path (be_path e) \<and> be_path e \<notin> set seen"
  by (auto simp: parse_entry_def rbind_ok Let_def dest: validate_normal split: json.splits if_splits)

lemma parse_entries_ok:
  "parse_entries seen js = Inr es \<Longrightarrow>
     distinct (map be_path es) \<and> set seen \<inter> set (map be_path es) = {} \<and> (\<forall>e \<in> set es. normal_path (be_path e))"
proof (induction js arbitrary: seen es)
  case (Cons j js)
  then obtain e es' where e: "parse_entry seen j = Inr e" "parse_entries (be_path e # seen) js = Inr es'" "es = e # es'"
    by (auto simp: rbind_ok)
  with Cons.IH [OF e(2)] parse_entry_ok [OF e(1)] show ?case by auto
qed simp

lemma manifest_ok:
  assumes "manifest_from_bytes H data = Inr m"
  shows "\<exists>js. parse_entries [] js = Inr (mf_files m)"
proof -
  obtain j where j: "Option.bind (utf8_decode data) loads = Some j"
    using assms by (cases "Option.bind (utf8_decode data) loads") (simp_all add: manifest_from_bytes_def)
  then obtain o' where o': "as_obj j = Inr o'" using assms by (auto simp: manifest_from_bytes_def rbind_ok)
  show ?thesis
    using assms j o' by (cases "oget o' ''files''") (auto simp: manifest_from_bytes_def rbind_ok mk_manifest_def split: if_splits)
qed

lemma read_bundle_ok:
  assumes "read_bundle H bundle = Inr (m, payloads)"
  obtains members data where "bundle = Inr members" "read_members [] None [] members = Inr (Some data, payloads)"
    "manifest_from_bytes H data = Inr m" "set (map fst payloads) = set (map be_path (mf_files m))"
proof -
  from assms obtain members mf ps where r: "bundle = Inr members" "read_members [] None [] members = Inr (mf, ps)"
    by (auto simp: read_bundle_def rbind_ok)
  from assms r obtain data where mf: "mf = Some data" by (cases mf) (auto simp: read_bundle_def)
  have "rbind (manifest_from_bytes H data) (\<lambda>m. if set (map fst ps) \<noteq> set (map be_path (mf_files m))
      then Inl (BundleError ''artifact bundle payload set does not match manifest'') else Inr (m, ps)) = Inr (m, payloads)"
    using assms r mf by (simp add: read_bundle_def)
  then have "manifest_from_bytes H data = Inr m" "ps = payloads" "set (map fst ps) = set (map be_path (mf_files m))"
    by (auto simp: rbind_ok split: if_splits)
  with that r mf show thesis by simp
qed

lemma manifest_paths:
  assumes "read_bundle H bundle = Inr (m, payloads)"
  shows "distinct (map be_path (mf_files m))" and "e \<in> set (mf_files m) \<Longrightarrow> normal_path (be_path e)"
proof -
  obtain js where "parse_entries [] js = Inr (mf_files m)"
    by (rule read_bundle_ok [OF assms]) (use manifest_ok in blast)
  from parse_entries_ok [OF this] show "distinct (map be_path (mf_files m))"
    and "e \<in> set (mf_files m) \<Longrightarrow> normal_path (be_path e)" by auto
qed

section \<open>Trees\<close>

lemma file_at_empty [simp]: "file_at (Dir []) ns = None"
  by (cases ns) auto

lemma map_of_AList_update [simp]: "map_of (AList.update k v xs) n = (if n = k then Some v else map_of xs n)"
  by (simp add: update_conv')

lemma map_of_AList_delete [simp]: "map_of (AList.delete k xs) n = (if n = k then None else map_of xs n)"
  by (simp add: delete_conv')

definition is_dir :: "fs \<Rightarrow> bool" where
  "is_dir t \<longleftrightarrow> (\<exists>es. t = Dir es)"

lemma file_at_mkdirs: "mkdirs ns t = Inr t' \<Longrightarrow> is_dir t' \<and> file_at t' q = file_at t q"
proof (induction ns t arbitrary: t' q rule: mkdirs.induct)
  case (3 n ns es)
  let ?sub = "case map_of es n of None \<Rightarrow> Dir [] | Some t \<Rightarrow> t"
  from 3(2) obtain s where s: "mkdirs ns ?sub = Inr s" and t': "t' = Dir (AList.update n s es)" by (auto simp: rbind_ok)
  have "file_at t' q = file_at (Dir es) q"
  proof (cases q)
    case (Cons m ms)
    have "file_at s ms = file_at ?sub ms" using 3(1) [OF s] by blast
    then show ?thesis by (auto simp: t' Cons split: option.splits)
  qed (simp add: t')
  then show ?case by (simp add: t' is_dir_def)
qed (simp_all add: is_dir_def)

lemma file_at_write:
  "write_file ns d t = Inr t' \<Longrightarrow> is_dir t' \<and> file_at t' q = (if q = ns then Some d else file_at t q)"
proof (induction ns d t arbitrary: t' q rule: write_file.induct)
  case (3 n d es)
  then have "t' = Dir (AList.update n (File d) es)" and "\<nexists>es'. map_of es n = Some (Dir es')"
    by (auto split: option.splits fs.splits)
  then show ?case by (cases q) (auto simp: is_dir_def split: option.splits, metis file_at.simps(1) fs.exhaust)
next
  case (4 n m ns d es)
  then obtain s s' where s: "map_of es n = Some s" "write_file (m # ns) d s = Inr s'" and t': "t' = Dir (AList.update n s' es)"
    by (auto simp: rbind_ok split: option.splits)
  have "file_at t' q = (if q = n # m # ns then Some d else file_at (Dir es) q)"
  proof (cases q)
    case (Cons k ks)
    have "file_at s' ks = (if ks = m # ns then Some d else file_at s ks)" using 4(1) [OF s] by blast
    then show ?thesis using s by (auto simp: t' Cons)
  qed (simp add: t')
  then show ?case by (simp add: t' is_dir_def)
qed simp_all

section \<open>Operations that may fail\<close>

definition faults_left :: "space \<Rightarrow> nat" where
  "faults_left s = count_list (sp_faults s) True"

definition at :: "space \<Rightarrow> string \<Rightarrow> fs option" where
  "at s n = map_of (sp_parent s) n"

lemma io_ok:
  assumes "io f s = (Inr x, s')"
  shows "f (sp_parent s) = Inr (sp_parent s')" and "faults_left s' \<le> faults_left s"
  using assms by (cases "sp_faults s"; auto simp: io_def faults_left_def Let_def split: if_splits sum.splits)+

lemma io_err:
  assumes "io f s = (Inl e, s')"
  shows "sp_parent s' = sp_parent s" and "faults_left s' \<le> faults_left s"
    and "f (sp_parent s) = Inr p \<Longrightarrow> faults_left s' < faults_left s"
  using assms by (cases "sp_faults s"; auto simp: io_def faults_left_def Let_def split: if_splits sum.splits)+

section \<open>The loop over the manifest\<close>

text \<open>What the files of a tree become when an entry of the manifest is written.\<close>

definition written :: "(string \<Rightarrow> string) \<Rightarrow> (string \<times> string) list \<Rightarrow> bundle_entry \<Rightarrow> (string list \<Rightarrow> string option)
    \<Rightarrow> string list \<Rightarrow> string option" where
  "written H payloads e f = (case checked_payload H payloads e of
       Inr (rel, d) \<Rightarrow> f(path_parts rel \<mapsto> d) | Inl _ \<Rightarrow> f)"

text \<open>A computation that touches one name of the parent directory only and uses up faults.\<close>

definition only_at :: "string set \<Rightarrow> space \<Rightarrow> space \<Rightarrow> bool" where
  "only_at N s s' \<longleftrightarrow> (\<forall>n. n \<notin> N \<longrightarrow> at s' n = at s n) \<and> faults_left s' \<le> faults_left s"

lemma only_at_refl [simp]: "only_at N s s"
  by (simp add: only_at_def)

lemma only_at_trans: "only_at N s s' \<Longrightarrow> only_at M s' s'' \<Longrightarrow> only_at (N \<union> M) s s''"
  by (auto simp: only_at_def)

lemma only_at_trans1: "only_at N s s' \<Longrightarrow> only_at N s' s'' \<Longrightarrow> only_at N s s''"
  using only_at_trans [of N s s' N s''] by simp

lemma io_err_only: "io f s = (Inl e, s') \<Longrightarrow> only_at N s s' \<and> (\<forall>n. at s' n = at s n)"
  using io_err [of f s e s'] by (simp add: only_at_def at_def)

lemma io_tree:
  assumes "io (in_tree n f) s = (r, s')" and "at s n = Some t" and "is_dir t"
    and f: "\<And>t'. f t = Inr t' \<Longrightarrow> is_dir t' \<and> file_at t' = g (file_at t)"
  shows "only_at {n} s s'" and "\<exists>t'. at s' n = Some t' \<and> is_dir t' \<and> (r = Inr () \<longrightarrow> file_at t' = g (file_at t))"
proof -
  have "only_at {n} s s' \<and> (\<exists>t'. at s' n = Some t' \<and> is_dir t' \<and> (r = Inr () \<longrightarrow> file_at t' = g (file_at t)))"
  proof (cases r)
    case (Inl e)
    with io_err_only [of "in_tree n f" s e s' "{n}"] assms(1-3) show ?thesis by auto
  next
    case (Inr x)
    note ok = io_ok [OF assms(1) [unfolded Inr]]
    from ok(1) assms(2) obtain t' where t': "f t = Inr t'" "sp_parent s' = AList.update n t' (sp_parent s)"
      by (auto simp: in_tree_def at_def rbind_ok)
    then show ?thesis using ok(2) f by (simp add: only_at_def at_def)
  qed
  then show "only_at {n} s s'" and "\<exists>t'. at s' n = Some t' \<and> is_dir t' \<and> (r = Inr () \<longrightarrow> file_at t' = g (file_at t))"
    by blast+
qed

lemma extract_entry_step:
  assumes run: "extract_entry H tmp payloads e s = (r, s')" and t: "at s tmp = Some t" "is_dir t"
  shows "only_at {tmp} s s' \<and> (\<exists>t'. at s' tmp = Some t' \<and> is_dir t'
    \<and> (r = Inr () \<longrightarrow> file_at t' = written H payloads e (file_at t) \<and> (\<exists>p. checked_payload H payloads e = Inr p)))"
proof (cases "checked_payload H payloads e")
  case (Inl x)
  with run t show ?thesis by (auto simp: extract_entry_def st_bind_def st_lift_def)
next
  case (Inr p)
  obtain rel d where p: "p = (rel, d)" by (cases p)
  let ?mk = "io (in_tree tmp (mkdirs (butlast (path_parts rel)))) s"
  obtain r1 s1 where mk: "?mk = (r1, s1)" by (cases ?mk)
  have made: "is_dir t' \<and> file_at t' = id (file_at t)" if "mkdirs (butlast (path_parts rel)) t = Inr t'" for t'
    using file_at_mkdirs [OF that] by auto
  note s1 = io_tree [where g = id, OF mk t made]
  from s1(2) obtain t1 where t1: "at s1 tmp = Some t1" "is_dir t1" "r1 = Inr () \<Longrightarrow> file_at t1 = file_at t" by auto
  show ?thesis
  proof (cases r1)
    case (Inl x)
    with run Inr p mk have "r = Inl x" "s' = s1" by (simp_all add: extract_entry_def st_bind_def st_lift_def)
    with s1(1) t1 show ?thesis by auto
  next
    case r1: (Inr y)
    have w: "io (in_tree tmp (write_file (path_parts rel) d)) s1 = (r, s')"
      using run Inr p mk r1 by (simp add: extract_entry_def st_bind_def st_lift_def)
    have "is_dir t' \<and> file_at t' = (\<lambda>f. f(path_parts rel \<mapsto> d)) (file_at t1)" if "write_file (path_parts rel) d t1 = Inr t'" for t'
      using file_at_write [OF that] by (auto simp: fun_eq_iff)
    note s' = io_tree [where g = "\<lambda>f. f(path_parts rel \<mapsto> d)", OF w t1(1,2) this]
    from s'(2) obtain t' where "at s' tmp = Some t'" "is_dir t'" "r = Inr () \<Longrightarrow> file_at t' = (file_at t1)(path_parts rel \<mapsto> d)"
      by auto
    then show ?thesis using only_at_trans1 [OF s1(1) s'(1)] t1(3) r1 by (auto simp: written_def Inr p)
  qed
qed

lemma extract_loop:
  "st_for (extract_entry H tmp payloads) es s = (r, s') \<Longrightarrow> at s tmp = Some t \<Longrightarrow> is_dir t \<Longrightarrow>
     only_at {tmp} s s' \<and> (\<exists>t'. at s' tmp = Some t' \<and> is_dir t'
       \<and> (r = Inr () \<longrightarrow> file_at t' = fold (written H payloads) es (file_at t)
            \<and> (\<forall>e \<in> set es. \<exists>p. checked_payload H payloads e = Inr p)))"
proof (induction es arbitrary: s t)
  case (Cons e es)
  obtain r1 s1 where one: "extract_entry H tmp payloads e s = (r1, s1)" by (cases "extract_entry H tmp payloads e s")
  from extract_entry_step [OF one Cons.prems(2,3)] obtain t1 where t1: "only_at {tmp} s s1" "at s1 tmp = Some t1" "is_dir t1"
    "r1 = Inr () \<Longrightarrow> file_at t1 = written H payloads e (file_at t) \<and> (\<exists>p. checked_payload H payloads e = Inr p)" by blast
  show ?case
  proof (cases r1)
    case (Inl x)
    with Cons.prems(1) one t1 show ?thesis by auto
  next
    case (Inr y)
    with Cons.prems(1) one have "st_for (extract_entry H tmp payloads) es s1 = (r, s')" by simp
    from Cons.IH [OF this t1(2,3)] only_at_trans1 [OF t1(1)] t1(4) Inr show ?thesis by auto
  qed
qed auto

section \<open>All or nothing\<close>

text \<open>The complete tree of a manifest: every entry has its file with the recorded digest and size,
  and there is no other file.\<close>

definition complete :: "(string \<Rightarrow> string) \<Rightarrow> manifest \<Rightarrow> fs \<Rightarrow> bool" where
  "complete H m t \<longleftrightarrow>
     (\<forall>e \<in> set (mf_files m). \<exists>d. file_at t (path_parts (be_path e)) = Some d
        \<and> digest_bytes H d = be_sha e \<and> py_int (be_size e) = Inr (int (length d)))
   \<and> (\<forall>ns d. file_at t ns = Some d \<longrightarrow> proper ns \<and> (\<exists>e \<in> set (mf_files m). ns = path_parts (be_path e)))"

lemma checked_ok:
  assumes "checked_payload H payloads e = Inr (rel, d)"
  shows "path_parts rel = path_parts (be_path e)" and "proper (path_parts (be_path e))"
    and "map_of payloads rel = Some d" and "digest_bytes H d = be_sha e" and "py_int (be_size e) = Inr (int (length d))"
  using assms by (auto simp: checked_payload_def rbind_ok dest: relative_path_ok split: option.splits if_splits)

lemma fold_written:
  assumes "\<forall>e \<in> set es. \<exists>p. checked_payload H payloads e = Inr p" and "distinct (map (\<lambda>e. path_parts (be_path e)) es)"
  shows "(\<forall>e \<in> set es. \<exists>rel d. checked_payload H payloads e = Inr (rel, d)
            \<and> fold (written H payloads) es f (path_parts (be_path e)) = Some d)
    \<and> (\<forall>ns. ns \<notin> (\<lambda>e. path_parts (be_path e)) ` set es \<longrightarrow> fold (written H payloads) es f ns = f ns)"
  using assms
proof (induction es arbitrary: f)
  case (Cons e es)
  then obtain rel d where c: "checked_payload H payloads e = Inr (rel, d)" by auto
  have w: "written H payloads e f = f(path_parts (be_path e) \<mapsto> d)" by (simp add: written_def c checked_ok(1) [OF c])
  have new: "path_parts (be_path e) \<notin> (\<lambda>e. path_parts (be_path e)) ` set es" using Cons.prems(2) by auto
  define g where "g = written H payloads e f"
  have ih: "\<forall>e \<in> set es. \<exists>rel d. checked_payload H payloads e = Inr (rel, d)
        \<and> fold (written H payloads) es g (path_parts (be_path e)) = Some d"
      "\<forall>ns. ns \<notin> (\<lambda>e. path_parts (be_path e)) ` set es \<longrightarrow> fold (written H payloads) es g ns = g ns"
    using Cons.IH [of g] Cons.prems by auto
  have fold: "fold (written H payloads) (e # es) f = fold (written H payloads) es g" by (simp add: g_def)
  have ge: "g (path_parts (be_path e)) = Some d" "ns \<noteq> path_parts (be_path e) \<Longrightarrow> g ns = f ns" for ns
    by (simp_all add: g_def w)
  show ?case unfolding fold
  proof (intro conjI ballI allI impI)
    fix x assume "x \<in> set (e # es)"
    then show "\<exists>rel d. checked_payload H payloads x = Inr (rel, d)
        \<and> fold (written H payloads) es g (path_parts (be_path x)) = Some d"
      using ih(1) c new ih(2) ge(1) by (cases "x = e") auto
  next
    fix ns assume "ns \<notin> (\<lambda>e. path_parts (be_path e)) ` set (e # es)"
    then show "fold (written H payloads) es g ns = f ns" using ih(2) ge(2) by simp
  qed
qed simp

lemma written_complete:
  assumes rb: "read_bundle H bundle = Inr (m, payloads)"
    and ok: "\<forall>e \<in> set (mf_files m). \<exists>p. checked_payload H payloads e = Inr p"
    and t: "file_at t = fold (written H payloads) (mf_files m) (\<lambda>ns. None)"
  shows "complete H m t"
proof -
  have d: "distinct (map (\<lambda>e. path_parts (be_path e)) (mf_files m))"
  proof (rule distinct_map [THEN iffD2], intro conjI)
    show "distinct (mf_files m)" using manifest_paths(1) [OF rb] by (simp add: distinct_map)
    show "inj_on (\<lambda>e. path_parts (be_path e)) (set (mf_files m))"
      using manifest_paths [OF rb] by (auto simp: inj_on_def normal_path_def distinct_map) (metis inj_onD)
  qed
  note f = fold_written [OF ok d, of "\<lambda>ns. None", folded t]
  show ?thesis unfolding complete_def
  proof (intro conjI ballI allI impI)
    fix e assume "e \<in> set (mf_files m)"
    then obtain rel d' where c: "checked_payload H payloads e = Inr (rel, d')"
      and "file_at t (path_parts (be_path e)) = Some d'" using f by blast
    with checked_ok(4,5) [OF c] show "\<exists>d. file_at t (path_parts (be_path e)) = Some d
        \<and> digest_bytes H d = be_sha e \<and> py_int (be_size e) = Inr (int (length d))" by blast
  next
    fix ns d' assume "file_at t ns = Some d'"
    then have "ns \<in> (\<lambda>e. path_parts (be_path e)) ` set (mf_files m)" using f by force
    then obtain e where e: "e \<in> set (mf_files m)" "ns = path_parts (be_path e)" by blast
    with manifest_paths(2) [OF rb] show "proper ns" "\<exists>e \<in> set (mf_files m). ns = path_parts (be_path e)"
      by (auto simp: normal_path_def)
  qed
qed

lemma io_replace:
  assumes "io (os_replace a b) s = (r, s')" and "at s a = Some t" "at s b = None" "a \<noteq> b"
  shows "r = Inr () \<Longrightarrow> at s' = (at s)(a := None, b := Some t)"
    and "r = Inl e \<Longrightarrow> at s' = at s \<and> faults_left s' < faults_left s"
    and "faults_left s' \<le> faults_left s"
proof -
  have move: "os_replace a b (sp_parent s) = Inr (AList.update b t (AList.delete a (sp_parent s)))"
    using assms(2,3) by (cases t) (auto simp: os_replace_def at_def)
  show "at s' = (at s)(a := None, b := Some t)" if "r = Inr ()"
  proof -
    have "sp_parent s' = AList.update b t (AList.delete a (sp_parent s))"
      using io_ok(1) [OF assms(1) [unfolded that]] move by simp
    then show ?thesis using assms(4) by (simp add: at_def fun_eq_iff)
  qed
  show "at s' = at s \<and> faults_left s' < faults_left s" if "r = Inl e"
    using io_err [OF assms(1) [unfolded that]] move by (auto simp: at_def fun_eq_iff)
  show "faults_left s' \<le> faults_left s"
    using io_ok(2) io_err(2) assms(1) by (cases r) auto
qed

lemma io_rmtree:
  assumes "io (rmtree a) s = (r, s')"
  shows "n \<noteq> a \<Longrightarrow> at s' n = at s n" and "r = Inr () \<Longrightarrow> at s' a = None"
    and "faults_left s = 0 \<Longrightarrow> at s a = Some (Dir es) \<Longrightarrow> r = Inr ()"
    and "faults_left s' \<le> faults_left s"
proof -
  have "(n \<noteq> a \<longrightarrow> at s' n = at s n) \<and> (r = Inr () \<longrightarrow> at s' a = None) \<and> faults_left s' \<le> faults_left s"
  proof (cases r)
    case (Inl e)
    with io_err(1,2) [of "rmtree a" s e s'] assms show ?thesis by (simp add: at_def)
  next
    case (Inr x)
    note ok = io_ok [OF assms [unfolded Inr]]
    from ok(1) have "sp_parent s' = AList.delete a (sp_parent s)"
      by (auto simp: rmtree_def split: option.splits fs.splits)
    with ok(2) show ?thesis by (simp add: at_def)
  qed
  then show "n \<noteq> a \<Longrightarrow> at s' n = at s n" and "r = Inr () \<Longrightarrow> at s' a = None" and "faults_left s' \<le> faults_left s"
    by blast+
  show "r = Inr ()" if "faults_left s = 0" "at s a = Some (Dir es)"
    using io_err(3) [of "rmtree a" s _ s' "AList.delete a (sp_parent s)"] assms that
    by (cases r) (auto simp: rmtree_def at_def)
qed

lemma swap_in_cases:
  assumes "swap_in tmp backup dest s = (r, s')" and t: "at s tmp = Some t" and b: "at s backup = None"
    and d: "distinct [tmp, backup, dest]"
  obtains (swapped) "r = Inr ()" "at s' = (at s)(dest := Some t, tmp := None)"
  | (kept) e where "r = Inl e" "at s' = at s" "faults_left s' \<le> faults_left s"
  | (moved) e old where "r = Inl e" "at s dest = Some old" "at s' = (at s)(dest := None, backup := Some old)"
      "faults_left s' < faults_left s"
  | (leftover) e old where "r = Inl e" "at s dest = Some old" "at s' = (at s)(dest := Some t, tmp := None, backup := Some old)"
proof (cases "at s dest")
  case None
  obtain r2 s2 where two: "io (os_replace tmp dest) s = (r2, s2)" by (cases "io (os_replace tmp dest) s")
  have tb: "tmp \<noteq> dest" using d by simp
  note mv = io_replace [OF two t None tb]
  show thesis
  proof (cases r2)
    case (Inl e)
    with assms(1) None two have "r = Inl e" "s' = s2" by (simp_all add: swap_in_def do_if_def fs_exists_def at_def st_bind_def)
    with mv(2) [OF Inl] show thesis by (intro kept [of e]) simp_all
  next
    case (Inr x)
    then have s2: "at s2 = (at s)(tmp := None, dest := Some t)" using mv(1) by simp
    then have "map_of (sp_parent s2) backup = None" using b d by (simp add: at_def fun_eq_iff)
    with assms(1) None two Inr have "r = Inr ()" "s' = s2"
      by (simp_all add: swap_in_def do_if_def fs_exists_def at_def st_bind_def)
    with s2 d show thesis by (intro swapped) (auto simp: fun_eq_iff)
  qed
next
  case (Some old)
  obtain r1 s1 where one: "io (os_replace dest backup) s = (r1, s1)" by (cases "io (os_replace dest backup) s")
  have db: "dest \<noteq> backup" using d by auto
  note first = io_replace [OF one Some b db]
  have ex: "fs_exists dest s" using Some by (simp add: fs_exists_def at_def)
  show thesis
  proof (cases r1)
    case (Inl e)
    with assms(1) ex one have "r = Inl e" "s' = s1" by (simp_all add: swap_in_def do_if_def st_bind_def)
    with first(2) [OF Inl] show thesis by (intro kept [of e]) simp_all
  next
    case r1: (Inr x)
    then have s1: "at s1 = (at s)(dest := None, backup := Some old)" using first(1) by simp
    obtain r2 s2 where two: "io (os_replace tmp dest) s1 = (r2, s2)" by (cases "io (os_replace tmp dest) s1")
    have "at s1 tmp = Some t" "at s1 dest = None" "tmp \<noteq> dest" using s1 t d by auto
    note second = io_replace [OF two this]
    show thesis
    proof (cases r2)
      case (Inl e)
      with assms(1) ex one r1 two have "r = Inl e" "s' = s2" by (simp_all add: swap_in_def do_if_def st_bind_def)
      with second(2) [OF Inl] s1 Some first(3) show thesis by (intro moved [of e old]) simp_all
    next
      case r2: (Inr y)
      then have s2: "at s2 = (at s)(dest := Some t, tmp := None, backup := Some old)"
        using second(1) s1 d by (auto simp: fun_eq_iff)
      then have "map_of (sp_parent s2) backup = Some old" using d by (simp add: at_def fun_eq_iff)
      then have r: "io (rmtree backup) s2 = (r, s')"
        using assms(1) ex one r1 two r2 by (simp add: swap_in_def do_if_def fs_exists_def st_bind_def)
      note rm = io_rmtree [OF r]
      show thesis
      proof (cases r)
        case (Inl e)
        with r have "at s' = at s2" using io_err(1) by (auto simp: at_def fun_eq_iff)
        with Inl s2 Some show thesis by (intro leftover [of e old]) simp_all
      next
        case (Inr z)
        have "at s' n = ((at s)(dest := Some t, tmp := None)) n" for n
          using rm(1) [of n] rm(2) Inr s2 b d by (cases "n = backup") auto
        with Inr show thesis by (intro swapped) auto
      qed
    qed
  qed
qed

lemma clean_up_no_backup:
  assumes "clean_up tmp backup dest s = (r, s')" and "at s backup = None" and "tmp \<noteq> backup"
  shows "n \<noteq> tmp \<Longrightarrow> at s' n = at s n"
proof -
  obtain r1 s1 where one: "do_if (fs_exists tmp) (io (rmtree tmp)) s = (r1, s1)"
    by (cases "do_if (fs_exists tmp) (io (rmtree tmp)) s")
  then have n: "n \<noteq> tmp \<Longrightarrow> at s1 n = at s n" for n
    using io_rmtree(1) [of tmp s r1 s1] by (auto simp: do_if_def split: if_splits)
  have "s' = s1"
    using assms(1) one n [of backup] assms(2,3)
    by (auto simp: clean_up_def st_bind_def do_if_def fs_exists_def at_def split: sum.splits)
  with n show "n \<noteq> tmp \<Longrightarrow> at s' n = at s n" by simp
qed

lemma clean_up_restores:
  assumes run: "clean_up tmp backup dest s = (r, s')" and "at s backup = Some old" "at s dest = None" "at s tmp = Some t"
    and "is_dir t" "faults_left s = 0" and d: "distinct [tmp, backup, dest]"
  shows "at s' = (at s)(tmp := None, backup := None, dest := Some old)"
proof -
  obtain es where es: "t = Dir es" using assms(5) by (auto simp: is_dir_def)
  have ex: "fs_exists tmp s" using assms(4) by (simp add: fs_exists_def at_def)
  obtain r1 s1 where one: "io (rmtree tmp) s = (r1, s1)" by (cases "io (rmtree tmp) s")
  note rm = io_rmtree [OF one]
  have r1: "r1 = Inr ()" using rm(3) assms(4,6) es by simp
  have s1: "at s1 = (at s)(tmp := None)" using rm(1,2) r1 by (auto simp: fun_eq_iff)
  have f: "faults_left s1 = 0" using rm(4) assms(6) by simp
  have b: "at s1 backup = Some old" "at s1 dest = None" "backup \<noteq> dest" using s1 assms(2,3) d by auto
  then have "io (os_replace backup dest) s1 = (r, s')"
    using run ex one r1 by (simp add: clean_up_def st_bind_def do_if_def fs_exists_def at_def)
  note mv = io_replace [OF this b]
  have "r = Inr ()" using mv(2) f by (cases r) auto
  then show ?thesis using mv(1) s1 d by (auto simp: fun_eq_iff)
qed

lemma clean_up_swapped:
  assumes "clean_up tmp backup dest s = (r, s')" and "at s tmp = None" and "at s dest = Some t" and "backup \<noteq> dest"
  shows "n \<noteq> backup \<Longrightarrow> at s' n = at s n"
proof -
  have "do_if (fs_exists backup) (io (rmtree backup)) s = (r, s')"
    using assms by (auto simp: clean_up_def st_bind_def do_if_def fs_exists_def at_def)
  then show "n \<noteq> backup \<Longrightarrow> at s' n = at s n"
    using io_rmtree(1) [of backup s r s'] by (auto simp: do_if_def split: if_splits)
qed

text \<open>What an extraction may leave of the parent directory: the destination as it was or complete.\<close>

definition all_or_nothing :: "(string \<Rightarrow> string) \<Rightarrow> manifest option \<Rightarrow> string \<Rightarrow> string set \<Rightarrow> space \<Rightarrow> space \<Rightarrow> bool" where
  "all_or_nothing H m dest own s s' \<longleftrightarrow>
     (at s' dest = at s dest \<or> (\<exists>m' t. m = Some m' \<and> at s' dest = Some t \<and> complete H m' t))
   \<and> (\<forall>n. n \<notin> own \<longrightarrow> at s' n = at s n)"

lemma cleaned:
  assumes "st_bind (clean_up tmp backup dest) (\<lambda>_. st_raise e) s = (r, s')"
  obtains r' where "clean_up tmp backup dest s = (r', s')" and "\<exists>e. r = Inl e"
  using assms by (cases "clean_up tmp backup dest s") (auto simp: st_bind_def st_raise_def split: sum.splits)

lemma extraction_core:
  assumes run: "extract_bundle H tmp backup dest bundle s = (r, s')"
    and d: "distinct [tmp, backup, dest]" and fresh: "at s tmp = None" "at s backup = None" and one: "faults_left s \<le> 1"
  shows "all_or_nothing H (map_option fst (case read_bundle H bundle of Inr x \<Rightarrow> Some x | Inl e \<Rightarrow> None)) dest {tmp, backup, dest} s s'
    \<and> (\<forall>m. r = Inr m \<longrightarrow> (\<exists>payloads t. read_bundle H bundle = Inr (m, payloads) \<and> complete H m t
         \<and> at s' = (at s)(dest := Some t)))"
    (is "?a \<and> ?b")
proof -
  obtain r0 s0 where att: "try_extract H tmp backup dest bundle s = (r0, s0)" by (cases "try_extract H tmp backup dest bundle s")
  have failed: "?a \<and> ?b" if "r0 = Inl e" "at s0 backup = None" "\<And>n. n \<noteq> tmp \<Longrightarrow> at s0 n = at s n" for e
  proof -
    have "st_bind (clean_up tmp backup dest) (\<lambda>_. st_raise e) s0 = (r, s')"
      using run att that(1) by (simp add: extract_bundle_def)
    then obtain r' where c: "clean_up tmp backup dest s0 = (r', s')" and r: "\<exists>e. r = Inl e" by (rule cleaned)
    have "n \<noteq> tmp \<Longrightarrow> at s' n = at s n" for n
      using clean_up_no_backup [OF c that(2)] that(3) d by auto
    then show ?thesis using r d by (auto simp: all_or_nothing_def)
  qed
  show ?thesis
  proof (cases "read_bundle H bundle")
    case (Inl e)
    with att have "r0 = Inl e" "s0 = s" by (simp_all add: try_extract_def st_bind_def st_lift_def)
    with failed fresh Inl show ?thesis by simp
  next
    case (Inr mp)
    obtain m payloads where rb: "read_bundle H bundle = Inr (m, payloads)" using Inr by (cases mp) auto
    obtain r1 s1 where mk: "io (mkdir tmp) s = (r1, s1)" by (cases "io (mkdir tmp) s")
    show ?thesis
    proof (cases r1)
      case (Inl e)
      with att mk rb have "r0 = Inl e" "s0 = s1" by (simp_all add: try_extract_def st_bind_def st_lift_def)
      with io_err_only [of "mkdir tmp" s e s1 "{}"] mk Inl failed [of e] fresh show ?thesis by simp
    next
      case r1: (Inr x)
      note mk_ok = io_ok [OF mk [unfolded r1]]
      have s1: "at s1 = (at s)(tmp := Some (Dir []))"
      proof -
        have "sp_parent s1 = AList.update tmp (Dir []) (sp_parent s)" using mk_ok(1) fresh(1) by (simp add: mkdir_def at_def)
        then show ?thesis by (simp add: at_def fun_eq_iff)
      qed
      have tmp1: "at s1 tmp = Some (Dir [])" "is_dir (Dir [])" by (simp_all add: s1 is_dir_def)
      obtain r2 s2 where loop: "st_for (extract_entry H tmp payloads) (mf_files m) s1 = (r2, s2)"
        by (cases "st_for (extract_entry H tmp payloads) (mf_files m) s1")
      from extract_loop [OF loop tmp1] obtain t where s2: "only_at {tmp} s1 s2" and t: "at s2 tmp = Some t" "is_dir t"
        and files: "r2 = Inr () \<Longrightarrow> file_at t = fold (written H payloads) (mf_files m) (file_at (Dir []))
            \<and> (\<forall>e \<in> set (mf_files m). \<exists>p. checked_payload H payloads e = Inr p)" by blast
      have other: "n \<noteq> tmp \<Longrightarrow> at s2 n = at s n" for n using s2 s1 by (simp add: only_at_def)
      have "backup \<noteq> tmp" using d by auto
      then have b2: "at s2 backup = None" using other fresh(2) by simp
      show ?thesis
      proof (cases r2)
        case (Inl e)
        with att mk rb r1 loop have "r0 = Inl e" "s0 = s2" by (simp_all add: try_extract_def st_bind_def st_lift_def)
        then show ?thesis using other b2 by (intro failed [of e]) auto
      next
        case r2: (Inr y)
        have whole: "complete H m t"
          using files r2 by (intro written_complete [OF rb]) (simp_all add: file_at_empty [abs_def])
        obtain r3 s3 where sw: "swap_in tmp backup dest s2 = (r3, s3)" by (cases "swap_in tmp backup dest s2")
        have end_of: "r0 = (case r3 of Inl e \<Rightarrow> Inl e | Inr _ \<Rightarrow> Inr m)" "s0 = s3"
          using att mk rb r1 loop r2 sw by (simp_all add: try_extract_def st_bind_def st_lift_def st_ret_def split: sum.splits)
        have few: "faults_left s2 \<le> 1" using s2 mk_ok(2) one by (simp add: only_at_def)
        have cleaned_of: "\<exists>r'. clean_up tmp backup dest s3 = (r', s') \<and> (\<exists>e. r = Inl e)" if "r3 = Inl e" for e
        proof -
          have "st_bind (clean_up tmp backup dest) (\<lambda>_. st_raise e) s3 = (r, s')"
            using run att end_of that by (simp add: extract_bundle_def)
          then show ?thesis by (rule cleaned) blast
        qed
        from sw t(1) b2 d show ?thesis
        proof (cases rule: swap_in_cases)
          case swapped
          then have "r = Inr m" "s' = s3" using run att end_of by (simp_all add: extract_bundle_def)
          moreover have "at s3 = (at s)(dest := Some t)" using swapped(2) other fresh(1) d by (auto simp: fun_eq_iff)
          ultimately show ?thesis using rb whole by (auto simp: all_or_nothing_def)
        next
          case (kept e)
          with end_of have "r0 = Inl e" "at s0 backup = None" "\<And>n. n \<noteq> tmp \<Longrightarrow> at s0 n = at s n"
            using other b2 by simp_all
          then show ?thesis by (rule failed)
        next
          case (moved e old)
          then obtain r' where c: "clean_up tmp backup dest s3 = (r', s')" and r: "\<exists>e. r = Inl e"
            using cleaned_of by blast
          have "at s' = (at s3)(tmp := None, backup := None, dest := Some old)"
            by (rule clean_up_restores [OF c]) (use moved t d few in auto)
          then have "at s' n = at s n" for n using moved other [of n] other [of dest] fresh d by auto
          then show ?thesis using r by (auto simp: all_or_nothing_def)
        next
          case (leftover e old)
          then obtain r' where c: "clean_up tmp backup dest s3 = (r', s')" and r: "\<exists>e. r = Inl e"
            using cleaned_of by blast
          have "n \<noteq> backup \<Longrightarrow> at s' n = at s3 n" for n
            by (rule clean_up_swapped [OF c]) (use leftover d in auto)
          then show ?thesis using r leftover(3) other d whole rb by (auto simp: all_or_nothing_def)
        qed
      qed
    qed
  qed
qed

text \<open>C31: Extraction is all or nothing. For any bundle, however it is made, and if at most one operation on the
  parent directory fails, the destination is afterwards what it was or the complete tree of the bundle's manifest, with
  every file of the recorded size and digest, at a relative path without \<open>..\<close>, and no other file; nothing else in the
  parent directory changes except the two temporary names; and an extraction that returns left the complete tree.\<close>

theorem extraction_is_all_or_nothing:
  assumes "extract_bundle H tmp backup dest bundle s = (r, s')" and "distinct [tmp, backup, dest]"
    and "at s tmp = None" and "at s backup = None" and "faults_left s \<le> 1"
  shows "(at s' dest = at s dest \<or> (\<exists>m payloads t. read_bundle H bundle = Inr (m, payloads)
        \<and> at s' dest = Some t \<and> complete H m t))
    \<and> (\<forall>n. n \<notin> {tmp, backup, dest} \<longrightarrow> at s' n = at s n)
    \<and> (\<forall>m. r = Inr m \<longrightarrow> (\<exists>t. complete H m t \<and> at s' = (at s)(dest := Some t)))"
  using extraction_core [OF assms] by (fastforce simp: all_or_nothing_def split: sum.splits)

end
