(* ===== verification/Bundle_Examples.thy ===== *)
theory Bundle_Examples
  imports Bundle_Props
begin

text \<open>
  A bundle of one file, extracted over an older directory: once without a fault, once with the swap
  failing after the old directory was moved away.
\<close>

definition const_hash :: "string \<Rightarrow> string" where
  "const_hash x = replicate 64 (CHR ''a'')"

definition note_source :: "source_file list" where
  "note_source = [\<lparr>sf_parts = [''notes'', ''a.txt''], sf_kind = Regular 1, sf_data = ''hi''\<rparr>]"

definition note_manifest :: manifest where
  "note_manifest = mk_manifest const_hash
     [\<lparr>be_path = ''notes/a.txt'', be_sha = digest_bytes const_hash ''hi'', be_size = JInt 2\<rparr>]"

definition note_bundle :: "exn + tar_member list" where
  "note_bundle = (case create_bundle const_hash (Some note_source) of Inl e \<Rightarrow> Inl e | Inr (m, ms) \<Rightarrow> Inr ms)"

definition old_space :: "bool list \<Rightarrow> space" where
  "old_space faults = \<lparr>sp_parent = [(''out'', Dir [(''old'', File ''x'')])], sp_faults = faults\<rparr>"

lemma note_read: "read_bundle const_hash note_bundle = Inr (note_manifest, [(''notes/a.txt'', ''hi'')])"
  by code_simp

lemma note_extracted:
  "extract_bundle const_hash ''t'' ''b'' ''out'' note_bundle (old_space []) =
     (Inr note_manifest, \<lparr>sp_parent = [(''out'', Dir [(''notes'', Dir [(''a.txt'', File ''hi'')])])], sp_faults = []\<rparr>)"
  by code_simp

lemma note_failed:
  "extract_bundle const_hash ''t'' ''b'' ''out'' note_bundle (old_space [False, False, False, False, True]) =
     (Inl (OSError ''fault''), old_space [])"
  by code_simp

definition new_tree :: fs where
  "new_tree = Dir [(''notes'', Dir [(''a.txt'', File ''hi'')])]"

definition new_space :: space where
  "new_space = \<lparr>sp_parent = [(''out'', new_tree)], sp_faults = []\<rparr>"

theorem extraction_is_all_or_nothing_witness:
  "complete const_hash note_manifest new_tree
   \<and> fst (extract_bundle const_hash ''t'' ''b'' ''out'' note_bundle (old_space [False, False, False, False, True]))
     = Inl (OSError ''fault'')"
proof -
  have d: "distinct [''t'', ''b'', ''out'']" by simp
  have f: "at (old_space []) ''t'' = None" "at (old_space []) ''b'' = None" "faults_left (old_space []) \<le> 1"
    by (simp_all add: old_space_def at_def faults_left_def)
  have run: "extract_bundle const_hash ''t'' ''b'' ''out'' note_bundle (old_space []) = (Inr note_manifest, new_space)"
    unfolding new_space_def new_tree_def by (rule note_extracted)
  from extraction_is_all_or_nothing [OF run d f]
  obtain t where t: "complete const_hash note_manifest t" "at new_space = (at (old_space []))(''out'' := Some t)" by blast
  have "at new_space ''out'' = Some t" by (simp only: t(2) fun_upd_same)
  then have "t = new_tree" by (simp add: new_space_def at_def)
  with t(1) note_failed show ?thesis by simp
qed

end
