(* ===== verification/Egress.thy ===== *)
theory Egress
  imports Policy_Props Redaction
begin

text \<open>
  What may leave the device (\<open>security/policy.py\<close>): the frontmatter of \<open>PRIVACY.md\<close>, the
  connectors of \<open>SHARING_POLICY.md\<close>, and the two guards every outbound call goes through,
  \<open>require_network\<close> and \<open>require_connector\<close>, with the grants of the environment
  (\<open>env.py\<close>). Both files are texts of code points, \<open>None\<close> when they do not exist.
\<close>

section \<open>Frontmatter\<close>

datatype front_value = FBool bool | FStr chars | FList "chars list"

text \<open>\<open>s.strip(q)\<close> for one character, and \<open>value.strip('"').strip("'")\<close>.\<close>

definition strip_code :: "int \<Rightarrow> chars \<Rightarrow> chars" where
  "strip_code c t = rev (dropWhile (\<lambda>x. x = c) (rev (dropWhile (\<lambda>x. x = c) t)))"

definition unquoted :: "chars \<Rightarrow> chars" where
  "unquoted t = strip_code 39 (strip_code 34 t)"

text \<open>The value of a key on one line; without one a list begins (\<open>None\<close>).\<close>

definition front_scalar :: "tables \<Rightarrow> chars \<Rightarrow> front_value" where
  "front_scalar U v =
     (if lowered U v \<in> {u ''true'', u ''false''} then FBool (lowered U v = u ''true'')
      else if lowered U v \<in> {u ''on'', u ''off''} then FBool (lowered U v = u ''on'')
      else FStr (unquoted v))"

text \<open>The settings read so far, in the order of the dictionary, and the key whose list is open.\<close>

type_synonym yaml = "(chars \<times> front_value) list \<times> chars option"

definition append_item :: "chars \<Rightarrow> chars \<Rightarrow> (chars \<times> front_value) list \<Rightarrow> (chars \<times> front_value) list" where
  "append_item k item kvs = map (\<lambda>(k', v). (k', if k' = k then (case v of FList xs \<Rightarrow> FList (xs @ [item]) | _ \<Rightarrow> v) else v)) kvs"

definition yaml_line :: "tables \<Rightarrow> yaml \<Rightarrow> chars \<Rightarrow> yaml" where
  "yaml_line U s raw = (case s of (out, current) \<Rightarrow>
     let line = strip_right U raw; stripped = strip_left U line in
     if line = [] \<or> begins (u ''#'') line then s
     else if length stripped = length line then
       (case cut (u '':'') stripped of
          None \<Rightarrow> s
        | Some (k, v) \<Rightarrow>
            (let key = Redaction.strip U k; value = Redaction.strip U v in
             if value = [] then (put_item key (FList []) out, Some key)
             else (put_item key (front_scalar U value) out, None)))
     else (case current of
          None \<Rightarrow> s
        | Some key \<Rightarrow>
            if begins (u ''- '') stripped
            then (append_item key (unquoted (Redaction.strip U (drop 2 stripped))) out, current)
            else s))"

definition yaml_frontmatter :: "tables \<Rightarrow> chars \<Rightarrow> (chars \<times> front_value) list" where
  "yaml_frontmatter U t =
     (if \<not> begins (u ''---'') t then []
      else (case cut (10 # u ''---'') (drop 3 t) of
          None \<Rightarrow> []
        | Some (block, rest) \<Rightarrow> fst (foldl (yaml_line U) ([], None) (splitlines block))))"

section \<open>Privacy and sharing files\<close>

text \<open>\<open>str(fm.get(key, default)).strip()\<close>. The text of a list begins with a bracket and is none of
  the accepted values; it is left out.\<close>

definition front_text :: "tables \<Rightarrow> (chars \<times> front_value) list \<Rightarrow> chars \<Rightarrow> chars \<Rightarrow> chars" where
  "front_text U fm key dflt = (case map_of fm key of
       None \<Rightarrow> dflt
     | Some (FStr s) \<Rightarrow> Redaction.strip U s
     | Some (FBool b) \<Rightarrow> (if b then u ''True'' else u ''False'')
     | Some (FList xs) \<Rightarrow> u ''['')"

definition load_privacy :: "tables \<Rightarrow> chars option \<Rightarrow> chars \<times> chars" where
  "load_privacy U file = (case file of
       None \<Rightarrow> (u ''abstract'', u ''device-only'')
     | Some t \<Rightarrow>
         (let fm = yaml_frontmatter U t;
              mode = front_text U fm (u ''mode'') (u ''abstract'');
              scope = front_text U fm (u ''network_scope'') (u ''device-only'')
          in (if mode \<in> {u ''abstract'', u ''exact''} then mode else u ''abstract'',
              if scope \<in> {u ''device-only'', u ''tailnet'', u ''external''} then scope else u ''device-only'')))"

text \<open>The pattern of a connector: group 1 is its name, group 2 the value of \<open>enabled\<close>.\<close>

definition connector_pattern :: "tables \<Rightarrow> rx" where
  "connector_pattern U = (let space = One (is_space U); newline = One (\<lambda>c. c = 10) in
     cats [Line_Start, exactly 2 space, Group 1 (some_of (One (ci U (\<lambda>c. Regex.lower c \<or> among ''_'' c)))),
       lit '':'', many space, newline,
       Rep False 0 None (cats [exactly 4 space, many (One (\<lambda>c. c \<noteq> 10)), newline]),
       exactly 4 space, lit_ci U ''enabled'', lit '':'', many space,
       Group 2 (alts [lit_ci U ''true'', lit_ci U ''false'']), many space, Line_End])"

text \<open>\<open>match.group(n)\<close>.\<close>

definition group_text :: "nat \<Rightarrow> found \<Rightarrow> chars" where
  "group_text n m = (case map_of (m_caps m) n of None \<Rightarrow> [] | Some (a, b) \<Rightarrow> take (length a - length b) a)"

definition load_sharing_policy :: "tables \<Rightarrow> chars option \<Rightarrow> (chars \<times> bool) list" where
  "load_sharing_policy U file = (case file of
       None \<Rightarrow> []
     | Some t \<Rightarrow> foldl (\<lambda>cs m. put_item (Redaction.strip U (group_text 1 m)) (lowered U (group_text 2 m) = u ''true'') cs)
         [] (matches U (connector_pattern U) t))"

record security_policy =
  sp_root :: string
  sp_mode :: chars
  sp_scope :: chars
  sp_connectors :: "(chars \<times> bool) list"

definition load_policy :: "tables \<Rightarrow> string \<Rightarrow> chars option \<Rightarrow> chars option \<Rightarrow> security_policy" where
  "load_policy U root privacy sharing = (case load_privacy U privacy of (mode, scope) \<Rightarrow>
     \<lparr>sp_root = root, sp_mode = mode, sp_scope = scope, sp_connectors = load_sharing_policy U sharing\<rparr>)"

section \<open>The environment\<close>

type_synonym environ = "string \<Rightarrow> string option"

definition getenv :: "environ \<Rightarrow> string \<Rightarrow> string \<Rightarrow> string" where
  "getenv V name dflt = (case V (''SHIROE_'' @ name) of None \<Rightarrow> dflt | Some v \<Rightarrow> v)"

definition env_allow_network :: "environ \<Rightarrow> bool" where
  "env_allow_network V \<longleftrightarrow> Prelude.strip (getenv V ''ALLOW_NETWORK'' []) \<in> {''1'', ''true'', ''yes'', ''on''}"

definition env_allowed_connectors :: "environ \<Rightarrow> string list" where
  "env_allowed_connectors V = map (\<lambda>c. Prelude.lower (Prelude.strip c))
     (filter (\<lambda>c. Prelude.strip c \<noteq> []) (split_at (CHR '','') (getenv V ''ALLOW_CONNECTOR'' [])))"

section \<open>The guards\<close>

text \<open>What the guards read beside the policy: the layer files, the global root and the environment.\<close>

record surroundings =
  su_files :: files
  su_global :: string
  su_env :: environ

definition network_action :: "string \<Rightarrow> action" where
  "network_action target = \<lparr>a_kind = Network, a_target = target, a_context = []\<rparr>"

definition env_grant :: "string \<Rightarrow> policy_layer" where
  "env_grant target = \<lparr>pl_name = ''explicit-user-grant'', pl_denies = {}, pl_allows = {Network},
     pl_fs_write_scopes = [], pl_fs_read_scopes = [], pl_network_hosts = [target]\<rparr>"

definition egress_stack :: "surroundings \<Rightarrow> string \<Rightarrow> string \<Rightarrow> exn + policy_layer list" where
  "egress_stack S root target =
     rbind (load_policy_stack (su_files S) root (su_global S)) (\<lambda>stack.
     Inr (stack @ (if env_allow_network (su_env S) then [env_grant target] else [])))"

definition require_network :: "surroundings \<Rightarrow> security_policy \<Rightarrow> string \<Rightarrow> string \<Rightarrow> string \<Rightarrow> exn + unit" where
  "require_network S p purpose target destination =
     (if sp_scope p = u ''device-only'' then Inl (NetworkDeniedError ''device-only scope'')
      else if sp_scope p = u ''tailnet'' \<and> destination = ''external''
      then Inl (NetworkDeniedError ''external destination outside tailnet scope'')
      else if destination \<notin> {''tailnet'', ''external''} then Inl (NetworkDeniedError ''unsupported destination scope'')
      else (let t = or_str target purpose in
        rbind (egress_stack S (sp_root p) t) (\<lambda>stack.
        let d = resolve (network_action t) stack in
        if d_verdict d = Allow then Inr () else Inl (NetworkDeniedError (d_reason d)))))"

definition require_connector :: "surroundings \<Rightarrow> security_policy \<Rightarrow> string \<Rightarrow> string \<Rightarrow> exn + unit" where
  "require_connector S p name purpose =
     (let n = Prelude.lower (Prelude.strip name) in
      if n \<in> set (env_allowed_connectors (su_env S))
      then require_network S p (n @ '':'' @ purpose) n ''external''
      else if map_of (sp_connectors p) (u n) = Some True
      then require_network S p (n @ '':'' @ purpose) n ''external''
      else Inl (ConnectorDisabledError n))"

section \<open>What an outbound call needs\<close>

text \<open>The scope of \<open>PRIVACY.md\<close> covers the destination.\<close>

definition scope_covers :: "chars \<Rightarrow> string \<Rightarrow> bool" where
  "scope_covers scope destination \<longleftrightarrow>
     scope \<noteq> u ''device-only'' \<and> destination \<in> {''tailnet'', ''external''} \<and>
     (scope = u ''tailnet'' \<longrightarrow> destination = ''tailnet'')"

lemma require_network_ok:
  "require_network S p purpose target destination = Inr () \<longleftrightarrow>
     scope_covers (sp_scope p) destination \<and>
     (\<exists>stack. egress_stack S (sp_root p) (or_str target purpose) = Inr stack \<and>
        d_verdict (resolve (network_action (or_str target purpose)) stack) = Allow)"
  by (cases "egress_stack S (sp_root p) (or_str target purpose)")
     (auto simp: require_network_def scope_covers_def Let_def)

lemma load_privacy_scope: "snd (load_privacy U file) \<in> {u ''device-only'', u ''tailnet'', u ''external''}"
  by (simp add: load_privacy_def Let_def split: option.splits)

text \<open>The layers of a stack read from disk carry the names of the four files or of the runtime
  invariants, so the environment's grant is the only explicit one.\<close>

lemma mk_layer_name: "mk_layer n j = Inr (Some l) \<Longrightarrow> pl_name l = n"
  by (auto simp: mk_layer_def rbind_ok split: if_splits)

lemma stack_names:
  assumes "load_policy_stack F root groot = Inr stack" and "l \<in> set stack"
  shows "pl_name l \<in> {''runtime-invariant'', ''project-deny'', ''global-deny'', ''project-defaults'', ''global-defaults''}"
proof -
  obtain pd gd pf gf where n:
    "mk_layer ''project-deny'' (load_json F (workspace_file root [''policy'', ''deny.json''])) = Inr pd"
    "mk_layer ''global-deny'' (load_json F (join_path groot [''deny.json''])) = Inr gd"
    "mk_layer ''project-defaults'' (load_json F (workspace_file root [''policy'', ''defaults.json''])) = Inr pf"
    "mk_layer ''global-defaults'' (load_json F (join_path groot [''defaults.json''])) = Inr gf"
    and s: "stack = runtime_invariants # opt_list pd @ opt_list gd @ opt_list pf @ opt_list gf"
    using assms(1) unfolding load_policy_stack_def by (auto simp: rbind_ok)
  from assms(2) s consider "l = runtime_invariants" | "pd = Some l" | "gd = Some l" | "pf = Some l" | "gf = Some l"
    by (auto simp: opt_list_def split: option.splits)
  then have "pl_name l = ''runtime-invariant'' \<or> pl_name l = ''project-deny'' \<or> pl_name l = ''global-deny''
      \<or> pl_name l = ''project-defaults'' \<or> pl_name l = ''global-defaults''"
    using n by cases (simp_all only: runtime_invariants_def policy_layer.simps mk_layer_name simp_thms)
  then show ?thesis by (simp only: insert_iff empty_iff simp_thms)
qed

lemma layer_dict_grant:
  "layer_dict (stack @ [env_grant t]) n = (if n = ''explicit-user-grant'' then Some (env_grant t) else layer_dict stack n)"
  by (simp add: layer_dict_def env_grant_def)

lemma no_explicit_layer:
  assumes "load_policy_stack F root groot = Inr stack"
  shows "layer_dict stack ''explicit-user-grant'' = None"
proof (rule ccontr)
  assume "layer_dict stack ''explicit-user-grant'' \<noteq> None"
  then obtain l where "l \<in> set stack" "pl_name l = ''explicit-user-grant''"
    unfolding layer_dict_def by (auto dest!: map_of_SomeD)
  with stack_names [OF assms] show False by fastforce
qed

lemma resolve_denies_cong:
  "\<forall>n \<in> set ns. L n = L' n \<Longrightarrow> resolve_denies a L ns = resolve_denies a L' ns"
  by (induction ns) (auto split: option.splits)

lemma deny_applies_grant: "deny_applies a (stack @ [env_grant t]) \<longleftrightarrow> deny_applies a stack"
proof -
  have "resolve_denies a (layer_dict (stack @ [env_grant t])) DENY_LAYERS = resolve_denies a (layer_dict stack) DENY_LAYERS"
    by (rule resolve_denies_cong) (simp add: DENY_LAYERS_def layer_dict_grant)
  moreover have "invariant_denies a (layer_dict (stack @ [env_grant t])) = invariant_denies a (layer_dict stack)"
    by (simp add: invariant_denies_def layer_dict_grant)
  ultimately show ?thesis by (simp add: deny_applies_def)
qed

lemma user_grants_grant: "user_grants (network_action t) (layer_dict (stack @ [env_grant t]))"
  unfolding user_grants_def layer_dict_grant by (simp add: env_grant_def network_action_def target_allowed_def)

lemma resolve_allow_not_denied: "d_verdict (resolve a stack) = Allow \<Longrightarrow> \<not> deny_applies a stack"
  using resolve_deny_applies [of a stack] by auto

lemma resolve_with_grant:
  "d_verdict (resolve (network_action t) (stack @ [env_grant t])) = Allow \<longleftrightarrow> \<not> deny_applies (network_action t) stack"
  using resolve_not_denied [of "network_action t" "stack @ [env_grant t]"]
    resolve_allow_not_denied [of "network_action t" "stack @ [env_grant t]"]
  by (auto simp: deny_applies_grant user_grants_grant mk_decision_def)

lemma require_network_iff:
  "require_network S p purpose target destination = Inr () \<longleftrightarrow>
     scope_covers (sp_scope p) destination \<and>
     (\<exists>stack. load_policy_stack (su_files S) (sp_root p) (su_global S) = Inr stack \<and>
        (if env_allow_network (su_env S) then \<not> deny_applies (network_action (or_str target purpose)) stack
         else d_verdict (resolve (network_action (or_str target purpose)) stack) = Allow))"
  unfolding require_network_ok egress_stack_def
  by (auto simp: rbind_ok resolve_with_grant)

section \<open>Properties\<close>



text \<open>a connector is called only over the external scope, when \<open>SHARING_POLICY.md\<close> exists and
  enables it under its own lower-case name or the environment names it, and when no policy
  layer denies the network to it.\<close>

theorem connectors_are_opt_in:
  assumes "require_connector S (load_policy U root privacy sharing) name purpose = Inr ()"
  shows "snd (load_privacy U privacy) = u ''external''
     \<and> (Prelude.lower (Prelude.strip name) \<in> set (env_allowed_connectors (su_env S))
        \<or> sharing \<noteq> None \<and> map_of (load_sharing_policy U sharing) (u (Prelude.lower (Prelude.strip name))) = Some True)
     \<and> (\<exists>stack. load_policy_stack (su_files S) root (su_global S) = Inr stack
        \<and> \<not> deny_applies (network_action (or_str (Prelude.lower (Prelude.strip name))
             (Prelude.lower (Prelude.strip name) @ '':'' @ purpose))) stack)"
proof -
  let ?n = "Prelude.lower (Prelude.strip name)" and ?p = "load_policy U root privacy sharing"
  have p: "sp_scope ?p = snd (load_privacy U privacy)" "sp_root ?p = root" "sp_connectors ?p = load_sharing_policy U sharing"
    by (simp_all add: load_policy_def split: prod.splits)
  have net: "require_network S ?p (?n @ '':'' @ purpose) ?n ''external'' = Inr ()"
    and named: "?n \<in> set (env_allowed_connectors (su_env S)) \<or> map_of (sp_connectors ?p) (u ?n) = Some True"
    using assms by (auto simp: require_connector_def Let_def split: if_splits)
  have "snd (load_privacy U privacy) = u ''external''"
    using net load_privacy_scope [of U privacy] unfolding require_network_iff p scope_covers_def by auto
  moreover have "sharing \<noteq> None" if "map_of (load_sharing_policy U sharing) (u ?n) = Some True"
    using that by (cases sharing) (simp_all add: load_sharing_policy_def)
  moreover obtain stack where "load_policy_stack (su_files S) root (su_global S) = Inr stack"
    "\<not> deny_applies (network_action (or_str ?n (?n @ '':'' @ purpose))) stack"
    using net resolve_allow_not_denied unfolding require_network_iff p by (auto split: if_splits)
  ultimately show ?thesis using named unfolding p by blast
qed

end
