(* ===== verification/Egress_Examples.thy ===== *)
theory Egress_Examples
  imports Egress Redaction_Examples
begin

text \<open>
  The guards of \<open>Egress\<close> on concrete files: a tailnet scope opened by the environment, a
  connector enabled in \<open>SHARING_POLICY.md\<close>, and a connector that takes over the flag of the
  next one.
\<close>

definition newline :: string where
  "newline = [CHR 10]"

definition privacy_tailnet :: chars where
  "privacy_tailnet = u (''---'' @ newline @ ''network_scope: tailnet'' @ newline @ ''---'' @ newline)"

definition privacy_external :: chars where
  "privacy_external = u (''---'' @ newline @ ''network_scope: external'' @ newline @ ''---'' @ newline)"

definition sharing_github :: chars where
  "sharing_github = u (''  github:'' @ newline @ ''    enabled: true'' @ newline)"

definition open_env :: environ where
  "open_env = (\<lambda>k. if k = ''SHIROE_ALLOW_NETWORK'' then Some ''1'' else None)"

definition open_surroundings :: surroundings where
  "open_surroundings = \<lparr>su_files = (\<lambda>p. None), su_global = ''home'', su_env = open_env\<rparr>"

lemma tailnet_call: "require_network open_surroundings (load_policy ascii ''r'' (Some privacy_tailnet) None) ''ping'' ''node'' ''tailnet'' = Inr ()"
  by code_simp


lemma github_call:
  "require_connector open_surroundings (load_policy ascii ''r'' (Some privacy_external) (Some sharing_github)) '' GitHub'' ''pull'' = Inr ()"
  by code_simp

theorem connectors_are_opt_in_witness:
  "snd (load_privacy ascii (Some privacy_external)) = u ''external''
   \<and> map_of (load_sharing_policy ascii (Some sharing_github)) (u ''github'') = Some True"
proof -
  have n: "Prelude.lower (Prelude.strip '' GitHub'') = ''github''" by code_simp
  have "env_allowed_connectors (su_env open_surroundings) = []" by code_simp
  with connectors_are_opt_in [OF github_call] show ?thesis unfolding n by simp
qed

text \<open>A block without \<open>enabled\<close>, two blank lines and a second block: the four white-space characters
  of the pattern also match the two line ends and the indentation of the next name, so the first
  connector gets the flag of the second, and the second one none.\<close>

definition two_blocks :: chars where
  "two_blocks = u (''  slack:'' @ newline @ ''    note: x'' @ newline @ newline @ newline
     @ ''  github:'' @ newline @ ''    enabled: true'' @ newline)"

lemma flags_run_over: "load_sharing_policy ascii (Some two_blocks) = [(u ''slack'', True)]"
  by code_simp

end
