(* ===== verification/Audit_Trail.thy ===== *)
theory Audit_Trail
  imports Memory
begin

text \<open>
  The audit trail (\<open>audit/logger.py\<close>, \<open>audit/reports.py\<close>): one JSONL file per kind of event,
  appended to and read back. The directory is a map from file names to texts; a corrupt line is
  reported with the name of its file, without the directory.
\<close>

section \<open>Printing JSON\<close>

text \<open>\<open>json.dumps(x, sort_keys=True)\<close> and \<open>json.dumps(x, indent=2, sort_keys=True)\<close>.\<close>

fun dumps_spaced :: "json \<Rightarrow> string" where
  "dumps_spaced (JList xs) = ''['' @ join_with '', '' (map dumps_spaced xs) @ '']''"
| "dumps_spaced (JObj kvs) =
     ''{'' @ join_with '', '' (map (\<lambda>(k, t). quote True k @ '': '' @ t)
        (sort_key fst (map (\<lambda>(k, v). (k, dumps_spaced v)) kvs))) @ ''}''"
| "dumps_spaced j = dumps j"

definition line_end :: string where
  "line_end = [CHR 10]"

definition indented :: "nat \<Rightarrow> string" where
  "indented n = line_end @ replicate (2 * n) (CHR '' '')"

fun dumps_indent :: "nat \<Rightarrow> json \<Rightarrow> string" where
  "dumps_indent n (JList xs) =
     (if xs = [] then ''[]''
      else ''['' @ indented (Suc n) @ join_with ('','' @ indented (Suc n)) (map (dumps_indent (Suc n)) xs)
        @ indented n @ '']'')"
| "dumps_indent n (JObj kvs) =
     (if kvs = [] then ''{}''
      else ''{'' @ indented (Suc n) @ join_with ('','' @ indented (Suc n)) (map (\<lambda>(k, t). quote True k @ '': '' @ t)
        (sort_key fst (map (\<lambda>(k, v). (k, dumps_indent (Suc n) v)) kvs))) @ indented n @ ''}'')"
| "dumps_indent n j = dumps j"

text \<open>\<open>str.splitlines\<close> on the code points below 256.\<close>

definition ends_line :: "char \<Rightarrow> bool" where
  "ends_line c \<longleftrightarrow> (of_char c :: nat) \<in> {10, 11, 12, 13, 28, 29, 30, 133}"

fun text_lines :: "string \<Rightarrow> string \<Rightarrow> string list" where
  "text_lines acc [] = (if acc = [] then [] else [rev acc])"
| "text_lines acc [c] = (if ends_line c then [rev acc] else [rev (c # acc)])"
| "text_lines acc (c # d # cs) =
     (if c = CHR 13 \<and> d = CHR 10 then rev acc # text_lines [] cs
      else if ends_line c then rev acc # text_lines [] (d # cs)
      else text_lines (c # acc) (d # cs))"

section \<open>Writing\<close>

definition AUDIT_LOGS :: "(string \<times> string) list" where
  "AUDIT_LOGS =
     [(''memory_write'', ''writes.jsonl''), (''memory_read'', ''reads.jsonl''), (''route_decision'', ''routes.jsonl''),
      (''guard_failure'', ''guard_failures.jsonl''), (''redaction'', ''redactions.jsonl''),
      (''release_check'', ''releases.jsonl'')]"

record audit_event =
  ae_id :: string
  ae_type :: string
  ae_status :: string
  ae_actor :: string
  ae_file :: string
  ae_memory :: "string option"
  ae_guards :: "string list"
  ae_reason :: string
  ae_created :: string
  ae_payload :: obj

definition audit_dict :: "audit_event \<Rightarrow> obj" where
  "audit_dict e =
     [(''event_id'', JStr (ae_id e)), (''event_type'', JStr (ae_type e)), (''status'', JStr (ae_status e)),
      (''actor'', JStr (ae_actor e)), (''file'', JStr (ae_file e)), (''memory_id'', jopt (ae_memory e)),
      (''guards_run'', JList (map JStr (ae_guards e))), (''reason'', JStr (ae_reason e)),
      (''created_at'', JStr (ae_created e)), (''payload'', JObj (ae_payload e))]"

definition audit_event_id :: "rt \<Rightarrow> string \<Rightarrow> string \<Rightarrow> string option \<Rightarrow> string \<Rightarrow> string" where
  "audit_event_id R now ty memory reason =
     ''evt_'' @ map (\<lambda>c. if c = CHR ''-'' then CHR ''_'' else c) (take 10 now) @ ''_''
     @ take 10 (rt_hash R (now @ ''|'' @ ty @ ''|'' @ (case memory of None \<Rightarrow> ''None'' | Some m \<Rightarrow> m) @ ''|'' @ reason))"

type_synonym audit_dir = "string \<Rightarrow> string option"

definition ensure_logs :: "audit_dir \<Rightarrow> audit_dir" where
  "ensure_logs D = (\<lambda>f. if f \<in> snd ` set AUDIT_LOGS \<and> D f = None then Some [] else D f)"

definition audit_file :: "string \<Rightarrow> string" where
  "audit_file ty = (case map_of AUDIT_LOGS ty of None \<Rightarrow> ''guard_failures.jsonl'' | Some f \<Rightarrow> f)"

definition append_text :: "string \<Rightarrow> string \<Rightarrow> audit_dir \<Rightarrow> audit_dir" where
  "append_text f t D = D(f := Some ((case D f of None \<Rightarrow> [] | Some s \<Rightarrow> s) @ t))"

definition audit_append :: "rt \<Rightarrow> string \<Rightarrow> audit_event \<Rightarrow> audit_dir \<Rightarrow> audit_event \<times> audit_dir" where
  "audit_append R now e D =
     (let e' = e\<lparr>ae_id := audit_event_id R now (ae_type e) (ae_memory e) (ae_reason e), ae_created := now\<rparr>
      in (e', append_text (audit_file (ae_type e)) (dumps_spaced (JObj (audit_dict e')) @ line_end) (ensure_logs D)))"

text \<open>The keyword arguments of \<open>append\<close> with their defaults.\<close>

definition log_entry :: "string \<Rightarrow> string \<Rightarrow> string \<Rightarrow> string list \<Rightarrow> obj \<Rightarrow> audit_event" where
  "log_entry ty status reason guards payload =
     \<lparr>ae_id = [], ae_type = ty, ae_status = status, ae_actor = ''shiroe'', ae_file = [], ae_memory = None,
      ae_guards = guards, ae_reason = reason, ae_created = [], ae_payload = payload\<rparr>"

section \<open>Reading\<close>

definition AUDIT_FIELDS :: "string list" where
  "AUDIT_FIELDS = [''event_id'', ''event_type'', ''status'', ''actor'', ''file'', ''memory_id'', ''guards_run'', ''reason'',
     ''created_at'', ''payload'']"

text \<open>\<open>AuditEvent(**data)\<close> takes exactly the fields, of any type; the event is its \<open>to_dict\<close>.\<close>

definition audit_of_json :: "json \<Rightarrow> obj option" where
  "audit_of_json j = (case j of
     JObj kvs \<Rightarrow> if set (map fst kvs) = set AUDIT_FIELDS then Some (map (\<lambda>k. (k, oget kvs k)) AUDIT_FIELDS) else None
   | _ \<Rightarrow> None)"

datatype audit_line = Blank | Skipped | Event obj | Corrupt

definition audit_line_of :: "string \<Rightarrow> string \<Rightarrow> audit_line" where
  "audit_line_of since line =
     (if strip line = [] then Blank
      else (case Option.bind (loads line) audit_of_json of
          None \<Rightarrow> Corrupt
        | Some e \<Rightarrow>
            if since = [] then Event e
            else (case oget e ''created_at'' of
                JStr s \<Rightarrow> if take 10 s < since then Skipped else Event e
              | _ \<Rightarrow> Corrupt)))"

definition file_lines :: "audit_dir \<Rightarrow> string \<Rightarrow> string list" where
  "file_lines D f = text_lines [] (case D f of None \<Rightarrow> [] | Some t \<Rightarrow> t)"

definition read_file :: "string \<Rightarrow> audit_dir \<Rightarrow> string \<Rightarrow> (audit_line \<times> string) list" where
  "read_file since D f = map (\<lambda>(i, line). (audit_line_of since line, f @ '':'' @ nat_str i)) (enumerate 1 (file_lines D f))"

definition all_lines :: "string \<Rightarrow> audit_dir \<Rightarrow> (audit_line \<times> string) list" where
  "all_lines since D = concat (map (read_file since D) (map snd AUDIT_LOGS))"

definition events_in :: "(audit_line \<times> string) list \<Rightarrow> obj list" where
  "events_in ls = List.map_filter (\<lambda>(l, p). case l of Event e \<Rightarrow> Some e | _ \<Rightarrow> None) ls"

definition corrupt_in :: "(audit_line \<times> string) list \<Rightarrow> string list" where
  "corrupt_in ls = List.map_filter (\<lambda>(l, p). if l = Corrupt then Some p else None) ls"

text \<open>\<open>events.sort(key=created_at)\<close>, after the loop that catches: values of different types are not
  ordered. Keys that are all texts or all integers are; other types are refused here.\<close>

definition sort_events :: "obj list \<Rightarrow> exn + obj list" where
  "sort_events es =
     (let ks = map (\<lambda>e. oget e ''created_at'') es in
      if length es \<le> 1 then Inr es
      else if list_all (\<lambda>k. case k of JStr s \<Rightarrow> True | _ \<Rightarrow> False) ks
      then Inr (sort_key (\<lambda>e. py_str (oget e ''created_at'')) es)
      else if list_all (\<lambda>k. case k of JInt i \<Rightarrow> True | _ \<Rightarrow> False) ks
      then Inr (sort_key (\<lambda>e. case oget e ''created_at'' of JInt i \<Rightarrow> i | _ \<Rightarrow> 0) es)
      else Inl (TypeError ''not supported between instances''))"

definition read_audit_events :: "string \<Rightarrow> audit_dir \<Rightarrow> exn + obj list \<times> string list" where
  "read_audit_events since D =
     (let ls = all_lines since (ensure_logs D) in
      rbind (sort_events (events_in ls)) (\<lambda>es. Inr (es, corrupt_in ls)))"

section \<open>Reports\<close>

type_synonym counts = "((json \<times> json) \<times> nat) list"

definition hashable :: "json \<Rightarrow> bool" where
  "hashable j = (case j of JObj _ \<Rightarrow> False | JList _ \<Rightarrow> False | _ \<Rightarrow> True)"

definition event_key :: "obj \<Rightarrow> exn + json \<times> json" where
  "event_key e = (let t = oget e ''event_type''; s = oget e ''status'' in
     if hashable t \<and> hashable s then Inr (t, s) else Inl (TypeError ''unhashable''))"

fun count_in :: "counts \<Rightarrow> json \<times> json \<Rightarrow> counts" where
  "count_in [] k = [(k, 1)]"
| "count_in ((k', n) # cs) k = (if k' = k then (k', Suc n) # cs else (k', n) # count_in cs k)"

definition count_of :: "counts \<Rightarrow> string \<Rightarrow> string \<Rightarrow> nat" where
  "count_of cs t s = (case map_of cs (JStr t, JStr s) of None \<Rightarrow> 0 | Some n \<Rightarrow> n)"

definition count_type :: "counts \<Rightarrow> string \<Rightarrow> nat" where
  "count_type cs t = sum_list (map snd (filter (\<lambda>((t', s), n). t' = JStr t) cs))"

definition report_lines :: "string \<Rightarrow> bool \<Rightarrow> string list \<Rightarrow> counts \<Rightarrow> string list" where
  "report_lines since md corrupt cs =
     [if md then ''# Shiroe Audit Report'' else ''Shiroe Audit Report'', []]
     @ (if since = [] then [] else [''Since: '' @ since, []])
     @ [''Memory writes accepted: '' @ nat_str (count_of cs ''memory_write'' ''accepted''),
        ''Memory writes blocked: '' @ nat_str (count_of cs ''memory_write'' ''blocked''),
        ''Guard failures: '' @ nat_str (count_of cs ''guard_failure'' ''blocked''),
        ''Route decisions: '' @ nat_str (count_type cs ''route_decision''),
        ''Redactions: '' @ nat_str (count_type cs ''redaction''),
        ''Corrupt JSONL lines: '' @ nat_str (length corrupt)]
     @ (if corrupt = [] then [] else [[], ''Corrupt entries:''] @ map (\<lambda>c. ''- '' @ c) corrupt)"

definition audit_report :: "string \<Rightarrow> string \<Rightarrow> audit_dir \<Rightarrow> exn + string" where
  "audit_report since format D =
     rbind (read_audit_events since D) (\<lambda>(es, corrupt).
     rbind (rmap event_key es) (\<lambda>ks.
     let cs = foldl count_in [] ks in
     Inr (if format = ''json'' then dumps_indent 0 (JObj
            [(''events'', JList (map JObj es)), (''corrupt'', JList (map JStr corrupt)),
             (''counts'', JObj (foldl (\<lambda>acc ((t, s), n). oput acc (py_str t @ '':'' @ py_str s) (JInt (int n))) [] cs))])
          else join_with line_end (report_lines since (format = ''md'') corrupt cs) @ line_end)))"

section \<open>Nothing is lost\<close>

text \<open>Appending leaves the text before it in every file.\<close>

lemma audit_append_only:
  assumes "audit_append R now e D = (e', D')" "D f = Some t"
  shows "\<exists>more. D' f = Some (t @ more)"
  using assms unfolding audit_append_def Let_def append_text_def ensure_logs_def
  by (cases "f = audit_file (ae_type e)") auto

text \<open>Without a start date every line is blank, an event or reported as corrupt.\<close>

lemma lines_accounted:
  "length (events_in (all_lines [] D)) + length (corrupt_in (all_lines [] D))
    = length (filter (\<lambda>(l, p). l \<noteq> Blank) (all_lines [] D))"
proof -
  have "length (events_in ls) + length (corrupt_in ls) = length (filter (\<lambda>(l, p). l \<noteq> Blank) ls)"
    if "\<forall>(l, p) \<in> set ls. l \<noteq> Skipped" for ls :: "(audit_line \<times> string) list"
    using that
  proof (induction ls)
    case (Cons x ls)
    obtain l p where x: "x = (l, p)" by (cases x)
    show ?case
      using Cons by (cases l) (simp_all add: x events_in_def corrupt_in_def map_filter_simps)
  qed (simp add: events_in_def corrupt_in_def map_filter_simps)
  moreover have "\<forall>(l, p) \<in> set (all_lines [] D). l \<noteq> Skipped"
    by (auto simp: all_lines_def read_file_def audit_line_of_def split: option.splits if_splits)
  ultimately show ?thesis by blast
qed

end
