(* ===== verification/Views.thy ===== *)
theory Views
  imports Memory Audit_Trail
begin

text \<open>
  The generated Markdown views (\<open>storage/views.py\<close>, \<open>memory/views.py\<close>): each is a function of
  the tables. Rows that a statement does not order are taken in row order, groups in the order
  of their key.
\<close>

section \<open>Tables of a view\<close>

definition BANNER :: string where
  "BANNER = ''<!-- GENERATED BY SHIROE. SOURCE: memory/state/shiroe.sqlite. DO NOT EDIT DIRECTLY. -->'' @ line_end"

definition VIEW_NAMES :: "string list" where
  "VIEW_NAMES = [''hot'', ''decisions'', ''risks'', ''contradictions'', ''project-context'', ''capabilities'',
     ''active-graphs'', ''session-summary'']"

definition view_line :: "string list \<Rightarrow> string" where
  "view_line cells = ''| '' @ join_with '' | '' cells @ '' |''"

definition view_table :: "string list \<Rightarrow> string list list \<Rightarrow> string" where
  "view_table headers rows =
     (if rows = [] then ''_none_'' @ line_end
      else join_with line_end ([view_line headers, ''|'' @ join_with ''|'' (replicate (length headers) ''---'') @ ''|'']
        @ map view_line rows) @ line_end)"

text \<open>\<open>ORDER BY c DESC\<close>, \<open>ORDER BY c\<close>, and \<open>SELECT c, COUNT(*) ... GROUP BY c\<close>.\<close>

definition descending :: "string \<Rightarrow> row list \<Rightarrow> row list" where
  "descending c rs = rev (sort_key (\<lambda>r. stext (r c)) (rev rs))"

definition ascending :: "string \<Rightarrow> row list \<Rightarrow> row list" where
  "ascending c rs = sort_key (\<lambda>r. stext (r c)) rs"

definition group_counts :: "string \<Rightarrow> row list \<Rightarrow> (string \<times> nat) list" where
  "group_counts c rs = map (\<lambda>k. (k, length (filter (\<lambda>r. col_str r c = k) rs)))
     (sort (remdups (map (\<lambda>r. col_str r c) rs)))"

definition pick :: "string list \<Rightarrow> row list \<Rightarrow> string list list" where
  "pick cs rs = map (\<lambda>r. map (col_str r) cs) rs"

definition count_rows :: "(string \<times> nat) list \<Rightarrow> string list list" where
  "count_rows gs = map (\<lambda>(k, n). [k, nat_str n]) gs"

section \<open>The views\<close>

definition unarchived :: "db \<Rightarrow> row list" where
  "unarchived d = filter (\<lambda>r. r ''archived'' = SInt 0) (d ''memory_records'')"

definition of_kind :: "string \<Rightarrow> db \<Rightarrow> row list" where
  "of_kind k d = descending ''updated_at'' (filter (\<lambda>r. r ''kind'' = SText k) (unarchived d))"

definition view_hot :: "db \<Rightarrow> string" where
  "view_hot d = (let cs = [''id'', ''kind'', ''title'', ''status'', ''confidence''] in
     view_table cs (pick cs (take 20 (descending ''updated_at'' (unarchived d)))))"

definition view_decisions :: "db \<Rightarrow> string" where
  "view_decisions d = view_table [''id'', ''title'', ''claim'', ''grade'', ''updated_at'']
     (pick [''id'', ''title'', ''claim'', ''evidence_grade'', ''updated_at''] (of_kind ''decision'' d))"

definition view_risks :: "db \<Rightarrow> string" where
  "view_risks d = (let cs = [''id'', ''title'', ''summary'', ''confidence'', ''updated_at''] in
     view_table cs (pick cs (of_kind ''risk'' d)))"

definition view_contradictions :: "db \<Rightarrow> string" where
  "view_contradictions d = (let cs = [''id'', ''title'', ''claim'', ''status'', ''updated_at''] in
     view_table cs (pick cs (of_kind ''contradiction'' d)))"

definition view_project_context :: "db \<Rightarrow> string" where
  "view_project_context d = view_table [''kind'', ''count''] (count_rows (group_counts ''kind'' (unarchived d)))"

definition view_capabilities :: "db \<Rightarrow> string" where
  "view_capabilities d = view_table [''id'', ''name'', ''type'', ''lifecycle'', ''digest'']
     (pick [''id'', ''name'', ''type'', ''lifecycle'', ''current_digest''] (ascending ''lifecycle'' (ascending ''name'' (d ''capabilities''))))"

definition view_active_graphs :: "db \<Rightarrow> string" where
  "view_active_graphs d = view_table [''graph_id'', ''status'', ''version'', ''updated_at'']
     (pick [''id'', ''status'', ''version'', ''updated_at''] (take 5 (descending ''updated_at''
       (filter (\<lambda>r. r ''status'' \<in> {SText ''ready'', SText ''running'', SText ''paused''}) (d ''work_graphs'')))))"

definition view_session_summary :: "db \<Rightarrow> string" where
  "view_session_summary d = view_table [''event_type'', ''count'']
     (count_rows (take 20 (rev (sort_key snd (rev (group_counts ''event_type'' (d ''memory_events'')))))))"

text \<open>\<open>SELECT MAX(c)\<close> of a text column.\<close>

definition max_text :: "string \<Rightarrow> row list \<Rightarrow> string" where
  "max_text c rs = foldl max [] (map (\<lambda>r. stext (r c)) rs)"

definition view_stamp :: "db \<Rightarrow> string" where
  "view_stamp d = or_str (max_text ''timestamp'' (d ''memory_events''))
     (or_str (max_text ''updated_at'' (d ''memory_records'')) ''empty store'')"

definition view_bodies :: "(string \<times> (db \<Rightarrow> string)) list" where
  "view_bodies = [(''hot'', view_hot), (''decisions'', view_decisions), (''risks'', view_risks),
     (''contradictions'', view_contradictions), (''project-context'', view_project_context),
     (''capabilities'', view_capabilities), (''active-graphs'', view_active_graphs),
     (''session-summary'', view_session_summary)]"

definition render_view :: "string \<Rightarrow> db \<Rightarrow> string" where
  "render_view name d = BANNER @ line_end @ ''# '' @ name @ line_end @ line_end @ ''_state as of '' @ view_stamp d @ ''_''
     @ line_end @ line_end @ (case map_of view_bodies name of None \<Rightarrow> [] | Some f \<Rightarrow> f d)"

text \<open>The files below \<open>memory/views\<close>, in the order they are written.\<close>

definition render_all :: "db \<Rightarrow> (string \<times> string) list" where
  "render_all d = map (\<lambda>n. (n @ ''.md'', render_view n d)) VIEW_NAMES"

section \<open>Views of a rebuilt store\<close>

lemma fresh_deletes:
  assumes "fresh w0"
  shows "st_for (delete_all schema_tables) REPLAY_TABLES (wdb w0) = (Inr (), wdb w0)"
  by (rule replay_deletes [OF assms]) simp

text \<open>every view has a body; and when the log is replayed into an empty store, the views of the
  rebuilt store are, byte for byte, those of the store the log was written with.\<close>

theorem views_of_a_rebuilt_store:
  assumes "fresh w0" "emitted R w0 es w"
  shows "\<exists>rep d. replay_into R (wlog w) (wdb w0) = (Inr rep, d) \<and> render_all d = render_all (wdb w)
    \<and> map fst (render_all d) = map (\<lambda>n. n @ ''.md'') (map fst view_bodies)"
proof -
  from emitted_inv [OF assms(2,1)] have v: "verify_chain R (wlog w) = Inr ()"
    and l: "log_lines (wlog w) = map (\<lambda>e. dumps (JObj e)) es" and wf: "\<forall>e \<in> set es. wf_obj e"
    and f: "fold_events es (wdb w0) = (Inr (), wdb w)" by auto
  from replay_loop_ok [OF f, of 0 "[]" "[]"] obtain seen inc where
    "replay_loop (map (\<lambda>e. JObj (onorm e)) es) (0, [], []) (wdb w0) = (Inr (length es, seen, inc), wdb w)"
    by auto
  then have "\<exists>rep. replay_into R (wlog w) (wdb w0) = (Inr rep, wdb w)"
    using fresh_deletes [OF assms(1)]
    by (simp add: replay_into_def v l parsed_lines [OF wf] st_bind_def st_ret_def make_report_def
        del: dumps_with.simps)
  moreover have "map fst (render_all d) = map (\<lambda>n. n @ ''.md'') (map fst view_bodies)" for d
    by (simp add: render_all_def VIEW_NAMES_def view_bodies_def)
  ultimately show ?thesis by blast
qed

lemma views_of_a_rebuilt_store_witness:
  "\<exists>rep d. replay_into rt0 (wlog (snd (emit rt0 ''2025-03-04'' ''u'' memory_event world0))) (wdb world0) = (Inr rep, d)
    \<and> render_all d = render_all (wdb (snd (emit rt0 ''2025-03-04'' ''u'' memory_event world0)))
    \<and> map fst (render_all d) = map (\<lambda>n. n @ ''.md'') (map fst view_bodies)"
  by (rule views_of_a_rebuilt_store [OF fresh_world0 emitted_memory])

section \<open>Advice is not in the log\<close>

text \<open>No reducer writes the advice table, which a replay clears.\<close>

lemma fold_event_no_advice:
  "only_touches {''memory_events'', ''memory_sources'', ''memory_records'', ''approval_requests'',
     ''work_attempts'', ''work_edges'', ''work_nodes'', ''work_graphs'',
     ''capability_permissions'', ''capability_versions'', ''capabilities''} (fold_event env)"
  unfolding fold_event_def reducer_defs insert_or_replace_def update_by_def upsert_def Let_def
  by (intro touches) simp_all

end
