(* ===== verification/Advice.thy ===== *)
theory Advice
  imports Run_Props Views
begin

text \<open>
  The approval advisor (\<open>agents/approval_advisor.py\<close>): an approved capability is asked what it
  thinks of a pending approval, and its answer is stored as advice beside the request. The
  property is what the class promises: advice decides nothing.
\<close>

section \<open>Advice\<close>

record advice =
  ad_id :: string
  ad_approval :: string
  ad_capability :: string
  ad_recommendation :: string
  ad_rationale :: string
  ad_risks :: "string list"
  ad_gaps :: "string list"
  ad_conditions :: "string list"
  ad_created :: string

definition RECOMMENDATIONS :: "string set" where
  "RECOMMENDATIONS = {''approve'', ''reject'', ''revise'', ''defer''}"

text \<open>\<open>tuple(str(item) for item in payload.get(key) or ())\<close>.\<close>

definition str_items :: "obj \<Rightarrow> string \<Rightarrow> exn + string list" where
  "str_items p k = rbind (jiter (jor (oget p k) (JList []))) (\<lambda>xs. Inr (map py_str xs))"

definition advice_payload :: "json \<Rightarrow> exn + obj" where
  "advice_payload output = (case output of
     JStr s \<Rightarrow> rbind (load_or_raise s) as_obj
   | j \<Rightarrow> dict_of j)"

definition parse_advice :: "clock \<Rightarrow> string \<Rightarrow> string \<Rightarrow> json \<Rightarrow> exn + advice" where
  "parse_advice K i cid output =
     rbind (advice_payload output) (\<lambda>p.
     let rec = py_str (jor (oget p ''recommendation'') (JStr []));
         why = strip (py_str (jor (oget p ''rationale'') (JStr []))) in
     if rec \<notin> RECOMMENDATIONS then Inl (ValueError ''unknown approval recommendation'')
     else if why = [] then Inl (ValueError ''approval advice requires rationale'')
     else
       rbind (str_items p ''risks'') (\<lambda>risks.
       rbind (str_items p ''evidence_gaps'') (\<lambda>gaps.
       rbind (str_items p ''conditions'') (\<lambda>conds.
       Inr \<lparr>ad_id = ''adv_'' @ c_uid K, ad_approval = i, ad_capability = cid, ad_recommendation = rec,
         ad_rationale = why, ad_risks = risks, ad_gaps = gaps, ad_conditions = conds, ad_created = c_now K\<rparr>))))"

section \<open>What the capability is given\<close>

definition advisor_adapter :: "string \<Rightarrow> db \<Rightarrow> exn + string" where
  "advisor_adapter cid d = (case latest_version cid d of
     None \<Rightarrow> Inl (CapabilityGateError ''no manifest'')
   | Some r \<Rightarrow>
       rbind (rbind (load_or_raise (or_str (stext (r ''manifest'')) ''{}'')) as_obj) (\<lambda>m.
       rbind (as_obj (oget_or m ''entrypoint'' (JObj []))) (\<lambda>ep.
       if truthy (oget ep ''adapter'') then Inr (py_str (oget ep ''adapter''))
       else Inl (CapabilityGateError ''no executable adapter''))))"

definition advised_node :: "work_node \<Rightarrow> json" where
  "advised_node n = JObj [(''id'', JStr (wn_id n)), (''kind'', JStr (node_kind_value (wn_kind n))),
     (''objective'', JStr (wn_objective n)), (''requires'', JList (wn_requires n))]"

text \<open>A graph that cannot be read is passed without its nodes.\<close>

definition graph_context :: "string option \<Rightarrow> db \<Rightarrow> obj" where
  "graph_context gid d = (case gid of
     None \<Rightarrow> [(''graph_id'', JNull), (''nodes'', JList [])]
   | Some g \<Rightarrow>
       if g = [] then [(''graph_id'', JNull), (''nodes'', JList [])]
       else (case get_graph g d of
           Inl _ \<Rightarrow> [(''graph_id'', JStr g), (''nodes'', JList [])]
         | Inr w \<Rightarrow> [(''graph_id'', JStr (wg_id w)), (''objective'', JStr (wg_objective w)),
             (''nodes'', JList (map advised_node (wg_nodes w)))]))"

definition advised_approval :: "approval \<Rightarrow> obj" where
  "advised_approval a =
     [(''id'', JStr (ap_id a)), (''approval_type'', JStr (type_value (ap_type a))),
      (''requested_action'', JStr (ap_action a)), (''scope'', JObj (ap_scope a)), (''scope_digest'', JStr (ap_digest a)),
      (''reason'', JStr (ap_reason a)), (''risk'', JStr (ap_risk a)), (''graph_id'', jopt (ap_graph a)),
      (''node_id'', jopt (ap_node a)), (''status'', JStr (status_value (ap_status a)))]"

definition decision_brief :: "memory_record \<Rightarrow> json" where
  "decision_brief r = JObj [(''id'', JStr (mr_id r)), (''title'', JStr (mr_title r)), (''claim'', JStr (mr_claim r)),
     (''source_refs'', JList (map JStr (mr_sources r)))]"

definition advisor_payload :: "string \<Rightarrow> approval \<Rightarrow> db \<Rightarrow> exn + obj" where
  "advisor_payload pr a d =
     rbind (list_memory [''decision''] [''active''] False (Some 10) d) (\<lambda>ms.
     Inr [(''root'', JStr pr), (''autonomy_mode'', JStr ''policy-bound''), (''approval'', JObj (advised_approval a)),
       (''graph_context'', JObj (graph_context (ap_graph a) d)),
       (''verification'', JObj [(''latest'', JNull), (''status'', JStr ''not_run'')]),
       (''memory_decisions'', JList (map decision_brief ms)),
       (''instruction'', JStr ''Return JSON with recommendation, rationale, risks, evidence_gaps, conditions'')])"

definition advice_invocation :: "string \<Rightarrow> string \<Rightarrow> obj \<Rightarrow> invocation" where
  "advice_invocation adapter cid inputs =
     \<lparr>iv_adapter = adapter, iv_capability = cid, iv_action = ''approval_advice'', iv_inputs = inputs,
      iv_permissions = [(''authorize'', JBool False), (''write_approval_decision'', JBool False)], iv_timeout = 30\<rparr>"

section \<open>The advisor\<close>

definition advice_values :: "advice \<Rightarrow> (string \<times> json) list" where
  "advice_values a =
     [(''id'', JStr (ad_id a)), (''approval_id'', JStr (ad_approval a)), (''capability_id'', JStr (ad_capability a)),
      (''recommendation'', JStr (ad_recommendation a)), (''rationale'', JStr (ad_rationale a)),
      (''risks_json'', JStr (tags_text (ad_risks a))), (''evidence_gaps_json'', JStr (tags_text (ad_gaps a))),
      (''conditions_json'', JStr (tags_text (ad_conditions a))), (''created_at'', JStr (ad_created a))]"

text \<open>\<open>call\<close> is what the adapter answers; the adapters are those the gate resolves.\<close>

definition accept_result :: "adapter_result \<Rightarrow> exn + json" where
  "accept_result r = (if ar_ok r then Inr (ar_output r)
     else Inl (RuntimeError (or_opt (ar_error r) ''approval advisor capability failed'')))"

definition ask :: "rt \<Rightarrow> clock \<Rightarrow> clock \<Rightarrow> disk \<Rightarrow> adapters \<Rightarrow> (invocation \<Rightarrow> exn + adapter_result) \<Rightarrow> string
    \<Rightarrow> string \<Rightarrow> string \<Rightarrow> (world, advice) st" where
  "ask R K1 K2 D A call pr i cid =
     st_bind (assert_executable R K1 D A pr cid) (\<lambda>_.
     st_bind (get_approval R i) (\<lambda>a.
     st_bind (st_bind (st_get (\<lambda>w. advisor_adapter cid (wdb w))) st_lift) (\<lambda>name.
     st_bind (st_lift (resolve_adapter A name)) (\<lambda>_.
     st_bind (st_bind (st_get (\<lambda>w. advisor_payload pr a (wdb w))) st_lift) (\<lambda>inputs.
     st_bind (st_lift (rbind (call (advice_invocation name cid inputs)) accept_result)) (\<lambda>output.
     st_lift (parse_advice K2 i cid output)))))))"

definition advise :: "rt \<Rightarrow> clock \<Rightarrow> clock \<Rightarrow> disk \<Rightarrow> adapters \<Rightarrow> (invocation \<Rightarrow> exn + adapter_result) \<Rightarrow> string
    \<Rightarrow> string \<Rightarrow> string \<Rightarrow> (world, advice) st" where
  "advise R K1 K2 D A call pr i cid =
     st_bind (ask R K1 K2 D A call pr i cid) (\<lambda>adv.
     st_bind (apply_on (insert_row approval_advice_t (advice_values adv))) (\<lambda>_. st_ret adv))"

section \<open>Advice decides nothing\<close>

lemma keeps_capability_write:
  assumes "starts_with (ev_type e) ''capability.''" and "only_touches {''capabilities''} m"
    and "q \<notin> {''memory_events'', ''capabilities'', ''capability_versions'', ''capability_permissions''}"
  shows "keeps q (st_bind (append_event R now uid e) (\<lambda>env. st_bind (apply_on m) (\<lambda>_.
    st_bind (apply_on (apply_event env)) (\<lambda>_. st_ret x))))"
  by (intro keeps_event keeps_bind keeps_apply_on [OF assms(2)] keeps_pure keeps_apply_capability [OF _ assms(1)])
     (use assms(3) in auto)

text \<open>The gate writes, on drift, to the log and the tables of the registry, and nowhere else.\<close>

lemma keeps_gate:
  assumes "q \<notin> {''memory_events'', ''capabilities'', ''capability_versions'', ''capability_permissions''}"
  shows "keeps q (assert_executable R K D A pr cid)"
proof -
  have "keeps q (refresh_digest R K cid nd)" for nd
    unfolding refresh_digest_def Let_def
    by (intro keeps_bind keeps_get_row keeps_if keeps_pure keeps_capability_write touches_update_by assms) simp_all
  then have source: "keeps q (resolve_source R K D pr cid x)" for x
    unfolding resolve_source_def by (intro keeps_bind keeps_get_row keeps_if keeps_pure keeps_option)
  then show ?thesis
    unfolding assert_executable_def
    by (intro keeps_opened keeps_bind keeps_get_row keeps_pure source keeps_same_db adapter_executable_db)
qed

lemma touches_insert: "only_touches {tname t} (insert_row t vals)"
  unfolding only_touches_def insert_row_def insert_bound_def
  by (auto simp: st_bind_def st_lift_def Let_def split: sum.splits)

lemma keeps_ask:
  assumes "q \<notin> {''memory_events'', ''capabilities'', ''capability_versions'', ''capability_permissions''}"
  shows "keeps q (ask R K1 K2 D A call pr i cid)"
  unfolding ask_def by (intro keeps_bind keeps_gate [OF assms] keeps_get_approval keeps_pure)

lemma insert_outcome:
  assumes "insert_row t vals d = (r, d')"
  shows "case r of Inl e \<Rightarrow> d' = d
    | Inr u \<Rightarrow> \<exists>vs. bind_all vals = Inr vs \<and> d' = d(tname t := d (tname t) @ [fill_row t vs])"
  using assms unfolding insert_row_def insert_bound_def st_bind_def st_lift_def Let_def
  by (auto split: sum.splits if_splits)

lemma advice_stored:
  assumes "insert_row approval_advice_t (advice_values adv) d = (Inr u, d')"
  obtains row where "d' = d(''approval_advice'' := d ''approval_advice'' @ [row])"
    and "row ''approval_id'' = SText (ad_approval adv)" "row ''recommendation'' = SText (ad_recommendation adv)"
proof -
  obtain vs where b: "bind_all (advice_values adv) = Inr vs"
    and d: "d' = d(''approval_advice'' := d ''approval_advice'' @ [fill_row approval_advice_t vs])"
    using insert_outcome [OF assms] by (auto simp: tname_simps)
  have cols: "col_of approval_advice_t ''approval_id'' = Some (txn ''approval_id'')"
    "col_of approval_advice_t ''recommendation'' = Some (txn ''recommendation'')"
    by (simp_all add: col_of_def approval_advice_t_def tab_def tx_def txn_def)
  have vals: "map_of (advice_values adv) ''approval_id'' = Some (JStr (ad_approval adv))"
    "map_of (advice_values adv) ''recommendation'' = Some (JStr (ad_recommendation adv))"
    by (simp_all add: advice_values_def)
  have "fill_row approval_advice_t vs ''approval_id'' = SText (ad_approval adv)"
    "fill_row approval_advice_t vs ''recommendation'' = SText (ad_recommendation adv)"
    using map_of_bind_all [OF b vals(1)] map_of_bind_all [OF b vals(2)]
    by (auto simp: fill_row_def cols txn_def)
  then show thesis by (rule that [OF d])
qed

lemma parse_advice_ok:
  assumes "parse_advice K i cid output = Inr adv"
  shows "ad_approval adv = i \<and> ad_capability adv = cid \<and> ad_recommendation adv \<in> RECOMMENDATIONS
    \<and> ad_rationale adv \<noteq> []"
  using assms unfolding parse_advice_def Let_def by (auto simp: rbind_ok split: if_splits)

text \<open>What a lookup of a decision answers depends on the table of requests only.\<close>

lemma approval_lookup_same:
  assumes "wdb w ''approval_requests'' = wdb w' ''approval_requests''"
  shows "fst (get_approval R i w) = fst (get_approval R i w')"
    and "fst (find_latest_matching R g n k act scope w) = fst (find_latest_matching R g n k act scope w')"
proof -
  have row: "approval_row j (wdb w) = approval_row j (wdb w')" for j
    by (simp add: approval_row_def first_by_def select_by_def assms tname_simps)
  show get: "fst (get_approval R j w) = fst (get_approval R j w')" for j
    unfolding get_approval_def st_bind_def st_get_def
    by (cases "approval_row j (wdb w')") (simp_all add: row st_raise_def st_lift_def)
  have if_some: "fst (get_if R x w) = fst (get_if R x w')" for x
    using get [of "stext (the x ''id'')"] unfolding get_if_def st_bind_def st_ret_def
    by (cases x; cases "get_approval R (stext (the x ''id'')) w"; cases "get_approval R (stext (the x ''id'')) w'")
       (auto split: sum.splits)
  have find: "find_latest_matching R g n k act scope v = get_if R (latest ''requested_at''
      (filter (matches_request g n k act (scope_digest R scope)) (wdb v ''approval_requests''))) v" for v
    unfolding find_latest_matching_def st_get_def st_bind_def by (simp only: prod.case sum.case)
  show "fst (find_latest_matching R g n k act scope w) = fst (find_latest_matching R g n k act scope w')"
    unfolding find assms by (rule if_some)
qed

lemma ask_ok:
  assumes "ask R K1 K2 D A call pr i cid w = (Inr adv, w')"
  shows "approval_row i (wdb w) \<noteq> None \<and> ad_approval adv = i \<and> ad_capability adv = cid
    \<and> ad_recommendation adv \<in> RECOMMENDATIONS \<and> ad_rationale adv \<noteq> []"
proof -
  obtain w1 u w2 a out where g: "assert_executable R K1 D A pr cid w = (Inr u, w1)"
    and a: "get_approval R i w1 = (Inr a, w2)" and p: "parse_advice K2 i cid out = Inr adv"
    using assms unfolding ask_def by (auto simp: st_bind_ok st_lift_def st_get_def)
  have "keeps ''approval_requests'' (assert_executable R K1 D A pr cid)" by (rule keeps_gate) simp
  then have "wdb w1 ''approval_requests'' = wdb w ''approval_requests''"
    using g unfolding keeps_def by (metis snd_conv)
  then have "approval_row i (wdb w) = approval_row i (wdb w1)"
    by (simp add: approval_row_def first_by_def select_by_def tname_simps)
  moreover have "approval_row i (wdb w1) \<noteq> None"
    using a unfolding get_approval_def st_bind_def st_get_def
    by (cases "approval_row i (wdb w1)") (simp_all add: st_raise_def)
  ultimately show ?thesis using parse_advice_ok [OF p] by simp
qed


section \<open>Advice and the event log\<close>

lemma delete_loop_empties:
  "st_for (delete_all schema) ts d = (Inr u, d') \<Longrightarrow> p \<in> set ts \<or> d p = [] \<Longrightarrow> d' p = []"
proof (induction ts arbitrary: d)
  case (Cons t ts)
  have "snd (delete_all schema t d) p = [] \<or> p \<in> set ts" if "fst (delete_all schema t d) = Inr ()"
    using Cons.prems(2) that by (auto simp: delete_all_def split: if_splits)
  then show ?case
    using Cons.prems(1) Cons.IH by (auto split: prod.splits sum.splits)
qed simp

lemma replay_loop_advice:
  "replay_loop js tl' d = (r, d') \<Longrightarrow> d' ''approval_advice'' = d ''approval_advice''"
proof (induction js arbitrary: tl' d)
  case (Cons j js)
  have "snd (fold_event env d) ''approval_advice'' = d ''approval_advice''" for env
    using fold_event_no_advice [of env] by (simp add: only_touches_def)
  then show ?case
    using Cons by (auto split: json.splits prod.splits sum.splits) (metis snd_conv)+
qed simp

text \<open>advice is stored beside the event log: after a call that returned some, the table holds it,
  and any replay into that store that succeeds leaves it without advice.\<close>

theorem advice_does_not_survive_a_replay:
  assumes "advise R K1 K2 D A call pr i cid w = (Inr adv, w')"
    and "replay_into R L (wdb w') = (Inr rep, d)"
  shows "wdb w' ''approval_advice'' \<noteq> [] \<and> d ''approval_advice'' = []"
proof -
  obtain w1 u where "ask R K1 K2 D A call pr i cid w = (Inr adv, w1)"
    and a: "apply_on (insert_row approval_advice_t (advice_values adv)) w1 = (Inr u, w')"
    using assms(1) unfolding advise_def by (auto simp: st_bind_ok st_ret_def)
  then obtain d1 where i: "insert_row approval_advice_t (advice_values adv) (wdb w1) = (Inr u, d1)" "wdb w' = d1"
    by (auto simp: apply_on_def split: prod.splits)
  obtain d2 tl' where del: "st_for (delete_all schema_tables) REPLAY_TABLES (wdb w') = (Inr (), d2)"
    and loop: "replay_loop (parsed (log_lines L)) (0, [], []) d2 = (Inr tl', d)"
    using assms(2) unfolding replay_into_def by (auto simp: st_bind_ok st_ret_def split: sum.splits)
  have "d2 ''approval_advice'' = []"
    by (rule delete_loop_empties [OF del]) (simp add: REPLAY_TABLES_def)
  then have "d ''approval_advice'' = []" using replay_loop_advice [OF loop] by simp
  moreover have "wdb w' ''approval_advice'' \<noteq> []" by (rule advice_stored [OF i(1)]) (simp add: i(2))
  ultimately show ?thesis by simp
qed

end
