(* ===== verification/Advice_Examples.thy ===== *)
theory Advice_Examples
  imports Advice Approval_Examples
begin

text \<open>Advice of an approved tool on a pending push, and a replay into the store that holds it.\<close>

definition asked_world :: world where
  "asked_world = (tool_world ''approved'')\<lparr>wdb := (wdb (tool_world ''approved''))
     (''approval_requests'' := [push_row ActionApproval push_scope Pending])\<rparr>"

definition cautious :: "invocation \<Rightarrow> exn + adapter_result" where
  "cautious iv = Inr \<lparr>ar_ok = True,
     ar_output = JObj [(''recommendation'', JStr ''defer''), (''rationale'', JStr ''no tests''), (''risks'', JList [JStr ''main''])],
     ar_error = None, ar_exit = None, ar_stderr = None, ar_metadata = [], ar_usage = None\<rparr>"

lemma advice_runs: "\<not> isl (fst (advise rt0 clock0 clock0 tool_disk ADAPTERS cautious ''/p'' ''a'' ''t'' asked_world))"
  by code_simp

definition advised_world :: world where
  "advised_world = snd (advise rt0 clock0 clock0 tool_disk ADAPTERS cautious ''/p'' ''a'' ''t'' asked_world)"

lemma replay_runs: "\<not> isl (fst (replay_into rt0 log0 (wdb advised_world)))"
  by code_simp

theorem advice_does_not_survive_a_replay_witness:
  "wdb advised_world ''approval_advice'' \<noteq> [] \<and> snd (replay_into rt0 log0 (wdb advised_world)) ''approval_advice'' = []"
proof -
  obtain adv where a: "advise rt0 clock0 clock0 tool_disk ADAPTERS cautious ''/p'' ''a'' ''t'' asked_world = (Inr adv, advised_world)"
    using outcome [OF advice_runs] unfolding advised_world_def by (metis snd_conv)
  obtain rep d where r: "replay_into rt0 log0 (wdb advised_world) = (Inr rep, d)"
    using outcome [OF replay_runs] by blast
  from advice_does_not_survive_a_replay [OF a r] show ?thesis by (simp add: r)
qed

end
