(* ===== verification/Handoff.thy ===== *)
theory Handoff
  imports Audit_Trail Redaction
begin

text \<open>
  Handoff packets (\<open>handoff/compiler.py\<close>, \<open>handoff/schema.py\<close>): which memories may be
  exported to whom, what a packet holds, its Markdown and JSON views and the audit entry of a
  private export. The scrubber of one text is an argument (\<open>text_scrubber\<close> is the one of
  \<open>privacy.py\<close>); the state are the audit directory and the files written.
\<close>

section \<open>Scrubbing a text\<close>

text \<open>Provenance and text to the scrubbed text and the number of redactions.\<close>

type_synonym scrubber = "string \<Rightarrow> string \<Rightarrow> exn + string \<times> nat"

text \<open>\<open>scrub(text, root / 'REDACT.md', provenance=...)\<close>, on texts it leaves below code point 256.\<close>

definition text_scrubber :: "engine \<Rightarrow> chars option \<Rightarrow> scrubber" where
  "text_scrubber E redact_md prov t =
     rbind (Redaction.scrub E redact_md (u prov) (u t)) (\<lambda>(t', rep).
     Inr (map (\<lambda>c. char_of (nat c)) t', Redaction.rp_redacted rep))"

section \<open>What may be exported\<close>

definition TARGETS :: "string set" where
  "TARGETS = {''codex'', ''claude'', ''cursor'', ''github'', ''human''}"

definition PRIVACY_CLASSES :: "string set" where
  "PRIVACY_CLASSES = {''public'', ''internal'', ''confidential'', ''restricted''}"

definition allowed_classes :: "string \<Rightarrow> bool \<Rightarrow> string set" where
  "allowed_classes target include_private =
     (if include_private then {''public'', ''internal'', ''confidential''}
      else if target = ''human'' then {''public'', ''internal''}
      else {''public''})"

text \<open>An unknown class counts as internal.\<close>

definition export_class :: "memory_record \<Rightarrow> string" where
  "export_class r = (if mr_privacy r \<in> PRIVACY_CLASSES then mr_privacy r else ''internal'')"

fun bump_class :: "string \<Rightarrow> (string \<times> nat) list \<Rightarrow> (string \<times> nat) list" where
  "bump_class k [] = [(k, 1)]"
| "bump_class k ((k', n) # xs) = (if k' = k then (k', Suc n) # xs else (k', n) # bump_class k xs)"

definition filter_exportable :: "string \<Rightarrow> bool \<Rightarrow> memory_record list \<Rightarrow> memory_record list \<times> (string \<times> nat) list" where
  "filter_exportable target include_private rs =
     foldl (\<lambda>(ok, excluded) r. let p = export_class r in
         if p \<in> allowed_classes target include_private then (ok @ [r], excluded) else (ok, bump_class p excluded))
       ([], []) rs"

definition is_private :: "memory_record \<Rightarrow> bool" where
  "is_private r \<longleftrightarrow> mr_privacy r \<in> {''internal'', ''confidential''} \<or> mr_privacy r \<notin> PRIVACY_CLASSES"

definition private_export_entry :: "string \<Rightarrow> memory_record list \<Rightarrow> audit_event" where
  "private_export_entry target rs =
     (let ids = map mr_id (filter is_private rs) in
      log_entry ''redaction'' ''override''
        (''handoff compiled with include_private=True for target '' @ [CHR 0x27] @ target @ [CHR 0x27])
        [''handoff_privacy_filter'']
        [(''target'', JStr target), (''private_atoms_included'', JInt (int (length ids))),
         (''private_atom_ids'', JList (map JStr ids))])"

section \<open>Records, nodes, approvals\<close>

definition is_url :: "string \<Rightarrow> bool" where
  "is_url s \<longleftrightarrow> starts_with s ''http://'' \<or> starts_with s ''https://''"

definition record_brief :: "scrubber \<Rightarrow> memory_record \<Rightarrow> exn + obj \<times> nat" where
  "record_brief sc r =
     (let prov = (\<lambda>f. ''handoff/memory/'' @ mr_id r @ ''/'' @ f) in
      rbind (sc (prov ''claim'') (mr_claim r)) (\<lambda>(claim, n1).
      rbind (sc (prov ''summary'') (mr_summary r)) (\<lambda>(summary, n2).
      rbind (sc (prov ''source'') (case mr_sources r of [] \<Rightarrow> [] | s # ss \<Rightarrow> s)) (\<lambda>(source, n3).
      Inr ([(''id'', JStr (mr_id r)), (''kind'', JStr (mr_kind r)), (''title'', JStr (mr_title r)),
            (''claim'', JStr claim), (''summary'', JStr summary), (''source'', JStr source),
            (''source_refs'', JList (map JStr (mr_sources r))),
            (''source_type'', JStr (if source \<noteq> [] \<and> \<not> is_url source then ''file'' else ''user'')),
            (''evidence'', JStr (mr_grade r)), (''status'', JStr (mr_status r))], n1 + n2 + n3)))))"

definition packet_graph :: "string option \<Rightarrow> db \<Rightarrow> exn + obj" where
  "packet_graph gid d = (case gid of None \<Rightarrow> Inr [] | Some g \<Rightarrow>
     if g = [] then Inr []
     else rbind (get_graph g d) (\<lambda>w.
       Inr [(''id'', JStr (wg_id w)), (''objective'', JStr (wg_objective w)),
         (''status'', JStr (graph_status_value (wg_status w))), (''version'', JInt (wg_version w)),
         (''constraints'', JList (wg_constraints w)), (''success_criteria'', JList (wg_success w))]))"

definition open_status :: "sqlv \<Rightarrow> bool" where
  "open_status v \<longleftrightarrow> v \<notin> {SNull, SText ''completed'', SText ''skipped''}"

definition column_json :: "row \<Rightarrow> string \<Rightarrow> string \<Rightarrow> exn + json" where
  "column_json r c dflt = load_or_raise (or_str (stext (r c)) dflt)"

definition pending_node :: "row \<Rightarrow> exn + obj" where
  "pending_node r =
     rbind (column_json r ''requires_json'' ''[]'') (\<lambda>requires.
     rbind (column_json r ''metadata_json'' ''{}'') (\<lambda>metadata.
     rbind (py_int (col r ''state_version'')) (\<lambda>version.
     Inr [(''id'', col r ''id''), (''kind'', col r ''kind''), (''objective'', col r ''objective''), (''requires'', requires),
       (''risk'', col r ''risk''), (''approval_required'', JBool (truthy (col r ''approval_required''))),
       (''independent_review'', JBool (truthy (col r ''independent_review''))),
       (''evidence_required'', JBool (truthy (col r ''evidence_required''))), (''metadata'', metadata),
       (''status'', col r ''status''), (''state_version'', JInt version)])))"

definition pending_nodes :: "string option \<Rightarrow> db \<Rightarrow> exn + obj list" where
  "pending_nodes gid d = (case gid of None \<Rightarrow> Inr [] | Some g \<Rightarrow>
     if g = [] then Inr []
     else rmap pending_node (filter (\<lambda>r. open_status (r ''status'')) (node_rows g d)))"

definition pending_approval :: "row \<Rightarrow> exn + obj" where
  "pending_approval r =
     rbind (column_json r ''scope_json'' ''{}'') (\<lambda>scope.
     rbind (column_json r ''options_json'' ''[]'') (\<lambda>options.
     rbind (column_json r ''evidence_refs_json'' ''[]'') (\<lambda>refs.
     Inr [(''id'', col r ''id''), (''graph_id'', col r ''graph_id''), (''node_id'', col r ''node_id''),
       (''approval_type'', col r ''approval_type''), (''action_kind'', col r ''action_kind''),
       (''requested_action'', col r ''requested_action''), (''scope'', scope), (''scope_digest'', col r ''scope_digest''),
       (''reason'', col r ''reason''), (''options'', options), (''evidence_refs'', refs), (''risk'', col r ''risk''),
       (''requested_at'', col r ''requested_at'')])))"

text \<open>\<open>ORDER BY requested_at DESC, id ASC\<close>.\<close>

definition latest_requests :: "row list \<Rightarrow> row list" where
  "latest_requests rs = rev (sort_key (\<lambda>r. stext (r ''requested_at'')) (rev (sort_key (\<lambda>r. stext (r ''id'')) rs)))"

definition pending_approvals :: "string option \<Rightarrow> db \<Rightarrow> exn + obj list" where
  "pending_approvals gid d =
     rmap pending_approval (latest_requests (filter (\<lambda>r. r ''status'' = SText ''pending''
       \<and> (case gid of None \<Rightarrow> True | Some g \<Rightarrow> g = [] \<or> eq_val approval_requests_t ''graph_id'' (SText g) r))
       (d ''approval_requests'')))"

definition packet_checks :: "string option \<Rightarrow> db \<Rightarrow> obj list" where
  "packet_checks gid d = (case gid of None \<Rightarrow> [] | Some g \<Rightarrow>
     if g = [] then []
     else (let blocked = length (filter (\<lambda>r. r ''status'' = SText ''blocked'') (select_by work_nodes_t ''graph_id'' g d)) in
       [[(''name'', JStr ''work_graph_blockers''), (''status'', JStr (if blocked \<noteq> 0 then ''block'' else ''pass'')),
         (''blocked_nodes'', JInt (int blocked))]]))"

definition node_files :: "obj list \<Rightarrow> exn + string list" where
  "node_files nodes = rbind (rmap (\<lambda>n.
       rbind (as_obj (jor (oget n ''metadata'') (JObj []))) (\<lambda>m.
       case jor (oget m ''files'') (JList []) of
         JStr s \<Rightarrow> Inr [s]
       | raw \<Rightarrow> rbind (jiter raw) (\<lambda>xs. Inr (map py_str xs)))) nodes) (\<lambda>fs. Inr (concat fs))"

definition memory_files :: "obj list \<Rightarrow> string list" where
  "memory_files briefs = filter (\<lambda>s. s \<noteq> [] \<and> \<not> is_url s)
     (concat (map (\<lambda>b. case oget b ''source_refs'' of JList xs \<Rightarrow> map py_str xs | _ \<Rightarrow> []) briefs))"

section \<open>The packet\<close>

record packet =
  hp_schema :: string
  hp_graph :: obj
  hp_nodes :: "obj list"
  hp_approvals :: "obj list"
  hp_decisions :: "obj list"
  hp_risks :: "obj list"
  hp_checks :: "obj list"
  hp_files :: "string list"
  hp_next :: "json list"
  hp_at :: string

definition packet_dict :: "packet \<Rightarrow> obj" where
  "packet_dict p =
     [(''schema'', JStr (hp_schema p)), (''graph'', JObj (hp_graph p)), (''pending_nodes'', JList (map JObj (hp_nodes p))),
      (''pending_approvals'', JList (map JObj (hp_approvals p))), (''active_decisions'', JList (map JObj (hp_decisions p))),
      (''open_risks'', JList (map JObj (hp_risks p))), (''verification'', JList (map JObj (hp_checks p))),
      (''relevant_files'', JList (map JStr (hp_files p))), (''next_actions'', JList (hp_next p)),
      (''generated_at'', JStr (hp_at p))]"

definition briefs_of :: "scrubber \<Rightarrow> string set \<Rightarrow> memory_record list \<Rightarrow> exn + obj list" where
  "briefs_of sc kinds rs =
     rmap (\<lambda>r. rbind (record_brief sc r) (\<lambda>(b, n). Inr b)) (filter (\<lambda>r. mr_kind r \<in> kinds) rs)"

definition sorted_set :: "string list \<Rightarrow> string list" where
  "sorted_set xs = sort (remdups xs)"

definition next_actions :: "obj list \<Rightarrow> json list" where
  "next_actions nodes = (let xs = map (\<lambda>n. oget n ''objective'') (take 5 nodes) in
     if xs = [] then [JStr ''Run targeted verification before continuing.''] else xs)"

definition compile_packet :: "scrubber \<Rightarrow> db \<Rightarrow> string option \<Rightarrow> memory_record list \<Rightarrow> string \<Rightarrow> string \<Rightarrow> exn + packet" where
  "compile_packet sc d gid rs objective now =
     rbind (packet_graph gid d) (\<lambda>graph.
     rbind (pending_nodes gid d) (\<lambda>nodes.
     rbind (pending_approvals gid d) (\<lambda>approvals.
     rbind (briefs_of sc {''decision''} rs) (\<lambda>decisions.
     rbind (briefs_of sc {''risk'', ''contradiction''} rs) (\<lambda>risks.
     rbind (node_files nodes) (\<lambda>nfiles.
     Inr \<lparr>hp_schema = ''shiroe.handoff/v1'',
       hp_graph = (if graph = [] \<and> objective \<noteq> []
         then [(''id'', jopt gid), (''objective'', JStr objective), (''version'', JNull), (''status'', JStr ''unknown'')]
         else graph),
       hp_nodes = nodes, hp_approvals = approvals, hp_decisions = decisions, hp_risks = risks,
       hp_checks = packet_checks gid d,
       hp_files = sorted_set (nfiles @ memory_files decisions @ memory_files risks),
       hp_next = next_actions nodes, hp_at = now\<rparr>))))))"

definition legacy_payload :: "scrubber \<Rightarrow> string \<Rightarrow> string \<Rightarrow> memory_record list \<Rightarrow> packet \<Rightarrow> exn + obj \<times> nat" where
  "legacy_payload sc target objective rs p =
     rbind (rmap (\<lambda>r. rbind (record_brief sc r) (\<lambda>(b, n). Inr (mr_kind r, b, n))) rs) (\<lambda>bs.
     let by_type = (\<lambda>k. JList (map (\<lambda>(k', b, n). JObj b) (filter (\<lambda>(k', b, n). k' = k) bs)));
         files = hp_files p @ map (\<lambda>(k', b, n). py_str (oget b ''source''))
           (filter (\<lambda>(k', b, n). oget b ''source_type'' = JStr ''file'') bs);
         contradictions = length (filter (\<lambda>(k', b, n). k' = ''contradiction'') bs) in
     Inr ([(''current_state'', JObj [(''active_records'', JInt (int (length rs))), (''health_passed'', JBool (contradictions = 0)),
              (''open_contradictions'', JInt (int contradictions)), (''graph_id'', oget (hp_graph p) ''id''),
              (''pending_nodes'', JInt (int (length (hp_nodes p)))),
              (''pending_approvals'', JInt (int (length (hp_approvals p))))]),
           (''known_facts'', by_type ''fact''), (''active_decisions'', by_type ''decision''), (''open_risks'', by_type ''risk''),
           (''open_contradictions'', by_type ''contradiction''), (''relevant_files'', JList (map JStr (sorted_set files))),
           (''do_not_touch'', JList [JStr ''generated memory views are projections, not authority'']),
           (''next_steps'', JList (hp_next p)),
           (''verification_checklist'', JList [JStr ''python3 -m pytest -q'', JStr ''python3 -m shiroe doctor --json'']),
           (''memory_health_summary'', JObj [(''active_records'', JInt (int (length rs))),
              (''open_contradictions'', JInt (int contradictions)), (''target'', JStr target), (''objective'', JStr objective)])],
          sum_list (map (\<lambda>(k', b, n). n) bs)))"

section \<open>The Markdown view\<close>

fun first_true :: "json list \<Rightarrow> json" where
  "first_true [] = JNull"
| "first_true [x] = x"
| "first_true (x # y # ys) = (if truthy x then x else first_true (y # ys))"

definition item_line :: "json \<Rightarrow> string" where
  "item_line item = (case item of
     JObj o' \<Rightarrow>
       (let label = first_true (map (oget o') [''objective'', ''requested_action'', ''claim'', ''name'', ''id'']);
            detail = first_true [oget o' ''id'', oget o' ''status'', JStr []] in
        if truthy detail then ''- '' @ py_str label @ '' ('' @ py_str detail @ '')'' else ''- '' @ py_str label)
   | _ \<Rightarrow> ''- '' @ py_str item)"

definition section_lines :: "string \<Rightarrow> json list \<Rightarrow> string list" where
  "section_lines title items =
     [[], ''## '' @ title, []] @ (if items = [] then [''- none''] else map item_line items)"

definition title_case :: "string \<Rightarrow> string" where
  "title_case s = (case s of [] \<Rightarrow> [] | c # cs \<Rightarrow> Prelude.to_upper c # cs)"

definition render_markdown :: "string \<Rightarrow> string \<Rightarrow> packet \<Rightarrow> string" where
  "render_markdown target objective p =
     Prelude.rstrip (join_with line_end (
       [''# '' @ title_case target @ '' Handoff'', [], ''## Objective'', [], objective, [], ''## Graph'', [],
        ''- id: '' @ py_str (jor (oget (hp_graph p) ''id'') (JStr ''none'')),
        ''- status: '' @ py_str (jor (oget (hp_graph p) ''status'') (JStr ''unknown'')),
        ''- version: '' @ py_str (jor (oget (hp_graph p) ''version'') (JStr ''unknown''))]
       @ section_lines ''Pending Nodes'' (map JObj (hp_nodes p))
       @ section_lines ''Pending Approvals'' (map JObj (hp_approvals p))
       @ section_lines ''Active Decisions'' (map JObj (hp_decisions p))
       @ section_lines ''Open Risks'' (map JObj (hp_risks p))
       @ section_lines ''Verification'' (map JObj (hp_checks p))
       @ section_lines ''Relevant Files'' (map JStr (hp_files p))
       @ section_lines ''Next Actions'' (hp_next p))) @ line_end"

section \<open>Compiling a handoff\<close>

text \<open>The audit directory and the files written below \<open>memory/handoffs\<close>, the last one last; paths are
  relative to that directory.\<close>

record desk =
  dk_audit :: audit_dir
  dk_files :: "(string \<times> string) list"

definition log_private_export :: "rt \<Rightarrow> string \<Rightarrow> string \<Rightarrow> memory_record list \<Rightarrow> (desk, unit) st" where
  "log_private_export R now target rs s =
     (Inr (), s\<lparr>dk_audit := snd (audit_append R now (private_export_entry target rs) (dk_audit s))\<rparr>)"

definition write_artifact :: "string \<Rightarrow> string \<Rightarrow> (desk, unit) st" where
  "write_artifact name t s = (Inr (), s\<lparr>dk_files := dk_files s @ [(name, t)]\<rparr>)"

text \<open>The times of one run: of the audit entry, of the packet and of the file names.\<close>

record handoff_times =
  ht_audit :: string
  ht_packet :: string
  ht_files :: string

definition artifact_payload :: "string \<Rightarrow> string \<Rightarrow> packet \<Rightarrow> obj \<Rightarrow> obj" where
  "artifact_payload target objective p legacy =
     [(''target'', JStr target), (''objective'', JStr objective), (''schema'', JStr (hp_schema p)),
      (''packet'', JObj (packet_dict p))] @ legacy"

definition handoff_result :: "string \<Rightarrow> string \<Rightarrow> bool \<Rightarrow> (string \<times> nat) list \<Rightarrow> packet \<Rightarrow> obj \<Rightarrow> nat \<Rightarrow> obj" where
  "handoff_result target basename include_private excluded p legacy redactions =
     [(''target'', JStr target), (''markdown'', JStr (basename @ ''.md'')), (''json'', JStr (basename @ ''.json'')),
      (''packet'', JObj (packet_dict p)),
      (''privacy'', JObj [(''field_redactions'', JInt (int redactions)), (''include_private'', JBool include_private),
         (''excluded_atoms'', JObj (map (\<lambda>(k, n). (k, JInt (int n))) excluded))]),
      (''summary'', oget legacy ''current_state'')]"

text \<open>What is computed before anything is written: the clean objective, the packet, the older payload and
  the number of redacted fields.\<close>

definition prepare_handoff :: "scrubber \<Rightarrow> handoff_times \<Rightarrow> db \<Rightarrow> string \<Rightarrow> string option \<Rightarrow> string
    \<Rightarrow> memory_record list \<Rightarrow> exn + string \<times> packet \<times> obj \<times> nat" where
  "prepare_handoff sc T d target gid objective rs =
     rbind (sc (''handoff/'' @ target @ ''/objective'') objective) (\<lambda>(clean, n).
     rbind (compile_packet sc d gid rs clean (ht_packet T)) (\<lambda>p.
     rbind (legacy_payload sc target clean rs p) (\<lambda>(legacy, m).
     Inr (clean, p, legacy, n + m))))"

definition write_views :: "handoff_times \<Rightarrow> string \<Rightarrow> bool \<Rightarrow> (string \<times> nat) list
    \<Rightarrow> string \<times> packet \<times> obj \<times> nat \<Rightarrow> (desk, obj) st" where
  "write_views T target include_private excluded x = (case x of (clean, p, legacy, n) \<Rightarrow>
     let basename = target @ ''-'' @ ht_files T in
     st_bind (write_artifact (basename @ ''.md'') (render_markdown target clean p)) (\<lambda>_.
     st_bind (write_artifact (basename @ ''.json'')
        (dumps_indent 0 (JObj (artifact_payload target clean p legacy)) @ line_end)) (\<lambda>_.
     st_ret (handoff_result target basename include_private excluded p legacy n))))"

definition compile_handoff :: "rt \<Rightarrow> scrubber \<Rightarrow> handoff_times \<Rightarrow> db \<Rightarrow> string \<Rightarrow> string option \<Rightarrow> string \<Rightarrow> bool
    \<Rightarrow> (desk, obj) st" where
  "compile_handoff R sc T d target gid objective include_private =
     st_bind (if target \<in> TARGETS then st_ret () else st_raise (ValueError ''unsupported handoff target'')) (\<lambda>_.
     st_bind (st_lift (list_memory [] [''active''] False None d)) (\<lambda>all_records.
     let rs = fst (filter_exportable target include_private all_records);
         excluded = snd (filter_exportable target include_private all_records) in
     st_bind (if include_private then log_private_export R (ht_audit T) target rs else st_ret ()) (\<lambda>_.
     st_bind (st_lift (prepare_handoff sc T d target gid objective rs)) (\<lambda>x.
     write_views T target include_private excluded x))))"

section \<open>Only allowed memories, and every private export on record\<close>

lemma bump_get: "map_of (bump_class k xs) c = (if c = k then Some (Suc (case map_of xs k of None \<Rightarrow> 0 | Some n \<Rightarrow> n)) else map_of xs c)"
  by (induction xs) auto

definition counted :: "(string \<times> nat) list \<Rightarrow> string \<Rightarrow> nat" where
  "counted xs k = (case map_of xs k of None \<Rightarrow> 0 | Some n \<Rightarrow> n)"

lemma filter_exportable_eq:
  "fst (filter_exportable target priv rs) = filter (\<lambda>r. export_class r \<in> allowed_classes target priv) rs"
  "counted (snd (filter_exportable target priv rs)) k =
     length (filter (\<lambda>r. export_class r = k \<and> export_class r \<notin> allowed_classes target priv) rs)"
proof -
  let ?ok = "\<lambda>r. export_class r \<in> allowed_classes target priv"
  let ?step = "\<lambda>(ok, excluded) r. let p = export_class r in
         if p \<in> allowed_classes target priv then (ok @ [r], excluded) else (ok, bump_class p excluded)"
  have go: "fst (foldl ?step (a, x) rs) = a @ filter ?ok rs
    \<and> counted (snd (foldl ?step (a, x) rs)) k = counted x k + length (filter (\<lambda>r. export_class r = k \<and> \<not> ?ok r) rs)" for a x
  proof (induction rs arbitrary: a x)
    case (Cons r rs)
    show ?case
    proof (cases "?ok r")
      case True
      then show ?thesis using Cons.IH [of "a @ [r]" x] by (simp add: Let_def)
    next
      case False
      have "counted (bump_class (export_class r) x) k = counted x k + (if export_class r = k then 1 else 0)"
        by (simp add: counted_def bump_get)
      then show ?thesis using False Cons.IH [of a "bump_class (export_class r) x"] by (simp add: Let_def)
    qed
  qed simp
  show "fst (filter_exportable target priv rs) = filter ?ok rs"
    "counted (snd (filter_exportable target priv rs)) k = length (filter (\<lambda>r. export_class r = k \<and> \<not> ?ok r) rs)"
    using go [of "[]" "[]"] by (simp_all add: filter_exportable_def counted_def)
qed

lemma rmap_members:
  "rmap f xs = Inr ys \<Longrightarrow> y \<in> set ys \<Longrightarrow> \<exists>x \<in> set xs. f x = Inr y"
  by (induction xs arbitrary: ys) (auto split: sum.splits)

lemma rmap_onto:
  "rmap f xs = Inr ys \<Longrightarrow> x \<in> set xs \<Longrightarrow> \<exists>y \<in> set ys. f x = Inr y"
  by (induction xs arbitrary: ys) (auto split: sum.splits)

lemma briefs_of_members:
  assumes "briefs_of sc kinds rs = Inr bs" "b \<in> set bs"
  shows "\<exists>r \<in> set rs. mr_kind r \<in> kinds \<and> (\<exists>n. record_brief sc r = Inr (b, n))"
  using rmap_members [OF assms(1) [unfolded briefs_of_def] assms(2)] by (auto simp: rbind_ok)

lemma compile_packet_ok:
  assumes "compile_packet sc d gid rs objective now = Inr p"
  shows "briefs_of sc {''decision''} rs = Inr (hp_decisions p)
    \<and> briefs_of sc {''risk'', ''contradiction''} rs = Inr (hp_risks p)
    \<and> (\<exists>nfiles. hp_files p = sorted_set (nfiles @ memory_files (hp_decisions p) @ memory_files (hp_risks p)))"
  using assms unfolding compile_packet_def by (auto simp: rbind_ok simp del: append_assoc)

text \<open>What a run does: it writes both views after everything else succeeded, or no file.\<close>

definition export_logged :: "rt \<Rightarrow> handoff_times \<Rightarrow> string \<Rightarrow> bool \<Rightarrow> memory_record list \<Rightarrow> audit_dir \<Rightarrow> audit_dir" where
  "export_logged R T target priv rs D =
     (if priv then snd (audit_append R (ht_audit T) (private_export_entry target rs) D) else D)"

lemma write_views_ok:
  assumes "write_views T target priv ex (clean, p, legacy, n) s = (r, s')"
  shows "r = Inr (handoff_result target (target @ ''-'' @ ht_files T) priv ex p legacy n)
    \<and> dk_audit s' = dk_audit s
    \<and> (\<exists>md js. dk_files s' = dk_files s @ [(target @ ''-'' @ ht_files T @ ''.md'', md), (target @ ''-'' @ ht_files T @ ''.json'', js)])"
  using assms unfolding write_views_def Let_def st_bind_def write_artifact_def st_ret_def by auto

lemma compile_handoff_run:
  assumes "compile_handoff R sc T d target gid objective priv s = (r, s')"
  obtains e where "r = Inl e" "dk_files s' = dk_files s"
  | rs clean p legacy n out where "r = Inr out" "list_memory [] [''active''] False None d = Inr rs"
    "prepare_handoff sc T d target gid objective (fst (filter_exportable target priv rs)) = Inr (clean, p, legacy, n)"
    "out = handoff_result target (target @ ''-'' @ ht_files T) priv (snd (filter_exportable target priv rs)) p legacy n"
    "\<exists>md js. dk_files s' = dk_files s @ [(target @ ''-'' @ ht_files T @ ''.md'', md), (target @ ''-'' @ ht_files T @ ''.json'', js)]"
    "dk_audit s' = export_logged R T target priv (fst (filter_exportable target priv rs)) (dk_audit s)"
proof (cases "target \<in> TARGETS")
  case False
  then have "r = Inl (ValueError ''unsupported handoff target'')" "s' = s"
    using assms by (simp_all add: compile_handoff_def st_bind_def st_raise_def)
  then show thesis using that(1) by simp
next
  case target: True
  show thesis
  proof (cases "list_memory [] [''active''] False None d")
    case (Inl e)
    then have "r = Inl e" "s' = s"
      using assms target by (simp_all add: compile_handoff_def st_bind_def st_ret_def st_lift_def)
    then show thesis using that(1) by simp
  next
    case (Inr rs)
    define ok ex s1 where "ok = fst (filter_exportable target priv rs)" and "ex = snd (filter_exportable target priv rs)"
      and "s1 = s\<lparr>dk_audit := export_logged R T target priv ok (dk_audit s)\<rparr>"
    have logged: "(if priv then log_private_export R (ht_audit T) target (fst (filter_exportable target priv rs)) else st_ret ()) s = (Inr (), s1)"
      by (simp add: log_private_export_def s1_def ok_def export_logged_def st_ret_def)
    have run: "st_bind (st_lift (prepare_handoff sc T d target gid objective ok)) (write_views T target priv ex) s1 = (r, s')"
      using assms target Inr unfolding compile_handoff_def Let_def
      by (simp add: st_bind_def st_ret_def [of _ s] st_lift_def logged ok_def [symmetric] ex_def [symmetric])
    show thesis
    proof (cases "prepare_handoff sc T d target gid objective ok")
      case (Inl e)
      then have "r = Inl e" "s' = s1" using run by (simp_all add: st_bind_def st_lift_def)
      then show thesis using that(1) by (simp add: s1_def)
    next
      case prep: (Inr x)
      obtain clean p legacy n where x: "x = (clean, p, legacy, n)" by (metis prod_cases4)
      have "write_views T target priv ex (clean, p, legacy, n) s1 = (r, s')"
        using run prep x by (simp add: st_bind_def st_lift_def)
      from write_views_ok [OF this] show thesis
        using that(2) [OF _ Inr] prep x by (simp add: ok_def [symmetric] ex_def [symmetric] s1_def)
    qed
  qed
qed

lemma result_fields:
  "oget (handoff_result target base priv ex p legacy n) ''packet'' = JObj (packet_dict p)"
  "oget (handoff_result target base priv ex p legacy n) ''privacy'' = JObj [(''field_redactions'', JInt (int n)),
     (''include_private'', JBool priv), (''excluded_atoms'', JObj (map (\<lambda>(k, n). (k, JInt (int n))) ex))]"
  by (simp_all add: handoff_result_def oget_def)


text \<open>the briefs hold the source of a memory in its scrubbed form, yet the packet lists the
  references of the exported decisions as they are stored, so that what the scrubber would
  replace in them leaves with the packet.\<close>

theorem sources_leave_unscrubbed:
  assumes "compile_packet sc d gid rs objective now = Inr p" and "m \<in> set rs" "mr_kind m = ''decision''"
    and "ref \<in> set (mr_sources m)" "ref \<noteq> []" "\<not> is_url ref"
  shows "ref \<in> set (hp_files p)"
proof -
  note ok = compile_packet_ok [OF assms(1)]
  have "m \<in> set (filter (\<lambda>r. mr_kind r \<in> {''decision''}) rs)" using assms(2,3) by simp
  from rmap_onto [OF conjunct1 [OF ok, unfolded briefs_of_def] this]
  obtain b n where b: "b \<in> set (hp_decisions p)" "record_brief sc m = Inr (b, n)" by (auto simp: rbind_ok)
  have "oget b ''source_refs'' = JList (map JStr (mr_sources m))"
    using b(2) unfolding record_brief_def Let_def by (auto simp: rbind_ok oget_def)
  then have "ref \<in> set (memory_files (hp_decisions p))"
    using b(1) assms(4-6) unfolding memory_files_def by (auto simp: image_image intro!: bexI [of _ b])
  then show ?thesis using ok by (auto simp: sorted_set_def)
qed

end
