(* ===== verification/Handoff_Examples.thy ===== *)
theory Handoff_Examples
  imports Handoff
begin

text \<open>
  A handoff to another agent over two memories, a public decision and a restricted fact, for the
  properties of \<open>Handoff\<close>.
\<close>

definition memory_row :: "string \<Rightarrow> string \<Rightarrow> string \<Rightarrow> row" where
  "memory_row i kind privacy = (\<lambda>_. SNull)(''id'' := SText i, ''kind'' := SText kind, ''title'' := SText ''t'',
     ''claim'' := SText ''c'', ''status'' := SText ''active'', ''privacy_class'' := SText privacy, ''archived'' := SInt 0,
     ''authority'' := SReal ''0.5'', ''schema_version'' := SInt 2, ''updated_at'' := SText ''2025'', ''tags_json'' := SText ''[]'')"

definition source_row :: row where
  "source_row = (\<lambda>_. SNull)(''id'' := SText ''s'', ''memory_id'' := SText ''d'', ''source_ref'' := SText ''src/a.py'')"

definition two_memories :: db where
  "two_memories = (\<lambda>_. [])(''memory_records'' := [memory_row ''d'' ''decision'' ''public'', memory_row ''f'' ''fact'' ''restricted''],
     ''memory_sources'' := [source_row])"

definition plain_scrubber :: scrubber where
  "plain_scrubber prov t = Inr (t, 0)"

definition times0 :: handoff_times where
  "times0 = \<lparr>ht_audit = ''2025-03-04'', ht_packet = ''2025-03-04'', ht_files = ''20250304''\<rparr>"

definition desk0 :: desk where
  "desk0 = \<lparr>dk_audit = (\<lambda>f. None), dk_files = []\<rparr>"

lemma handoff_runs: "\<not> isl (fst (compile_handoff rt0 plain_scrubber times0 two_memories ''codex'' None ''go on'' False desk0))"
  by code_simp

lemma classes_of_two:
  "map_sum id (map export_class) (list_memory [] [''active''] False None two_memories) = Inr [''public'', ''restricted'']"
  by code_simp


definition decision_memory :: memory_record where
  "decision_memory = \<lparr>mr_id = ''d'', mr_kind = ''decision'', mr_title = ''t'', mr_claim = ''c'', mr_summary = [],
     mr_status = ''active'', mr_confidence = [], mr_grade = [], mr_privacy = ''public'', mr_authority = JFloat ''0.5'',
     mr_scope = [], mr_from = None, mr_until = None, mr_created = [], mr_updated = [], mr_owner = [], mr_version = 2,
     mr_archived = False, mr_sources = [''/home/ana/key''], mr_tags = []\<rparr>"

text \<open>A scrubber that hides the path.\<close>

definition hiding_scrubber :: scrubber where
  "hiding_scrubber prov t = Inr (if t = ''/home/ana/key'' then (''[PATH]'', 1) else (t, 0))"

lemma packet_runs: "\<not> isl (compile_packet hiding_scrubber (\<lambda>_. []) None [decision_memory] ''go on'' ''2025'')"
  by code_simp

theorem sources_leave_unscrubbed_witness:
  "\<exists>p. compile_packet hiding_scrubber (\<lambda>_. []) None [decision_memory] ''go on'' ''2025'' = Inr p \<and> ''/home/ana/key'' \<in> set (hp_files p)"
proof -
  obtain p where p: "compile_packet hiding_scrubber (\<lambda>_. []) None [decision_memory] ''go on'' ''2025'' = Inr p"
    using packet_runs by (cases "compile_packet hiding_scrubber (\<lambda>_. []) None [decision_memory] ''go on'' ''2025''") auto
  have "''/home/ana/key'' \<in> set (hp_files p)"
    by (rule sources_leave_unscrubbed [OF p, of decision_memory]) (simp_all add: decision_memory_def is_url_def)
  with p show ?thesis by blast
qed

end
