(* ===== verification/Project.thy ===== *)
theory Project
  imports Egress Handoff Views
begin

text \<open>
  The scaffold of a project and the compatibility writer (\<open>memory/core.py\<close>): discovery of the
  project root, the files \<open>shiroe init\<close> writes, and decisions written through the memory
  service with their views. The files of a project are a map from paths to texts; creating
  directories and the empty database is left out.
\<close>

section \<open>The project root\<close>

definition path_parent :: "string \<Rightarrow> string" where
  "path_parent p = (let q = parent_of p in if q = [] then ''/'' else q)"

definition path_child :: "string \<Rightarrow> string list \<Rightarrow> string" where
  "path_child p ns = join_with ''/'' ((if p = ''/'' then [] else p) # ns)"

fun find_root :: "(string \<Rightarrow> bool) \<Rightarrow> nat \<Rightarrow> string \<Rightarrow> string option" where
  "find_root ex 0 p = None"
| "find_root ex (Suc n) p =
     (if ex (path_child p [''config'', ''PROJECT.md'']) \<or> ex (path_child p [''AGENTS.md'']) then Some p
      else if path_parent p = p then None
      else find_root ex n (path_parent p))"

definition discover_project_root :: "(string \<Rightarrow> bool) \<Rightarrow> string \<Rightarrow> nat \<Rightarrow> string" where
  "discover_project_root ex start depth = (case find_root ex depth start of None \<Rightarrow> start | Some p \<Rightarrow> p)"

lemma find_root_marked:
  "find_root ex n p = Some q \<Longrightarrow> ex (path_child q [''config'', ''PROJECT.md'']) \<or> ex (path_child q [''AGENTS.md''])"
  by (induction ex n p rule: find_root.induct) (auto split: if_splits)

section \<open>The scaffold\<close>

record init_values =
  in_name :: string
  in_privacy :: string
  in_scope :: string

definition normalize_init_values :: "string option \<Rightarrow> string option \<Rightarrow> string option \<Rightarrow> init_values" where
  "normalize_init_values name privacy scope =
     \<lparr>in_name = or_opt name ''(unnamed)'', in_privacy = or_opt privacy ''abstract'', in_scope = or_opt scope ''device-only''\<rparr>"

definition lines_text :: "string list \<Rightarrow> chars" where
  "lines_text ls = u (concat (map (\<lambda>l. l @ line_end) ls))"

definition quoted :: "string \<Rightarrow> string" where
  "quoted s = CHR 0x22 # s @ [CHR 0x22]"

definition project_md :: "string \<Rightarrow> init_values \<Rightarrow> chars" where
  "project_md today v = lines_text
     [''---'', ''project_name: '' @ quoted (in_name v), ''project_root: '' @ quoted ''<discovered-at-runtime>'',
      ''created: '' @ quoted today, ''last_session: '' @ quoted [], ''---'', [], ''# '' @ in_name v, [],
      ''Project initialised via `shiroe init` on '' @ today @ ''.'']"

definition privacy_md :: "init_values \<Rightarrow> chars" where
  "privacy_md v = lines_text
     [''---'', ''mode: '' @ in_privacy v, ''network_scope: '' @ in_scope v, ''---'', [], ''# PRIVACY.md'', [],
      ''Mode: `'' @ in_privacy v @ ''`.'', ''Network scope: `'' @ in_scope v @ ''`.'']"

definition redact_md :: chars where
  "redact_md = lines_text
     [''---'', ''# Sensitive classes stripped before memory writes / external output.'', ''classes:'', ''  credentials:'',
      ''    enabled: true'', ''    patterns:'', ''      - api_keys'', ''      - oauth_tokens'', ''      - ssh_private_keys'',
      ''      - database_connection_strings'', ''  pii:'', ''    enabled: true'', ''  email:'', ''    enabled: true'',
      ''  internal_paths:'', ''    enabled: true'', ''---'', [], ''# REDACT.md'', [],
      ''Default redaction classes scaffolded by `shiroe init`. Tune per project.'']"

definition sharing_md :: chars where
  "sharing_md = u (''---'' @ line_end @ ''# Per-connector sharing allowlist '') @ [8212] @ lines_text
     ['' everything OFF by default.'', ''defaults:'', ''  read_project_context: false'', ''  write_external: false'',
      ''connectors: {}'', ''---'', [], ''# SHARING_POLICY.md'', [],
      ''No connectors enabled. Add entries under `connectors:` with'',
      ''`enabled: true` only after deliberate review.'']"

definition defaults_json :: chars where
  "defaults_json = lines_text [''{'' @ quoted ''allow'' @ '':['' @ quoted ''capability.invoke'' @ '','' @ quoted ''subprocess'' @ '']}'']"

type_synonym tree = "string \<Rightarrow> chars option"

definition write_missing :: "string \<Rightarrow> chars \<Rightarrow> tree \<Rightarrow> tree" where
  "write_missing p t F = (if F p = None then F(p := Some t) else F)"

definition project_path :: "string \<Rightarrow> string list \<Rightarrow> string" where
  "project_path r ps = join_path r ps"

definition scaffold_project :: "string \<Rightarrow> string \<Rightarrow> string option \<Rightarrow> string option \<Rightarrow> string option \<Rightarrow> tree \<Rightarrow> tree" where
  "scaffold_project today r name privacy scope F =
     (let v = normalize_init_values name privacy scope;
          F1 = F(project_path r [''config'', ''PROJECT.md''] := Some (project_md today v));
          F2 = write_missing (project_path r [''PRIVACY.md'']) (privacy_md v) F1;
          F3 = write_missing (project_path r [''REDACT.md'']) redact_md F2;
          F4 = write_missing (project_path r [''SHARING_POLICY.md'']) sharing_md F3
      in write_missing (project_path r [''.shiroe'', ''policy'', ''defaults.json'']) defaults_json F4)"

section \<open>Decisions\<close>

record write_result =
  wr_target :: string
  wr_title :: string
  wr_date :: string
  wr_redacted :: nat
  wr_hash :: string

definition decision_write :: "string \<Rightarrow> string \<Rightarrow> string \<Rightarrow> string \<Rightarrow> nat \<Rightarrow> memory_write" where
  "decision_write title why evidence grade n =
     \<lparr>mw_kind = ''decision'', mw_title = title, mw_claim = title, mw_sources = [or_str evidence ''user-input''], mw_grade = grade,
      mw_summary = ''Rationale: '' @ why @ ''; Evidence: '' @ or_str evidence ''(none provided)'' @ ''; pii_scrubbed='' @ nat_str n,
      mw_confidence = ''medium'', mw_privacy = ''internal'', mw_authority = JFloat ''0.0'', mw_scope = ''project'',
      mw_from = None, mw_until = None, mw_owner = ''shiroe'', mw_tags = []\<rparr>"

text \<open>The state: the world and the files below \<open>memory/views\<close>.\<close>

record station =
  sn_world :: world
  sn_views :: "(string \<times> string) list"

definition in_world :: "(world, 'a) st \<Rightarrow> (station, 'a) st" where
  "in_world m s = (case m (sn_world s) of (r, w) \<Rightarrow> (r, s\<lparr>sn_world := w\<rparr>))"

definition render_views :: "(station, unit) st" where
  "render_views s = (Inr (), s\<lparr>sn_views := render_all (wdb (sn_world s))\<rparr>)"

definition write_decision :: "rt \<Rightarrow> (string \<Rightarrow> string list) \<Rightarrow> scrubber \<Rightarrow> clock \<Rightarrow> (nat \<Rightarrow> string) \<Rightarrow> string \<Rightarrow> string \<Rightarrow> string
    \<Rightarrow> string \<Rightarrow> string \<Rightarrow> string \<Rightarrow> (station, write_result) st" where
  "write_decision R hits sc K U today r title why evidence grade =
     st_bind (st_lift (sc ''write-decision/title'' title)) (\<lambda>(t, n1).
     st_bind (st_lift (sc ''write-decision/why'' why)) (\<lambda>(y, n2).
     st_bind (st_lift (sc ''write-decision/evidence'' evidence)) (\<lambda>(e, n3).
     st_bind (in_world (opened (write_memory R hits K U (decision_write t y e grade (n1 + n2 + n3))))) (\<lambda>m.
     st_bind render_views (\<lambda>_.
     st_bind (st_bind (st_get (\<lambda>s. history (Some (mr_id m)) (wdb (sn_world s)))) st_lift) (\<lambda>es.
     st_ret \<lparr>wr_target = project_path r [''memory'', ''views'', ''decisions.md''], wr_title = t, wr_date = today,
       wr_redacted = n1 + n2 + n3, wr_hash = (if es = [] then [] else me_hash (last es))\<rparr>))))))"

section \<open>The scaffold keeps what there is\<close>

lemma write_missing_keeps: "F p = Some t \<Longrightarrow> write_missing q x F p = Some t"
  by (auto simp: write_missing_def)

lemma write_missing_other: "p \<noteq> q \<Longrightarrow> write_missing q x F p = F p"
  by (simp add: write_missing_def)

lemma project_path_inj: "project_path r ps = project_path r qs \<longleftrightarrow> join_with ''/'' ([] # ps) = join_with ''/'' ([] # qs)"
proof -
  have "join_path r xs = r @ join_with ''/'' ([] # xs)" for xs
    by (cases xs) (simp_all add: join_path_def)
  then show ?thesis by (simp add: project_path_def)
qed

text \<open>no file of the user is overwritten by the scaffold but \<open>config/PROJECT.md\<close>, which always is; and
  in a new project the four settings files are those of the chosen values.\<close>

theorem scaffold_keeps_user_files:
  "(\<forall>p t. F p = Some t \<and> p \<noteq> project_path r [''config'', ''PROJECT.md'']
      \<longrightarrow> scaffold_project today r name privacy scope F p = Some t)
   \<and> scaffold_project today r name privacy scope F (project_path r [''config'', ''PROJECT.md''])
       = Some (project_md today (normalize_init_values name privacy scope))
   \<and> (F (project_path r [''PRIVACY.md'']) = None \<longrightarrow>
       scaffold_project today r name privacy scope F (project_path r [''PRIVACY.md''])
         = Some (privacy_md (normalize_init_values name privacy scope)))"
proof -
  let ?P = "project_path r [''config'', ''PROJECT.md'']" and ?V = "project_path r [''PRIVACY.md'']"
  have ne: "?V \<noteq> ?P" "?V \<noteq> project_path r [''REDACT.md'']" "?V \<noteq> project_path r [''SHARING_POLICY.md'']"
    "?V \<noteq> project_path r [''.shiroe'', ''policy'', ''defaults.json'']"
    by (simp_all add: project_path_inj)
  have keep: "scaffold_project today r name privacy scope F p = Some t" if "F p = Some t" "p \<noteq> ?P" for p t
    unfolding scaffold_project_def Let_def by (intro write_missing_keeps) (simp add: that)
  have proj: "scaffold_project today r name privacy scope F ?P = Some (project_md today (normalize_init_values name privacy scope))"
    unfolding scaffold_project_def Let_def by (intro write_missing_keeps) simp
  have priv: "scaffold_project today r name privacy scope F ?V = Some (privacy_md (normalize_init_values name privacy scope))"
    if "F ?V = None"
    unfolding scaffold_project_def Let_def
    by (simp only: write_missing_other [OF ne(2)] write_missing_other [OF ne(3)] write_missing_other [OF ne(4)])
       (simp add: write_missing_def that ne)
  from keep proj priv show ?thesis by blast
qed

end
