(* ===== verification/Project_Examples.thy ===== *)
theory Project_Examples
  imports Project Egress_Examples
begin

text \<open>
  The files of the scaffold are read back by the parsers that use them. The tables are those of
  ASCII, which the files are written in but for one dash of a comment.
\<close>

lemma scaffolded_privacy:
  assumes "mode \<in> {''abstract'', ''exact''}" "scope \<in> {''device-only'', ''tailnet'', ''external''}"
  shows "load_privacy ascii (Some (privacy_md \<lparr>in_name = n, in_privacy = mode, in_scope = scope\<rparr>)) = (u mode, u scope)"
proof -
  have md: "privacy_md \<lparr>in_name = n, in_privacy = mode, in_scope = scope\<rparr> = privacy_md \<lparr>in_name = [], in_privacy = mode, in_scope = scope\<rparr>"
    by (simp add: privacy_md_def)
  have
    "load_privacy ascii (Some (privacy_md \<lparr>in_name = [], in_privacy = ''abstract'', in_scope = ''device-only''\<rparr>)) = (u ''abstract'', u ''device-only'')"
    "load_privacy ascii (Some (privacy_md \<lparr>in_name = [], in_privacy = ''abstract'', in_scope = ''tailnet''\<rparr>)) = (u ''abstract'', u ''tailnet'')"
    "load_privacy ascii (Some (privacy_md \<lparr>in_name = [], in_privacy = ''abstract'', in_scope = ''external''\<rparr>)) = (u ''abstract'', u ''external'')"
    "load_privacy ascii (Some (privacy_md \<lparr>in_name = [], in_privacy = ''exact'', in_scope = ''device-only''\<rparr>)) = (u ''exact'', u ''device-only'')"
    "load_privacy ascii (Some (privacy_md \<lparr>in_name = [], in_privacy = ''exact'', in_scope = ''tailnet''\<rparr>)) = (u ''exact'', u ''tailnet'')"
    "load_privacy ascii (Some (privacy_md \<lparr>in_name = [], in_privacy = ''exact'', in_scope = ''external''\<rparr>)) = (u ''exact'', u ''external'')"
    by code_simp+
  then show ?thesis using assms unfolding md by (elim insertE emptyE) simp_all
qed

lemma scaffolded_sharing: "load_sharing_policy ascii (Some sharing_md) = []"
  by code_simp

lemma scaffolded_redact:
  "map (\<lambda>c. (rc_name c, rc_enabled c)) (load_redact ascii (Some redact_md))
    = [(u ''credentials'', True), (u ''pii'', True), (u ''email'', True), (u ''internal_paths'', True)]"
  by code_simp

text \<open>in a new project the guards read exactly what \<open>shiroe init\<close> was told: the mode and the network
  scope, no connector, and the four redaction classes of the template, enabled.\<close>

theorem scaffolded_settings_are_honoured:
  assumes "mode \<in> {''abstract'', ''exact''}" "scope \<in> {''device-only'', ''tailnet'', ''external''}"
    and "F = scaffold_project today r name (Some mode) (Some scope) (\<lambda>p. None)"
  shows "load_policy ascii r (F (project_path r [''PRIVACY.md''])) (F (project_path r [''SHARING_POLICY.md'']))
      = \<lparr>sp_root = r, sp_mode = u mode, sp_scope = u scope, sp_connectors = []\<rparr>
    \<and> map (\<lambda>c. (rc_name c, rc_enabled c)) (load_redact ascii (F (project_path r [''REDACT.md''])))
      = [(u ''credentials'', True), (u ''pii'', True), (u ''email'', True), (u ''internal_paths'', True)]"
proof -
  have v: "normalize_init_values name (Some mode) (Some scope) = \<lparr>in_name = or_opt name ''(unnamed)'', in_privacy = mode, in_scope = scope\<rparr>"
    using assms(1,2) by (auto simp: normalize_init_values_def or_opt_def or_str_def)
  have ne: "project_path r [''PRIVACY.md''] \<noteq> project_path r [''config'', ''PROJECT.md'']"
    "project_path r [''REDACT.md''] \<noteq> project_path r [''config'', ''PROJECT.md'']"
    "project_path r [''SHARING_POLICY.md''] \<noteq> project_path r [''config'', ''PROJECT.md'']"
    "project_path r [''REDACT.md''] \<noteq> project_path r [''PRIVACY.md'']"
    "project_path r [''SHARING_POLICY.md''] \<noteq> project_path r [''PRIVACY.md'']"
    "project_path r [''SHARING_POLICY.md''] \<noteq> project_path r [''REDACT.md'']"
    "project_path r [''PRIVACY.md''] \<noteq> project_path r [''.shiroe'', ''policy'', ''defaults.json'']"
    "project_path r [''REDACT.md''] \<noteq> project_path r [''.shiroe'', ''policy'', ''defaults.json'']"
    "project_path r [''SHARING_POLICY.md''] \<noteq> project_path r [''.shiroe'', ''policy'', ''defaults.json'']"
    by (simp_all add: project_path_inj)
  have f: "F (project_path r [''PRIVACY.md'']) = Some (privacy_md \<lparr>in_name = or_opt name ''(unnamed)'', in_privacy = mode, in_scope = scope\<rparr>)"
    "F (project_path r [''SHARING_POLICY.md'']) = Some sharing_md" "F (project_path r [''REDACT.md'']) = Some redact_md"
    unfolding assms(3) scaffold_project_def Let_def v write_missing_def by (simp_all add: ne ne [symmetric])
  show ?thesis
    unfolding f load_policy_def scaffolded_privacy [OF assms(1,2)] scaffolded_sharing scaffolded_redact by simp
qed

theorem scaffolded_settings_are_honoured_witness:
  "load_policy ascii ''/p'' (scaffold_project ''2025-03-04'' ''/p'' None (Some ''exact'') (Some ''tailnet'') (\<lambda>p. None) (project_path ''/p'' [''PRIVACY.md'']))
     (scaffold_project ''2025-03-04'' ''/p'' None (Some ''exact'') (Some ''tailnet'') (\<lambda>p. None) (project_path ''/p'' [''SHARING_POLICY.md'']))
   = \<lparr>sp_root = ''/p'', sp_mode = u ''exact'', sp_scope = u ''tailnet'', sp_connectors = []\<rparr>"
  using scaffolded_settings_are_honoured [OF _ _ refl, of "''exact''" "''tailnet''" "''/p''" "''2025-03-04''" None] by simp

text \<open>The frontmatter is found only when the file begins with it: the settings of a \<open>PRIVACY.md\<close>
  that opens with a comment, as the one of the repository does, are not read.\<close>

lemma commented_privacy_is_ignored:
  "\<not> begins (u ''---'') t \<Longrightarrow> load_privacy U (Some t) = (u ''abstract'', u ''device-only'')"
  by (simp add: load_privacy_def yaml_frontmatter_def front_text_def Let_def)

end
