(* ===== verification/Transport.thy ===== *)
theory Transport
  imports Supervisor Egress
begin

text \<open>
  The tailnet transport (\<open>transport/tailscale.py\<close>) and the executor of work packages on a worker
  over it (\<open>transport/tailscale_ssh.py\<close>). Processes are answered by a function of their number
  and their arguments; starting one that exists can only end, time out or miss its executable.
\<close>

section \<open>Reading the tailscale client\<close>

text \<open>\<open>run\<close> is what the client answers to its arguments; \<open>command\<close> whether it was found.\<close>

record client =
  tc_command :: "string option"
  tc_run :: "string list \<Rightarrow> proc_result"

definition run_client :: "client \<Rightarrow> string list \<Rightarrow> bool \<Rightarrow> exn + int \<times> string" where
  "run_client C args must_succeed = (case tc_command C of
     None \<Rightarrow> Inl (RuntimeError ''tailscale CLI not found'')
   | Some c \<Rightarrow> (case tc_run C args of
       NoExecutable \<Rightarrow> Inl (RuntimeError ''tailscale CLI not found'')
     | TimedOut e \<Rightarrow> Inl (RuntimeError ''tailscale timed out'')
     | Exited code out err \<Rightarrow>
         if must_succeed \<and> code \<noteq> 0 then Inl (RuntimeError ''tailscale failed'') else Inr (code, out @ err)))"

definition client_json :: "client \<Rightarrow> string list \<Rightarrow> exn + obj" where
  "client_json C args =
     rbind (run_client C args True) (\<lambda>(code, raw). case loads raw of
         None \<Rightarrow> Inl (RuntimeError ''tailscale returned invalid JSON'')
       | Some (JObj o') \<Rightarrow> Inr o'
       | Some j \<Rightarrow> Inl (RuntimeError ''tailscale returned non-object JSON''))"

definition clean_host :: "string \<Rightarrow> string" where
  "clean_host h = rstrip_char (CHR ''.'') h"

definition str_or :: "json list \<Rightarrow> string" where
  "str_or js = (let hits = filter truthy js in case hits of [] \<Rightarrow> [] | j # _ \<Rightarrow> py_str j)"

record tailnet_peer =
  tp_host :: string
  tp_ip :: string
  tp_online :: bool
  tp_os :: string

record tailnet_status =
  ts_state :: string
  ts_peers :: "tailnet_peer list"
  ts_self :: string
  ts_host :: string

record tailnet_identity =
  ti_stable :: string
  ti_name :: string
  ti_login :: string
  ti_tags :: "string list"

definition peer_values :: "json \<Rightarrow> obj list" where
  "peer_values v = (let objs = List.map_filter (\<lambda>j. case j of JObj p \<Rightarrow> Some p | _ \<Rightarrow> None) in
     case v of JObj o' \<Rightarrow> objs (map snd o') | JList xs \<Rightarrow> objs xs | _ \<Rightarrow> [])"

definition peer_from_status :: "obj \<Rightarrow> tailnet_peer" where
  "peer_from_status p =
     \<lparr>tp_host = clean_host (str_or [oget p ''DNSName'', oget p ''HostName'', oget p ''ID'']),
      tp_ip = (case oget p ''TailscaleIPs'' of JList (ip # ips) \<Rightarrow> py_str ip | _ \<Rightarrow> []),
      tp_online = truthy (oget p ''Online''), tp_os = str_or [oget p ''OS'']\<rparr>"

definition obj_or_empty :: "json \<Rightarrow> obj" where
  "obj_or_empty j = (case j of JObj o' \<Rightarrow> o' | _ \<Rightarrow> [])"

definition discover_tailnet :: "client \<Rightarrow> exn + tailnet_status" where
  "discover_tailnet C =
     rbind (client_json C [''status'', ''--json'']) (\<lambda>data.
     let state = str_or [oget data ''BackendState'']; self = obj_or_empty (oget data ''Self'') in
     if state \<noteq> ''Running'' then Inl (RuntimeError ''tailscale BackendState'')
     else Inr \<lparr>ts_state = state, ts_peers = map peer_from_status (peer_values (oget data ''Peer'')),
       ts_self = str_or [oget self ''ID''], ts_host = clean_host (str_or [oget self ''DNSName'', oget self ''HostName''])\<rparr>)"

definition client_whois :: "client \<Rightarrow> string \<Rightarrow> exn + tailnet_identity" where
  "client_whois C source =
     rbind (client_json C [''whois'', ''--json'', source]) (\<lambda>data.
     case oget data ''Node'' of
       JObj node \<Rightarrow>
         (let stable = str_or [oget node ''ID'']; profile = obj_or_empty (oget data ''UserProfile'') in
          if stable = [] then Inl (RuntimeError ''tailscale whois JSON missing stable Node.ID'')
          else Inr \<lparr>ti_stable = stable, ti_name = clean_host (str_or [oget node ''Name'']),
            ti_login = str_or [oget profile ''LoginName''],
            ti_tags = (case oget node ''Tags'' of JList ts \<Rightarrow> map py_str ts | _ \<Rightarrow> [])\<rparr>)
     | _ \<Rightarrow> Inl (RuntimeError ''tailscale whois JSON missing Node object''))"

section \<open>Probing a host\<close>

definition path_type :: "string \<Rightarrow> string" where
  "path_type raw = (let t = Prelude.lower raw in
     if contains t ''peer relay'' then ''peer-relay''
     else if contains t ''derp'' \<or> contains t '' relay'' then ''relay''
     else if contains t ''pong'' then ''direct''
     else ''unreachable'')"

text \<open>The latency keeps the digits of the answer.\<close>

definition latency_pattern :: "tables \<Rightarrow> rx" where
  "latency_pattern U = (let digits = some_of (One Regex.digit) in
     cats [Word_Boundary, lit ''in'', some_of (One (Regex.is_space U)),
       Group 1 (Cat digits (optional (Cat (lit ''.'') digits))), lit ''ms'', Word_Boundary])"

definition latency_ms :: "tables \<Rightarrow> string \<Rightarrow> chars option" where
  "latency_ms U raw = (case matches U (latency_pattern U) (u raw) of [] \<Rightarrow> None | m # _ \<Rightarrow> Some (group_text 1 m))"

record probe_result =
  pb_host :: string
  pb_reachable :: bool
  pb_path :: string
  pb_latency :: "chars option"
  pb_raw :: string

definition probe_host :: "tables \<Rightarrow> client \<Rightarrow> string \<Rightarrow> exn + probe_result" where
  "probe_host U C host =
     rbind (run_client C [''ping'', ''--c'', ''1'', host] False) (\<lambda>(code, raw).
     Inr (if code \<noteq> 0
       then \<lparr>pb_host = host, pb_reachable = False, pb_path = ''unreachable'', pb_latency = None, pb_raw = raw\<rparr>
       else \<lparr>pb_host = host, pb_reachable = True, pb_path = path_type raw, pb_latency = latency_ms U raw, pb_raw = raw\<rparr>))"

section \<open>Executing a package\<close>

text \<open>
  The log of the project, the types of the events it accepted from this run, whether it refused
  one, and the processes started: their arguments and the text of the package file.
\<close>

record wire =
  wi_log :: log
  wi_tick :: nat
  wi_events :: "string list"
  wi_refused :: bool
  wi_runs :: "(string list \<times> string) list"

record carrier =
  ca_rt :: rt
  ca_stamp :: "nat \<Rightarrow> string \<times> string"
  ca_guards :: surroundings
  ca_policy :: security_policy
  ca_probe :: "string \<Rightarrow> exn + probe_result"
  ca_process :: "nat \<Rightarrow> string list \<Rightarrow> proc_result"
  ca_scp :: string
  ca_ssh :: string
  ca_tmp :: string

definition package_id_ok :: "string \<Rightarrow> bool" where
  "package_id_ok s \<longleftrightarrow> s \<noteq> [] \<and> length s \<le> 96
     \<and> list_all (\<lambda>c. Node_Store.is_alnum c \<or> c \<in> {CHR ''_'', CHR ''.'', CHR ''-''}) s \<and> \<not> contains s ''..''"

definition validate_worker :: "node_record \<Rightarrow> exn + unit" where
  "validate_worker n =
     rbind (rguard (nr_role n = ''worker'' \<and> nr_transport n = ''tailscale'' \<and> nr_trusted n)
       (RuntimeError ''remote execution requires a trusted tailscale worker node'')) (\<lambda>_.
     rbind (rguard (host_ok (nr_host n)) (RuntimeError ''invalid worker transport_host'')) (\<lambda>_.
     rguard (ssh_user_ok (nr_user n)) (RuntimeError ''invalid worker ssh_user'')))"

definition package_id :: "obj \<Rightarrow> exn + string" where
  "package_id p = (let i = str_or [oget p ''package_id''] in
     if package_id_ok i then Inr i else Inl (RuntimeError ''invalid package_id for remote inbox path''))"

definition remote_event :: "string \<Rightarrow> node_record \<Rightarrow> obj \<Rightarrow> string \<Rightarrow> obj \<Rightarrow> envelope" where
  "remote_event ty n p status extra =
     (event ty ''shiroe'' ([(''node_id'', JStr (nr_id n)), (''package_id'', oget p ''package_id''),
        (''package_digest'', oget p ''digest''), (''status'', JStr status)] @ extra))
       \<lparr>ev_target := Some (''node:'' @ nr_id n)\<rparr>"

definition emit_remote :: "carrier \<Rightarrow> node_record \<Rightarrow> obj \<Rightarrow> string \<Rightarrow> string \<Rightarrow> obj \<Rightarrow> (wire, unit) st" where
  "emit_remote B n p ty status extra s =
     (case append_log (ca_rt B) (fst (ca_stamp B (wi_tick s))) (snd (ca_stamp B (wi_tick s)))
         (remote_event ty n p status extra) (wi_log s) of
        (Inl e, L) \<Rightarrow> (Inl e, s\<lparr>wi_log := L, wi_tick := Suc (wi_tick s), wi_refused := True\<rparr>)
      | (Inr env, L) \<Rightarrow> (Inr (), s\<lparr>wi_log := L, wi_tick := Suc (wi_tick s), wi_events := wi_events s @ [ty]\<rparr>))"

definition finished :: "proc_result \<Rightarrow> exn + string" where
  "finished r = (case r of
     NoExecutable \<Rightarrow> Inl (RuntimeError ''remote transport executable not found'')
   | TimedOut e \<Rightarrow> Inl (RuntimeError ''remote transport command timed out'')
   | Exited code out err \<Rightarrow> if code \<noteq> 0 then Inl (RuntimeError ''remote transport command failed'') else Inr out)"

definition package_text :: "obj \<Rightarrow> string" where
  "package_text p = dumps (JObj p) @ [CHR 10]"

definition remote_process :: "carrier \<Rightarrow> obj \<Rightarrow> string list \<Rightarrow> (wire, string) st" where
  "remote_process B p argv s =
     (finished (ca_process B (length (wi_runs s)) argv), s\<lparr>wi_runs := wi_runs s @ [(argv, package_text p)]\<rparr>)"

definition remote_path :: "string \<Rightarrow> string" where
  "remote_path i = ''~/.shiroe/inbox/'' @ i @ ''.json''"

definition login :: "node_record \<Rightarrow> string" where
  "login n = nr_user n @ ''@'' @ nr_host n"

definition scp_argv :: "carrier \<Rightarrow> node_record \<Rightarrow> string \<Rightarrow> string list" where
  "scp_argv B n i = [ca_scp B, ca_tmp B @ ''/'' @ i @ ''.json'', login n @ '':'' @ remote_path i]"

definition ssh_argv :: "carrier \<Rightarrow> node_record \<Rightarrow> string \<Rightarrow> string list" where
  "ssh_argv B n i = [ca_ssh B, ''-o'', ''BatchMode=yes'', login n, ''shiroe'', ''node'', ''worker-run'', ''--package'',
     remote_path i, ''--json'']"

definition parse_receipt :: "string \<Rightarrow> exn + obj" where
  "parse_receipt raw = (case loads raw of
     None \<Rightarrow> Inl (RuntimeError ''remote worker returned invalid receipt JSON'')
   | Some (JObj o') \<Rightarrow> Inr o'
   | Some j \<Rightarrow> Inl (RuntimeError ''remote worker receipt must be a JSON object''))"

definition check_receipt :: "obj \<Rightarrow> string \<Rightarrow> exn + obj" where
  "check_receipt p raw =
     rbind (parse_receipt raw) (\<lambda>r.
     rbind (rguard (oget r ''schema'' = JStr ''shiroe.execution-receipt/v1'')
       (RuntimeError ''remote worker returned wrong receipt schema'')) (\<lambda>_.
     rbind (rguard (oget r ''package_digest'' = JStr (str_or [oget p ''digest'']))
       (RuntimeError ''remote worker receipt package digest mismatch'')) (\<lambda>_.
     Inr r)))"

text \<open>The result holds what the worker wrote; an error or an exit code of another type is kept as
  text or left out.\<close>

definition receipt_result :: "obj \<Rightarrow> exn + adapter_result" where
  "receipt_result r =
     rbind (dict_of (jor (oget r ''metadata'') (JObj []))) (\<lambda>md.
     Inr \<lparr>ar_ok = truthy (oget r ''ok''), ar_output = oget r ''output'',
       ar_error = (case oget r ''error'' of JNull \<Rightarrow> None | j \<Rightarrow> Some (py_str j)),
       ar_exit = (case oget r ''exit_code'' of JInt i \<Rightarrow> Some i | _ \<Rightarrow> None),
       ar_stderr = (case oget r ''stderr_tail'' of JNull \<Rightarrow> None | j \<Rightarrow> Some (py_str j)),
       ar_metadata = md, ar_usage = (case oget r ''usage'' of JObj us \<Rightarrow> Some us | _ \<Rightarrow> None)\<rparr>)"

text \<open>Before anything is sent: the node, the package id, the policy and the probe.\<close>

definition admit_remote :: "carrier \<Rightarrow> node_record \<Rightarrow> obj \<Rightarrow> (wire, string \<times> probe_result) st" where
  "admit_remote B n p =
     st_bind (st_lift (validate_worker n)) (\<lambda>_.
     st_bind (st_lift (package_id p)) (\<lambda>i.
     st_bind
       (case require_network (ca_guards B) (ca_policy B) ''remote worker execution'' (nr_host n) ''tailnet'' of
          Inl (NetworkDeniedError e) \<Rightarrow>
            st_bind (emit_remote B n p ''remote.execution_failed'' ''policy_denied'' []) (\<lambda>_. st_raise (RuntimeError e))
        | r \<Rightarrow> st_lift r) (\<lambda>_.
     st_bind (st_lift (ca_probe B (nr_host n))) (\<lambda>pb.
     if \<not> pb_reachable pb then
       st_bind (emit_remote B n p ''remote.execution_failed'' ''unreachable'' []) (\<lambda>_. st_raise (RuntimeError ''unreachable''))
     else st_ret (i, pb)))))"

definition transfer_package :: "carrier \<Rightarrow> node_record \<Rightarrow> obj \<Rightarrow> string \<Rightarrow> (wire, unit) st" where
  "transfer_package B n p i =
     st_bind (emit_remote B n p ''transfer.started'' ''started'' []) (\<lambda>_.
     st_bind (st_catch (\<lambda>e. True) (remote_process B p (scp_argv B n i))
       (\<lambda>e. st_bind (emit_remote B n p ''transfer.rejected'' ''failed'' []) (\<lambda>_. st_raise e))) (\<lambda>_.
     emit_remote B n p ''transfer.completed'' ''completed'' []))"

definition run_worker :: "carrier \<Rightarrow> node_record \<Rightarrow> obj \<Rightarrow> string \<Rightarrow> (wire, adapter_result) st" where
  "run_worker B n p i =
     st_bind (transfer_package B n p i) (\<lambda>_.
     st_bind (remote_process B p (ssh_argv B n i)) (\<lambda>out.
     st_bind (st_lift (check_receipt p out)) (\<lambda>receipt.
     st_bind (emit_remote B n p ''remote.execution_completed'' ''completed'' []) (\<lambda>_.
     st_lift (receipt_result receipt)))))"

definition execute_remote_package :: "carrier \<Rightarrow> node_record \<Rightarrow> obj \<Rightarrow> (wire, adapter_result) st" where
  "execute_remote_package B n p =
     st_bind (admit_remote B n p) (\<lambda>(i, pb).
     st_bind (emit_remote B n p ''remote.execution_started'' ''started'' [(''path_type'', JStr (pb_path pb))]) (\<lambda>_.
     st_catch (\<lambda>e. True) (run_worker B n p i)
       (\<lambda>e. st_bind (emit_remote B n p ''remote.execution_failed'' ''failed'' []) (\<lambda>_. st_raise e))))"

section \<open>What a run does\<close>

text \<open>
  The processes started and, unless the log refused an event, the events logged between two states.
  A refusal stays on record.
\<close>

definition goes :: "wire \<Rightarrow> wire \<Rightarrow> string list \<Rightarrow> (string list \<times> string) list \<Rightarrow> bool" where
  "goes s s' es rs \<longleftrightarrow> wi_runs s' = wi_runs s @ rs \<and> (wi_refused s \<longrightarrow> wi_refused s')
     \<and> (wi_refused s' \<or> wi_events s' = wi_events s @ es)"

lemma goes_refl: "goes s s [] []"
  by (simp add: goes_def)

lemma goes_trans: "goes s t es rs \<Longrightarrow> goes t s' fs qs \<Longrightarrow> goes s s' (es @ fs) (rs @ qs)"
  by (auto simp: goes_def)

lemma goes_refused: "goes s s' es rs \<Longrightarrow> wi_refused s' \<Longrightarrow> goes s s' fs rs"
  by (simp add: goes_def)

lemma emit_goes: "emit_remote B n p ty status extra s = (r, s') \<Longrightarrow> goes s s' [ty] [] \<and> (isl r \<longrightarrow> wi_refused s')"
  unfolding emit_remote_def goes_def by (auto split: prod.splits sum.splits)

lemma process_goes:
  "remote_process B p argv s = (r, s') \<Longrightarrow> goes s s' [] [(argv, package_text p)]"
  by (auto simp: remote_process_def goes_def)

text \<open>An event logged before an exception goes on.\<close>

lemma emit_raise_goes:
  "st_bind (emit_remote B n p ty status extra) (\<lambda>_. st_raise x) s = (r, s') \<Longrightarrow> isl r \<and> goes s s' [ty] []"
  by (auto simp: st_bind_def st_raise_def split: prod.splits sum.splits dest!: emit_goes)

text \<open>The transfer, for any event types: either its last event is the third and it succeeded, or it
  failed with the second, or an event was refused before anything was sent.\<close>

lemma transfer_shape:
  assumes "st_bind (emit_remote B n p a x0 y0) (\<lambda>_.
     st_bind (st_catch (\<lambda>e. True) (remote_process B p argv)
       (\<lambda>e. st_bind (emit_remote B n p b x1 y1) (\<lambda>_. st_raise e))) (\<lambda>_.
     emit_remote B n p c x2 y2)) s = (r, s')"
  shows "isl r \<and> wi_refused s' \<and> wi_runs s' = wi_runs s
    \<or> isl r \<and> goes s s' [a, b] [(argv, package_text p)]
    \<or> goes s s' [a, c] [(argv, package_text p)] \<and> (isl r \<longrightarrow> wi_refused s')"
proof -
  obtain r1 s1 where e1: "emit_remote B n p a x0 y0 s = (r1, s1)" by fastforce
  obtain r2 s2 where e2: "remote_process B p argv s1 = (r2, s2)" by fastforce
  from e1 have g1: "goes s s1 [a] []" "isl r1 \<Longrightarrow> wi_refused s1" by (auto dest: emit_goes)
  from e2 have g2: "goes s1 s2 [] [(argv, package_text p)]" by (rule process_goes)
  have g12: "goes s s2 [a] [(argv, package_text p)]" using goes_trans [OF g1(1) g2] by simp
  show ?thesis
  proof (cases r1)
    case (Inl e)
    with e1 assms have "r = Inl e" "s' = s1" by (auto simp: st_bind_def)
    with g1 Inl show ?thesis by (simp add: goes_def)
  next
    case ok1: (Inr u1)
    show ?thesis
    proof (cases r2)
      case (Inl e)
      then have "st_bind (emit_remote B n p b x1 y1) (\<lambda>_. st_raise e) s2 = (r, s') \<or>
        (\<exists>q. st_bind (emit_remote B n p b x1 y1) (\<lambda>_. st_raise e) s2 = (q, s') \<and> isl q \<and> isl r)"
        using assms e1 e2 ok1 by (auto simp: st_bind_def st_catch_def st_raise_def split: prod.splits sum.splits)
      then have "isl r" "goes s2 s' [b] []" by (auto dest: emit_raise_goes)
      with goes_trans [OF g12 this(2)] show ?thesis by simp
    next
      case (Inr out)
      then have "emit_remote B n p c x2 y2 s2 = (r, s')"
        using assms e1 e2 ok1 by (simp add: st_bind_def st_catch_def)
      then have "goes s2 s' [c] []" "isl r \<longrightarrow> wi_refused s'" by (auto dest: emit_goes)
      with goes_trans [OF g12 this(1)] show ?thesis by simp
    qed
  qed
qed

text \<open>The worker's part of a run: an outcome is the processes started and the events of each ending.\<close>

lemma worker_shape:
  assumes transfer: "T s = (rt, t)"
      "isl rt \<and> wi_refused t \<and> wi_runs t = wi_runs s
       \<or> isl rt \<and> goes s t [a, b] [x] \<or> goes s t [a, c] [x] \<and> (isl rt \<longrightarrow> wi_refused t)"
    and run: "st_bind T (\<lambda>_. st_bind (remote_process B p argv) (\<lambda>out. st_bind (st_lift (chk out)) (\<lambda>v.
       st_bind (emit_remote B n p d st0 y0) (\<lambda>_. st_lift (fin v))))) s = (r, s')"
  shows "isl r \<and> wi_refused s' \<and> (wi_runs s' = wi_runs s \<or> wi_runs s' = wi_runs s @ [x])
    \<or> isl r \<and> goes s s' [a, b] [x]
    \<or> isl r \<and> (goes s s' [a, c] [x, (argv, package_text p)] \<or> goes s s' [a, c, d] [x, (argv, package_text p)])
    \<or> (\<exists>v. r = Inr v) \<and> goes s s' [a, c, d] [x, (argv, package_text p)]"
proof (cases rt)
  case (Inl e)
  with run transfer(1) have "r = Inl e" "s' = t" by (auto simp: st_bind_def)
  with transfer(2) Inl show ?thesis by (auto simp: goes_def)
next
  case (Inr w)
  with transfer(2) have g: "goes s t [a, c] [x]" by auto
  obtain r1 s1 where e1: "remote_process B p argv t = (r1, s1)" by fastforce
  from goes_trans [OF g process_goes [OF e1]]
  have g1: "goes s s1 [a, c] [x, (argv, package_text p)]" by simp
  show ?thesis
  proof (cases "\<exists>out v. r1 = Inr out \<and> chk out = Inr v")
    case False
    with run transfer(1) Inr e1 have "isl r \<and> s' = s1"
      by (cases r1; cases "chk (projr r1)") (auto simp: st_bind_def st_lift_def)
    with g1 show ?thesis by simp
  next
    case True
    then obtain out v where v: "r1 = Inr out" "chk out = Inr v" by blast
    obtain r2 s2 where e2: "emit_remote B n p d st0 y0 s1 = (r2, s2)" by fastforce
    from emit_goes [OF e2] have "goes s1 s2 [d] []" by simp
    from goes_trans [OF g1 this] have g2: "goes s s2 [a, c, d] [x, (argv, package_text p)]" by simp
    have "s' = s2"
      using run transfer(1) Inr e1 e2 v by (auto simp: st_bind_def st_lift_def split: sum.splits)
    moreover have "isl r \<or> (\<exists>v. r = Inr v)" by (cases r) simp_all
    ultimately show ?thesis using g2 by auto
  qed
qed

text \<open>Admission: the caller's permission, or at most the event that ends the run.\<close>

lemma admit_remote_shape:
  assumes "admit_remote B n p s = (r, s')"
  shows "isl r \<and> (s' = s \<or> goes s s' [''remote.execution_failed''] []) \<or>
    s' = s \<and> (\<exists>i pb. r = Inr (i, pb) \<and> validate_worker n = Inr () \<and> package_id p = Inr i \<and> pb_reachable pb
      \<and> require_network (ca_guards B) (ca_policy B) ''remote worker execution'' (nr_host n) ''tailnet'' = Inr ()
      \<and> ca_probe B (nr_host n) = Inr pb)"
proof -
  have shape: "isl r \<and> (s' = s \<or> goes s s' [ty] []) \<or>
      s' = s \<and> (\<exists>i pb. r = Inr (i, pb) \<and> v = Inr () \<and> pid = Inr i \<and> pb_reachable pb \<and> net = Inr () \<and> probe = Inr pb)"
    if "st_bind (st_lift v) (\<lambda>_. st_bind (st_lift pid) (\<lambda>i.
       st_bind (case net of
          Inl (NetworkDeniedError e) \<Rightarrow> st_bind (emit_remote B n p ty denied []) (\<lambda>_. st_raise (RuntimeError e))
        | r \<Rightarrow> st_lift r) (\<lambda>_.
       st_bind (st_lift probe) (\<lambda>pb.
       if \<not> pb_reachable pb then st_bind (emit_remote B n p ty gone []) (\<lambda>_. st_raise x)
       else st_ret (i, pb))))) s = (r, s')"
    for ty denied gone x and v net :: "exn + unit" and pid :: "exn + string" and probe :: "exn + probe_result"
  proof -
    consider e where "v = Inl e" | e where "v = Inr ()" "pid = Inl e"
      | i e where "v = Inr ()" "pid = Inr i" "net = Inl e"
      | i e where "v = Inr ()" "pid = Inr i" "net = Inr ()" "probe = Inl e"
      | i pb where "v = Inr ()" "pid = Inr i" "net = Inr ()" "probe = Inr pb"
      by (metis (full_types) old.sum.exhaust old.unit.exhaust)
    then show ?thesis
    proof cases
      case 3
      show ?thesis
      proof (cases "\<exists>d. e = NetworkDeniedError d")
        case True
        then obtain d where "e = NetworkDeniedError d" by blast
        with 3 that have "st_bind (st_bind (emit_remote B n p ty denied []) (\<lambda>_. st_raise (RuntimeError d) :: (wire, unit) st))
            (\<lambda>_. st_bind (st_lift probe) (\<lambda>pb.
              if \<not> pb_reachable pb then st_bind (emit_remote B n p ty gone []) (\<lambda>_. st_raise x)
              else st_ret (i, pb))) s = (r, s')"
          by (simp add: st_bind_def [of "st_lift _"] st_lift_def)
        moreover obtain q t where q: "st_bind (emit_remote B n p ty denied [])
            (\<lambda>_. st_raise (RuntimeError d) :: (wire, unit) st) s = (q, t)"
          by fastforce
        moreover from emit_raise_goes [OF q] have "isl q" "goes s t [ty] []" by auto
        moreover from this(1) obtain e' where "q = Inl e'" by (cases q) simp_all
        ultimately show ?thesis by (auto simp: st_bind_Inl)
      next
        case False
        with 3 that show ?thesis by (cases e) (auto simp: st_bind_def st_lift_def)
      qed
    next
      case 5
      show ?thesis
      proof (cases "pb_reachable pb")
        case True
        with 5 that show ?thesis by (auto simp: st_bind_def st_lift_def st_ret_def)
      next
        case False
        with 5 that have "st_bind (emit_remote B n p ty gone []) (\<lambda>_. st_raise x) s = (r, s')"
          by (simp add: st_bind_def [of "st_lift _"] st_lift_def)
        from emit_raise_goes [OF this] show ?thesis by blast
      qed
    qed (use that in \<open>auto simp: st_bind_def st_lift_def\<close>)
  qed
  show ?thesis
    by (rule shape) (use assms in \<open>simp only: admit_remote_def\<close>)
qed

text \<open>The whole run after its admission.\<close>

lemma run_shape:
  assumes worker: "\<And>s r s'. W s = (r, s') \<Longrightarrow>
      isl r \<and> wi_refused s' \<and> (wi_runs s' = wi_runs s \<or> wi_runs s' = wi_runs s @ [x])
      \<or> isl r \<and> goes s s' [a, b] [x]
      \<or> isl r \<and> (goes s s' [a, c] [x, y] \<or> goes s s' [a, c, d] [x, y])
      \<or> (\<exists>v. r = Inr v) \<and> goes s s' [a, c, d] [x, y]"
    and run: "st_bind (emit_remote B n p f x0 y0) (\<lambda>_. st_catch (\<lambda>e. True) W
        (\<lambda>e. st_bind (emit_remote B n p g x1 y1) (\<lambda>_. st_raise e))) s = (r, s')"
  shows "wi_runs s' \<in> {wi_runs s, wi_runs s @ [x], wi_runs s @ [x, y]}"
    and "wi_refused s' \<or>
      isl r \<and> wi_events s' \<in> {wi_events s @ [f, a, b, g], wi_events s @ [f, a, c, g], wi_events s @ [f, a, c, d, g]} \<or>
      (\<exists>v. r = Inr v) \<and> wi_events s' = wi_events s @ [f, a, c, d]"
proof -
  obtain r1 s1 where e1: "emit_remote B n p f x0 y0 s = (r1, s1)" by fastforce
  from emit_goes [OF e1] have g1: "goes s s1 [f] []" "isl r1 \<longrightarrow> wi_refused s1" by auto
  obtain r2 s2 where e2: "W s1 = (r2, s2)" by fastforce
  have "wi_runs s' \<in> {wi_runs s, wi_runs s @ [x], wi_runs s @ [x, y]} \<and> (wi_refused s' \<or>
      isl r \<and> wi_events s' \<in> {wi_events s @ [f, a, b, g], wi_events s @ [f, a, c, g], wi_events s @ [f, a, c, d, g]} \<or>
      (\<exists>v. r = Inr v) \<and> wi_events s' = wi_events s @ [f, a, c, d])"
  proof (cases r1)
    case (Inl e)
    with run e1 have "s' = s1" by (auto simp: st_bind_def)
    with g1 Inl show ?thesis by (auto simp: goes_def)
  next
    case ok: (Inr w)
    show ?thesis
    proof (cases r2)
      case (Inl e)
      with run e1 e2 ok have "st_bind (emit_remote B n p g x1 y1) (\<lambda>_. st_raise e) s2 = (r, s')"
        by (simp add: st_bind_def [of "emit_remote B n p f x0 y0"] st_catch_def)
      from emit_raise_goes [OF this] have "isl r" "goes s2 s' [g] []" by auto
      with worker [OF e2] g1 Inl show ?thesis by (auto simp: goes_def)
    next
      case (Inr v)
      with run e1 e2 ok have "r = Inr v" "s' = s2"
        by (auto simp: st_bind_def st_catch_def)
      with worker [OF e2] g1 Inr show ?thesis by (auto simp: goes_def)
    qed
  qed
  then show "wi_runs s' \<in> {wi_runs s, wi_runs s @ [x], wi_runs s @ [x, y]}"
    and "wi_refused s' \<or>
      isl r \<and> wi_events s' \<in> {wi_events s @ [f, a, b, g], wi_events s @ [f, a, c, g], wi_events s @ [f, a, c, d, g]} \<or>
      (\<exists>v. r = Inr v) \<and> wi_events s' = wi_events s @ [f, a, c, d]"
    by blast+
qed

lemma run_worker_shape:
  assumes "run_worker B n p i s = (r, s')"
  shows "isl r \<and> wi_refused s' \<and> (wi_runs s' = wi_runs s \<or> wi_runs s' = wi_runs s @ [(scp_argv B n i, package_text p)])
    \<or> isl r \<and> goes s s' [''transfer.started'', ''transfer.rejected''] [(scp_argv B n i, package_text p)]
    \<or> isl r \<and> (goes s s' [''transfer.started'', ''transfer.completed'']
          [(scp_argv B n i, package_text p), (ssh_argv B n i, package_text p)]
        \<or> goes s s' [''transfer.started'', ''transfer.completed'', ''remote.execution_completed'']
          [(scp_argv B n i, package_text p), (ssh_argv B n i, package_text p)])
    \<or> (\<exists>v. r = Inr v) \<and> goes s s' [''transfer.started'', ''transfer.completed'', ''remote.execution_completed'']
        [(scp_argv B n i, package_text p), (ssh_argv B n i, package_text p)]"
proof -
  obtain rt t where t: "transfer_package B n p i s = (rt, t)" by fastforce
  show ?thesis
    by (rule worker_shape [where T = "transfer_package B n p i", OF t transfer_shape [OF t [unfolded transfer_package_def]]])
      (use assms in \<open>simp only: run_worker_def\<close>)
qed



end
