(* ===== verification/Lock.thy ===== *)
theory Lock
  imports Prelude Complex_Main
begin

text \<open>
  The advisory lock of the memory tree and the durable writes (\<open>lock.py\<close>). Writers are processes
  that run in any interleaving, may die at any moment, and hold \<open>memory/.lock\<close> while they are in
  their section. What a section does is the locale \<open>critical\<close>: any client whose section is a
  sequence of steps gets its serialisation from here.
\<close>

section \<open>Waiting for the lock\<close>

text \<open>Times are seconds, as exact numbers. \<open>parsed\<close> is \<open>float(raw)\<close>, \<open>None\<close> when it raises.\<close>

definition DEFAULT_LOCK_TIMEOUT :: rat where
  "DEFAULT_LOCK_TIMEOUT = 10"

definition BACKOFF_INITIAL :: rat where
  "BACKOFF_INITIAL = 1 / 100"

definition BACKOFF_MAX :: rat where
  "BACKOFF_MAX = 1 / 4"

definition default_lock_timeout :: "rat option \<Rightarrow> rat" where
  "default_lock_timeout parsed = (case parsed of None \<Rightarrow> DEFAULT_LOCK_TIMEOUT | Some v \<Rightarrow> max 0 v)"

definition lock_timeout :: "rat option \<Rightarrow> rat option \<Rightarrow> rat" where
  "lock_timeout parsed given = (case given of None \<Rightarrow> default_lock_timeout parsed | Some t \<Rightarrow> max 0 t)"

text \<open>The variables of one \<open>acquire\<close>, the time its sleep ends and the number of its misses.\<close>

record lock_wait =
  wt_timeout :: rat
  wt_deadline :: rat
  wt_backoff :: rat
  wt_first :: bool
  wt_wake :: rat
  wt_misses :: nat

definition start_wait :: "rat \<Rightarrow> rat \<Rightarrow> lock_wait" where
  "start_wait timeout now = \<lparr>wt_timeout = timeout, wt_deadline = now + timeout, wt_backoff = BACKOFF_INITIAL, wt_first = True,
     wt_wake = now, wt_misses = 0\<rparr>"

definition next_backoff :: "rat \<Rightarrow> rat \<Rightarrow> rat" where
  "next_backoff b draw = (let b1 = min (b * 2) BACKOFF_MAX * (1 / 2 + draw) in min (max b1 BACKOFF_INITIAL) BACKOFF_MAX)"

text \<open>\<open>FileExistsError\<close>: \<open>None\<close> is \<open>LockError\<close>. The clock is read twice and the draw is \<open>random.random()\<close>.\<close>

definition missed :: "rat \<Rightarrow> rat \<Rightarrow> rat \<Rightarrow> lock_wait \<Rightarrow> lock_wait option" where
  "missed now now' draw w =
     (if wt_first w \<and> wt_timeout w = 0 then None
      else if wt_deadline w \<le> now then None
      else Some (w\<lparr>wt_first := False, wt_wake := now' + min (wt_backoff w) (max 0 (wt_deadline w - now')),
        wt_backoff := next_backoff (wt_backoff w) draw, wt_misses := Suc (wt_misses w)\<rparr>))"

text \<open>What a wait in progress satisfies: the backoff stays within its limits, every miss but the last was
  followed by at least the initial backoff, and the misses fit the timeout.\<close>

definition wait_ok :: "lock_wait \<Rightarrow> bool" where
  "wait_ok w \<longleftrightarrow> 0 \<le> wt_timeout w \<and> BACKOFF_INITIAL \<le> wt_backoff w \<and> wt_backoff w \<le> BACKOFF_MAX
     \<and> min (wt_deadline w - wt_timeout w + of_nat (wt_misses w) * BACKOFF_INITIAL) (wt_deadline w) \<le> wt_wake w
     \<and> (wt_misses w \<noteq> 0 \<longrightarrow> of_nat (wt_misses w - 1) * BACKOFF_INITIAL < wt_timeout w)"

lemma start_wait_ok: "0 \<le> t \<Longrightarrow> wait_ok (start_wait t now)"
  by (simp add: wait_ok_def start_wait_def BACKOFF_INITIAL_def BACKOFF_MAX_def)

lemma next_backoff_bounds: "BACKOFF_INITIAL \<le> next_backoff b r" "next_backoff b r \<le> BACKOFF_MAX"
  by (simp_all add: next_backoff_def Let_def BACKOFF_INITIAL_def BACKOFF_MAX_def)

lemma missed_ok:
  assumes "wait_ok w" "missed now now' r w = Some w'" "wt_wake w \<le> now" "now \<le> now'"
  shows "wait_ok w'"
proof -
  let ?I = BACKOFF_INITIAL and ?n = "of_nat (wt_misses w) :: rat" and ?s = "wt_deadline w - wt_timeout w"
  from assms(2) have late: "now < wt_deadline w" and
    w': "w' = w\<lparr>wt_first := False, wt_wake := now' + min (wt_backoff w) (max 0 (wt_deadline w - now')),
        wt_backoff := next_backoff (wt_backoff w) r, wt_misses := Suc (wt_misses w)\<rparr>"
    by (auto simp: missed_def split: if_splits)
  from assms(1,3) late have n: "?s + ?n * ?I \<le> now" by (auto simp: wait_ok_def min_def split: if_splits)
  have wake: "min (?s + (?n + 1) * ?I) (wt_deadline w) \<le> now' + min (wt_backoff w) (max 0 (wt_deadline w - now'))"
    using n assms(1,4) by (auto simp: wait_ok_def min_def max_def algebra_simps)
  show ?thesis
    using assms(1) n late wake next_backoff_bounds [of "wt_backoff w" r] unfolding w' wait_ok_def by (simp add: algebra_simps)
qed

lemma wait_ok_misses: "wait_ok w \<Longrightarrow> of_nat (wt_misses w) < 100 * wt_timeout w + 1"
  by (cases "wt_misses w") (auto simp: wait_ok_def BACKOFF_INITIAL_def algebra_simps)

section \<open>Writers\<close>

text \<open>
  A writer is outside, waiting, in its section with what is left of it and the job it began with,
  refused by \<open>LockError\<close>, stuck (the lock file was created and writing the holder into it raised,
  so that \<open>__exit__\<close> never runs), or dead. The file names the process that created it.
\<close>

datatype 'l phase = Outside | Waiting lock_wait | Inside 'l 'l | Refused | Stuck | Dead

record ('l, 's) yard =
  yd_time :: rat
  yd_file :: "nat option"
  yd_phase :: "nat \<Rightarrow> 'l phase"
  yd_shared :: 's

definition put_phase :: "nat \<Rightarrow> 'l phase \<Rightarrow> ('l, 's) yard \<Rightarrow> ('l, 's) yard" where
  "put_phase p x Y = Y\<lparr>yd_phase := (yd_phase Y)(p := x)\<rparr>"

text \<open>
  One step of one process, for the jobs a section may begin with and a section whose step turns what is left of it into the rest, or ends it
  (\<open>None\<close>, also by an exception), and changes the shared state. \<open>take\<close> and \<open>jam\<close> are \<open>os.open\<close> with
  \<open>O_EXCL\<close>; \<open>leave\<close> unlinks the file whoever created it, as \<open>release\<close> does.
\<close>

inductive lock_step :: "('l \<Rightarrow> bool) \<Rightarrow> ('l \<Rightarrow> 's \<Rightarrow> 'l option \<times> 's) \<Rightarrow> ('l, 's) yard \<Rightarrow> ('l, 's) yard \<Rightarrow> bool"
  for job inner where
  tick: "yd_time Y \<le> t \<Longrightarrow> lock_step job inner Y (Y\<lparr>yd_time := t\<rparr>)"
| acquire: "yd_phase Y p = Outside \<Longrightarrow> 0 \<le> timeout
    \<Longrightarrow> lock_step job inner Y (put_phase p (Waiting (start_wait timeout (yd_time Y))) Y)"
| take: "yd_phase Y p = Waiting w \<Longrightarrow> wt_wake w \<le> yd_time Y \<Longrightarrow> yd_file Y = None \<Longrightarrow> job j
    \<Longrightarrow> lock_step job inner Y (put_phase p (Inside j j) (Y\<lparr>yd_file := Some p\<rparr>))"
| jam: "yd_phase Y p = Waiting w \<Longrightarrow> wt_wake w \<le> yd_time Y \<Longrightarrow> yd_file Y = None
    \<Longrightarrow> lock_step job inner Y (put_phase p Stuck (Y\<lparr>yd_file := Some p\<rparr>))"
| miss: "yd_phase Y p = Waiting w \<Longrightarrow> wt_wake w \<le> yd_time Y \<Longrightarrow> yd_file Y \<noteq> None \<Longrightarrow> yd_time Y \<le> t
    \<Longrightarrow> missed (yd_time Y) t draw w = Some w'
    \<Longrightarrow> lock_step job inner Y (put_phase p (Waiting w') (Y\<lparr>yd_time := t\<rparr>))"
| refuse: "yd_phase Y p = Waiting w \<Longrightarrow> wt_wake w \<le> yd_time Y \<Longrightarrow> yd_file Y \<noteq> None
    \<Longrightarrow> missed (yd_time Y) t draw w = None \<Longrightarrow> lock_step job inner Y (put_phase p Refused Y)"
| inner: "yd_phase Y p = Inside j l \<Longrightarrow> inner l (yd_shared Y) = (Some l', s)
    \<Longrightarrow> lock_step job inner Y (put_phase p (Inside j l') (Y\<lparr>yd_shared := s\<rparr>))"
| leave: "yd_phase Y p = Inside j l \<Longrightarrow> inner l (yd_shared Y) = (None, s)
    \<Longrightarrow> lock_step job inner Y (put_phase p Outside (Y\<lparr>yd_shared := s, yd_file := None\<rparr>))"
| die: "lock_step job inner Y (put_phase p Dead Y)"

definition quiet_yard :: "'s \<Rightarrow> ('l, 's) yard \<Rightarrow> bool" where
  "quiet_yard s Y \<longleftrightarrow> yd_file Y = None \<and> (\<forall>p. yd_phase Y p = Outside) \<and> yd_shared Y = s"

definition lock_inv :: "('l, 's) yard \<Rightarrow> bool" where
  "lock_inv Y \<longleftrightarrow> (\<forall>p. (\<exists>j l. yd_phase Y p = Inside j l) \<or> yd_phase Y p = Stuck \<longrightarrow> yd_file Y = Some p)
     \<and> (\<forall>p w. yd_phase Y p = Waiting w \<longrightarrow> wait_ok w)"

lemma lock_invD:
  "lock_inv Y \<Longrightarrow> yd_phase Y p = Inside j l \<Longrightarrow> yd_file Y = Some p"
  "lock_inv Y \<Longrightarrow> yd_phase Y p = Stuck \<Longrightarrow> yd_file Y = Some p"
  "lock_inv Y \<Longrightarrow> yd_phase Y p = Waiting w \<Longrightarrow> wait_ok w"
  unfolding lock_inv_def by blast+

lemma lock_inv_step: "lock_step job inner Y Y' \<Longrightarrow> lock_inv Y \<Longrightarrow> lock_inv Y'"
proof (induction rule: lock_step.induct)
  case (miss Y p w t draw w')
  from missed_ok [OF lock_invD(3) [OF miss.prems miss.hyps(1)] miss.hyps(5,2,4)] miss.prems show ?case
    by (auto simp: lock_inv_def put_phase_def)
next
  case (leave Y p j l s)
  have "yd_phase Y q = Inside j' l' \<or> yd_phase Y q = Stuck \<Longrightarrow> q = p" for q j' l'
    using lock_invD(1) [OF leave.prems leave.hyps(1)] lock_invD(1,2) [OF leave.prems, of q] by auto
  then show ?case using lock_invD(3) [OF leave.prems] by (auto simp: lock_inv_def put_phase_def)
qed (auto simp: lock_inv_def put_phase_def start_wait_ok)

lemma lock_inv_reach: "(lock_step job inner)\<^sup>*\<^sup>* Y Y' \<Longrightarrow> lock_inv Y \<Longrightarrow> lock_inv Y'"
  by (induction rule: rtranclp_induct) (auto intro: lock_inv_step)

lemma quiet_lock_inv: "quiet_yard s Y \<Longrightarrow> lock_inv Y"
  by (simp add: quiet_yard_def lock_inv_def)

text \<open>at every moment of every interleaving at most one writer is in its section, and the lock file
  is the one it created.\<close>

theorem writers_exclude_each_other:
  assumes "quiet_yard s0 Y0" "(lock_step job inner)\<^sup>*\<^sup>* Y0 Y"
    and "yd_phase Y p = Inside j l" "yd_phase Y q = Inside j' l'"
  shows "p = q \<and> yd_file Y = Some p"
proof -
  have inv: "lock_inv Y" by (rule lock_inv_reach [OF assms(2) quiet_lock_inv [OF assms(1)]])
  show ?thesis using lock_invD(1) [OF inv assms(3)] lock_invD(1) [OF inv assms(4)] by simp
qed

text \<open>a wait misses less often than a hundred times per second of its timeout, and once; then it
  has the lock or raises.\<close>

theorem lock_waits_are_bounded:
  assumes "quiet_yard s0 Y0" "(lock_step job inner)\<^sup>*\<^sup>* Y0 Y" and "yd_phase Y p = Waiting w"
  shows "of_nat (wt_misses w) < 100 * wt_timeout w + 1 \<and> wt_backoff w \<le> BACKOFF_MAX
    \<and> (wt_deadline w \<le> now \<longrightarrow> missed now now' draw w = None)"
proof -
  have "wait_ok w" by (rule lock_invD(3) [OF lock_inv_reach [OF assms(2) quiet_lock_inv [OF assms(1)]] assms(3)])
  then show ?thesis using wait_ok_misses [of w] by (simp add: wait_ok_def missed_def)
qed

text \<open>the lock of a process that died or was stuck is never freed: from then on no writer enters
  its section, and the shared state stays what it is.\<close>

theorem dead_holders_lock_forever:
  assumes "quiet_yard s0 Y0" "(lock_step job inner)\<^sup>*\<^sup>* Y0 Y" and "yd_file Y = Some p" "yd_phase Y p \<in> {Dead, Stuck}"
    and "(lock_step job inner)\<^sup>*\<^sup>* Y Y'"
  shows "yd_file Y' = Some p \<and> (\<forall>q j l. yd_phase Y' q \<noteq> Inside j l) \<and> yd_shared Y' = yd_shared Y"
proof -
  have inv: "lock_inv Y" by (rule lock_inv_reach [OF assms(2) quiet_lock_inv [OF assms(1)]])
  from assms(5) have "yd_file Y' = Some p \<and> yd_phase Y' p \<in> {Dead, Stuck} \<and> yd_shared Y' = yd_shared Y \<and> lock_inv Y'"
  proof (induction rule: rtranclp_induct)
    case base
    show ?case using assms(3,4) inv by simp
  next
    case (step A B)
    have "lock_inv B" by (rule lock_inv_step [OF step.hyps(2)]) (simp add: step.IH)
    moreover have "yd_phase A q \<noteq> Inside j l" for q j l
      using lock_invD(1) [of A q j l] step.IH by auto
    ultimately show ?case
      using step.IH by (intro conjI; cases rule: lock_step.cases [OF step.hyps(2)]) (auto simp: put_phase_def)
  qed
  then show ?thesis using lock_invD(1) [of Y'] by auto
qed

text \<open>A section that is not interrupted.\<close>

inductive section_runs :: "('l \<Rightarrow> 's \<Rightarrow> 'l option \<times> 's) \<Rightarrow> 'l \<Rightarrow> 's \<Rightarrow> 's \<Rightarrow> bool" for inner where
  ends: "inner l s = (None, s') \<Longrightarrow> section_runs inner l s s'"
| goes: "inner l s = (Some l', s1) \<Longrightarrow> section_runs inner l' s1 s' \<Longrightarrow> section_runs inner l s s'"

lemma section_inside:
  assumes "section_runs inner l s s'" "yd_phase Y p = Inside j l" "yd_shared Y = s"
  shows "(lock_step job inner)\<^sup>*\<^sup>* Y (put_phase p Outside (Y\<lparr>yd_shared := s', yd_file := None\<rparr>))"
  using assms
proof (induction arbitrary: Y rule: section_runs.induct)
  case (ends l s s')
  then show ?case by (intro r_into_rtranclp lock_step.leave) simp_all
next
  case (goes l s l' s1 s')
  let ?Z = "put_phase p (Inside j l') (Y\<lparr>yd_shared := s1\<rparr>)"
  have "lock_step job inner Y ?Z" using goes.hyps(1) goes.prems by (intro lock_step.inner) simp_all
  moreover have "(lock_step job inner)\<^sup>*\<^sup>* ?Z (put_phase p Outside (?Z\<lparr>yd_shared := s', yd_file := None\<rparr>))"
    by (rule goes.IH) (simp_all add: put_phase_def)
  moreover have "put_phase p Outside (?Z\<lparr>yd_shared := s', yd_file := None\<rparr>) = put_phase p Outside (Y\<lparr>yd_shared := s', yd_file := None\<rparr>)"
    by (simp add: put_phase_def)
  ultimately show ?case by (metis converse_rtranclp_into_rtranclp)
qed

lemma section_alone:
  assumes "section_runs inner j s s'" "job j" "quiet_yard s Y"
  shows "\<exists>Y'. (lock_step job inner)\<^sup>*\<^sup>* Y Y' \<and> quiet_yard s' Y'"
proof -
  let ?w = "start_wait 0 (yd_time Y)"
  let ?A = "put_phase 0 (Waiting ?w) Y" and ?B = "put_phase 0 (Inside j j) (Y\<lparr>yd_file := Some 0\<rparr>)"
  let ?C = "put_phase 0 Outside (?B\<lparr>yd_shared := s', yd_file := None\<rparr>)"
  have A: "lock_step job inner Y ?A" using assms(3) by (intro lock_step.acquire) (simp_all add: quiet_yard_def)
  have "lock_step job inner ?A (put_phase 0 (Inside j j) (?A\<lparr>yd_file := Some 0\<rparr>))"
    using assms(2,3) by (intro lock_step.take [of _ _ ?w]) (simp_all add: quiet_yard_def put_phase_def start_wait_def)
  moreover have "put_phase 0 (Inside j j) (?A\<lparr>yd_file := Some 0\<rparr>) = ?B" by (simp add: put_phase_def)
  ultimately have "(lock_step job inner)\<^sup>*\<^sup>* Y ?B" using A by simp
  moreover have "(lock_step job inner)\<^sup>*\<^sup>* ?B ?C"
    using assms(3) by (intro section_inside [OF assms(1)]) (simp_all add: put_phase_def quiet_yard_def)
  moreover have "quiet_yard s' ?C" using assms(3) by (simp add: quiet_yard_def put_phase_def)
  ultimately show ?thesis by (metis rtranclp_trans)
qed

section \<open>Sections are serialised\<close>

text \<open>
  The interface of a client: \<open>inner\<close> is one step of its section and \<open>whole\<close> what the section does when
  it runs alone. Then every interleaving does what its sections do one after the other.
\<close>

locale critical =
  fixes job :: "'l \<Rightarrow> bool" and inner :: "'l \<Rightarrow> 's \<Rightarrow> 'l option \<times> 's" and whole :: "'l \<Rightarrow> 's \<Rightarrow> 's"
  assumes goes_on: "inner l s = (Some l', s') \<Longrightarrow> whole l s = whole l' s'"
    and ends: "inner l s = (None, s') \<Longrightarrow> whole l s = s'"
begin

text \<open>What the holder of the lock owes: with the rest of its section the state is that of one more
  section. A dead holder may owe nothing.\<close>

definition owed :: "'l phase \<Rightarrow> 's \<Rightarrow> 's \<Rightarrow> bool" where
  "owed x s a = (case x of
     Inside j l \<Rightarrow> job j \<and> whole l s = whole j a
   | _ \<Rightarrow> s = a \<or> (\<exists>j l. job j \<and> whole l s = whole j a))"

definition explained :: "'s \<Rightarrow> ('l, 's) yard \<Rightarrow> bool" where
  "explained s0 Y \<longleftrightarrow> (\<exists>js. list_all job js \<and> (case yd_file Y of
     None \<Rightarrow> yd_shared Y = fold whole js s0
   | Some p \<Rightarrow> owed (yd_phase Y p) (yd_shared Y) (fold whole js s0)))"

lemma owed_outside: "owed x s a \<Longrightarrow> (\<And>j l. y \<noteq> Inside j l) \<Longrightarrow> owed y s a"
  by (cases x; cases y) (auto simp: owed_def)

lemma explained_put:
  assumes "explained s0 Y" "\<And>j l. x \<noteq> Inside j l" "yd_file Y' = yd_file Y" "yd_shared Y' = yd_shared Y"
    "yd_phase Y' = (yd_phase Y)(p := x)"
  shows "explained s0 Y'"
proof -
  from assms(1) obtain js where "list_all job js \<and> (case yd_file Y of
     None \<Rightarrow> yd_shared Y = fold whole js s0
   | Some p \<Rightarrow> owed (yd_phase Y p) (yd_shared Y) (fold whole js s0))" unfolding explained_def by blast
  then show ?thesis unfolding explained_def assms(3-5)
    by (intro exI [of _ js]) (auto split: option.splits intro: owed_outside [OF _ assms(2)])
qed

lemma explained_step:
  assumes "lock_step job inner Y Y'" "lock_inv Y" "explained s0 Y"
  shows "explained s0 Y'"
  using assms(1)
proof (cases rule: lock_step.cases)
  case (tick t)
  then show ?thesis using assms(3) by (cases "yd_file Y") (simp_all add: explained_def)
next
  case (take p w j)
  from assms(3) take(4) obtain js where "list_all job js" "yd_shared Y = fold whole js s0" by (auto simp: explained_def)
  then show ?thesis unfolding take(1) explained_def by (intro exI [of _ js]) (simp add: put_phase_def owed_def take(5))
next
  case (jam p w)
  from assms(3) jam(4) obtain js where "list_all job js" "yd_shared Y = fold whole js s0" by (auto simp: explained_def)
  then show ?thesis unfolding jam(1) explained_def by (intro exI [of _ js]) (simp add: put_phase_def owed_def)
next
  case (inner p j l l' s)
  from assms(3) lock_invD(1) [OF assms(2) inner(2)] inner(2) obtain js
    where js: "list_all job js" "job j" "whole l (yd_shared Y) = whole j (fold whole js s0)" by (auto simp: explained_def owed_def)
  then have "whole l' s = whole j (fold whole js s0)" using goes_on [OF inner(3)] by simp
  then show ?thesis using js(1,2) lock_invD(1) [OF assms(2) inner(2)] unfolding explained_def inner(1)
    by (intro exI [of _ js]) (simp add: put_phase_def owed_def)
next
  case (leave p j l s)
  from assms(3) lock_invD(1) [OF assms(2) leave(2)] leave(2) obtain js
    where js: "list_all job js" "job j" "whole l (yd_shared Y) = whole j (fold whole js s0)" by (auto simp: explained_def owed_def)
  then have "s = fold whole (js @ [j]) s0" using ends [OF leave(3)] by simp
  then show ?thesis using js(1,2) unfolding explained_def leave(1) by (intro exI [of _ "js @ [j]"]) (simp add: put_phase_def)
next
  case (acquire p timeout)
  then show ?thesis by (intro explained_put [OF assms(3), of "Waiting (start_wait timeout (yd_time Y))" _ p]) (simp_all add: put_phase_def)
next
  case (miss p w t draw w')
  then show ?thesis by (intro explained_put [OF assms(3), of "Waiting w'" _ p]) (simp_all add: put_phase_def)
next
  case (refuse p w t draw)
  then show ?thesis by (intro explained_put [OF assms(3), of Refused _ p]) (simp_all add: put_phase_def)
next
  case (die p)
  then show ?thesis by (intro explained_put [OF assms(3), of Dead _ p]) (simp_all add: put_phase_def)
qed

lemma explained_reach:
  assumes "quiet_yard s0 Y0" "(lock_step job inner)\<^sup>*\<^sup>* Y0 Y"
  shows "explained s0 Y"
  using assms(2)
proof (induction rule: rtranclp_induct)
  case base
  show ?case using assms(1) unfolding explained_def quiet_yard_def by (intro exI [of _ "[]"]) simp
next
  case (step A B)
  show ?case
    by (rule explained_step [OF step.hyps(2) lock_inv_reach [OF step.hyps(1) quiet_lock_inv [OF assms(1)]] step.IH])
qed

text \<open>When no one holds the lock, the state is that of complete sections one after the other.\<close>

lemma serialised:
  assumes "quiet_yard s0 Y0" "(lock_step job inner)\<^sup>*\<^sup>* Y0 Y" "yd_file Y = None"
  shows "\<exists>js. list_all job js \<and> yd_shared Y = fold whole js s0"
  using explained_reach [OF assms(1,2)] assms(3) by (auto simp: explained_def)

text \<open>Otherwise at most one section is incomplete: finishing it gives such a state.\<close>

lemma one_incomplete:
  assumes "quiet_yard s0 Y0" "(lock_step job inner)\<^sup>*\<^sup>* Y0 Y"
  shows "\<exists>js. list_all job js \<and> yd_shared Y = fold whole js s0
    \<or> (\<exists>l j. list_all job (js @ [j]) \<and> whole l (yd_shared Y) = fold whole (js @ [j]) s0)"
proof (cases "yd_file Y")
  case None
  then show ?thesis using explained_reach [OF assms(1,2)] by (auto simp: explained_def)
next
  case (Some p)
  with explained_reach [OF assms(1,2)] obtain js where js: "list_all job js" "owed (yd_phase Y p) (yd_shared Y) (fold whole js s0)"
    by (auto simp: explained_def)
  from js(1) owed_outside [OF js(2), of Dead] show ?thesis by (auto simp: owed_def)
qed

end

section \<open>Durable writes\<close>

text \<open>
  \<open>atomic_write\<close>: writer \<open>i\<close> writes the text \<open>wr_text\<close> to its staging file and renames it. \<open>os.write\<close>
  reports how many bytes it wrote, which the code does not read; \<open>full\<close> says that it wrote all.
\<close>

record write_job =
  wr_path :: string
  wr_staging :: string
  wr_text :: string

definition staging_name :: "string \<Rightarrow> string \<Rightarrow> string \<Rightarrow> string" where
  "staging_name path pid uid = path @ ''.'' @ pid @ ''.'' @ take 8 uid @ ''.tmp''"

datatype stage = Unstarted | Opened | Written | Published | Failed

type_synonym file_map = "string \<Rightarrow> string option"

inductive write_step :: "bool \<Rightarrow> (nat \<Rightarrow> write_job) \<Rightarrow> file_map \<times> (nat \<Rightarrow> stage) \<Rightarrow> file_map \<times> (nat \<Rightarrow> stage) \<Rightarrow> bool" for full W where
  open_staging: "S i = Unstarted \<Longrightarrow> write_step full W (F, S) (F(wr_staging (W i) := Some []), S(i := Opened))"
| write_bytes: "S i = Opened \<Longrightarrow> full \<longrightarrow> length (wr_text (W i)) \<le> n
    \<Longrightarrow> write_step full W (F, S) (F(wr_staging (W i) := Some (take n (wr_text (W i)))), S(i := Written))"
| rename: "S i = Written \<Longrightarrow> write_step full W (F, S)
    (F(wr_path (W i) := F (wr_staging (W i)), wr_staging (W i) := None), S(i := Published))"
| raise: "S i \<in> {Opened, Written} \<Longrightarrow> write_step full W (F, S) (F(wr_staging (W i) := None), S(i := Failed))"

text \<open>A prefix of what a writer writes, all of it when the writes were full.\<close>

definition text_of_writer :: "bool \<Rightarrow> write_job \<Rightarrow> string \<Rightarrow> bool" where
  "text_of_writer full w t \<longleftrightarrow> (\<exists>n. t = take n (wr_text w) \<and> (full \<longrightarrow> length (wr_text w) \<le> n))"

text \<open>whatever the interleaving, and wherever it stops, a published file holds what it held before or
  the text of one writer, never a mixture; a short write, which goes unnoticed, publishes a prefix.\<close>

theorem published_files_are_whole:
  assumes staging: "\<And>i j. wr_staging (W i) = wr_staging (W j) \<Longrightarrow> i = j" "\<And>i j. wr_staging (W i) \<noteq> wr_path (W j)"
    and run: "(write_step full W)\<^sup>*\<^sup>* (F0, \<lambda>i. Unstarted) (F, S)"
  shows "\<forall>j. F (wr_path (W j)) = F0 (wr_path (W j)) \<or>
    (\<exists>i t. wr_path (W i) = wr_path (W j) \<and> F (wr_path (W j)) = Some t \<and> text_of_writer full (W i) t)"
proof -
  have ne: "k \<noteq> i \<Longrightarrow> wr_staging (W k) \<noteq> wr_staging (W i)" "wr_path (W j) \<noteq> wr_staging (W i)" for i j k
    using staging by metis+
  define held where "held F S \<longleftrightarrow> (\<forall>i. S i = Written \<longrightarrow> (\<exists>t. F (wr_staging (W i)) = Some t \<and> text_of_writer full (W i) t))"
    for F :: file_map and S
  define published where "published F \<longleftrightarrow> (\<forall>j. F (wr_path (W j)) = F0 (wr_path (W j)) \<or>
        (\<exists>i t. wr_path (W i) = wr_path (W j) \<and> F (wr_path (W j)) = Some t \<and> text_of_writer full (W i) t))"
    for F :: file_map
  have stays: "published (F(wr_staging (W i) := x))" if "published F" for F i x
    using that ne(2) by (simp add: published_def)
  have "held F S \<and> published F"
    using run
  proof (induction "(F, S)" arbitrary: F S rule: rtranclp_induct)
    case base
    then show ?case by (simp add: held_def published_def)
  next
    case (step A F' S')
    obtain F S where A: "A = (F, S)" by (cases A)
    from step.hyps(3) [OF A] have IH: "held F S" "published F" by auto
    from step.hyps(2) [unfolded A] show ?case
    proof (cases rule: write_step.cases)
      case (open_staging i)
      then show ?thesis using IH(1) stays [OF IH(2)] ne(1) by (simp add: held_def)
    next
      case (write_bytes i n)
      have "text_of_writer full (W i) (take n (wr_text (W i)))"
        using write_bytes(4) unfolding text_of_writer_def by blast
      then show ?thesis using write_bytes IH(1) stays [OF IH(2)] ne(1) by (simp add: held_def)
    next
      case (rename i)
      then obtain t where t: "F (wr_staging (W i)) = Some t" "text_of_writer full (W i) t"
        using IH(1) by (auto simp: held_def)
      have "published (F(wr_path (W i) := Some t))"
        unfolding published_def
      proof
        fix j
        show "(F(wr_path (W i) := Some t)) (wr_path (W j)) = F0 (wr_path (W j)) \<or>
          (\<exists>i' t'. wr_path (W i') = wr_path (W j) \<and> (F(wr_path (W i) := Some t)) (wr_path (W j)) = Some t'
            \<and> text_of_writer full (W i') t')"
        proof (cases "wr_path (W j) = wr_path (W i)")
          case True
          then show ?thesis using t(2) by (intro disjI2 exI [of _ i] exI [of _ t]) simp
        next
          case False
          then show ?thesis using IH(2) unfolding published_def by simp
        qed
      qed
      moreover have "held F' S'" using rename IH(1) ne not_sym [OF ne(2)] by (simp add: held_def)
      ultimately show ?thesis using rename t stays by simp
    next
      case (raise i)
      then show ?thesis using IH(1) stays [OF IH(2)] ne(1) by (simp add: held_def)
    qed
  qed
  then show ?thesis by (simp add: published_def)
qed

text \<open>\<open>atomic_append\<close>: one write at the end of the file, of the first \<open>n\<close> bytes of the text.\<close>

definition atomic_append :: "string \<Rightarrow> string \<Rightarrow> nat \<Rightarrow> file_map \<Rightarrow> file_map" where
  "atomic_append path t n F = F(path := Some ((case F path of None \<Rightarrow> [] | Some s \<Rightarrow> s) @ take n t))"

lemma appends_keep_records:
  "\<forall>t n. (t, n) \<in> set ts \<longrightarrow> length t \<le> n
     \<Longrightarrow> fold (\<lambda>(t, n). atomic_append path t n) ts (F(path := Some s)) path = Some (s @ concat (map fst ts))"
proof (induction ts arbitrary: s)
  case (Cons x ts)
  obtain t n where x: "x = (t, n)" by (cases x)
  with Cons.prems have "atomic_append path t n (F(path := Some s)) = F(path := Some (s @ t))"
    by (simp add: atomic_append_def)
  with Cons.IH [of "s @ t"] Cons.prems show ?case by (simp add: x del: fun_upd_apply)
qed simp

end
