(* ===== verification/Lock_Clients.thy ===== *)
theory Lock_Clients
  imports Lock Rebuild Audit_Trail
begin

text \<open>
  What the program does under the lock: the append of an event (\<open>storage/events.py\<close>), of an audit
  entry (\<open>audit/logger.py\<close>) and the two files of a handoff (\<open>handoff/compiler.py\<close>), as sections of
  several steps that other processes run in between. Each is an instance of \<open>critical\<close>.
\<close>

section \<open>The append of an event\<close>

text \<open>An append by one \<open>EventLog\<close> object: whether it has looked at the head before and has a mirror, and
  the time, the id and the envelope of the event.\<close>

record append_job =
  aj_recovered :: bool
  aj_mirror :: bool
  aj_now :: string
  aj_uid :: string
  aj_event :: envelope

definition as_instance :: "append_job \<Rightarrow> world \<Rightarrow> world" where
  "as_instance J w = w\<lparr>wlog := (wlog w)\<lparr>lrecovered := aj_recovered J, lmirror := aj_mirror J\<rparr>\<rparr>"

definition append_as :: "rt \<Rightarrow> append_job \<Rightarrow> world \<Rightarrow> world" where
  "append_as R J w = snd (append_event R (aj_now J) (aj_uid J) (aj_event J) (as_instance J w))"

text \<open>What is left of an append: everything, the line, the head, the row of the mirror.\<close>

datatype append_rest = Load append_job | Line obj | Head obj | Mirror obj

definition seal :: "rt \<Rightarrow> append_job \<Rightarrow> string \<Rightarrow> obj" where
  "seal R J head = prepared R (aj_now J) (aj_uid J) head
     ((aj_event J)\<lparr>ev_payload := scrub_payload R (ev_payload (aj_event J))\<rparr>)"

fun append_step :: "rt \<Rightarrow> append_rest \<Rightarrow> world \<Rightarrow> append_rest option \<times> world" where
  "append_step R (Load J) w = (case load_head R (wlog (as_instance J w)) of
     (Inl x, L) \<Rightarrow> (None, w\<lparr>wlog := L\<rparr>)
   | (Inr head, L) \<Rightarrow> (case validate_envelope True (JObj (seal R J head)) of
         Inl x \<Rightarrow> (None, w\<lparr>wlog := L\<rparr>)
       | Inr _ \<Rightarrow> (Some (Line (seal R J head)), w\<lparr>wlog := L\<rparr>)))"
| "append_step R (Line env) w = (Some (Head env), w\<lparr>wlog := write_line env (wlog w)\<rparr>)"
| "append_step R (Head env) w =
     (if lmirror (wlog w) then Some (Mirror env) else None, w\<lparr>wlog := write_head env (wlog w)\<rparr>)"
| "append_step R (Mirror env) w = (None, w\<lparr>wdb := snd (mirror_row env (wdb w))\<rparr>)"

definition finish_head :: "obj \<Rightarrow> world \<Rightarrow> world" where
  "finish_head env w = w\<lparr>wlog := write_head env (wlog w),
     wdb := (if lmirror (wlog w) then snd (mirror_row env (wdb w)) else wdb w)\<rparr>"

fun append_whole :: "rt \<Rightarrow> append_rest \<Rightarrow> world \<Rightarrow> world" where
  "append_whole R (Load J) w = append_as R J w"
| "append_whole R (Line env) w = finish_head env (w\<lparr>wlog := write_line env (wlog w)\<rparr>)"
| "append_whole R (Head env) w = finish_head env w"
| "append_whole R (Mirror env) w = w\<lparr>wdb := snd (mirror_row env (wdb w))\<rparr>"

definition is_load :: "append_rest \<Rightarrow> bool" where
  "is_load l \<longleftrightarrow> (case l of Load J \<Rightarrow> True | _ \<Rightarrow> False)"

lemma write_line_mirror: "lmirror (write_line env L) = lmirror L" "lmirror (write_head env L) = lmirror L"
  by (simp_all add: write_line_def write_head_def)

lemma append_as_steps:
  "append_as R J w = (case load_head R (wlog (as_instance J w)) of
     (Inl x, L) \<Rightarrow> w\<lparr>wlog := L\<rparr>
   | (Inr head, L) \<Rightarrow> (case validate_envelope True (JObj (seal R J head)) of
         Inl x \<Rightarrow> w\<lparr>wlog := L\<rparr>
       | Inr _ \<Rightarrow> append_whole R (Line (seal R J head)) (w\<lparr>wlog := L\<rparr>)))"
  by (auto simp: append_as_def append_event_def append_log_def as_instance_def seal_def Let_def write_line_mirror finish_head_def
      split: prod.splits sum.splits)

interpretation event_log: critical is_load "append_step R" "append_whole R" for R
proof
  fix l s l' s'
  assume "append_step R l s = (Some l', s')"
  then show "append_whole R l s = append_whole R l' s'"
    by (cases l) (auto simp: append_as_steps finish_head_def write_line_mirror split: prod.splits sum.splits if_splits)
next
  fix l s s'
  assume "append_step R l s = (None, s')"
  then show "append_whole R l s = s'"
    by (cases l) (auto simp: append_as_steps finish_head_def split: prod.splits sum.splits if_splits)
qed

lemma loads: "list_all is_load js \<Longrightarrow> \<exists>Js. js = map Load Js"
proof (induction js)
  case (Cons j js)
  then obtain Js where "js = map Load Js" by auto
  moreover from Cons.prems obtain J where "j = Load J" by (cases j) (auto simp: is_load_def)
  ultimately have "j # js = map Load (J # Js)" by simp
  then show ?case by (rule exI)
qed simp

lemma fold_loads: "fold (append_whole R) (map Load Js) w = fold (append_as R) Js w"
  by (induction Js arbitrary: w) simp_all

text \<open>C38: the appends of concurrent processes are serial: when nobody holds the lock, log and mirror are
  those of complete appends, one after the other, from what there was; at any other moment, also
  after the holder died in the middle, they are so after the rest of at most one append.\<close>

theorem concurrent_appends_are_serial:
  assumes "quiet_yard w0 Y0" "(lock_step is_load (append_step R))\<^sup>*\<^sup>* Y0 Y"
  shows "(yd_file Y = None \<longrightarrow> (\<exists>Js. yd_shared Y = fold (append_as R) Js w0))
    \<and> (\<exists>Js. yd_shared Y = fold (append_as R) Js w0
        \<or> (\<exists>rest J. append_whole R rest (yd_shared Y) = append_as R J (fold (append_as R) Js w0)))"
proof -
  have "\<exists>Js. yd_shared Y = fold (append_as R) Js w0" if "yd_file Y = None"
    using event_log.serialised [OF assms that] loads fold_loads by metis
  moreover from event_log.one_incomplete [OF assms] obtain js where
    "list_all is_load js \<and> yd_shared Y = fold (append_whole R) js w0
     \<or> (\<exists>l j. list_all is_load (js @ [j]) \<and> append_whole R l (yd_shared Y) = fold (append_whole R) (js @ [j]) w0)" by blast
  then have "\<exists>Js. yd_shared Y = fold (append_as R) Js w0
        \<or> (\<exists>rest J. append_whole R rest (yd_shared Y) = append_as R J (fold (append_as R) Js w0))"
  proof (elim disjE exE conjE)
    assume "list_all is_load js" "yd_shared Y = fold (append_whole R) js w0"
    then show ?thesis using loads fold_loads by metis
  next
    fix l j
    assume l: "list_all is_load (js @ [j])" "append_whole R l (yd_shared Y) = fold (append_whole R) (js @ [j]) w0"
    then obtain Js where Js: "js = map Load Js" using loads by auto
    from l(1) obtain J where "j = Load J" by (cases j) (auto simp: is_load_def)
    with l(2) Js have "append_whole R l (yd_shared Y) = append_as R J (fold (append_as R) Js w0)"
      by (simp add: fold_loads)
    then show ?thesis by blast
  qed
  ultimately show ?thesis by blast
qed

text \<open>Every append ends when it is not interrupted, with what \<open>append_event\<close> does.\<close>

lemma append_runs: "section_runs (append_step R) (Load J) w (append_as R J w)"
proof -
  have mirror: "section_runs (append_step R) (Mirror env) v (v\<lparr>wdb := snd (mirror_row env (wdb v))\<rparr>)" for env v
    by (rule section_runs.ends) simp
  have head: "section_runs (append_step R) (Head env) v (finish_head env v)" for env v
  proof (cases "lmirror (wlog v)")
    case True
    then show ?thesis
      using section_runs.goes [of "append_step R" "Head env" v, OF _ mirror [of env]] by (simp add: finish_head_def)
  next
    case False
    then show ?thesis by (intro section_runs.ends) (simp add: finish_head_def)
  qed
  have line: "section_runs (append_step R) (Line env) v (append_whole R (Line env) v)" for env v
    by (rule section_runs.goes [where l' = "Head env"]) (auto intro: head)
  show ?thesis
    unfolding append_as_steps
    by (auto split: prod.splits sum.splits intro!: section_runs.ends section_runs.goes [OF _ line] simp del: append_whole.simps)
qed

definition idle_yard :: "'s \<Rightarrow> ('l, 's) yard" where
  "idle_yard s = \<lparr>yd_time = 0, yd_file = None, yd_phase = (\<lambda>p. Outside), yd_shared = s\<rparr>"

lemma idle_quiet: "quiet_yard s (idle_yard s)"
  by (simp add: idle_yard_def quiet_yard_def)

definition job0 :: append_job where
  "job0 = \<lparr>aj_recovered = False, aj_mirror = True, aj_now = ''2025-03-04'', aj_uid = ''u'', aj_event = memory_event\<rparr>"

lemma concurrent_appends_are_serial_witness:
  "\<exists>Y. (lock_step is_load (append_step rt0))\<^sup>*\<^sup>* (idle_yard world0) Y
     \<and> yd_shared Y = append_as rt0 job0 (append_as rt0 job0 world0)
     \<and> (\<exists>Js. yd_shared Y = fold (append_as rt0) Js world0)"
proof -
  obtain Y1 where Y1: "(lock_step is_load (append_step rt0))\<^sup>*\<^sup>* (idle_yard world0) Y1"
    "quiet_yard (append_as rt0 job0 world0) Y1"
    using section_alone [of "append_step rt0" _ _ _ is_load, OF append_runs [of rt0 job0] _ idle_quiet] by (auto simp: is_load_def)
  obtain Y2 where Y2: "(lock_step is_load (append_step rt0))\<^sup>*\<^sup>* Y1 Y2"
    "quiet_yard (append_as rt0 job0 (append_as rt0 job0 world0)) Y2"
    using section_alone [of "append_step rt0" _ _ _ is_load, OF append_runs [of rt0 job0] _ Y1(2)] by (auto simp: is_load_def)
  have "(lock_step is_load (append_step rt0))\<^sup>*\<^sup>* (idle_yard world0) Y2" using Y1(1) Y2(1) by simp
  moreover have "yd_file Y2 = None" and shared: "yd_shared Y2 = append_as rt0 job0 (append_as rt0 job0 world0)"
    using Y2(2) by (simp_all add: quiet_yard_def)
  moreover from concurrent_appends_are_serial [OF idle_quiet \<open>_\<^sup>*\<^sup>* (idle_yard world0) Y2\<close>] this(1)
  have "\<exists>Js. yd_shared Y2 = fold (append_as rt0) Js world0" by (rule mp [OF conjunct1])
  ultimately show ?thesis by (intro exI [of _ Y2] conjI)
qed

section \<open>A holder that dies\<close>

text \<open>C39: a process that dies in the middle of an append, or cannot write its name into the lock file,
  stops the log for good: the lock file stays, no writer enters its section again, and log and
  mirror stay what they are. The repair of a head that lags behind its log, which the next append
  would make, is never reached.\<close>

theorem dead_writers_stop_the_log:
  assumes "quiet_yard w0 Y0" "(lock_step is_load (append_step R))\<^sup>*\<^sup>* Y0 Y"
    and "yd_file Y = Some p" "yd_phase Y p \<in> {Dead, Stuck}" "(lock_step is_load (append_step R))\<^sup>*\<^sup>* Y Y'"
  shows "yd_file Y' = Some p \<and> (\<forall>q j l. yd_phase Y' q \<noteq> Inside j l) \<and> yd_shared Y' = yd_shared Y"
  by (rule dead_holders_lock_forever [OF assms])

lemma dead_writers_stop_the_log_witness:
  "\<exists>Y. (lock_step is_load (append_step rt0))\<^sup>*\<^sup>* (idle_yard world0) Y \<and> yd_phase Y 0 = Dead
     \<and> (\<forall>Y'. (lock_step is_load (append_step rt0))\<^sup>*\<^sup>* Y Y' \<longrightarrow> yd_file Y' = Some 0)"
proof -
  let ?w = "start_wait 10 0"
  let ?A = "put_phase 0 (Waiting ?w) (idle_yard world0)"
  let ?B = "put_phase 0 (Inside (Load job0) (Load job0)) (?A\<lparr>yd_file := Some 0\<rparr>)"
  let ?C = "put_phase 0 Dead ?B"
  have "lock_step is_load (append_step rt0) (idle_yard world0) ?A"
    using lock_step.acquire [of "idle_yard world0" 0 10] by (simp add: idle_yard_def)
  moreover have "lock_step is_load (append_step rt0) ?A ?B"
    by (rule lock_step.take [of _ _ ?w]) (simp_all add: idle_yard_def put_phase_def start_wait_def is_load_def lock_wait.simps)
  moreover have "lock_step is_load (append_step rt0) ?B ?C" by (rule lock_step.die)
  ultimately have run: "(lock_step is_load (append_step rt0))\<^sup>*\<^sup>* (idle_yard world0) ?C"
    by (meson r_into_rtranclp rtranclp.rtrancl_into_rtrancl)
  have C: "yd_file ?C = Some 0" "yd_phase ?C 0 \<in> {Dead, Stuck}" by (simp_all add: put_phase_def)
  have "yd_file Y' = Some 0" if "(lock_step is_load (append_step rt0))\<^sup>*\<^sup>* ?C Y'" for Y'
    using dead_writers_stop_the_log [OF idle_quiet run C that] by (rule conjunct1)
  moreover have "yd_phase ?C 0 = Dead" by (simp add: put_phase_def)
  ultimately show ?thesis using run by blast
qed

section \<open>Audit entries and handoffs\<close>

text \<open>An audit entry is one write of a line at the end of a file; the two files of a handoff are two writes.\<close>

definition audit_step :: "string \<times> string \<Rightarrow> audit_dir \<Rightarrow> (string \<times> string) option \<times> audit_dir" where
  "audit_step x D = (None, append_text (fst x) (snd x) D)"

interpretation audit_trail: critical "\<lambda>x. True" audit_step "\<lambda>x. append_text (fst x) (snd x)"
  by unfold_locales (simp_all add: audit_step_def)

fun files_step :: "(string \<times> string) list \<Rightarrow> file_map \<Rightarrow> (string \<times> string) list option \<times> file_map" where
  "files_step [] F = (None, F)"
| "files_step ((p, t) # fs) F = (Some fs, F(p := Some t))"

definition files_whole :: "(string \<times> string) list \<Rightarrow> file_map \<Rightarrow> file_map" where
  "files_whole fs F = fold (\<lambda>(p, t) F. F(p := Some t)) fs F"

interpretation handoff_files: critical "\<lambda>fs. True" files_step files_whole
proof
  show "files_whole fs F = files_whole gs G" if "files_step fs F = (Some gs, G)" for fs gs F G
    using that by (cases fs) (auto simp: files_whole_def)
  show "files_whole fs F = G" if "files_step fs F = (None, G)" for fs F G
    using that by (cases fs) (auto simp: files_whole_def)
qed

text \<open>
  \<open>ensure\<close> is outside the lock: it finds that a file is missing and, in a second step, writes it
  empty. An entry another process appended in between is gone, although its append returned.
\<close>

definition write_empty :: "string \<Rightarrow> audit_dir \<Rightarrow> audit_dir" where
  "write_empty f D = D(f := Some [])"

lemma late_ensure_loses_entries:
  assumes "D (audit_file (ae_type e)) = None" "audit_append R now e D = (e', D1)"
  shows "D1 (audit_file (ae_type e)) \<noteq> Some [] \<and> write_empty (audit_file (ae_type e)) D1 (audit_file (ae_type e)) = Some []"
  using assms by (auto simp: audit_append_def append_text_def write_empty_def Let_def line_end_def)

end
