(* ===== verification/Refresh.thy ===== *)
theory Refresh
  imports Egress Routing Audit_Trail
begin

text \<open>
  The refresh of a provider file from the provider's list of models
  (\<open>adapters/providers/refresh.py\<close>): behind the connector permission, one request, and the change of
  the lifecycle of the listed models. The answer of the provider and the digest of a text are
  parameters.
\<close>

section \<open>The change\<close>

definition STALE_ON_REFRESH :: "string list" where
  "STALE_ON_REFRESH = [''context_window'', ''max_output_tokens'', ''endpoint'', ''modalities'', ''supports_tools'',
     ''supports_structured_output'', ''region'', ''retention_class'']"

definition LIST_MODELS_ENDPOINTS :: "(string \<times> string) list" where
  "LIST_MODELS_ENDPOINTS = [(''anthropic'', ''https://api.anthropic.com/v1/models''),
     (''openai'', ''https://api.openai.com/v1/models'')]"

definition lifecycle_from_presence :: "json \<Rightarrow> bool \<Rightarrow> json" where
  "lifecycle_from_presence current present =
     (if present then (if current = JStr ''unknown'' then JStr ''active'' else current) else JStr ''retired'')"

text \<open>One class: its new entry and, when it changed, its report.\<close>

definition mark_entry :: "obj \<Rightarrow> json \<Rightarrow> string \<Rightarrow> string \<Rightarrow> obj" where
  "mark_entry e lifecycle url now =
     oput (oput (oput (oput e ''lifecycle'' lifecycle) ''verified_at'' (JStr now)) ''verified_by'' (JStr ''api''))
       ''source_url'' (JStr url)"

definition change_report :: "string \<Rightarrow> obj \<Rightarrow> json \<Rightarrow> json \<Rightarrow> string \<Rightarrow> json" where
  "change_report c e old new digest = JObj [(''class'', JStr c), (''model_id'', oget e ''model_id''),
     (''lifecycle'', JObj [(''from'', old), (''to'', new)]), (''response_digest'', JStr digest)]"

definition refresh_class :: "json list \<Rightarrow> string \<Rightarrow> string \<Rightarrow> string \<Rightarrow> string \<times> json \<Rightarrow> exn + (string \<times> json) \<times> json list" where
  "refresh_class ids url digest now x = (case x of (c, entry) \<Rightarrow>
     rbind (as_obj entry) (\<lambda>e.
     rbind (rguard (hashable (oget e ''model_id'')) (TypeError ''unhashable'')) (\<lambda>_.
     let old = oget_or e ''lifecycle'' (JStr ''unknown'');
         new = lifecycle_from_presence old (oget e ''model_id'' \<in> set ids) in
     if new = old then Inr ((c, JObj e), [])
     else Inr ((c, JObj (mark_entry e new url now)), [change_report c e old new digest]))))"

definition apply_refresh :: "obj \<Rightarrow> json list \<Rightarrow> string \<Rightarrow> string \<Rightarrow> string \<Rightarrow> exn + obj \<times> json list" where
  "apply_refresh data ids url digest now =
     rbind (rguard (oget data ''schema'' = JStr ''shiroe.provider/v2'') (ValueError ''refresh requires schema'')) (\<lambda>_.
     rbind (as_obj (oget_or data ''classes'' (JObj []))) (\<lambda>cs.
     rbind (rmap (refresh_class ids url digest now) cs) (\<lambda>rs.
     Inr (if ohas data ''classes'' then oput data ''classes'' (JObj (map fst rs)) else data, concat (map snd rs)))))"

section \<open>The request\<close>

text \<open>\<open>item["id"] for item in ... if "id" in item\<close>.\<close>

definition listed_id :: "json \<Rightarrow> exn + json list" where
  "listed_id item = (case item of
     JObj o' \<Rightarrow> if ohas o' ''id''
       then (if hashable (oget o' ''id'') then Inr [oget o' ''id''] else Inl (TypeError ''unhashable'')) else Inr []
   | JStr s \<Rightarrow> if contains s ''id'' then Inl (TypeError ''indices'') else Inr []
   | JList xs \<Rightarrow> if JStr ''id'' \<in> set xs then Inl (TypeError ''indices'') else Inr []
   | _ \<Rightarrow> Inl (TypeError ''not iterable''))"

datatype answer = Body string | HTTPError | Unreachable

record api_call =
  rq_url :: string
  rq_headers :: "(string \<times> string) list"

definition api_request :: "environ \<Rightarrow> string \<Rightarrow> string \<Rightarrow> exn + api_call" where
  "api_request V provider url =
     (if provider = ''anthropic'' then
        (case V ''ANTHROPIC_API_KEY'' of
           Some (c # cs) \<Rightarrow> Inr \<lparr>rq_url = url, rq_headers = [(''x-api-key'', c # cs), (''anthropic-version'', ''2023-06-01'')]\<rparr>
         | _ \<Rightarrow> Inl (RuntimeError ''ANTHROPIC_API_KEY not set''))
      else
        (case V ''OPENAI_API_KEY'' of
           Some (c # cs) \<Rightarrow> Inr \<lparr>rq_url = url, rq_headers = [(''Authorization'', ''Bearer '' @ (c # cs))]\<rparr>
         | _ \<Rightarrow> Inl (RuntimeError ''OPENAI_API_KEY not set'')))"

definition ids_of_answer :: "(string \<Rightarrow> string) \<Rightarrow> answer \<Rightarrow> exn + json list \<times> string" where
  "ids_of_answer H a = (case a of
     HTTPError \<Rightarrow> Inl (RuntimeError ''list-models failed'')
   | Unreachable \<Rightarrow> Inl (RuntimeError ''list-models unreachable'')
   | Body b \<Rightarrow>
       rbind (rbind (load_or_raise b) as_obj) (\<lambda>data.
       rbind (jiter (oget_or data ''data'' (JList []))) (\<lambda>items.
       rbind (rmap listed_id items) (\<lambda>iss.
       Inr (remdups (concat iss), take 16 (H b))))))"

text \<open>The provider files of the package and the requests sent so far.\<close>

record package =
  pk_files :: "string \<Rightarrow> string option"
  pk_requests :: "api_call list"

definition list_model_ids :: "environ \<Rightarrow> (api_call \<Rightarrow> answer) \<Rightarrow> (string \<Rightarrow> string) \<Rightarrow> string \<Rightarrow> (package, json list \<times> string \<times> string) st" where
  "list_model_ids V http H provider = (case map_of LIST_MODELS_ENDPOINTS provider of
     None \<Rightarrow> st_raise (ValueError ''no list-models endpoint'')
   | Some url \<Rightarrow>
       st_bind (st_lift (api_request V provider url)) (\<lambda>rq.
       st_bind (\<lambda>s. (ids_of_answer H (http rq), s\<lparr>pk_requests := pk_requests s @ [rq]\<rparr>)) (\<lambda>(ids, digest).
       st_ret (ids, digest, url))))"

text \<open>\<open>json.dumps(data, indent=2)\<close>, in the order of the dictionaries.\<close>

fun dumps_pretty :: "nat \<Rightarrow> json \<Rightarrow> string" where
  "dumps_pretty n (JList xs) =
     (if xs = [] then ''[]''
      else ''['' @ indented (Suc n) @ join_with ('','' @ indented (Suc n)) (map (dumps_pretty (Suc n)) xs)
        @ indented n @ '']'')"
| "dumps_pretty n (JObj kvs) =
     (if kvs = [] then ''{}''
      else ''{'' @ indented (Suc n) @ join_with ('','' @ indented (Suc n))
          (map (\<lambda>(k, v). quote True k @ '': '' @ dumps_pretty (Suc n) v) kvs) @ indented n @ ''}'')"
| "dumps_pretty n j = dumps j"

definition refresh_result :: "string \<Rightarrow> string \<Rightarrow> string \<Rightarrow> string \<Rightarrow> json list \<Rightarrow> json list \<Rightarrow> obj" where
  "refresh_result provider url digest now ids changed =
     [(''provider'', JStr provider), (''endpoint'', JStr url), (''response_digest'', JStr digest), (''checked_at'', JStr now),
      (''ids_seen'', JInt (int (length ids))), (''changed'', JList changed),
      (''stale_fields_not_checked'', JList (map JStr STALE_ON_REFRESH))]"

text \<open>The refresh once the connector was allowed: the file is read, the models are listed, and the file is
  written when something changed.\<close>

definition write_provider :: "string \<Rightarrow> obj \<Rightarrow> json list \<Rightarrow> (package, unit) st" where
  "write_provider provider data changed s = (Inr (), if changed = [] then s
     else s\<lparr>pk_files := (pk_files s)(provider := Some (dumps_pretty 0 (JObj data) @ line_end))\<rparr>)"

definition reading :: "surroundings \<Rightarrow> (api_call \<Rightarrow> answer) \<Rightarrow> (string \<Rightarrow> string) \<Rightarrow> string \<Rightarrow> string \<Rightarrow> (package, obj) st" where
  "reading S http H now provider =
     st_bind (st_get (\<lambda>s. pk_files s provider)) (\<lambda>file. case file of
         None \<Rightarrow> st_raise (KeyError ''no provider registry'')
       | Some t \<Rightarrow>
         st_bind (st_lift (rbind (load_or_raise t) as_obj)) (\<lambda>data.
         st_bind (list_model_ids (su_env S) http H provider) (\<lambda>(ids, digest, url).
         st_bind (st_lift (apply_refresh data ids url digest now)) (\<lambda>(data', changed).
         st_bind (write_provider provider data' changed) (\<lambda>_.
         st_ret (refresh_result provider url digest now ids changed))))))"

definition refresh_provider :: "surroundings \<Rightarrow> security_policy \<Rightarrow> (api_call \<Rightarrow> answer) \<Rightarrow> (string \<Rightarrow> string) \<Rightarrow> string \<Rightarrow> string
    \<Rightarrow> (package, obj) st" where
  "refresh_provider S p http H now provider =
     st_bind (st_lift (require_connector S p ''provider_refresh'' (''providers-refresh:'' @ provider))) (\<lambda>_.
     reading S http H now provider)"

section \<open>What a refresh may do\<close>

lemma map_of_oput: "map_of (oput e k v) = (map_of e)(k := Some v)"
  by (induction e) (auto simp: fun_eq_iff)

lemma oget_oput: "oget (oput e k v) k' = (if k' = k then v else oget e k')"
  by (simp add: oget_def map_of_oput)

lemma ohas_oput: "ohas (oput e k v) k' \<longleftrightarrow> k' = k \<or> ohas e k'"
  by (simp add: ohas_def map_of_oput)

lemma oget_or_oput: "oget_or (oput e k v) k' d = (if k' = k then v else oget_or e k' d)"
  by (simp add: oget_or_def map_of_oput)

text \<open>The four fields a refresh writes.\<close>

definition REFRESHED :: "string set" where
  "REFRESHED = {''lifecycle'', ''verified_at'', ''verified_by'', ''source_url''}"

lemma mark_entry_other: "k \<notin> REFRESHED \<Longrightarrow> oget (mark_entry e l url now) k = oget e k"
  by (simp add: REFRESHED_def mark_entry_def oget_oput)

lemma mark_entry_lifecycle: "oget_or (mark_entry e l url now) ''lifecycle'' d = l"
  by (simp add: mark_entry_def oget_or_oput)

lemma refresh_class_ok:
  assumes "refresh_class ids url digest now (c, entry) = Inr ((c', entry'), rep)"
  obtains e e' where "c' = c" "entry = JObj e" "entry' = JObj e'"
    "oget_or e' ''lifecycle'' (JStr ''unknown'')
      = lifecycle_from_presence (oget_or e ''lifecycle'' (JStr ''unknown'')) (oget e ''model_id'' \<in> set ids)"
    "\<And>k. k \<notin> REFRESHED \<Longrightarrow> oget e' k = oget e k"
    "rep = [] \<longleftrightarrow> e' = e"
proof -
  from assms obtain e where e: "entry = JObj e" by (cases entry) (auto simp: refresh_class_def)
  let ?old = "oget_or e ''lifecycle'' (JStr ''unknown'')"
  let ?new = "lifecycle_from_presence ?old (oget e ''model_id'' \<in> set ids)"
  show thesis
  proof (cases "?new = ?old")
    case True
    with assms e have "c' = c" "entry' = JObj e" "rep = []"
      by (auto simp: refresh_class_def rbind_ok Let_def)
    with True e that show thesis by simp
  next
    case False
    with assms e have r: "c' = c" "entry' = JObj (mark_entry e ?new url now)" "rep \<noteq> []"
      by (auto simp: refresh_class_def rbind_ok Let_def)
    have "mark_entry e ?new url now \<noteq> e" using False mark_entry_lifecycle [of e ?new url now "JStr ''unknown''"] by auto
    with r e mark_entry_lifecycle mark_entry_other that show thesis by simp
  qed
qed

definition refreshed :: "json list \<Rightarrow> string \<times> json \<Rightarrow> string \<times> json \<Rightarrow> bool" where
  "refreshed ids x x' \<longleftrightarrow> fst x' = fst x \<and> (\<exists>e e'. snd x = JObj e \<and> snd x' = JObj e'
     \<and> oget_or e' ''lifecycle'' (JStr ''unknown'')
         = lifecycle_from_presence (oget_or e ''lifecycle'' (JStr ''unknown'')) (oget e ''model_id'' \<in> set ids)
     \<and> (\<forall>k. k \<notin> REFRESHED \<longrightarrow> oget e' k = oget e k))"

lemma refresh_classes_ok:
  assumes "rmap (refresh_class ids url digest now) cs = Inr rs"
  shows "list_all2 (refreshed ids) cs (map fst rs) \<and> (concat (map snd rs) = [] \<longleftrightarrow> map fst rs = cs)"
  using assms
proof (induction cs arbitrary: rs)
  case (Cons x cs)
  obtain c entry where x: "x = (c, entry)" by (cases x)
  from Cons.prems x obtain y rep rs' where r: "refresh_class ids url digest now (c, entry) = Inr (y, rep)"
    "rmap (refresh_class ids url digest now) cs = Inr rs'" "rs = (y, rep) # rs'"
    by (auto split: sum.splits)
  obtain c' entry' where y: "y = (c', entry')" by (cases y)
  from refresh_class_ok [OF r(1) [unfolded y]] have "refreshed ids x y" "rep = [] \<longleftrightarrow> y = x"
    unfolding refreshed_def x y by (metis fst_conv snd_conv, metis json.inject(6) prod.inject)
  with Cons.IH [OF r(2)] r(3) show ?case by auto
qed simp

lemma apply_refresh_ok:
  assumes "apply_refresh data ids url digest now = Inr (data', changed)" "oget_or data ''classes'' (JObj []) = JObj cs"
  shows "\<exists>cs'. oget_or data' ''classes'' (JObj []) = JObj cs' \<and> list_all2 (refreshed ids) cs cs'
    \<and> (\<forall>k. k \<noteq> ''classes'' \<longrightarrow> oget data' k = oget data k) \<and> (changed = [] \<longleftrightarrow> cs' = cs)
    \<and> oget data' ''schema'' = JStr ''shiroe.provider/v2''"
proof -
  from assms obtain rs where rs: "rmap (refresh_class ids url digest now) cs = Inr rs"
    "oget data ''schema'' = JStr ''shiroe.provider/v2''" "changed = concat (map snd rs)"
    "data' = (if ohas data ''classes'' then oput data ''classes'' (JObj (map fst rs)) else data)"
    by (auto simp: apply_refresh_def rbind_ok)
  have other: "oget data' k = oget data k" if "k \<noteq> ''classes''" for k
    using that unfolding rs(4) by (simp add: oget_oput)
  have schema: "oget data' ''schema'' = JStr ''shiroe.provider/v2''" using other [of "''schema''"] rs(2) by simp
  have "map fst rs = []" if "\<not> ohas data ''classes''"
    using that assms(2) rs(1) by (auto simp: ohas_def oget_or_def)
  then have classes: "oget_or data' ''classes'' (JObj []) = JObj (map fst rs)"
    unfolding rs(4) by (auto simp: oget_or_oput) (simp add: oget_or_def ohas_def)
  show ?thesis
    using refresh_classes_ok [OF rs(1)] other classes schema unfolding rs(3) by (intro exI [of _ "map fst rs"]) simp
qed

lemma refreshed_retired:
  assumes "refreshed ids x (c, JObj e)" "oget e ''model_id'' \<notin> set ids"
  shows "oget_or e ''lifecycle'' (JStr ''unknown'') = JStr ''retired''"
proof -
  from assms(1) obtain e0 where e0: "oget_or e ''lifecycle'' (JStr ''unknown'')
         = lifecycle_from_presence (oget_or e0 ''lifecycle'' (JStr ''unknown'')) (oget e0 ''model_id'' \<in> set ids)"
      "\<forall>k. k \<notin> REFRESHED \<longrightarrow> oget e k = oget e0 k"
    unfolding refreshed_def by (elim conjE exE) simp
  moreover have "''model_id'' \<notin> REFRESHED" by (simp add: REFRESHED_def)
  ultimately have "oget e0 ''model_id'' \<notin> set ids" using assms(2) by metis
  with e0(1) show ?thesis by (simp add: lifecycle_from_presence_def)
qed

lemma as_obj_Inr: "as_obj j = Inr o' \<Longrightarrow> j = JObj o'"
  by (cases j) auto

lemma mk_provider_ok:
  assumes "mk_provider (JObj d) = Inr p"
  shows "pv_schema p = oget d ''schema''" "map_of d ''classes'' = Some (JObj (pv_classes p))"
proof -
  from assms obtain name cs classes where "subscript d ''classes'' = Inr cs" "as_obj cs = Inr classes"
    "p = \<lparr>pv_schema = oget d ''schema'', pv_name = name, pv_classes = classes\<rparr>"
    by (auto simp: mk_provider_def rbind_ok)
  then show "pv_schema p = oget d ''schema''" "map_of d ''classes'' = Some (JObj (pv_classes p))"
    by (simp_all add: subscript_def as_obj_Inr split: option.splits)
qed

text \<open>What the gateway resolves live for an entry that fails closed.\<close>

lemma resolve_closed:
  assumes "resolve_spec p c True = Inr sp" "map_of (pv_classes p) c = Some (JObj e)"
    and closed: "\<And>cap. parse_capability (JObj e) (pv_schema p) = Inr cap \<Longrightarrow> fails_closed cap"
  shows "ms_warning sp = Some ''primary model unavailable; used fallback''"
proof -
  have fallback: "ms_warning sp = Some ''primary model unavailable; used fallback''" if "usable_fallback p c e = Inr (Some sp)"
    using that by (auto simp: usable_fallback_def rbind_ok spec_of_def split: if_splits)
  show ?thesis
  proof (cases "parse_capability (JObj e) (pv_schema p)")
    case (Inl x)
    with assms(1) show ?thesis unfolding resolve_spec_def assms(2) option.case by simp
  next
    case cap: (Inr cap)
    show ?thesis
    proof (cases "subscript e ''model_id''")
      case (Inl x)
      with assms(1) cap show ?thesis unfolding resolve_spec_def assms(2) option.case by simp
    next
      case (Inr m)
      from assms(1) have "rbind (usable_fallback p c e) (\<lambda>f. case f of Some sp \<Rightarrow> Inr sp
         | None \<Rightarrow> Inl (ReasoningPolicyError ''live call'')) = Inr sp"
        unfolding resolve_spec_def assms(2) option.case by (simp add: cap Inr closed [OF cap])
      then have "usable_fallback p c e = Inr (Some sp)" by (auto simp: rbind_ok split: option.splits)
      then show ?thesis by (rule fallback)
    qed
  qed
qed

text \<open>a refresh changes, of each class, at most the lifecycle, who verified it, when and where; an
  unlisted model is retired, a listed one keeps its lifecycle or leaves the unknown; everything
  else of the file is kept. And a model it retired is never called live: what the gateway resolves
  for its class is the fallback, or nothing.\<close>

theorem refresh_retires_unlisted_models:
  assumes "apply_refresh data ids url digest now = Inr (data', changed)" "oget_or data ''classes'' (JObj []) = JObj cs"
  shows "(\<exists>cs'. oget_or data' ''classes'' (JObj []) = JObj cs' \<and> list_all2 (refreshed ids) cs cs')
    \<and> (\<forall>k. k \<noteq> ''classes'' \<longrightarrow> oget data' k = oget data k)
    \<and> (\<forall>p c e sp. mk_provider (JObj data') = Inr p \<longrightarrow> map_of (pv_classes p) c = Some (JObj e)
        \<longrightarrow> oget e ''model_id'' \<notin> set ids \<longrightarrow> resolve_spec p c True = Inr sp
        \<longrightarrow> ms_warning sp = Some ''primary model unavailable; used fallback'')"
proof -
  obtain cs' where cs': "oget_or data' ''classes'' (JObj []) = JObj cs'" "list_all2 (refreshed ids) cs cs'"
    "\<forall>k. k \<noteq> ''classes'' \<longrightarrow> oget data' k = oget data k" "oget data' ''schema'' = JStr ''shiroe.provider/v2''"
    using apply_refresh_ok [OF assms] by (elim exE conjE)
  have "ms_warning sp = Some ''primary model unavailable; used fallback''"
    if p: "mk_provider (JObj data') = Inr p" "map_of (pv_classes p) c = Some (JObj e)"
      "oget e ''model_id'' \<notin> set ids" "resolve_spec p c True = Inr sp" for p c e sp
  proof -
    note pv = mk_provider_ok [OF p(1)]
    with cs'(1) have "pv_classes p = cs'" by (simp add: oget_or_def)
    with p(2) have "(c, JObj e) \<in> set cs'" by (simp add: map_of_SomeD)
    then obtain x where "refreshed ids x (c, JObj e)" using cs'(2)
      by (metis in_set_conv_nth list_all2_conv_all_nth)
    from refreshed_retired [OF this p(3)] have "oget_or e ''lifecycle'' (JStr ''unknown'') = JStr ''retired''" .
    then have closed: "fails_closed cap" if "parse_capability (JObj e) (pv_schema p) = Inr cap" for cap
      using that cs'(4) unfolding pv(1) by (auto simp: parse_capability_def rbind_ok fails_closed_def)
    from resolve_closed [OF p(4,2) closed] show ?thesis .
  qed
  note fallback = this
  show ?thesis
    by (intro conjI exI [of _ cs'] allI impI cs'(1,2) cs'(3) [rule_format]) (assumption | rule fallback)+
qed

lemma list_model_ids_effects:
  assumes "list_model_ids V http H provider s = (r, s')"
  shows "s' = s \<and> isl r \<or> (\<exists>url rq. map_of LIST_MODELS_ENDPOINTS provider = Some url \<and> api_request V provider url = Inr rq
    \<and> s' = s\<lparr>pk_requests := pk_requests s @ [rq]\<rparr>)"
proof (cases "map_of LIST_MODELS_ENDPOINTS provider")
  case None
  with assms show ?thesis by (auto simp: list_model_ids_def st_raise_def)
next
  case (Some url)
  show ?thesis
  proof (cases "api_request V provider url")
    case (Inl e)
    with assms Some show ?thesis by (auto simp: list_model_ids_def st_bind_def st_lift_def)
  next
    case (Inr rq)
    have "s' = s\<lparr>pk_requests := pk_requests s @ [rq]\<rparr>"
      using assms unfolding list_model_ids_def Some option.case
      by (auto simp: Inr st_bind_def st_lift_def st_ret_def split: sum.splits prod.splits)
    with Some Inr show ?thesis by blast
  qed
qed

lemma reading_effects:
  "snd (reading S http H now provider s) = s \<or>
   (\<exists>url rq. map_of LIST_MODELS_ENDPOINTS provider = Some url \<and> api_request (su_env S) provider url = Inr rq \<and>
      pk_requests (snd (reading S http H now provider s)) = pk_requests s @ [rq]) \<and>
    (\<forall>q. q = provider \<or> pk_files (snd (reading S http H now provider s)) q = pk_files s q)"
proof (cases "pk_files s provider")
  case None
  then show ?thesis by (simp add: reading_def st_bind_def st_get_def st_raise_def)
next
  case pf: (Some t)
  show ?thesis
  proof (cases "rbind (load_or_raise t) as_obj")
    case (Inl e)
    with pf show ?thesis by (simp add: reading_def st_bind_def st_get_def st_lift_def)
  next
    case (Inr data)
    obtain r s1 where l: "list_model_ids (su_env S) http H provider s = (r, s1)" by fastforce
    show ?thesis
    proof (cases r)
      case (Inl e)
      with pf Inr l have "snd (reading S http H now provider s) = s1"
        by (simp add: reading_def st_bind_def st_get_def st_lift_def)
      with list_model_ids_effects [OF l] show ?thesis by auto
    next
      case ok: (Inr x)
      obtain ids digest url where x: "x = (ids, digest, url)" by (metis prod_cases3)
      have "snd (reading S http H now provider s) = s1 \<or> (\<exists>data' changed. snd (reading S http H now provider s)
          = snd (write_provider provider data' changed s1))"
        using pf Inr l ok x
        by (auto simp: reading_def st_bind_def st_get_def st_lift_def st_ret_def write_provider_def split: sum.splits prod.splits)
      then have "pk_requests (snd (reading S http H now provider s)) = pk_requests s1"
        "\<forall>q. q = provider \<or> pk_files (snd (reading S http H now provider s)) q = pk_files s1 q"
        by (auto simp: write_provider_def split: if_splits)
      with list_model_ids_effects [OF l] ok show ?thesis by auto
    qed
  qed
qed

text \<open>a refresh that does anything had the permission of its connector: without it no request is sent
  and no file changes; with it at most one request is sent, to the endpoint of the provider and with
  its key, and only the file of that provider may change.\<close>

theorem refresh_needs_its_connector:
  "snd (refresh_provider S p http H now provider s) = s \<or>
   (require_connector S p ''provider_refresh'' (''providers-refresh:'' @ provider) = Inr () \<and>
    (\<exists>url rq. map_of LIST_MODELS_ENDPOINTS provider = Some url \<and> api_request (su_env S) provider url = Inr rq \<and>
      pk_requests (snd (refresh_provider S p http H now provider s)) = pk_requests s @ [rq]) \<and>
    (\<forall>q. q = provider \<or> pk_files (snd (refresh_provider S p http H now provider s)) q = pk_files s q))"
proof -
  let ?s = "snd (refresh_provider S p http H now provider s)"
  show ?thesis
  proof (cases "require_connector S p ''provider_refresh'' (''providers-refresh:'' @ provider)")
    case (Inl e)
    then show ?thesis by (simp add: refresh_provider_def st_bind_def st_lift_def)
  next
    case (Inr w)
    then have run: "refresh_provider S p http H now provider s = reading S http H now provider s"
      by (simp add: refresh_provider_def reading_def st_bind_def [of "st_lift _"] st_lift_def)
    from reading_effects [of S http H now provider s] show ?thesis unfolding run using Inr by simp
  qed
qed

end
