(* ===== verification/Migrations.thy ===== *)
theory Migrations
  imports Prelude
begin

text \<open>
  The runner of the schema migrations (\<open>migrations/__init__.py\<close>), for any database \<open>'d\<close> and any
  list of migrations. A migration changes the database and may raise; what it leaves then, rolled
  back or not, is its own. The script of a migration is not a transaction: \<open>executescript\<close> commits
  what is open and runs by itself.
\<close>

section \<open>Migrations\<close>

record 'd migration =
  mg_number :: nat
  mg_name :: string
  mg_destructive :: bool
  mg_up :: "'d \<Rightarrow> (exn + unit) \<times> 'd"

text \<open>The database, the rows of \<open>schema_version\<close> and the files below \<open>backups\<close>, the last one last.\<close>

record 'd versioned =
  vd_data :: 'd
  vd_applied :: "(nat \<times> string \<times> string) list"
  vd_backups :: "'d list"

definition discover_migrations :: "'d migration list \<Rightarrow> 'd migration list" where
  "discover_migrations ms = sort_key mg_number (sort_key mg_name ms)"

definition applied_numbers :: "'d versioned \<Rightarrow> nat set" where
  "applied_numbers s = fst ` set (vd_applied s)"

text \<open>\<open>intact\<close> is the integrity check of the copy; a database in memory has no file to copy.\<close>

record 'd backend =
  be_file :: bool
  be_intact :: "'d \<Rightarrow> bool"
  be_tables :: "'d \<Rightarrow> bool"

definition backup_database :: "'d backend \<Rightarrow> ('d versioned, unit) st" where
  "backup_database B s =
     (if \<not> be_file B then (Inl (RuntimeError ''cannot back up destructive migration for in-memory database''), s)
      else if \<not> be_intact B (vd_data s) then (Inl (RuntimeError ''destructive migration backup failed integrity check''), s)
      else (Inr (), s\<lparr>vd_backups := vd_backups s @ [vd_data s]\<rparr>))"

definition run_up :: "'d migration \<Rightarrow> ('d versioned, unit) st" where
  "run_up m s = (case mg_up m (vd_data s) of (r, d) \<Rightarrow> (r, s\<lparr>vd_data := d\<rparr>))"

definition record_applied :: "string \<Rightarrow> 'd migration \<Rightarrow> ('d versioned, unit) st" where
  "record_applied now m s =
     (if mg_number m \<in> applied_numbers s then (Inl (IntegrityError ''UNIQUE''), s)
      else (Inr (), s\<lparr>vd_applied := vd_applied s @ [(mg_number m, mg_name m, now)]\<rparr>))"

text \<open>The loop: \<open>backup\<close> is whether a destructive migration still asks for one.\<close>

fun run_migrations :: "'d backend \<Rightarrow> string \<Rightarrow> bool \<Rightarrow> 'd migration list \<Rightarrow> ('d versioned, string list) st" where
  "run_migrations B now backup [] = st_ret []"
| "run_migrations B now backup (m # ms) =
     st_bind (if mg_destructive m \<and> backup then backup_database B else st_ret ()) (\<lambda>_.
     st_bind (run_up m) (\<lambda>_.
     st_bind (record_applied now m) (\<lambda>_.
     st_bind (run_migrations B now (backup \<and> \<not> mg_destructive m) ms) (\<lambda>names.
     st_ret (mg_name m # names)))))"

definition pending :: "nat option \<Rightarrow> 'd migration list \<Rightarrow> 'd versioned \<Rightarrow> 'd migration list" where
  "pending target ms s = filter (\<lambda>m. (case target of None \<Rightarrow> True | Some t \<Rightarrow> mg_number m \<le> t) \<and> mg_number m \<notin> applied_numbers s)
     (discover_migrations ms)"

definition should_backup :: "'d backend \<Rightarrow> 'd versioned \<Rightarrow> bool" where
  "should_backup B s \<longleftrightarrow> vd_applied s \<noteq> [] \<or> be_tables B (vd_data s)"

definition migrate :: "'d backend \<Rightarrow> 'd migration list \<Rightarrow> string \<Rightarrow> nat option \<Rightarrow> ('d versioned, string list) st" where
  "migrate B ms now target s = run_migrations B now (should_backup B s) (pending target ms s) s"

definition current_version :: "'d versioned \<Rightarrow> nat" where
  "current_version s = (if vd_applied s = [] then 0 else Max (applied_numbers s))"

definition latest_migration :: "'d migration list \<Rightarrow> nat" where
  "latest_migration ms = (case rev (discover_migrations ms) of [] \<Rightarrow> 0 | m # _ \<Rightarrow> mg_number m)"

section \<open>What the runner guarantees\<close>

lemma run_up_keeps: "run_up m s = (r, s') \<Longrightarrow> vd_applied s' = vd_applied s \<and> vd_backups s' = vd_backups s"
  by (auto simp: run_up_def split: prod.splits)

lemma backup_ok: "backup_database B s = (Inr (), s') \<Longrightarrow> s' = s\<lparr>vd_backups := vd_backups s @ [vd_data s]\<rparr>"
  by (auto simp: backup_database_def split: if_splits)

lemma record_ok: "record_applied now m s = (Inr (), s') \<Longrightarrow>
    mg_number m \<notin> applied_numbers s \<and> s' = s\<lparr>vd_applied := vd_applied s @ [(mg_number m, mg_name m, now)]\<rparr>"
  by (auto simp: record_applied_def split: if_splits)

lemma run_migrations_ok:
  assumes "run_migrations B now b ms s = (Inr names, s')"
  shows "names = map mg_name ms \<and> vd_applied s' = vd_applied s @ map (\<lambda>m. (mg_number m, mg_name m, now)) ms"
  using assms
proof (induction ms arbitrary: b s names)
  case (Cons m ms)
  from Cons.prems obtain s1 s2 s3 names' where run:
    "(if mg_destructive m \<and> b then backup_database B else st_ret ()) s = (Inr (), s1)" "run_up m s1 = (Inr (), s2)"
    "record_applied now m s2 = (Inr (), s3)" "run_migrations B now (b \<and> \<not> mg_destructive m) ms s3 = (Inr names', s')"
    "names = mg_name m # names'"
    by (auto simp: st_bind_ok st_ret_def)
  have "vd_applied s1 = vd_applied s" using run(1) by (auto simp: st_ret_def split: if_splits dest: backup_ok)
  with run_up_keeps [OF run(2)] record_ok [OF run(3)] Cons.IH [OF run(4)] run(5) show ?case by simp
qed (simp add: st_ret_def)

text \<open>The data the first destructive migration of a list meets.\<close>

fun before_destruction :: "'d migration list \<Rightarrow> 'd \<Rightarrow> 'd" where
  "before_destruction [] d = d"
| "before_destruction (m # ms) d = (if mg_destructive m then d else before_destruction ms (snd (mg_up m d)))"

lemma run_migrations_backup:
  assumes "run_migrations B now b ms s = (Inr names, s')"
  shows "vd_backups s' = vd_backups s @ (if b \<and> list_ex mg_destructive ms then [before_destruction ms (vd_data s)] else [])"
  using assms
proof (induction ms arbitrary: b s names)
  case (Cons m ms)
  from Cons.prems obtain s1 s2 s3 names' where run:
    "(if mg_destructive m \<and> b then backup_database B else st_ret ()) s = (Inr (), s1)" "run_up m s1 = (Inr (), s2)"
    "record_applied now m s2 = (Inr (), s3)" "run_migrations B now (b \<and> \<not> mg_destructive m) ms s3 = (Inr names', s')"
    by (auto simp: st_bind_ok st_ret_def)
  have s1: "vd_backups s1 = vd_backups s @ (if mg_destructive m \<and> b then [vd_data s] else [])" "vd_data s1 = vd_data s"
    using run(1) by (auto simp: st_ret_def split: if_splits dest: backup_ok)
  have "vd_data s3 = snd (mg_up m (vd_data s))" "vd_backups s3 = vd_backups s1"
    using run(2) run_up_keeps [OF run(2)] record_ok [OF run(3)] s1(2) by (auto simp: run_up_def split: prod.splits)
  with s1 Cons.IH [OF run(4)] show ?case by simp
qed (simp add: st_ret_def)

lemma pending_after:
  assumes "vd_applied s' = vd_applied s @ map (\<lambda>m. (mg_number m, mg_name m, now)) (pending target ms s)"
  shows "pending target ms s' = []"
proof -
  have "applied_numbers s' = applied_numbers s \<union> mg_number ` set (pending target ms s)"
    unfolding applied_numbers_def assms by (simp add: image_Un image_image)
  then show ?thesis by (auto simp: pending_def filter_empty_conv)
qed

text \<open>a run that succeeds applies exactly the pending migrations, in the order of their numbers, and
  records each; a second run applies none and changes nothing; and when there was anything to
  lose and a destructive migration was pending, there is one new backup, of the data the first
  destructive migration met.\<close>

theorem migrations_apply_once_with_a_backup:
  assumes "migrate B ms now target s = (Inr names, s')"
  shows "names = map mg_name (pending target ms s) \<and> sorted (map mg_number (pending target ms s))
    \<and> vd_applied s' = vd_applied s @ map (\<lambda>m. (mg_number m, mg_name m, now)) (pending target ms s)
    \<and> migrate B ms now' target s' = (Inr [], s')
    \<and> vd_backups s' = vd_backups s @
        (if should_backup B s \<and> list_ex mg_destructive (pending target ms s)
         then [before_destruction (pending target ms s) (vd_data s)] else [])"
proof -
  note run = assms [unfolded migrate_def]
  have "sorted (map mg_number (pending target ms s))"
    by (simp add: pending_def discover_migrations_def sorted_filter)
  moreover have "migrate B ms now' target s' = (Inr [], s')"
    using pending_after [OF conjunct2 [OF run_migrations_ok [OF run]]] by (simp add: migrate_def st_ret_def)
  ultimately show ?thesis using run_migrations_ok [OF run] run_migrations_backup [OF run] by simp
qed

text \<open>Two migrations: one adds, one destroys.\<close>

definition migrations0 :: "nat migration list" where
  "migrations0 = [\<lparr>mg_number = 2, mg_name = ''m0002_b'', mg_destructive = True, mg_up = (\<lambda>d. (Inr (), 0))\<rparr>,
     \<lparr>mg_number = 1, mg_name = ''m0001_a'', mg_destructive = False, mg_up = (\<lambda>d. (Inr (), d + 1))\<rparr>]"

definition store0 :: "nat versioned" where
  "store0 = \<lparr>vd_data = 7, vd_applied = [], vd_backups = []\<rparr>"

definition backend0 :: "nat backend" where
  "backend0 = \<lparr>be_file = True, be_intact = (\<lambda>d. True), be_tables = (\<lambda>d. d \<noteq> 0)\<rparr>"

lemma migrations0_run:
  "migrate backend0 migrations0 ''t'' None store0
     = (Inr [''m0001_a'', ''m0002_b''], \<lparr>vd_data = 0, vd_applied = [(1, ''m0001_a'', ''t''), (2, ''m0002_b'', ''t'')], vd_backups = [8]\<rparr>)"
  by code_simp

lemma migrations_apply_once_with_a_backup_witness:
  "migrate backend0 migrations0 ''u'' None
     \<lparr>vd_data = 0, vd_applied = [(1, ''m0001_a'', ''t''), (2, ''m0002_b'', ''t'')], vd_backups = [8]\<rparr>
   = (Inr [], \<lparr>vd_data = 0, vd_applied = [(1, ''m0001_a'', ''t''), (2, ''m0002_b'', ''t'')], vd_backups = [8]\<rparr>)"
  using migrations_apply_once_with_a_backup [OF migrations0_run, of "''u''"] by (elim conjE)

end
