(* ===== verification/Cards.thy ===== *)
theory Cards
  imports Claims
begin

text \<open>
  The memory card of guarded writes (\<open>core/schema.py\<close>): its check, its dictionary and its maker. The
  type hints are not enforced at run time, so the optional fields keep whatever JSON value they are
  given.
\<close>

section \<open>Cards\<close>

definition MEMORY_TYPES :: "string set" where
  "MEMORY_TYPES = {''fact'', ''decision'', ''preference'', ''constraint'', ''risk'', ''unknown'', ''assumption'', ''task'',
     ''source_claim'', ''contradiction'', ''route_policy'', ''privacy_rule'', ''handoff''}"

definition MEMORY_STATUSES :: "string set" where
  "MEMORY_STATUSES = {''active'', ''superseded'', ''disputed'', ''archived'', ''rejected'', ''pending''}"

definition CONFIDENCE_LEVELS :: "string set" where
  "CONFIDENCE_LEVELS = {''low'', ''medium'', ''high'', ''unknown''}"

definition CARD_PRIVACY_CLASSES :: "string set" where
  "CARD_PRIVACY_CLASSES = {''public'', ''internal'', ''sensitive'', ''secret'', ''do_not_store''}"

record memory_card =
  ca_id :: string
  ca_type :: string
  ca_title :: string
  ca_claim :: string
  ca_status :: string
  ca_confidence :: string
  ca_grade :: string
  ca_sources :: "json list"
  ca_privacy :: string
  ca_created :: string
  ca_updated :: string
  ca_from :: json
  ca_until :: json
  ca_supersedes :: "json list"
  ca_superseded_by :: json
  ca_tags :: "json list"
  ca_owner :: string

definition required_text :: "string \<Rightarrow> string \<Rightarrow> exn + unit" where
  "required_text v field = rguard (strip v \<noteq> []) (ValidationError (field @ '' is required''))"

definition one_of_field :: "string \<Rightarrow> string set \<Rightarrow> string \<Rightarrow> exn + unit" where
  "one_of_field v allowed field = rguard (v \<in> allowed) (ValidationError (field @ '' must be one of''))"

fun all_checks :: "(exn + unit) list \<Rightarrow> exn + unit" where
  "all_checks [] = Inr ()"
| "all_checks (c # cs) = rbind c (\<lambda>_. all_checks cs)"

definition validate_memory_card :: "memory_card \<Rightarrow> exn + unit" where
  "validate_memory_card c = all_checks
     [required_text (ca_id c) ''id'', required_text (ca_type c) ''type'', required_text (ca_title c) ''title'',
      required_text (ca_claim c) ''claim'', required_text (ca_status c) ''status'',
      required_text (ca_confidence c) ''confidence'', required_text (ca_grade c) ''evidence_grade'',
      required_text (ca_privacy c) ''privacy_class'', required_text (ca_created c) ''created_at'',
      required_text (ca_updated c) ''updated_at'',
      one_of_field (ca_type c) MEMORY_TYPES ''type'', one_of_field (ca_status c) MEMORY_STATUSES ''status'',
      one_of_field (ca_confidence c) CONFIDENCE_LEVELS ''confidence'',
      one_of_field (ca_grade c) (set EVIDENCE_GRADES) ''evidence_grade'',
      one_of_field (ca_privacy c) CARD_PRIVACY_CLASSES ''privacy_class'',
      rguard (ca_type c \<in> set SOURCE_OPTIONAL_TYPES \<or> ca_sources c \<noteq> [])
        (ValidationError ''source_refs are required unless type is unknown or assumption'')]"

text \<open>\<open>MemoryCard(...)\<close>, with \<open>__post_init__\<close>.\<close>

definition mk_card :: "memory_card \<Rightarrow> exn + memory_card" where
  "mk_card c = rbind (validate_memory_card c) (\<lambda>_. Inr c)"

definition card_dict :: "memory_card \<Rightarrow> obj" where
  "card_dict c =
     [(''id'', JStr (ca_id c)), (''type'', JStr (ca_type c)), (''title'', JStr (ca_title c)), (''claim'', JStr (ca_claim c)),
      (''status'', JStr (ca_status c)), (''confidence'', JStr (ca_confidence c)), (''evidence_grade'', JStr (ca_grade c)),
      (''source_refs'', JList (ca_sources c)), (''privacy_class'', JStr (ca_privacy c)),
      (''created_at'', JStr (ca_created c)), (''updated_at'', JStr (ca_updated c)), (''valid_from'', ca_from c),
      (''valid_until'', ca_until c), (''supersedes'', JList (ca_supersedes c)), (''superseded_by'', ca_superseded_by c),
      (''tags'', JList (ca_tags c)), (''owner'', JStr (ca_owner c))]"

definition text_field :: "obj \<Rightarrow> string \<Rightarrow> string" where
  "text_field d k = py_str (oget_or d k (JStr []))"

definition list_field :: "obj \<Rightarrow> string \<Rightarrow> exn + json list" where
  "list_field d k = jiter (jor (oget d k) (JList []))"

definition card_of_dict :: "obj \<Rightarrow> exn + memory_card" where
  "card_of_dict d =
     rbind (list_field d ''source_refs'') (\<lambda>sources.
     rbind (list_field d ''supersedes'') (\<lambda>supersedes.
     rbind (list_field d ''tags'') (\<lambda>tags.
     mk_card \<lparr>ca_id = text_field d ''id'', ca_type = text_field d ''type'', ca_title = text_field d ''title'',
       ca_claim = text_field d ''claim'', ca_status = text_field d ''status'', ca_confidence = text_field d ''confidence'',
       ca_grade = text_field d ''evidence_grade'', ca_sources = sources, ca_privacy = text_field d ''privacy_class'',
       ca_created = text_field d ''created_at'', ca_updated = text_field d ''updated_at'', ca_from = oget d ''valid_from'',
       ca_until = oget d ''valid_until'', ca_supersedes = supersedes, ca_superseded_by = oget d ''superseded_by'',
       ca_tags = tags, ca_owner = py_str (jor (oget_or d ''owner'' (JStr ''shiroe'')) (JStr ''shiroe''))\<rparr>)))"

text \<open>\<open>create_memory_card\<close>: the time and its day are given; an id is made from the day and the counter.\<close>

definition four_digits :: "nat \<Rightarrow> string" where
  "four_digits n = (let s = nat_str n in replicate (4 - length s) (CHR ''0'') @ s)"

definition create_memory_card :: "string \<Rightarrow> string \<Rightarrow> nat \<Rightarrow> string option \<Rightarrow> memory_card \<Rightarrow> exn + memory_card" where
  "create_memory_card now day counter given c =
     mk_card (c\<lparr>ca_id := or_opt given (''mem_'' @ day @ ''_'' @ four_digits counter), ca_created := now, ca_updated := now\<rparr>)"

section \<open>Cards read back\<close>

text \<open>a card that was made reads back from its dictionary as itself, unless its owner is empty; and
  whatever dictionary is read, the result is a valid card or an exception.\<close>

theorem cards_read_back:
  assumes "mk_card c = Inr c" "ca_owner c \<noteq> []"
  shows "card_of_dict (card_dict c) = Inr c"
proof -
  have lists: "list_field (card_dict c) ''source_refs'' = Inr (ca_sources c)"
    "list_field (card_dict c) ''supersedes'' = Inr (ca_supersedes c)" "list_field (card_dict c) ''tags'' = Inr (ca_tags c)"
    by (simp_all add: list_field_def card_dict_def oget_def jor_def)
  show ?thesis
    unfolding card_of_dict_def lists using assms
    by (cases c) (simp add: text_field_def card_dict_def oget_def oget_or_def jor_def)
qed

lemma card_of_dict_valid: "card_of_dict d = Inr c \<Longrightarrow> validate_memory_card c = Inr ()"
  by (auto simp: card_of_dict_def mk_card_def rbind_ok)

definition card0 :: memory_card where
  "card0 = \<lparr>ca_id = ''mem_2025_03_04_0001'', ca_type = ''fact'', ca_title = ''t'', ca_claim = ''c'', ca_status = ''active'',
     ca_confidence = ''medium'', ca_grade = ''A'', ca_sources = [JStr ''README.md''], ca_privacy = ''public'',
     ca_created = ''now'', ca_updated = ''now'', ca_from = JNull, ca_until = JNull, ca_supersedes = [],
     ca_superseded_by = JNull, ca_tags = [], ca_owner = ''shiroe''\<rparr>"

lemma card0_made: "mk_card card0 = Inr card0"
  by code_simp

lemma cards_read_back_witness: "card_of_dict (card_dict card0) = Inr card0"
  using cards_read_back [OF card0_made] by (simp add: card0_def)

end
