(* ===== verification/Spec2Isabelle.thy ===== *)
theory Spec2Isabelle
  imports Rebuild Approval_Examples Work_Examples Remote_Examples Routing_Props Run_Gates Memory_Examples
    Redaction_Examples Bundle_Examples Egress_Examples Advice_Examples Handoff_Examples Project_Examples Transport
    Lock_Clients Refresh Migrations Cards
begin

text \<open>
  Shiroe is an event-sourced runtime for agent work: every accepted change of state is
  an event in a hash-chained log (one JSON line per event, one file per month), and the
  rows of a SQLite database are what reducers make of the events. On top of it stand the
  registry of capabilities, the policy chain with its human approvals, the Work Graphs
  that are planned, stored and executed, and the remote nodes that run parts of them.
  The source of all of it is under \<open>src/shiroe\<close>; file names below are relative to it.

  Parts, in the order of the imports.

  Foundations. Prelude: exceptions, computations with state and exceptions, Python
  strings. Json: JSON values, \<open>json.dumps\<close> and \<open>json.loads\<close>. Sql and
  Schema: the SQLite statements the program issues and the tables of
  \<open>migrations/m0100_current.py\<close>, with their constraints. Tables: what a
  statement leaves in a table, and the state \<open>world\<close> (log and database) the services
  share.

  Event log. Events models \<open>storage/events.py\<close>: envelopes, sealing, the walk that
  verifies the chain, recovery of the head marker, append. Chain proves what it
  guarantees: appending extends the chain, a crash between line and marker is repaired,
  a truncated log refuses to go on, histories with one tail hash are equal or exhibit a
  hash collision.

  Projections. Projections models the reducers of \<open>storage/records.py\<close> and
  \<open>storage/projections.py\<close>; Replay models \<open>EventLog.replay_into\<close>; Rebuild
  proves that a replay of the log gives exactly the tables the live writes gave, and what
  breaks it (an event whose rows the database refuses, an event dated in an earlier month).

  Policy. Policy models \<open>policy/schema.py\<close>, \<open>precedence.py\<close>,
  \<open>autonomy.py\<close>, \<open>engine.py\<close> and \<open>loader.py\<close>; Policy_Props proves that
  denies are final, that an allow has a grant, which kinds always need a human, and that
  write scopes are component prefixes.

  Capabilities. Lifecycle holds the locale of state machines with a guarded set and its
  instance for \<open>capabilities/lifecycle.py\<close>; Capabilities models the manifests, the
  digests of a source, the store and the execution gate; Capability_Props proves that the
  gate passes only the approved source and that drift quarantines.

  Approvals. Approvals models \<open>policy/approvals.py\<close>, \<open>policy/approval_service.py\<close>,
  \<open>policy/service.py\<close> and \<open>capabilities/onboarding.py\<close>; Approval_Props proves
  over every sequence of calls that only humans decide, what an approval authorises and
  what makes it stale.

  Work Graphs. Graphs models \<open>work/schema.py\<close>, \<open>work/compiler.py\<close> (with its
  iterative search for cycles, which ends and decides acyclicity) and
  \<open>work/readiness.py\<close>; Work_Store models \<open>work/store.py\<close>; Work_Props proves the
  round trips, the compare-and-swap of a status change and the states of approval nodes.

  Remote nodes. Node_Store models \<open>nodes/store.py\<close>, Remote models
  \<open>nodes/protocol.py\<close>, \<open>local_config.py\<close>, \<open>worker.py\<close> and
  \<open>dispatcher.py\<close>; Node_Props interprets the state machine locale on leases and proves
  mutual exclusion over every sequence of calls; Remote_Props proves what an acquired
  lease, a dispatch and a worker guarantee and that a package cannot be altered unseen.

  Model routing. Routing models \<open>core/reasoning.py\<close>, \<open>routing/criticality.py\<close>,
  \<open>routing/gateway.py\<close> and \<open>adapters/providers/base.py\<close>; Routing_Props proves that
  severity never lowers criticality and that the gateway grants within the entitlement.

  Execution. Budget models \<open>execution/budget.py\<close> with costs as doubles (rationals
  rounded to nearest even) and proves that a kept projection stays within the caps.
  Adapters models \<open>adapters/capabilities/cli.py\<close>, \<open>base.py\<close> and
  \<open>verification/review.py\<close>. Supervisor models \<open>execution/supervisor.py\<close>: the run of a
  stored graph as a computation over the world, the budget, the draws from outside and
  the record of executions and waits; every service it opens works on the same world.
  Run_Props and Run_Ends collect what its steps do to the table of nodes, Run_Returns
  proves that every run ends, Run_Bounds bounds executions and waits, Run_Gates proves
  what a completed node went through and that a required review cannot pass with the
  registered adapters. Run_Jobs and Run_Examples hold the projects these are tried on.

  Memory. Claims models \<open>verification/claims.py\<close> and the checks of
  \<open>verification/engine.py\<close>; Memory models \<open>memory/service.py\<close>, \<open>search.py\<close>,
  \<open>recall.py\<close> and the writers of \<open>storage/records.py\<close>; Memory_Props proves that no
  two current memories contradict each other, that refused writes leave no record and
  that a search returns the best hits, Memory_Reads that a written memory reads back.

  Redaction. Regex models what the program uses of Python's \<open>re\<close>: a backtracking
  matcher over lists of code points, \<open>finditer\<close> and \<open>sub\<close>. Redaction models
  \<open>privacy.py\<close>: the patterns, the parser of REDACT.md, the decoders and the surfaces a
  text is scanned on, and \<open>scrub\<close> with its report. Redaction_Props proves that spans
  are merged and replaced exactly, that a report without hits means that no credential
  matches on any surface, and that the credentials class cannot be switched off (its
  locale \<open>hit_counter\<close> is interpreted on the counters of all hits and of the
  credential hits). Privacy_Audit models the archives and \<open>audit\<close> and proves that a
  strict audit without findings covered clean texts only.

  Egress. Egress models \<open>security/policy.py\<close> and \<open>env.py\<close>: the frontmatter of
  PRIVACY.md, the connector blocks of SHARING_POLICY.md, the environment and the two guards
  over the policy stack. It proves what an outbound call needs, exactly. Transport models
  \<open>transport/tailscale.py\<close> and \<open>tailscale_ssh.py\<close> and proves that a package leaves
  only with permission and which events a run can log.

  Views, audit and handoffs. Views models \<open>storage/views.py\<close> and proves that a rebuilt
  store has the same views. Audit_Trail models \<open>audit/logger.py\<close> and \<open>audit/reports.py\<close>: the
  trail is only appended to, and each line read is an event, skipped or reported as corrupt.
  Handoff models \<open>handoff/compiler.py\<close> and proves which memories a packet exports, and that
  their sources leave as they are stored. Advice models \<open>agents/approval_advisor.py\<close> and
  proves that advice decides nothing and that a replay loses it. Project models
  \<open>memory/core.py\<close>: discovery, the scaffold, which keeps the files of the user but one, and
  decisions written with their views.

  Concurrency. Lock models \<open>lock.py\<close>: processes in any interleaving that wait for
  \<open>memory/.lock\<close>, hold it, raise or die, and the staged writes of \<open>atomic_write\<close>. Its locale
  \<open>critical\<close> proves of any section made of steps that all interleavings are serial;
  Lock_Clients interprets it on the append of an event, the audit trail and the files of a
  handoff, and proves that a holder that dies stops the log for good. A wait misses less than
  a hundred times per second of its timeout.

  Providers, migrations, cards. Refresh models \<open>adapters/providers/refresh.py\<close>, behind the
  connector of Egress and before the gateway of Routing: what a refresh may change, and that a
  retired model is not called. Migrations models the runner of \<open>migrations/__init__.py\<close> over any
  migrations: each is applied once, in order, after a backup. Cards models \<open>core/schema.py\<close>.

  Transfer. Bundle models \<open>transfer/bundle.py\<close> over directory trees, with any
  operation of an extraction made to fail; Bundle_Props proves that an extraction is all
  or nothing.

  The theories named Examples apply the properties at concrete inputs.

  Correspondence. A Python \<open>str\<close> is a list of characters, \<open>int\<close> is the unbounded
  \<open>int\<close>, a \<open>float\<close> keeps the text \<open>repr\<close> gives it, a \<open>dict\<close> is an
  association list in insertion order, a dataclass is a record, an Enum a datatype. A
  raise is a value of \<open>exn\<close>; an operation with effects takes the state and returns it
  with its result or its exception, so the writes before a raise stay. Parameters stand
  for what is outside the source or not computable here: SHA-256 (\<open>rt_hash\<close>), in
  the theories that store texts the redaction of one string (\<open>rt_scrub\<close>) and the classes
  that hit it, in Redaction the tables of the Unicode standard and the compiler of custom
  patterns, in Privacy_Audit what git says of the tree and what the archive readers
  return, in Handoff the scrubber of one text, which \<open>text_scrubber\<close> gives from Redaction,
  in Transport what processes answer and how the peer was probed, in Refresh what the provider
  answers, in Migrations the database and what a migration does to it, the clock and the
  uuids of one operation (\<open>clock\<close>), the parser of time stamps, \<open>tailscale whois\<close>, the
  executor of a remote package, and what an adapter or a process answers. Statements about digests are of the form \<open>equal or a collision is
  exhibited\<close>; no property of SHA-256 is assumed.

  Bounds and termination. Every function is total. The JSON reader takes its fuel from
  the length of the text, which is proved to be enough for what \<open>json.dumps\<close> writes;
  the search for cycles has a measure. The loop of the supervisor has one pass of fuel
  more than there are rows of nodes; Run_Returns proves that this is never used up, since
  every pass that does not return completes a node that was waiting.

  Not modelled: the command line, the database connection, the detection of harnesses and
  the files written for them, which are input and output around the parts above, the printed
  reports and the probe of adapters, the scan for capabilities, and the scripts of the repository, which check the repository itself. The manifest
  lists them.
\<close>

end
